(* ===== verification/RustStd.thy ===== *)
theory RustStd
  imports Main "HOL-Library.Word" "HOL-Library.Char_ord" "HOL-Library.List_Lexorder"
begin

text \<open>
  The part of the Rust language and of its standard library that the program uses:
  \<open>Result\<close> and the \<open>?\<close> operator, methods on \<open>&mut self\<close> that may fail, the
  \<open>usize\<close> and \<open>u64\<close> arithmetic, \<open>str\<close> and \<open>[u8]\<close> as lists of bytes, and
  \<open>BTreeMap\<close> as a sorted association list. The generic lemmas that the component
  theories share are declared here, most of them as simp rules.
\<close>

section \<open>Results\<close>

text \<open>
  \<open>Result<T, E>\<close> is \<open>'e + 'a\<close> with \<open>Inl\<close> for \<open>Err\<close>. The \<open>?\<close> operator is
  \<open>and_then\<close>: an error returns at once.
\<close>

definition and_then :: "'e + 'a \<Rightarrow> ('a \<Rightarrow> 'e + 'b) \<Rightarrow> 'e + 'b" where
  "and_then r f = (case r of Inl e \<Rightarrow> Inl e | Inr a \<Rightarrow> f a)"

definition map_err :: "('e \<Rightarrow> 'f) \<Rightarrow> 'e + 'a \<Rightarrow> 'f + 'a" where
  "map_err g r = (case r of Inl e \<Rightarrow> Inl (g e) | Inr a \<Rightarrow> Inr a)"

definition ok_or :: "'e \<Rightarrow> 'a option \<Rightarrow> 'e + 'a" where
  "ok_or e x = (case x of None \<Rightarrow> Inl e | Some a \<Rightarrow> Inr a)"

definition unwrap_or :: "'a option \<Rightarrow> 'a \<Rightarrow> 'a" where
  "unwrap_or x d = (case x of None \<Rightarrow> d | Some a \<Rightarrow> a)"

lemma unwrap_or_simps [simp]:
  "unwrap_or None d = d"
  "unwrap_or (Some a) d = a"
  by (simp_all add: unwrap_or_def)

lemma and_then_simps [simp]:
  "and_then (Inl e) f = Inl e"
  "and_then (Inr a) f = f a"
  by (simp_all add: and_then_def)

lemma and_then_eq_Inr [simp]: "and_then r f = Inr b \<longleftrightarrow> (\<exists>a. r = Inr a \<and> f a = Inr b)"
  by (cases r) simp_all

lemma map_err_simps [simp]:
  "map_err g (Inl e) = Inl (g e)"
  "map_err g (Inr a) = Inr a"
  by (simp_all add: map_err_def)

lemma map_err_eq_Inr [simp]: "map_err g r = Inr a \<longleftrightarrow> r = Inr a"
  by (cases r) simp_all

lemma ok_or_simps [simp]:
  "ok_or e None = Inl e"
  "ok_or e (Some a) = Inr a"
  by (simp_all add: ok_or_def)

lemma ok_or_eq_Inr [simp]: "ok_or e x = Inr a \<longleftrightarrow> x = Some a"
  by (cases x) simp_all

text \<open>
  A loop \<open>for x in xs\<close> whose body may return early with an error and updates the
  accumulator \<open>s\<close>.
\<close>

fun try_fold :: "('s \<Rightarrow> 'a \<Rightarrow> 'e + 's) \<Rightarrow> 's \<Rightarrow> 'a list \<Rightarrow> 'e + 's" where
  "try_fold f s [] = Inr s"
| "try_fold f s (x # xs) = and_then (f s x) (\<lambda>s'. try_fold f s' xs)"

lemma try_fold_invariant:
  assumes "try_fold f s xs = Inr s'" and "P s"
    and "\<And>s x s'. x \<in> set xs \<Longrightarrow> P s \<Longrightarrow> f s x = Inr s' \<Longrightarrow> P s'"
  shows "P s'"
  using assms
proof (induction xs arbitrary: s)
  case Nil
  then show ?case by simp
next
  case (Cons x xs)
  then obtain t where t: "f s x = Inr t" "try_fold f t xs = Inr s'" by auto
  with Cons.prems have "P t" by auto
  with t Cons.prems(3) show ?case by (intro Cons.IH [of t]) auto
qed

section \<open>Methods on \<open>&mut self\<close>\<close>

text \<open>
  A method that mutates its receiver and may fail is a function from the receiver to a
  result together with the receiver as the method leaves it, also when it fails.
\<close>

type_synonym ('s, 'e, 'a) action = "'s \<Rightarrow> ('e + 'a) \<times> 's"

definition act :: "('s, 'e, 'a) action \<Rightarrow> ('a \<Rightarrow> ('s, 'e, 'b) action) \<Rightarrow> ('s, 'e, 'b) action" where
  "act m f = (\<lambda>s. case m s of (Inl e, t) \<Rightarrow> (Inl e, t) | (Inr a, t) \<Rightarrow> f a t)"

definition act_ok :: "'a \<Rightarrow> ('s, 'e, 'a) action" where
  "act_ok a = (\<lambda>s. (Inr a, s))"

definition act_err :: "'e \<Rightarrow> ('s, 'e, 'a) action" where
  "act_err e = (\<lambda>s. (Inl e, s))"

definition act_upd :: "('s \<Rightarrow> 's) \<Rightarrow> ('s, 'e, unit) action" where
  "act_upd u = (\<lambda>s. (Inr (), u s))"

definition act_map_err :: "('e \<Rightarrow> 'f) \<Rightarrow> ('s, 'e, 'a) action \<Rightarrow> ('s, 'f, 'a) action" where
  "act_map_err g m = (\<lambda>s. case m s of (r, t) \<Rightarrow> (map_err g r, t))"

lemma act_ok_apply [simp]: "act_ok a s = (Inr a, s)"
  by (simp add: act_ok_def)

lemma act_err_apply [simp]: "act_err e s = (Inl e, s)"
  by (simp add: act_err_def)

lemma act_upd_apply [simp]: "act_upd u s = (Inr (), u s)"
  by (simp add: act_upd_def)

lemma act_apply: "act m f s = (case m s of (Inl e, t) \<Rightarrow> (Inl e, t) | (Inr a, t) \<Rightarrow> f a t)"
  by (simp add: act_def)

lemma act_simps [simp]:
  "m s = (Inl e, t) \<Longrightarrow> act m f s = (Inl e, t)"
  "m s = (Inr a, t) \<Longrightarrow> act m f s = f a t"
  by (simp_all add: act_def)

lemma act_Inr: "act m f s = (Inr b, t) \<longleftrightarrow> (\<exists>a s'. m s = (Inr a, s') \<and> f a s' = (Inr b, t))"
  by (auto simp: act_apply split: prod.splits sum.splits)

lemma act_map_err_apply [simp]:
  "fst (act_map_err g m s) = map_err g (fst (m s))"
  "snd (act_map_err g m s) = snd (m s)"
  by (simp_all add: act_map_err_def split: prod.split)

text \<open>
  An invariant of the receiver that every step of a method keeps is kept by the method,
  on the error paths too.
\<close>

definition keeps :: "('s \<Rightarrow> bool) \<Rightarrow> ('s, 'e, 'a) action \<Rightarrow> bool" where
  "keeps P m \<longleftrightarrow> (\<forall>s. P s \<longrightarrow> P (snd (m s)))"

named_theorems keeps_intros \<open>rules that show that a method keeps an invariant\<close>

lemma keepsI: "(\<And>s. P s \<Longrightarrow> P (snd (m s))) \<Longrightarrow> keeps P m"
  by (simp add: keeps_def)

lemma keepsD: "keeps P m \<Longrightarrow> P s \<Longrightarrow> P (snd (m s))"
  by (simp add: keeps_def)

lemma keeps_act [keeps_intros]: "keeps P m \<Longrightarrow> (\<And>a. keeps P (f a)) \<Longrightarrow> keeps P (act m f)"
  by (fastforce simp: keeps_def act_def split: prod.splits sum.splits)

lemma keeps_ok [keeps_intros]: "keeps P (act_ok a)"
  by (simp add: keeps_def)

lemma keeps_err [keeps_intros]: "keeps P (act_err e)"
  by (simp add: keeps_def)

lemma keeps_upd: "(\<And>s. P s \<Longrightarrow> P (u s)) \<Longrightarrow> keeps P (act_upd u)"
  by (simp add: keeps_def)

lemma keeps_map_err [keeps_intros]: "keeps P m \<Longrightarrow> keeps P (act_map_err g m)"
  by (simp add: keeps_def)

lemma keeps_if [keeps_intros]: "keeps P m \<Longrightarrow> keeps P n \<Longrightarrow> keeps P (if b then m else n)"
  by simp

lemma keeps_option [keeps_intros]:
  "keeps P m \<Longrightarrow> (\<And>a. keeps P (f a)) \<Longrightarrow> keeps P (case x of None \<Rightarrow> m | Some a \<Rightarrow> f a)"
  by (cases x) simp_all

text \<open>The loop \<open>for x in xs\<close> over such methods.\<close>

fun act_each :: "('a \<Rightarrow> ('s, 'e, unit) action) \<Rightarrow> 'a list \<Rightarrow> ('s, 'e, unit) action" where
  "act_each f [] = act_ok ()"
| "act_each f (x # xs) = act (f x) (\<lambda>_. act_each f xs)"

lemma keeps_each [keeps_intros]: "(\<And>x. keeps P (f x)) \<Longrightarrow> keeps P (act_each f xs)"
  by (induction xs) (auto intro: keeps_intros)

end
