(* ===== verification/RustNum.thy ===== *)
theory RustNum
  imports RustStd
begin

text \<open>
  Machine integers. A \<open>usize\<close> counts bytes or items in memory and is modelled as a
  \<open>nat\<close> with the bound of a 64-bit target written out; a \<open>u64\<close> that comes from the
  outside (an index or a token count of an upstream event) is a \<open>64 word\<close>.
\<close>

type_synonym u64 = "64 word"

definition usize_max :: nat where
  "usize_max = 2 ^ 64 - 1"

definition checked_add :: "nat \<Rightarrow> nat \<Rightarrow> nat option" where
  "checked_add a b = (if a + b \<le> usize_max then Some (a + b) else None)"

definition saturating_add :: "nat \<Rightarrow> nat \<Rightarrow> nat" where
  "saturating_add a b = min usize_max (a + b)"

definition saturating_sub :: "nat \<Rightarrow> nat \<Rightarrow> nat" where
  "saturating_sub a b = a - b"

definition saturating_add_u64 :: "u64 \<Rightarrow> u64 \<Rightarrow> u64" where
  "saturating_add_u64 a b = (if unat a + unat b < 2 ^ 64 then a + b else - 1)"

lemma checked_add_Some [simp]: "checked_add a b = Some c \<longleftrightarrow> c = a + b \<and> a + b \<le> usize_max"
  by (auto simp: checked_add_def)

lemma checked_add_None [simp]: "checked_add a b = None \<longleftrightarrow> usize_max < a + b"
  by (auto simp: checked_add_def)

lemma saturating_add_gt: "m \<le> usize_max \<Longrightarrow> m < saturating_add a b \<longleftrightarrow> m < usize_max \<and> m < a + b"
  by (auto simp: saturating_add_def)

lemma unat_u64_max: "unat (- 1 :: u64) = 2 ^ 64 - 1"
  by (simp add: unsigned_minus_1_eq_mask mask_eq_exp_minus_1)

lemma unat_u64_le: "unat (w :: u64) \<le> 2 ^ 64 - 1"
proof -
  have "unat w < 2 ^ 64" using unsigned_less [of w] by simp
  then show ?thesis by simp
qed

lemma unat_saturating_add_u64: "unat (saturating_add_u64 a b) = min (2 ^ 64 - 1) (unat a + unat b)"
proof (cases "unat a + unat b < 2 ^ 64")
  case True
  then have "unat (a + b) = unat a + unat b"
    by (simp add: unat_word_ariths)
  with True show ?thesis by (simp add: saturating_add_u64_def)
next
  case False
  then show ?thesis by (simp add: saturating_add_u64_def unat_u64_max)
qed

text \<open>
  \<open>(0..=n).rev().find(p)\<close>: the largest \<open>k \<le> n\<close> with \<open>p k\<close>.
\<close>

fun find_down :: "nat \<Rightarrow> (nat \<Rightarrow> bool) \<Rightarrow> nat option" where
  "find_down 0 p = (if p 0 then Some 0 else None)"
| "find_down (Suc n) p = (if p (Suc n) then Some (Suc n) else find_down n p)"

lemma find_down_Some: "find_down n p = Some k \<Longrightarrow> k \<le> n \<and> p k"
  by (induction n) (auto split: if_splits)

lemma find_down_maximal: "find_down n p = Some k \<Longrightarrow> k < j \<Longrightarrow> j \<le> n \<Longrightarrow> \<not> p j"
  by (induction n) (auto split: if_splits simp: le_Suc_eq)

lemma find_down_total: "p 0 \<Longrightarrow> \<exists>k. find_down n p = Some k"
  by (induction n) auto

lemma find_down_largest: "find_down n p = Some k \<Longrightarrow> p j \<Longrightarrow> j \<le> n \<Longrightarrow> j \<le> k"
  using find_down_maximal not_le_imp_less by blast

end
