(* ===== verification/RustStr.thy ===== *)
theory RustStr
  imports RustNum
begin

text \<open>
  \<open>str\<close>, \<open>String\<close>, \<open>[u8]\<close> and \<open>Bytes\<close> are lists of bytes, a \<open>char\<close> of HOL being
  one byte; the bytes of a \<open>str\<close> are its UTF-8 encoding, so that \<open>length\<close> is
  \<open>str::len\<close>. The methods below work on the bytes; where Rust decides by Unicode
  scalar values (\<open>trim\<close>, \<open>char::is_control\<close>) the encodings of those values are
  matched. A String literal of the source is a literal here.
\<close>

type_synonym str = string

abbreviation byte :: "char \<Rightarrow> nat" where
  "byte c \<equiv> of_char c"

section \<open>Byte classes\<close>

definition is_ascii_lowercase :: "char \<Rightarrow> bool" where
  "is_ascii_lowercase c \<longleftrightarrow> 97 \<le> byte c \<and> byte c \<le> 122"

definition is_ascii_uppercase :: "char \<Rightarrow> bool" where
  "is_ascii_uppercase c \<longleftrightarrow> 65 \<le> byte c \<and> byte c \<le> 90"

definition is_ascii_digit :: "char \<Rightarrow> bool" where
  "is_ascii_digit c \<longleftrightarrow> 48 \<le> byte c \<and> byte c \<le> 57"

definition is_ascii_alphanumeric :: "char \<Rightarrow> bool" where
  "is_ascii_alphanumeric c \<longleftrightarrow> is_ascii_lowercase c \<or> is_ascii_uppercase c \<or> is_ascii_digit c"

definition ascii_lower :: "char \<Rightarrow> char" where
  "ascii_lower c = (if is_ascii_uppercase c then char_of (byte c + 32) else c)"

definition to_ascii_lowercase :: "str \<Rightarrow> str" where
  "to_ascii_lowercase s = map ascii_lower s"

definition eq_ignore_ascii_case :: "str \<Rightarrow> str \<Rightarrow> bool" where
  "eq_ignore_ascii_case s t \<longleftrightarrow> to_ascii_lowercase s = to_ascii_lowercase t"

section \<open>White space and control characters\<close>

text \<open>
  The code points with the property White\_Space have one, two or three bytes in UTF-8:
  U+0009 to U+000D and U+0020; U+0085 and U+00A0; U+1680, U+2000 to U+200A, U+2028,
  U+2029, U+202F, U+205F and U+3000.
\<close>

definition ws1 :: "char \<Rightarrow> bool" where
  "ws1 a \<longleftrightarrow> 9 \<le> byte a \<and> byte a \<le> 13 \<or> byte a = 32"

definition ws2 :: "char \<Rightarrow> char \<Rightarrow> bool" where
  "ws2 a b \<longleftrightarrow> byte a = 194 \<and> (byte b = 133 \<or> byte b = 160)"

definition ws3 :: "char \<Rightarrow> char \<Rightarrow> char \<Rightarrow> bool" where
  "ws3 a b c \<longleftrightarrow>
     byte a = 225 \<and> byte b = 154 \<and> byte c = 128 \<or>
     byte a = 226 \<and> byte b = 128 \<and>
       (128 \<le> byte c \<and> byte c \<le> 138 \<or> byte c = 168 \<or> byte c = 169 \<or> byte c = 175) \<or>
     byte a = 226 \<and> byte b = 129 \<and> byte c = 159 \<or>
     byte a = 227 \<and> byte b = 128 \<and> byte c = 128"

fun trim_start :: "str \<Rightarrow> str" where
  "trim_start [] = []"
| "trim_start [a] = (if ws1 a then [] else [a])"
| "trim_start [a, b] =
     (if ws1 a then trim_start [b] else if ws2 a b then [] else [a, b])"
| "trim_start (a # b # c # s) =
     (if ws1 a then trim_start (b # c # s)
      else if ws2 a b then trim_start (c # s)
      else if ws3 a b c then trim_start s
      else a # b # c # s)"

text \<open>
  \<open>trim_end\<close> looks at the last character; in UTF-8 the last bytes determine it. The
  bytes are read from the back.
\<close>

fun trim_back :: "str \<Rightarrow> str" where
  "trim_back [] = []"
| "trim_back [a] = (if ws1 a then [] else [a])"
| "trim_back [b, a] =
     (if ws1 b then trim_back [a] else if ws2 a b then [] else [b, a])"
| "trim_back (c # b # a # s) =
     (if ws1 c then trim_back (b # a # s)
      else if ws2 b c then trim_back (a # s)
      else if ws3 a b c then trim_back s
      else c # b # a # s)"

definition trim_end :: "str \<Rightarrow> str" where
  "trim_end s = rev (trim_back (rev s))"

definition trim :: "str \<Rightarrow> str" where
  "trim s = trim_end (trim_start s)"

text \<open>\<open>chars().any(char::is_control)\<close>: U+0000 to U+001F and U+007F to U+009F.\<close>

fun any_control :: "str \<Rightarrow> bool" where
  "any_control [] \<longleftrightarrow> False"
| "any_control [a] \<longleftrightarrow> byte a < 32 \<or> byte a = 127"
| "any_control (a # b # s) \<longleftrightarrow>
     byte a < 32 \<or> byte a = 127 \<or> byte a = 194 \<and> 128 \<le> byte b \<and> byte b \<le> 159 \<or>
     any_control (b # s)"

text \<open>\<open>chars().any(char::is_whitespace)\<close>\<close>

fun any_whitespace :: "str \<Rightarrow> bool" where
  "any_whitespace [] \<longleftrightarrow> False"
| "any_whitespace [a] \<longleftrightarrow> ws1 a"
| "any_whitespace [a, b] \<longleftrightarrow> ws1 a \<or> ws2 a b \<or> any_whitespace [b]"
| "any_whitespace (a # b # c # s) \<longleftrightarrow>
     ws1 a \<or> ws2 a b \<or> ws3 a b c \<or> any_whitespace (b # c # s)"

lemmas trim_eval = trim_def trim_end_def ws1_def ws2_def ws3_def

lemma length_trim_start: "length (trim_start s) \<le> length s"
  by (induction s rule: trim_start.induct) auto

lemma length_trim_back: "length (trim_back s) \<le> length s"
  by (induction s rule: trim_back.induct) auto

lemma length_trim: "length (trim s) \<le> length s"
  using length_trim_back [of "rev (trim_start s)"] length_trim_start [of s]
  by (simp add: trim_def trim_end_def)

section \<open>Searching and splitting\<close>

fun strip_prefix :: "str \<Rightarrow> str \<Rightarrow> str option" where
  "strip_prefix [] s = Some s"
| "strip_prefix (p # ps) [] = None"
| "strip_prefix (p # ps) (c # s) = (if p = c then strip_prefix ps s else None)"

definition starts_with :: "str \<Rightarrow> str \<Rightarrow> bool" where
  "starts_with p s \<longleftrightarrow> take (length p) s = p"

definition ends_with :: "str \<Rightarrow> str \<Rightarrow> bool" where
  "ends_with p s \<longleftrightarrow> starts_with (rev p) (rev s)"

text \<open>\<open>split_once(c)\<close> and \<open>rsplit_once(c)\<close> for a one-byte separator.\<close>

fun split_once :: "char \<Rightarrow> str \<Rightarrow> (str \<times> str) option" where
  "split_once c [] = None"
| "split_once c (d # s) =
     (if c = d then Some ([], s) else map_option (\<lambda>(a, b). (d # a, b)) (split_once c s))"

definition rsplit_once :: "char \<Rightarrow> str \<Rightarrow> (str \<times> str) option" where
  "rsplit_once c s = map_option (\<lambda>(a, b). (rev b, rev a)) (split_once c (rev s))"

text \<open>The same for a longer separator.\<close>

fun split_once_str :: "str \<Rightarrow> str \<Rightarrow> (str \<times> str) option" where
  "split_once_str sep [] = (if sep = [] then Some ([], []) else None)"
| "split_once_str sep (d # s) =
     (case strip_prefix sep (d # s) of
        Some r \<Rightarrow> Some ([], r)
      | None \<Rightarrow> map_option (\<lambda>(a, b). (d # a, b)) (split_once_str sep s))"

definition rsplit_once_str :: "str \<Rightarrow> str \<Rightarrow> (str \<times> str) option" where
  "rsplit_once_str sep s = map_option (\<lambda>(a, b). (rev b, rev a)) (split_once_str (rev sep) (rev s))"

text \<open>\<open>split(c)\<close>: one piece more than there are separators.\<close>

fun split_on :: "char \<Rightarrow> str \<Rightarrow> str list" where
  "split_on c [] = [[]]"
| "split_on c (d # s) =
     (if c = d then [] # split_on c s
      else (case split_on c s of [] \<Rightarrow> [[d]] | p # ps \<Rightarrow> (d # p) # ps))"

definition trim_start_matches :: "char list \<Rightarrow> str \<Rightarrow> str" where
  "trim_start_matches cs s = dropWhile (\<lambda>c. c \<in> set cs) s"

definition trim_end_matches :: "char list \<Rightarrow> str \<Rightarrow> str" where
  "trim_end_matches cs s = rev (dropWhile (\<lambda>c. c \<in> set cs) (rev s))"

definition trim_matches :: "char list \<Rightarrow> str \<Rightarrow> str" where
  "trim_matches cs s = trim_end_matches cs (trim_start_matches cs s)"

fun join_with :: "str \<Rightarrow> str list \<Rightarrow> str" where
  "join_with sep [] = []"
| "join_with sep [s] = s"
| "join_with sep (s # t # ss) = s @ sep @ join_with sep (t # ss)"

text \<open>\<open>replace("\r\n", "\n")\<close>\<close>

abbreviation CR :: char where "CR \<equiv> CHR 0x0D"
abbreviation LF :: char where "LF \<equiv> CHR 0x0A"

fun replace_crlf :: "str \<Rightarrow> str" where
  "replace_crlf [] = []"
| "replace_crlf [a] = [a]"
| "replace_crlf (a # b # s) =
     (if a = CR \<and> b = LF then LF # replace_crlf s else a # replace_crlf (b # s))"

text \<open>
  \<open>lines()\<close>: the pieces that end with a line feed, without it and without a carriage
  return before it, and the rest when it is not empty.
\<close>

definition strip_cr :: "str \<Rightarrow> str" where
  "strip_cr l = (if l \<noteq> [] \<and> last l = CR then butlast l else l)"

fun lines_acc :: "str \<Rightarrow> str \<Rightarrow> str list" where
  "lines_acc acc [] = (if acc = [] then [] else [rev acc])"
| "lines_acc acc (c # s) =
     (if c = LF then strip_cr (rev acc) # lines_acc [] s else lines_acc (c # acc) s)"

definition lines :: "str \<Rightarrow> str list" where
  "lines s = lines_acc [] s"

lemma split_once_Some: "split_once c s = Some (a, b) \<longleftrightarrow> s = a @ c # b \<and> c \<notin> set a"
proof (induction s arbitrary: a)
  case (Cons d s)
  show ?case
  proof (cases a)
    case Nil
    then show ?thesis by auto
  next
    case (Cons e a')
    with Cons.IH [of a'] show ?thesis by auto
  qed
qed simp

lemma split_once_None: "split_once c s = None \<longleftrightarrow> c \<notin> set s"
  by (induction s) auto

lemma rsplit_once_Some: "rsplit_once c s = Some (a, b) \<longleftrightarrow> s = a @ c # b \<and> c \<notin> set b"
proof -
  have "rsplit_once c s = Some (a, b) \<longleftrightarrow> split_once c (rev s) = Some (rev b, rev a)"
    by (auto simp: rsplit_once_def)
  also have "\<dots> \<longleftrightarrow> rev s = rev b @ c # rev a \<and> c \<notin> set b"
    by (simp add: split_once_Some)
  also have "rev s = rev b @ c # rev a \<longleftrightarrow> s = a @ c # b"
    by (metis append.assoc append_Cons append_Nil rev.simps(2) rev_append rev_rev_ident)
  finally show ?thesis .
qed

lemma rsplit_once_None: "rsplit_once c s = None \<longleftrightarrow> c \<notin> set s"
  by (simp add: rsplit_once_def split_once_None)

lemma starts_with_append [simp]: "starts_with p (p @ s)"
  by (simp add: starts_with_def)

lemma starts_with_iff: "starts_with p s \<longleftrightarrow> (\<exists>r. s = p @ r)"
  by (metis append_eq_conv_conj append_take_drop_id starts_with_def)

lemma ends_with_iff: "ends_with p s \<longleftrightarrow> (\<exists>r. s = r @ p)"
proof -
  have "ends_with p s \<longleftrightarrow> (\<exists>r. rev s = rev p @ r)"
    by (simp add: ends_with_def starts_with_iff)
  also have "\<dots> \<longleftrightarrow> (\<exists>r. s = r @ p)"
    by (metis rev_append rev_rev_ident)
  finally show ?thesis .
qed

lemma strip_prefix_Some: "strip_prefix p s = Some r \<longleftrightarrow> s = p @ r"
  by (induction p s rule: strip_prefix.induct) auto

section \<open>Numbers as text\<close>

text \<open>
  \<open>parse::<uN>()\<close> takes an optional plus sign and one or more digits, and fails on
  overflow; \<open>{n}\<close> and \<open>{n:x}\<close> print a number in base 10 and 16.
\<close>

fun digits_value :: "nat \<Rightarrow> str \<Rightarrow> nat option" where
  "digits_value acc [] = Some acc"
| "digits_value acc (c # s) =
     (if is_ascii_digit c then digits_value (10 * acc + (byte c - 48)) s else None)"

definition parse_unsigned :: "nat \<Rightarrow> str \<Rightarrow> nat option" where
  "parse_unsigned bound s =
     (let t = (case s of c # r \<Rightarrow> (if c = CHR ''+'' then r else s) | [] \<Rightarrow> s)
      in if t = [] then None
         else (case digits_value 0 t of
                 None \<Rightarrow> None
               | Some n \<Rightarrow> if n < bound then Some n else None))"

definition digit_char :: "nat \<Rightarrow> char" where
  "digit_char d = (if d < 10 then char_of (48 + d) else char_of (87 + d))"

fun radix_string :: "nat \<Rightarrow> nat \<Rightarrow> str" where
  "radix_string b n =
     (if n < b \<or> b < 2 then [digit_char n] else radix_string b (n div b) @ [digit_char (n mod b)])"

declare radix_string.simps [simp del]

definition dec_string :: "nat \<Rightarrow> str" where
  "dec_string n = radix_string 10 n"

definition hex_string :: "nat \<Rightarrow> str" where
  "hex_string n = radix_string 16 n"

text \<open>\<open>{byte:02x}\<close>\<close>

definition hex2 :: "char \<Rightarrow> str" where
  "hex2 c = [digit_char (byte c div 16), digit_char (byte c mod 16)]"

lemma parse_unsigned_bound: "parse_unsigned bound s = Some n \<Longrightarrow> n < bound"
  by (auto simp: parse_unsigned_def Let_def split: if_splits option.splits)

section \<open>UTF-8\<close>

text \<open>
  \<open>String::from_utf8_lossy\<close>: every maximal ill-formed part is replaced by U+FFFD.
\<close>

definition replacement :: str where
  "replacement = [CHR 0xEF, CHR 0xBF, CHR 0xBD]"

definition in_range :: "nat \<Rightarrow> nat \<Rightarrow> char \<Rightarrow> bool" where
  "in_range lo hi c \<longleftrightarrow> lo \<le> byte c \<and> byte c \<le> hi"

text \<open>The number of bytes a lead byte announces, and the range of the second byte.\<close>

definition utf8_width :: "char \<Rightarrow> nat" where
  "utf8_width c =
     (if byte c < 128 then 1 else if in_range 194 223 c then 2
      else if in_range 224 239 c then 3 else if in_range 240 244 c then 4 else 0)"

definition utf8_second :: "char \<Rightarrow> char \<Rightarrow> bool" where
  "utf8_second a b \<longleftrightarrow>
     (if byte a = 224 then in_range 160 191 b
      else if byte a = 237 then in_range 128 159 b
      else if byte a = 240 then in_range 144 191 b
      else if byte a = 244 then in_range 128 143 b
      else in_range 128 191 b)"

text \<open>
  The length of the well-formed character or maximal ill-formed part at the start, and
  whether it is well-formed.
\<close>

definition utf8_chunk :: "str \<Rightarrow> nat \<times> bool" where
  "utf8_chunk s =
     (case s of
        [] \<Rightarrow> (0, True)
      | a # r \<Rightarrow>
          (let w = utf8_width a in
           if w = 0 then (1, False)
           else if w = 1 then (1, True)
           else (case r of
                   [] \<Rightarrow> (1, False)
                 | b # r2 \<Rightarrow>
                     if \<not> utf8_second a b then (1, False)
                     else if w = 2 then (2, True)
                     else (case r2 of
                             [] \<Rightarrow> (2, False)
                           | c # r3 \<Rightarrow>
                               if \<not> in_range 128 191 c then (2, False)
                               else if w = 3 then (3, True)
                               else (case r3 of
                                       [] \<Rightarrow> (3, False)
                                     | d # _ \<Rightarrow>
                                         if in_range 128 191 d then (4, True) else (3, False))))))"

lemma utf8_chunk_pos: "s \<noteq> [] \<Longrightarrow> 0 < fst (utf8_chunk s)"
  by (auto simp: utf8_chunk_def Let_def split: list.split)

function from_utf8_lossy :: "str \<Rightarrow> str" where
  "from_utf8_lossy s =
     (if s = [] then []
      else (case utf8_chunk s of
              (n, ok) \<Rightarrow> (if ok then take n s else replacement) @ from_utf8_lossy (drop n s)))"
  by pat_completeness auto
termination
proof (relation "measure length")
  fix s :: str and n ok
  assume "s \<noteq> []" "(n, ok) = utf8_chunk s"
  then have "0 < n" using utf8_chunk_pos [of s] by (metis fst_conv)
  with \<open>s \<noteq> []\<close> show "(drop n s, s) \<in> measure length" by simp
qed simp

declare from_utf8_lossy.simps [simp del]

lemma from_utf8_lossy_Nil [simp]: "from_utf8_lossy [] = []"
  by (simp add: from_utf8_lossy.simps)

text \<open>\<open>String::from_utf8\<close> and \<open>OsString::into_string\<close> accept exactly the texts without an ill-formed part.\<close>

definition utf8_valid :: "str \<Rightarrow> bool" where
  "utf8_valid s \<longleftrightarrow> from_utf8_lossy s = s"

text \<open>The message of a \<open>Utf8Error\<close>, for the first ill-formed part at or after index \<open>i\<close>.\<close>

function utf8_error :: "nat \<Rightarrow> str \<Rightarrow> str option" where
  "utf8_error i s =
     (if s = [] then None
      else (case utf8_chunk s of
              (n, ok) \<Rightarrow>
                if ok then utf8_error (i + n) (drop n s)
                else if n = length s \<and> 2 \<le> utf8_width (hd s)
                then Some (''incomplete utf-8 byte sequence from index '' @ dec_string i)
                else Some (''invalid utf-8 sequence of '' @ dec_string n @ '' bytes from index '' @ dec_string i)))"
  by pat_completeness auto
termination
proof (relation "measure (\<lambda>(i, s). length s)")
  fix i :: nat and s :: str and n ok
  assume "s \<noteq> []" "(n, ok) = utf8_chunk s" ok
  then have "0 < n" using utf8_chunk_pos [of s] by (metis fst_conv)
  with \<open>s \<noteq> []\<close> show "((i + n, drop n s), i, s) \<in> measure (\<lambda>(i, s). length s)" by simp
qed simp

declare utf8_error.simps [simp del]

definition from_utf8 :: "str \<Rightarrow> str + str" where
  "from_utf8 s = (case utf8_error 0 s of None \<Rightarrow> Inr s | Some e \<Rightarrow> Inl e)"

lemma from_utf8_Inr: "from_utf8 s = Inr t \<Longrightarrow> t = s"
  by (auto simp: from_utf8_def split: option.splits)

text \<open>ASCII text is unchanged.\<close>

lemma from_utf8_lossy_ascii: "\<forall>c \<in> set s. byte c < 128 \<Longrightarrow> from_utf8_lossy s = s"
proof (induction s)
  case (Cons a s)
  then have "utf8_chunk (a # s) = (1, True)"
    by (simp add: utf8_chunk_def utf8_width_def)
  with Cons show ?case
    by (simp add: from_utf8_lossy.simps [of "a # s"])
qed simp

end
