(* ===== verification/BTree.thy ===== *)
theory BTree
  imports RustStr
begin

text \<open>
  \<open>BTreeMap<K, V>\<close> as the list of its entries in ascending order of the keys, which is
  the order in which the program iterates. \<open>HashMap\<close> is modelled by the same type where
  the program never iterates over it. The keys of the program are byte strings, ordered
  lexicographically by their bytes, and \<open>u64\<close> words.
\<close>

type_synonym ('k, 'v) btree = "('k \<times> 'v) list"

definition bt_ok :: "('k::linorder, 'v) btree \<Rightarrow> bool" where
  "bt_ok m \<longleftrightarrow> sorted_wrt (<) (map fst m)"

definition bt_get :: "('k, 'v) btree \<Rightarrow> 'k \<Rightarrow> 'v option" where
  "bt_get m k = map_of m k"

fun bt_insert :: "'k::linorder \<Rightarrow> 'v \<Rightarrow> ('k, 'v) btree \<Rightarrow> ('k, 'v) btree" where
  "bt_insert k v [] = [(k, v)]"
| "bt_insert k v (e # m) =
     (if fst e < k then e # bt_insert k v m
      else if fst e = k then (k, v) # m
      else (k, v) # e # m)"

definition bt_remove :: "'k \<Rightarrow> ('k, 'v) btree \<Rightarrow> ('k, 'v) btree" where
  "bt_remove k m = filter (\<lambda>e. fst e \<noteq> k) m"

definition bt_has :: "('k, 'v) btree \<Rightarrow> 'k \<Rightarrow> bool" where
  "bt_has m k \<longleftrightarrow> bt_get m k \<noteq> None"

definition bt_values :: "('k, 'v) btree \<Rightarrow> 'v list" where
  "bt_values m = map snd m"

text \<open>The total size of the entries, for a size \<open>f\<close> of one entry.\<close>

definition bt_sum :: "('k \<Rightarrow> 'v \<Rightarrow> nat) \<Rightarrow> ('k, 'v) btree \<Rightarrow> nat" where
  "bt_sum f m = sum_list (map (\<lambda>e. f (fst e) (snd e)) m)"

section \<open>Lookups\<close>

lemma bt_ok_Nil [simp]: "bt_ok []"
  by (simp add: bt_ok_def)

lemma bt_ok_Cons: "bt_ok (e # m) \<longleftrightarrow> (\<forall>k \<in> fst ` set m. fst e < k) \<and> bt_ok m"
  by (simp add: bt_ok_def)

lemma bt_get_Nil [simp]: "bt_get [] k = None"
  by (simp add: bt_get_def)

lemma bt_get_Cons: "bt_get (e # m) k = (if fst e = k then Some (snd e) else bt_get m k)"
  by (cases e) (simp add: bt_get_def)

lemma bt_get_None: "bt_get m k = None \<longleftrightarrow> k \<notin> fst ` set m"
  by (simp add: bt_get_def map_of_eq_None_iff)

lemma bt_get_insert [simp]: "bt_get (bt_insert k v m) k' = (if k' = k then Some v else bt_get m k')"
  by (induction m) (auto simp: bt_get_Cons)

lemma bt_get_remove [simp]: "bt_get (bt_remove k m) k' = (if k' = k then None else bt_get m k')"
  by (induction m) (auto simp: bt_remove_def bt_get_Cons)

lemma bt_has_insert [simp]: "bt_has (bt_insert k v m) k' \<longleftrightarrow> k' = k \<or> bt_has m k'"
  by (simp add: bt_has_def)

lemma bt_get_in_set: "bt_get m k = Some v \<Longrightarrow> (k, v) \<in> set m"
  by (simp add: bt_get_def map_of_SomeD)

lemma bt_get_iff_set: "bt_ok m \<Longrightarrow> bt_get m k = Some v \<longleftrightarrow> (k, v) \<in> set m"
  by (induction m) (force simp: bt_get_Cons bt_ok_Cons)+

section \<open>Order\<close>

lemma fst_set_insert: "fst ` set (bt_insert k v m) = insert k (fst ` set m)"
  by (induction m) auto

lemma bt_ok_insert [simp]: "bt_ok m \<Longrightarrow> bt_ok (bt_insert k v m)"
  by (induction m) (auto simp: bt_ok_Cons fst_set_insert)

lemma bt_ok_remove [simp]: "bt_ok m \<Longrightarrow> bt_ok (bt_remove k m)"
  by (induction m) (auto simp: bt_ok_Cons bt_remove_def)

lemma bt_ok_distinct: "bt_ok m \<Longrightarrow> distinct (map fst m)"
  by (simp add: bt_ok_def strict_sorted_iff)

lemma bt_ok_get_remove_length: "bt_ok m \<Longrightarrow> bt_get m k = Some v \<Longrightarrow> Suc (length (bt_remove k m)) = length m"
proof (induction m)
  case (Cons e m)
  show ?case
  proof (cases "fst e = k")
    case True
    with Cons.prems have "k \<notin> fst ` set m" by (auto simp: bt_ok_Cons)
    then have "filter (\<lambda>x. fst x \<noteq> k) m = m" by (auto intro!: filter_True)
    with True show ?thesis by (simp add: bt_remove_def)
  next
    case False
    with Cons show ?thesis by (simp add: bt_ok_Cons bt_get_Cons bt_remove_def)
  qed
qed simp

lemma length_bt_insert:
  "bt_ok m \<Longrightarrow> length (bt_insert k v m) = (if bt_get m k = None then Suc (length m) else length m)"
proof (induction m)
  case (Cons e m)
  have "k < fst e \<Longrightarrow> bt_get m k = None"
    using Cons.prems by (auto simp: bt_ok_Cons bt_get_None)
  with Cons show ?case by (auto simp: bt_ok_Cons bt_get_Cons)
qed simp

lemma length_bt_remove: "length (bt_remove k m) \<le> length m"
  by (simp add: bt_remove_def)

section \<open>Sizes\<close>

lemma bt_sum_Nil [simp]: "bt_sum f [] = 0"
  by (simp add: bt_sum_def)

lemma bt_sum_Cons: "bt_sum f (e # m) = f (fst e) (snd e) + bt_sum f m"
  by (simp add: bt_sum_def)

lemma bt_sum_ge: "bt_get m k = Some v \<Longrightarrow> f k v \<le> bt_sum f m"
  by (induction m) (auto simp: bt_get_Cons bt_sum_Cons split: if_splits)

lemma bt_sum_insert_new:
  "bt_ok m \<Longrightarrow> bt_get m k = None \<Longrightarrow> bt_sum f (bt_insert k v m) = bt_sum f m + f k v"
  by (induction m) (auto simp: bt_get_Cons bt_sum_Cons bt_ok_Cons split: if_splits)

lemma bt_sum_insert_old:
  "bt_ok m \<Longrightarrow> bt_get m k = Some w \<Longrightarrow> bt_sum f (bt_insert k v m) + f k w = bt_sum f m + f k v"
proof (induction m)
  case (Cons e m)
  have "\<not> fst e < k \<Longrightarrow> fst e = k"
    using Cons.prems by (cases "fst e = k") (force simp: bt_ok_Cons bt_get_Cons dest: bt_get_in_set)+
  with Cons show ?case by (auto simp: bt_get_Cons bt_sum_Cons bt_ok_Cons split: if_splits)
qed simp

lemma bt_sum_remove:
  "bt_ok m \<Longrightarrow> bt_get m k = Some w \<Longrightarrow> bt_sum f (bt_remove k m) + f k w = bt_sum f m"
proof (induction m)
  case (Cons e m)
  show ?case
  proof (cases "fst e = k")
    case True
    with Cons.prems have "k \<notin> fst ` set m" by (auto simp: bt_ok_Cons)
    then have "filter (\<lambda>x. fst x \<noteq> k) m = m" by (auto intro!: filter_True)
    with True Cons.prems show ?thesis by (simp add: bt_remove_def bt_sum_Cons bt_get_Cons)
  next
    case False
    with Cons show ?thesis by (simp add: bt_ok_Cons bt_get_Cons bt_remove_def bt_sum_Cons)
  qed
qed simp

lemma bt_remove_absent: "bt_get m k = None \<Longrightarrow> bt_remove k m = m"
  by (auto simp: bt_get_None bt_remove_def intro!: filter_True)

end
