(* ===== verification/Json.thy ===== *)
theory Json
  imports BTree
begin

text \<open>
  \<open>serde_json::Value\<close> as a datatype. A number is a \<open>u64\<close>, a negative \<open>i64\<close> or a
  finite \<open>f64\<close>, each given by its 64 bits. An object is the list of its entries in
  insertion order with distinct keys: the lock file builds \<open>serde_json\<close> on
  \<open>indexmap\<close> (its feature \<open>preserve_order\<close>), where \<open>insert\<close> keeps the position of
  an existing key, \<open>remove\<close> moves the last entry into the gap, and equality ignores the
  order. No property below depends on that order.

  The parser and the printer of \<open>serde_json\<close> are not modelled: they are the fields of
  a \<open>codec\<close>, a parameter of every operation that reads or writes JSON text.
\<close>

datatype jnum = PosInt u64 | NegInt u64 | Float u64

datatype json =
    JNull
  | JBool bool
  | JNumber jnum
  | JString str
  | JArray "json list"
  | JObject "(str \<times> json) list"

type_synonym jmap = "(str \<times> json) list"

text \<open>
  \<open>from_slice\<close> and \<open>from_str\<close> (an error is its message), \<open>to_vec\<close> and
  \<open>to_string\<close>, which return a \<open>Result\<close>, and \<open>Value::to_string\<close>, which does not.
\<close>

record codec =
  parse :: "str \<Rightarrow> str + json"
  to_vec :: "json \<Rightarrow> str + str"
  display :: "json \<Rightarrow> str"

section \<open>Objects\<close>

definition map_ok :: "jmap \<Rightarrow> bool" where
  "map_ok m \<longleftrightarrow> distinct (map fst m)"

definition map_get :: "jmap \<Rightarrow> str \<Rightarrow> json option" where
  "map_get m k = map_of m k"

fun map_insert :: "str \<Rightarrow> json \<Rightarrow> jmap \<Rightarrow> jmap" where
  "map_insert k v [] = [(k, v)]"
| "map_insert k v (e # m) = (if fst e = k then (k, v) # m else e # map_insert k v m)"

fun map_remove :: "str \<Rightarrow> jmap \<Rightarrow> jmap" where
  "map_remove k [] = []"
| "map_remove k (e # m) =
     (if fst e = k then (if m = [] then [] else last m # butlast m)
      else e # map_remove k m)"

lemma map_get_Nil [simp]: "map_get [] k = None"
  by (simp add: map_get_def)

lemma map_get_Cons: "map_get (e # m) k = (if fst e = k then Some (snd e) else map_get m k)"
  by (cases e) (simp add: map_get_def)

lemma map_get_None: "map_get m k = None \<longleftrightarrow> k \<notin> fst ` set m"
  by (simp add: map_get_def map_of_eq_None_iff)

lemma map_get_insert [simp]: "map_get (map_insert k v m) k' = (if k' = k then Some v else map_get m k')"
  by (induction m) (auto simp: map_get_Cons)

lemma keys_map_insert: "fst ` set (map_insert k v m) = insert k (fst ` set m)"
  by (induction m) auto

lemma map_insert_present: "k \<in> fst ` set m \<Longrightarrow> map fst (map_insert k v m) = map fst m"
  by (induction m) auto

lemma map_insert_absent: "k \<notin> fst ` set m \<Longrightarrow> map_insert k v m = m @ [(k, v)]"
  by (induction m) auto

lemma map_ok_insert [simp]: "map_ok m \<Longrightarrow> map_ok (map_insert k v m)"
  by (cases "k \<in> fst ` set m") (auto simp: map_ok_def map_insert_present map_insert_absent)

lemma mset_map_remove_hit: "m \<noteq> [] \<Longrightarrow> set (last m # butlast m) = set m"
  by (metis Un_commute append_butlast_last_id list.set(1) list.simps(15) set_append Un_empty_right insert_is_Un)

lemma set_map_remove: "map_ok m \<Longrightarrow> set (map_remove k m) = {e \<in> set m. fst e \<noteq> k}"
proof (induction m)
  case (Cons e m)
  show ?case
  proof (cases "fst e = k")
    case True
    with Cons.prems have "k \<notin> fst ` set m" by (simp add: map_ok_def)
    then have "\<forall>x \<in> set m. fst x \<noteq> k" by (metis image_eqI)
    with True show ?thesis
      using mset_map_remove_hit [of m] by (cases "m = []") force+
  next
    case False
    with Cons show ?thesis by (auto simp: map_ok_def)
  qed
qed simp

lemma distinct_rotate_last: "m \<noteq> [] \<Longrightarrow> distinct (map fst (last m # butlast m)) = distinct (map fst m)"
proof -
  assume "m \<noteq> []"
  then have "m = butlast m @ [last m]" by simp
  then have "distinct (map fst m) = distinct (map fst (butlast m @ [last m]))" by simp
  then show ?thesis by auto
qed

lemma map_ok_remove [simp]: "map_ok m \<Longrightarrow> map_ok (map_remove k m)"
proof (induction m)
  case (Cons e m)
  then have ok: "map_ok m" by (simp add: map_ok_def)
  show ?case
  proof (cases "fst e = k")
    case True
    with ok show ?thesis
      using distinct_rotate_last [of m] by (cases "m = []") (auto simp: map_ok_def)
  next
    case False
    have "fst e \<notin> fst ` set (map_remove k m)"
      using Cons.prems ok by (auto simp: map_ok_def set_map_remove)
    with False Cons ok show ?thesis by (simp add: map_ok_def)
  qed
qed (simp add: map_ok_def)

lemma map_get_iff_set: "map_ok m \<Longrightarrow> map_get m k = Some v \<longleftrightarrow> (k, v) \<in> set m"
  by (simp add: map_ok_def map_get_def)

lemma map_get_remove [simp]:
  assumes "map_ok m"
  shows "map_get (map_remove k m) k' = (if k' = k then None else map_get m k')"
proof -
  have iff: "map_get (map_remove k m) k' = Some v \<longleftrightarrow> k' \<noteq> k \<and> map_get m k' = Some v" for v
    using assms by (auto simp: map_get_iff_set set_map_remove)
  show ?thesis
  proof (cases "map_get (map_remove k m) k'")
    case None
    then have "k' \<noteq> k \<Longrightarrow> map_get m k' = None"
      using iff by (cases "map_get m k'") auto
    with None show ?thesis by simp
  next
    case (Some v)
    with iff [of v] show ?thesis by simp
  qed
qed

section \<open>Accessors of a value\<close>

definition jget :: "json \<Rightarrow> str \<Rightarrow> json option" where
  "jget v k = (case v of JObject m \<Rightarrow> map_get m k | _ \<Rightarrow> None)"

text \<open>\<open>value["key"]\<close>: \<open>Null\<close> for a missing key and for a value that is no object.\<close>

definition jindex :: "json \<Rightarrow> str \<Rightarrow> json" where
  "jindex v k = (case jget v k of None \<Rightarrow> JNull | Some w \<Rightarrow> w)"

definition as_str :: "json \<Rightarrow> str option" where
  "as_str v = (case v of JString s \<Rightarrow> Some s | _ \<Rightarrow> None)"

definition as_bool :: "json \<Rightarrow> bool option" where
  "as_bool v = (case v of JBool b \<Rightarrow> Some b | _ \<Rightarrow> None)"

definition as_u64 :: "json \<Rightarrow> u64 option" where
  "as_u64 v = (case v of JNumber n \<Rightarrow> (case n of PosInt w \<Rightarrow> Some w | _ \<Rightarrow> None) | _ \<Rightarrow> None)"

definition as_array :: "json \<Rightarrow> json list option" where
  "as_array v = (case v of JArray xs \<Rightarrow> Some xs | _ \<Rightarrow> None)"

definition as_object :: "json \<Rightarrow> jmap option" where
  "as_object v = (case v of JObject m \<Rightarrow> Some m | _ \<Rightarrow> None)"

definition is_null :: "json \<Rightarrow> bool" where
  "is_null v \<longleftrightarrow> v = JNull"

definition is_string :: "json \<Rightarrow> bool" where
  "is_string v \<longleftrightarrow> as_str v \<noteq> None"

text \<open>\<open>v.get(k).and_then(Value::as_str)\<close> and its kin.\<close>

definition str_at :: "json \<Rightarrow> str \<Rightarrow> str option" where
  "str_at v k = Option.bind (jget v k) as_str"

definition u64_at :: "json \<Rightarrow> str \<Rightarrow> u64 option" where
  "u64_at v k = Option.bind (jget v k) as_u64"

definition bool_at :: "json \<Rightarrow> str \<Rightarrow> bool option" where
  "bool_at v k = Option.bind (jget v k) as_bool"

definition array_at :: "json \<Rightarrow> str \<Rightarrow> json list option" where
  "array_at v k = Option.bind (jget v k) as_array"

text \<open>An optional string in \<open>json!\<close>.\<close>

definition opt_string :: "str option \<Rightarrow> json" where
  "opt_string x = (case x of None \<Rightarrow> JNull | Some s \<Rightarrow> JString s)"

definition jnat :: "u64 \<Rightarrow> json" where
  "jnat w = JNumber (PosInt w)"

text \<open>
  \<open>v["k"] = w\<close>, which turns \<open>Null\<close> into an object; the program only reaches it on objects, on
  other values it panics. \<open>if let Some(x) = v.get_mut(k) { f(x) }\<close>, and \<open>remove\<close> on an object.
\<close>

definition jset :: "str \<Rightarrow> json \<Rightarrow> json \<Rightarrow> json" where
  "jset k w v = (case v of JObject m \<Rightarrow> JObject (map_insert k w m) | JNull \<Rightarrow> JObject [(k, w)] | _ \<Rightarrow> v)"

definition jmodify :: "str \<Rightarrow> (json \<Rightarrow> json) \<Rightarrow> json \<Rightarrow> json" where
  "jmodify k f v = (case jget v k of None \<Rightarrow> v | Some w \<Rightarrow> jset k (f w) v)"

definition jremove :: "str \<Rightarrow> json \<Rightarrow> json" where
  "jremove k v = (case v of JObject m \<Rightarrow> JObject (map_remove k m) | _ \<Rightarrow> v)"

lemma jget_simps [simp]:
  "jget (JObject m) k = map_get m k"
  "jget JNull k = None"
  "jget (JBool b) k = None"
  "jget (JNumber n) k = None"
  "jget (JString s) k = None"
  "jget (JArray xs) k = None"
  by (simp_all add: jget_def)

lemma jget_Some: "jget v k = Some w \<longleftrightarrow> (\<exists>m. v = JObject m \<and> map_get m k = Some w)"
  by (cases v) simp_all

lemma as_str_Some [simp]: "as_str v = Some s \<longleftrightarrow> v = JString s"
  by (cases v) (simp_all add: as_str_def)

lemma as_u64_Some [simp]: "as_u64 v = Some w \<longleftrightarrow> v = jnat w"
  by (auto simp: as_u64_def jnat_def split: json.split jnum.split)

lemma as_bool_Some [simp]: "as_bool v = Some b \<longleftrightarrow> v = JBool b"
  by (cases v) (simp_all add: as_bool_def)

lemma as_array_Some [simp]: "as_array v = Some xs \<longleftrightarrow> v = JArray xs"
  by (cases v) (simp_all add: as_array_def)

lemma as_object_Some [simp]: "as_object v = Some m \<longleftrightarrow> v = JObject m"
  by (cases v) (simp_all add: as_object_def)

lemma str_at_Some: "str_at v k = Some s \<longleftrightarrow> jget v k = Some (JString s)"
  by (cases "jget v k") (simp_all add: str_at_def)

lemma str_at_object: "str_at v k = Some s \<Longrightarrow> \<exists>m. v = JObject m"
  by (auto simp: str_at_Some jget_Some)

lemma as_str_JString: "as_str (JString s) = Some s"
  by simp

lemma as_u64_jnat: "as_u64 (jnat w) = Some w"
  by simp

lemma as_array_JArray: "as_array (JArray xs) = Some xs"
  by simp

section \<open>Equality\<close>

text \<open>\<open>PartialEq\<close>: objects compare as maps, and the two zeros of \<open>f64\<close> are equal.\<close>

definition float_eq :: "u64 \<Rightarrow> u64 \<Rightarrow> bool" where
  "float_eq a b \<longleftrightarrow> a = b \<or> a \<in> {0, 0x8000000000000000} \<and> b \<in> {0, 0x8000000000000000}"

definition jnum_eq :: "jnum \<Rightarrow> jnum \<Rightarrow> bool" where
  "jnum_eq a b \<longleftrightarrow> (case (a, b) of (Float x, Float y) \<Rightarrow> float_eq x y | _ \<Rightarrow> a = b)"

fun jeq :: "json \<Rightarrow> json \<Rightarrow> bool" where
  "jeq (JArray xs) (JArray ys) \<longleftrightarrow> list_all2 jeq xs ys"
| "jeq (JObject m) (JObject n) \<longleftrightarrow>
     length m = length n \<and>
     (\<forall>e \<in> set m. case map_get n (fst e) of None \<Rightarrow> False | Some w \<Rightarrow> jeq (snd e) w)"
| "jeq (JNumber a) (JNumber b) \<longleftrightarrow> jnum_eq a b"
| "jeq v w \<longleftrightarrow> v = w"

text \<open>Values whose objects have distinct keys, as the parser and \<open>json!\<close> build them.\<close>

fun json_ok :: "json \<Rightarrow> bool" where
  "json_ok (JArray xs) \<longleftrightarrow> (\<forall>x \<in> set xs. json_ok x)"
| "json_ok (JObject m) \<longleftrightarrow> map_ok m \<and> (\<forall>e \<in> set m. json_ok (snd e))"
| "json_ok v \<longleftrightarrow> True"

lemma jnum_eq_refl [simp]: "jnum_eq a a"
  by (cases a) (simp_all add: jnum_eq_def float_eq_def)

lemma jeq_refl: "json_ok v \<Longrightarrow> jeq v v"
proof (induction v)
  case (JArray xs)
  then show ?case by (auto simp: list_all2_same)
next
  case (JObject m)
  have "case map_get m (fst e) of None \<Rightarrow> False | Some w \<Rightarrow> jeq (snd e) w" if "e \<in> set m" for e
  proof -
    from that JObject.prems have "map_get m (fst e) = Some (snd e)"
      by (simp add: map_get_iff_set)
    moreover from that JObject have "jeq (snd e) (snd e)"
      by (cases e) (auto simp: snds.simps)
    ultimately show ?thesis by simp
  qed
  then show ?case by simp
qed simp_all

lemma jeq_string [simp]: "jeq v (JString s) \<longleftrightarrow> v = JString s"
  by (cases v) simp_all

lemma list_all2_jeq_refl: "\<forall>x \<in> set xs. json_ok x \<Longrightarrow> list_all2 jeq xs xs"
  by (simp add: list_all2_same jeq_refl)

end
