(* ===== verification/CoreModel.thy ===== *)
theory CoreModel
  imports Json
begin

text \<open>
  \<open>provider-x-core\<close>: the error type, the identifiers (\<open>ProviderId\<close>, \<open>ModelId\<close>,
  \<open>CatalogModelId\<close>) with their construction rules, and the model cache document with
  its validation (\<open>error.rs\<close>, \<open>model.rs\<close>). The lemmas show what the constructors
  accept, that a catalog identifier determines its provider and its model, and what a
  validated cache satisfies.
\<close>

datatype core_error =
    UnsupportedSchemaVersion "32 word" "32 word"
  | InvalidListenerHost str
  | InvalidListenerPort
  | InvalidListenerLimits
  | InvalidTimeout
  | InvalidProviderId str
  | DuplicateProviderId str
  | InvalidModelId str
  | DuplicateModel str str
  | CatalogModelIdMismatch str str
  | EmptyApiKey str
  | InvalidApiKey str
  | IncompleteOAuthCredentials str
  | InvalidOAuthCredentials str
  | InvalidHttpEndpoint str
  | InvalidModelListEndpoint str
  | MissingWebSocketEndpoint str
  | InvalidWebSocketEndpoint str
  | ProtocolWebSocketUnsupported str str
  | FingerprintSerialization str
  | InvalidYaml str

section \<open>Identifiers\<close>

datatype provider_id = ProviderId (provider_str: str)

datatype model_id = ModelId (model_str: str)

datatype catalog_model_id = CatalogModelId (catalog_str: str)

text \<open>The derived \<open>Ord\<close> of the identifiers is the order of their strings.\<close>

instantiation provider_id :: linorder
begin

definition less_eq_provider_id :: "provider_id \<Rightarrow> provider_id \<Rightarrow> bool" where
  "less_eq_provider_id p q \<longleftrightarrow> provider_str p \<le> provider_str q"

definition less_provider_id :: "provider_id \<Rightarrow> provider_id \<Rightarrow> bool" where
  "less_provider_id p q \<longleftrightarrow> provider_str p < provider_str q"

instance
  by standard (auto simp: less_eq_provider_id_def less_provider_id_def provider_id.expand)

end

definition provider_id_new :: "str \<Rightarrow> core_error + provider_id" where
  "provider_id_new value =
     (if value = [] \<or> \<not> (\<exists>b \<in> set value. is_ascii_alphanumeric b) \<or>
         \<not> (\<forall>b \<in> set value. is_ascii_lowercase b \<or> is_ascii_digit b \<or> b = CHR ''-'')
      then Inl (InvalidProviderId value)
      else Inr (ProviderId value))"

definition model_id_new :: "str \<Rightarrow> core_error + model_id" where
  "model_id_new value =
     (if value = [] \<or> trim value \<noteq> value \<or> any_control value
      then Inl (InvalidModelId value)
      else Inr (ModelId value))"

definition for_provider :: "provider_id \<Rightarrow> model_id \<Rightarrow> catalog_model_id" where
  "for_provider p m = CatalogModelId (provider_str p @ ''/'' @ model_str m)"

definition catalog_parse :: "str \<Rightarrow> core_error + catalog_model_id" where
  "catalog_parse value =
     (case split_once (CHR ''/'') value of
        None \<Rightarrow> Inl (InvalidModelId value)
      | Some (provider, upstream) \<Rightarrow>
          and_then (provider_id_new provider) (\<lambda>provider_id.
          and_then (model_id_new upstream) (\<lambda>upstream_model_id.
          Inr (for_provider provider_id upstream_model_id))))"

text \<open>
  A value of the newtypes exists only when the constructor accepted its string; the
  private field cannot be set otherwise.
\<close>

definition provider_id_ok :: "provider_id \<Rightarrow> bool" where
  "provider_id_ok p \<longleftrightarrow> provider_id_new (provider_str p) = Inr p"

definition model_id_ok :: "model_id \<Rightarrow> bool" where
  "model_id_ok m \<longleftrightarrow> model_id_new (model_str m) = Inr m"

lemma provider_id_new_Inr:
  "provider_id_new s = Inr p \<longleftrightarrow>
     p = ProviderId s \<and> (\<exists>b \<in> set s. is_ascii_alphanumeric b) \<and>
     (\<forall>b \<in> set s. is_ascii_lowercase b \<or> is_ascii_digit b \<or> b = CHR ''-'')"
  by (auto simp: provider_id_new_def)

lemma model_id_new_Inr:
  "model_id_new s = Inr m \<longleftrightarrow> m = ModelId s \<and> s \<noteq> [] \<and> trim s = s \<and> \<not> any_control s"
  by (auto simp: model_id_new_def)

lemma provider_id_no_slash:
  assumes "provider_id_ok p"
  shows "CHR ''/'' \<notin> set (provider_str p)"
proof
  assume "CHR ''/'' \<in> set (provider_str p)"
  with assms have "is_ascii_lowercase (CHR ''/'') \<or> is_ascii_digit (CHR ''/'')"
    by (auto simp: provider_id_ok_def provider_id_new_Inr)
  then show False by (simp add: is_ascii_lowercase_def is_ascii_digit_def)
qed

lemma for_provider_inject:
  assumes "provider_id_ok p" and "provider_id_ok q" and "for_provider p m = for_provider q n"
  shows "p = q \<and> m = n"
proof -
  let ?s = "provider_str p @ CHR ''/'' # model_str m"
  have "?s = provider_str q @ CHR ''/'' # model_str n"
    using assms(3) by (simp add: for_provider_def)
  then have "split_once (CHR ''/'') ?s = Some (provider_str q, model_str n)"
    using provider_id_no_slash [OF assms(2)] split_once_Some by blast
  moreover have "split_once (CHR ''/'') ?s = Some (provider_str p, model_str m)"
    using provider_id_no_slash [OF assms(1)] split_once_Some by blast
  ultimately show ?thesis
    by (auto intro: provider_id.expand model_id.expand)
qed

lemma for_provider_slash: "CHR ''/'' \<in> set (catalog_str (for_provider p m))"
  by (simp add: for_provider_def)

lemma catalog_parse_for_provider:
  assumes "provider_id_ok p" and "model_id_ok m"
  shows "catalog_parse (catalog_str (for_provider p m)) = Inr (for_provider p m)"
proof -
  have "split_once (CHR ''/'') (provider_str p @ CHR ''/'' # model_str m) = Some (provider_str p, model_str m)"
    using provider_id_no_slash [OF assms(1)] by (simp add: split_once_Some)
  with assms show ?thesis
    by (simp add: catalog_parse_def for_provider_def provider_id_ok_def model_id_ok_def)
qed

lemma catalog_parse_Inr:
  "catalog_parse s = Inr c \<longleftrightarrow>
     (\<exists>p m. provider_id_ok p \<and> model_id_ok m \<and> c = for_provider p m \<and> s = catalog_str c)"
proof
  assume "catalog_parse s = Inr c"
  then obtain a b p m where split: "split_once (CHR ''/'') s = Some (a, b)"
    and new: "provider_id_new a = Inr p" "model_id_new b = Inr m" and c: "c = for_provider p m"
    by (auto simp: catalog_parse_def split: option.splits)
  from new have "p = ProviderId a" "m = ModelId b"
    by (simp_all add: provider_id_new_Inr model_id_new_Inr)
  with split new c show "\<exists>p m. provider_id_ok p \<and> model_id_ok m \<and> c = for_provider p m \<and> s = catalog_str c"
    by (intro exI [of _ p] exI [of _ m])
      (simp add: split_once_Some for_provider_def provider_id_ok_def model_id_ok_def)
next
  assume "\<exists>p m. provider_id_ok p \<and> model_id_ok m \<and> c = for_provider p m \<and> s = catalog_str c"
  then show "catalog_parse s = Inr c" using catalog_parse_for_provider by blast
qed

section \<open>Models and the model cache\<close>

datatype protocol_id = OpenaiResponses | OpenaiChatCompletions | AnthropicMessages

record discovered_model =
  dm_id :: str
  dm_display_name :: "str option"
  dm_context_window :: "u64 option"
  dm_reasoning_levels :: "str list option"
  dm_parallel_tool_calls :: "bool option"
  dm_search_tool :: "bool option"

datatype metadata_source = ProviderModels | ModelRegistry | UserConfirmed

record provider_model_spec =
  upstream_model_id :: model_id
  spec_catalog_id :: catalog_model_id
  spec_display_name :: str
  spec_enabled :: bool
  spec_context_window :: "u64 option"
  spec_reasoning_levels :: "str list"
  spec_parallel_tool_calls :: "bool option"
  spec_search_tool :: "bool option"
  spec_metadata_sources :: "(str, metadata_source) btree"

record provider_model_source =
  source_protocol :: protocol_id
  source_endpoint :: str

record provider_model_cache =
  config_fingerprint :: str
  last_successful_refresh_at :: str
  cache_source :: provider_model_source
  cache_models :: "provider_model_spec list"

record model_cache_document =
  cache_schema_version :: "32 word"
  cache_providers :: "(provider_id, provider_model_cache) btree"

definition MODEL_CACHE_SCHEMA_VERSION :: "32 word" where
  "MODEL_CACHE_SCHEMA_VERSION = 1"

text \<open>
  The body of the loop over the models of one provider: the upstream identifier must be
  new, and the catalog identifier must be the one it determines. The same body stands in
  \<open>ModelCacheDocument::validate\<close>, \<open>ProviderConfig::validate_models\<close> and
  \<open>RuntimeSnapshot::build\<close>.
\<close>

definition check_model ::
  "provider_id \<Rightarrow> model_id set \<Rightarrow> provider_model_spec \<Rightarrow> core_error + model_id set" where
  "check_model p ids model =
     (if upstream_model_id model \<in> ids
      then Inl (DuplicateModel (provider_str p) (model_str (upstream_model_id model)))
      else
        (let expected = for_provider p (upstream_model_id model) in
         if spec_catalog_id model \<noteq> expected
         then Inl (CatalogModelIdMismatch (catalog_str expected) (catalog_str (spec_catalog_id model)))
         else Inr (insert (upstream_model_id model) ids)))"

definition check_models :: "provider_id \<Rightarrow> provider_model_spec list \<Rightarrow> core_error + unit" where
  "check_models p models = and_then (try_fold (check_model p) {} models) (\<lambda>_. Inr ())"

definition model_cache_validate :: "model_cache_document \<Rightarrow> core_error + unit" where
  "model_cache_validate doc =
     (if cache_schema_version doc \<noteq> MODEL_CACHE_SCHEMA_VERSION
      then Inl (UnsupportedSchemaVersion (cache_schema_version doc) MODEL_CACHE_SCHEMA_VERSION)
      else try_fold (\<lambda>_ e. check_models (fst e) (cache_models (snd e))) () (cache_providers doc))"

text \<open>The YAML reader is a parameter.\<close>

definition model_cache_from_yaml ::
  "(str \<Rightarrow> str + model_cache_document) \<Rightarrow> str \<Rightarrow> core_error + model_cache_document" where
  "model_cache_from_yaml yaml_from_str yaml =
     and_then (map_err InvalidYaml (yaml_from_str yaml)) (\<lambda>document.
     and_then (model_cache_validate document) (\<lambda>_. Inr document))"

text \<open>What the loop establishes.\<close>

definition models_consistent :: "provider_id \<Rightarrow> provider_model_spec list \<Rightarrow> bool" where
  "models_consistent p models \<longleftrightarrow>
     distinct (map upstream_model_id models) \<and>
     (\<forall>m \<in> set models. spec_catalog_id m = for_provider p (upstream_model_id m))"

lemma try_fold_check_model:
  "(\<exists>ids'. try_fold (check_model p) ids models = Inr ids') \<longleftrightarrow>
     models_consistent p models \<and> ids \<inter> set (map upstream_model_id models) = {}"
proof (induction models arbitrary: ids)
  case Nil
  then show ?case by (simp add: models_consistent_def)
next
  case (Cons m ms)
  show ?case
  proof (cases "upstream_model_id m \<notin> ids \<and> spec_catalog_id m = for_provider p (upstream_model_id m)")
    case True
    then have "check_model p ids m = Inr (insert (upstream_model_id m) ids)"
      by (simp add: check_model_def Let_def)
    with True show ?thesis
      using Cons.IH [of "insert (upstream_model_id m) ids"]
      by (auto simp: models_consistent_def)
  next
    case False
    then have "\<exists>e. check_model p ids m = Inl e"
      by (auto simp: check_model_def Let_def)
    with False show ?thesis
      by (auto simp: models_consistent_def)
  qed
qed

lemma check_models_iff: "check_models p models = Inr () \<longleftrightarrow> models_consistent p models"
  using try_fold_check_model [of p "{}" models] by (auto simp: check_models_def)

lemma try_fold_unit_iff:
  "try_fold (\<lambda>_ x. f x) () xs = Inr () \<longleftrightarrow> (\<forall>x \<in> set xs. f x = Inr ())"
  by (induction xs) auto

lemma model_cache_validate_iff:
  "model_cache_validate doc = Inr () \<longleftrightarrow>
     cache_schema_version doc = MODEL_CACHE_SCHEMA_VERSION \<and>
     (\<forall>e \<in> set (cache_providers doc). models_consistent (fst e) (cache_models (snd e)))"
  by (simp add: model_cache_validate_def try_fold_unit_iff check_models_iff)

end
