(* ===== verification/CoreConfig.thy ===== *)
theory CoreConfig
  imports CoreModel
begin

text \<open>
  \<open>provider-x-core/src/config.rs\<close>: the provider configuration document, its validation,
  the redacting \<open>Debug\<close> of the credentials and the routing fingerprint. The validation
  is shown equivalent to a declarative description of the valid documents.
\<close>

section \<open>Configuration data\<close>

record listener_config =
  listener_host :: str
  listener_port :: "16 word"
  request_body_limit_bytes :: u64
  max_connections :: "32 word"

record timeout_config =
  request_body_ms :: u64
  connect_ms :: u64
  response_headers_ms :: u64
  stream_idle_ms :: u64
  websocket_idle_ms :: u64
  shutdown_grace_ms :: u64

record codex_config =
  manage_user_config :: bool

record endpoint_config =
  endpoint_http :: str
  endpoint_websocket :: "str option"
  endpoint_models :: "str option"

datatype anthropic_thinking_mode = Adaptive | Enabled

text \<open>
  \<open>OpenAiOAuth\<close> has the fields \<open>access_token\<close>, \<open>refresh_token\<close>, \<open>account_id\<close>,
  \<open>expires_at_unix\<close>, \<open>email\<close> and \<open>is_fedramp\<close>.
\<close>

datatype auth_config =
    AuthNone
  | ClaudeCode
  | Bearer str
  | OpenAiOAuth str str str u64 "str option" bool

record transport_config =
  http_sse :: bool
  websocket :: bool

datatype reasoning_policy = Native | DeepSeek

record provider_config =
  prov_id :: provider_id
  prov_name :: str
  prov_description :: "str option"
  prov_enabled :: bool
  prov_preset :: str
  prov_connection :: str
  prov_models :: "provider_model_spec list"
  prov_protocol :: protocol_id
  prov_reasoning_policy :: reasoning_policy
  prov_anthropic_thinking :: "anthropic_thinking_mode option"
  prov_endpoints :: endpoint_config
  prov_auth :: auth_config
  prov_transports :: transport_config

record providers_document =
  schema_version :: "32 word"
  doc_listener :: listener_config
  doc_timeouts :: timeout_config
  doc_codex :: codex_config
  doc_providers :: "provider_config list"

definition SCHEMA_VERSION :: "32 word" where
  "SCHEMA_VERSION = 3"

section \<open>Credentials\<close>

text \<open>
  \<open>fmt::Debug\<close>, as \<open>debug_struct\<close> lays the fields out: only the name of the variant
  and of its fields are printed.
\<close>

definition redacted_field :: "str \<Rightarrow> str" where
  "redacted_field name = name @ '': '' @ [CHR 0x22] @ ''[REDACTED]'' @ [CHR 0x22]"

definition auth_debug :: "auth_config \<Rightarrow> str" where
  "auth_debug auth =
     (case auth of
        AuthNone \<Rightarrow> ''None''
      | ClaudeCode \<Rightarrow> ''ClaudeCode''
      | Bearer _ \<Rightarrow> ''Bearer { '' @ redacted_field ''api_key'' @ '' }''
      | OpenAiOAuth _ _ _ _ _ _ \<Rightarrow>
          ''OpenAiOAuth { '' @
          join_with '', ''
            (map redacted_field [''access_token'', ''refresh_token'', ''account_id'', ''email'']) @
          '', .. }'')"

definition auth_mode_name :: "auth_config \<Rightarrow> str" where
  "auth_mode_name auth =
     (case auth of
        AuthNone \<Rightarrow> ''none''
      | ClaudeCode \<Rightarrow> ''claude_code''
      | Bearer _ \<Rightarrow> ''bearer''
      | OpenAiOAuth _ _ _ _ _ _ \<Rightarrow> ''openai_oauth'')"

definition auth_is_empty :: "auth_config \<Rightarrow> bool" where
  "auth_is_empty auth =
     (case auth of
        AuthNone \<Rightarrow> False
      | ClaudeCode \<Rightarrow> False
      | Bearer api_key \<Rightarrow> api_key = []
      | OpenAiOAuth access_token refresh_token account_id _ _ _ \<Rightarrow>
          access_token = [] \<or> refresh_token = [] \<or> account_id = [])"

definition openai_oauth_expires_at_unix :: "auth_config \<Rightarrow> u64 option" where
  "openai_oauth_expires_at_unix auth =
     (case auth of OpenAiOAuth _ _ _ expires _ _ \<Rightarrow> Some expires | _ \<Rightarrow> None)"

definition anthropic_thinking_of :: "provider_config \<Rightarrow> anthropic_thinking_mode" where
  "anthropic_thinking_of p =
     (case prov_anthropic_thinking p of None \<Rightarrow> Adaptive | Some m \<Rightarrow> m)"

section \<open>URLs\<close>

text \<open>
  \<open>url::Url::parse\<close> is a parameter; \<open>valid_url\<close> reads the following parts of its
  result.
\<close>

record url_parts =
  url_scheme :: str
  url_host :: "str option"
  url_username :: str
  url_password :: "str option"
  url_fragment :: "str option"

type_synonym url_parser = "str \<Rightarrow> url_parts option"

definition valid_url :: "url_parser \<Rightarrow> str \<Rightarrow> str list \<Rightarrow> bool" where
  "valid_url url_parse value schemes \<longleftrightarrow>
     \<not> any_whitespace value \<and>
     (case url_parse value of
        None \<Rightarrow> False
      | Some url \<Rightarrow>
          url_scheme url \<in> set schemes \<and> url_host url \<noteq> None \<and> url_username url = [] \<and>
          url_password url = None \<and> url_fragment url = None)"

definition is_absolute_http_url :: "url_parser \<Rightarrow> str \<Rightarrow> bool" where
  "is_absolute_http_url url_parse value = valid_url url_parse value [''http'', ''https'']"

definition is_absolute_websocket_url :: "url_parser \<Rightarrow> str \<Rightarrow> bool" where
  "is_absolute_websocket_url url_parse value = valid_url url_parse value [''ws'', ''wss'']"

section \<open>Validation of a provider\<close>

definition unclean :: "str \<Rightarrow> bool" where
  "unclean value \<longleftrightarrow> trim value \<noteq> value \<or> any_control value"

definition validate_auth :: "provider_config \<Rightarrow> core_error + unit" where
  "validate_auth p =
     (let provider_id = provider_str (prov_id p) in
      if auth_is_empty (prov_auth p)
      then (case prov_auth p of
              OpenAiOAuth _ _ _ _ _ _ \<Rightarrow> Inl (IncompleteOAuthCredentials provider_id)
            | _ \<Rightarrow> Inl (EmptyApiKey provider_id))
      else (case prov_auth p of
              Bearer api_key \<Rightarrow>
                if unclean api_key then Inl (InvalidApiKey provider_id) else Inr ()
            | OpenAiOAuth access_token refresh_token account_id expires_at_unix email _ \<Rightarrow>
                if list_ex unclean [access_token, refresh_token, account_id] \<or>
                   (case email of None \<Rightarrow> False | Some value \<Rightarrow> unclean value) \<or>
                   expires_at_unix = 0
                then Inl (InvalidOAuthCredentials provider_id) else Inr ()
            | _ \<Rightarrow> Inr ()))"

definition validate_endpoints :: "url_parser \<Rightarrow> provider_config \<Rightarrow> core_error + unit" where
  "validate_endpoints url_parse p =
     (let provider_id = provider_str (prov_id p);
          endpoints = prov_endpoints p;
          transports = prov_transports p in
      if prov_auth p \<noteq> ClaudeCode \<and> \<not> is_absolute_http_url url_parse (endpoint_http endpoints)
      then Inl (InvalidHttpEndpoint provider_id)
      else if (case endpoint_models endpoints of
                 None \<Rightarrow> False | Some e \<Rightarrow> \<not> is_absolute_http_url url_parse e)
      then Inl (InvalidModelListEndpoint provider_id)
      else if websocket transports \<and> endpoint_websocket endpoints = None
      then Inl (MissingWebSocketEndpoint provider_id)
      else if (case endpoint_websocket endpoints of
                 None \<Rightarrow> False | Some e \<Rightarrow> \<not> is_absolute_websocket_url url_parse e)
      then Inl (InvalidWebSocketEndpoint provider_id)
      else if prov_protocol p \<noteq> OpenaiResponses \<and>
              (websocket transports \<or> endpoint_websocket endpoints \<noteq> None)
      then Inl (ProtocolWebSocketUnsupported provider_id
             (if prov_protocol p = OpenaiChatCompletions then ''OpenAI Chat Completions''
              else ''Anthropic Messages''))
      else Inr ())"

definition validate_models :: "provider_config \<Rightarrow> core_error + unit" where
  "validate_models p = check_models (prov_id p) (prov_models p)"

definition provider_validate :: "url_parser \<Rightarrow> provider_config \<Rightarrow> core_error + unit" where
  "provider_validate url_parse p =
     and_then (validate_models p) (\<lambda>_.
     and_then (validate_auth p) (\<lambda>_.
     validate_endpoints url_parse p))"

text \<open>The declarative reading of the three steps.\<close>

definition auth_clean :: "auth_config \<Rightarrow> bool" where
  "auth_clean auth \<longleftrightarrow>
     (case auth of
        AuthNone \<Rightarrow> True
      | ClaudeCode \<Rightarrow> True
      | Bearer key \<Rightarrow> key \<noteq> [] \<and> \<not> unclean key
      | OpenAiOAuth access refresh account expires email _ \<Rightarrow>
          (\<forall>v \<in> {access, refresh, account}. v \<noteq> [] \<and> \<not> unclean v) \<and>
          (\<forall>v. email = Some v \<longrightarrow> \<not> unclean v) \<and> expires \<noteq> 0)"

definition endpoints_consistent :: "url_parser \<Rightarrow> provider_config \<Rightarrow> bool" where
  "endpoints_consistent url_parse p \<longleftrightarrow>
     (prov_auth p = ClaudeCode \<or> is_absolute_http_url url_parse (endpoint_http (prov_endpoints p))) \<and>
     (\<forall>e. endpoint_models (prov_endpoints p) = Some e \<longrightarrow> is_absolute_http_url url_parse e) \<and>
     (\<forall>e. endpoint_websocket (prov_endpoints p) = Some e \<longrightarrow> is_absolute_websocket_url url_parse e) \<and>
     (websocket (prov_transports p) \<longrightarrow> endpoint_websocket (prov_endpoints p) \<noteq> None) \<and>
     (endpoint_websocket (prov_endpoints p) \<noteq> None \<longrightarrow> prov_protocol p = OpenaiResponses)"

definition provider_valid :: "url_parser \<Rightarrow> provider_config \<Rightarrow> bool" where
  "provider_valid url_parse p \<longleftrightarrow>
     models_consistent (prov_id p) (prov_models p) \<and> auth_clean (prov_auth p) \<and>
     endpoints_consistent url_parse p"

lemma validate_auth_iff: "validate_auth p = Inr () \<longleftrightarrow> auth_clean (prov_auth p)"
  by (cases "prov_auth p")
    (auto simp: validate_auth_def auth_clean_def auth_is_empty_def Let_def split: option.splits)

lemma validate_endpoints_iff:
  "validate_endpoints url_parse p = Inr () \<longleftrightarrow> endpoints_consistent url_parse p"
  by (auto simp: validate_endpoints_def endpoints_consistent_def Let_def split: option.splits)

lemma provider_validate_iff: "provider_validate url_parse p = Inr () \<longleftrightarrow> provider_valid url_parse p"
  by (simp add: provider_validate_def provider_valid_def validate_models_def
      check_models_iff validate_auth_iff validate_endpoints_iff)

section \<open>Validation of the document\<close>

definition validate_listener :: "providers_document \<Rightarrow> core_error + unit" where
  "validate_listener doc =
     (let l = doc_listener doc in
      if schema_version doc \<noteq> SCHEMA_VERSION
      then Inl (UnsupportedSchemaVersion (schema_version doc) SCHEMA_VERSION)
      else if listener_host l \<noteq> ''127.0.0.1'' then Inl (InvalidListenerHost (listener_host l))
      else if listener_port l = 0 then Inl InvalidListenerPort
      else if request_body_limit_bytes l = 0 \<or> max_connections l = 0 then Inl InvalidListenerLimits
      else if 0 \<in> set [request_body_ms (doc_timeouts doc), connect_ms (doc_timeouts doc),
                response_headers_ms (doc_timeouts doc), stream_idle_ms (doc_timeouts doc),
                websocket_idle_ms (doc_timeouts doc), shutdown_grace_ms (doc_timeouts doc)]
      then Inl InvalidTimeout
      else Inr ())"

text \<open>The body of the loop over the providers.\<close>

definition check_provider ::
  "url_parser \<Rightarrow> provider_id set \<Rightarrow> provider_config \<Rightarrow> core_error + provider_id set" where
  "check_provider url_parse ids p =
     (if prov_id p \<in> ids then Inl (DuplicateProviderId (provider_str (prov_id p)))
      else and_then (provider_validate url_parse p) (\<lambda>_. Inr (insert (prov_id p) ids)))"

definition providers_validate :: "url_parser \<Rightarrow> providers_document \<Rightarrow> core_error + unit" where
  "providers_validate url_parse doc =
     and_then (validate_listener doc) (\<lambda>_.
     and_then (try_fold (check_provider url_parse) {} (doc_providers doc)) (\<lambda>_. Inr ()))"

definition listener_valid :: "providers_document \<Rightarrow> bool" where
  "listener_valid doc \<longleftrightarrow>
     schema_version doc = SCHEMA_VERSION \<and> listener_host (doc_listener doc) = ''127.0.0.1'' \<and>
     listener_port (doc_listener doc) \<noteq> 0 \<and> request_body_limit_bytes (doc_listener doc) \<noteq> 0 \<and>
     max_connections (doc_listener doc) \<noteq> 0 \<and> request_body_ms (doc_timeouts doc) \<noteq> 0 \<and>
     connect_ms (doc_timeouts doc) \<noteq> 0 \<and> response_headers_ms (doc_timeouts doc) \<noteq> 0 \<and>
     stream_idle_ms (doc_timeouts doc) \<noteq> 0 \<and> websocket_idle_ms (doc_timeouts doc) \<noteq> 0 \<and>
     shutdown_grace_ms (doc_timeouts doc) \<noteq> 0"

definition document_valid :: "url_parser \<Rightarrow> providers_document \<Rightarrow> bool" where
  "document_valid url_parse doc \<longleftrightarrow>
     listener_valid doc \<and> distinct (map prov_id (doc_providers doc)) \<and>
     (\<forall>p \<in> set (doc_providers doc). provider_valid url_parse p)"

lemma validate_listener_iff: "validate_listener doc = Inr () \<longleftrightarrow> listener_valid doc"
  by (simp add: validate_listener_def listener_valid_def Let_def)

lemma try_fold_check_provider:
  "(\<exists>ids'. try_fold (check_provider url_parse) ids ps = Inr ids') \<longleftrightarrow>
     distinct (map prov_id ps) \<and> ids \<inter> set (map prov_id ps) = {} \<and>
     (\<forall>p \<in> set ps. provider_valid url_parse p)"
proof (induction ps arbitrary: ids)
  case (Cons p ps)
  show ?case
  proof (cases "prov_id p \<notin> ids \<and> provider_valid url_parse p")
    case True
    then have "check_provider url_parse ids p = Inr (insert (prov_id p) ids)"
      by (simp add: check_provider_def provider_validate_iff)
    with True show ?thesis
      using Cons.IH [of "insert (prov_id p) ids"] by auto
  next
    case False
    then have "\<And>ids'. check_provider url_parse ids p \<noteq> Inr ids'"
      by (auto simp: check_provider_def provider_validate_iff)
    with False show ?thesis by auto
  qed
qed simp

lemma providers_validate_iff:
  "providers_validate url_parse doc = Inr () \<longleftrightarrow> document_valid url_parse doc"
  using try_fold_check_provider [of url_parse "{}" "doc_providers doc"]
  by (auto simp: providers_validate_def document_valid_def validate_listener_iff)

section \<open>Reading the document\<close>

text \<open>
  The YAML library is a parameter: \<open>yaml_parse\<close> reads a YAML value, \<open>yaml_version\<close> is
  its top-level \<open>schema_version\<close> when that is a \<open>u64\<close>, and \<open>yaml_document\<close>
  deserializes it.
\<close>

record 'y yaml_reader =
  yaml_parse :: "str \<Rightarrow> str + 'y"
  yaml_version :: "'y \<Rightarrow> u64 option"
  yaml_document :: "'y \<Rightarrow> str + providers_document"

definition u32_of_u64 :: "u64 \<Rightarrow> 32 word" where
  "u32_of_u64 w = (if unat w < 2 ^ 32 then ucast w else - 1)"

definition providers_from_yaml ::
  "url_parser \<Rightarrow> 'y yaml_reader \<Rightarrow> str \<Rightarrow> core_error + providers_document" where
  "providers_from_yaml url_parse reader yaml =
     and_then (map_err InvalidYaml (yaml_parse reader yaml)) (\<lambda>value.
       let version = (case yaml_version reader value of None \<Rightarrow> 0 | Some v \<Rightarrow> v) in
       if version \<noteq> ucast SCHEMA_VERSION
       then Inl (UnsupportedSchemaVersion (u32_of_u64 version) SCHEMA_VERSION)
       else
         and_then (map_err InvalidYaml (yaml_document reader value)) (\<lambda>document.
         and_then (providers_validate url_parse document) (\<lambda>_. Inr document)))"

lemma providers_from_yaml_valid:
  "providers_from_yaml url_parse reader yaml = Inr doc \<Longrightarrow> document_valid url_parse doc"
  by (auto simp: providers_from_yaml_def Let_def providers_validate_iff split: if_splits)

section \<open>Routing fingerprint\<close>

text \<open>
  The serialized fields, with the names that \<open>serde\<close> derives; the hash function and its
  hexadecimal text are a parameter.
\<close>

definition protocol_name :: "protocol_id \<Rightarrow> str" where
  "protocol_name p =
     (case p of
        OpenaiResponses \<Rightarrow> ''openai_responses''
      | OpenaiChatCompletions \<Rightarrow> ''openai_chat_completions''
      | AnthropicMessages \<Rightarrow> ''anthropic_messages'')"

definition endpoints_json :: "endpoint_config \<Rightarrow> json" where
  "endpoints_json e =
     JObject ([(''http'', JString (endpoint_http e)),
               (''websocket'', opt_string (endpoint_websocket e))] @
              (case endpoint_models e of None \<Rightarrow> [] | Some m \<Rightarrow> [(''models'', JString m)]))"

definition fingerprint_input :: "provider_config \<Rightarrow> json" where
  "fingerprint_input p =
     JObject [(''protocol'', JString (protocol_name (prov_protocol p))),
              (''endpoints'', endpoints_json (prov_endpoints p)),
              (''auth_mode'', JString (auth_mode_name (prov_auth p))),
              (''transports'', JObject [(''http_sse'', JBool (http_sse (prov_transports p))),
                                        (''websocket'', JBool (websocket (prov_transports p)))])]"

definition routing_fingerprint ::
  "codec \<Rightarrow> (str \<Rightarrow> str) \<Rightarrow> provider_config \<Rightarrow> core_error + str" where
  "routing_fingerprint c sha256_hex p =
     and_then (map_err FingerprintSerialization (to_vec c (fingerprint_input p))) (\<lambda>bytes.
     Inr (''sha256:'' @ sha256_hex bytes))"

lemma protocol_name_inject: "protocol_name p = protocol_name q \<Longrightarrow> p = q"
  by (cases p; cases q) (simp_all add: protocol_name_def)

lemma opt_string_inject [simp]: "opt_string x = opt_string y \<longleftrightarrow> x = y"
  by (cases x; cases y) (simp_all add: opt_string_def)

lemma endpoints_json_inject:
  assumes "endpoints_json e = endpoints_json f"
  shows "endpoint_http e = endpoint_http f \<and> endpoint_websocket e = endpoint_websocket f \<and>
         endpoint_models e = endpoint_models f"
  using assms by (auto simp: endpoints_json_def split: option.splits)

lemma fingerprint_input_iff:
  "fingerprint_input p = fingerprint_input q \<longleftrightarrow>
     prov_protocol p = prov_protocol q \<and>
     endpoint_http (prov_endpoints p) = endpoint_http (prov_endpoints q) \<and>
     endpoint_websocket (prov_endpoints p) = endpoint_websocket (prov_endpoints q) \<and>
     endpoint_models (prov_endpoints p) = endpoint_models (prov_endpoints q) \<and>
     auth_mode_name (prov_auth p) = auth_mode_name (prov_auth q) \<and>
     http_sse (prov_transports p) = http_sse (prov_transports q) \<and>
     websocket (prov_transports p) = websocket (prov_transports q)"
  (is "?l \<longleftrightarrow> ?r")
proof
  assume ?l
  then have "protocol_name (prov_protocol p) = protocol_name (prov_protocol q)"
    and "endpoints_json (prov_endpoints p) = endpoints_json (prov_endpoints q)"
    and "auth_mode_name (prov_auth p) = auth_mode_name (prov_auth q)"
    and "http_sse (prov_transports p) = http_sse (prov_transports q)"
    and "websocket (prov_transports p) = websocket (prov_transports q)"
    by (simp_all add: fingerprint_input_def)
  then show ?r by (blast dest: protocol_name_inject endpoints_json_inject)
next
  assume ?r
  then show ?l by (simp add: fingerprint_input_def endpoints_json_def)
qed

end
