(* ===== verification/Routing.thy ===== *)
theory Routing
  imports CoreConfig
begin

text \<open>
  \<open>provider-x-core/src/route.rs\<close> and \<open>snapshot.rs\<close>: the routing decision, the
  immutable snapshot of the published models and its construction. The trait
  \<open>RouteResolver\<close> is the locale \<open>route_resolver\<close>; the snapshot is its interpretation.
\<close>

section \<open>Decisions and snapshots\<close>

datatype route_decision =
    ThirdParty provider_id model_id
  | BuiltInOfficial
  | UnavailableManagedModel

record third_party_route =
  route_provider :: provider_id
  route_model :: model_id

record runtime_snapshot =
  routes :: "(str, third_party_route) btree"

text \<open>The body of the inner loop of \<open>build\<close>: the models of one enabled provider.\<close>

definition build_model ::
  "provider_id \<Rightarrow> model_id set \<times> (str, third_party_route) btree \<Rightarrow> provider_model_spec \<Rightarrow>
     core_error + model_id set \<times> (str, third_party_route) btree" where
  "build_model p acc model =
     and_then (check_model p (fst acc) model) (\<lambda>ids.
       if \<not> spec_enabled model then Inr (ids, snd acc)
       else Inr (ids,
         bt_insert (catalog_str (for_provider p (upstream_model_id model)))
           \<lparr>route_provider = p, route_model = upstream_model_id model\<rparr> (snd acc)))"

definition build_provider ::
  "(str, third_party_route) btree \<Rightarrow> provider_config \<Rightarrow> core_error + (str, third_party_route) btree" where
  "build_provider rs p =
     and_then (try_fold (build_model (prov_id p)) ({}, rs) (prov_models p)) (\<lambda>acc. Inr (snd acc))"

definition snapshot_build ::
  "url_parser \<Rightarrow> providers_document \<Rightarrow> model_cache_document \<Rightarrow> core_error + runtime_snapshot" where
  "snapshot_build url_parse providers cache =
     and_then (providers_validate url_parse providers) (\<lambda>_.
     and_then (model_cache_validate cache) (\<lambda>_.
     and_then (try_fold build_provider [] (filter prov_enabled (doc_providers providers))) (\<lambda>rs.
     Inr \<lparr>routes = rs\<rparr>)))"

definition published_model_count :: "runtime_snapshot \<Rightarrow> nat" where
  "published_model_count s = length (routes s)"

definition resolve :: "runtime_snapshot \<Rightarrow> str \<Rightarrow> route_decision" where
  "resolve s catalog_model =
     (case bt_get (routes s) catalog_model of
        Some route \<Rightarrow> ThirdParty (route_provider route) (route_model route)
      | None \<Rightarrow> if CHR ''/'' \<in> set catalog_model then UnavailableManagedModel else BuiltInOfficial)"

section \<open>The interface\<close>

text \<open>
  What a resolver promises its clients for the models it publishes: a third-party
  decision names the parts of the requested identifier, and an identifier is official
  exactly when it has no namespace.
\<close>

locale route_resolver =
  fixes resolver_ok :: "'r \<Rightarrow> bool"
    and decide :: "'r \<Rightarrow> str \<Rightarrow> route_decision"
  assumes third_party: "resolver_ok r \<Longrightarrow> decide r m = ThirdParty p u \<Longrightarrow>
      m = catalog_str (for_provider p u) \<and> provider_id_ok p"
    and official: "resolver_ok r \<Longrightarrow> decide r m = BuiltInOfficial \<longleftrightarrow> CHR ''/'' \<notin> set m"
begin

lemma fail_closed: "resolver_ok r \<Longrightarrow> CHR ''/'' \<in> set m \<Longrightarrow> decide r m \<noteq> BuiltInOfficial"
  by (simp add: official)

lemma bare_is_official: "resolver_ok r \<Longrightarrow> CHR ''/'' \<notin> set m \<Longrightarrow> decide r m = BuiltInOfficial"
  by (simp add: official)

lemma upstream_model_sent:
  assumes "resolver_ok r" and "decide r m = ThirdParty p u"
  shows "split_once (CHR ''/'') m = Some (provider_str p, model_str u)"
proof -
  from third_party [OF assms] have "m = provider_str p @ CHR ''/'' # model_str u" "provider_id_ok p"
    by (auto simp: for_provider_def)
  then show ?thesis using provider_id_no_slash by (simp add: split_once_Some)
qed

lemma destinations_distinct:
  assumes "resolver_ok r" and "decide r m = ThirdParty p u" and "decide r n = ThirdParty p u"
  shows "m = n"
  using third_party [OF assms(1,2)] third_party [OF assms(1,3)] by simp

end

section \<open>What the construction publishes\<close>

text \<open>The identifiers of a document were accepted by their constructors.\<close>

definition document_ids_ok :: "providers_document \<Rightarrow> bool" where
  "document_ids_ok doc \<longleftrightarrow>
     (\<forall>p \<in> set (doc_providers doc). provider_id_ok (prov_id p) \<and>
        (\<forall>m \<in> set (prov_models p). model_id_ok (upstream_model_id m)))"

definition publishes :: "provider_config \<Rightarrow> model_id \<Rightarrow> bool" where
  "publishes p u \<longleftrightarrow> prov_enabled p \<and> (\<exists>m \<in> set (prov_models p). spec_enabled m \<and> upstream_model_id m = u)"

definition enabled_models :: "provider_config \<Rightarrow> model_id list" where
  "enabled_models p = map upstream_model_id (filter spec_enabled (prov_models p))"

definition add_routes :: "provider_id \<Rightarrow> model_id list \<Rightarrow> (str, third_party_route) btree \<Rightarrow> (str, third_party_route) btree" where
  "add_routes p us rs =
     fold (\<lambda>u. bt_insert (catalog_str (for_provider p u)) \<lparr>route_provider = p, route_model = u\<rparr>) us rs"

lemma try_fold_build_model:
  assumes "models_consistent p ms" and "ids \<inter> set (map upstream_model_id ms) = {}"
  shows "\<exists>ids'. try_fold (build_model p) (ids, rs) ms =
           Inr (ids', add_routes p (map upstream_model_id (filter spec_enabled ms)) rs)"
  using assms
proof (induction ms arbitrary: ids rs)
  case Nil
  then show ?case by (simp add: add_routes_def)
next
  case (Cons m ms)
  then have "check_model p ids m = Inr (insert (upstream_model_id m) ids)"
    by (simp add: check_model_def models_consistent_def)
  with Cons.IH [of "insert (upstream_model_id m) ids"] Cons.prems show ?case
    by (auto simp: build_model_def add_routes_def models_consistent_def)
qed

lemma build_provider_eq:
  "models_consistent (prov_id p) (prov_models p) \<Longrightarrow>
   build_provider rs p = Inr (add_routes (prov_id p) (enabled_models p) rs)"
  using try_fold_build_model [of "prov_id p" "prov_models p" "{}" rs]
  by (auto simp: build_provider_def enabled_models_def)

lemma try_fold_build_provider:
  "\<forall>p \<in> set ps. models_consistent (prov_id p) (prov_models p) \<Longrightarrow>
   try_fold build_provider rs ps = Inr (fold (\<lambda>p. add_routes (prov_id p) (enabled_models p)) ps rs)"
  by (induction ps arbitrary: rs) (simp_all add: build_provider_eq)

definition published_routes :: "providers_document \<Rightarrow> (str, third_party_route) btree" where
  "published_routes doc =
     fold (\<lambda>p. add_routes (prov_id p) (enabled_models p)) (filter prov_enabled (doc_providers doc)) []"

text \<open>The construction succeeds exactly on valid documents: its own checks never fire.\<close>

lemma snapshot_build_eq:
  assumes "document_valid url_parse doc" and "model_cache_validate cache = Inr ()"
  shows "snapshot_build url_parse doc cache = Inr \<lparr>routes = published_routes doc\<rparr>"
proof -
  have "\<forall>p \<in> set (filter prov_enabled (doc_providers doc)). models_consistent (prov_id p) (prov_models p)"
    using assms(1) by (simp add: document_valid_def provider_valid_def)
  with assms show ?thesis
    by (simp add: snapshot_build_def published_routes_def providers_validate_iff try_fold_build_provider)
qed

lemma snapshot_build_Inr:
  "snapshot_build url_parse doc cache = Inr s \<longleftrightarrow>
     document_valid url_parse doc \<and> model_cache_validate cache = Inr () \<and> s = \<lparr>routes = published_routes doc\<rparr>"
proof
  assume built: "snapshot_build url_parse doc cache = Inr s"
  then have "document_valid url_parse doc" "model_cache_validate cache = Inr ()"
    by (auto simp: snapshot_build_def providers_validate_iff)
  with built snapshot_build_eq show
    "document_valid url_parse doc \<and> model_cache_validate cache = Inr () \<and> s = \<lparr>routes = published_routes doc\<rparr>"
    by fastforce
qed (simp add: snapshot_build_eq)

section \<open>Lookups in a built snapshot\<close>

abbreviation catalog_key :: "provider_id \<Rightarrow> model_id \<Rightarrow> str" where
  "catalog_key p u \<equiv> catalog_str (for_provider p u)"

abbreviation the_route :: "provider_id \<Rightarrow> model_id \<Rightarrow> third_party_route" where
  "the_route p u \<equiv> \<lparr>route_provider = p, route_model = u\<rparr>"

lemma catalog_key_inject:
  "provider_id_ok p \<Longrightarrow> provider_id_ok q \<Longrightarrow> catalog_key p u = catalog_key q v \<longleftrightarrow> p = q \<and> u = v"
  using for_provider_inject by (metis catalog_model_id.expand)

lemma catalog_key_same_provider [simp]: "catalog_key p u = catalog_key p v \<longleftrightarrow> u = v"
  by (auto simp: for_provider_def intro: model_id.expand)

lemma bt_ok_add_routes: "bt_ok rs \<Longrightarrow> bt_ok (add_routes p us rs)"
  unfolding add_routes_def by (induction us arbitrary: rs) simp_all

lemma bt_get_add_routes:
  "bt_get (add_routes p us rs) k =
     (case find (\<lambda>u. k = catalog_key p u) us of Some u \<Rightarrow> Some (the_route p u) | None \<Rightarrow> bt_get rs k)"
proof (induction us arbitrary: rs)
  case (Cons u us)
  have step: "add_routes p (u # us) rs = add_routes p us (bt_insert (catalog_key p u) (the_route p u) rs)"
    by (simp add: add_routes_def)
  show ?case
  proof (cases "find (\<lambda>u. k = catalog_key p u) us")
    case None
    with Cons.IH step show ?thesis by simp
  next
    case (Some v)
    then have "k = catalog_key p v" by (auto simp: find_Some_iff)
    with Some Cons.IH step show ?thesis by auto
  qed
qed (simp add: add_routes_def)

lemma bt_get_add_routes_Some:
  "bt_get (add_routes p us rs) k = Some r \<longleftrightarrow>
     (\<exists>u \<in> set us. k = catalog_key p u \<and> r = the_route p u) \<or>
     (\<forall>u \<in> set us. k \<noteq> catalog_key p u) \<and> bt_get rs k = Some r"
proof (cases "find (\<lambda>u. k = catalog_key p u) us")
  case None
  then have "\<forall>u \<in> set us. k \<noteq> catalog_key p u" by (auto simp: find_None_iff)
  with None show ?thesis by (auto simp: bt_get_add_routes)
next
  case (Some v)
  then have "v \<in> set us" "k = catalog_key p v" by (auto simp: find_Some_iff)
  with Some show ?thesis by (auto simp: bt_get_add_routes)
qed

lemma bt_get_fold_routes:
  assumes "\<forall>p \<in> set ps. provider_id_ok (prov_id p)"
  shows "bt_get (fold (\<lambda>p. add_routes (prov_id p) (enabled_models p)) ps rs) k = Some r \<longleftrightarrow>
     (\<exists>p \<in> set ps. \<exists>u \<in> set (enabled_models p). k = catalog_key (prov_id p) u \<and> r = the_route (prov_id p) u) \<or>
     (\<forall>p \<in> set ps. \<forall>u \<in> set (enabled_models p). k \<noteq> catalog_key (prov_id p) u) \<and> bt_get rs k = Some r"
  using assms
proof (induction ps arbitrary: rs)
  case (Cons p ps)
  have same: "\<lbrakk>q \<in> set ps; catalog_key (prov_id p) u = catalog_key (prov_id q) v\<rbrakk>
    \<Longrightarrow> prov_id p = prov_id q \<and> u = v" for q u v
    using Cons.prems by (auto simp: catalog_key_inject)
  from Cons.prems have "\<forall>p \<in> set ps. provider_id_ok (prov_id p)" by simp
  note IH = Cons.IH [OF this, of "add_routes (prov_id p) (enabled_models p) rs"]
  let ?hit = "\<lambda>p r. \<exists>u \<in> set (enabled_models p). k = catalog_key (prov_id p) u \<and> r = the_route (prov_id p) u"
  have tail: "?hit q r" if "q \<in> set ps" "u \<in> set (enabled_models p)" "k = catalog_key (prov_id p) u"
      "r = the_route (prov_id p) u" "v \<in> set (enabled_models q)" "k = catalog_key (prov_id q) v" for q u v
    using same [of q u v] that by auto
  show ?case
    by (simp only: fold_simps IH bt_get_add_routes_Some list.set ball_simps bex_simps) (use tail in blast)
qed simp

lemma enabled_models_publishes:
  "(\<exists>p \<in> set ps. prov_enabled p \<and> prov_id p = q \<and> u \<in> set (enabled_models p)) \<longleftrightarrow>
   (\<exists>p \<in> set ps. prov_id p = q \<and> publishes p u)"
  by (auto simp: publishes_def enabled_models_def)

lemma published_routes_get:
  assumes "document_ids_ok doc"
  shows "bt_get (published_routes doc) k = Some r \<longleftrightarrow>
     (\<exists>p \<in> set (doc_providers doc). \<exists>u. publishes p u \<and> k = catalog_key (prov_id p) u \<and>
        r = the_route (prov_id p) u)"
proof -
  have "\<forall>p \<in> set (filter prov_enabled (doc_providers doc)). provider_id_ok (prov_id p)"
    using assms by (simp add: document_ids_ok_def)
  note get = bt_get_fold_routes [OF this, of "[]" k r]
  show ?thesis
    unfolding published_routes_def get
    by (auto simp: publishes_def enabled_models_def)
qed

lemma bt_ok_published_routes: "bt_ok (published_routes doc)"
proof -
  have "bt_ok (fold (\<lambda>p. add_routes (prov_id p) (enabled_models p)) ps rs)" if "bt_ok rs" for ps rs
    using that by (induction ps arbitrary: rs) (simp_all add: bt_ok_add_routes)
  then show ?thesis by (simp add: published_routes_def)
qed

lemma length_add_routes:
  "\<lbrakk>bt_ok rs; distinct us; \<forall>u \<in> set us. bt_get rs (catalog_key p u) = None\<rbrakk>
   \<Longrightarrow> length (add_routes p us rs) = length rs + length us"
proof (induction us arbitrary: rs)
  case (Cons u us)
  have "\<forall>v \<in> set us. bt_get (bt_insert (catalog_key p u) (the_route p u) rs) (catalog_key p v) = None"
    using Cons.prems by auto
  with Cons.IH [of "bt_insert (catalog_key p u) (the_route p u) rs"] Cons.prems show ?case
    by (simp add: add_routes_def length_bt_insert)
qed (simp add: add_routes_def)

lemma length_fold_routes:
  assumes "bt_ok rs" and "distinct (map prov_id ps)" and "\<forall>p \<in> set ps. provider_id_ok (prov_id p)"
    and "\<forall>p \<in> set ps. distinct (enabled_models p)"
    and "\<forall>p \<in> set ps. \<forall>u. bt_get rs (catalog_key (prov_id p) u) = None"
  shows "length (fold (\<lambda>p. add_routes (prov_id p) (enabled_models p)) ps rs) =
         length rs + sum_list (map (\<lambda>p. length (enabled_models p)) ps)"
  using assms
proof (induction ps arbitrary: rs)
  case (Cons p ps)
  let ?rs = "add_routes (prov_id p) (enabled_models p) rs"
  have "length ?rs = length rs + length (enabled_models p)"
    using Cons.prems by (simp add: length_add_routes)
  moreover have "\<forall>q \<in> set ps. \<forall>u. bt_get ?rs (catalog_key (prov_id q) u) = None"
  proof (intro ballI allI)
    fix q u assume "q \<in> set ps"
    with Cons.prems have "prov_id q \<noteq> prov_id p" by (metis distinct.simps(2) image_eqI list.set_map list.simps(9))
    with Cons.prems \<open>q \<in> set ps\<close> have "\<forall>v. catalog_key (prov_id q) u \<noteq> catalog_key (prov_id p) v"
      by (simp add: catalog_key_inject)
    then have "find (\<lambda>v. catalog_key (prov_id q) u = catalog_key (prov_id p) v) (enabled_models p) = None"
      by (simp add: find_None_iff)
    with Cons.prems \<open>q \<in> set ps\<close> show "bt_get ?rs (catalog_key (prov_id q) u) = None"
      by (simp add: bt_get_add_routes)
  qed
  ultimately show ?case
    using Cons.prems Cons.IH [of ?rs] by (simp add: bt_ok_add_routes)
qed simp

text \<open>The snapshot as a resolver.\<close>

definition snapshot_ok :: "runtime_snapshot \<Rightarrow> bool" where
  "snapshot_ok s \<longleftrightarrow>
     (\<forall>k r. bt_get (routes s) k = Some r \<longrightarrow>
        provider_id_ok (route_provider r) \<and> k = catalog_key (route_provider r) (route_model r))"

lemma snapshot_ok_built:
  assumes "document_ids_ok doc"
  shows "snapshot_ok \<lparr>routes = published_routes doc\<rparr>"
  using assms by (auto simp: snapshot_ok_def published_routes_get document_ids_ok_def)

interpretation snapshot: route_resolver snapshot_ok resolve
proof unfold_locales
  fix s m p u
  assume "snapshot_ok s" and "resolve s m = ThirdParty p u"
  then show "m = catalog_key p u \<and> provider_id_ok p"
    by (auto simp: resolve_def snapshot_ok_def split: option.splits if_splits)
next
  fix s m
  assume "snapshot_ok s"
  then show "resolve s m = BuiltInOfficial \<longleftrightarrow> CHR ''/'' \<notin> set m"
    using for_provider_slash by (auto simp: resolve_def snapshot_ok_def split: option.splits)
qed

section \<open>Routing properties\<close>

text \<open>
  A concrete document for the witnesses: one enabled provider with an enabled and a
  disabled model, and a URL parser that knows its endpoint.
\<close>

definition example_url_parse :: url_parser where
  "example_url_parse s =
     (if s = ''https://a.example/v1''
      then Some \<lparr>url_scheme = ''https'', url_host = Some ''a.example'', url_username = [],
                 url_password = None, url_fragment = None\<rparr>
      else None)"

definition example_model :: "str \<Rightarrow> bool \<Rightarrow> provider_model_spec" where
  "example_model name on =
     \<lparr>upstream_model_id = ModelId name, spec_catalog_id = CatalogModelId (''a/'' @ name),
      spec_display_name = name, spec_enabled = on, spec_context_window = None,
      spec_reasoning_levels = [], spec_parallel_tool_calls = None, spec_search_tool = None,
      spec_metadata_sources = []\<rparr>"

definition example_provider :: provider_config where
  "example_provider =
     \<lparr>prov_id = ProviderId ''a'', prov_name = ''A'', prov_description = None, prov_enabled = True,
      prov_preset = ''p'', prov_connection = ''c'',
      prov_models = [example_model ''m'' True, example_model ''n'' False],
      prov_protocol = OpenaiResponses, prov_reasoning_policy = Native,
      prov_anthropic_thinking = None,
      prov_endpoints = \<lparr>endpoint_http = ''https://a.example/v1'', endpoint_websocket = None,
                        endpoint_models = None\<rparr>,
      prov_auth = Bearer ''key'', prov_transports = \<lparr>http_sse = True, websocket = False\<rparr>\<rparr>"

definition example_document :: providers_document where
  "example_document =
     \<lparr>schema_version = 3,
      doc_listener = \<lparr>listener_host = ''127.0.0.1'', listener_port = 43119,
                      request_body_limit_bytes = 1048576, max_connections = 16\<rparr>,
      doc_timeouts = \<lparr>request_body_ms = 1, connect_ms = 1, response_headers_ms = 1,
                      stream_idle_ms = 1, websocket_idle_ms = 1, shutdown_grace_ms = 1\<rparr>,
      doc_codex = \<lparr>manage_user_config = False\<rparr>,
      doc_providers = [example_provider]\<rparr>"

definition example_cache :: model_cache_document where
  "example_cache = \<lparr>cache_schema_version = 1, cache_providers = []\<rparr>"

lemmas example_defs =
  example_url_parse_def example_model_def example_provider_def example_document_def example_cache_def

lemma example_ids_ok: "document_ids_ok example_document"
  by (simp add: document_ids_ok_def example_defs provider_id_ok_def model_id_ok_def
      provider_id_new_def model_id_new_def is_ascii_alphanumeric_def is_ascii_lowercase_def
      trim_def trim_end_def ws1_def)

lemma example_provider_valid: "provider_valid example_url_parse example_provider"
  by (simp add: provider_valid_def models_consistent_def auth_clean_def endpoints_consistent_def
      example_defs for_provider_def unclean_def trim_def trim_end_def ws1_def ws2_def ws3_def
      is_absolute_http_url_def valid_url_def)

lemma example_valid: "document_valid example_url_parse example_document"
  using example_provider_valid
  by (simp add: document_valid_def listener_valid_def example_document_def SCHEMA_VERSION_def)

lemma example_cache_valid: "model_cache_validate example_cache = Inr ()"
  by (simp add: example_cache_def model_cache_validate_def MODEL_CACHE_SCHEMA_VERSION_def)

lemma example_built:
  "snapshot_build example_url_parse example_document example_cache =
     Inr \<lparr>routes = published_routes example_document\<rparr>"
  by (rule snapshot_build_eq [OF example_valid example_cache_valid])

lemma example_publishes: "publishes example_provider u \<longleftrightarrow> u = ModelId ''m''"
  by (auto simp: publishes_def example_provider_def example_model_def)

text \<open>
  C1: A model identifier is routed to a third-party provider exactly when an enabled
  provider of the document has that model enabled and the identifier is the provider's
  namespace, a slash and the upstream model; the decision names that provider and that
  upstream model.
\<close>

theorem resolve_third_party:
  assumes "snapshot_build url_parse doc cache = Inr s" and "document_ids_ok doc"
  shows "resolve s m = ThirdParty q u \<longleftrightarrow>
     m = catalog_str (for_provider q u) \<and>
     (\<exists>p \<in> set (doc_providers doc). prov_id p = q \<and> publishes p u)"
proof -
  from assms(1) have s: "routes s = published_routes doc" by (auto simp: snapshot_build_Inr)
  have "resolve s m = ThirdParty q u \<longleftrightarrow> bt_get (published_routes doc) m = Some (the_route q u)"
    by (auto simp: resolve_def s split: option.splits intro: third_party_route.equality)
  then show ?thesis by (auto simp: published_routes_get [OF assms(2)])
qed

theorem resolve_third_party_witness:
  "\<exists>s. snapshot_build example_url_parse example_document example_cache = Inr s \<and>
     resolve s ''a/m'' = ThirdParty (ProviderId ''a'') (ModelId ''m'') \<and>
     resolve s ''a/n'' \<noteq> ThirdParty (ProviderId ''a'') (ModelId ''n'')"
proof (intro exI conjI)
  show built: "snapshot_build example_url_parse example_document example_cache =
      Inr \<lparr>routes = published_routes example_document\<rparr>"
    by (rule example_built)
  note rt = resolve_third_party [OF built example_ids_ok]
  show "resolve \<lparr>routes = published_routes example_document\<rparr> ''a/m'' = ThirdParty (ProviderId ''a'') (ModelId ''m'')"
    unfolding rt
    by (simp add: for_provider_def example_document_def example_publishes)
      (simp add: example_provider_def)
  show "resolve \<lparr>routes = published_routes example_document\<rparr> ''a/n'' \<noteq> ThirdParty (ProviderId ''a'') (ModelId ''n'')"
    unfolding rt by (simp add: example_document_def example_publishes)
qed

text \<open>
  C2: A namespaced identifier that no enabled provider publishes fails closed: it is
  reported unavailable and is never sent to the official upstream, while every
  identifier without a slash is official.
\<close>

theorem resolve_fails_closed:
  assumes "snapshot_build url_parse doc cache = Inr s" and "document_ids_ok doc"
  shows "(resolve s m = BuiltInOfficial \<longleftrightarrow> CHR ''/'' \<notin> set m) \<and>
    (resolve s m = UnavailableManagedModel \<longleftrightarrow> CHR ''/'' \<in> set m \<and>
       \<not> (\<exists>p \<in> set (doc_providers doc). \<exists>u. publishes p u \<and> m = catalog_str (for_provider (prov_id p) u)))"
proof -
  from assms(1) have s: "s = \<lparr>routes = published_routes doc\<rparr>" by (simp add: snapshot_build_Inr)
  then have ok: "snapshot_ok s" using snapshot_ok_built [OF assms(2)] by simp
  have "bt_get (routes s) m = None \<longleftrightarrow>
    \<not> (\<exists>p \<in> set (doc_providers doc). \<exists>u. publishes p u \<and> m = catalog_str (for_provider (prov_id p) u))"
  proof -
    have "(\<exists>r. bt_get (published_routes doc) m = Some r) \<longleftrightarrow>
      (\<exists>p \<in> set (doc_providers doc). \<exists>u. publishes p u \<and> m = catalog_str (for_provider (prov_id p) u))"
      by (simp only: published_routes_get [OF assms(2)]) blast
    moreover have "bt_get (routes s) m = None \<longleftrightarrow> \<not> (\<exists>r. bt_get (published_routes doc) m = Some r)"
      by (simp add: s)
    ultimately show ?thesis by blast
  qed
  moreover have "resolve s m = UnavailableManagedModel \<longleftrightarrow> CHR ''/'' \<in> set m \<and> bt_get (routes s) m = None"
    by (simp add: resolve_def split: option.split)
  ultimately have "resolve s m = UnavailableManagedModel \<longleftrightarrow> CHR ''/'' \<in> set m \<and>
    \<not> (\<exists>p \<in> set (doc_providers doc). \<exists>u. publishes p u \<and> m = catalog_str (for_provider (prov_id p) u))"
    by (simp only:)
  with snapshot.official [OF ok] show ?thesis by (rule conjI)
qed

theorem resolve_fails_closed_witness:
  "\<exists>s. snapshot_build example_url_parse example_document example_cache = Inr s \<and>
     resolve s ''a/n'' = UnavailableManagedModel \<and> resolve s ''gpt-5'' = BuiltInOfficial"
proof (intro exI conjI)
  show built: "snapshot_build example_url_parse example_document example_cache =
      Inr \<lparr>routes = published_routes example_document\<rparr>"
    by (rule example_built)
  note fc = resolve_fails_closed [OF built example_ids_ok]
  have "\<not> (\<exists>p \<in> set (doc_providers example_document). \<exists>u. publishes p u \<and>
      ''a/n'' = catalog_str (for_provider (prov_id p) u))"
    by (simp add: example_document_def example_publishes)
      (simp add: example_provider_def for_provider_def)
  with fc [of "''a/n''"] show "resolve \<lparr>routes = published_routes example_document\<rparr> ''a/n'' = UnavailableManagedModel"
    by simp
  show "resolve \<lparr>routes = published_routes example_document\<rparr> ''gpt-5'' = BuiltInOfficial"
    using fc [of "''gpt-5''"] by simp
qed

text \<open>A snapshot can be built exactly from a valid document and a valid cache, so the
  checks that the construction repeats never fail, and it publishes one route for each
  enabled model of each enabled provider.
\<close>

theorem snapshot_build_total:
  assumes "document_ids_ok doc"
  shows "((\<exists>s. snapshot_build url_parse doc cache = Inr s) \<longleftrightarrow>
           document_valid url_parse doc \<and> model_cache_validate cache = Inr ()) \<and>
    (\<forall>s. snapshot_build url_parse doc cache = Inr s \<longrightarrow>
         published_model_count s =
           sum_list (map (\<lambda>p. length (filter spec_enabled (prov_models p)))
             (filter prov_enabled (doc_providers doc))))"
proof (intro conjI allI impI)
  show "(\<exists>s. snapshot_build url_parse doc cache = Inr s) \<longleftrightarrow>
      document_valid url_parse doc \<and> model_cache_validate cache = Inr ()"
    by (auto simp: snapshot_build_Inr)
next
  fix s
  let ?ps = "filter prov_enabled (doc_providers doc)"
  assume "snapshot_build url_parse doc cache = Inr s"
  then have valid: "document_valid url_parse doc" and s: "routes s = published_routes doc"
    by (auto simp: snapshot_build_Inr)
  from valid have "distinct (map prov_id ?ps)"
    by (simp add: document_valid_def distinct_map_filter)
  moreover from valid have "\<forall>p \<in> set ?ps. distinct (enabled_models p)"
    by (simp add: document_valid_def provider_valid_def models_consistent_def enabled_models_def
        distinct_map_filter)
  moreover have "\<forall>p \<in> set ?ps. provider_id_ok (prov_id p)"
    using assms by (simp add: document_ids_ok_def)
  ultimately show "published_model_count s =
      sum_list (map (\<lambda>p. length (filter spec_enabled (prov_models p))) ?ps)"
    using length_fold_routes [of "[]" ?ps]
    by (simp add: published_model_count_def s published_routes_def enabled_models_def)
qed

theorem snapshot_build_total_witness:
  "\<exists>s. snapshot_build example_url_parse example_document example_cache = Inr s \<and>
     published_model_count s = 1"
proof -
  note total = snapshot_build_total [OF example_ids_ok, of example_url_parse example_cache]
  then obtain s where s: "snapshot_build example_url_parse example_document example_cache = Inr s"
    using example_valid example_cache_valid by blast
  with total have "published_model_count s =
      sum_list (map (\<lambda>p. length (filter spec_enabled (prov_models p)))
             (filter prov_enabled (doc_providers example_document)))" by blast
  also have "\<dots> = 1" by (simp add: example_document_def example_provider_def example_model_def)
  finally show ?thesis using s by blast
qed

end
