(* ===== verification/IpAddr.thy ===== *)
theory IpAddr
  imports RustStr
begin

text \<open>
  \<open>IpAddr::from_str\<close> of the standard library, as its recursive-descent parser reads an
  address: a reader consumes a prefix of the text or fails without consuming anything.
  An IPv4 address is its four octets, an IPv6 address its eight groups.
\<close>

type_synonym 'a reader = "str \<Rightarrow> ('a \<times> str) option"

definition hex_digit :: "char \<Rightarrow> nat option" where
  "hex_digit c =
     (if is_ascii_digit c then Some (byte c - 48)
      else if 97 \<le> byte c \<and> byte c \<le> 102 then Some (byte c - 87)
      else if 65 \<le> byte c \<and> byte c \<le> 70 then Some (byte c - 55)
      else None)"

definition radix_digit :: "nat \<Rightarrow> char \<Rightarrow> nat option" where
  "radix_digit radix c =
     (case hex_digit c of None \<Rightarrow> None | Some d \<Rightarrow> if d < radix then Some d else None)"

text \<open>
  \<open>read_number(radix, Some(max_digits), allow_zero_prefix)\<close> for a bound on the value: it
  fails when there are more digits than allowed, and on overflow.
\<close>

fun read_digits :: "nat \<Rightarrow> nat \<Rightarrow> nat \<Rightarrow> nat \<Rightarrow> nat \<Rightarrow> str \<Rightarrow> (nat \<times> nat \<times> str) option" where
  "read_digits radix bound max_digits count acc [] = Some (count, acc, [])"
| "read_digits radix bound max_digits count acc (c # s) =
     (case radix_digit radix c of
        None \<Rightarrow> Some (count, acc, c # s)
      | Some d \<Rightarrow>
          if bound \<le> acc * radix + d \<or> max_digits < Suc count then None
          else read_digits radix bound max_digits (Suc count) (acc * radix + d) s)"

definition read_number :: "nat \<Rightarrow> nat \<Rightarrow> nat \<Rightarrow> bool \<Rightarrow> nat reader" where
  "read_number radix bound max_digits allow_zero_prefix s =
     (case read_digits radix bound max_digits 0 0 s of
        None \<Rightarrow> None
      | Some (count, n, r) \<Rightarrow>
          if count = 0 then None
          else if \<not> allow_zero_prefix \<and> 1 < count \<and> s \<noteq> [] \<and> hd s = CHR ''0'' then None
          else Some (n, r))"

text \<open>\<open>read_separator\<close>: the separator stands before every part but the first.\<close>

definition read_separator :: "char \<Rightarrow> nat \<Rightarrow> 'a reader \<Rightarrow> 'a reader" where
  "read_separator sep index inner s =
     (if index = 0 then inner s
      else (case s of c # r \<Rightarrow> (if c = sep then inner r else None) | [] \<Rightarrow> None))"

fun read_octets :: "nat \<Rightarrow> nat \<Rightarrow> nat list reader" where
  "read_octets i 0 s = Some ([], s)"
| "read_octets i (Suc n) s =
     (case read_separator (CHR ''.'') i (read_number 10 256 3 False) s of
        None \<Rightarrow> None
      | Some (x, r) \<Rightarrow> map_option (\<lambda>(xs, t). (x # xs, t)) (read_octets (Suc i) n r))"

definition read_ipv4_addr :: "nat list reader" where
  "read_ipv4_addr s = read_octets 0 4 s"

text \<open>
  \<open>read_groups\<close>: up to \<open>n\<close> groups from position \<open>i\<close> on, where an embedded IPv4
  address may stand for the last two; it tells whether it did.
\<close>

fun read_groups :: "nat \<Rightarrow> nat \<Rightarrow> str \<Rightarrow> nat list \<times> bool \<times> str" where
  "read_groups i 0 s = ([], False, s)"
| "read_groups i (Suc n) s =
     (case (if 0 < n then read_separator (CHR '':'') i read_ipv4_addr s else None) of
        Some (octets, r) \<Rightarrow>
          ([octets ! 0 * 256 + octets ! 1, octets ! 2 * 256 + octets ! 3], True, r)
      | None \<Rightarrow>
          (case read_separator (CHR '':'') i (read_number 16 65536 4 True) s of
             None \<Rightarrow> ([], False, s)
           | Some (g, r) \<Rightarrow>
               (case read_groups (Suc i) n r of (gs, v4, t) \<Rightarrow> (g # gs, v4, t))))"

definition read_ipv6_addr :: "nat list reader" where
  "read_ipv6_addr s =
     (case read_groups 0 8 s of
        (head, head_ipv4, r) \<Rightarrow>
          if length head = 8 then Some (head, r)
          else if head_ipv4 then None
          else (case strip_prefix ''::'' r of
                  None \<Rightarrow> None
                | Some r' \<Rightarrow>
                    (case read_groups 0 (8 - (length head + 1)) r' of
                       (tail, _, t) \<Rightarrow>
                         Some (head @ replicate (8 - length head - length tail) 0 @ tail, t))))"

datatype ip_addr = V4 "nat list" | V6 "nat list"

definition parse_ip_addr :: "str \<Rightarrow> ip_addr option" where
  "parse_ip_addr s =
     (case (case read_ipv4_addr s of
              Some (xs, r) \<Rightarrow> Some (V4 xs, r)
            | None \<Rightarrow> map_option (\<lambda>(xs, r). (V6 xs, r)) (read_ipv6_addr s)) of
        Some (a, r) \<Rightarrow> if r = [] then Some a else None
      | None \<Rightarrow> None)"

definition ip_is_loopback :: "ip_addr \<Rightarrow> bool" where
  "ip_is_loopback a =
     (case a of V4 xs \<Rightarrow> xs ! 0 = 127 | V6 xs \<Rightarrow> xs = [0, 0, 0, 0, 0, 0, 0, 1])"

text \<open>Evaluation: the counters of the readers are numerals.\<close>

lemma read_octets_numeral [simp]:
  "read_octets i (numeral k) s =
     (case read_separator (CHR ''.'') i (read_number 10 256 3 False) s of
        None \<Rightarrow> None
      | Some (x, r) \<Rightarrow> map_option (\<lambda>(xs, t). (x # xs, t)) (read_octets (Suc i) (pred_numeral k) r))"
  by (simp add: numeral_eq_Suc)

lemma read_groups_numeral [simp]:
  "read_groups i (numeral k) s =
     (case (if 0 < (pred_numeral k :: nat) then read_separator (CHR '':'') i read_ipv4_addr s else None) of
        Some (octets, r) \<Rightarrow>
          ([octets ! 0 * 256 + octets ! 1, octets ! 2 * 256 + octets ! 3], True, r)
      | None \<Rightarrow>
          (case read_separator (CHR '':'') i (read_number 16 65536 4 True) s of
             None \<Rightarrow> ([], False, s)
           | Some (g, r) \<Rightarrow>
               (case read_groups (Suc i) (pred_numeral k) r of (gs, v4, t) \<Rightarrow> (g # gs, v4, t))))"
  by (simp add: numeral_eq_Suc)

lemma replicate_numeral [simp]: "replicate (numeral k) x = x # replicate (pred_numeral k) x"
  by (simp add: numeral_eq_Suc)

lemmas ip_eval =
  parse_ip_addr_def read_ipv4_addr_def read_ipv6_addr_def read_separator_def read_number_def
  radix_digit_def hex_digit_def is_ascii_digit_def ip_is_loopback_def

lemma parse_ip_addr_localhost: "parse_ip_addr ''127.0.0.1'' = Some (V4 [127, 0, 0, 1])"
  by (simp add: ip_eval)

lemma parse_ip_addr_localhost6: "parse_ip_addr ''::1'' = Some (V6 [0, 0, 0, 0, 0, 0, 0, 1])"
  by (simp add: ip_eval)

lemma parse_ip_addr_name: "parse_ip_addr ''example.com'' = None"
  by (simp add: ip_eval)

end
