(* ===== verification/Proxy.thy ===== *)
theory Proxy
  imports IpAddr
begin

text \<open>
  \<open>provider-x-core/src/proxy.rs\<close>: the snapshot of the proxy environment and the
  \<open>NO_PROXY\<close> rules. The environment is a parameter, a map from variable names to the
  bytes of their values.
\<close>

record no_proxy_entry =
  entry_host :: str
  entry_port :: "nat option"

record no_proxy =
  np_all :: bool
  np_entries :: "no_proxy_entry list"

record proxy_environment =
  px_http :: "str option"
  px_https :: "str option"
  px_no_proxy :: no_proxy

text \<open>\<open>port.parse::<u16>().ok()\<close>\<close>

definition parse_u16 :: "str \<Rightarrow> nat option" where
  "parse_u16 s = parse_unsigned 65536 s"

definition brackets :: "char list" where
  "brackets = [CHR ''['', CHR '']'']"

definition split_host_port :: "str \<Rightarrow> str \<times> nat option" where
  "split_host_port authority =
     (if starts_with ''['' authority
      then (case rsplit_once_str '']:'' authority of
              Some (host, port) \<Rightarrow> (host, parse_u16 port)
            | None \<Rightarrow> (authority, None))
      else (case rsplit_once (CHR '':'') authority of
              Some (host, port) \<Rightarrow>
                (case parse_u16 port of Some n \<Rightarrow> (host, Some n) | None \<Rightarrow> (authority, None))
            | None \<Rightarrow> (authority, None)))"

definition is_loopback_host :: "str \<Rightarrow> bool" where
  "is_loopback_host host =
     (let host = trim_matches brackets host in
      eq_ignore_ascii_case host ''localhost'' \<or>
      (case parse_ip_addr host of Some address \<Rightarrow> ip_is_loopback address | None \<Rightarrow> False))"

definition entry_parse :: "str \<Rightarrow> no_proxy_entry option" where
  "entry_parse raw =
     (if raw = [] then None
      else
        (let without_scheme =
               (case strip_prefix ''http://'' raw of
                  Some r \<Rightarrow> r
                | None \<Rightarrow> (case strip_prefix ''https://'' raw of Some r \<Rightarrow> r | None \<Rightarrow> raw));
             authority = hd (split_on (CHR ''/'') without_scheme);
             host = trim_start_matches [CHR ''.''] (trim_matches brackets (fst (split_host_port authority)))
         in if host = [] then None
            else Some \<lparr>entry_host = to_ascii_lowercase host,
                       entry_port = snd (split_host_port authority)\<rparr>))"

definition entry_matches :: "no_proxy_entry \<Rightarrow> str \<Rightarrow> nat option \<Rightarrow> bool" where
  "entry_matches e host port =
     (if entry_port e \<noteq> None \<and> entry_port e \<noteq> port then False
      else
        (let host = to_ascii_lowercase (trim_matches brackets host) in
         host = entry_host e \<or> ends_with (''.'' @ entry_host e) host))"

definition no_proxy_parse :: "str \<Rightarrow> no_proxy" where
  "no_proxy_parse value =
     (let raws = map trim (split_on (CHR '','') value) in
      \<lparr>np_all = (''*'' \<in> set raws),
       np_entries = List.map_filter (\<lambda>raw. if raw = ''*'' then None else entry_parse raw) raws\<rparr>)"

definition no_proxy_matches :: "no_proxy \<Rightarrow> str \<Rightarrow> nat option \<Rightarrow> bool" where
  "no_proxy_matches np host port \<longleftrightarrow>
     is_loopback_host host \<or> np_all np \<or> list_ex (\<lambda>e. entry_matches e host port) (np_entries np)"

definition first_env :: "(str \<Rightarrow> str option) \<Rightarrow> str list \<Rightarrow> str option" where
  "first_env env names =
     (case List.map_filter
             (\<lambda>name. case env name of
                None \<Rightarrow> None
              | Some v \<Rightarrow> if utf8_valid v \<and> trim v \<noteq> [] then Some v else None) names of
        [] \<Rightarrow> None
      | v # _ \<Rightarrow> Some v)"

definition or_else :: "'a option \<Rightarrow> 'a option \<Rightarrow> 'a option" where
  "or_else x y = (case x of None \<Rightarrow> y | Some a \<Rightarrow> Some a)"

definition proxy_read :: "(str \<Rightarrow> str option) \<Rightarrow> proxy_environment" where
  "proxy_read env =
     (let all_proxy = first_env env [''ALL_PROXY'', ''all_proxy''] in
      \<lparr>px_http = or_else (first_env env [''HTTP_PROXY'', ''http_proxy'']) all_proxy,
       px_https = or_else (first_env env [''HTTPS_PROXY'', ''https_proxy'']) all_proxy,
       px_no_proxy = no_proxy_parse
         (case first_env env [''NO_PROXY'', ''no_proxy''] of None \<Rightarrow> [] | Some v \<Rightarrow> v)\<rparr>)"

definition proxy_from_values :: "str option \<Rightarrow> str option \<Rightarrow> str \<Rightarrow> proxy_environment" where
  "proxy_from_values http https no_proxy_value =
     \<lparr>px_http = http, px_https = https, px_no_proxy = no_proxy_parse no_proxy_value\<rparr>"

definition proxy_url :: "proxy_environment \<Rightarrow> str \<Rightarrow> str option" where
  "proxy_url px scheme =
     (if scheme = ''http'' then px_http px else if scheme = ''https'' then px_https px else None)"

definition should_proxy :: "proxy_environment \<Rightarrow> str \<Rightarrow> str \<Rightarrow> nat option \<Rightarrow> bool" where
  "should_proxy px scheme host port \<longleftrightarrow>
     proxy_url px scheme \<noteq> None \<and> \<not> no_proxy_matches (px_no_proxy px) host port"

section \<open>Properties\<close>

lemma split_on_nonempty: "split_on c s \<noteq> []"
  by (induction s) (auto split: list.split)

lemma entry_matches_iff:
  "entry_matches e host port \<longleftrightarrow>
     (entry_port e = None \<or> entry_port e = port) \<and>
     (let h = to_ascii_lowercase (trim_matches brackets host) in
      h = entry_host e \<or> (\<exists>sub. h = sub @ ''.'' @ entry_host e))"
  by (auto simp: entry_matches_def ends_with_iff Let_def)

lemma entry_parse_host: "entry_parse raw = Some e \<Longrightarrow> entry_host e \<noteq> []"
  by (auto simp: entry_parse_def Let_def to_ascii_lowercase_def split: if_splits)

text \<open>The tests of \<open>proxy.rs\<close>.\<close>

lemmas proxy_eval =
  no_proxy_parse_def entry_parse_def split_host_port_def rsplit_once_def rsplit_once_str_def
  starts_with_def trim_matches_def trim_end_matches_def trim_start_matches_def brackets_def
  to_ascii_lowercase_def ascii_lower_def is_ascii_uppercase_def is_ascii_digit_def parse_u16_def
  parse_unsigned_def trim_eval List.map_filter_def

lemma no_proxy_parse_example:
  "no_proxy_parse ''example.com,api.internal:8443,.svc.local'' =
     \<lparr>np_all = False,
      np_entries = [\<lparr>entry_host = ''example.com'', entry_port = None\<rparr>,
                    \<lparr>entry_host = ''api.internal'', entry_port = Some 8443\<rparr>,
                    \<lparr>entry_host = ''svc.local'', entry_port = None\<rparr>]\<rparr>"
  by (simp add: proxy_eval)

lemma loopback_hosts:
  "is_loopback_host ''LocalHost''" "is_loopback_host ''127.0.0.1''" "is_loopback_host ''[::1]''"
  "\<not> is_loopback_host ''chatgpt.com''"
  by (simp_all add: is_loopback_host_def eq_ignore_ascii_case_def proxy_eval ip_eval char_of_eq_iff)

text \<open>
  The proxy is bypassed exactly for loopback hosts, for every host when
  \<open>NO_PROXY\<close> has the entry *, and for the hosts that equal an entry or are below it in
  the domain tree, on the entry's port when it names one; the comparison ignores the case
  of ASCII letters and brackets around the host.
\<close>

theorem should_proxy_iff:
  "should_proxy (proxy_from_values http https np) scheme host port \<longleftrightarrow>
     proxy_url (proxy_from_values http https np) scheme \<noteq> None \<and> \<not> is_loopback_host host \<and>
     ''*'' \<notin> set (map trim (split_on (CHR '','') np)) \<and>
     \<not> (\<exists>raw \<in> set (map trim (split_on (CHR '','') np)). \<exists>e. entry_parse raw = Some e \<and>
          (entry_port e = None \<or> entry_port e = port) \<and>
          (to_ascii_lowercase (trim_matches brackets host) = entry_host e \<or>
           (\<exists>sub. to_ascii_lowercase (trim_matches brackets host) = sub @ ''.'' @ entry_host e)))"
proof (cases "''*'' \<in> set (map trim (split_on (CHR '','') np))")
  case True
  then show ?thesis
    by (simp add: should_proxy_def proxy_from_values_def no_proxy_matches_def no_proxy_parse_def Let_def)
next
  case False
  let ?raws = "map trim (split_on (CHR '','') np)"
  have raw: "raw \<in> set ?raws \<Longrightarrow> raw \<noteq> ''*''" for raw using False by blast
  have "list_ex P (List.map_filter (\<lambda>raw. if raw = ''*'' then None else entry_parse raw) ?raws) \<longleftrightarrow>
      (\<exists>raw \<in> set ?raws. \<exists>e. entry_parse raw = Some e \<and> P e)" for P
    using raw by (fastforce simp: list_ex_iff List.map_filter_def)
  with False show ?thesis
    by (simp add: should_proxy_def proxy_from_values_def no_proxy_matches_def no_proxy_parse_def
        Let_def entry_matches_iff)
qed

end
