(* ===== verification/ResponsesRequest.thy ===== *)
theory ResponsesRequest
  imports Json
begin

text \<open>
  \<open>provider-x-protocol/src/responses\<close>: the error type, the supported paths, the
  inspection of requests, the rewriting of the model and the local error bodies
  (\<open>error.rs\<close>, \<open>paths.rs\<close>, \<open>inspect.rs\<close>, \<open>rewrite.rs\<close>, \<open>http.rs\<close>, \<open>websocket.rs\<close>).
  The lemmas show what the inspection accepts and that rewriting changes the model only.
\<close>

datatype protocol_error =
    UnsupportedPath str
  | InvalidJson str
  | BodyMustBeObject
  | InvalidModel
  | UnsupportedWebSocketMessage
  | Serialization str
  | SessionHistoryLimit
  | InvalidStream
  | StreamBufferLimit
  | StreamStateLimit

section \<open>Paths\<close>

datatype responses_path = Create | Compact

definition responses_url :: "str \<Rightarrow> str" where
  "responses_url base = trim_end_matches [CHR ''/''] base @ ''/responses''"

definition responses_path_try_from :: "str \<Rightarrow> protocol_error + responses_path" where
  "responses_path_try_from path =
     (if path = ''/v1/responses'' then Inr Create
      else if path = ''/v1/responses/compact'' then Inr Compact
      else Inl (UnsupportedPath path))"

section \<open>Inspection\<close>

record standard_metadata =
  client_metadata :: "json option"
  previous_response_id_present :: bool

record inspected_request =
  inspected_model :: str
  inspected_metadata :: standard_metadata

definition parse_object :: "codec \<Rightarrow> str \<Rightarrow> protocol_error + jmap" where
  "parse_object c input =
     and_then (map_err InvalidJson (parse c input)) (\<lambda>value.
     ok_or BodyMustBeObject (as_object value))"

definition inspect_object :: "jmap \<Rightarrow> protocol_error + inspected_request" where
  "inspect_object m =
     (case Option.bind (map_get m ''model'') as_str of
        None \<Rightarrow> Inl InvalidModel
      | Some model \<Rightarrow>
          if model = [] \<or> trim model \<noteq> model then Inl InvalidModel
          else Inr \<lparr>inspected_model = model,
                    inspected_metadata =
                      \<lparr>client_metadata = map_get m ''client_metadata'',
                       previous_response_id_present =
                         (case map_get m ''previous_response_id'' of
                            None \<Rightarrow> False | Some v \<Rightarrow> \<not> is_null v)\<rparr>\<rparr>)"

definition inspect_http :: "codec \<Rightarrow> str \<Rightarrow> str \<Rightarrow> protocol_error + inspected_request" where
  "inspect_http c path body =
     and_then (responses_path_try_from path) (\<lambda>_.
     and_then (parse_object c body) inspect_object)"

section \<open>Rewriting the model\<close>

definition rewrite_model :: "codec \<Rightarrow> str \<Rightarrow> str \<Rightarrow> protocol_error + str" where
  "rewrite_model c input upstream_model =
     (if upstream_model = [] \<or> trim upstream_model \<noteq> upstream_model then Inl InvalidModel
      else
        and_then (parse_object c input) (\<lambda>m.
          case Option.bind (map_get m ''model'') as_str of
            Some model \<Rightarrow>
              if model = [] then Inl InvalidModel
              else map_err Serialization
                     (to_vec c (JObject (map_insert ''model'' (JString upstream_model) m)))
          | None \<Rightarrow> Inl InvalidModel))"

definition rewrite_http_model :: "codec \<Rightarrow> str \<Rightarrow> str \<Rightarrow> protocol_error + str" where
  "rewrite_http_model c body upstream_model = rewrite_model c body upstream_model"

definition http_error_body :: "codec \<Rightarrow> str \<Rightarrow> str" where
  "http_error_body c message =
     display c (JObject [(''error'', JObject [(''message'', JString message)])])"

section \<open>WebSocket messages\<close>

datatype web_socket_message_kind = ResponseCreate | Other

definition classify_ws_text :: "codec \<Rightarrow> str \<Rightarrow> protocol_error + web_socket_message_kind" where
  "classify_ws_text c message =
     and_then (map_err InvalidJson (parse c message)) (\<lambda>value.
     Inr (if str_at value ''type'' = Some ''response.create'' then ResponseCreate else Other))"

definition inspect_ws_text :: "codec \<Rightarrow> str \<Rightarrow> protocol_error + inspected_request" where
  "inspect_ws_text c message =
     and_then (parse_object c message) (\<lambda>m.
     if str_at (JObject m) ''type'' \<noteq> Some ''response.create''
     then Inl UnsupportedWebSocketMessage
     else inspect_object m)"

definition rewrite_ws_text :: "codec \<Rightarrow> str \<Rightarrow> str \<Rightarrow> protocol_error + str" where
  "rewrite_ws_text c message upstream_model =
     and_then (inspect_ws_text c message) (\<lambda>_.
     and_then (rewrite_model c message upstream_model) (\<lambda>bytes.
     map_err Serialization (from_utf8 bytes)))"

definition terminal_types :: "str list" where
  "terminal_types = [''response.completed'', ''response.failed'', ''response.incomplete'']"

definition is_terminal_ws_event :: "codec \<Rightarrow> str \<Rightarrow> bool" where
  "is_terminal_ws_event c message =
     (case parse c message of
        Inl _ \<Rightarrow> False
      | Inr event \<Rightarrow>
          (case str_at event ''type'' of None \<Rightarrow> False | Some t \<Rightarrow> t \<in> set terminal_types))"

definition websocket_error_event :: "codec \<Rightarrow> str \<Rightarrow> str \<Rightarrow> str" where
  "websocket_error_event c code message =
     display c (JObject [(''type'', JString ''error''),
       (''error'', JObject [(''type'', JString ''invalid_request_error''),
                            (''code'', JString code), (''message'', JString message)])])"

section \<open>Lemmas\<close>

lemma parse_object_Inr: "parse_object c s = Inr m \<longleftrightarrow> parse c s = Inr (JObject m)"
  by (auto simp: parse_object_def)

lemma inspect_object_Inr:
  "inspect_object m = Inr r \<longleftrightarrow>
     map_get m ''model'' = Some (JString (inspected_model r)) \<and> inspected_model r \<noteq> [] \<and>
     trim (inspected_model r) = inspected_model r \<and>
     client_metadata (inspected_metadata r) = map_get m ''client_metadata'' \<and>
     previous_response_id_present (inspected_metadata r) =
       (\<exists>v. map_get m ''previous_response_id'' = Some v \<and> v \<noteq> JNull)"
proof -
  have meta: "(case map_get m ''previous_response_id'' of None \<Rightarrow> False | Some v \<Rightarrow> \<not> is_null v) \<longleftrightarrow>
      (\<exists>v. map_get m ''previous_response_id'' = Some v \<and> v \<noteq> JNull)"
    by (auto simp: is_null_def split: option.split)
  show ?thesis
    unfolding inspect_object_def meta
    by (cases r rule: inspected_request.cases; cases "inspected_metadata r" rule: standard_metadata.cases;
        cases "map_get m ''model''") (auto simp: as_str_def split: json.splits if_splits)
qed

lemma rewrite_model_Inr:
  "rewrite_model c input up = Inr out \<longleftrightarrow>
     up \<noteq> [] \<and> trim up = up \<and>
     (\<exists>m old. parse c input = Inr (JObject m) \<and> map_get m ''model'' = Some (JString old) \<and> old \<noteq> [] \<and>
        to_vec c (JObject (map_insert ''model'' (JString up) m)) = Inr out)"
  by (fastforce simp: rewrite_model_def parse_object_Inr bind_eq_Some_conv split: option.splits if_splits)

lemma map_get_in_keys: "map_get m k = Some v \<Longrightarrow> k \<in> fst ` set m"
  by (metis map_get_None option.distinct(1))

end
