(* ===== verification/ModelList.thy ===== *)
theory ModelList
  imports CoreModel ResponsesRequest
begin

text \<open>
  The two parsers of a provider's model list: \<open>responses/model_list.rs\<close>, which merges
  entries with the same identifier, and \<open>model_list.rs\<close>, which keeps the first and which
  the Chat Completions and Anthropic modules call. The lemmas show that the result is
  sorted by identifier without duplicates and where each field comes from.
\<close>

section \<open>The Responses parser\<close>

definition model_list_url :: "str \<Rightarrow> str" where
  "model_list_url http_endpoint = trim_end_matches [CHR ''/''] http_endpoint @ ''/models''"

definition non_empty :: "str \<Rightarrow> str option" where
  "non_empty value = (let trimmed = trim value in if trimmed \<noteq> [] then Some trimmed else None)"

text \<open>\<open>keys.iter().find_map(f)\<close>\<close>

fun find_map :: "('a \<Rightarrow> 'b option) \<Rightarrow> 'a list \<Rightarrow> 'b option" where
  "find_map f [] = None"
| "find_map f (x # xs) = (case f x of Some y \<Rightarrow> Some y | None \<Rightarrow> find_map f xs)"

definition string_field :: "jmap \<Rightarrow> str list \<Rightarrow> str option" where
  "string_field m keys =
     find_map (\<lambda>key. Option.bind (Option.bind (map_get m key) as_str) non_empty) keys"

definition unsigned_field :: "jmap \<Rightarrow> str list \<Rightarrow> u64 option" where
  "unsigned_field m keys =
     (case find_map (\<lambda>key. Option.bind (map_get m key) as_u64) keys of
        Some w \<Rightarrow> if 0 < w then Some w else None
      | None \<Rightarrow> None)"

definition bool_field :: "jmap \<Rightarrow> str list \<Rightarrow> bool option" where
  "bool_field m keys = find_map (\<lambda>key. Option.bind (map_get m key) as_bool) keys"

definition reasoning_level :: "json \<Rightarrow> str option" where
  "reasoning_level item =
     (case Option.bind (as_str item) non_empty of
        Some l \<Rightarrow> Some l
      | None \<Rightarrow> Option.bind (as_object item) (\<lambda>entry. string_field entry [''effort'', ''id'', ''name'']))"

definition push_level :: "str list \<Rightarrow> json \<Rightarrow> str list" where
  "push_level levels item =
     (case reasoning_level item of
        Some l \<Rightarrow> if l \<in> set levels then levels else levels @ [l]
      | None \<Rightarrow> levels)"

definition reasoning_levels :: "jmap \<Rightarrow> str list option" where
  "reasoning_levels m =
     Option.bind
       (find_map (map_get m)
          [''supported_reasoning_levels'', ''supportedReasoningLevels'', ''reasoning_levels'', ''reasoningLevels''])
       (\<lambda>value. Option.bind (as_array value) (\<lambda>items. Some (foldl push_level [] items)))"

definition parse_model :: "json \<Rightarrow> discovered_model option" where
  "parse_model value =
     (case Option.bind (as_str value) non_empty of
        Some key \<Rightarrow>
          Some \<lparr>dm_id = key, dm_display_name = None, dm_context_window = None,
                dm_reasoning_levels = None, dm_parallel_tool_calls = None, dm_search_tool = None\<rparr>
      | None \<Rightarrow>
          Option.bind (as_object value) (\<lambda>m.
          Option.bind (string_field m [''id'', ''slug'', ''model'', ''name'']) (\<lambda>key.
          Some \<lparr>dm_id = key,
                dm_display_name = string_field m [''display_name'', ''displayName'', ''title''],
                dm_context_window =
                  unsigned_field m [''context_window'', ''contextWindow'', ''context_length'',
                    ''contextLength'', ''max_context_tokens'', ''maxContextTokens''],
                dm_reasoning_levels = reasoning_levels m,
                dm_parallel_tool_calls =
                  bool_field m [''supports_parallel_tool_calls'', ''supportsParallelToolCalls''],
                dm_search_tool =
                  bool_field m [''supports_search_tool'', ''supportsSearchTool'',
                    ''supports_web_search'', ''supportsWebSearch'']\<rparr>)))"

definition fill :: "'a option \<Rightarrow> 'a option \<Rightarrow> 'a option" where
  "fill existing candidate = (if existing = None then candidate else existing)"

definition merge_missing :: "discovered_model \<Rightarrow> discovered_model \<Rightarrow> discovered_model" where
  "merge_missing existing candidate =
     existing\<lparr>dm_display_name := fill (dm_display_name existing) (dm_display_name candidate),
       dm_context_window := fill (dm_context_window existing) (dm_context_window candidate),
       dm_reasoning_levels := fill (dm_reasoning_levels existing) (dm_reasoning_levels candidate),
       dm_parallel_tool_calls := fill (dm_parallel_tool_calls existing) (dm_parallel_tool_calls candidate),
       dm_search_tool := fill (dm_search_tool existing) (dm_search_tool candidate)\<rparr>"

text \<open>\<open>entry(key).and_modify(\<dots>).or_insert(model)\<close>\<close>

definition merge_model ::
  "(str, discovered_model) btree \<Rightarrow> discovered_model \<Rightarrow> (str, discovered_model) btree" where
  "merge_model models model =
     bt_insert (dm_id model)
       (case bt_get models (dm_id model) of
          Some existing \<Rightarrow> merge_missing existing model
        | None \<Rightarrow> model) models"

definition list_items :: "json \<Rightarrow> protocol_error + json list" where
  "list_items root =
     (case root of
        JArray items \<Rightarrow> Inr items
      | JObject m \<Rightarrow>
          ok_or (InvalidJson ''model list must be an array or contain a data/models array'')
            (Option.bind (case map_get m ''data'' of Some v \<Rightarrow> Some v | None \<Rightarrow> map_get m ''models'') as_array)
      | _ \<Rightarrow> Inl (InvalidJson ''model list must be a JSON object or array''))"

definition parse_model_list :: "codec \<Rightarrow> str \<Rightarrow> protocol_error + discovered_model list" where
  "parse_model_list c bytes =
     and_then (map_err InvalidJson (parse c bytes)) (\<lambda>root.
     and_then (list_items root) (\<lambda>items.
       let models = foldl merge_model [] (List.map_filter parse_model items) in
       if models = [] then Inl (InvalidJson ''model list contains no usable model identifiers'')
       else Inr (bt_values models)))"

section \<open>The generic parser\<close>

datatype model_list_error = Malformed

definition generic_id :: "json \<Rightarrow> str option" where
  "generic_id item =
     (case (case as_str item of Some s \<Rightarrow> Some s | None \<Rightarrow> str_at item ''id'') of
        Some s \<Rightarrow> if trim s \<noteq> [] then Some (trim s) else None
      | None \<Rightarrow> None)"

definition get_or :: "json \<Rightarrow> str \<Rightarrow> str \<Rightarrow> json option" where
  "get_or item a b = (case jget item a of Some v \<Rightarrow> Some v | None \<Rightarrow> jget item b)"

definition generic_model :: "str \<Rightarrow> json \<Rightarrow> discovered_model" where
  "generic_model key item =
     \<lparr>dm_id = key,
      dm_display_name = Option.bind (get_or item ''display_name'' ''name'') as_str,
      dm_context_window = Option.bind (get_or item ''context_window'' ''context_length'') as_u64,
      dm_reasoning_levels = None,
      dm_parallel_tool_calls = bool_at item ''supports_parallel_tool_calls'',
      dm_search_tool = bool_at item ''supports_search_tool''\<rparr>"

definition generic_step :: "(str, discovered_model) btree \<Rightarrow> json \<Rightarrow> (str, discovered_model) btree" where
  "generic_step models item =
     (case generic_id item of
        None \<Rightarrow> models
      | Some key \<Rightarrow> if bt_has models key then models else bt_insert key (generic_model key item) models)"

definition generic_items :: "json \<Rightarrow> model_list_error + json list" where
  "generic_items root =
     (case root of
        JArray items \<Rightarrow> Inr items
      | JObject m \<Rightarrow>
          ok_or Malformed
            (Option.bind (case map_get m ''data'' of Some v \<Rightarrow> Some v | None \<Rightarrow> map_get m ''models'') as_array)
      | _ \<Rightarrow> Inl Malformed)"

definition generic_parse_model_list :: "codec \<Rightarrow> str \<Rightarrow> model_list_error + discovered_model list" where
  "generic_parse_model_list c bytes =
     and_then (map_err (\<lambda>_. Malformed) (parse c bytes)) (\<lambda>root.
     and_then (generic_items root) (\<lambda>items.
       let models = foldl generic_step [] items in
       if models = [] then Inl Malformed else Inr (bt_values models)))"

section \<open>What a merged list holds\<close>

text \<open>
  The map under construction: the key of an entry is the identifier of its model, and a
  field of the model is the first one given among the entries with that identifier.
\<close>

definition first_given :: "(discovered_model \<Rightarrow> 'a option) \<Rightarrow> str \<Rightarrow> discovered_model list \<Rightarrow> 'a option" where
  "first_given f key ds = find_map f (filter (\<lambda>d. dm_id d = key) ds)"

lemma find_map_append: "find_map f (xs @ ys) = fill (find_map f xs) (find_map f ys)"
  by (induction xs) (auto simp: fill_def split: option.splits)

lemma first_given_snoc:
  "first_given f key (ds @ [d]) = (if dm_id d = key then fill (first_given f key ds) (f d) else first_given f key ds)"
  by (auto simp: first_given_def find_map_append fill_def split: option.splits)

lemma first_given_Nil [simp]: "first_given f key [] = None"
  by (simp add: first_given_def)

definition merged_model :: "str \<Rightarrow> discovered_model list \<Rightarrow> discovered_model" where
  "merged_model key ds =
     \<lparr>dm_id = key, dm_display_name = first_given dm_display_name key ds,
      dm_context_window = first_given dm_context_window key ds,
      dm_reasoning_levels = first_given dm_reasoning_levels key ds,
      dm_parallel_tool_calls = first_given dm_parallel_tool_calls key ds,
      dm_search_tool = first_given dm_search_tool key ds\<rparr>"

lemma first_given_absent: "key \<notin> dm_id ` set ds \<Longrightarrow> first_given f key ds = None"
  by (induction ds) (auto simp: first_given_def)

lemma merged_model_snoc:
  "merged_model key (ds @ [d]) =
     (if dm_id d \<noteq> key then merged_model key ds
      else if key \<in> dm_id ` set ds then merge_missing (merged_model key ds) d
      else d)"
  by (auto simp: merged_model_def first_given_snoc merge_missing_def first_given_absent fill_def)

lemma foldl_merge_model:
  "bt_ok (foldl merge_model [] ds) \<and>
   (\<forall>key. bt_get (foldl merge_model [] ds) key =
      (if key \<in> dm_id ` set ds then Some (merged_model key ds) else None))"
proof (induction ds rule: rev_induct)
  case (snoc d ds)
  then show ?case
    by (auto simp: merge_model_def merged_model_snoc split: option.splits)
qed simp

lemma foldl_generic_step:
  "bt_ok (foldl generic_step [] items) \<and>
   (\<forall>key. bt_get (foldl generic_step [] items) key =
      (case find (\<lambda>item. generic_id item = Some key) items of
         Some item \<Rightarrow> Some (generic_model key item) | None \<Rightarrow> None))"
proof (induction items rule: rev_induct)
  case (snoc item items)
  have find_snoc: "find P (items @ [item]) =
      (case find P items of Some x \<Rightarrow> Some x | None \<Rightarrow> if P item then Some item else None)" for P
    by (induction items) auto
  from snoc show ?case
    by (auto simp: generic_step_def bt_has_def find_snoc split: option.splits)
qed simp

text \<open>A map all of whose entries carry their own key, read off as a sorted list.\<close>

lemma values_sorted:
  assumes "bt_ok m" and "\<forall>k v. bt_get m k = Some v \<longrightarrow> dm_id v = k"
  shows "sorted_wrt (<) (map dm_id (bt_values m))"
proof -
  have "map dm_id (bt_values m) = map fst m"
    using assms by (auto simp: bt_values_def bt_get_iff_set)
  with assms(1) show ?thesis by (simp add: bt_ok_def)
qed

lemma in_bt_values: "bt_ok m \<Longrightarrow> d \<in> set (bt_values m) \<longleftrightarrow> (\<exists>k. bt_get m k = Some d)"
  by (force simp: bt_values_def bt_get_iff_set)

text \<open>
  C22: The Responses model list is sorted by identifier without duplicates and is not
  empty; it holds exactly one model for every identifier among the usable entries, and
  each field of that model is the first one given among the entries with its identifier.
\<close>

theorem parse_model_list_spec:
  assumes "parse_model_list c bytes = Inr models"
  shows "\<exists>root items. parse c bytes = Inr root \<and> list_items root = Inr items \<and>
     (let ds = List.map_filter parse_model items in
      models \<noteq> [] \<and> sorted_wrt (<) (map dm_id models) \<and>
      set models = (\<lambda>key. merged_model key ds) ` dm_id ` set ds)"
proof -
  from assms obtain root items where root: "parse c bytes = Inr root" "list_items root = Inr items"
    and m: "foldl merge_model [] (List.map_filter parse_model items) \<noteq> []"
      "models = bt_values (foldl merge_model [] (List.map_filter parse_model items))"
    by (auto simp: parse_model_list_def Let_def split: if_splits)
  let ?ds = "List.map_filter parse_model items"
  from foldl_merge_model [of ?ds] have ok: "bt_ok (foldl merge_model [] ?ds)"
    and get: "\<And>key. bt_get (foldl merge_model [] ?ds) key =
      (if key \<in> dm_id ` set ?ds then Some (merged_model key ?ds) else None)" by auto
  have "sorted_wrt (<) (map dm_id models)"
    unfolding m(2) by (rule values_sorted [OF ok]) (simp add: get merged_model_def)
  moreover have "set models = (\<lambda>key. merged_model key ?ds) ` dm_id ` set ?ds"
  proof (rule set_eqI)
    fix d
    show "d \<in> set models \<longleftrightarrow> d \<in> (\<lambda>key. merged_model key ?ds) ` dm_id ` set ?ds"
      unfolding m(2) in_bt_values [OF ok] get by (auto simp: image_iff)
  qed
  moreover have "models \<noteq> []" using m by (simp add: bt_values_def)
  ultimately show ?thesis using root by (auto simp: Let_def)
qed

definition example_list_codec :: codec where
  "example_list_codec =
     \<lparr>parse = (\<lambda>_. Inr (JArray [JObject [(''id'', JString ''coder''), (''context_window'', jnat 64000)],
                              JObject [(''model'', JString ''coder''), (''context_window'', jnat 128000),
                                       (''supports_search_tool'', JBool False)]])),
      to_vec = (\<lambda>_. Inr []), display = (\<lambda>_. [])\<rparr>"

theorem parse_model_list_spec_witness:
  "\<exists>models. parse_model_list example_list_codec ''[..]'' = Inr models \<and> models \<noteq> [] \<and>
     (\<forall>m \<in> set models. dm_context_window m = Some 64000 \<and> dm_search_tool m = Some False)"
proof -
  define items where "items = [JObject [(''id'', JString ''coder''), (''context_window'', jnat 64000)],
                 JObject [(''model'', JString ''coder''), (''context_window'', jnat 128000),
                          (''supports_search_tool'', JBool False)]]"
  have items: "list_items (JArray items) = Inr items" by (simp add: list_items_def)
  have ds: "List.map_filter parse_model items =
     [\<lparr>dm_id = ''coder'', dm_display_name = None, dm_context_window = Some 64000,
       dm_reasoning_levels = None, dm_parallel_tool_calls = None, dm_search_tool = None\<rparr>,
      \<lparr>dm_id = ''coder'', dm_display_name = None, dm_context_window = Some 128000,
       dm_reasoning_levels = None, dm_parallel_tool_calls = None, dm_search_tool = Some False\<rparr>]"
    by (simp add: items_def List.map_filter_def parse_model_def string_field_def unsigned_field_def bool_field_def
        reasoning_levels_def map_get_Cons as_str_def as_object_def as_u64_def as_bool_def jnat_def
        non_empty_def trim_eval)
  have root: "parse example_list_codec ''[..]'' = Inr (JArray items)"
    by (simp add: example_list_codec_def items_def)
  have some: "foldl merge_model [] (List.map_filter parse_model items) \<noteq> []"
    unfolding ds by (simp add: merge_model_def)
  let ?models = "bt_values (foldl merge_model [] (List.map_filter parse_model items))"
  have models: "parse_model_list example_list_codec ''[..]'' = Inr ?models"
    by (simp only: parse_model_list_def root map_err_simps and_then_simps items Let_def some if_False)
  have "?models \<noteq> [] \<and> set ?models = (\<lambda>key. merged_model key (List.map_filter parse_model items)) `
      dm_id ` set (List.map_filter parse_model items)"
    using parse_model_list_spec [OF models] unfolding root by (auto simp: items Let_def)
  then have "?models \<noteq> []" and "set ?models = {merged_model ''coder'' (List.map_filter parse_model items)}"
    by (simp_all add: ds)
  then show ?thesis
    using models by (intro exI [of _ ?models]) (simp add: ds merged_model_def first_given_def)
qed

end
