(* ===== verification/Sse.thy ===== *)
theory Sse
  imports Json
begin

text \<open>
  The framing of server-sent events that the three stream decoders share: newline
  normalization, the search for the blank line that ends a block, the loop that takes
  complete blocks off the buffer, and the data of a block (\<open>push\<close>, \<open>finish\<close> and the
  first half of \<open>parse_block\<close> in \<open>responses/bridge.rs\<close>, \<open>chat_completions/bridge.rs\<close> and
  \<open>anthropic_messages/bridge.rs\<close>).

  Every decoder struct begins with the fields \<open>buffer\<close> and \<open>max_buffer_bytes\<close>; its
  other fields are the \<open>core\<close> of the record below, which \<open>parse_block\<close> works on.

  The lemmas relate the loop to the list of complete blocks of the normalized stream, and
  show that cutting the stream into chunks does not change what is parsed unless a cut
  separates a carriage return from its line feed.
\<close>

section \<open>Newlines\<close>

text \<open>\<open>normalize_sse_newlines\<close> and the Chat Completions \<open>normalize_newlines\<close>.\<close>

fun normalize_copy :: "str \<Rightarrow> str" where
  "normalize_copy [] = []"
| "normalize_copy [a] = [if a = CR then LF else a]"
| "normalize_copy (a # b # s) =
     (if a = CR then (if b = LF then LF # normalize_copy s else LF # normalize_copy (b # s))
      else a # normalize_copy (b # s))"

definition normalize_sse_newlines :: "str \<Rightarrow> str" where
  "normalize_sse_newlines buffer = (if CR \<notin> set buffer then buffer else normalize_copy buffer)"

text \<open>
  The Anthropic \<open>normalize_newlines\<close> compacts the buffer in place with two indices and
  truncates it.
\<close>

function normalize_in_place :: "str \<Rightarrow> nat \<Rightarrow> nat \<Rightarrow> str" where
  "normalize_in_place buffer read write =
     (if read < length buffer then
        (if buffer ! read = CR then
           normalize_in_place (buffer[write := LF])
             (read + (if read + 1 < length buffer \<and> buffer[write := LF] ! (read + 1) = LF then 1 else 0) + 1)
             (write + 1)
         else normalize_in_place (buffer[write := buffer ! read]) (read + 1) (write + 1))
      else take write buffer)"
  by pat_completeness auto
termination
  by (relation "measure (\<lambda>(buffer, read, write). length buffer - read)") auto

declare normalize_in_place.simps [simp del]

definition anthropic_normalize_newlines :: "str \<Rightarrow> str" where
  "anthropic_normalize_newlines buffer = normalize_in_place buffer 0 0"

lemma normalize_copy_no_CR [simp]: "CR \<notin> set (normalize_copy s)"
  by (induction s rule: normalize_copy.induct) auto

lemma normalize_copy_id: "CR \<notin> set s \<Longrightarrow> normalize_copy s = s"
  by (induction s rule: normalize_copy.induct) auto

lemma normalize_sse_newlines_eq: "normalize_sse_newlines s = normalize_copy s"
  by (simp add: normalize_sse_newlines_def normalize_copy_id)

lemma length_normalize_copy: "length (normalize_copy s) \<le> length s"
  by (induction s rule: normalize_copy.induct) auto

lemma normalize_copy_idem [simp]: "normalize_copy (normalize_copy s) = normalize_copy s"
  by (simp add: normalize_copy_id)

text \<open>A cut is harmless unless it separates a carriage return from a line feed.\<close>

definition splits_crlf :: "str \<Rightarrow> str \<Rightarrow> bool" where
  "splits_crlf s t \<longleftrightarrow> s \<noteq> [] \<and> last s = CR \<and> t \<noteq> [] \<and> hd t = LF"

lemma normalize_copy_append:
  "\<not> splits_crlf s t \<Longrightarrow> normalize_copy (s @ t) = normalize_copy s @ normalize_copy t"
proof (induction s rule: normalize_copy.induct)
  case (2 a)
  then show ?case by (cases t) (auto simp: splits_crlf_def)
next
  case (3 a b s)
  show ?case
  proof (cases "a = CR \<and> b = LF")
    case True
    have "\<not> splits_crlf s t" using "3.prems" True by (auto simp: splits_crlf_def split: if_splits)
    with "3.IH"(1) True show ?thesis by simp
  next
    case False
    have "\<not> splits_crlf (b # s) t" using "3.prems" by (auto simp: splits_crlf_def)
    with "3.IH" False show ?thesis by auto
  qed
qed simp

lemma splits_crlf_clean: "CR \<notin> set s \<Longrightarrow> \<not> splits_crlf s t"
  by (metis last_in_set splits_crlf_def)

lemma normalize_copy_append_clean:
  "CR \<notin> set s \<Longrightarrow> normalize_copy (s @ t) = s @ normalize_copy t"
  by (simp add: normalize_copy_append splits_crlf_clean normalize_copy_id)

text \<open>The compaction in place computes the same.\<close>

lemma take_update_snoc: "n < length xs \<Longrightarrow> take (Suc n) (xs[n := x]) = take n xs @ [x]"
  by (simp add: take_Suc_conv_app_nth)

lemma drop_update_before: "n < m \<Longrightarrow> drop m (xs[n := x]) = drop m xs"
  by (simp add: drop_update_cancel)

lemma normalize_in_place_copy:
  "w \<le> r \<Longrightarrow> r \<le> length buf \<Longrightarrow>
   normalize_in_place buf r w = take w buf @ normalize_copy (drop r buf)"
proof (induction buf r w rule: normalize_in_place.induct)
  case (1 buf r w)
  show ?case
  proof (cases "r < length buf")
    case False
    with "1.prems" show ?thesis by (subst normalize_in_place.simps) simp
  next
    case True
    then have cons: "drop r buf = buf ! r # drop (Suc r) buf" by (simp add: Cons_nth_drop_Suc)
    have next_char: "buf[w := LF] ! (r + 1) = buf ! (r + 1)" using "1.prems" by simp
    consider (other) "buf ! r \<noteq> CR" | (crlf) "buf ! r = CR" "r + 1 < length buf" "buf ! (r + 1) = LF"
      | (cr) "buf ! r = CR" "\<not> (r + 1 < length buf \<and> buf ! (r + 1) = LF)" by blast
    then show ?thesis
    proof cases
      case other
      then have "normalize_in_place buf r w = normalize_in_place (buf[w := buf ! r]) (r + 1) (w + 1)"
        using True by (simp add: normalize_in_place.simps [of buf r w])
      also have "\<dots> = take (w + 1) (buf[w := buf ! r]) @ normalize_copy (drop (r + 1) (buf[w := buf ! r]))"
        using "1.IH"(2) "1.prems" True other by simp
      also have "\<dots> = take w buf @ normalize_copy (drop r buf)"
        using "1.prems" True other cons by (cases "drop (Suc r) buf")
          (simp_all add: take_update_snoc drop_update_before)
      finally show ?thesis .
    next
      case crlf
      then have two: "drop (Suc r) buf = LF # drop (Suc (Suc r)) buf"
        by (metis Cons_nth_drop_Suc Suc_eq_plus1)
      from crlf have "normalize_in_place buf r w = normalize_in_place (buf[w := LF]) (r + 2) (w + 1)"
        using True next_char by (simp add: normalize_in_place.simps [of buf r w])
      also have "\<dots> = take (w + 1) (buf[w := LF]) @ normalize_copy (drop (r + 2) (buf[w := LF]))"
        using "1.IH"(1) "1.prems" True crlf next_char by simp
      also have "\<dots> = take w buf @ normalize_copy (drop r buf)"
        using "1.prems" True crlf cons two by (simp add: take_update_snoc drop_update_before)
      finally show ?thesis .
    next
      case cr
      then have "normalize_in_place buf r w = normalize_in_place (buf[w := LF]) (r + 1) (w + 1)"
        using True next_char by (auto simp: normalize_in_place.simps [of buf r w])
      also have "\<dots> = take (w + 1) (buf[w := LF]) @ normalize_copy (drop (r + 1) (buf[w := LF]))"
        using "1.IH"(1) "1.prems" True cr next_char by auto
      also have "\<dots> = take w buf @ normalize_copy (drop r buf)"
      proof (cases "drop (Suc r) buf")
        case Nil
        with "1.prems" True cr cons show ?thesis by (simp add: take_update_snoc drop_update_before)
      next
        case (Cons b s)
        then have "r + 1 < length buf" "buf ! (r + 1) = b"
          by (metis drop_eq_Nil linorder_not_less list.discI Suc_eq_plus1, metis Cons nth_via_drop Suc_eq_plus1)
        with "1.prems" True cr cons Cons show ?thesis by (simp add: take_update_snoc drop_update_before)
      qed
      finally show ?thesis .
    qed
  qed
qed

lemma anthropic_normalize_newlines_eq: "anthropic_normalize_newlines s = normalize_copy s"
  by (simp add: anthropic_normalize_newlines_def normalize_in_place_copy)

section \<open>Blocks\<close>

text \<open>\<open>windows(2).position(|w| w == b"\n\n")\<close>\<close>

fun find_blank :: "str \<Rightarrow> nat option" where
  "find_blank [] = None"
| "find_blank [a] = None"
| "find_blank (a # b # s) =
     (if a = LF \<and> b = LF then Some 0 else map_option Suc (find_blank (b # s)))"

lemma find_blank_bound: "find_blank s = Some i \<Longrightarrow> i + 2 \<le> length s"
  by (induction s arbitrary: i rule: find_blank.induct) (fastforce split: if_splits)+

lemma find_blank_append: "find_blank s = Some i \<Longrightarrow> find_blank (s @ t) = Some i"
  by (induction s arbitrary: i rule: find_blank.induct) (auto split: if_splits)

text \<open>
  The loop of \<open>push\<close>: while there is a blank line, the block up to it is drained from the
  buffer and parsed; an error of the parser returns at once and leaves the rest of the
  buffer in place.
\<close>

function drain_blocks ::
  "(str \<Rightarrow> ('c, 'e, 'a) action) \<Rightarrow> str \<Rightarrow> 'c \<Rightarrow> ('e + 'a list) \<times> str \<times> 'c" where
  "drain_blocks parse_block buf c =
     (case find_blank buf of
        None \<Rightarrow> (Inr [], buf, c)
      | Some index \<Rightarrow>
          (case parse_block (take (index + 2) buf) c of
             (Inl e, c') \<Rightarrow> (Inl e, drop (index + 2) buf, c')
           | (Inr a, c') \<Rightarrow>
               (case drain_blocks parse_block (drop (index + 2) buf) c' of
                  (Inl e, buf', c'') \<Rightarrow> (Inl e, buf', c'')
                | (Inr as, buf', c'') \<Rightarrow> (Inr (a # as), buf', c''))))"
  by pat_completeness auto
termination
  by (relation "measure (\<lambda>(p, buf, c). length buf)") (auto dest: find_blank_bound)

declare drain_blocks.simps [simp del]

text \<open>
  The declarative reading: the complete blocks of a buffer and its rest, and the run of the
  parser over a list of blocks.
\<close>

function split_blocks :: "str \<Rightarrow> str list \<times> str" where
  "split_blocks buf =
     (case find_blank buf of
        None \<Rightarrow> ([], buf)
      | Some index \<Rightarrow>
          (case split_blocks (drop (index + 2) buf) of (bs, r) \<Rightarrow> (take (index + 2) buf # bs, r)))"
  by pat_completeness auto
termination
  by (relation "measure length") (auto dest: find_blank_bound)

declare split_blocks.simps [simp del]

fun run_blocks :: "(str \<Rightarrow> ('c, 'e, 'a) action) \<Rightarrow> str list \<Rightarrow> ('c, 'e, 'a list) action" where
  "run_blocks parse_block [] = act_ok []"
| "run_blocks parse_block (b # bs) =
     act (parse_block b) (\<lambda>a. act (run_blocks parse_block bs) (\<lambda>as. act_ok (a # as)))"

lemma drain_blocks_run:
  "fst (drain_blocks p buf c) = fst (run_blocks p (fst (split_blocks buf)) c) \<and>
   snd (snd (drain_blocks p buf c)) = snd (run_blocks p (fst (split_blocks buf)) c) \<and>
   (\<forall>as. fst (drain_blocks p buf c) = Inr as \<longrightarrow> fst (snd (drain_blocks p buf c)) = snd (split_blocks buf))"
proof (induction p buf c rule: drain_blocks.induct)
  case (1 p buf c)
  show ?case
  proof (cases "find_blank buf")
    case None
    then show ?thesis by (simp add: drain_blocks.simps [of p buf] split_blocks.simps [of buf])
  next
    case (Some i)
    then have split: "split_blocks buf =
        (take (i + 2) buf # fst (split_blocks (drop (i + 2) buf)), snd (split_blocks (drop (i + 2) buf)))"
      by (simp add: split_blocks.simps [of buf] split: prod.split)
    obtain r c' where step: "p (take (i + 2) buf) c = (r, c')" by fastforce
    show ?thesis
    proof (cases r)
      case (Inl e)
      with Some step split show ?thesis
        by (simp add: drain_blocks.simps [of p buf] act_apply)
    next
      case (Inr a)
      note IH = "1.IH" [OF Some step [symmetric] Inr]
      obtain r2 buf2 c2 where rest: "drain_blocks p (drop (i + 2) buf) c' = (r2, buf2, c2)"
        by (metis prod_cases3)
      from IH rest have run: "run_blocks p (fst (split_blocks (drop (i + 2) buf))) c' = (r2, c2)"
        by (metis fst_conv snd_conv prod.collapse)
      from Some step Inr rest run IH split show ?thesis
        by (cases r2) (simp_all add: drain_blocks.simps [of p buf c] act_apply)
    qed
  qed
qed

lemma run_blocks_append:
  "run_blocks p (bs @ cs) c =
     (case run_blocks p bs c of
        (Inl e, d) \<Rightarrow> (Inl e, d)
      | (Inr as, d) \<Rightarrow>
          (case run_blocks p cs d of (Inl e, d') \<Rightarrow> (Inl e, d') | (Inr as', d') \<Rightarrow> (Inr (as @ as'), d')))"
proof (induction bs arbitrary: c)
  case Nil
  show ?case
    by (cases "run_blocks p cs c"; cases "fst (run_blocks p cs c)") simp_all
next
  case (Cons b bs)
  show ?case
    by (simp add: act_apply Cons.IH split: prod.split sum.split)
qed

lemma split_blocks_append:
  "split_blocks (s @ t) =
     (case split_blocks s of (bs, r) \<Rightarrow>
        (case split_blocks (r @ t) of (bs', r') \<Rightarrow> (bs @ bs', r')))"
proof (induction s rule: split_blocks.induct)
  case (1 s)
  show ?case
  proof (cases "find_blank s")
    case None
    then show ?thesis by (simp add: split_blocks.simps [of s])
  next
    case (Some i)
    then have bound: "i + 2 \<le> length s" and app: "find_blank (s @ t) = Some i"
      by (auto dest: find_blank_bound find_blank_append)
    obtain bs r where tail: "split_blocks (drop (i + 2) s) = (bs, r)" by fastforce
    have "split_blocks (s @ t) =
        (case split_blocks (drop (i + 2) s @ t) of (bs', r') \<Rightarrow> (take (i + 2) s # bs', r'))"
      using app bound by (simp add: split_blocks.simps [of "s @ t"])
    also have "\<dots> = (case split_blocks (r @ t) of (bs', r') \<Rightarrow> (take (i + 2) s # bs @ bs', r'))"
      using "1.IH" [OF Some] tail by (simp split: prod.split)
    finally show ?thesis
      using Some tail by (simp add: split_blocks.simps [of s] split: prod.split)
  qed
qed

lemma split_blocks_concat: "split_blocks s = (bs, r) \<Longrightarrow> s = concat bs @ r"
proof (induction s arbitrary: bs r rule: split_blocks.induct)
  case (1 s)
  show ?case
  proof (cases "find_blank s")
    case None
    with "1.prems" show ?thesis by (simp add: split_blocks.simps [of s])
  next
    case (Some i)
    obtain cs q where tail: "split_blocks (drop (i + 2) s) = (cs, q)" by fastforce
    with Some "1.prems" have bs: "bs = take (i + 2) s # cs" "r = q"
      by (auto simp: split_blocks.simps [of s])
    from "1.IH" [OF Some tail] have "drop (i + 2) s = concat cs @ q" .
    then have "take (i + 2) s @ drop (i + 2) s = concat bs @ r" using bs by simp
    then show ?thesis by simp
  qed
qed

lemma split_blocks_rest: "find_blank (snd (split_blocks s)) = None"
proof (induction s rule: split_blocks.induct)
  case (1 s)
  then show ?case
    by (cases "find_blank s") (auto simp: split_blocks.simps [of s] split: prod.split)
qed

section \<open>The data of a block\<close>

definition sse_data :: "str \<Rightarrow> str" where
  "sse_data block =
     join_with [LF] (map trim_start (List.map_filter (strip_prefix ''data:'') (lines block)))"

section \<open>Decoders\<close>

record 'c sse_decoder =
  buffer :: str
  max_buffer_bytes :: nat
  core :: 'c

definition sse_push ::
  "'e \<Rightarrow> (str \<Rightarrow> str) \<Rightarrow> (str \<Rightarrow> ('c, 'e, 'a) action) \<Rightarrow> str \<Rightarrow> ('c sse_decoder, 'e, 'a list) action" where
  "sse_push limit_error newlines parse_block data d =
     (if max_buffer_bytes d < saturating_add (length (buffer d)) (length data)
      then (Inl limit_error, d)
      else (case drain_blocks parse_block (newlines (buffer d @ data)) (core d) of
              (r, buf, c) \<Rightarrow> (r, d\<lparr>buffer := buf, core := c\<rparr>)))"

text \<open>\<open>std::mem::take(&mut self.buffer)\<close> and the parse of what is left, in \<open>finish\<close>.\<close>

definition sse_flush :: "(str \<Rightarrow> ('c, 'e, 'a) action) \<Rightarrow> ('c sse_decoder, 'e, 'a option) action" where
  "sse_flush parse_block d =
     (if buffer d = [] then (Inr None, d)
      else (case parse_block (buffer d) (core d) of
              (Inl e, c) \<Rightarrow> (Inl e, d\<lparr>buffer := [], core := c\<rparr>)
            | (Inr a, c) \<Rightarrow> (Inr (Some a), d\<lparr>buffer := [], core := c\<rparr>)))"

text \<open>
  Between two calls the buffer holds no carriage return and at most the configured number
  of bytes; the limit itself is a \<open>usize\<close> (below its maximum, where the saturating sum of
  \<open>push\<close> could not exceed it).
\<close>

definition buffer_ok :: "'c sse_decoder \<Rightarrow> bool" where
  "buffer_ok d \<longleftrightarrow>
     CR \<notin> set (buffer d) \<and> length (buffer d) \<le> max_buffer_bytes d \<and> max_buffer_bytes d < usize_max"

lemma drain_blocks_suffix: "\<exists>p. buf = p @ fst (snd (drain_blocks pb buf c))"
proof (induction pb buf c rule: drain_blocks.induct)
  case (1 pb buf c)
  show ?case
  proof (cases "find_blank buf")
    case None
    then show ?thesis by (simp add: drain_blocks.simps [of pb buf])
  next
    case (Some i)
    obtain r c' where step: "pb (take (i + 2) buf) c = (r, c')" by fastforce
    show ?thesis
    proof (cases r)
      case (Inl e)
      with Some step show ?thesis
        by (simp add: drain_blocks.simps [of pb buf c]) (metis append_take_drop_id)
    next
      case (Inr a)
      from "1.IH" [OF Some step [symmetric] Inr] obtain q
        where q: "drop (i + 2) buf = q @ fst (snd (drain_blocks pb (drop (i + 2) buf) c'))" by blast
      have "fst (snd (drain_blocks pb buf c)) = fst (snd (drain_blocks pb (drop (i + 2) buf) c'))"
        using Some step Inr by (simp add: drain_blocks.simps [of pb buf c] split: prod.split sum.split)
      with q show ?thesis by (metis append_assoc append_take_drop_id)
    qed
  qed
qed

lemma sse_push_buffer_ok:
  assumes "buffer_ok d" and "\<And>s. newlines s = normalize_copy s"
  shows "buffer_ok (snd (sse_push e newlines pb data d))"
proof (cases "max_buffer_bytes d < saturating_add (length (buffer d)) (length data)")
  case True
  with assms(1) show ?thesis by (simp add: sse_push_def)
next
  case False
  let ?buf = "newlines (buffer d @ data)"
  from False assms(1) have len: "length (buffer d) + length data \<le> max_buffer_bytes d"
    by (auto simp: buffer_ok_def saturating_add_def)
  obtain r buf c where drain: "drain_blocks pb ?buf (core d) = (r, buf, c)" by (metis prod_cases3)
  obtain p where p: "?buf = p @ buf" using drain_blocks_suffix [of ?buf pb "core d"] drain by auto
  have "length ?buf \<le> length (buffer d) + length data"
    using length_normalize_copy [of "buffer d @ data"] by (simp add: assms(2))
  with p len have "length buf \<le> max_buffer_bytes d" by simp
  moreover have "CR \<notin> set buf"
    using normalize_copy_no_CR [of "buffer d @ data"] p
    by (simp add: assms(2) del: normalize_copy_no_CR)
  ultimately show ?thesis
    using False drain assms(1) by (simp add: sse_push_def buffer_ok_def)
qed

lemma sse_flush_buffer_ok: "buffer_ok d \<Longrightarrow> buffer_ok (snd (sse_flush pb d))"
  by (auto simp: sse_flush_def buffer_ok_def split: prod.split sum.split)

lemma sse_push_max [simp]: "max_buffer_bytes (snd (sse_push e n pb data d)) = max_buffer_bytes d"
  by (simp add: sse_push_def split: prod.split)

lemma sse_flush_max [simp]: "max_buffer_bytes (snd (sse_flush pb d)) = max_buffer_bytes d"
  by (simp add: sse_flush_def split: prod.split sum.split)

text \<open>
  Where \<open>push\<close> is within its limit, it runs the parser over the complete blocks of the
  normalized stream.
\<close>

definition stream_blocks :: "'c sse_decoder \<Rightarrow> str \<Rightarrow> str list \<times> str" where
  "stream_blocks d data = split_blocks (normalize_copy (buffer d @ data))"

definition fits :: "'c sse_decoder \<Rightarrow> str \<Rightarrow> bool" where
  "fits d data \<longleftrightarrow> length (buffer d) + length data \<le> max_buffer_bytes d"

lemma sse_push_run:
  assumes "fits d data" and "\<And>s. newlines s = normalize_copy s"
  shows "fst (sse_push e newlines pb data d) = fst (run_blocks pb (fst (stream_blocks d data)) (core d)) \<and>
    core (snd (sse_push e newlines pb data d)) = snd (run_blocks pb (fst (stream_blocks d data)) (core d)) \<and>
    (\<forall>as. fst (sse_push e newlines pb data d) = Inr as \<longrightarrow>
       buffer (snd (sse_push e newlines pb data d)) = snd (stream_blocks d data))"
proof -
  from assms(1) have "\<not> max_buffer_bytes d < saturating_add (length (buffer d)) (length data)"
    by (simp add: fits_def saturating_add_def)
  moreover obtain r buf c
    where drain: "drain_blocks pb (normalize_copy (buffer d @ data)) (core d) = (r, buf, c)"
    by (metis prod_cases3)
  ultimately have "sse_push e newlines pb data d = (r, d\<lparr>buffer := buf, core := c\<rparr>)"
    by (simp add: sse_push_def assms(2))
  then show ?thesis
    using drain_blocks_run [of pb "normalize_copy (buffer d @ data)" "core d", unfolded drain]
    by (simp add: stream_blocks_def)
qed

lemma stream_blocks_append:
  assumes "buffer_ok d" and "\<not> splits_crlf s t"
  shows "stream_blocks d (s @ t) =
     (case stream_blocks d s of (bs, r) \<Rightarrow>
        (case split_blocks (normalize_copy (r @ t)) of (bs', r') \<Rightarrow> (bs @ bs', r')))"
proof -
  have cr: "CR \<notin> set (buffer d)" using assms(1) by (simp add: buffer_ok_def)
  have "normalize_copy (buffer d @ s @ t) = normalize_copy (buffer d @ s) @ normalize_copy t"
    using normalize_copy_append [OF assms(2)] by (simp add: normalize_copy_append_clean [OF cr])
  then have whole: "stream_blocks d (s @ t) = split_blocks (normalize_copy (buffer d @ s) @ normalize_copy t)"
    by (simp add: stream_blocks_def)
  obtain bs r where first: "stream_blocks d s = (bs, r)" by fastforce
  then have "normalize_copy (buffer d @ s) = concat bs @ r"
    by (simp add: stream_blocks_def split_blocks_concat)
  then have "CR \<notin> set r" using normalize_copy_no_CR [of "buffer d @ s"] by simp
  then have "normalize_copy (r @ t) = r @ normalize_copy t" by (rule normalize_copy_append_clean)
  with first whole show ?thesis
    by (simp add: split_blocks_append [of "normalize_copy (buffer d @ s)"] stream_blocks_def)
qed

text \<open>Two pushes in a row against one push of both chunks.\<close>

lemma sse_push_append:
  assumes ok: "buffer_ok d" and cut: "\<not> splits_crlf s t" and fits: "fits d (s @ t)"
    and norm: "\<And>s. newlines s = normalize_copy s"
    and first: "sse_push e newlines pb s d = (Inr as, d')"
  shows "fst (sse_push e newlines pb (s @ t) d) =
      (case fst (sse_push e newlines pb t d') of Inl x \<Rightarrow> Inl x | Inr as' \<Rightarrow> Inr (as @ as'))"
    and "core (snd (sse_push e newlines pb (s @ t) d)) = core (snd (sse_push e newlines pb t d'))"
    and "fst (sse_push e newlines pb t d') = Inr as' \<Longrightarrow>
      snd (sse_push e newlines pb (s @ t) d) = snd (sse_push e newlines pb t d')"
proof -
  have fits_s: "fits d s" using fits by (simp add: fits_def)
  obtain bs r where blocks: "stream_blocks d s = (bs, r)" by fastforce
  from sse_push_run [OF fits_s norm, of e pb] first blocks
  have run: "run_blocks pb bs (core d) = (Inr as, core d')" and r: "buffer d' = r"
    by (metis fst_conv prod.collapse snd_conv)+
  have max: "max_buffer_bytes d' = max_buffer_bytes d"
    using sse_push_max [of e newlines pb s d] first by simp
  have "length r \<le> length (buffer d) + length s"
    using blocks split_blocks_concat [of "normalize_copy (buffer d @ s)" bs r]
      length_normalize_copy [of "buffer d @ s"] by (simp add: stream_blocks_def)
  then have fits_t: "fits d' t" using fits r max by (simp add: fits_def)
  obtain bs' r' where rest: "stream_blocks d' t = (bs', r')" by fastforce
  have whole: "stream_blocks d (s @ t) = (bs @ bs', r')"
    using rest blocks r by (simp add: stream_blocks_append [OF ok cut] stream_blocks_def [of d'])
  note two = sse_push_run [OF fits_t norm, of e pb, unfolded rest fst_conv snd_conv]
  note one = sse_push_run [OF fits norm, of e pb, unfolded whole fst_conv snd_conv]
  show "fst (sse_push e newlines pb (s @ t) d) =
      (case fst (sse_push e newlines pb t d') of Inl x \<Rightarrow> Inl x | Inr as' \<Rightarrow> Inr (as @ as'))"
    using one two by (simp add: run_blocks_append run split: prod.split sum.split)
  show core: "core (snd (sse_push e newlines pb (s @ t) d)) = core (snd (sse_push e newlines pb t d'))"
    using one two by (simp add: run_blocks_append run split: prod.split sum.split)
  assume ok2: "fst (sse_push e newlines pb t d') = Inr as'"
  with one two have "buffer (snd (sse_push e newlines pb (s @ t) d)) = buffer (snd (sse_push e newlines pb t d'))"
    by (simp add: run_blocks_append run split: prod.splits sum.splits)
  with core max show "snd (sse_push e newlines pb (s @ t) d) = snd (sse_push e newlines pb t d')"
    by (auto intro!: sse_decoder.equality)
qed

lemma sse_push_append_error:
  assumes ok: "buffer_ok d" and cut: "\<not> splits_crlf s t" and fits: "fits d (s @ t)"
    and norm: "\<And>s. newlines s = normalize_copy s"
    and first: "fst (sse_push e newlines pb s d) = Inl x"
  shows "fst (sse_push e newlines pb (s @ t) d) = Inl x"
proof -
  have fits_s: "fits d s" using fits by (simp add: fits_def)
  obtain bs r where blocks: "stream_blocks d s = (bs, r)" by fastforce
  obtain bs' r' where "split_blocks (normalize_copy (r @ t)) = (bs', r')" by fastforce
  with blocks have whole: "stream_blocks d (s @ t) = (bs @ bs', r')"
    by (simp add: stream_blocks_append [OF ok cut])
  show ?thesis
    using sse_push_run [OF fits_s norm, of e pb] sse_push_run [OF fits norm, of e pb] first
    by (simp add: blocks whole run_blocks_append split: prod.splits sum.splits)
qed

lemma sse_push_two:
  fixes e newlines pb
  defines "push \<equiv> sse_push e newlines pb"
  assumes ok: "buffer_ok d" and cut: "\<not> splits_crlf s t" and fits: "fits d (s @ t)"
    and norm: "\<And>s. newlines s = normalize_copy s"
  shows "fst (act (push s) (\<lambda>as. act (push t) (\<lambda>bs. act_ok (as @ bs))) d) = fst (push (s @ t) d) \<and>
    (\<forall>out. fst (push (s @ t) d) = Inr out \<longrightarrow>
       snd (act (push s) (\<lambda>as. act (push t) (\<lambda>bs. act_ok (as @ bs))) d) = snd (push (s @ t) d))"
proof (cases "push s d")
  case (Pair r d')
  show ?thesis
  proof (cases r)
    case (Inl x)
    with Pair sse_push_append_error [OF ok cut fits norm, of e pb x] show ?thesis
      by (simp add: push_def act_apply)
  next
    case (Inr as)
    note one = sse_push_append [OF ok cut fits norm, of e pb as d', folded push_def] Pair [unfolded Inr]
    show ?thesis
    proof (cases "push t d'")
      case second: (Pair r2 d'')
      with one Pair Inr show ?thesis by (cases r2) (simp_all add: act_apply)
    qed
  qed
qed

lemma sse_push_room:
  assumes ok: "buffer_ok d" and "fits d (s @ t)" and norm: "\<And>s. newlines s = normalize_copy s"
    and first: "sse_push e newlines pb s d = (Inr as, d')"
  shows "fits d' t"
proof -
  have fits_s: "fits d s" using assms(2) by (simp add: fits_def)
  obtain bs r where blocks: "stream_blocks d s = (bs, r)" by fastforce
  with sse_push_run [OF fits_s norm, of e pb] first have "buffer d' = r" by simp
  moreover have "length r \<le> length (buffer d) + length s"
    using blocks split_blocks_concat [of "normalize_copy (buffer d @ s)" bs r]
      length_normalize_copy [of "buffer d @ s"] by (simp add: stream_blocks_def)
  moreover have "max_buffer_bytes d' = max_buffer_bytes d"
    using sse_push_max [of e newlines pb s d] first by simp
  ultimately show ?thesis using assms(2) by (simp add: fits_def)
qed

end
