(* ===== verification/Bridge.thy ===== *)
theory Bridge
  imports Sse ResponsesRequest
begin

text \<open>
  \<open>provider-x-protocol/src/lib.rs\<close> and what the three bridges share.

  The two traits of \<open>lib.rs\<close> are locales. \<open>event_decoder\<close> states what a
  \<open>WsHttpEventDecoder\<close> promises: its operations keep an invariant and the way the
  upstream body is cut into chunks does not matter. \<open>bridge_session\<close> states what the session
  behind a \<open>WsHttpProtocolAdapter\<close> promises: only a commit changes the history, and it keeps
  it within its bounds. \<open>replay_merge\<close> is the contract of the equality that
  \<open>bounded_merge\<close> compares items with. The theories of the bridges interpret them.
\<close>

section \<open>Types\<close>

datatype bridge_failure = BridgeInvalidRequest | BridgeInvalidStream | BridgeSessionHistoryLimit

datatype 'p ws_http_action = Warmup "str list" | Request str 'p

record 'c ws_http_stream_outcome =
  stream_terminal :: bool
  stream_completed :: bool
  stream_commit :: 'c

section \<open>Replaying the history\<close>

text \<open>
  \<open>(0..=min).rev().find(..)\<close> over the last items of the history and the first of the
  current input, and the merge that skips the overlap.
\<close>

definition overlap_count :: "(json \<Rightarrow> json \<Rightarrow> bool) \<Rightarrow> json list \<Rightarrow> json list \<Rightarrow> nat" where
  "overlap_count same history current =
     unwrap_or (find_down (min (length history) (length current))
       (\<lambda>count. list_all2 same (drop (length history - count) history) (take count current))) 0"

definition merge_items :: "(json \<Rightarrow> json \<Rightarrow> bool) \<Rightarrow> json list \<Rightarrow> json list \<Rightarrow> json list" where
  "merge_items same history current = history @ drop (overlap_count same history current) current"

lemma overlap_found:
  "find_down (min (length h) (length c)) (\<lambda>n. list_all2 same (drop (length h - n) h) (take n c)) =
     Some (overlap_count same h c)"
proof -
  have "\<exists>k. find_down (min (length h) (length c))
      (\<lambda>n. list_all2 same (drop (length h - n) h) (take n c)) = Some k"
    by (rule find_down_total) simp
  then show ?thesis by (auto simp: overlap_count_def)
qed

lemma overlap_matches:
  "overlap_count same h c \<le> length h \<and> overlap_count same h c \<le> length c \<and>
   list_all2 same (drop (length h - overlap_count same h c) h) (take (overlap_count same h c) c)"
  using find_down_Some [OF overlap_found, of same h c] by simp

lemma overlap_largest:
  "n \<le> length h \<Longrightarrow> n \<le> length c \<Longrightarrow> list_all2 same (drop (length h - n) h) (take n c) \<Longrightarrow>
   n \<le> overlap_count same h c"
  by (rule find_down_largest [OF overlap_found]) simp_all

text \<open>
  The contract of the item equality: a well-formed item equals itself. Then a client that
  sends the whole history again with new items after it gets no duplicate, and one that sends
  the new items only gets the history in front of them.
\<close>

locale replay_merge =
  fixes same :: "json \<Rightarrow> json \<Rightarrow> bool"
  assumes same_refl: "json_ok v \<Longrightarrow> same v v"
begin

lemma whole_history:
  assumes "\<forall>v \<in> set history. json_ok v"
  shows "merge_items same history (history @ new) = history @ new"
proof -
  have "list_all2 same history history"
    using assms by (simp add: list_all2_same same_refl)
  then have "length history \<le> overlap_count same history (history @ new)"
    by (intro overlap_largest) simp_all
  with overlap_matches [of same history "history @ new"]
  have "overlap_count same history (history @ new) = length history" by simp
  then show ?thesis by (simp add: merge_items_def)
qed

lemma suffix_of_history:
  assumes "\<forall>v \<in> set history. json_ok v" and "n \<le> length history"
    and "current = drop (length history - n) history @ new"
  shows "\<exists>k \<ge> n. merge_items same history current = history @ drop k current"
proof -
  have "list_all2 same (drop (length history - n) history) (drop (length history - n) history)"
    using assms(1) by (auto simp: list_all2_same same_refl dest: in_set_dropD)
  then have "n \<le> overlap_count same history current"
    using assms(2,3) by (intro overlap_largest) simp_all
  then show ?thesis by (auto simp: merge_items_def)
qed

end

lemma merge_disjoint:
  assumes "\<forall>v \<in> set current. \<forall>w \<in> set history. \<not> same w v"
  shows "merge_items same history current = history @ current"
proof -
  let ?n = "overlap_count same history current"
  have m: "?n \<le> length history" "?n \<le> length current"
      "list_all2 same (drop (length history - ?n) history) (take ?n current)"
    using overlap_matches [of same history current] by simp_all
  have "?n = 0"
  proof (rule ccontr)
    assume "?n \<noteq> 0"
    with m obtain v vs w ws where c: "take ?n current = v # vs"
      and h: "drop (length history - ?n) history = w # ws"
      by (cases "take ?n current"; cases "drop (length history - ?n) history") auto
    with m(3) have "same w v" by simp
    moreover have "v \<in> set current" using c by (metis in_set_takeD list.set_intros(1))
    moreover have "w \<in> set history" using h by (metis in_set_dropD list.set_intros(1))
    ultimately show False using assms by blast
  qed
  then show ?thesis by (simp add: merge_items_def)
qed

lemma merge_length: "length (merge_items same h c) \<le> length h + length c"
  by (simp add: merge_items_def)

interpretation json_merge: replay_merge jeq
  by unfold_locales (rule jeq_refl)

section \<open>Warmup defaults\<close>

text \<open>
  \<open>apply_warmup_defaults\<close> and \<open>apply_defaults\<close>: the remembered value of each name is inserted
  where the command does not name it.
\<close>

definition insert_default :: "str \<times> json option \<Rightarrow> jmap \<Rightarrow> jmap" where
  "insert_default entry m =
     (case snd entry of
        None \<Rightarrow> m
      | Some value \<Rightarrow> if map_get m (fst entry) = None then map_insert (fst entry) value m else m)"

definition insert_defaults :: "(str \<times> json option) list \<Rightarrow> jmap \<Rightarrow> jmap" where
  "insert_defaults entries m = fold insert_default entries m"

text \<open>\<open>if let Some(value) = create.get(name) { *target = Some(value.clone()) }\<close>\<close>

definition capture_default :: "jmap \<Rightarrow> str \<Rightarrow> json option \<Rightarrow> json option" where
  "capture_default m name target = (case map_get m name of None \<Rightarrow> target | Some v \<Rightarrow> Some v)"

lemma map_get_insert_default:
  "map_get (insert_default entry m) k =
     (case map_get m k of Some v \<Rightarrow> Some v | None \<Rightarrow> if k = fst entry then snd entry else None)"
  by (auto simp: insert_default_def split: option.split)

lemma map_get_insert_defaults:
  "distinct (map fst entries) \<Longrightarrow>
   map_get (insert_defaults entries m) k =
     (case map_get m k of Some v \<Rightarrow> Some v | None \<Rightarrow> Option.bind (map_of entries k) (\<lambda>v. v))"
proof (induction entries arbitrary: m)
  case Nil
  then show ?case by (simp add: insert_defaults_def split: option.split)
next
  case (Cons entry entries)
  have unfold: "map_get (insert_defaults (entry # entries) m) k =
      map_get (insert_defaults entries (insert_default entry m)) k"
    by (simp add: insert_defaults_def)
  have "k = fst entry \<Longrightarrow> map_of entries k = None"
    using Cons.prems by (auto simp: map_of_eq_None_iff)
  with Cons show ?case
    unfolding unfold
    by (cases entry; cases "map_get m k"; cases "snd entry")
      (auto simp: map_get_insert_default split: option.split)
qed

lemma map_ok_insert_defaults [simp]: "map_ok m \<Longrightarrow> map_ok (insert_defaults entries m)"
  unfolding insert_defaults_def
  by (induction entries arbitrary: m) (auto simp: insert_default_def split: option.split)

section \<open>Running blocks\<close>

lemma keeps_run_blocks:
  "(\<And>b. keeps P (pb b)) \<Longrightarrow> keeps P (run_blocks pb bs)"
  by (induction bs) (auto intro: keeps_intros)

lemma drain_blocks_keeps:
  assumes "\<And>b. keeps P (pb b)" and "P c"
  shows "P (snd (snd (drain_blocks pb buf c)))"
  using drain_blocks_run [of pb buf c] keepsD [OF keeps_run_blocks [OF assms(1)] assms(2)] by simp

lemma act_map_err_two:
  "fst (act (act_map_err g m) (\<lambda>as. act (act_map_err g n) (\<lambda>bs. act_ok (as @ bs))) d) =
     map_err g (fst (act m (\<lambda>as. act n (\<lambda>bs. act_ok (as @ bs))) d)) \<and>
   snd (act (act_map_err g m) (\<lambda>as. act (act_map_err g n) (\<lambda>bs. act_ok (as @ bs))) d) =
     snd (act m (\<lambda>as. act n (\<lambda>bs. act_ok (as @ bs))) d)"
proof (cases "m d")
  case (Pair r d')
  then show ?thesis
    by (cases r; cases "n d'"; cases "fst (n d')") (simp_all add: act_apply act_map_err_def)
qed

section \<open>Event decoders\<close>

text \<open>Feeding the chunks of a body one after the other, and a list of clean cuts.\<close>

fun feed :: "(str \<Rightarrow> ('d, 'e, str list) action) \<Rightarrow> str list \<Rightarrow> ('d, 'e, str list) action" where
  "feed push [] = act_ok []"
| "feed push (chunk # chunks) =
     act (push chunk) (\<lambda>out. act (feed push chunks) (\<lambda>rest. act_ok (out @ rest)))"

fun clean_cuts :: "str list \<Rightarrow> bool" where
  "clean_cuts [] \<longleftrightarrow> True"
| "clean_cuts (chunk # chunks) \<longleftrightarrow> \<not> splits_crlf chunk (concat chunks) \<and> clean_cuts chunks"

lemma feed_field:
  assumes "\<And>x e. f (snd (push x e)) = f e"
  shows "f (snd (feed push xs d)) = f d"
proof (induction xs arbitrary: d)
  case (Cons x xs)
  obtain r d' where step: "push x d = (r, d')" by fastforce
  with assms [of x d] have "f d' = f d" by simp
  moreover obtain q d'' where rest: "feed push xs d' = (q, d'')" by fastforce
  with Cons.IH [of d'] have "f d'' = f d'" by simp
  ultimately show ?case
    using step rest by (cases r; cases q) (simp_all add: act_apply)
qed simp

locale event_decoder =
  fixes push :: "str \<Rightarrow> ('d, 'e, str list) action"
    and finish :: "('d, 'e, str list) action"
    and ok :: "'d \<Rightarrow> bool"
    and room :: "'d \<Rightarrow> str \<Rightarrow> bool"
  assumes push_ok: "ok d \<Longrightarrow> ok (snd (push data d))"
    and finish_ok: "ok d \<Longrightarrow> ok (snd (finish d))"
    and push_two: "ok d \<Longrightarrow> room d (s @ t) \<Longrightarrow> \<not> splits_crlf s t \<Longrightarrow>
      fst (act (push s) (\<lambda>out. act (push t) (\<lambda>rest. act_ok (out @ rest))) d) = fst (push (s @ t) d) \<and>
      (\<forall>out. fst (push (s @ t) d) = Inr out \<longrightarrow>
         snd (act (push s) (\<lambda>out. act (push t) (\<lambda>rest. act_ok (out @ rest))) d) = snd (push (s @ t) d))"
    and room_after: "ok d \<Longrightarrow> room d (s @ t) \<Longrightarrow> push s d = (Inr out, d') \<Longrightarrow> room d' t"
begin

text \<open>The cuts of a body do not change what comes out, nor whether it is rejected.\<close>

lemma feed_concat:
  assumes "ok d" and "room d (concat chunks)" and "clean_cuts chunks" and "chunks \<noteq> []"
  shows "fst (feed push chunks d) = fst (push (concat chunks) d) \<and>
    (\<forall>out. fst (push (concat chunks) d) = Inr out \<longrightarrow>
       snd (feed push chunks d) = snd (push (concat chunks) d))"
  using assms
proof (induction chunks arbitrary: d)
  case (Cons s chunks)
  let ?t = "concat chunks"
  let ?two = "act (push s) (\<lambda>out. act (push ?t) (\<lambda>rest. act_ok (out @ rest))) d"
  show ?case
  proof (cases "chunks = []")
    case True
    then show ?thesis by (cases "push s d"; cases "fst (push s d)") (simp_all add: act_apply)
  next
    case False
    have two: "fst ?two = fst (push (s @ ?t) d)"
        "\<And>out. fst (push (s @ ?t) d) = Inr out \<Longrightarrow> snd ?two = snd (push (s @ ?t) d)"
      using push_two [of d s ?t] Cons.prems by auto
    have "fst (feed push (s # chunks) d) = fst ?two \<and>
        (\<forall>out. fst ?two = Inr out \<longrightarrow> snd (feed push (s # chunks) d) = snd ?two)"
    proof (cases "push s d")
      case (Pair r d')
      show ?thesis
      proof (cases r)
        case (Inr out)
        with Pair Cons.prems have "ok d'" "room d' ?t"
          using push_ok [of d s] room_after [of d s ?t out d'] by simp_all
        with Cons.IH [of d'] Cons.prems(3) Pair Inr False show ?thesis
          by (cases "feed push chunks d'"; cases "push ?t d'"; cases "fst (push ?t d')")
            (auto simp: act_apply)
      qed (simp add: Pair)
    qed
    with two show ?thesis by auto
  qed
qed simp

lemma feed_ok: "ok d \<Longrightarrow> ok (snd (feed push chunks d))"
proof (induction chunks arbitrary: d)
  case (Cons s chunks)
  show ?case
  proof (cases "push s d")
    case (Pair r d')
    with push_ok [of d s] Cons.prems have "ok d'" by simp
    with Cons.IH [of d'] Pair show ?thesis
      by (cases r; cases "feed push chunks d'"; cases "fst (feed push chunks d')") (auto simp: act_apply)
  qed
qed simp

end

section \<open>Sessions\<close>

text \<open>The commands of a session: a request text to prepare, or a finished turn to commit.\<close>

datatype ('p, 'm) session_command = Prepare str | Commit 'p 'm

fun session_command_step ::
  "(str \<Rightarrow> ('s, 'e, 'a) action) \<Rightarrow> ('p \<Rightarrow> 'm \<Rightarrow> ('s, 'e, unit) action) \<Rightarrow> ('p, 'm) session_command \<Rightarrow> 's \<Rightarrow> 's"
where
  "session_command_step prepare commit (Prepare text_message) s = snd (prepare text_message s)"
| "session_command_step prepare commit (Commit p m) s = snd (commit p m s)"

definition session_run ::
  "(str \<Rightarrow> ('s, 'e, 'a) action) \<Rightarrow> ('p \<Rightarrow> 'm \<Rightarrow> ('s, 'e, unit) action) \<Rightarrow> ('p, 'm) session_command list \<Rightarrow> 's \<Rightarrow> 's"
where
  "session_run prepare commit commands s = fold (session_command_step prepare commit) commands s"

locale bridge_session =
  fixes prepare :: "str \<Rightarrow> ('s, 'e, 'a) action"
    and commit :: "'p \<Rightarrow> 'm \<Rightarrow> ('s, 'e, unit) action"
    and history :: "'s \<Rightarrow> json list"
    and within :: "'s \<Rightarrow> json list \<Rightarrow> bool"
  assumes prepare_history: "history (snd (prepare t s)) = history s"
    and prepare_within: "within (snd (prepare t s)) = within s"
    and commit_within: "within (snd (commit p m s)) = within s"
    and commit_done: "fst (commit p m s) = Inr () \<Longrightarrow> within s (history (snd (commit p m s)))"
    and commit_rejected: "fst (commit p m s) = Inl e \<Longrightarrow> snd (commit p m s) = s"
begin

lemma step_within:
  "within s (history s) \<Longrightarrow>
   within (session_command_step prepare commit command s) (history (session_command_step prepare commit command s))"
proof (cases command)
  case (Commit p m)
  assume start: "within s (history s)"
  show ?thesis
  proof (cases "fst (commit p m s)")
    case (Inl e)
    with Commit start show ?thesis by (simp add: commit_rejected)
  next
    case (Inr u)
    with Commit show ?thesis by (simp add: commit_done commit_within)
  qed
qed (simp add: prepare_history prepare_within)

lemma run_within:
  "within s (history s) \<Longrightarrow>
   within (session_run prepare commit commands s) (history (session_run prepare commit commands s))"
  unfolding session_run_def by (induction commands arbitrary: s) (simp_all add: step_within)

end

text \<open>The bound of every session: at most 256 items, at most the configured bytes of JSON.\<close>

definition history_within :: "codec \<Rightarrow> nat \<Rightarrow> json list \<Rightarrow> bool" where
  "history_within c max_bytes history \<longleftrightarrow>
     history = [] \<or> length history \<le> 256 \<and> (\<exists>bytes. to_vec c (JArray history) = Inr bytes \<and> length bytes \<le> max_bytes)"

end
