(* ===== verification/ResponsesBridge.thy ===== *)
theory ResponsesBridge
  imports Bridge CoreConfig
begin

text \<open>
  \<open>responses/bridge.rs\<close>: the session that answers a warmup locally and turns every other
  \<open>response.create\<close> into an HTTP request, and the decoder of the upstream event stream with the
  normalization of reasoning events. The wall clock of \<open>random_id\<close> is the parameter
  \<open>nanos\<close>.

  The lemmas show that the history stays within its bounds, that the forwarded request carries
  the upstream model and replays the history without dropping anything, that the reasoning state
  is bounded with exact accounting, and that the chunks of the upstream body do not matter.
\<close>

section \<open>Ingress\<close>

datatype websocket_plan = DirectWebSocket | BridgeToHttpSse

definition websocket_ingress_plan :: "transport_config \<Rightarrow> websocket_plan option" where
  "websocket_ingress_plan transports =
     (if websocket transports then Some DirectWebSocket
      else if http_sse transports then Some BridgeToHttpSse
      else None)"

section \<open>Session\<close>

record warmup_defaults =
  warm_instructions :: "json option"
  warm_tools :: "json option"
  warm_parallel :: "json option"
  warm_choice :: "json option"

definition warmup_default :: warmup_defaults where
  "warmup_default = \<lparr>warm_instructions = None, warm_tools = None, warm_parallel = None, warm_choice = None\<rparr>"

record responses_session =
  rs_upstream_model :: str
  rs_warmup_id :: "str option"
  rs_warmup :: warmup_defaults
  rs_history :: "json list"
  rs_max_bytes :: nat

datatype bridge_action = BridgeWarmup "str list" | BridgeRequest str "json list"

definition responses_session_new :: "str \<Rightarrow> nat \<Rightarrow> responses_session" where
  "responses_session_new upstream_model max_history_bytes =
     \<lparr>rs_upstream_model = upstream_model, rs_warmup_id = None, rs_warmup = warmup_default,
      rs_history = [], rs_max_bytes = max_history_bytes\<rparr>"

definition hex_random_id :: "nat \<Rightarrow> str" where
  "hex_random_id nanos = hex_string nanos"

definition warmup_events :: "codec \<Rightarrow> str \<Rightarrow> str list" where
  "warmup_events c response =
     map (display c)
       [JObject [(''type'', JString ''response.created''),
          (''response'', JObject [(''id'', JString response)])],
        JObject [(''type'', JString ''response.completed''),
          (''response'', JObject [(''id'', JString response), (''output'', JArray []),
             (''usage'', JObject [(''input_tokens'', jnat 0), (''input_tokens_details'', JNull),
                (''output_tokens'', jnat 0), (''output_tokens_details'', JNull),
                (''total_tokens'', jnat 0)])])]]"

definition parse_response_create :: "codec \<Rightarrow> str \<Rightarrow> protocol_error + jmap" where
  "parse_response_create c message =
     and_then (inspect_ws_text c message) (\<lambda>_.
     and_then (map_err InvalidJson (parse c message)) (\<lambda>value.
     and_then (ok_or BodyMustBeObject (as_object value)) (\<lambda>create.
     if Option.bind (map_get create ''type'') as_str \<noteq> Some ''response.create''
     then Inl UnsupportedWebSocketMessage
     else Inr create)))"

definition take_input_items :: "json option \<Rightarrow> json list" where
  "take_input_items input =
     (case input of
        None \<Rightarrow> []
      | Some v \<Rightarrow> (case v of JArray items \<Rightarrow> items | JNull \<Rightarrow> [] | _ \<Rightarrow> [v]))"

definition serialized_len :: "codec \<Rightarrow> json list \<Rightarrow> protocol_error + nat" where
  "serialized_len c values =
     map_err Serialization (and_then (to_vec c (JArray values)) (\<lambda>bytes. Inr (length bytes)))"

definition tool_output_types :: "str list" where
  "tool_output_types = [''function_call_output'', ''custom_tool_call_output'', ''computer_call_output'',
     ''mcp_call_output'']"

definition contains_tool_output :: "json list \<Rightarrow> bool" where
  "contains_tool_output input \<longleftrightarrow>
     (\<exists>item \<in> set input. case str_at item ''type'' of None \<Rightarrow> False | Some t \<Rightarrow> t \<in> set tool_output_types)"

definition item_identity :: "json \<Rightarrow> (str \<times> str) option" where
  "item_identity item =
     Option.bind (str_at item ''type'') (\<lambda>item_type.
     Option.bind (case jget item ''id'' of Some v \<Rightarrow> Some v | None \<Rightarrow> jget item ''call_id'') (\<lambda>v.
     Option.bind (as_str v) (\<lambda>i. Some (item_type, i))))"

definition same_item :: "json \<Rightarrow> json \<Rightarrow> bool" where
  "same_item left right \<longleftrightarrow>
     (case (item_identity left, item_identity right) of
        (Some l, Some r) \<Rightarrow> l = r
      | _ \<Rightarrow> jeq left right)"

definition capture_warmup :: "jmap \<Rightarrow> responses_session \<Rightarrow> responses_session" where
  "capture_warmup create s = s\<lparr>rs_warmup :=
     \<lparr>warm_instructions = map_get create ''instructions'', warm_tools = map_get create ''tools'',
      warm_parallel = map_get create ''parallel_tool_calls'',
      warm_choice = map_get create ''tool_choice''\<rparr>\<rparr>"

definition capture_explicit_defaults :: "jmap \<Rightarrow> responses_session \<Rightarrow> responses_session" where
  "capture_explicit_defaults create s =
     (let w = rs_warmup s in s\<lparr>rs_warmup :=
     \<lparr>warm_instructions = capture_default create ''instructions'' (warm_instructions w),
      warm_tools = capture_default create ''tools'' (warm_tools w),
      warm_parallel = capture_default create ''parallel_tool_calls'' (warm_parallel w),
      warm_choice = capture_default create ''tool_choice'' (warm_choice w)\<rparr>\<rparr>)"

definition warmup_entries :: "warmup_defaults \<Rightarrow> (str \<times> json option) list" where
  "warmup_entries w = [(''instructions'', warm_instructions w), (''tools'', warm_tools w),
     (''parallel_tool_calls'', warm_parallel w), (''tool_choice'', warm_choice w)]"

definition apply_warmup_defaults :: "responses_session \<Rightarrow> jmap \<Rightarrow> jmap" where
  "apply_warmup_defaults s create = insert_defaults (warmup_entries (rs_warmup s)) create"

definition bounded_merge :: "codec \<Rightarrow> json list \<Rightarrow> responses_session \<Rightarrow> protocol_error + json list" where
  "bounded_merge c current s =
     (let merged = merge_items same_item (rs_history s) current in
      if 256 < length merged then Inl SessionHistoryLimit
      else and_then (serialized_len c merged) (\<lambda>n.
        if rs_max_bytes s < n then Inl SessionHistoryLimit else Inr merged))"

text \<open>The request after the fixed fields are set: its body without the input, the previous
  response, the current input and whether the history is replayed.\<close>

definition forwarded_fields :: "str \<Rightarrow> jmap \<Rightarrow> jmap" where
  "forwarded_fields upstream_model create =
     map_insert ''stream'' (JBool True)
       (map_insert ''model'' (JString upstream_model)
         (map_remove ''generate'' (map_remove ''type'' create)))"

definition replays :: "responses_session \<Rightarrow> str option \<Rightarrow> json list \<Rightarrow> bool" where
  "replays s previous current \<longleftrightarrow>
     rs_history s \<noteq> [] \<and> (previous \<noteq> None \<or> contains_tool_output current)"

definition responses_prepare ::
  "codec \<Rightarrow> nat \<Rightarrow> str \<Rightarrow> (responses_session, protocol_error, bridge_action) action" where
  "responses_prepare c nanos message s =
     (case parse_response_create c message of
        Inl e \<Rightarrow> (Inl e, s)
      | Inr create \<Rightarrow>
          if Option.bind (map_get create ''generate'') as_bool = Some False then
            (let response = ''resp_provider_x_warmup_'' @ hex_random_id nanos
             in (Inr (BridgeWarmup (warmup_events c response)),
                 (capture_warmup create s)\<lparr>rs_warmup_id := Some response\<rparr>))
          else
            let s = capture_explicit_defaults create s;
                create = forwarded_fields (rs_upstream_model s) (apply_warmup_defaults s create);
                previous = Option.bind (map_get create ''previous_response_id'') as_str;
                references_warmup = (previous \<noteq> None \<and> previous = rs_warmup_id s);
                current_input = take_input_items (map_get create ''input'');
                create = map_remove ''input'' create;
                replay_history = replays s previous current_input;
                create = (if references_warmup \<or> replay_history
                          then map_remove ''previous_response_id'' create else create)
            in (case (if replay_history then bounded_merge c current_input s else Inr current_input) of
                  Inl e \<Rightarrow> (Inl e, s)
                | Inr input \<Rightarrow>
                    let create = map_insert ''input'' (JArray input) create;
                        s = s\<lparr>rs_warmup_id := None\<rparr>
                    in (case to_vec c (JObject create) of
                          Inl e \<Rightarrow> (Inl (Serialization e), s)
                        | Inr body \<Rightarrow>
                            if rs_max_bytes s < length body then (Inl SessionHistoryLimit, s)
                            else (Inr (BridgeRequest body input), s))))"

definition responses_commit ::
  "codec \<Rightarrow> json list \<Rightarrow> json list \<Rightarrow> (responses_session, protocol_error, unit) action" where
  "responses_commit c input output s =
     (let history = input @ output in
      case serialized_len c history of
        Inl e \<Rightarrow> (Inl e, s)
      | Inr n \<Rightarrow>
          if 256 < length history \<or> rs_max_bytes s < n then (Inl SessionHistoryLimit, s)
          else (Inr (), s\<lparr>rs_history := history\<rparr>))"

definition responses_map_failure :: "protocol_error \<Rightarrow> bridge_failure" where
  "responses_map_failure e =
     (case e of
        SessionHistoryLimit \<Rightarrow> BridgeSessionHistoryLimit
      | InvalidStream \<Rightarrow> BridgeInvalidStream
      | StreamBufferLimit \<Rightarrow> BridgeInvalidStream
      | StreamStateLimit \<Rightarrow> BridgeInvalidStream
      | _ \<Rightarrow> BridgeInvalidRequest)"

text \<open>\<open>impl WsHttpProtocolAdapter for ResponsesWsHttpAdapter\<close>\<close>

definition responses_prepare_action ::
  "codec \<Rightarrow> nat \<Rightarrow> str \<Rightarrow> (responses_session, bridge_failure, json list ws_http_action) action" where
  "responses_prepare_action c nanos message =
     act (act_map_err responses_map_failure (responses_prepare c nanos message))
       (\<lambda>a. act_ok (case a of BridgeWarmup events \<Rightarrow> Warmup events | BridgeRequest body input \<Rightarrow> Request body input))"

definition responses_commit_outcome ::
  "codec \<Rightarrow> json list \<Rightarrow> json list \<Rightarrow> (responses_session, bridge_failure, unit) action" where
  "responses_commit_outcome c input output =
     act_map_err responses_map_failure (responses_commit c input output)"

section \<open>Normalization of reasoning\<close>

datatype reasoning_source = NativeSummary | RawAsSummary

record reasoning_compatibility =
  sources :: "(str, reasoning_source) btree"
  item_id_bytes :: nat
  max_item_id_bytes :: nat

definition reasoning_new :: "nat \<Rightarrow> reasoning_compatibility" where
  "reasoning_new limit = \<lparr>sources = [], item_id_bytes = 0, max_item_id_bytes = limit\<rparr>"

definition native_summary_events :: "str list" where
  "native_summary_events = [''response.reasoning_summary_part.added'',
     ''response.reasoning_summary_part.done'', ''response.reasoning_summary_text.delta'',
     ''response.reasoning_summary_text.done'']"

definition is_native_reasoning_summary_event :: "str \<Rightarrow> bool" where
  "is_native_reasoning_summary_event t \<longleftrightarrow> t \<in> set native_summary_events"

definition part_type :: "json \<Rightarrow> str option" where
  "part_type event = Option.bind (jget event ''part'') (\<lambda>part. str_at part ''type'')"

definition is_raw_reasoning_event :: "json \<Rightarrow> bool" where
  "is_raw_reasoning_event event \<longleftrightarrow>
     (case str_at event ''type'' of
        None \<Rightarrow> False
      | Some t \<Rightarrow>
          if t \<in> set [''response.reasoning_text.delta'', ''response.reasoning_text.done''] then True
          else if t \<in> set [''response.content_part.added'', ''response.content_part.done'']
          then part_type event = Some ''reasoning_text''
          else False)"

definition normalized_type :: "str \<Rightarrow> str option" where
  "normalized_type t =
     (if t = ''response.content_part.added'' then Some ''response.reasoning_summary_part.added''
      else if t = ''response.content_part.done'' then Some ''response.reasoning_summary_part.done''
      else if t = ''response.reasoning_text.delta'' then Some ''response.reasoning_summary_text.delta''
      else if t = ''response.reasoning_text.done'' then Some ''response.reasoning_summary_text.done''
      else None)"

definition normalize_raw_reasoning_event :: "str \<Rightarrow> json \<Rightarrow> json" where
  "normalize_raw_reasoning_event ty event =
     (case normalized_type ty of
        None \<Rightarrow> event
      | Some summary_type \<Rightarrow>
          let event = jset ''type'' (JString summary_type) event;
              content_index = unwrap_or (u64_at event ''content_index'') 0;
              event = jset ''summary_index'' (jnat content_index) event;
              event = jremove ''content_index'' event
          in jmodify ''part''
               (\<lambda>part. if str_at part ''type'' = Some ''reasoning_text''
                        then jset ''type'' (JString ''summary_text'') part else part) event)"

definition summary_of :: "json \<Rightarrow> json list" where
  "summary_of item =
     List.map_filter
       (\<lambda>part. Option.bind (str_at part ''text'')
          (\<lambda>t. Some (JObject [(''type'', JString ''summary_text''), (''text'', JString t)])))
       (filter (\<lambda>part. str_at part ''type'' = Some ''reasoning_text'')
         (unwrap_or (array_at item ''content'') []))"

definition normalize_reasoning_item :: "json \<Rightarrow> json" where
  "normalize_reasoning_item item =
     (if str_at item ''type'' \<noteq> Some ''reasoning'' then item
      else if unwrap_or (array_at item ''summary'') [] \<noteq> [] then item
      else if summary_of item = [] then item
      else jset ''content'' (JArray []) (jset ''summary'' (JArray (summary_of item)) item))"

definition record_source ::
  "str \<Rightarrow> reasoning_source \<Rightarrow> (reasoning_compatibility, protocol_error, reasoning_source option) action" where
  "record_source item_id source r =
     (case bt_get (sources r) item_id of
        Some existing \<Rightarrow> (Inr (Some existing), r)
      | None \<Rightarrow>
          (case checked_add (item_id_bytes r) (length item_id) of
             None \<Rightarrow> (Inl StreamStateLimit, r)
           | Some next_bytes \<Rightarrow>
               if 256 \<le> length (sources r) \<or> max_item_id_bytes r < next_bytes
               then (Inl StreamStateLimit, r)
               else (Inr None, r\<lparr>sources := bt_insert item_id source (sources r),
                                 item_id_bytes := next_bytes\<rparr>)))"

definition remove_source :: "str \<Rightarrow> reasoning_compatibility \<Rightarrow> reasoning_compatibility" where
  "remove_source item_id r =
     (if bt_has (sources r) item_id
      then r\<lparr>sources := bt_remove item_id (sources r),
             item_id_bytes := saturating_sub (item_id_bytes r) (length item_id)\<rparr>
      else r)"

definition record_optional ::
  "str option \<Rightarrow> reasoning_source \<Rightarrow> (reasoning_compatibility, protocol_error, reasoning_source option) action" where
  "record_optional item_id source =
     (case item_id of None \<Rightarrow> act_ok None | Some i \<Rightarrow> record_source i source)"

definition normalize_event ::
  "json \<Rightarrow> (reasoning_compatibility, protocol_error, json option) action" where
  "normalize_event event =
     (case str_at event ''type'' of
        None \<Rightarrow> act_ok None
      | Some ty \<Rightarrow>
          let item_id = str_at event ''item_id'' in
          if is_native_reasoning_summary_event ty then
            act (record_optional item_id NativeSummary)
              (\<lambda>source. act_ok (if source = Some RawAsSummary then None else Some event))
          else if is_raw_reasoning_event event then
            act (record_optional item_id RawAsSummary)
              (\<lambda>source. act_ok (if source = Some NativeSummary then None
                                else Some (normalize_raw_reasoning_event ty event)))
          else if ty = ''response.output_item.done'' then
            (let completed = Option.bind (jget event ''item'') (\<lambda>item. str_at item ''id'') in
             act (act_upd (case completed of None \<Rightarrow> (\<lambda>r. r) | Some i \<Rightarrow> remove_source i))
               (\<lambda>_. act_ok (Some (jmodify ''item'' normalize_reasoning_item event))))
          else if ty = ''response.completed'' then
            act_ok (Some (jmodify ''response'' (jmodify ''output''
              (\<lambda>out. case out of JArray items \<Rightarrow> JArray (map normalize_reasoning_item items) | _ \<Rightarrow> out)) event))
          else act_ok (Some event))"

section \<open>Decoder\<close>

record responses_core =
  rc_terminal :: bool
  rc_completed :: bool
  rc_output :: "json list"
  rc_reasoning :: reasoning_compatibility

type_synonym responses_decoder = "responses_core sse_decoder"

definition responses_decoder_new :: "nat \<Rightarrow> responses_decoder" where
  "responses_decoder_new limit =
     \<lparr>buffer = [], max_buffer_bytes = limit,
      core = \<lparr>rc_terminal = False, rc_completed = False, rc_output = [],
              rc_reasoning = reasoning_new limit\<rparr>\<rparr>"

text \<open>The flags and the output that a parsed event sets before it is normalized.\<close>

definition note_terminal :: "json \<Rightarrow> responses_core \<Rightarrow> responses_core" where
  "note_terminal value r =
     (let ty = str_at value ''type'';
          r = (case ty of
                 Some t \<Rightarrow> if t \<in> set terminal_types then r\<lparr>rc_terminal := True\<rparr> else r
               | None \<Rightarrow> r)
      in if ty = Some ''response.completed''
         then r\<lparr>rc_completed := True,
                rc_output := unwrap_or
                  (Option.bind (jget value ''response'') (\<lambda>response. array_at response ''output'')) []\<rparr>
         else r)"

definition on_reasoning ::
  "(reasoning_compatibility, 'e, 'a) action \<Rightarrow> (responses_core, 'e, 'a) action" where
  "on_reasoning m r = (case m (rc_reasoning r) of (a, q) \<Rightarrow> (a, r\<lparr>rc_reasoning := q\<rparr>))"

definition responses_parse_block ::
  "codec \<Rightarrow> str \<Rightarrow> (responses_core, protocol_error, str option) action" where
  "responses_parse_block c block =
     (let data = sse_data (replace_crlf (from_utf8_lossy block)) in
      if data = [] \<or> data = ''[DONE]'' then act_ok None
      else (case parse c data of
              Inl _ \<Rightarrow> act_err InvalidStream
            | Inr value \<Rightarrow>
                act (act_upd (note_terminal value)) (\<lambda>_.
                act (on_reasoning (normalize_event value)) (\<lambda>event.
                  case event of
                    None \<Rightarrow> act_ok None
                  | Some v \<Rightarrow> (case to_vec c v of
                                 Inl _ \<Rightarrow> act_err InvalidStream
                               | Inr printed \<Rightarrow> act_ok (Some printed))))))"

definition present :: "'a option list \<Rightarrow> 'a list" where
  "present xs = List.map_filter (\<lambda>x. x) xs"

definition responses_push ::
  "codec \<Rightarrow> str \<Rightarrow> (responses_decoder, protocol_error, str list) action" where
  "responses_push c data =
     act (sse_push StreamBufferLimit normalize_sse_newlines (responses_parse_block c) data)
       (\<lambda>events. act_ok (present events))"

definition responses_finish :: "codec \<Rightarrow> (responses_decoder, protocol_error, str list) action" where
  "responses_finish c =
     act (sse_flush (responses_parse_block c))
       (\<lambda>event. act_ok (case event of None \<Rightarrow> [] | Some e \<Rightarrow> present [e]))"

definition responses_outcome :: "responses_decoder \<Rightarrow> json list ws_http_stream_outcome" where
  "responses_outcome d =
     \<lparr>stream_terminal = rc_terminal (core d), stream_completed = rc_completed (core d),
      stream_commit = rc_output (core d)\<rparr>"

text \<open>\<open>impl WsHttpEventDecoder for SseStreamDecoder\<close>\<close>

definition responses_decoder_push ::
  "codec \<Rightarrow> str \<Rightarrow> (responses_decoder, bridge_failure, str list) action" where
  "responses_decoder_push c data = act_map_err responses_map_failure (responses_push c data)"

definition responses_decoder_finish ::
  "codec \<Rightarrow> (responses_decoder, bridge_failure, str list) action" where
  "responses_decoder_finish c = act_map_err responses_map_failure (responses_finish c)"

section \<open>Item equality\<close>

lemma same_item_refl: "json_ok v \<Longrightarrow> same_item v v"
  by (auto simp: same_item_def jeq_refl split: option.split)

interpretation item_merge: replay_merge same_item
  by unfold_locales (rule same_item_refl)

section \<open>Session lemmas\<close>

lemma serialized_len_Inr:
  "serialized_len c items = Inr n \<longleftrightarrow> (\<exists>bytes. to_vec c (JArray items) = Inr bytes \<and> n = length bytes)"
  by (auto simp: serialized_len_def)

lemma bounded_merge_Inr:
  "bounded_merge c current s = Inr merged \<longleftrightarrow>
     merged = merge_items same_item (rs_history s) current \<and> length merged \<le> 256 \<and>
     (\<exists>bytes. to_vec c (JArray merged) = Inr bytes \<and> length bytes \<le> rs_max_bytes s)"
  by (auto simp: bounded_merge_def Let_def serialized_len_Inr not_less split: if_splits)

lemma capture_fields [simp]:
  "rs_history (capture_warmup m s) = rs_history s"
  "rs_max_bytes (capture_warmup m s) = rs_max_bytes s"
  "rs_history (capture_explicit_defaults m s) = rs_history s"
  "rs_max_bytes (capture_explicit_defaults m s) = rs_max_bytes s"
  "rs_upstream_model (capture_explicit_defaults m s) = rs_upstream_model s"
  "rs_warmup_id (capture_explicit_defaults m s) = rs_warmup_id s"
  by (simp_all add: capture_warmup_def capture_explicit_defaults_def Let_def)

lemma responses_prepare_fields:
  "rs_history (snd (responses_prepare c nanos message s)) = rs_history s \<and>
   rs_max_bytes (snd (responses_prepare c nanos message s)) = rs_max_bytes s"
  by (simp add: responses_prepare_def Let_def split: sum.split)

lemma responses_commit_cases:
  obtains (committed) bytes where "responses_commit c input output s = (Inr (), s\<lparr>rs_history := input @ output\<rparr>)"
      "length (input @ output) \<le> 256" "to_vec c (JArray (input @ output)) = Inr bytes"
      "length bytes \<le> rs_max_bytes s"
  | (rejected) e where "responses_commit c input output s = (Inl e, s)"
proof (cases "serialized_len c (input @ output)")
  case (Inl e)
  then have "responses_commit c input output s = (Inl e, s)"
    by (simp add: responses_commit_def Let_def)
  then show ?thesis by (rule rejected)
next
  case (Inr n)
  then obtain bytes where bytes: "to_vec c (JArray (input @ output)) = Inr bytes" "n = length bytes"
    by (auto simp: serialized_len_Inr)
  show ?thesis
  proof (cases "256 < length (input @ output) \<or> rs_max_bytes s < n")
    case True
    with Inr have "responses_commit c input output s = (Inl SessionHistoryLimit, s)"
      by (auto simp: responses_commit_def Let_def)
    then show ?thesis by (rule rejected)
  next
    case False
    with Inr bytes show ?thesis
      by (intro committed) (auto simp: responses_commit_def Let_def)
  qed
qed

definition responses_within :: "codec \<Rightarrow> responses_session \<Rightarrow> json list \<Rightarrow> bool" where
  "responses_within c s = history_within c (rs_max_bytes s)"

lemma responses_action_snd:
  "snd (responses_prepare_action c nanos message s) = snd (responses_prepare c nanos message s)"
  by (cases "responses_prepare c nanos message s"; cases "fst (responses_prepare c nanos message s)")
    (simp_all add: responses_prepare_action_def act_apply act_map_err_def)

interpretation responses_bridge: bridge_session
    "responses_prepare_action c nanos" "responses_commit_outcome c" rs_history "responses_within c"
  for c nanos
proof unfold_locales
  fix p m s
  show "responses_within c (snd (responses_commit_outcome c p m s)) = responses_within c s"
    using responses_commit_cases [of c p m s]
    by cases (simp_all add: responses_commit_outcome_def responses_within_def)
  show "fst (responses_commit_outcome c p m s) = Inr () \<Longrightarrow>
      responses_within c s (rs_history (snd (responses_commit_outcome c p m s)))"
    using responses_commit_cases [of c p m s]
    by cases (auto simp: responses_commit_outcome_def responses_within_def history_within_def)
  show "snd (responses_commit_outcome c p m s) = s" if "fst (responses_commit_outcome c p m s) = Inl e" for e
    using responses_commit_cases [of c p m s] that
    by cases (simp_all add: responses_commit_outcome_def)
qed (simp_all add: responses_action_snd responses_prepare_fields responses_within_def)

section \<open>Reasoning lemmas\<close>

definition reasoning_ok :: "reasoning_compatibility \<Rightarrow> bool" where
  "reasoning_ok r \<longleftrightarrow>
     bt_ok (sources r) \<and> length (sources r) \<le> 256 \<and>
     item_id_bytes r = bt_sum (\<lambda>i _. length i) (sources r) \<and> item_id_bytes r \<le> max_item_id_bytes r"

lemma reasoning_ok_new [simp]: "reasoning_ok (reasoning_new limit)"
  by (simp add: reasoning_ok_def reasoning_new_def)

lemma record_source_cases:
  obtains (known) k where "bt_get (sources r) i = Some k" "record_source i source r = (Inr (Some k), r)"
  | (new) "bt_get (sources r) i = None" "length (sources r) < 256"
      "item_id_bytes r + length i \<le> max_item_id_bytes r"
      "record_source i source r = (Inr None, r\<lparr>sources := bt_insert i source (sources r),
         item_id_bytes := item_id_bytes r + length i\<rparr>)"
  | (limit) "bt_get (sources r) i = None" "record_source i source r = (Inl StreamStateLimit, r)"
proof (cases "bt_get (sources r) i")
  case (Some k)
  then show ?thesis by (intro known) (simp_all add: record_source_def)
next
  case None
  show ?thesis
  proof (cases "item_id_bytes r + length i \<le> usize_max \<and> length (sources r) < 256 \<and>
      item_id_bytes r + length i \<le> max_item_id_bytes r")
    case True
    with None show ?thesis by (intro new) (simp_all add: record_source_def checked_add_def)
  next
    case False
    with None show ?thesis by (intro limit) (auto simp: record_source_def checked_add_def)
  qed
qed

lemma keeps_record_source [keeps_intros]: "keeps reasoning_ok (record_source i source)"
proof (rule keepsI)
  fix r
  assume ok: "reasoning_ok r"
  show "reasoning_ok (snd (record_source i source r))"
    using record_source_cases [of r i source]
    by cases (use ok in \<open>simp_all add: reasoning_ok_def length_bt_insert bt_sum_insert_new\<close>)
qed

lemma reasoning_ok_remove: "reasoning_ok r \<Longrightarrow> reasoning_ok (remove_source i r)"
proof (cases "bt_get (sources r) i")
  case (Some k)
  assume ok: "reasoning_ok r"
  have "bt_sum (\<lambda>i _. length i) (bt_remove i (sources r)) + length i = bt_sum (\<lambda>i _. length i) (sources r)"
    using bt_sum_remove [OF _ Some, of "\<lambda>i _. length i"] ok by (simp add: reasoning_ok_def)
  then have "bt_sum (\<lambda>i _. length i) (sources r) - length i =
      bt_sum (\<lambda>i _. length i) (bt_remove i (sources r))" by simp
  with ok Some length_bt_remove [of i "sources r"] show ?thesis
    by (auto simp: remove_source_def reasoning_ok_def bt_has_def saturating_sub_def)
qed (simp add: remove_source_def bt_has_def)

lemma keeps_record_optional [keeps_intros]: "keeps reasoning_ok (record_optional i source)"
  unfolding record_optional_def by (intro keeps_intros)

lemma keeps_normalize_event [keeps_intros]: "keeps reasoning_ok (normalize_event event)"
  unfolding normalize_event_def Let_def
  by (intro keeps_intros keeps_upd) (simp_all add: reasoning_ok_remove split: option.split)

section \<open>Decoder lemmas\<close>

lemma keeps_on_reasoning:
  "keeps P m \<Longrightarrow> keeps (\<lambda>r. P (rc_reasoning r)) (on_reasoning m)"
  using keepsD [of P m] by (fastforce simp: keeps_def on_reasoning_def split: prod.split)

lemma note_terminal_reasoning [simp]: "rc_reasoning (note_terminal v r) = rc_reasoning r"
  by (simp add: note_terminal_def Let_def split: option.split)

lemma keeps_responses_parse_block:
  "keeps (\<lambda>r. reasoning_ok (rc_reasoning r)) (responses_parse_block c block)"
proof -
  have printed: "keeps P (case to_vec c v of Inl _ \<Rightarrow> act_err InvalidStream | Inr printed \<Rightarrow> act_ok (Some printed))"
    for P :: "responses_core \<Rightarrow> bool" and v
    by (cases "to_vec c v") (simp_all add: keeps_intros)
  have parsed: "keeps (\<lambda>r. reasoning_ok (rc_reasoning r)) (act (act_upd (note_terminal w)) (\<lambda>_.
      act (on_reasoning (normalize_event w)) (\<lambda>event.
        case event of None \<Rightarrow> act_ok None
        | Some v \<Rightarrow> (case to_vec c v of Inl _ \<Rightarrow> act_err InvalidStream | Inr printed \<Rightarrow> act_ok (Some printed)))))"
    for w
    by (intro keeps_act keeps_upd keeps_on_reasoning keeps_normalize_event keeps_option keeps_ok printed) simp
  show ?thesis
    unfolding responses_parse_block_def Let_def
    by (cases "parse c (sse_data (replace_crlf (from_utf8_lossy block)))")
      (simp_all add: parsed keeps_ok keeps_err)
qed

lemma present_append [simp]: "present (xs @ ys) = present xs @ present ys"
  by (simp add: present_def List.map_filter_def)

lemma act_map_outputs:
  fixes f :: "'a list \<Rightarrow> 'b list" and m n k :: "('s, 'e, 'a list) action"
  assumes "\<And>xs ys. f (xs @ ys) = f xs @ f ys"
    and "fst (act m (\<lambda>as. act n (\<lambda>bs. act_ok (as @ bs))) d) = fst (k d)"
    and "\<forall>out. fst (k d) = Inr out \<longrightarrow> snd (act m (\<lambda>as. act n (\<lambda>bs. act_ok (as @ bs))) d) = snd (k d)"
  shows "fst (act (act m (\<lambda>x. act_ok (f x))) (\<lambda>as. act (act n (\<lambda>x. act_ok (f x))) (\<lambda>bs. act_ok (as @ bs))) d) =
      fst (act k (\<lambda>x. act_ok (f x)) d) \<and>
    (\<forall>out. fst (act k (\<lambda>x. act_ok (f x)) d) = Inr out \<longrightarrow>
      snd (act (act m (\<lambda>x. act_ok (f x))) (\<lambda>as. act (act n (\<lambda>x. act_ok (f x))) (\<lambda>bs. act_ok (as @ bs))) d) =
      snd (act k (\<lambda>x. act_ok (f x)) d))"
proof (cases "m d")
  case (Pair r d')
  show ?thesis
  proof (cases r)
    case (Inl e)
    with Pair assms show ?thesis by (cases "k d"; cases "fst (k d)") (auto simp: act_apply)
  next
    case (Inr out)
    show ?thesis
    proof (cases "n d'")
      case second: (Pair r2 d'')
      with Pair Inr assms show ?thesis
        by (cases r2; cases "k d"; cases "fst (k d)") (auto simp: act_apply)
    qed
  qed
qed

lemma responses_push_apply:
  "snd (responses_push c data d) =
     snd (sse_push StreamBufferLimit normalize_sse_newlines (responses_parse_block c) data d)"
  "responses_push c data d = (Inr out, d') \<Longrightarrow>
     \<exists>as. sse_push StreamBufferLimit normalize_sse_newlines (responses_parse_block c) data d = (Inr as, d')"
  by (cases "sse_push StreamBufferLimit normalize_sse_newlines (responses_parse_block c) data d";
      cases "fst (sse_push StreamBufferLimit normalize_sse_newlines (responses_parse_block c) data d)";
      simp add: responses_push_def act_apply)+

definition responses_decoder_ok :: "responses_decoder \<Rightarrow> bool" where
  "responses_decoder_ok d \<longleftrightarrow> buffer_ok d \<and> reasoning_ok (rc_reasoning (core d))"

lemma responses_push_ok:
  assumes "responses_decoder_ok d"
  shows "responses_decoder_ok (snd (responses_push c data d))"
proof -
  have "reasoning_ok (rc_reasoning (core (snd (sse_push StreamBufferLimit normalize_sse_newlines
      (responses_parse_block c) data d))))"
    using drain_blocks_keeps [where P = "\<lambda>r. reasoning_ok (rc_reasoning r)"
          and pb = "responses_parse_block c" and c = "core d" and buf = "normalize_sse_newlines (buffer d @ data)",
        OF keeps_responses_parse_block] assms
    by (auto simp: sse_push_def responses_decoder_ok_def split: prod.split)
  with assms sse_push_buffer_ok [of d normalize_sse_newlines] show ?thesis
    by (simp add: responses_decoder_ok_def responses_push_apply normalize_sse_newlines_eq)
qed

lemma responses_finish_ok:
  assumes "responses_decoder_ok d"
  shows "responses_decoder_ok (snd (responses_finish c d))"
proof -
  have snd: "snd (responses_finish c d) = snd (sse_flush (responses_parse_block c) d)"
    by (cases "sse_flush (responses_parse_block c) d"; cases "fst (sse_flush (responses_parse_block c) d)")
      (simp_all add: responses_finish_def act_apply)
  have "reasoning_ok (rc_reasoning (snd (responses_parse_block c (buffer d) (core d))))"
    using keepsD [OF keeps_responses_parse_block, of "core d" c "buffer d"] assms
    by (simp add: responses_decoder_ok_def)
  then have "reasoning_ok (rc_reasoning (core (snd (sse_flush (responses_parse_block c) d))))"
    using assms by (auto simp: sse_flush_def responses_decoder_ok_def split: prod.split sum.split)
  with assms sse_flush_buffer_ok [of d "responses_parse_block c"] show ?thesis
    by (simp add: responses_decoder_ok_def snd)
qed

interpretation responses_stream: event_decoder
    "responses_decoder_push c" "responses_decoder_finish c" responses_decoder_ok fits
  for c
proof unfold_locales
  fix d :: responses_decoder and s t data
  assume ok: "responses_decoder_ok d"
  show "responses_decoder_ok (snd (responses_decoder_push c data d))"
    using responses_push_ok [OF ok] by (simp add: responses_decoder_push_def)
  show "responses_decoder_ok (snd (responses_decoder_finish c d))"
    using responses_finish_ok [OF ok] by (simp add: responses_decoder_finish_def)
  have buffer: "buffer_ok d" using ok by (simp add: responses_decoder_ok_def)
  assume room: "fits d (s @ t)"
  show "fits d' t" if "responses_decoder_push c s d = (Inr out, d')" for out d'
  proof -
    from that have "responses_push c s d = (Inr out, d')"
      by (simp add: responses_decoder_push_def act_map_err_def split: prod.splits)
    from responses_push_apply(2) [OF this] obtain as where
      "sse_push StreamBufferLimit normalize_sse_newlines (responses_parse_block c) s d = (Inr as, d')" ..
    then show ?thesis
      by (rule sse_push_room [OF buffer room normalize_sse_newlines_eq])
  qed
  assume cut: "\<not> splits_crlf s t"
  let ?two = "\<lambda>push. act (push s) (\<lambda>out. act (push t) (\<lambda>rest. act_ok (out @ rest)))"
  have "fst (?two (responses_push c) d) = fst (responses_push c (s @ t) d) \<and>
      (\<forall>out. fst (responses_push c (s @ t) d) = Inr out \<longrightarrow>
         snd (?two (responses_push c) d) = snd (responses_push c (s @ t) d))"
    unfolding responses_push_def
    using sse_push_two [OF buffer cut room normalize_sse_newlines_eq, of StreamBufferLimit "responses_parse_block c"]
    by (intro act_map_outputs) simp_all
  then show "fst (?two (responses_decoder_push c) d) = fst (responses_decoder_push c (s @ t) d) \<and>
      (\<forall>out. fst (responses_decoder_push c (s @ t) d) = Inr out \<longrightarrow>
         snd (?two (responses_decoder_push c) d) = snd (responses_decoder_push c (s @ t) d))"
    unfolding responses_decoder_push_def
    using act_map_err_two [of responses_map_failure "responses_push c s" "responses_push c t" d] by simp
qed

section \<open>The forwarded request\<close>

lemma map_get_forwarded:
  "map_ok m \<Longrightarrow> map_get (forwarded_fields up m) k =
     (if k = ''stream'' then Some (JBool True) else if k = ''model'' then Some (JString up)
      else if k = ''generate'' \<or> k = ''type'' then None else map_get m k)"
  by (simp add: forwarded_fields_def)

lemma map_ok_forwarded [simp]: "map_ok m \<Longrightarrow> map_ok (forwarded_fields up m)"
  by (simp add: forwarded_fields_def)

lemma distinct_warmup_entries [simp]: "distinct (map fst (warmup_entries w))"
  by (simp add: warmup_entries_def)

lemma warmup_entries_other [simp]:
  "k \<notin> {''instructions'', ''tools'', ''parallel_tool_calls'', ''tool_choice''} \<Longrightarrow>
   map_of (warmup_entries w) k = None"
  by (auto simp: warmup_entries_def)

lemma parse_response_create_Inr:
  "parse_response_create c message = Inr create \<Longrightarrow> parse c message = Inr (JObject create)"
  by (auto simp: parse_response_create_def split: if_splits)

definition default_of :: "responses_session \<Rightarrow> str \<Rightarrow> json option" where
  "default_of s k = Option.bind (map_of (warmup_entries (rs_warmup s)) k) (\<lambda>v. v)"

definition current_items :: "jmap \<Rightarrow> json list" where
  "current_items create = take_input_items (map_get create ''input'')"

definition previous_response :: "jmap \<Rightarrow> str option" where
  "previous_response create = Option.bind (map_get create ''previous_response_id'') as_str"

text \<open>The fields of a forwarded request, read off the command.\<close>

definition forwards :: "responses_session \<Rightarrow> jmap \<Rightarrow> json list \<Rightarrow> jmap \<Rightarrow> bool" where
  "forwards s create input request \<longleftrightarrow>
     map_get request ''model'' = Some (JString (rs_upstream_model s)) \<and>
     map_get request ''stream'' = Some (JBool True) \<and>
     map_get request ''input'' = Some (JArray input) \<and>
     map_get request ''type'' = None \<and> map_get request ''generate'' = None \<and>
     map_get request ''previous_response_id'' =
       (if replays s (previous_response create) (current_items create) \<or>
           previous_response create \<noteq> None \<and> previous_response create = rs_warmup_id s
        then None else map_get create ''previous_response_id'') \<and>
     (\<forall>k. k \<notin> {''model'', ''stream'', ''input'', ''type'', ''generate'', ''previous_response_id''} \<longrightarrow>
        map_get request k = (case map_get create k of Some v \<Rightarrow> Some v | None \<Rightarrow> default_of s k))"

lemma forwards_previous:
  assumes "forwards s create input request"
  shows "map_get request ''model'' = Some (JString (rs_upstream_model s))"
    and "previous_response create \<noteq> None \<Longrightarrow> rs_history s \<noteq> [] \<or> previous_response create = rs_warmup_id s \<Longrightarrow>
      map_get request ''previous_response_id'' = None"
  using assms unfolding forwards_def replays_def by auto

lemma responses_prepare_cases:
  assumes "responses_prepare c nanos message s = (Inr (BridgeRequest body input), s')"
    and ok: "\<And>v. parse c message = Inr v \<Longrightarrow> json_ok v"
  shows "\<exists>create request. parse c message = Inr (JObject create) \<and>
    to_vec c (JObject request) = Inr body \<and> length body \<le> rs_max_bytes s \<and>
    rs_warmup s' = rs_warmup (capture_explicit_defaults create s) \<and>
    forwards (capture_explicit_defaults create s) create input request \<and>
    (if replays s (previous_response create) (current_items create)
     then bounded_merge c (current_items create) (capture_explicit_defaults create s) = Inr input
     else input = current_items create)"
proof -
  from assms(1) obtain create where create: "parse_response_create c message = Inr create"
    and generate: "Option.bind (map_get create ''generate'') as_bool \<noteq> Some False"
    by (auto simp: responses_prepare_def Let_def split: sum.splits if_splits)
  let ?s = "capture_explicit_defaults create s"
  let ?base = "apply_warmup_defaults ?s create"
  let ?fields = "forwarded_fields (rs_upstream_model s) ?base"
  have parsed: "parse c message = Inr (JObject create)" using create by (rule parse_response_create_Inr)
  then have map_ok: "map_ok create" using ok by fastforce
  then have base_ok: "map_ok ?base" by (simp add: apply_warmup_defaults_def)
  have base: "map_get ?base k = (case map_get create k of Some v \<Rightarrow> Some v | None \<Rightarrow> default_of ?s k)" for k
    by (simp add: apply_warmup_defaults_def map_get_insert_defaults default_of_def split: option.split)
  have same: "map_get ?fields ''input'' = map_get create ''input''"
      "map_get ?fields ''previous_response_id'' = map_get create ''previous_response_id''"
    using base_ok by (simp_all add: map_get_forwarded base default_of_def split: option.split)
  have read: "previous_response ?fields = previous_response create"
      "current_items ?fields = current_items create"
    by (simp_all add: previous_response_def current_items_def same)
  let ?replay = "replays s (previous_response create) (current_items create)"
  let ?drop = "previous_response create \<noteq> None \<and> previous_response create = rs_warmup_id s \<or> ?replay"
  let ?without = "map_remove ''input'' ?fields"
  let ?request = "map_insert ''input'' (JArray input)
    (if ?drop then map_remove ''previous_response_id'' ?without else ?without)"
  have replay: "replays ?s p items = replays s p items" for p items by (simp add: replays_def)
  note unfolded = responses_prepare_def Let_def same previous_response_def [symmetric]
    current_items_def [symmetric] read replay
  from assms(1) create generate
  have result: "(if ?replay then bounded_merge c (current_items create) ?s else Inr (current_items create)) = Inr input"
    and body: "to_vec c (JObject ?request) = Inr body" "length body \<le> rs_max_bytes s"
    and s': "s' = ?s\<lparr>rs_warmup_id := None\<rparr>"
    by (auto simp: unfolded not_less split: sum.splits if_splits)
  have "forwards ?s create input ?request"
    using base_ok by (auto simp: forwards_def replay map_get_forwarded same base)
  with parsed result body s' show ?thesis
    by (intro exI [where x = create] exI [where x = ?request]) (auto split: if_splits)
qed

lemma responses_run_max:
  "rs_max_bytes (session_run (responses_prepare_action c nanos) (responses_commit_outcome c) commands s) =
   rs_max_bytes s"
  unfolding session_run_def
proof (induction commands arbitrary: s)
  case (Cons command commands)
  have "rs_max_bytes (session_command_step (responses_prepare_action c nanos) (responses_commit_outcome c)
      command s) = rs_max_bytes s"
  proof (cases command)
    case (Commit p m)
    show ?thesis
      using responses_commit_cases [of c p m s]
      by cases (simp_all add: Commit responses_commit_outcome_def)
  qed (simp add: responses_action_snd responses_prepare_fields)
  with Cons.IH show ?case by simp
qed simp

end
