(* ===== verification/OutputEmitter.thy ===== *)
theory OutputEmitter
  imports Json
begin

text \<open>
  \<open>provider-x-protocol/src/output.rs\<close>: the emitter that turns the decoded events of an
  upstream stream into Responses events and keeps the aggregate from which the final
  response and the assistant message are built.

  The wall clock read by \<open>random_id\<close> is the parameter \<open>nanos\<close>. The sums of
  \<open>tool_output_index\<close> wrap at 64 bits, as they do in the release profile.

  The lemmas show that the bytes counted against the limit are exactly the bytes retained,
  on every path; that the aggregate is the concatenation of the deltas; that a terminal
  emitter accepts nothing more; and that the items announced as done are the items of the
  final response when nothing is said after the stop reason.
\<close>

section \<open>State\<close>

definition max_stream_tool_calls :: nat where
  "max_stream_tool_calls = 256"

datatype output_error = OutputInvalidStream | OutputStateLimit

datatype stream_event =
    Start str
  | Usage u64 u64
  | Text str
  | Reasoning str
  | Tool u64 "str option" "str option" "str option"
  | Stop str
  | Done

record tool_identity =
  identity_name :: str
  identity_namespace :: "str option"

record tool_call_state =
  call_id :: str
  call_name :: str
  call_arguments :: str
  call_added :: bool

definition tool_call_default :: tool_call_state where
  "tool_call_default = \<lparr>call_id = [], call_name = [], call_arguments = [], call_added = False\<rparr>"

record output_emitter =
  pending :: "str list"
  max_aggregate_bytes :: nat
  aggregate_bytes :: nat
  response_id :: "str option"
  reasoning_id :: str
  message_id :: str
  reasoning_buf :: str
  text_buf :: str
  tool_calls :: "(u64, tool_call_state) btree"
  tool_names :: "(str, tool_identity) btree"
  reasoning_started :: bool
  text_started :: bool
  finish_reason :: "str option"
  usage :: "json option"
  usage_bytes :: nat
  out_terminal :: bool
  out_completed :: bool

record output_outcome =
  outcome_terminal :: bool
  outcome_completed :: bool
  assistant_message :: json

definition random_id :: "nat \<Rightarrow> str" where
  "random_id nanos = dec_string nanos"

definition with_tool_names :: "nat \<Rightarrow> nat \<Rightarrow> (str, tool_identity) btree \<Rightarrow> output_emitter" where
  "with_tool_names nanos max_buffer_bytes names =
     (let seed = random_id nanos in
      \<lparr>pending = [], max_aggregate_bytes = max_buffer_bytes, aggregate_bytes = 0,
       response_id = None, reasoning_id = ''rs_'' @ seed, message_id = ''msg_'' @ seed,
       reasoning_buf = [], text_buf = [], tool_calls = [], tool_names = names,
       reasoning_started = False, text_started = False, finish_reason = None,
       usage = None, usage_bytes = 0, out_terminal = False, out_completed = False\<rparr>)"

definition emitter_new :: "nat \<Rightarrow> nat \<Rightarrow> output_emitter" where
  "emitter_new nanos max_buffer_bytes = with_tool_names nanos max_buffer_bytes []"

type_synonym 'a emitter_action = "(output_emitter, output_error, 'a) action"

section \<open>Accounting\<close>

definition reserve_aggregate_bytes :: "nat \<Rightarrow> unit emitter_action" where
  "reserve_aggregate_bytes additional e =
     (case checked_add (aggregate_bytes e) additional of
        None \<Rightarrow> (Inl OutputStateLimit, e)
      | Some next_bytes \<Rightarrow>
          if max_aggregate_bytes e < next_bytes then (Inl OutputStateLimit, e)
          else (Inr (), e\<lparr>aggregate_bytes := next_bytes\<rparr>))"

definition resize_aggregate_bytes :: "nat \<Rightarrow> nat \<Rightarrow> unit emitter_action" where
  "resize_aggregate_bytes previous next_size e =
     (case checked_add (saturating_sub (aggregate_bytes e) previous) next_size of
        None \<Rightarrow> (Inl OutputStateLimit, e)
      | Some resized \<Rightarrow>
          if max_aggregate_bytes e < resized then (Inl OutputStateLimit, e)
          else (Inr (), e\<lparr>aggregate_bytes := resized\<rparr>))"

section \<open>Events\<close>

abbreviation event_type :: "str \<Rightarrow> str \<times> json" where
  "event_type s \<equiv> (''type'', JString s)"

definition emit :: "codec \<Rightarrow> json \<Rightarrow> output_emitter \<Rightarrow> output_emitter" where
  "emit c event e = e\<lparr>pending := pending e @ [display c event]\<rparr>"

definition emit_all :: "codec \<Rightarrow> json list \<Rightarrow> output_emitter \<Rightarrow> output_emitter" where
  "emit_all c events e = fold (emit c) events e"

definition message_output_index :: "output_emitter \<Rightarrow> u64" where
  "message_output_index e = of_bool (reasoning_started e)"

definition tool_output_index :: "u64 \<Rightarrow> output_emitter \<Rightarrow> u64" where
  "tool_output_index tool_index e =
     of_bool (reasoning_started e) + of_bool (text_started e) + tool_index"

definition tool_identity_of :: "output_emitter \<Rightarrow> str \<Rightarrow> tool_identity" where
  "tool_identity_of e chat_name =
     (case bt_get (tool_names e) chat_name of
        Some identity \<Rightarrow> identity
      | None \<Rightarrow> \<lparr>identity_name = chat_name, identity_namespace = None\<rparr>)"

definition start_reasoning :: "codec \<Rightarrow> output_emitter \<Rightarrow> output_emitter" where
  "start_reasoning c e =
     (if reasoning_started e then e
      else emit_all c
        [JObject [event_type ''response.output_item.added'', (''output_index'', jnat 0),
           (''item'', JObject [event_type ''reasoning'', (''id'', JString (reasoning_id e)),
              (''summary'', JArray [])])],
         JObject [event_type ''response.reasoning_summary_part.added'',
           (''item_id'', JString (reasoning_id e)), (''output_index'', jnat 0),
           (''summary_index'', jnat 0),
           (''part'', JObject [event_type ''summary_text'', (''text'', JString '''')])]]
        (e\<lparr>reasoning_started := True\<rparr>))"

definition start_text :: "codec \<Rightarrow> output_emitter \<Rightarrow> output_emitter" where
  "start_text c e =
     (if text_started e then e
      else let index = message_output_index e in emit_all c
        [JObject [event_type ''response.output_item.added'', (''output_index'', jnat index),
           (''item'', JObject [event_type ''message'', (''id'', JString (message_id e)),
              (''role'', JString ''assistant''), (''content'', JArray [])])],
         JObject [event_type ''response.content_part.added'',
           (''item_id'', JString (message_id e)), (''output_index'', jnat index),
           (''content_index'', jnat 0),
           (''part'', JObject [event_type ''output_text'', (''text'', JString ''''),
              (''annotations'', JArray [])])]]
        (e\<lparr>text_started := True\<rparr>))"

section \<open>Tool calls\<close>

definition opt_len :: "str option \<Rightarrow> nat" where
  "opt_len x = (case x of None \<Rightarrow> 0 | Some s \<Rightarrow> length s)"

text \<open>The state of a call after a delta, and whether its item is now to be announced.\<close>

definition update_tool_call ::
  "str option \<Rightarrow> str option \<Rightarrow> str option \<Rightarrow> tool_call_state \<Rightarrow> tool_call_state" where
  "update_tool_call id_delta name arguments state =
     (let state = (case id_delta of None \<Rightarrow> state | Some i \<Rightarrow> state\<lparr>call_id := i\<rparr>);
          state = (case name of None \<Rightarrow> state | Some n \<Rightarrow> state\<lparr>call_name := call_name state @ n\<rparr>);
          state = (case arguments of None \<Rightarrow> state
                   | Some a \<Rightarrow> state\<lparr>call_arguments := call_arguments state @ a\<rparr>)
      in if \<not> call_added state \<and> call_id state \<noteq> [] \<and> call_name state \<noteq> []
         then state\<lparr>call_added := True\<rparr> else state)"

definition function_call_item ::
  "output_emitter \<Rightarrow> str \<Rightarrow> str \<Rightarrow> str \<Rightarrow> str \<Rightarrow> json" where
  "function_call_item e call name arguments status =
     (let identity = tool_identity_of e name in
      JObject [event_type ''function_call'', (''id'', JString (''fc_'' @ call)),
        (''call_id'', JString call), (''name'', JString (identity_name identity)),
        (''namespace'', opt_string (identity_namespace identity)),
        (''arguments'', JString arguments), (''status'', JString status)])"

definition apply_tool_delta :: "codec \<Rightarrow> json \<Rightarrow> unit emitter_action" where
  "apply_tool_delta c call e =
     (case u64_at call ''index'' of
        None \<Rightarrow> (Inl OutputInvalidStream, e)
      | Some index \<Rightarrow>
          let new_tool = \<not> bt_has (tool_calls e) index;
              id_delta = str_at call ''id'';
              function = jget call ''function'';
              name = Option.bind function (\<lambda>f. str_at f ''name'');
              arguments = Option.bind function (\<lambda>f. str_at f ''arguments'');
              previous_id_bytes =
                (case bt_get (tool_calls e) index of None \<Rightarrow> 0 | Some state \<Rightarrow> length (call_id state));
              next_id_bytes = (case id_delta of None \<Rightarrow> previous_id_bytes | Some i \<Rightarrow> length i);
              next_aggregate_bytes =
                Option.bind (Option.bind
                  (checked_add (saturating_sub (aggregate_bytes e) previous_id_bytes) next_id_bytes)
                  (\<lambda>bytes. checked_add bytes (opt_len name)))
                  (\<lambda>bytes. checked_add bytes (opt_len arguments))
          in if new_tool \<and> max_stream_tool_calls \<le> length (tool_calls e)
             then (Inl OutputStateLimit, e)
             else (case next_aggregate_bytes of
                     None \<Rightarrow> (Inl OutputStateLimit, e)
                   | Some bytes \<Rightarrow>
                       if max_aggregate_bytes e < bytes then (Inl OutputStateLimit, e)
                       else
                         let before = (case bt_get (tool_calls e) index of
                                         None \<Rightarrow> tool_call_default | Some state \<Rightarrow> state);
                             state = update_tool_call id_delta name arguments before;
                             e = e\<lparr>tool_calls := bt_insert index state (tool_calls e),
                                   aggregate_bytes := bytes\<rparr>;
                             output_index = tool_output_index index e;
                             e = (if call_added state \<and> \<not> call_added before then
                                    emit c (JObject [event_type ''response.output_item.added'',
                                      (''output_index'', jnat output_index),
                                      (''item'', function_call_item e (call_id state) (call_name state)
                                                   '''' ''in_progress'')]) e
                                  else e);
                             e = (case arguments of None \<Rightarrow> e
                                  | Some delta \<Rightarrow>
                                      emit c (JObject [event_type ''response.function_call_arguments.delta'',
                                        (''item_id'', JString (''fc_'' @ call_id state)),
                                        (''output_index'', jnat output_index),
                                        (''delta'', JString delta)]) e)
                         in (Inr (), e)))"

section \<open>Finishing\<close>

definition summary_part :: "str \<Rightarrow> json" where
  "summary_part t = JObject [event_type ''summary_text'', (''text'', JString t)]"

definition output_text_part :: "str \<Rightarrow> json" where
  "output_text_part t =
     JObject [event_type ''output_text'', (''text'', JString t), (''annotations'', JArray [])]"

definition reasoning_item :: "output_emitter \<Rightarrow> json" where
  "reasoning_item e = JObject [event_type ''reasoning'', (''id'', JString (reasoning_id e)),
     (''summary'', JArray [summary_part (reasoning_buf e)])]"

definition message_item :: "output_emitter \<Rightarrow> json" where
  "message_item e = JObject [event_type ''message'', (''id'', JString (message_id e)),
     (''role'', JString ''assistant''), (''status'', JString ''completed''),
     (''content'', JArray [output_text_part (text_buf e)])]"

definition tool_item :: "output_emitter \<Rightarrow> tool_call_state \<Rightarrow> json" where
  "tool_item e t = function_call_item e (call_id t) (call_name t) (call_arguments t) ''completed''"

text \<open>The events \<open>finish_items\<close> emits, in its order.\<close>

definition finish_reasoning_events :: "output_emitter \<Rightarrow> json list" where
  "finish_reasoning_events e =
     (if reasoning_started e then
        [JObject [event_type ''response.reasoning_summary_text.done'',
           (''item_id'', JString (reasoning_id e)), (''output_index'', jnat 0),
           (''summary_index'', jnat 0), (''text'', JString (reasoning_buf e))],
         JObject [event_type ''response.reasoning_summary_part.done'',
           (''item_id'', JString (reasoning_id e)), (''output_index'', jnat 0),
           (''summary_index'', jnat 0), (''part'', summary_part (reasoning_buf e))],
         JObject [event_type ''response.output_item.done'', (''output_index'', jnat 0),
           (''item'', reasoning_item e)]]
      else [])"

definition finish_text_events :: "output_emitter \<Rightarrow> json list" where
  "finish_text_events e =
     (if text_started e then
        (let index = message_output_index e in
        [JObject [event_type ''response.output_text.done'',
           (''item_id'', JString (message_id e)), (''output_index'', jnat index),
           (''content_index'', jnat 0), (''text'', JString (text_buf e))],
         JObject [event_type ''response.content_part.done'',
           (''item_id'', JString (message_id e)), (''output_index'', jnat index),
           (''content_index'', jnat 0), (''part'', output_text_part (text_buf e))],
         JObject [event_type ''response.output_item.done'', (''output_index'', jnat index),
           (''item'', message_item e)]])
      else [])"

definition finish_tool_events :: "output_emitter \<Rightarrow> u64 \<times> tool_call_state \<Rightarrow> json list" where
  "finish_tool_events e entry =
     (case entry of (index, t) \<Rightarrow>
        [JObject [event_type ''response.function_call_arguments.done'',
           (''item_id'', JString (''fc_'' @ call_id t)),
           (''output_index'', jnat (tool_output_index index e)),
           (''arguments'', JString (call_arguments t))],
         JObject [event_type ''response.output_item.done'',
           (''output_index'', jnat (tool_output_index index e)), (''item'', tool_item e t)]])"

definition finish_events :: "output_emitter \<Rightarrow> json list" where
  "finish_events e = finish_reasoning_events e @ finish_text_events e @
     concat (map (finish_tool_events e) (tool_calls e))"

definition finish_items :: "codec \<Rightarrow> output_emitter \<Rightarrow> output_emitter" where
  "finish_items c e = emit_all c (finish_events e) e"

definition response_output :: "output_emitter \<Rightarrow> json list" where
  "response_output e =
     (if reasoning_started e then [reasoning_item e] else []) @
     (if text_started e then [message_item e] else []) @
     map (tool_item e) (bt_values (tool_calls e))"

definition response_usage :: "json option \<Rightarrow> json" where
  "response_usage u =
     (let input = unwrap_or (Option.bind u (\<lambda>u. u64_at u ''input_tokens'')) 0;
          out = unwrap_or (Option.bind u (\<lambda>u. u64_at u ''output_tokens'')) 0;
          total = unwrap_or (Option.bind u (\<lambda>u. u64_at u ''total_tokens'')) (saturating_add_u64 input out)
      in JObject [(''input_tokens'', jnat input), (''input_tokens_details'', JNull),
           (''output_tokens'', jnat out), (''output_tokens_details'', JNull),
           (''total_tokens'', jnat total)])"

definition reason_completes :: "str \<Rightarrow> bool" where
  "reason_completes reason \<longleftrightarrow> reason = ''stop'' \<or> reason = ''tool_calls''"

definition final_event :: "nat \<Rightarrow> output_emitter \<Rightarrow> json" where
  "final_event nanos e =
     (let id_string = unwrap_or (response_id e) (''chatcmpl_'' @ random_id nanos);
          output = response_output e;
          reported = response_usage (usage e);
          reason = unwrap_or (finish_reason e) ''stop'';
          (ty, status) =
            (if reason_completes reason then (''response.completed'', ''completed'')
             else if reason = ''length'' then (''response.incomplete'', ''incomplete'')
             else (''response.failed'', ''failed''))
      in JObject [event_type ty,
           (''response'', JObject [(''id'', JString id_string), (''status'', JString status),
              (''output'', JArray output), (''usage'', reported)])])"

definition finalize :: "codec \<Rightarrow> nat \<Rightarrow> output_emitter \<Rightarrow> output_emitter" where
  "finalize c nanos e =
     (if out_terminal e then e
      else
        let e = (case finish_reason e of
                   None \<Rightarrow> finish_items c (e\<lparr>finish_reason := Some ''stop''\<rparr>)
                 | Some _ \<Rightarrow> e);
            event = final_event nanos e;
            e = (if reason_completes (unwrap_or (finish_reason e) ''stop'')
                 then e\<lparr>out_completed := True\<rparr> else e)
        in (emit c event e)\<lparr>out_terminal := True\<rparr>)"

section \<open>Operations\<close>

definition usage_json :: "u64 \<Rightarrow> u64 \<Rightarrow> json" where
  "usage_json input out = JObject [(''input_tokens'', jnat input), (''output_tokens'', jnat out),
     (''total_tokens'', jnat (saturating_add_u64 input out))]"

definition tool_delta_json :: "u64 \<Rightarrow> str option \<Rightarrow> str option \<Rightarrow> str option \<Rightarrow> json" where
  "tool_delta_json index id_delta name arguments =
     JObject [(''index'', jnat index), (''id'', opt_string id_delta),
       (''function'', JObject [(''name'', opt_string name), (''arguments'', opt_string arguments)])]"

fun apply_event :: "codec \<Rightarrow> nat \<Rightarrow> stream_event \<Rightarrow> unit emitter_action" where
  "apply_event c nanos (Start s) =
     (\<lambda>e. if response_id e = None then
        act (reserve_aggregate_bytes (length s))
          (\<lambda>_. act_upd (\<lambda>e. emit c (JObject [event_type ''response.created'',
             (''response'', JObject [(''id'', JString s)])]) (e\<lparr>response_id := Some s\<rparr>))) e
      else act_ok () e)"
| "apply_event c nanos (Usage input out) =
     (\<lambda>e. let u = usage_json input out; size = length (display c u) in
        act (resize_aggregate_bytes (usage_bytes e) size)
          (\<lambda>_. act_upd (\<lambda>e. e\<lparr>usage := Some u, usage_bytes := size\<rparr>)) e)"
| "apply_event c nanos (Text t) =
     (if t = [] then act_ok () else
        act (act_upd (start_text c))
        (\<lambda>_. act (reserve_aggregate_bytes (length t))
        (\<lambda>_. act_upd (\<lambda>e. emit c (JObject [event_type ''response.output_text.delta'',
           (''item_id'', JString (message_id e)), (''output_index'', jnat (message_output_index e)),
           (''content_index'', jnat 0), (''delta'', JString t)])
           (e\<lparr>text_buf := text_buf e @ t\<rparr>)))))"
| "apply_event c nanos (Reasoning t) =
     (if t = [] then act_ok () else
        act (act_upd (start_reasoning c))
        (\<lambda>_. act (reserve_aggregate_bytes (length t))
        (\<lambda>_. act_upd (\<lambda>e. emit c (JObject [event_type ''response.reasoning_summary_text.delta'',
           (''item_id'', JString (reasoning_id e)), (''output_index'', jnat 0),
           (''summary_index'', jnat 0), (''delta'', JString t)])
           (e\<lparr>reasoning_buf := reasoning_buf e @ t\<rparr>)))))"
| "apply_event c nanos (Tool index id_delta name arguments) =
     apply_tool_delta c (tool_delta_json index id_delta name arguments)"
| "apply_event c nanos (Stop reason) =
     (\<lambda>e. if finish_reason e \<noteq> None then act_err OutputInvalidStream e
      else act (reserve_aggregate_bytes (length reason))
        (\<lambda>_. act_upd (\<lambda>e. finish_items c (e\<lparr>finish_reason := Some reason\<rparr>))) e)"
| "apply_event c nanos Done =
     (\<lambda>e. if finish_reason e = None then act_err OutputInvalidStream e
      else act_upd (finalize c nanos) e)"

definition emitter_apply :: "codec \<Rightarrow> nat \<Rightarrow> stream_event \<Rightarrow> unit emitter_action" where
  "emitter_apply c nanos event e =
     (if out_terminal e then act_err OutputInvalidStream e else apply_event c nanos event e)"

definition emitter_drain :: "output_emitter \<Rightarrow> str list \<times> output_emitter" where
  "emitter_drain e = (pending e, e\<lparr>pending := []\<rparr>)"

definition emitter_finish :: "codec \<Rightarrow> nat \<Rightarrow> output_emitter \<Rightarrow> str list \<times> output_emitter" where
  "emitter_finish c nanos e =
     emitter_drain (if \<not> out_terminal e \<and> finish_reason e \<noteq> None then finalize c nanos e else e)"

definition outcome_tool_call :: "tool_call_state \<Rightarrow> json" where
  "outcome_tool_call t = JObject [(''id'', JString (call_id t)), event_type ''function'',
     (''function'', JObject [(''name'', JString (call_name t)),
        (''arguments'', JString (call_arguments t))])]"

definition emitter_outcome :: "output_emitter \<Rightarrow> output_outcome" where
  "emitter_outcome e =
     (let calls = map outcome_tool_call (bt_values (tool_calls e));
          assistant = [(''role'', JString ''assistant''), (''content'', JString (text_buf e))];
          assistant = (if reasoning_buf e \<noteq> []
            then map_insert ''reasoning_content'' (JString (reasoning_buf e)) assistant else assistant);
          assistant = (if calls \<noteq> [] then
              (let a = map_insert ''tool_calls'' (JArray calls) assistant
               in if text_buf e = [] then map_insert ''content'' JNull a else a)
            else assistant)
      in \<lparr>outcome_terminal = out_terminal e, outcome_completed = out_completed e,
          assistant_message = JObject assistant\<rparr>)"

section \<open>Emission\<close>

lemma emit_eq: "emit c v e = e\<lparr>pending := pending e @ [display c v]\<rparr>"
  by (simp add: emit_def)

lemma emit_all_eq: "emit_all c evs e = e\<lparr>pending := pending e @ map (display c) evs\<rparr>"
proof (induction evs arbitrary: e)
  case (Cons v evs)
  have "emit_all c (v # evs) e = emit_all c evs (emit c v e)"
    by (simp add: emit_all_def)
  also have "\<dots> = e\<lparr>pending := pending e @ map (display c) (v # evs)\<rparr>"
    by (simp add: Cons.IH emit_eq)
  finally show ?case .
qed (simp add: emit_all_def)

lemmas emission = emit_all_eq emit_eq

lemma tool_delta_json_fields:
  "u64_at (tool_delta_json i d n a) ''index'' = Some i"
  "str_at (tool_delta_json i d n a) ''id'' = d"
  "Option.bind (jget (tool_delta_json i d n a) ''function'') (\<lambda>f. str_at f ''name'') = n"
  "Option.bind (jget (tool_delta_json i d n a) ''function'') (\<lambda>f. str_at f ''arguments'') = a"
  by (cases d; cases n; cases a;
      simp add: tool_delta_json_def u64_at_def str_at_def opt_string_def map_get_Cons as_str_def
        as_u64_jnat)+

section \<open>The invariant\<close>

definition tool_bytes :: "u64 \<Rightarrow> tool_call_state \<Rightarrow> nat" where
  "tool_bytes i t = length (call_id t) + length (call_name t) + length (call_arguments t)"

text \<open>The bytes of upstream text the emitter holds.\<close>

definition retained_bytes :: "output_emitter \<Rightarrow> nat" where
  "retained_bytes e = opt_len (response_id e) + length (reasoning_buf e) + length (text_buf e) +
     bt_sum tool_bytes (tool_calls e) + opt_len (finish_reason e) + usage_bytes e"

definition emitter_ok :: "output_emitter \<Rightarrow> bool" where
  "emitter_ok e \<longleftrightarrow>
     aggregate_bytes e = retained_bytes e \<and>
     aggregate_bytes e \<le> max_aggregate_bytes e \<and> max_aggregate_bytes e \<le> usize_max \<and>
     bt_ok (tool_calls e) \<and> length (tool_calls e) \<le> max_stream_tool_calls \<and>
     (out_terminal e \<longrightarrow> finish_reason e \<noteq> None) \<and>
     (out_completed e \<longleftrightarrow>
        out_terminal e \<and> (\<exists>r. finish_reason e = Some r \<and> reason_completes r)) \<and>
     (text_buf e \<noteq> [] \<longrightarrow> text_started e) \<and> (reasoning_buf e \<noteq> [] \<longrightarrow> reasoning_started e)"

lemma emitter_ok_new: "limit \<le> usize_max \<Longrightarrow> emitter_ok (with_tool_names nanos limit names)"
  by (simp add: emitter_ok_def with_tool_names_def Let_def retained_bytes_def opt_len_def)

lemma reserve_cases:
  obtains (fits) "reserve_aggregate_bytes n e = (Inr (), e\<lparr>aggregate_bytes := aggregate_bytes e + n\<rparr>)"
      "aggregate_bytes e + n \<le> max_aggregate_bytes e"
  | (limit) "reserve_aggregate_bytes n e = (Inl OutputStateLimit, e)"
  by (cases "aggregate_bytes e + n \<le> usize_max \<and> aggregate_bytes e + n \<le> max_aggregate_bytes e")
    (auto simp: reserve_aggregate_bytes_def checked_add_def)

lemma resize_cases:
  obtains (fits) "resize_aggregate_bytes p n e = (Inr (), e\<lparr>aggregate_bytes := aggregate_bytes e - p + n\<rparr>)"
      "aggregate_bytes e - p + n \<le> max_aggregate_bytes e"
  | (limit) "resize_aggregate_bytes p n e = (Inl OutputStateLimit, e)"
  by (cases "aggregate_bytes e - p + n \<le> usize_max \<and> aggregate_bytes e - p + n \<le> max_aggregate_bytes e")
    (auto simp: resize_aggregate_bytes_def checked_add_def saturating_sub_def)

definition default_call :: "u64 \<Rightarrow> output_emitter \<Rightarrow> tool_call_state" where
  "default_call i e = (case bt_get (tool_calls e) i of None \<Rightarrow> tool_call_default | Some t \<Rightarrow> t)"

definition tool_next_bytes :: "u64 \<Rightarrow> str option \<Rightarrow> str option \<Rightarrow> str option \<Rightarrow> output_emitter \<Rightarrow> nat" where
  "tool_next_bytes i d n a e =
     aggregate_bytes e - length (call_id (default_call i e)) +
     (case d of None \<Rightarrow> length (call_id (default_call i e)) | Some s \<Rightarrow> length s) + opt_len n + opt_len a"

lemma tool_delta_cases:
  obtains (fits) evs where
      "apply_tool_delta c (tool_delta_json i d n a) e =
         (Inr (), e\<lparr>tool_calls := bt_insert i (update_tool_call d n a (default_call i e)) (tool_calls e),
                    aggregate_bytes := tool_next_bytes i d n a e,
                    pending := pending e @ map (display c) evs\<rparr>)"
      "tool_next_bytes i d n a e \<le> max_aggregate_bytes e"
      "bt_has (tool_calls e) i \<or> length (tool_calls e) < max_stream_tool_calls"
  | (limit) "apply_tool_delta c (tool_delta_json i d n a) e = (Inl OutputStateLimit, e)"
proof -
  let ?R = "apply_tool_delta c (tool_delta_json i d n a) e"
  let ?state = "update_tool_call d n a (default_call i e)"
  let ?e = "e\<lparr>tool_calls := bt_insert i ?state (tool_calls e),
      aggregate_bytes := tool_next_bytes i d n a e\<rparr>"
  have previous: "(case bt_get (tool_calls e) i of None \<Rightarrow> 0 | Some state \<Rightarrow> length (call_id state)) =
      length (call_id (default_call i e))"
    by (simp add: default_call_def tool_call_default_def split: option.split)
  have "?R = (Inl OutputStateLimit, e) \<or>
      ((bt_has (tool_calls e) i \<or> length (tool_calls e) < max_stream_tool_calls) \<and>
       tool_next_bytes i d n a e \<le> max_aggregate_bytes e \<and>
       (\<exists>evs. ?R = (Inr (), ?e\<lparr>pending := pending e @ map (display c) evs\<rparr>)))"
  proof (cases "\<not> bt_has (tool_calls e) i \<and> max_stream_tool_calls \<le> length (tool_calls e)")
    case True
    then show ?thesis by (simp add: apply_tool_delta_def tool_delta_json_fields Let_def)
  next
    case room: False
    define next_bytes where "next_bytes =
      Option.bind (Option.bind
        (checked_add (saturating_sub (aggregate_bytes e) (length (call_id (default_call i e))))
          (case d of None \<Rightarrow> length (call_id (default_call i e)) | Some i \<Rightarrow> length i))
        (\<lambda>bytes. checked_add bytes (opt_len n))) (\<lambda>bytes. checked_add bytes (opt_len a))"
    define after where "after bytes = e\<lparr>tool_calls := bt_insert i ?state (tool_calls e),
      aggregate_bytes := bytes\<rparr>" for bytes
    let ?added_event = "\<lambda>bytes. JObject [event_type ''response.output_item.added'',
          (''output_index'', jnat (tool_output_index i (after bytes))),
          (''item'', function_call_item (after bytes) (call_id ?state) (call_name ?state)
             '''' ''in_progress'')]"
    let ?delta_event = "\<lambda>bytes delta. JObject [event_type ''response.function_call_arguments.delta'',
            (''item_id'', JString (''fc_'' @ call_id ?state)),
            (''output_index'', jnat (tool_output_index i (after bytes))), (''delta'', JString delta)]"
    let ?announced = "\<lambda>bytes. if call_added ?state \<and> \<not> call_added (default_call i e)
        then emit c (?added_event bytes) (after bytes) else after bytes"
    have R: "?R = (case next_bytes of None \<Rightarrow> (Inl OutputStateLimit, e)
        | Some bytes \<Rightarrow> if max_aggregate_bytes e < bytes then (Inl OutputStateLimit, e)
            else (Inr (), case a of None \<Rightarrow> ?announced bytes
                          | Some delta \<Rightarrow> emit c (?delta_event bytes delta) (?announced bytes)))"
      using room
      by (simp only: apply_tool_delta_def tool_delta_json_fields Let_def previous option.case if_False
        next_bytes_def [symmetric] default_call_def [symmetric] after_def [symmetric])
    show ?thesis
    proof (cases "\<exists>bytes. next_bytes = Some bytes \<and> bytes \<le> max_aggregate_bytes e")
      case False
      then have "?R = (Inl OutputStateLimit, e)"
        unfolding R by (cases next_bytes) (simp_all add: not_le)
      then show ?thesis ..
    next
      case True
      then obtain bytes where bytes: "next_bytes = Some bytes" "bytes \<le> max_aggregate_bytes e" by blast
      then have eq: "bytes = tool_next_bytes i d n a e"
        by (auto simp: next_bytes_def tool_next_bytes_def saturating_sub_def bind_eq_Some_conv
          split: option.splits)
      let ?evs = "(if call_added ?state \<and> \<not> call_added (default_call i e) then [?added_event bytes] else [])
        @ (case a of None \<Rightarrow> [] | Some delta \<Rightarrow> [?delta_event bytes delta])"
      have emitted: "(case a of None \<Rightarrow> ?announced bytes
             | Some delta \<Rightarrow> emit c (?delta_event bytes delta) (?announced bytes)) =
          (after bytes)\<lparr>pending := pending e @ map (display c) ?evs\<rparr>"
        by (cases a) (simp_all add: emit_eq after_def)
      have after: "after bytes = ?e" by (simp add: after_def eq)
      have "\<not> max_aggregate_bytes e < bytes" using bytes(2) by simp
      then have "?R = (Inr (), (after bytes)\<lparr>pending := pending e @ map (display c) ?evs\<rparr>)"
        unfolding R bytes(1) option.case emitted by (rule if_not_P)
      then have "?R = (Inr (), ?e\<lparr>pending := pending e @ map (display c) ?evs\<rparr>)"
        unfolding after .
      then have "\<exists>evs. ?R = (Inr (), ?e\<lparr>pending := pending e @ map (display c) evs\<rparr>)" by (rule exI [where x = ?evs])
      moreover have "bt_has (tool_calls e) i \<or> length (tool_calls e) < max_stream_tool_calls"
        using room by (simp add: not_le)
      moreover have "tool_next_bytes i d n a e \<le> max_aggregate_bytes e"
        using bytes(2) unfolding eq .
      ultimately show ?thesis by (intro disjI2 [where P = "?R = (Inl OutputStateLimit, e)"] conjI)
    qed
  qed
  then show ?thesis
  proof (elim disjE [where P = "?R = (Inl OutputStateLimit, e)"] conjE exE)
    assume "?R = (Inl OutputStateLimit, e)"
    then show ?thesis by (rule limit)
  next
    fix evs
    assume "bt_has (tool_calls e) i \<or> length (tool_calls e) < max_stream_tool_calls"
      and "tool_next_bytes i d n a e \<le> max_aggregate_bytes e"
      and "?R = (Inr (), ?e\<lparr>pending := pending e @ map (display c) evs\<rparr>)"
    then show ?thesis by (intro fits)
  qed
qed

lemma update_tool_call_fields [simp]:
  "call_id (update_tool_call d n a t) = (case d of None \<Rightarrow> call_id t | Some s \<Rightarrow> s)"
  "call_name (update_tool_call d n a t) = call_name t @ unwrap_or n []"
  "call_arguments (update_tool_call d n a t) = call_arguments t @ unwrap_or a []"
  by (simp_all add: update_tool_call_def unwrap_or_def Let_def split: option.split)

lemma tool_bytes_update:
  "tool_bytes i (update_tool_call d n a t) =
     (case d of None \<Rightarrow> length (call_id t) | Some s \<Rightarrow> length s) + length (call_name t) + opt_len n +
     length (call_arguments t) + opt_len a"
  by (cases d; cases n; cases a) (simp_all add: tool_bytes_def unwrap_or_def opt_len_def)

lemma tool_sum_update:
  assumes "bt_ok (tool_calls e)" and "bt_sum tool_bytes (tool_calls e) \<le> aggregate_bytes e"
  shows "bt_sum tool_bytes (bt_insert i (update_tool_call d n a (default_call i e)) (tool_calls e)) +
      aggregate_bytes e = bt_sum tool_bytes (tool_calls e) + tool_next_bytes i d n a e"
proof (cases "bt_get (tool_calls e) i")
  case None
  then have call: "default_call i e = tool_call_default" by (simp add: default_call_def)
  show ?thesis
    unfolding bt_sum_insert_new [OF assms(1) None] tool_bytes_update tool_next_bytes_def call
    by (cases d) (simp_all add: tool_call_default_def)
next
  case (Some t)
  then have call: "default_call i e = t" by (simp add: default_call_def)
  have old: "tool_bytes i t \<le> bt_sum tool_bytes (tool_calls e)"
    using Some by (rule bt_sum_ge)
  have "bt_sum tool_bytes (bt_insert i (update_tool_call d n a t) (tool_calls e)) + tool_bytes i t =
      bt_sum tool_bytes (tool_calls e) + tool_bytes i (update_tool_call d n a t)"
    using assms(1) Some by (rule bt_sum_insert_old)
  with old assms(2) show ?thesis
    unfolding call tool_next_bytes_def tool_bytes_update
    by (cases d) (simp_all add: tool_bytes_def)
qed

lemma emitter_ok_pending [simp]: "emitter_ok (e\<lparr>pending := p\<rparr>) = emitter_ok e"
  by (simp add: emitter_ok_def retained_bytes_def)

lemma emitter_ok_finish_items [simp]: "emitter_ok (finish_items c e) = emitter_ok e"
  by (simp add: finish_items_def emission)

lemma emitter_ok_start_text: "emitter_ok e \<Longrightarrow> emitter_ok (start_text c e)"
  by (simp add: start_text_def Let_def emission) (simp add: emitter_ok_def retained_bytes_def)

lemma emitter_ok_start_reasoning: "emitter_ok e \<Longrightarrow> emitter_ok (start_reasoning c e)"
  by (simp add: start_reasoning_def emission) (simp add: emitter_ok_def retained_bytes_def)

lemma finalize_eq:
  assumes "\<not> out_terminal e" and "finish_reason e = Some r"
  shows "finalize c nanos e =
    e\<lparr>pending := pending e @ [display c (final_event nanos e)],
      out_completed := out_completed e \<or> reason_completes r, out_terminal := True\<rparr>"
  using assms by (simp add: finalize_def Let_def unwrap_or_def emission)

lemma emitter_ok_finalize:
  assumes ok: "emitter_ok e" and "finish_reason e \<noteq> None"
  shows "emitter_ok (finalize c nanos e)"
proof (cases "out_terminal e")
  case True
  with ok show ?thesis by (simp add: finalize_def)
next
  case False
  from assms(2) obtain r where r: "finish_reason e = Some r" by blast
  from ok False r show ?thesis
    by (simp add: finalize_eq emitter_ok_def retained_bytes_def)
qed

lemma emitter_ok_tool:
  assumes ok: "emitter_ok e"
  shows "emitter_ok (snd (apply_tool_delta c (tool_delta_json i d n a) e))"
  using tool_delta_cases [of c i d n a e]
proof cases
  case (fits evs)
  have "bt_sum tool_bytes (tool_calls e) \<le> aggregate_bytes e"
    using ok by (simp add: emitter_ok_def retained_bytes_def)
  note sum = tool_sum_update [OF _ this, of i d n a]
  have "length (bt_insert i (update_tool_call d n a (default_call i e)) (tool_calls e))
      \<le> max_stream_tool_calls"
    using ok fits(3) by (auto simp: emitter_ok_def length_bt_insert bt_has_def)
  with ok fits sum show ?thesis by (simp add: emitter_ok_def retained_bytes_def)
qed (use ok in simp)

lemma emitter_ok_start:
  assumes ok: "emitter_ok e"
  shows "emitter_ok (snd (apply_event c nanos (Start s) e))"
  using reserve_cases [of "length s" e]
proof cases
  case fits
  with ok show ?thesis
    by (simp add: act_apply emission) (simp add: emitter_ok_def retained_bytes_def opt_len_def)
qed (use ok in \<open>simp add: act_apply\<close>)

lemma emitter_ok_usage:
  assumes ok: "emitter_ok e"
  shows "emitter_ok (snd (apply_event c nanos (Usage x y) e))"
  using resize_cases [of "usage_bytes e" "length (display c (usage_json x y))" e]
proof cases
  case fits
  with ok show ?thesis by (simp add: act_apply Let_def emitter_ok_def retained_bytes_def)
qed (use ok in \<open>simp add: act_apply Let_def\<close>)

lemma emitter_ok_text:
  assumes ok: "emitter_ok e"
  shows "emitter_ok (snd (apply_event c nanos (Text t) e))"
proof -
  have started: "text_started (start_text c e)"
    by (simp add: start_text_def Let_def emission)
  have ok': "emitter_ok (start_text c e)" using ok by (rule emitter_ok_start_text)
  show ?thesis
    using reserve_cases [of "length t" "start_text c e"]
  proof cases
    case fits
    with ok ok' started show ?thesis
      by (simp add: act_apply emission) (simp add: emitter_ok_def retained_bytes_def)
  qed (use ok ok' in \<open>simp add: act_apply\<close>)
qed

lemma emitter_ok_reasoning:
  assumes ok: "emitter_ok e"
  shows "emitter_ok (snd (apply_event c nanos (Reasoning t) e))"
proof -
  have started: "reasoning_started (start_reasoning c e)"
    by (simp add: start_reasoning_def emission)
  have ok': "emitter_ok (start_reasoning c e)" using ok by (rule emitter_ok_start_reasoning)
  show ?thesis
    using reserve_cases [of "length t" "start_reasoning c e"]
  proof cases
    case fits
    with ok ok' started show ?thesis
      by (simp add: act_apply emission) (simp add: emitter_ok_def retained_bytes_def)
  qed (use ok ok' in \<open>simp add: act_apply\<close>)
qed

lemma emitter_ok_stop:
  assumes ok: "emitter_ok e" and "\<not> out_terminal e"
  shows "emitter_ok (snd (apply_event c nanos (Stop r) e))"
  using reserve_cases [of "length r" e]
proof cases
  case fits
  have "finish_reason e = None \<Longrightarrow>
      emitter_ok (e\<lparr>aggregate_bytes := aggregate_bytes e + length r, finish_reason := Some r\<rparr>)"
    using assms fits by (simp add: emitter_ok_def retained_bytes_def opt_len_def)
  with assms fits show ?thesis by (simp add: act_apply)
qed (use ok in \<open>simp add: act_apply\<close>)

lemma keeps_emitter_apply [keeps_intros]: "keeps emitter_ok (emitter_apply c nanos ev)"
proof (rule keepsI)
  fix e
  assume ok: "emitter_ok e"
  show "emitter_ok (snd (emitter_apply c nanos ev e))"
  proof (cases "out_terminal e")
    case True
    with ok show ?thesis by (simp add: emitter_apply_def)
  next
    case False
    show ?thesis
    proof (cases ev)
      case Done
      with ok False show ?thesis
        by (simp add: emitter_apply_def emitter_ok_finalize)
    qed (use ok False emitter_ok_start emitter_ok_usage emitter_ok_text emitter_ok_reasoning
          emitter_ok_tool emitter_ok_stop in \<open>simp_all add: emitter_apply_def del: apply_event.simps(1-4,6)\<close>)
  qed
qed

lemma emitter_ok_finish: "emitter_ok e \<Longrightarrow> emitter_ok (snd (emitter_finish c nanos e))"
  by (simp add: emitter_finish_def emitter_drain_def emitter_ok_finalize)

lemma emitter_ok_drain: "emitter_ok e \<Longrightarrow> emitter_ok (snd (emitter_drain e))"
  by (simp add: emitter_drain_def)

section \<open>The aggregate\<close>

definition apply_all :: "codec \<Rightarrow> nat \<Rightarrow> stream_event list \<Rightarrow> unit emitter_action" where
  "apply_all c nanos events = act_each (emitter_apply c nanos) events"

lemma keeps_apply_all: "keeps emitter_ok (apply_all c nanos events)"
  unfolding apply_all_def by (intro keeps_intros)

fun text_of :: "stream_event \<Rightarrow> str" where
  "text_of (Text t) = t"
| "text_of _ = []"

fun reasoning_of :: "stream_event \<Rightarrow> str" where
  "reasoning_of (Reasoning t) = t"
| "reasoning_of _ = []"

fun arguments_of :: "u64 \<Rightarrow> stream_event \<Rightarrow> str" where
  "arguments_of i (Tool j d n a) = (if j = i then unwrap_or a [] else [])"
| "arguments_of i _ = []"

fun name_of :: "u64 \<Rightarrow> stream_event \<Rightarrow> str" where
  "name_of i (Tool j d n a) = (if j = i then unwrap_or n [] else [])"
| "name_of i _ = []"

fun stop_of :: "stream_event \<Rightarrow> str list" where
  "stop_of (Stop r) = [r]"
| "stop_of _ = []"

text \<open>What one accepted event adds.\<close>

definition event_adds :: "stream_event \<Rightarrow> output_emitter \<Rightarrow> output_emitter \<Rightarrow> bool" where
  "event_adds ev e e' \<longleftrightarrow>
     text_buf e' = text_buf e @ text_of ev \<and> reasoning_buf e' = reasoning_buf e @ reasoning_of ev \<and>
     (\<forall>i. call_arguments (default_call i e') = call_arguments (default_call i e) @ arguments_of i ev) \<and>
     (\<forall>i. call_name (default_call i e') = call_name (default_call i e) @ name_of i ev)"

lemma start_text_fields [simp]:
  "text_buf (start_text c e) = text_buf e" "reasoning_buf (start_text c e) = reasoning_buf e"
  "tool_calls (start_text c e) = tool_calls e" "finish_reason (start_text c e) = finish_reason e"
  "out_terminal (start_text c e) = out_terminal e"
  by (simp_all add: start_text_def Let_def emission)

lemma start_reasoning_fields [simp]:
  "text_buf (start_reasoning c e) = text_buf e" "reasoning_buf (start_reasoning c e) = reasoning_buf e"
  "tool_calls (start_reasoning c e) = tool_calls e" "finish_reason (start_reasoning c e) = finish_reason e"
  "out_terminal (start_reasoning c e) = out_terminal e"
  by (simp_all add: start_reasoning_def emission)

lemma finish_items_fields [simp]:
  "text_buf (finish_items c e) = text_buf e" "reasoning_buf (finish_items c e) = reasoning_buf e"
  "tool_calls (finish_items c e) = tool_calls e" "finish_reason (finish_items c e) = finish_reason e"
  "out_terminal (finish_items c e) = out_terminal e"
  by (simp_all add: finish_items_def emission)

lemma reserve_Inr: "reserve_aggregate_bytes n e = (Inr u, e') \<Longrightarrow>
    e' = e\<lparr>aggregate_bytes := aggregate_bytes e + n\<rparr>"
  by (cases n e rule: reserve_cases) simp_all

lemma resize_Inr: "resize_aggregate_bytes p n e = (Inr u, e') \<Longrightarrow>
    e' = e\<lparr>aggregate_bytes := aggregate_bytes e - p + n\<rparr>"
  by (cases p n e rule: resize_cases) simp_all

lemma tool_delta_Inr:
  assumes "apply_tool_delta c (tool_delta_json i d n a) e = (Inr u, e')"
  shows "tool_calls e' = bt_insert i (update_tool_call d n a (default_call i e)) (tool_calls e) \<and>
    text_buf e' = text_buf e \<and> reasoning_buf e' = reasoning_buf e \<and>
    finish_reason e' = finish_reason e \<and> out_terminal e' = out_terminal e"
  using tool_delta_cases [of c i d n a e]
proof cases
  case (fits evs)
  with assms have "e' = e\<lparr>tool_calls := bt_insert i (update_tool_call d n a (default_call i e)) (tool_calls e),
      aggregate_bytes := tool_next_bytes i d n a e, pending := pending e @ map (display c) evs\<rparr>"
    by simp
  then show ?thesis by simp
qed (use assms in simp)

lemma event_adds_tool:
  assumes "tool_calls e' = bt_insert i (update_tool_call d n a (default_call i e)) (tool_calls e)"
    and "text_buf e' = text_buf e" and "reasoning_buf e' = reasoning_buf e"
  shows "event_adds (Tool i d n a) e e'"
proof -
  have "default_call j e' = (if j = i then update_tool_call d n a (default_call i e) else default_call j e)"
    for j by (simp add: default_call_def assms(1))
  then show ?thesis using assms(2,3) by (simp add: event_adds_def)
qed

lemma event_adds_same:
  "text_buf e' = text_buf e @ text_of ev \<Longrightarrow> reasoning_buf e' = reasoning_buf e @ reasoning_of ev \<Longrightarrow>
   tool_calls e' = tool_calls e \<Longrightarrow> \<forall>i. arguments_of i ev = [] \<and> name_of i ev = [] \<Longrightarrow>
   event_adds ev e e'"
  by (simp add: event_adds_def default_call_def)

text \<open>The outcome of one accepted event, with the state machine of the stream.\<close>

definition event_step :: "stream_event \<Rightarrow> output_emitter \<Rightarrow> output_emitter \<Rightarrow> bool" where
  "event_step ev e e' \<longleftrightarrow>
     event_adds ev e e' \<and> \<not> out_terminal e \<and> (out_terminal e' \<longleftrightarrow> ev = Done) \<and>
     (ev = Done \<longrightarrow> finish_reason e \<noteq> None) \<and> (stop_of ev \<noteq> [] \<longrightarrow> finish_reason e = None) \<and>
     finish_reason e' = (if stop_of ev = [] then finish_reason e else Some (hd (stop_of ev)))"

lemma event_step_same:
  assumes "text_buf e' = text_buf e @ text_of ev" and "reasoning_buf e' = reasoning_buf e @ reasoning_of ev"
    and "tool_calls e' = tool_calls e" and "\<forall>i. arguments_of i ev = [] \<and> name_of i ev = []"
    and "finish_reason e' = (if stop_of ev = [] then finish_reason e else Some (hd (stop_of ev)))"
    and "\<not> out_terminal e" and "out_terminal e' \<longleftrightarrow> ev = Done"
    and "ev = Done \<Longrightarrow> finish_reason e \<noteq> None" and "stop_of ev \<noteq> [] \<Longrightarrow> finish_reason e = None"
  shows "event_step ev e e'"
  using assms by (simp add: event_step_def event_adds_same)

lemma step_start:
  assumes "apply_event c nanos (Start s) e = (Inr u, e')" and "\<not> out_terminal e"
  shows "event_step (Start s) e e'"
proof (cases "response_id e = None")
  case True
  with assms(1) show ?thesis
    by (auto simp: act_Inr emission assms(2) intro!: event_step_same dest!: reserve_Inr)
qed (use assms in \<open>auto intro!: event_step_same\<close>)

lemma step_usage:
  assumes "apply_event c nanos (Usage x y) e = (Inr u, e')" and "\<not> out_terminal e"
  shows "event_step (Usage x y) e e'"
  using assms(1) by (auto simp: act_Inr Let_def assms(2) intro!: event_step_same dest!: resize_Inr)

lemma step_text:
  assumes "apply_event c nanos (Text t) e = (Inr u, e')" and "\<not> out_terminal e"
  shows "event_step (Text t) e e'"
proof (cases "t = []")
  case False
  with assms(1) show ?thesis
    by (auto simp: act_Inr emission assms(2) intro!: event_step_same dest!: reserve_Inr)
qed (use assms in \<open>auto intro!: event_step_same\<close>)

lemma step_reasoning:
  assumes "apply_event c nanos (Reasoning t) e = (Inr u, e')" and "\<not> out_terminal e"
  shows "event_step (Reasoning t) e e'"
proof (cases "t = []")
  case False
  with assms(1) show ?thesis
    by (auto simp: act_Inr emission assms(2) intro!: event_step_same dest!: reserve_Inr)
qed (use assms in \<open>auto intro!: event_step_same\<close>)

lemma step_tool:
  assumes "apply_event c nanos (Tool i d n a) e = (Inr u, e')" and "\<not> out_terminal e"
  shows "event_step (Tool i d n a) e e'"
  using tool_delta_Inr [of c i d n a e u e'] assms
  by (simp add: event_step_def event_adds_tool)

lemma step_stop:
  assumes "apply_event c nanos (Stop r) e = (Inr u, e')" and "\<not> out_terminal e"
  shows "event_step (Stop r) e e'"
proof (cases "finish_reason e")
  case None
  with assms(1) show ?thesis
    by (auto simp: act_Inr assms(2) intro!: event_step_same dest!: reserve_Inr)
qed (use assms in simp)

lemma step_done:
  assumes "apply_event c nanos Done e = (Inr u, e')" and "\<not> out_terminal e"
  shows "event_step Done e e'"
proof (cases "finish_reason e")
  case (Some r)
  with assms have "e' = finalize c nanos e" by simp
  with Some assms(2) show ?thesis by (auto simp: finalize_eq intro!: event_step_same)
qed (use assms in simp)

lemma emitter_apply_step:
  assumes "emitter_apply c nanos ev e = (Inr u, e')"
  shows "event_step ev e e'"
proof -
  from assms have "\<not> out_terminal e" and "apply_event c nanos ev e = (Inr u, e')"
    by (simp_all add: emitter_apply_def split: if_splits)
  then show ?thesis
    by (cases ev; hypsubst)
      (erule (1) step_start step_usage step_text step_reasoning step_tool step_stop step_done)+
qed

section \<open>Runs\<close>

definition texts :: "stream_event list \<Rightarrow> str" where
  "texts events = concat (map text_of events)"

definition reasonings :: "stream_event list \<Rightarrow> str" where
  "reasonings events = concat (map reasoning_of events)"

definition stops :: "stream_event list \<Rightarrow> str list" where
  "stops events = concat (map stop_of events)"

definition arguments_at :: "u64 \<Rightarrow> stream_event list \<Rightarrow> str" where
  "arguments_at i events = concat (map (arguments_of i) events)"

definition name_at :: "u64 \<Rightarrow> stream_event list \<Rightarrow> str" where
  "name_at i events = concat (map (name_of i) events)"

lemmas run_sums = texts_def reasonings_def stops_def arguments_at_def name_at_def

lemma apply_all_adds:
  assumes "apply_all c nanos events e = (Inr u, e')"
  shows "text_buf e' = text_buf e @ texts events \<and>
    reasoning_buf e' = reasoning_buf e @ reasonings events \<and>
    (\<forall>i. call_arguments (default_call i e') = call_arguments (default_call i e) @ arguments_at i events) \<and>
    (\<forall>i. call_name (default_call i e') = call_name (default_call i e) @ name_at i events)"
  using assms
proof (induction events arbitrary: e)
  case Nil
  then show ?case by (simp add: apply_all_def run_sums)
next
  case (Cons ev events)
  then obtain v f where first: "emitter_apply c nanos ev e = (Inr v, f)"
    and rest: "apply_all c nanos events f = (Inr u, e')"
    by (auto simp: apply_all_def act_Inr)
  from emitter_apply_step [OF first] Cons.IH [OF rest] show ?case
    by (simp add: event_step_def event_adds_def run_sums)
qed

lemma apply_all_states:
  assumes "apply_all c nanos events e = (Inr u, e')" and "\<not> out_terminal e" and "finish_reason e = None"
  shows "(out_terminal e' \<longleftrightarrow> events \<noteq> [] \<and> last events = Done) \<and> Done \<notin> set (butlast events) \<and>
    stops events = (case finish_reason e' of None \<Rightarrow> [] | Some r \<Rightarrow> [r])"
  using assms(1)
proof (induction events arbitrary: u e' rule: rev_induct)
  case Nil
  with assms show ?case by (simp add: apply_all_def stops_def)
next
  case (snoc ev events)
  have split: "act_each f (xs @ [x]) = act (act_each f xs) (\<lambda>_. act (f x) (\<lambda>_. act_ok ()))"
    for f :: "stream_event \<Rightarrow> unit emitter_action" and xs x
    by (induction xs) (simp_all add: act_def fun_eq_iff split: prod.split sum.split)
  from snoc.prems obtain v f where first: "apply_all c nanos events e = (Inr v, f)"
    and step: "emitter_apply c nanos ev f = (Inr (), e')"
    by (auto simp: apply_all_def split act_Inr)
  have "events = [] \<or> set events = insert (last events) (set (butlast events))"
    by (cases events rule: rev_cases) auto
  with emitter_apply_step [OF step] snoc.IH [OF first] show ?case
    by (cases ev) (auto simp: event_step_def stops_def)
qed

section \<open>Reachable emitters\<close>

text \<open>Any interleaving of the public operations, with rejected events in it.\<close>

inductive emitter_reach :: "codec \<Rightarrow> nat \<Rightarrow> (str, tool_identity) btree \<Rightarrow> output_emitter \<Rightarrow> bool"
  for c limit names where
  reach_new: "emitter_reach c limit names (with_tool_names nanos limit names)"
| reach_apply: "emitter_reach c limit names e \<Longrightarrow>
    emitter_reach c limit names (snd (emitter_apply c nanos ev e))"
| reach_drain: "emitter_reach c limit names e \<Longrightarrow> emitter_reach c limit names (snd (emitter_drain e))"
| reach_finish: "emitter_reach c limit names e \<Longrightarrow>
    emitter_reach c limit names (snd (emitter_finish c nanos e))"

lemma reach_ok: "emitter_reach c limit names e \<Longrightarrow> limit \<le> usize_max \<Longrightarrow> emitter_ok e"
  by (induction rule: emitter_reach.induct)
    (simp_all add: emitter_ok_new emitter_ok_drain emitter_ok_finish keepsD [OF keeps_emitter_apply])

lemma emitter_apply_max [simp]: "max_aggregate_bytes (snd (emitter_apply c nanos ev e)) = max_aggregate_bytes e"
proof -
  have started: "max_aggregate_bytes (start_text c e) = max_aggregate_bytes e"
    by (simp add: start_text_def Let_def emission)
  have reasoning: "max_aggregate_bytes (start_reasoning c e) = max_aggregate_bytes e"
    by (simp add: start_reasoning_def emission)
  have reserve: "max_aggregate_bytes (snd (act (reserve_aggregate_bytes n) (\<lambda>_. act_upd f) e)) =
      max_aggregate_bytes e"
    if "\<And>e. max_aggregate_bytes (f e) = max_aggregate_bytes e" for n f e
    by (cases n e rule: reserve_cases) (simp_all add: act_apply that)
  have resize: "max_aggregate_bytes (snd (act (resize_aggregate_bytes p n) (\<lambda>_. act_upd f) e)) =
      max_aggregate_bytes e"
    if "\<And>e. max_aggregate_bytes (f e) = max_aggregate_bytes e" for p n f e
    by (cases p n e rule: resize_cases) (simp_all add: act_apply that)
  have final: "max_aggregate_bytes (finalize c nanos e) = max_aggregate_bytes e"
    by (simp add: finalize_def Let_def emission finish_items_def split: option.split)
  have tool: "max_aggregate_bytes (snd (apply_tool_delta c (tool_delta_json i d n a) e)) =
      max_aggregate_bytes e" for i d n a
    using tool_delta_cases [of c i d n a e] by cases simp_all
  show ?thesis
  proof (cases "out_terminal e")
    case False
    then show ?thesis
      by (cases ev)
        (simp_all add: emitter_apply_def act_upd_def act_def started reasoning final tool Let_def
          reserve [unfolded act_def act_upd_def] resize [unfolded act_def act_upd_def] emission finish_items_def)
  qed (simp add: emitter_apply_def)
qed

lemma reach_max: "emitter_reach c limit names e \<Longrightarrow> max_aggregate_bytes e = limit"
  by (induction rule: emitter_reach.induct)
    (simp_all add: with_tool_names_def Let_def emitter_drain_def emitter_finish_def finalize_def emission
      finish_items_def split: option.split)

section \<open>Items of the response\<close>

text \<open>The items that a list of events announces as done, and the places announced for them.\<close>

definition is_item_event :: "str \<Rightarrow> json \<Rightarrow> bool" where
  "is_item_event ty event \<longleftrightarrow> str_at event ''type'' = Some ty"

definition done_items :: "json list \<Rightarrow> json list" where
  "done_items events =
     map (\<lambda>v. jindex v ''item'') (filter (is_item_event ''response.output_item.done'') events)"

definition done_indices :: "json list \<Rightarrow> json list" where
  "done_indices events =
     map (\<lambda>v. jindex v ''output_index'') (filter (is_item_event ''response.output_item.done'') events)"

lemma done_append [simp]:
  "done_items (xs @ ys) = done_items xs @ done_items ys"
  "done_indices (xs @ ys) = done_indices xs @ done_indices ys"
  by (simp_all add: done_items_def done_indices_def)

lemmas event_eval = is_item_event_def str_at_def jindex_def map_get_Cons as_str_def

lemma done_parts [simp]:
  "done_items (finish_reasoning_events e) = (if reasoning_started e then [reasoning_item e] else [])"
  "done_items (finish_text_events e) = (if text_started e then [message_item e] else [])"
  "done_items (finish_tool_events e entry) = [tool_item e (snd entry)]"
  "done_indices (finish_reasoning_events e) = (if reasoning_started e then [jnat 0] else [])"
  "done_indices (finish_text_events e) = (if text_started e then [jnat (message_output_index e)] else [])"
  "done_indices (finish_tool_events e entry) = [jnat (tool_output_index (fst entry) e)]"
  by (simp_all add: done_items_def done_indices_def finish_reasoning_events_def finish_text_events_def
      finish_tool_events_def Let_def event_eval split: prod.split)

lemma done_concat:
  "done_items (concat (map (finish_tool_events e) m)) = map (tool_item e) (map snd m)"
  "done_indices (concat (map (finish_tool_events e) m)) =
     map (\<lambda>t. jnat (tool_output_index (fst t) e)) m"
proof (induction m)
  case (Cons t m)
  { case 1 show ?case using Cons.IH by (simp only: list.map concat.simps done_append done_parts) simp }
  { case 2 show ?case using Cons.IH by (simp only: list.map concat.simps done_append done_parts) simp }
qed (simp_all add: done_items_def done_indices_def)

lemma tool_index_inject [simp]: "tool_output_index i e = tool_output_index j e \<longleftrightarrow> i = j"
  by (simp add: tool_output_index_def)

lemma tool_index_after:
  assumes "unat i < 2 ^ 64 - 2"
  shows "unat (tool_output_index i e) = of_bool (reasoning_started e) + of_bool (text_started e) + unat i"
  using assms by (cases "reasoning_started e"; cases "text_started e")
    (simp_all add: tool_output_index_def unat_word_ariths)

lemma jnat_inject [simp]: "jnat a = jnat b \<longleftrightarrow> a = b"
  by (simp add: jnat_def)

lemma done_indices_distinct:
  assumes "bt_ok (tool_calls e)" and "\<forall>i \<in> fst ` set (tool_calls e). unat i < 2 ^ 64 - 2"
  shows "distinct (done_indices (finish_events e))"
proof -
  let ?tools = "map (\<lambda>t. jnat (tool_output_index (fst t) e)) (tool_calls e)"
  have tools: "distinct ?tools"
    using bt_ok_distinct [OF assms(1)] by (auto simp: distinct_map inj_on_def)
  have place: "unat (tool_output_index (fst t) e) =
      of_bool (reasoning_started e) + of_bool (text_started e) + unat (fst t)"
    if "t \<in> set (tool_calls e)" for t
    using that assms(2) by (intro tool_index_after) auto
  have away: "jnat w \<notin> set ?tools"
    if "unat w < of_bool (reasoning_started e) + of_bool (text_started e)" for w
  proof
    assume "jnat w \<in> set ?tools"
    then obtain t where "t \<in> set (tool_calls e)" "tool_output_index (fst t) e = w"
      by (auto simp only: set_map jnat_inject image_iff)
    with place [of t] that show False by simp
  qed
  have reasoning: "reasoning_started e \<Longrightarrow> jnat 0 \<notin> set ?tools"
    by (rule away) simp
  have message: "text_started e \<Longrightarrow> jnat (message_output_index e) \<notin> set ?tools"
    by (rule away) (simp add: message_output_index_def)
  have "reasoning_started e \<Longrightarrow> message_output_index e \<noteq> 0"
    by (simp add: message_output_index_def)
  with tools reasoning message show ?thesis
    by (cases "reasoning_started e"; cases "text_started e")
      (simp_all add: finish_events_def done_concat del: set_map)
qed

section \<open>Properties\<close>

text \<open>A codec that prints every value as one byte, for the witnesses.\<close>

definition short_codec :: codec where
  "short_codec = \<lparr>parse = (\<lambda>_. Inl []), to_vec = (\<lambda>_. Inr ''x''), display = (\<lambda>_. ''x'')\<rparr>"

definition example_events :: "stream_event list" where
  "example_events = [Start ''r1'', Reasoning ''a'', Reasoning ''b'', Text ''c'',
     Tool 0 (Some ''t1'') (Some ''f'') (Some ''{''), Text ''d'', Tool 0 None None (Some ''}''),
     Usage 1 2, Stop ''tool_calls'', Done]"

definition example_run :: "(output_error + unit) \<times> output_emitter" where
  "example_run = apply_all short_codec 7 example_events (with_tool_names 5 64 [])"

lemma short_display [simp]: "display short_codec v = ''x''"
  by (simp add: short_codec_def)

lemmas example_eval = apply_all_def emitter_apply_def with_tool_names_def Let_def start_reasoning_def
  start_text_def finish_items_def emission act_apply reserve_aggregate_bytes_def
  resize_aggregate_bytes_def checked_add_def saturating_sub_def usize_max_def opt_len_def
  apply_tool_delta_def tool_delta_json_fields max_stream_tool_calls_def unwrap_or_def bt_has_def
  bt_get_Cons tool_call_default_def update_tool_call_def finalize_def reason_completes_def

text \<open>C5: in every reachable emitter the counted bytes are exactly the bytes of upstream text it
  holds, at most the configured limit, and there are at most 256 tool calls; this includes
  emitters on which events were rejected.\<close>

theorem emitter_accounting:
  assumes "emitter_reach c limit names e" and "limit \<le> usize_max"
  shows "aggregate_bytes e = retained_bytes e \<and> retained_bytes e \<le> limit \<and>
    length (tool_calls e) \<le> 256 \<and> distinct (map fst (tool_calls e))"
  using reach_ok [OF assms] reach_max [OF assms(1)]
  by (simp add: emitter_ok_def max_stream_tool_calls_def bt_ok_distinct)

theorem emitter_accounting_witness:
  "\<exists>e. emitter_reach short_codec 3 [] e \<and> reasoning_buf e = ''ab'' \<and> aggregate_bytes e = 2"
proof -
  let ?e = "snd (emitter_apply short_codec 0 (Text ''cd'')
    (snd (emitter_apply short_codec 0 (Reasoning ''ab'') (with_tool_names 0 3 []))))"
  have "emitter_reach short_codec 3 [] ?e" by (intro emitter_reach.intros)
  moreover have "reasoning_buf ?e = ''ab'' \<and> retained_bytes ?e = 2"
    by (simp add: example_eval retained_bytes_def)
  ultimately show ?thesis
    using emitter_accounting [of short_codec 3 "[]" ?e] by (auto simp: usize_max_def)
qed

text \<open>when a new emitter accepts a list of events, the text, the reasoning and the name and
  arguments of every tool call are the concatenations of their deltas, in order, and the message
  committed to the history carries that text.\<close>

theorem emitter_collects:
  assumes "apply_all c nanos events (with_tool_names start limit names) = (Inr (), e)"
  shows "text_buf e = texts events \<and> reasoning_buf e = reasonings events \<and>
    (\<forall>i t. bt_get (tool_calls e) i = Some t \<longrightarrow>
       call_name t = name_at i events \<and> call_arguments t = arguments_at i events) \<and>
    jindex (assistant_message (emitter_outcome e)) ''content'' =
      (if texts events = [] \<and> tool_calls e \<noteq> [] then JNull else JString (texts events))"
proof -
  have init: "default_call i (with_tool_names start limit names) = tool_call_default" for i
    by (simp add: default_call_def with_tool_names_def Let_def)
  from apply_all_adds [OF assms] have "text_buf e = texts events" "reasoning_buf e = reasonings events"
    and "\<And>i. call_name (default_call i e) = name_at i events"
    and "\<And>i. call_arguments (default_call i e) = arguments_at i events"
    by (simp_all add: init) (simp_all add: with_tool_names_def Let_def tool_call_default_def)
  moreover have "bt_get (tool_calls e) i = Some t \<Longrightarrow> default_call i e = t" for i t
    by (simp add: default_call_def)
  ultimately show ?thesis
    by (auto simp: emitter_outcome_def Let_def jindex_def bt_values_def map_get_Cons)
qed

theorem emitter_collects_witness:
  "text_buf (snd example_run) = ''cd'' \<and> arguments_at 0 example_events = ''{}''"
proof -
  have "fst example_run = Inr ()"
    by (simp add: example_run_def example_events_def example_eval)
  then have run: "apply_all short_codec 7 example_events (with_tool_names 5 64 []) = (Inr (), snd example_run)"
    unfolding example_run_def by (metis prod.collapse)
  have "texts example_events = ''cd'' \<and> arguments_at 0 example_events = ''{}''"
    by (simp add: example_events_def texts_def arguments_at_def unwrap_or_def)
  with emitter_collects [OF run] show ?thesis by simp
qed

text \<open>C6: the state machine of a stream. In a list of events that a new emitter accepts there is at
  most one stop reason, nothing follows the end of the stream, and the emitter is terminal exactly
  when the list ends with it; it has completed exactly when the stop reason is that of a finished
  turn. A terminal emitter rejects every event and is left unchanged.\<close>

theorem emitter_stream_protocol:
  assumes run: "apply_all c nanos events (with_tool_names start limit names) = (Inr (), e)"
    and limit: "limit \<le> usize_max"
  shows "length (stops events) \<le> 1 \<and> Done \<notin> set (butlast events) \<and>
    (out_terminal e \<longleftrightarrow> events \<noteq> [] \<and> last events = Done) \<and>
    (out_completed e \<longleftrightarrow> out_terminal e \<and> (stops events = [''stop''] \<or> stops events = [''tool_calls''])) \<and>
    (out_terminal e \<longrightarrow> emitter_apply c nanos ev e = (Inl OutputInvalidStream, e))"
proof -
  let ?new = "with_tool_names start limit names"
  have new: "\<not> out_terminal ?new" "finish_reason ?new = None"
    by (simp_all add: with_tool_names_def Let_def)
  have "emitter_ok e"
    using keepsD [OF keeps_apply_all emitter_ok_new [OF limit], of c nanos events start names] run by simp
  then have completed: "out_completed e \<longleftrightarrow>
      out_terminal e \<and> (\<exists>r. finish_reason e = Some r \<and> reason_completes r)"
    by (simp add: emitter_ok_def)
  note states = apply_all_states [OF run new]
  then have stops: "stops events = (case finish_reason e of None \<Rightarrow> [] | Some r \<Rightarrow> [r])" by simp
  have "length (stops events) \<le> 1"
    unfolding stops by (simp split: option.split)
  moreover have "(\<exists>r. finish_reason e = Some r \<and> reason_completes r) \<longleftrightarrow>
      stops events = [''stop''] \<or> stops events = [''tool_calls'']"
    unfolding stops by (cases "finish_reason e") (simp_all add: reason_completes_def)
  ultimately show ?thesis
    using states completed by (simp add: emitter_apply_def)
qed

theorem emitter_stream_protocol_witness:
  "\<exists>e. apply_all short_codec 7 [Text ''a'', Stop ''stop'', Done] (with_tool_names 5 64 []) = (Inr (), e) \<and>
     out_completed e \<and> emitter_apply short_codec 7 (Text ''b'') e = (Inl OutputInvalidStream, e)"
proof -
  let ?events = "[Text ''a'', Stop ''stop'', Done]"
  let ?run = "apply_all short_codec 7 ?events (with_tool_names 5 64 [])"
  have "fst ?run = Inr ()" by (simp add: example_eval)
  then have run: "?run = (Inr (), snd ?run)" by (metis prod.collapse)
  have "stops ?events = [''stop'']" "last ?events = Done" by (simp_all add: stops_def)
  then show ?thesis
    using emitter_stream_protocol [OF run, of "Text ''b''"] run
    by (intro exI [where x = "snd ?run"]) (simp add: usize_max_def)
qed

text \<open>What an accepted event adds to the queue: only a stop reason announces items as done.\<close>

definition announces_none :: "codec \<Rightarrow> output_emitter \<Rightarrow> output_emitter \<Rightarrow> bool" where
  "announces_none c e e' \<longleftrightarrow>
     (\<exists>evs. pending e' = pending e @ map (display c) evs \<and> done_items evs = [] \<and> done_indices evs = [])"

lemma announces_noneI:
  "pending e' = pending e @ map (display c) evs \<Longrightarrow> done_items evs = [] \<Longrightarrow> done_indices evs = [] \<Longrightarrow>
   announces_none c e e'"
  by (auto simp: announces_none_def)

lemma announces_none_same: "pending e' = pending e \<Longrightarrow> announces_none c e e'"
  by (rule announces_noneI [where evs = "[]"]) (simp_all add: done_items_def done_indices_def)

lemma announces_none_trans:
  assumes "announces_none c e f" and "announces_none c f g"
  shows "announces_none c e g"
proof -
  from assms obtain xs ys where "pending f = pending e @ map (display c) xs" "done_items xs = []"
      "done_indices xs = []" "pending g = pending f @ map (display c) ys" "done_items ys = []"
      "done_indices ys = []"
    unfolding announces_none_def by blast
  then show ?thesis by (intro announces_noneI [where evs = "xs @ ys"]) simp_all
qed

lemma announces_none_emit:
  assumes "ty \<noteq> ''response.output_item.done''" and "pending f = pending e"
  shows "announces_none c e (emit c (JObject (event_type ty # more_fields)) f)"
  by (rule announces_noneI [where evs = "[JObject (event_type ty # more_fields)]"])
    (use assms in \<open>simp_all add: emission done_items_def done_indices_def event_eval\<close>)

lemma announces_none_start:
  "announces_none c e (start_text c e)" "announces_none c e (start_reasoning c e)"
proof -
  have twice: "announces_none c e (emit_all c [JObject (event_type s # xs), JObject (event_type t # ys)] f)"
    if "pending f = pending e" "s \<noteq> ''response.output_item.done''" "t \<noteq> ''response.output_item.done''"
    for f s t xs ys
    using announces_none_trans [OF announces_none_emit [OF that(2,1)] announces_none_emit [OF that(3) refl]]
    by (simp add: emit_all_def)
  show "announces_none c e (start_text c e)"
    by (cases "text_started e") (simp_all add: start_text_def Let_def twice announces_none_same)
  show "announces_none c e (start_reasoning c e)"
    by (cases "reasoning_started e") (simp_all add: start_reasoning_def twice announces_none_same)
qed

lemma announces_none_tool:
  assumes "apply_tool_delta c call e = (Inr u, e')"
  shows "announces_none c e e'"
proof -
  have event: "announces_none c e (if p then emit c (JObject (event_type ''response.output_item.added'' # xs)) f else f)"
    if "pending f = pending e" for p xs f
    using that by (cases p) (simp_all add: announces_none_emit announces_none_same)
  have delta: "announces_none c e (case d of None \<Rightarrow> f
      | Some t \<Rightarrow> emit c (JObject (event_type ''response.function_call_arguments.delta'' # xs t)) f)"
    if "announces_none c e f" for d xs f
    using announces_none_trans [OF that announces_none_emit] that by (cases d) simp_all
  have option_Inr: P if "(case x of None \<Rightarrow> (Inl a, s) | Some y \<Rightarrow> f y) = (Inr u, e')"
      and "\<And>y. x = Some y \<Longrightarrow> f y = (Inr u, e') \<Longrightarrow> P"
    for x :: "'x option" and f a s P using that by (cases x) simp_all
  have if_Inr: P if "(if b then (Inl a, s) else t) = (Inr u, e')" and "t = (Inr u, e') \<Longrightarrow> P"
    for b a s t P using that by (cases b) simp_all
  show ?thesis
    by (insert assms, unfold apply_tool_delta_def Let_def, erule option_Inr, erule if_Inr, erule option_Inr, erule if_Inr)
      (erule Pair_inject, erule subst, intro delta event, simp)
qed

lemma announces_none_apply:
  assumes "emitter_apply c nanos ev e = (Inr u, e')" and "stop_of ev = []" and "ev \<noteq> Done"
  shows "announces_none c e e'"
proof -
  have step: "apply_event c nanos ev e = (Inr u, e')"
    using assms(1) by (simp add: emitter_apply_def split: if_splits)
  note text_later = announces_none_trans [OF announces_none_start(1) announces_none_emit]
  note reasoning_later = announces_none_trans [OF announces_none_start(2) announces_none_emit]
  show ?thesis
  proof (cases ev)
    case (Start s)
    with step show ?thesis
      by (auto simp: act_Inr announces_none_same intro!: announces_none_emit dest!: reserve_Inr split: if_splits)
  next
    case (Usage x y)
    with step show ?thesis
      by (auto simp: act_Inr Let_def intro!: announces_none_same dest!: resize_Inr)
  next
    case (Text t)
    with step show ?thesis
      by (auto simp: act_Inr announces_none_same intro!: text_later dest!: reserve_Inr split: if_splits)
  next
    case (Reasoning t)
    with step show ?thesis
      by (auto simp: act_Inr announces_none_same intro!: reasoning_later dest!: reserve_Inr split: if_splits)
  next
    case (Tool i d n a)
    with step show ?thesis by (auto intro: announces_none_tool)
  qed (use assms in simp_all)
qed

text \<open>The events after which the items of the response are the ones before: the usage report, the
  identifier of the response and empty deltas.\<close>

fun says_nothing :: "stream_event \<Rightarrow> bool" where
  "says_nothing (Start s) \<longleftrightarrow> True"
| "says_nothing (Usage x y) \<longleftrightarrow> True"
| "says_nothing (Text t) \<longleftrightarrow> t = []"
| "says_nothing (Reasoning t) \<longleftrightarrow> t = []"
| "says_nothing _ \<longleftrightarrow> False"

definition same_items :: "output_emitter \<Rightarrow> output_emitter \<Rightarrow> bool" where
  "same_items e e' \<longleftrightarrow>
     reasoning_started e' = reasoning_started e \<and> text_started e' = text_started e \<and>
     reasoning_buf e' = reasoning_buf e \<and> text_buf e' = text_buf e \<and> tool_calls e' = tool_calls e \<and>
     reasoning_id e' = reasoning_id e \<and> message_id e' = message_id e \<and> tool_names e' = tool_names e"

lemma same_items_output: "same_items e e' \<Longrightarrow> response_output e' = response_output e"
  by (simp add: same_items_def response_output_def reasoning_item_def message_item_def tool_item_def
      function_call_item_def tool_identity_of_def cong: map_cong)

lemma same_items_quiet:
  assumes "emitter_apply c nanos ev e = (Inr u, e')" and "says_nothing ev"
  shows "same_items e e'"
proof -
  have step: "apply_event c nanos ev e = (Inr u, e')"
    using assms(1) by (simp add: emitter_apply_def split: if_splits)
  with assms(2) show ?thesis
    by (cases ev) (auto simp: act_Inr Let_def emission same_items_def dest!: reserve_Inr resize_Inr
        split: if_splits)
qed

lemma apply_all_append:
  "apply_all c nanos (xs @ ys) e = act (apply_all c nanos xs) (\<lambda>_. apply_all c nanos ys) e"
  unfolding apply_all_def by (induction xs arbitrary: e) (simp_all add: act_def split: prod.split sum.split)

lemma apply_all_quiet:
  assumes "apply_all c nanos quiet e = (Inr u, e')" and "\<forall>ev \<in> set quiet. says_nothing ev"
  shows "same_items e e' \<and> announces_none c e e'"
  using assms
proof (induction quiet arbitrary: e)
  case Nil
  then show ?case by (simp add: apply_all_def same_items_def announces_none_same)
next
  case (Cons ev quiet)
  then obtain v f where first: "emitter_apply c nanos ev e = (Inr v, f)"
    and rest: "apply_all c nanos quiet f = (Inr u, e')"
    by (auto simp: apply_all_def act_Inr)
  have ev: "says_nothing ev" using Cons.prems(2) by simp
  then have "stop_of ev = []" "ev \<noteq> Done" by (cases ev; simp)+
  with first have "announces_none c e f" by (rule announces_none_apply)
  moreover have "same_items e f" using first ev by (rule same_items_quiet)
  moreover have "same_items f e' \<and> announces_none c f e'"
    using rest Cons.prems(2) by (intro Cons.IH) simp_all
  ultimately show ?case by (auto simp: same_items_def intro: announces_none_trans)
qed

lemma apply_all_none_done:
  assumes "apply_all c nanos events e = (Inr u, e')" and "stops events = []" and "Done \<notin> set events"
  shows "announces_none c e e'"
  using assms
proof (induction events arbitrary: e)
  case Nil
  then show ?case by (simp add: apply_all_def announces_none_same)
next
  case (Cons ev events)
  then obtain v f where first: "emitter_apply c nanos ev e = (Inr v, f)"
    and rest: "apply_all c nanos events f = (Inr u, e')"
    by (auto simp: apply_all_def act_Inr)
  have "announces_none c e f"
    using first Cons.prems(2,3) by (intro announces_none_apply) (auto simp: stops_def)
  moreover have "announces_none c f e'"
    using rest Cons.prems(2,3) by (intro Cons.IH) (auto simp: stops_def)
  ultimately show ?case by (rule announces_none_trans)
qed



text \<open>The condition on what follows the stop reason is needed: the emitter still accepts text, and a
  text that arrives then is in the final response, but no item that carries it was announced as
  done.\<close>

lemma late_text_not_done:
  "\<exists>e evs. apply_all c nanos [Text ''a'', Stop ''stop'', Text ''b''] (with_tool_names start 64 names) = (Inr (), e) \<and>
     pending e = map (display c) evs \<and> done_items evs = [message_item (e\<lparr>text_buf := ''a''\<rparr>)] \<and>
     jindex (jindex (final_event nanos e) ''response'') ''output'' = JArray [message_item e] \<and>
     text_buf e = ''ab''"
proof -
  let ?run = "apply_all c nanos [Text ''a'', Stop ''stop'', Text ''b''] (with_tool_names start 64 names)"
  let ?e = "snd ?run"
  let ?id = "JString (''msg_'' @ random_id start)"
  let ?delta = "\<lambda>t. JObject [event_type ''response.output_text.delta'', (''item_id'', ?id),
    (''output_index'', jnat 0), (''content_index'', jnat 0), (''delta'', JString t)]"
  let ?evs = "[JObject [event_type ''response.output_item.added'', (''output_index'', jnat 0),
       (''item'', JObject [event_type ''message'', (''id'', ?id), (''role'', JString ''assistant''),
          (''content'', JArray [])])],
     JObject [event_type ''response.content_part.added'', (''item_id'', ?id), (''output_index'', jnat 0),
       (''content_index'', jnat 0), (''part'', output_text_part '''')], ?delta ''a'',
     JObject [event_type ''response.output_text.done'', (''item_id'', ?id), (''output_index'', jnat 0),
       (''content_index'', jnat 0), (''text'', JString ''a'')],
     JObject [event_type ''response.content_part.done'', (''item_id'', ?id), (''output_index'', jnat 0),
       (''content_index'', jnat 0), (''part'', output_text_part ''a'')],
     JObject [event_type ''response.output_item.done'', (''output_index'', jnat 0),
       (''item'', message_item (?e\<lparr>text_buf := ''a''\<rparr>))], ?delta ''b'']"
  have ok: "?run = (Inr (), ?e)" and emitted: "pending ?e = map (display c) ?evs"
    by (simp_all add: example_eval message_output_index_def output_text_part_def finish_events_def
        finish_reasoning_events_def finish_text_events_def message_item_def)
  have items: "done_items ?evs = [message_item (?e\<lparr>text_buf := ''a''\<rparr>)]"
    by (simp add: done_items_def event_eval)
  have "text_started ?e" "\<not> reasoning_started ?e" "tool_calls ?e = []" and both: "text_buf ?e = ''ab''"
    by (simp_all add: example_eval)
  then have "jindex (jindex (final_event nanos ?e) ''response'') ''output'' = JArray [message_item ?e]"
    by (simp add: final_event_def Let_def jindex_def map_get_Cons response_output_def bt_values_def
        split: prod.splits)
  with ok emitted items both show ?thesis by blast
qed

definition added_places :: "json list \<Rightarrow> (json \<times> json) list" where
  "added_places events =
     map (\<lambda>v. (jindex (jindex v ''item'') ''type'', jindex v ''output_index''))
       (filter (is_item_event ''response.output_item.added'') events)"

text \<open>An upstream that sends text before reasoning gets two items announced for the same place:
  the message is added at output index 0, the reasoning is added at 0 too, and the message is then
  reported done at index 1. (A tool call announced before the text moves in the same way.)\<close>

theorem output_index_collision:
  "\<exists>e evs. apply_all c nanos [Text ''a'', Reasoning ''b''] (with_tool_names start 64 names) = (Inr (), e) \<and>
     pending e = map (display c) evs \<and>
     added_places evs = [(JString ''message'', jnat 0), (JString ''reasoning'', jnat 0)] \<and>
     done_indices (finish_events e) = [jnat 0, jnat 1]"
proof -
  let ?run = "apply_all c nanos [Text ''a'', Reasoning ''b''] (with_tool_names start 64 names)"
  let ?e = "snd ?run"
  let ?id = "JString (''msg_'' @ random_id start)"
  let ?rid = "JString (''rs_'' @ random_id start)"
  let ?evs = "[JObject [event_type ''response.output_item.added'', (''output_index'', jnat 0),
       (''item'', JObject [event_type ''message'', (''id'', ?id), (''role'', JString ''assistant''),
          (''content'', JArray [])])],
     JObject [event_type ''response.content_part.added'', (''item_id'', ?id), (''output_index'', jnat 0),
       (''content_index'', jnat 0), (''part'', output_text_part '''')],
     JObject [event_type ''response.output_text.delta'', (''item_id'', ?id), (''output_index'', jnat 0),
       (''content_index'', jnat 0), (''delta'', JString ''a'')],
     JObject [event_type ''response.output_item.added'', (''output_index'', jnat 0),
       (''item'', JObject [event_type ''reasoning'', (''id'', ?rid), (''summary'', JArray [])])],
     JObject [event_type ''response.reasoning_summary_part.added'', (''item_id'', ?rid),
       (''output_index'', jnat 0), (''summary_index'', jnat 0), (''part'', summary_part '''')],
     JObject [event_type ''response.reasoning_summary_text.delta'', (''item_id'', ?rid),
       (''output_index'', jnat 0), (''summary_index'', jnat 0), (''delta'', JString ''b'')]]"
  have ok: "?run = (Inr (), ?e)" and emitted: "pending ?e = map (display c) ?evs"
    by (simp_all add: example_eval message_output_index_def summary_part_def output_text_part_def)
  have places: "added_places ?evs = [(JString ''message'', jnat 0), (JString ''reasoning'', jnat 0)]"
    by (simp add: added_places_def event_eval)
  have flags: "text_started ?e" "reasoning_started ?e" "tool_calls ?e = []"
    by (simp_all add: example_eval)
  then have "done_indices (finish_events ?e) = [jnat 0, jnat 1]"
    by (simp add: finish_events_def message_output_index_def)
  with ok emitted places show ?thesis by blast
qed

end
