(* ===== verification/ResponsesProperties.thy ===== *)
theory ResponsesProperties
  imports ResponsesBridge OutputEmitter
begin

text \<open>
  The properties of the Responses bridge: its session, its reasoning normalization and its
  decoder.
\<close>

section \<open>Examples\<close>

text \<open>A codec that knows four texts; every other text is no JSON. It prints every value as
  two bytes.\<close>

definition example_create :: json where
  "example_create = JObject [(''type'', JString ''response.create''), (''model'', JString ''m''),
     (''previous_response_id'', JString ''r''), (''input'', JArray [JString ''u'', JString ''v''])]"

definition example_warmup :: json where
  "example_warmup = JObject [(''type'', JString ''response.create''), (''model'', JString ''m''),
     (''generate'', JBool False), (''tools'', JArray [])]"

definition example_codec :: codec where
  "example_codec = \<lparr>
     parse = (\<lambda>s. if s = ''create'' then Inr example_create
        else if s = ''warmup'' then Inr example_warmup
        else if s = ''1'' @ [LF] @ ''2'' then Inr (JObject [(''type'', JString ''response.completed'')])
        else if s = ''delta'' then Inr (JObject [(''type'', JString ''x'')])
        else Inl ''no json''),
     to_vec = (\<lambda>v. Inr ''[]''), display = (\<lambda>v. ''[]'')\<rparr>"

lemma example_codec_simps [simp]:
  "parse example_codec s = (if s = ''create'' then Inr example_create
     else if s = ''warmup'' then Inr example_warmup
     else if s = ''1'' @ [LF] @ ''2'' then Inr (JObject [(''type'', JString ''response.completed'')])
     else if s = ''delta'' then Inr (JObject [(''type'', JString ''x'')])
     else Inl ''no json'')"
  "to_vec example_codec v = Inr ''[]''"
  "display example_codec v = ''[]''"
  by (simp_all add: example_codec_def)

lemma example_codec_ok: "\<forall>v. parse example_codec s = Inr v \<longrightarrow> json_ok v"
  by (auto simp: example_create_def example_warmup_def map_ok_def split: if_splits)

definition example_session :: responses_session where
  "example_session = (responses_session_new ''up'' 9)\<lparr>rs_history := [JString ''t'', JString ''u'']\<rparr>"

lemmas create_eval = parse_response_create_def inspect_ws_text_def parse_object_def inspect_object_def
  example_create_def example_warmup_def str_at_def map_get_Cons as_str_def as_object_def as_bool_def trim_eval

section \<open>Session\<close>

text \<open>Whatever commands a session of the Responses bridge sees, rejected ones included, its
  history has at most 256 items and serializes within the configured bytes.\<close>

theorem responses_history_bounded:
  "history_within c max_bytes
     (rs_history (session_run (responses_prepare_action c nanos) (responses_commit_outcome c) commands
        (responses_session_new upstream_model max_bytes)))"
proof -
  let ?s = "responses_session_new upstream_model max_bytes"
  let ?run = "session_run (responses_prepare_action c nanos) (responses_commit_outcome c) commands ?s"
  have "responses_within c ?s (rs_history ?s)"
    by (simp add: responses_within_def history_within_def responses_session_new_def)
  then have "responses_within c ?run (rs_history ?run)" by (rule responses_bridge.run_within)
  moreover have "rs_max_bytes ?run = rs_max_bytes ?s"
    by (rule responses_run_max)
  ultimately show ?thesis by (simp add: responses_within_def responses_session_new_def)
qed

text \<open>C3: a command that the session forwards becomes a request with the upstream model, streaming,
  without the WebSocket fields, with every other field as the client or the remembered defaults give
  it. Where the history is replayed, the previous response is dropped and the input is the whole
  history followed by the current input without the longest prefix that repeats its end, within the bounds.\<close>

theorem responses_request:
  assumes "responses_prepare c nanos message s = (Inr (BridgeRequest body input), s')"
    and ok: "\<forall>v. parse c message = Inr v \<longrightarrow> json_ok v"
  shows "\<exists>create request. parse c message = Inr (JObject create) \<and>
    to_vec c (JObject request) = Inr body \<and> length body \<le> rs_max_bytes s \<and>
    forwards (capture_explicit_defaults create s) create input request \<and>
    (if rs_history s \<noteq> [] \<and> (previous_response create \<noteq> None \<or> contains_tool_output (current_items create))
     then \<exists>k. input = rs_history s @ drop k (current_items create) \<and>
            k \<le> length (rs_history s) \<and> k \<le> length (current_items create) \<and>
            list_all2 same_item (drop (length (rs_history s) - k) (rs_history s)) (take k (current_items create)) \<and>
            (\<forall>n \<le> length (rs_history s). n \<le> length (current_items create) \<and>
               list_all2 same_item (drop (length (rs_history s) - n) (rs_history s)) (take n (current_items create)) \<longrightarrow> n \<le> k) \<and>
            history_within c (rs_max_bytes s) input
     else input = current_items create)"
proof -
  from responses_prepare_cases [OF assms(1)] ok obtain create request where
    request: "parse c message = Inr (JObject create)" "to_vec c (JObject request) = Inr body"
      "length body \<le> rs_max_bytes s" "forwards (capture_explicit_defaults create s) create input request"
    and input: "if replays s (previous_response create) (current_items create)
     then bounded_merge c (current_items create) (capture_explicit_defaults create s) = Inr input
     else input = current_items create" by blast
  let ?k = "overlap_count same_item (rs_history s) (current_items create)"
  have "replays s (previous_response create) (current_items create) \<Longrightarrow>
      input = rs_history s @ drop ?k (current_items create) \<and> history_within c (rs_max_bytes s) input"
    using input by (auto simp: bounded_merge_Inr merge_items_def history_within_def)
  moreover have "n \<le> ?k"
    if "n \<le> length (rs_history s)" "n \<le> length (current_items create)"
      "list_all2 same_item (drop (length (rs_history s) - n) (rs_history s)) (take n (current_items create))" for n
    using that by (intro overlap_largest) simp_all
  ultimately show ?thesis
    using input request overlap_matches [of same_item "rs_history s" "current_items create"]
    by (intro exI [where x = create] exI [where x = request]) (auto simp: replays_def)
qed

theorem responses_request_witness:
  "fst (responses_prepare example_codec 0 ''create'' example_session) =
     Inr (BridgeRequest ''[]'' [JString ''t'', JString ''u'', JString ''v'']) \<and>
   (\<exists>request. map_get request ''model'' = Some (JString ''up'') \<and>
      map_get request ''previous_response_id'' = None)"
proof -
  let ?input = "[JString ''t'', JString ''u'', JString ''v'']"
  have run: "fst (responses_prepare example_codec 0 ''create'' example_session) = Inr (BridgeRequest ''[]'' ?input)"
    by (simp add: responses_prepare_def create_eval Let_def forwarded_fields_def apply_warmup_defaults_def
      warmup_entries_def insert_defaults_def insert_default_def capture_explicit_defaults_def capture_default_def
      replays_def bounded_merge_def merge_items_def overlap_count_def same_item_def item_identity_def
      example_session_def responses_session_new_def warmup_default_def take_input_items_def serialized_len_def)
  then have "responses_prepare example_codec 0 ''create'' example_session =
      (Inr (BridgeRequest ''[]'' ?input), snd (responses_prepare example_codec 0 ''create'' example_session))"
    by (metis prod.collapse)
  then show ?thesis
  proof (rule responses_request [OF _ example_codec_ok, THEN exE], elim exE conjE)
    fix create request
    assume create: "parse example_codec ''create'' = Inr (JObject create)"
      and request: "forwards (capture_explicit_defaults create example_session) create ?input request"
    have "previous_response create \<noteq> None"
      using create by (auto simp: example_create_def previous_response_def map_get_Cons as_str_def)
    with forwards_previous [OF request]
    have "map_get request ''model'' = Some (JString ''up'') \<and> map_get request ''previous_response_id'' = None"
      by (simp add: example_session_def responses_session_new_def)
    with run show ?thesis by (intro conjI exI [where x = request]) simp_all
  qed
qed

text \<open>a warmup command is answered locally: the session keeps its history, remembers exactly the
  defaults the command names, and the next request that refers to the warmup does not forward the
  reference.\<close>

theorem responses_warmup:
  fixes c nanos message s
  defines "run \<equiv> responses_prepare c nanos message s"
  assumes "parse_response_create c message = Inr create"
    and "map_get create ''generate'' = Some (JBool False)"
  shows "fst run = Inr (BridgeWarmup (warmup_events c (''resp_provider_x_warmup_'' @ hex_string nanos))) \<and>
    rs_history (snd run) = rs_history s \<and>
    (\<forall>k \<in> {''instructions'', ''tools'', ''parallel_tool_calls'', ''tool_choice''}.
       default_of (snd run) k = map_get create k) \<and>
    (\<forall>later input body.
       previous_response later = Some (''resp_provider_x_warmup_'' @ hex_string nanos) \<longrightarrow>
       forwards (capture_explicit_defaults later (snd run)) later input body \<longrightarrow>
       map_get body ''previous_response_id'' = None)"
proof -
  define response where "response = ''resp_provider_x_warmup_'' @ hex_string nanos"
  let ?s = "(capture_warmup create s)\<lparr>rs_warmup_id := Some response\<rparr>"
  have run: "run = (Inr (BridgeWarmup (warmup_events c response)), ?s)"
    using assms(2,3) by (simp add: run_def responses_prepare_def Let_def hex_random_id_def as_bool_def response_def)
  have "\<forall>k \<in> {''instructions'', ''tools'', ''parallel_tool_calls'', ''tool_choice''}.
      default_of ?s k = map_get create k"
    by (simp add: default_of_def warmup_entries_def capture_warmup_def)
  moreover have "map_get body ''previous_response_id'' = None"
    if "previous_response later = Some response"
      and "forwards (capture_explicit_defaults later ?s) later input body" for later body input
    using that(1) by (intro forwards_previous(2) [OF that(2)]) simp_all
  ultimately show ?thesis
    unfolding run response_def [symmetric] by simp
qed

theorem responses_warmup_witness:
  "rs_history (snd (responses_prepare example_codec 255 ''warmup'' example_session)) = [JString ''t'', JString ''u''] \<and>
   default_of (snd (responses_prepare example_codec 255 ''warmup'' example_session)) ''tools'' = Some (JArray [])"
proof -
  obtain m where m: "example_warmup = JObject m" "map_get m ''tools'' = Some (JArray [])"
      "map_get m ''generate'' = Some (JBool False)"
    by (simp add: example_warmup_def map_get_Cons)
  have "parse_response_create example_codec ''warmup'' = Inr m"
    using m(1) by (auto simp: create_eval)
  from responses_warmup [OF this m(3), of 255 example_session] m(2) show ?thesis
    by (simp add: example_session_def)
qed

section \<open>Decoder\<close>



text \<open>C9: the reasoning state of a decoder stays exact and bounded: after any pushes and a finish, also
  failed ones, it knows at most 256 items, and the bytes it counts are those of their identifiers and
  at most the configured limit; the buffer is free of carriage returns and within its limit.\<close>

theorem responses_decoder_bounded:
  fixes c chunks limit
  assumes "limit < usize_max"
  defines "d \<equiv> snd (feed (responses_decoder_push c) chunks (responses_decoder_new limit))"
  defines "e \<equiv> snd (responses_decoder_finish c d)"
  shows "length (buffer d) \<le> max_buffer_bytes d \<and> CR \<notin> set (buffer d) \<and>
    length (sources (rc_reasoning (core e))) \<le> 256 \<and>
    item_id_bytes (rc_reasoning (core e)) = bt_sum (\<lambda>i _. length i) (sources (rc_reasoning (core e))) \<and>
    item_id_bytes (rc_reasoning (core e)) \<le> max_item_id_bytes (rc_reasoning (core e))"
proof -
  have "responses_decoder_ok (responses_decoder_new limit)"
    using assms(1) by (simp add: responses_decoder_ok_def responses_decoder_new_def buffer_ok_def)
  then have d: "responses_decoder_ok d"
    unfolding d_def by (rule responses_stream.feed_ok)
  then have "responses_decoder_ok e"
    unfolding e_def by (rule responses_stream.finish_ok)
  with d show ?thesis by (simp add: responses_decoder_ok_def buffer_ok_def reasoning_ok_def)
qed

theorem responses_decoder_bounded_witness:
  "CR \<notin> set (buffer (snd (feed (responses_decoder_push example_codec) [''a'' @ [CR]] (responses_decoder_new 9))))"
  using responses_decoder_bounded [of 9 example_codec "[''a'' @ [CR]]"] by (simp add: usize_max_def)

definition two_line_event :: "str \<times> str" where
  "two_line_event = (''data:1'' @ [CR], [LF] @ ''data:2'' @ [CR, LF, CR, LF])"

text \<open>A cut that separates a carriage return from its line feed does change the stream: an event
  whose data spans two lines is accepted in one chunk, and rejected when the chunk ends between the
  two bytes of its first line ending.\<close>

theorem crlf_cut_changes_stream:
  "fst (responses_decoder_push example_codec (fst two_line_event @ snd two_line_event) (responses_decoder_new 99)) =
     Inr [''[]''] \<and>
   fst (feed (responses_decoder_push example_codec) [fst two_line_event, snd two_line_event]
     (responses_decoder_new 99)) = Inl BridgeInvalidStream"
proof -
  note eval = sse_data_def lines_def strip_cr_def List.map_filter_def trim_eval from_utf8_lossy_ascii
  have both: "sse_data (replace_crlf (from_utf8_lossy (''data:1'' @ [LF] @ ''data:2'' @ [LF, LF]))) = ''1'' @ [LF] @ ''2''"
    and first: "sse_data (replace_crlf (from_utf8_lossy (''data:1'' @ [LF, LF]))) = ''1''"
    by (simp_all add: eval)
  let ?d = "responses_decoder_new 99"
  have "fst (responses_parse_block example_codec (''data:1'' @ [LF] @ ''data:2'' @ [LF, LF]) (core ?d)) =
      Inr (Some ''[]'')"
    unfolding responses_parse_block_def Let_def both
    by (simp add: note_terminal_def Let_def on_reasoning_def normalize_event_def act_apply str_at_def
      map_get_Cons as_str_def is_native_reasoning_summary_event_def native_summary_events_def
      is_raw_reasoning_event_def jmodify_def)
  then obtain r where parse_whole: "responses_parse_block example_codec
      (''data:1'' @ [LF] @ ''data:2'' @ [LF, LF]) (core ?d) = (Inr (Some ''[]''), r)"
    by (metis prod.collapse)
  have parse_first: "responses_parse_block example_codec (''data:1'' @ [LF, LF]) (core ?d) = (Inl InvalidStream, core ?d)"
    unfolding responses_parse_block_def Let_def first by simp
  have "fst (responses_push example_codec (fst two_line_event @ snd two_line_event) ?d) = Inr [''[]'']"
    using parse_whole
    by (simp add: responses_push_def sse_push_def two_line_event_def responses_decoder_new_def saturating_add_def
      normalize_sse_newlines_def drain_blocks.simps act_apply present_def List.map_filter_def usize_max_def)
  moreover have "responses_push example_codec (fst two_line_event) ?d = (Inr [], ?d\<lparr>buffer := ''data:1'' @ [LF]\<rparr>)"
    by (simp add: responses_push_def sse_push_def two_line_event_def responses_decoder_new_def saturating_add_def
      normalize_sse_newlines_def drain_blocks.simps act_apply present_def List.map_filter_def usize_max_def)
  moreover have second: "fst (responses_push example_codec (snd two_line_event) (?d\<lparr>buffer := ''data:1'' @ [LF]\<rparr>)) =
      Inl InvalidStream"
    using parse_first
    by (simp add: responses_push_def sse_push_def two_line_event_def responses_decoder_new_def saturating_add_def
      normalize_sse_newlines_def drain_blocks.simps act_apply usize_max_def)
  ultimately show ?thesis
    by (cases "responses_push example_codec (snd two_line_event) (?d\<lparr>buffer := ''data:1'' @ [LF]\<rparr>)";
        cases "responses_push example_codec (fst two_line_event @ snd two_line_event) ?d")
      (simp add: responses_decoder_push_def act_apply act_map_err_def responses_map_failure_def)
qed

section \<open>Reasoning\<close>

text \<open>The source of a reasoning event: its item and whether it is native or raw.\<close>

definition source_of :: "json \<Rightarrow> (str \<times> reasoning_source) option" where
  "source_of event =
     (case str_at event ''type'' of
        None \<Rightarrow> None
      | Some ty \<Rightarrow>
          (case str_at event ''item_id'' of
             None \<Rightarrow> None
           | Some i \<Rightarrow>
               if is_native_reasoning_summary_event ty then Some (i, NativeSummary)
               else if is_raw_reasoning_event event then Some (i, RawAsSummary)
               else None))"

definition ends_item :: "str \<Rightarrow> json \<Rightarrow> bool" where
  "ends_item i event \<longleftrightarrow>
     str_at event ''type'' = Some ''response.output_item.done'' \<and>
     Option.bind (jget event ''item'') (\<lambda>item. str_at item ''id'') = Some i"

fun normalize_all :: "json list \<Rightarrow> (reasoning_compatibility, protocol_error, json option list) action" where
  "normalize_all [] = act_ok []"
| "normalize_all (v # vs) =
     act (normalize_event v) (\<lambda>out. act (normalize_all vs) (\<lambda>outs. act_ok (out # outs)))"

lemma done_is_no_source:
  "str_at event ''type'' = Some ''response.output_item.done'' \<Longrightarrow>
   \<not> is_native_reasoning_summary_event ''response.output_item.done'' \<and> \<not> is_raw_reasoning_event event"
  by (simp add: is_native_reasoning_summary_event_def native_summary_events_def is_raw_reasoning_event_def)

lemma record_source_Inr:
  assumes "record_source i k r = (Inr found, r')"
  shows "found = bt_get (sources r) i \<and>
    bt_get (sources r') j = (if j = i then Some (unwrap_or (bt_get (sources r) i) k) else bt_get (sources r) j)"
  using record_source_cases [of r i k] by cases (use assms in auto)

text \<open>One event: the recorded source of an item never changes while the item is open, and an event
  of the item is passed on exactly when it comes from that source.\<close>

text \<open>One event: the recorded source of an item never changes while the item is open, and an event
  of the item is passed on exactly when it comes from that source.\<close>

definition source_after :: "str \<Rightarrow> reasoning_source option \<Rightarrow> json \<Rightarrow> reasoning_source option" where
  "source_after i known event =
     (case known of
        Some k \<Rightarrow> Some k
      | None \<Rightarrow> (case source_of event of Some (j, k) \<Rightarrow> if j = i then Some k else None | None \<Rightarrow> None))"

lemma remove_source_get:
  "bt_get (sources (remove_source j r)) i = (if i = j then None else bt_get (sources r) i)"
  by (auto simp: remove_source_def bt_has_def)

lemma normalize_event_source:
  assumes run: "normalize_event event r = (Inr out, r')"
  shows "source_of event = Some (i, k) \<Longrightarrow>
      (out \<noteq> None \<longleftrightarrow> source_after i (bt_get (sources r) i) event = Some k)"
    and "\<not> ends_item i event \<Longrightarrow>
      bt_get (sources r') i = source_after i (bt_get (sources r) i) event"
proof -
  have two: "k \<noteq> RawAsSummary \<longleftrightarrow> k = NativeSummary" "k \<noteq> NativeSummary \<longleftrightarrow> k = RawAsSummary" for k
    by (cases k; simp)+
  show "out \<noteq> None \<longleftrightarrow> source_after i (bt_get (sources r) i) event = Some k" if "source_of event = Some (i, k)"
    using run that
    by (auto simp: normalize_event_def source_of_def source_after_def Let_def record_optional_def act_Inr two
        split: option.splits if_splits dest!: record_source_Inr [where j = i])
  show "bt_get (sources r') i = source_after i (bt_get (sources r) i) event" if "\<not> ends_item i event"
    using run that
    by (auto simp: normalize_event_def source_of_def source_after_def Let_def record_optional_def act_Inr two
        ends_item_def remove_source_get
        split: option.splits if_splits dest!: record_source_Inr [where j = i])
qed

lemma source_after_fold:
  assumes "normalize_all events r = (Inr outs, r')" and "\<forall>event \<in> set events. \<not> ends_item i event"
  shows "length outs = length events \<and>
    bt_get (sources r') i = fold (\<lambda>event known. source_after i known event) events (bt_get (sources r) i)"
  using assms
proof (induction events arbitrary: r outs)
  case (Cons event events)
  then obtain out s outs' where first: "normalize_event event r = (Inr out, s)"
    and rest: "normalize_all events s = (Inr outs', r')" and outs: "outs = out # outs'"
    by (auto simp: act_Inr)
  with Cons.IH [OF rest] Cons.prems(2) normalize_event_source(2) [OF first] show ?case by simp
qed simp

lemma source_after_known: "fold (\<lambda>event known. source_after i known event) events (Some k) = Some k"
  by (induction events) (simp_all add: source_after_def)

lemma normalize_all_sources:
  assumes "normalize_all events r = (Inr outs, r')" and "\<forall>event \<in> set events. \<not> ends_item i event"
    and "j < length events" and "source_of (events ! j) = Some (i, k)"
  shows "outs ! j \<noteq> None \<longleftrightarrow> bt_get (sources r') i = Some k"
  using assms
proof (induction events arbitrary: r outs j)
  case (Cons event events)
  then obtain out s outs' where first: "normalize_event event r = (Inr out, s)"
    and rest: "normalize_all events s = (Inr outs', r')" and outs: "outs = out # outs'"
    by (auto simp: act_Inr)
  show ?case
  proof (cases j)
    case 0
    with Cons.prems have source: "source_of event = Some (i, k)" by simp
    then have known: "source_after i (bt_get (sources r) i) event \<noteq> None"
      by (simp add: source_after_def split: option.split)
    have "bt_get (sources s) i = source_after i (bt_get (sources r) i) event"
      using normalize_event_source(2) [OF first] Cons.prems(2) by simp
    moreover have "bt_get (sources r') i = fold (\<lambda>event known. source_after i known event) events (bt_get (sources s) i)"
      using source_after_fold [OF rest] Cons.prems(2) by simp
    ultimately have "bt_get (sources r') i = source_after i (bt_get (sources r) i) event"
      using known by (auto simp: source_after_known)
    with normalize_event_source(1) [OF first source] outs 0 show ?thesis by simp
  next
    case (Suc n)
    with Cons.IH [OF rest, of n] Cons.prems outs show ?thesis by simp
  qed
qed simp

text \<open>C8: for every reasoning item, while it is open, the decoder passes on the events of one source
  only: of two events of the same item, of which one is a native summary event and the other a raw
  reasoning event, at most one reaches the client.\<close>

theorem reasoning_single_source:
  assumes "normalize_all events (reasoning_new limit) = (Inr outs, r)"
    and "\<forall>event \<in> set events. \<not> ends_item i event"
    and "j < length events" and "source_of (events ! j) = Some (i, k)" and "outs ! j \<noteq> None"
    and "m < length events" and "source_of (events ! m) = Some (i, l)"
  shows "outs ! m \<noteq> None \<longleftrightarrow> l = k"
  using normalize_all_sources [OF assms(1,2,3,4)] normalize_all_sources [OF assms(1,2,6,7)] assms(5)
  by auto

definition native_event :: json where
  "native_event = JObject [(''type'', JString ''response.reasoning_summary_text.delta''), (''item_id'', JString ''i'')]"

definition raw_event :: json where
  "raw_event = JObject [(''type'', JString ''response.reasoning_text.delta''), (''item_id'', JString ''i'')]"

theorem reasoning_single_source_witness:
  "\<exists>outs r. normalize_all [native_event, raw_event, native_event] (reasoning_new 9) = (Inr outs, r) \<and>
     outs ! 0 \<noteq> None \<and> outs ! 1 = None"
proof -
  let ?events = "[native_event, raw_event, native_event]"
  let ?r = "\<lparr>sources = [(''i'', NativeSummary)], item_id_bytes = 1, max_item_id_bytes = 9\<rparr>"
  note eval = native_event_def raw_event_def str_at_def map_get_Cons as_str_def
    is_native_reasoning_summary_event_def native_summary_events_def is_raw_reasoning_event_def
  have run: "normalize_all ?events (reasoning_new 9) = (Inr [Some native_event, None, Some native_event], ?r)"
    by (simp add: normalize_event_def Let_def eval record_optional_def record_source_def act_apply
      reasoning_new_def bt_get_Cons checked_add_def usize_max_def)
  have none: "\<forall>event \<in> set ?events. \<not> ends_item ''i'' event"
    by (simp add: ends_item_def eval)
  have native: "source_of native_event = Some (''i'', NativeSummary)"
    and raw: "source_of raw_event = Some (''i'', RawAsSummary)"
    by (simp_all add: source_of_def eval)
  have "[Some native_event, None, Some native_event] ! 1 \<noteq> None \<longleftrightarrow> RawAsSummary = NativeSummary"
    by (rule reasoning_single_source [OF run none, of 0 NativeSummary 1 RawAsSummary])
      (simp_all add: native raw)
  with run show ?thesis by auto
qed

end
