(* ===== verification/QueuedStream.thy ===== *)
theory QueuedStream
  imports Bridge
begin

text \<open>
  The decoders of the Chat Completions and the Anthropic stream: parsing a block puts the events
  into a queue of the decoder, and \<open>push\<close> drains the queue when all complete blocks are parsed
  (\<open>push\<close> and \<open>finish\<close> of \<open>chat_completions/bridge.rs\<close> and \<open>anthropic_messages/bridge.rs\<close>).
  The locale states what the parser of a block owes its queue: it only appends to it and does
  not look at it. Then the chunks of a body do not matter.
\<close>

definition queued_push ::
  "('c \<Rightarrow> str list) \<Rightarrow> (str list \<Rightarrow> 'c \<Rightarrow> 'c) \<Rightarrow> 'e \<Rightarrow> (str \<Rightarrow> str) \<Rightarrow> (str \<Rightarrow> ('c, 'e, unit) action) \<Rightarrow> str \<Rightarrow>
     ('c sse_decoder, 'e, str list) action" where
  "queued_push queue put_queue limit_error newlines parse_block data d =
     (case sse_push limit_error newlines parse_block data d of
        (Inl e, d) \<Rightarrow> (Inl e, d)
      | (Inr _, d) \<Rightarrow> (Inr (queue (core d)), d\<lparr>core := put_queue [] (core d)\<rparr>))"

lemma queued_push_core:
  assumes "\<And>b. keeps P (pb b)" and "\<And>k. P k \<Longrightarrow> P (put [] k)" and "P (core d)"
  shows "P (core (snd (queued_push queue put e n pb data d)))"
proof -
  have "P (snd (snd (drain_blocks pb buf (core d))))" for buf
    using assms(1,3) by (rule drain_blocks_keeps)
  then have "P (core (snd (sse_push e n pb data d)))"
    using assms(3) by (auto simp: sse_push_def split: prod.split) (metis snd_conv)
  with assms(2) show ?thesis
    by (cases "sse_push e n pb data d"; cases "fst (sse_push e n pb data d)") (simp_all add: queued_push_def)
qed

lemma queued_push_max [simp]: "max_buffer_bytes (snd (queued_push queue put e n pb data d)) = max_buffer_bytes d"
  using sse_push_max [of e n pb data d]
  by (cases "sse_push e n pb data d"; cases "fst (sse_push e n pb data d)") (simp_all add: queued_push_def)

locale queued_stream =
  fixes queue :: "'c \<Rightarrow> str list"
    and put_queue :: "str list \<Rightarrow> 'c \<Rightarrow> 'c"
    and parse_block :: "str \<Rightarrow> ('c, 'e, unit) action"
    and limit_error :: 'e
    and newlines :: "str \<Rightarrow> str"
  assumes queue_put: "queue (put_queue q c) = q"
    and put_put: "put_queue q (put_queue r c) = put_queue q c"
    and put_queue_id: "put_queue (queue c) c = c"
    and frame: "parse_block b (put_queue (p @ queue c) c) =
      (fst (parse_block b c), put_queue (p @ queue (snd (parse_block b c))) (snd (parse_block b c)))"
    and newlines_copy: "newlines s = normalize_copy s"
begin

lemma drain_frame:
  "drain_blocks parse_block buf (put_queue (p @ queue c) c) =
   (case drain_blocks parse_block buf c of (r, rest, c') \<Rightarrow> (r, rest, put_queue (p @ queue c') c'))"
proof (induction buf arbitrary: c rule: measure_induct_rule [of length])
  case (less buf)
  show ?case
  proof (cases "find_blank buf")
    case None
    then show ?thesis by (simp add: drain_blocks.simps [of parse_block buf])
  next
    case (Some i)
    obtain r c' where step: "parse_block (take (i + 2) buf) c = (r, c')" by fastforce
    have framed: "parse_block (take (i + 2) buf) (put_queue (p @ queue c) c) = (r, put_queue (p @ queue c') c')"
      using frame [of "take (i + 2) buf" p c] step by simp
    show ?thesis
    proof (cases r)
      case (Inl e)
      with Some step framed show ?thesis by (simp add: drain_blocks.simps [of parse_block buf])
    next
      case (Inr a)
      have "length (drop (i + 2) buf) < length buf" using find_blank_bound [OF Some] by simp
      from less.IH [OF this, of c'] Some step framed Inr show ?thesis
        by (simp add: drain_blocks.simps [of parse_block buf] split: prod.split sum.split)
    qed
  qed
qed

abbreviation push :: "str \<Rightarrow> ('c sse_decoder, 'e, unit list) action" where
  "push \<equiv> sse_push limit_error newlines parse_block"

abbreviation pushq :: "str \<Rightarrow> ('c sse_decoder, 'e, str list) action" where
  "pushq \<equiv> queued_push queue put_queue limit_error newlines parse_block"

lemma push_frame:
  assumes "push data d = (r, d')"
  shows "push data (d\<lparr>core := put_queue (p @ queue (core d)) (core d)\<rparr>) =
     (r, d'\<lparr>core := put_queue (p @ queue (core d')) (core d')\<rparr>)"
  using assms by (auto simp: sse_push_def drain_frame split: prod.splits if_splits)

lemma drained_again:
  "d\<lparr>core := put_queue (queue (core d)) (put_queue [] (core d))\<rparr> = d"
  by (simp add: put_put put_queue_id)

lemma push_after_drain:
  assumes "push data (d\<lparr>core := put_queue [] (core d)\<rparr>) = (r, d')"
  shows "push data d = (r, d'\<lparr>core := put_queue (queue (core d) @ queue (core d')) (core d')\<rparr>)"
  using push_frame [OF assms, of "queue (core d)"] by (simp add: queue_put put_put put_queue_id)

lemma pushq_two:
  assumes ok: "buffer_ok d" and room: "fits d (s @ t)" and cut: "\<not> splits_crlf s t"
  shows "fst (act (pushq s) (\<lambda>out. act (pushq t) (\<lambda>rest. act_ok (out @ rest))) d) = fst (pushq (s @ t) d) \<and>
    (\<forall>out. fst (pushq (s @ t) d) = Inr out \<longrightarrow>
       snd (act (pushq s) (\<lambda>out. act (pushq t) (\<lambda>rest. act_ok (out @ rest))) d) = snd (pushq (s @ t) d))"
proof (cases "push s d")
  case (Pair r d1)
  note two = sse_push_two [OF ok cut room newlines_copy, of limit_error parse_block]
  show ?thesis
  proof (cases r)
    case (Inl e)
    with Pair two show ?thesis
      by (cases "push (s @ t) d") (simp add: act_apply queued_push_def)
  next
    case (Inr us)
    define d1' where "d1' = d1\<lparr>core := put_queue [] (core d1)\<rparr>"
    obtain r2 d2 where second: "push t d1' = (r2, d2)" by fastforce
    then have plain: "push t d1 = (r2, d2\<lparr>core := put_queue (queue (core d1) @ queue (core d2)) (core d2)\<rparr>)"
      unfolding d1'_def by (rule push_after_drain)
    have first: "pushq s d = (Inr (queue (core d1)), d1')"
      using Pair Inr by (simp add: queued_push_def d1'_def)
    show ?thesis
    proof (cases r2)
      case (Inl e)
      with Pair \<open>r = Inr us\<close> plain two second first show ?thesis
        by (cases "push (s @ t) d") (simp add: act_apply queued_push_def)
    next
      case (Inr vs)
      with Pair \<open>r = Inr us\<close> plain two
      have "push (s @ t) d = (Inr (us @ vs), d2\<lparr>core := put_queue (queue (core d1) @ queue (core d2)) (core d2)\<rparr>)"
        by (cases "push (s @ t) d") (simp add: act_apply)
      with Inr second first show ?thesis
        by (simp add: act_apply queued_push_def queue_put put_put)
    qed
  qed
qed

lemma pushq_room:
  assumes ok: "buffer_ok d" and room: "fits d (s @ t)" and first: "pushq s d = (Inr out, d')"
  shows "fits d' t"
proof (cases "push s d")
  case (Pair r d1)
  with first obtain us where "r = Inr us" and d': "d' = d1\<lparr>core := put_queue [] (core d1)\<rparr>"
    by (cases r) (simp_all add: queued_push_def)
  with Pair sse_push_room [OF ok room newlines_copy, of limit_error parse_block us d1] show ?thesis
    by (simp add: fits_def)
qed

lemma pushq_buffer_ok: "buffer_ok d \<Longrightarrow> buffer_ok (snd (pushq data d))"
  using sse_push_buffer_ok [of d newlines limit_error parse_block data] newlines_copy
  by (cases "push data d"; cases "fst (push data d)") (simp_all add: queued_push_def buffer_ok_def)

end

end
