(* ===== verification/EmitterQueue.thy ===== *)
theory EmitterQueue
  imports OutputEmitter QueuedStream
begin

text \<open>
  The queue of the emitter: every operation only appends to the pending events and does not look
  at them, which is what the decoders that drain it owe the locale of \<open>QueuedStream\<close>.
\<close>

definition queued :: "str list \<Rightarrow> output_emitter \<Rightarrow> output_emitter" where
  "queued p e = e\<lparr>pending := p @ pending e\<rparr>"

definition frames :: "(output_emitter, 'e, 'a) action \<Rightarrow> bool" where
  "frames m \<longleftrightarrow> (\<forall>p e. m (queued p e) = (fst (m e), queued p (snd (m e))))"

named_theorems frames_intros \<open>rules that show that a method only appends to the queue\<close>

lemma framesI: "(\<And>p e. m (queued p e) = (fst (m e), queued p (snd (m e)))) \<Longrightarrow> frames m"
  by (simp add: frames_def)

lemma framesD: "frames m \<Longrightarrow> m (queued p e) = (fst (m e), queued p (snd (m e)))"
  by (simp add: frames_def)

lemma queued_fields [simp]:
  "pending (queued p e) = p @ pending e"
  "max_aggregate_bytes (queued p e) = max_aggregate_bytes e" "aggregate_bytes (queued p e) = aggregate_bytes e"
  "response_id (queued p e) = response_id e" "reasoning_id (queued p e) = reasoning_id e"
  "message_id (queued p e) = message_id e" "reasoning_buf (queued p e) = reasoning_buf e"
  "text_buf (queued p e) = text_buf e" "tool_calls (queued p e) = tool_calls e"
  "tool_names (queued p e) = tool_names e" "reasoning_started (queued p e) = reasoning_started e"
  "text_started (queued p e) = text_started e" "finish_reason (queued p e) = finish_reason e"
  "usage (queued p e) = usage e" "usage_bytes (queued p e) = usage_bytes e"
  "out_terminal (queued p e) = out_terminal e" "out_completed (queued p e) = out_completed e"
  by (simp_all add: queued_def)

lemma frames_act [frames_intros]: "frames m \<Longrightarrow> (\<And>a. frames (f a)) \<Longrightarrow> frames (act m f)"
  by (auto simp: frames_def act_apply split: prod.splits sum.splits)

lemma frames_ok [frames_intros]: "frames (act_ok a)"
  by (simp add: frames_def)

lemma frames_err [frames_intros]: "frames (act_err e)"
  by (simp add: frames_def)

lemma frames_upd: "(\<And>p e. u (queued p e) = queued p (u e)) \<Longrightarrow> frames (act_upd u)"
  by (simp add: frames_def)

lemma frames_map_err [frames_intros]: "frames m \<Longrightarrow> frames (act_map_err g m)"
  by (simp add: frames_def act_map_err_def split: prod.split)

lemma frames_if [frames_intros]: "frames m \<Longrightarrow> frames n \<Longrightarrow> frames (if b then m else n)"
  by simp

lemma frames_each [frames_intros]: "(\<And>x. frames (f x)) \<Longrightarrow> frames (act_each f xs)"
  by (induction xs) (auto intro: frames_intros)

lemma frames_option [frames_intros]:
  "frames m \<Longrightarrow> (\<And>a. frames (f a)) \<Longrightarrow> frames (case x of None \<Rightarrow> m | Some a \<Rightarrow> f a)"
  by (cases x) simp_all

lemma frames_reserve [frames_intros]: "frames (reserve_aggregate_bytes n)"
  by (rule framesI) (simp add: reserve_aggregate_bytes_def queued_def split: option.split)

lemma frames_resize [frames_intros]: "frames (resize_aggregate_bytes p n)"
  by (rule framesI) (simp add: resize_aggregate_bytes_def queued_def split: option.split)

lemma queued_output_indices [simp]:
  "message_output_index (queued p e) = message_output_index e"
  "tool_output_index i (queued p e) = tool_output_index i e"
  "tool_identity_of (queued p e) = tool_identity_of e"
  by (simp_all add: message_output_index_def tool_output_index_def tool_identity_of_def fun_eq_iff)

lemma queued_items [simp]:
  "function_call_item (queued p e) = function_call_item e"
  "reasoning_item (queued p e) = reasoning_item e" "message_item (queued p e) = message_item e"
  "tool_item (queued p e) = tool_item e"
  by (simp_all add: function_call_item_def reasoning_item_def message_item_def tool_item_def fun_eq_iff)

lemma queued_start_text: "start_text c (queued p e) = queued p (start_text c e)"
  by (simp add: start_text_def Let_def emission)

lemma queued_start_reasoning: "start_reasoning c (queued p e) = queued p (start_reasoning c e)"
  by (simp add: start_reasoning_def emission)

lemma queued_finish_events [simp]: "finish_events (queued p e) = finish_events e"
proof -
  have "finish_tool_events (queued p e) = finish_tool_events e"
    by (simp add: finish_tool_events_def fun_eq_iff)
  then show ?thesis
    by (simp add: finish_events_def finish_reasoning_events_def finish_text_events_def)
qed

lemma queued_finish_items: "finish_items c (queued p e) = queued p (finish_items c e)"
  by (simp add: finish_items_def emission)

lemma queued_final_event [simp]: "final_event nanos (queued p e) = final_event nanos e"
  by (simp add: final_event_def response_output_def)

lemma queued_finalize:
  assumes "finish_reason e \<noteq> None"
  shows "finalize c nanos (queued p e) = queued p (finalize c nanos e)"
proof -
  from assms obtain r where r: "finish_reason e = Some r" by blast
  show ?thesis
  proof (cases "out_terminal e")
    case False
    with r show ?thesis by (simp add: finalize_eq)
  qed (simp add: finalize_def)
qed

lemma queued_default_call [simp]: "default_call i (queued p e) = default_call i e"
  by (simp add: default_call_def)

lemma queued_emit [simp]: "emit c v (queued p e) = queued p (emit c v e)"
  by (simp add: queued_def emit_eq)

lemma queued_tool_update [simp]:
  "(queued p e)\<lparr>tool_calls := t, aggregate_bytes := n\<rparr> = queued p (e\<lparr>tool_calls := t, aggregate_bytes := n\<rparr>)"
  by (simp add: queued_def)

lemma frames_tool [frames_intros]: "frames (apply_tool_delta c (tool_delta_json i d n a))"
  by (rule framesI)
    (cases a; simp add: apply_tool_delta_def tool_delta_json_fields Let_def split: option.split)

lemma queued_apply_upd:
  "(queued p e)\<lparr>response_id := r\<rparr> = queued p (e\<lparr>response_id := r\<rparr>)"
  "(queued p e)\<lparr>text_buf := t\<rparr> = queued p (e\<lparr>text_buf := t\<rparr>)"
  "(queued p e)\<lparr>reasoning_buf := t\<rparr> = queued p (e\<lparr>reasoning_buf := t\<rparr>)"
  "(queued p e)\<lparr>finish_reason := r\<rparr> = queued p (e\<lparr>finish_reason := r\<rparr>)"
  "(queued p e)\<lparr>usage := u, usage_bytes := n\<rparr> = queued p (e\<lparr>usage := u, usage_bytes := n\<rparr>)"
  by (simp_all add: queued_def)

lemma frames_test:
  "(\<And>p e. b (queued p e) = b e) \<Longrightarrow> frames m \<Longrightarrow> frames n \<Longrightarrow> frames (\<lambda>e. if b e then m e else n e)"
  by (simp add: frames_def)

lemma frames_read:
  "(\<And>p e. g (queued p e) = g e) \<Longrightarrow> (\<And>x. frames (m x)) \<Longrightarrow> frames (\<lambda>e. m (g e) e)"
  by (simp add: frames_def)

lemma frames_apply_event: "frames (apply_event c nanos ev)"
proof (cases ev)
  case (Start s)
  show ?thesis
    unfolding Start apply_event.simps
    by (intro frames_test frames_intros frames_upd) (simp_all add: queued_apply_upd)
next
  case (Usage x y)
  show ?thesis
    unfolding Usage apply_event.simps Let_def
    by (rule frames_read [where g = usage_bytes]; (intro frames_intros frames_upd)?)
      (simp_all add: queued_apply_upd)
next
  case (Text t)
  show ?thesis
    unfolding Text apply_event.simps
    by (intro frames_intros frames_upd) (simp_all add: queued_start_text queued_apply_upd)
next
  case (Reasoning t)
  show ?thesis
    unfolding Reasoning apply_event.simps
    by (intro frames_intros frames_upd) (simp_all add: queued_start_reasoning queued_apply_upd)
next
  case (Tool i d n a)
  show ?thesis unfolding Tool apply_event.simps by (rule frames_tool)
next
  case (Stop r)
  show ?thesis
    unfolding Stop apply_event.simps
    by (intro frames_test frames_intros frames_upd) (simp_all add: queued_apply_upd queued_finish_items)
next
  case Done
  show ?thesis
    unfolding Done apply_event.simps
    by (rule framesI) (simp add: queued_finalize)
qed

lemma frames_emitter_apply [frames_intros]: "frames (emitter_apply c nanos ev)"
  using framesD [OF frames_apply_event] by (auto intro!: framesI simp: emitter_apply_def)

end
