(* ===== verification/ChatBridge.thy ===== *)
theory ChatBridge
  imports EmitterQueue CoreConfig
begin

text \<open>
  \<open>chat_completions/bridge.rs\<close>: the conversion of a Responses command into a Chat Completions
  request (messages, tools, tool choice), the session with its history, and the decoder of the
  upstream stream. The wall clock is the parameter \<open>nanos\<close>.
\<close>

datatype chat_error =
    ChatInvalidJson str
  | ChatBodyMustBeObject
  | ChatUnsupportedWebSocketMessage
  | ChatUnsupportedInput str
  | ChatSerialization str
  | ChatSessionHistoryLimit
  | ChatInvalidStream
  | ChatStreamBufferLimit
  | ChatStreamStateLimit

definition chat_completions_url :: "str \<Rightarrow> str" where
  "chat_completions_url http_endpoint = trim_end_matches [CHR ''/''] http_endpoint @ ''/chat/completions''"

section \<open>Tools\<close>

definition flatten_byte :: "char \<Rightarrow> str" where
  "flatten_byte b =
     (if is_ascii_alphanumeric b \<or> b = CHR ''_'' \<or> b = CHR ''-'' then [b]
      else ''_x'' @ hex2 b @ ''_'')"

definition flatten_tool_name :: "str \<Rightarrow> str \<Rightarrow> str" where
  "flatten_tool_name namespace name = concat (map flatten_byte (namespace @ ''__'' @ name))"

type_synonym tools_acc = "json list \<times> (str, tool_identity) btree"

text \<open>\<open>for name in ["description", "parameters", "strict"]\<close>\<close>

definition copy_fields :: "str list \<Rightarrow> json \<Rightarrow> jmap \<Rightarrow> jmap" where
  "copy_fields names tool function =
     fold (\<lambda>name m. case jget tool name of None \<Rightarrow> m | Some v \<Rightarrow> map_insert name v m) names function"

definition push_function_tool :: "json \<Rightarrow> str option \<Rightarrow> tools_acc \<Rightarrow> chat_error + tools_acc" where
  "push_function_tool tool namespace acc =
     and_then (ok_or (ChatUnsupportedInput ''tool.name'') (str_at tool ''name'')) (\<lambda>original_name.
       let chat_name = (case namespace of None \<Rightarrow> original_name | Some n \<Rightarrow> flatten_tool_name n original_name)
       in if bt_has (snd acc) chat_name
          then Inl (ChatUnsupportedInput
                 (''duplicate tool name after Chat Completions conversion: '' @ chat_name))
          else
            let function = copy_fields [''description'', ''parameters'', ''strict''] tool
                  [(''name'', JString chat_name)]
            in Inr (fst acc @ [JObject [(''type'', JString ''function''), (''function'', JObject function)]],
                    bt_insert chat_name \<lparr>identity_name = original_name, identity_namespace = namespace\<rparr>
                      (snd acc)))"

definition push_child :: "str \<Rightarrow> tools_acc \<Rightarrow> json \<Rightarrow> chat_error + tools_acc" where
  "push_child namespace acc child =
     (if str_at child ''type'' \<noteq> Some ''function''
      then Inl (ChatUnsupportedInput (unwrap_or (str_at child ''type'') ''namespace tool''))
      else push_function_tool child (Some namespace) acc)"

definition ignored_tool_types :: "str list" where
  "ignored_tool_types = [''web_search'', ''web_search_preview'', ''tool_search'']"

definition convert_tool :: "tools_acc \<Rightarrow> json \<Rightarrow> chat_error + tools_acc" where
  "convert_tool acc tool =
     (let ty = str_at tool ''type'' in
      if ty = Some ''function'' then push_function_tool tool None acc
      else if ty = Some ''namespace'' then
        and_then (ok_or (ChatUnsupportedInput ''namespace.name'') (str_at tool ''name'')) (\<lambda>namespace.
        and_then (ok_or (ChatUnsupportedInput ''namespace.tools'') (array_at tool ''tools'')) (\<lambda>children.
        try_fold (push_child namespace) acc children))
      else (case ty of
              Some t \<Rightarrow> if t \<in> set ignored_tool_types then Inr acc else Inl (ChatUnsupportedInput t)
            | None \<Rightarrow> Inl (ChatUnsupportedInput ''tool'')))"

definition convert_tools :: "json \<Rightarrow> chat_error + tools_acc" where
  "convert_tools tools =
     and_then (ok_or (ChatUnsupportedInput ''tools'') (as_array tools)) (\<lambda>tools.
     try_fold convert_tool ([], []) tools)"

text \<open>\<open>tool_names.iter().find(..)\<close>: the first entry in the order of the wire names.\<close>

definition find_tool :: "(tool_identity \<Rightarrow> bool) \<Rightarrow> (str, tool_identity) btree \<Rightarrow> str option" where
  "find_tool p names = map_option fst (find (\<lambda>e. p (snd e)) names)"

definition convert_tool_choice :: "json \<Rightarrow> (str, tool_identity) btree \<Rightarrow> chat_error + json option" where
  "convert_tool_choice choice names =
     (if is_string choice then Inr (Some choice)
      else
        and_then (ok_or (ChatUnsupportedInput ''tool_choice'') (as_object choice)) (\<lambda>m.
          let ty = str_at choice ''type'' in
          if ty \<noteq> None \<and> the ty \<in> set ignored_tool_types then Inr None
          else
            and_then (ok_or (ChatUnsupportedInput ''tool_choice.name'')
                (Option.bind (case map_get m ''name'' of
                     Some v \<Rightarrow> Some v
                   | None \<Rightarrow> Option.bind (map_get m ''function'') (\<lambda>f. jget f ''name'')) as_str)) (\<lambda>name.
            and_then (case Option.bind (map_get m ''namespace'') as_str of
                Some namespace \<Rightarrow>
                  ok_or (ChatUnsupportedInput ''tool_choice namespace/name'')
                    (find_tool (\<lambda>t. identity_name t = name \<and> identity_namespace t = Some namespace) names)
              | None \<Rightarrow> Inr name) (\<lambda>chat_name.
            Inr (Some (JObject [(''type'', JString ''function''),
              (''function'', JObject [(''name'', JString chat_name)])]))))))"

section \<open>Messages\<close>

definition content_part :: "str \<Rightarrow> json \<Rightarrow> chat_error + str" where
  "content_part acc part =
     (let part_type = str_at part ''type'' in
      if part_type = None \<or> the part_type \<notin> set [''input_text'', ''output_text'', ''text'']
      then Inl (ChatUnsupportedInput (unwrap_or part_type ''message content part''))
      else Inr (acc @ unwrap_or (str_at part ''text'') []))"

definition response_content_text :: "json \<Rightarrow> str \<Rightarrow> chat_error + str" where
  "response_content_text content role =
     (case as_str content of
        Some t \<Rightarrow> Inr t
      | None \<Rightarrow>
          and_then (ok_or (ChatUnsupportedInput (role @ '' message content'')) (as_array content)) (\<lambda>parts.
          try_fold content_part [] parts))"

definition value_as_text :: "codec \<Rightarrow> json \<Rightarrow> str \<Rightarrow> chat_error + str" where
  "value_as_text c v field =
     (case v of
        JString s \<Rightarrow> Inr s
      | JNull \<Rightarrow> Inr []
      | _ \<Rightarrow> (case to_vec c v of Inl _ \<Rightarrow> Inl (ChatUnsupportedInput field) | Inr t \<Rightarrow> Inr t))"

text \<open>The loop state of \<open>input_to_messages\<close>: the messages and the pending tool calls.\<close>

type_synonym messages_acc = "json list \<times> json list"

definition flush_calls :: "messages_acc \<Rightarrow> messages_acc" where
  "flush_calls acc =
     (if snd acc = [] then acc
      else (fst acc @ [JObject [(''role'', JString ''assistant''), (''content'', JNull),
              (''tool_calls'', JArray (snd acc))]], []))"

definition push_message :: "json \<Rightarrow> messages_acc \<Rightarrow> messages_acc" where
  "push_message m acc = (fst acc @ [m], snd acc)"

definition chat_message :: "str \<Rightarrow> str \<Rightarrow> json" where
  "chat_message role content = JObject [(''role'', JString role), (''content'', JString content)]"

definition ignored_item_types :: "str list" where
  "ignored_item_types = [''reasoning'', ''web_search'', ''web_search_call'', ''tool_search_call'', ''tool_search_output'']"

definition convert_item :: "codec \<Rightarrow> messages_acc \<Rightarrow> json \<Rightarrow> chat_error + messages_acc" where
  "convert_item c acc item =
     (let ty = str_at item ''type'' in
      if ty = Some ''message'' then
        (let acc = flush_calls acc; role = unwrap_or (str_at item ''role'') ''user'' in
         if role \<notin> set [''user'', ''assistant'', ''system'', ''developer'']
         then Inl (ChatUnsupportedInput (''message role '' @ role))
         else
           let role = (if role = ''developer'' then ''system'' else role) in
           and_then (case jget item ''content'' of
                       None \<Rightarrow> Inr [] | Some content \<Rightarrow> response_content_text content role) (\<lambda>content.
           Inr (push_message (chat_message role content) acc)))
      else if ty = Some ''function_call'' then
        and_then (ok_or (ChatUnsupportedInput ''function_call.call_id'') (str_at item ''call_id'')) (\<lambda>call.
        and_then (ok_or (ChatUnsupportedInput ''function_call.name'') (str_at item ''name'')) (\<lambda>name.
        Inr (fst acc, snd acc @ [JObject [(''id'', JString call), (''type'', JString ''function''),
          (''function'', JObject [(''name'', JString name),
             (''arguments'', JString (unwrap_or (str_at item ''arguments'') ''{}''))])]])))
      else if ty = Some ''function_call_output'' then
        (let acc = flush_calls acc in
         and_then (ok_or (ChatUnsupportedInput ''function_call_output.call_id'') (str_at item ''call_id'')) (\<lambda>call.
         and_then (case jget item ''output'' of
                     None \<Rightarrow> Inr [] | Some v \<Rightarrow> value_as_text c v ''function_call_output.output'') (\<lambda>content.
         Inr (push_message (JObject [(''role'', JString ''tool''), (''tool_call_id'', JString call),
           (''content'', JString content)]) acc))))
      else if ty \<noteq> None \<and> the ty \<in> set ignored_item_types then Inr acc
      else if ty = None \<and> is_string item then
        Inr (push_message (JObject [(''role'', JString ''user''), (''content'', item)]) (flush_calls acc))
      else Inl (ChatUnsupportedInput (unwrap_or ty ''unknown item'')))"

definition input_to_messages :: "codec \<Rightarrow> json \<Rightarrow> chat_error + json list" where
  "input_to_messages c input =
     (case input of
        JString t \<Rightarrow> Inr [chat_message ''user'' t]
      | _ \<Rightarrow>
        let items = (case input of JNull \<Rightarrow> [] | JArray items \<Rightarrow> items | item \<Rightarrow> [item]) in
        and_then (try_fold (convert_item c) ([], []) items) (\<lambda>acc. Inr (fst (flush_calls acc))))"

definition contains_tool_message :: "json list \<Rightarrow> bool" where
  "contains_tool_message messages \<longleftrightarrow> (\<exists>m \<in> set messages. str_at m ''role'' = Some ''tool'')"

section \<open>History\<close>

definition validate_history :: "codec \<Rightarrow> json list \<Rightarrow> nat \<Rightarrow> chat_error + unit" where
  "validate_history c messages max_bytes =
     and_then (map_err ChatSerialization (to_vec c (JArray messages))) (\<lambda>bytes.
     if 256 < length messages \<or> max_bytes < length bytes then Inl ChatSessionHistoryLimit else Inr ())"

definition chat_bounded_merge :: "codec \<Rightarrow> json list \<Rightarrow> json list \<Rightarrow> nat \<Rightarrow> chat_error + json list" where
  "chat_bounded_merge c history current max_bytes =
     (let merged = merge_items jeq history current in
      and_then (validate_history c merged max_bytes) (\<lambda>_. Inr merged))"

section \<open>Requests\<close>

record chat_request =
  chat_body :: str
  chat_messages :: "json list"
  chat_tool_names :: "(str, tool_identity) btree"

definition system_present :: "str \<Rightarrow> json list \<Rightarrow> bool" where
  "system_present t messages \<longleftrightarrow>
     (case messages of
        [] \<Rightarrow> False
      | m # _ \<Rightarrow> str_at m ''role'' = Some ''system'' \<and> str_at m ''content'' = Some t)"

definition add_instructions :: "codec \<Rightarrow> jmap \<Rightarrow> json list \<Rightarrow> chat_error + json list" where
  "add_instructions c create messages =
     (case map_get create ''instructions'' of
        None \<Rightarrow> Inr messages
      | Some instructions \<Rightarrow>
          and_then (value_as_text c instructions ''instructions'') (\<lambda>t.
          Inr (if t \<noteq> [] \<and> \<not> system_present t messages then chat_message ''system'' t # messages
               else messages)))"

definition chat_effort :: "reasoning_policy \<Rightarrow> str \<Rightarrow> str" where
  "chat_effort policy effort =
     (if policy = DeepSeek \<and> effort = ''medium'' then ''high''
      else if policy = DeepSeek \<and> effort = ''xhigh'' then ''max''
      else effort)"

definition add_reasoning :: "reasoning_policy \<Rightarrow> jmap \<Rightarrow> jmap \<Rightarrow> jmap" where
  "add_reasoning policy create request =
     (case Option.bind (Option.bind (map_get create ''reasoning'') as_object)
             (\<lambda>reasoning. Option.bind (map_get reasoning ''effort'') as_str) of
        None \<Rightarrow> request
      | Some effort \<Rightarrow>
          let request = map_insert ''reasoning_effort'' (JString (chat_effort policy effort)) request
          in if policy = DeepSeek
             then map_insert ''thinking'' (JObject [(''type'', JString ''enabled'')]) request
             else request)"

definition insert_optional :: "str \<Rightarrow> json option \<Rightarrow> jmap \<Rightarrow> jmap" where
  "insert_optional k v m = (case v of None \<Rightarrow> m | Some w \<Rightarrow> map_insert k w m)"

definition base_request :: "str \<Rightarrow> json list \<Rightarrow> jmap" where
  "base_request upstream_model messages =
     [(''model'', JString upstream_model), (''messages'', JArray messages), (''stream'', JBool True),
      (''stream_options'', JObject [(''include_usage'', JBool True)])]"

definition tools_of :: "jmap \<Rightarrow> chat_error + tools_acc" where
  "tools_of create =
     (case map_get create ''tools'' of None \<Rightarrow> Inr ([], []) | Some tools \<Rightarrow> convert_tools tools)"

definition choice_of :: "jmap \<Rightarrow> (str, tool_identity) btree \<Rightarrow> chat_error + json option" where
  "choice_of create names =
     (case map_get create ''tool_choice'' of
        None \<Rightarrow> Inr None
      | Some choice \<Rightarrow> if names = [] then Inr None else convert_tool_choice choice names)"

text \<open>The fields of \<open>request\<close> in the order \<open>build_request\<close> inserts them.\<close>

definition request_fields ::
  "str \<Rightarrow> json list \<Rightarrow> reasoning_policy \<Rightarrow> jmap \<Rightarrow> tools_acc \<Rightarrow> json option \<Rightarrow> jmap" where
  "request_fields upstream_model messages policy create converted choice =
     (let request = base_request upstream_model messages;
          request = (if fst converted = [] then request
                     else map_insert ''tools'' (JArray (fst converted)) request);
          request = insert_optional ''tool_choice'' choice request;
          request = (if snd converted = [] then request
                     else insert_optional ''parallel_tool_calls'' (map_get create ''parallel_tool_calls'') request);
          request = insert_optional ''max_tokens'' (map_get create ''max_output_tokens'') request
      in add_reasoning policy create request)"

definition build_request ::
  "codec \<Rightarrow> jmap \<Rightarrow> str \<Rightarrow> json list \<Rightarrow> nat \<Rightarrow> reasoning_policy \<Rightarrow> chat_error + chat_request" where
  "build_request c create upstream_model messages max_bytes policy =
     and_then (add_instructions c create messages) (\<lambda>messages.
     if messages = [] then Inl (ChatUnsupportedInput ''Chat Completions requires at least one message'')
     else
       and_then (validate_history c messages max_bytes) (\<lambda>_.
       and_then (tools_of create) (\<lambda>converted.
       and_then (choice_of create (snd converted)) (\<lambda>choice.
       and_then (map_err ChatSerialization
           (to_vec c (JObject (request_fields upstream_model messages policy create converted choice)))) (\<lambda>body.
       if max_bytes < length body then Inl ChatSessionHistoryLimit
       else Inr \<lparr>chat_body = body, chat_messages = messages, chat_tool_names = snd converted\<rparr>)))))"

definition chat_parse_object :: "codec \<Rightarrow> str \<Rightarrow> chat_error + jmap" where
  "chat_parse_object c input =
     and_then (map_err ChatInvalidJson (parse c input)) (\<lambda>v. ok_or ChatBodyMustBeObject (as_object v))"

definition prepare_http_request_with_policy ::
  "codec \<Rightarrow> str \<Rightarrow> str \<Rightarrow> nat \<Rightarrow> reasoning_policy \<Rightarrow> chat_error + chat_request" where
  "prepare_http_request_with_policy c body upstream_model max_bytes policy =
     and_then (chat_parse_object c body) (\<lambda>create.
     if map_get create ''previous_response_id'' \<noteq> None
     then Inl (ChatUnsupportedInput ''previous_response_id requires the stateful WebSocket bridge'')
     else
       and_then (input_to_messages c (unwrap_or (map_get create ''input'') JNull)) (\<lambda>messages.
       build_request c (map_remove ''input'' create) upstream_model messages max_bytes policy))"

definition prepare_http_request :: "codec \<Rightarrow> str \<Rightarrow> str \<Rightarrow> nat \<Rightarrow> chat_error + chat_request" where
  "prepare_http_request c body upstream_model max_bytes =
     prepare_http_request_with_policy c body upstream_model max_bytes Native"

section \<open>Session\<close>

record chat_warmup =
  cw_instructions :: "json option"
  cw_tools :: "json option"
  cw_parallel :: "json option"
  cw_choice :: "json option"
  cw_reasoning :: "json option"

record chat_session =
  cs_upstream_model :: str
  cs_warmup_id :: "str option"
  cs_warmup :: chat_warmup
  cs_history :: "json list"
  cs_tool_names :: "(str, tool_identity) btree"
  cs_max_bytes :: nat
  cs_policy :: reasoning_policy

datatype chat_action = ChatWarmup "str list" | ChatRequest chat_request

definition chat_session_new :: "str \<Rightarrow> nat \<Rightarrow> chat_session" where
  "chat_session_new upstream_model max_history_bytes =
     \<lparr>cs_upstream_model = upstream_model, cs_warmup_id = None,
      cs_warmup = \<lparr>cw_instructions = None, cw_tools = None, cw_parallel = None, cw_choice = None,
                   cw_reasoning = None\<rparr>,
      cs_history = [], cs_tool_names = [], cs_max_bytes = max_history_bytes, cs_policy = Native\<rparr>"

definition new_session_with_policy :: "str \<Rightarrow> nat \<Rightarrow> reasoning_policy \<Rightarrow> chat_session" where
  "new_session_with_policy upstream_model max_session_bytes policy =
     (chat_session_new upstream_model max_session_bytes)\<lparr>cs_policy := policy\<rparr>"

definition capture_defaults :: "jmap \<Rightarrow> chat_session \<Rightarrow> chat_session" where
  "capture_defaults create s =
     (let w = cs_warmup s in s\<lparr>cs_warmup :=
     \<lparr>cw_instructions = capture_default create ''instructions'' (cw_instructions w),
      cw_tools = capture_default create ''tools'' (cw_tools w),
      cw_parallel = capture_default create ''parallel_tool_calls'' (cw_parallel w),
      cw_choice = capture_default create ''tool_choice'' (cw_choice w),
      cw_reasoning = capture_default create ''reasoning'' (cw_reasoning w)\<rparr>\<rparr>)"

definition chat_warmup_entries :: "chat_warmup \<Rightarrow> (str \<times> json option) list" where
  "chat_warmup_entries w = [(''instructions'', cw_instructions w), (''tools'', cw_tools w),
     (''parallel_tool_calls'', cw_parallel w), (''tool_choice'', cw_choice w),
     (''reasoning'', cw_reasoning w)]"

definition apply_defaults :: "chat_session \<Rightarrow> jmap \<Rightarrow> jmap" where
  "apply_defaults s create = insert_defaults (chat_warmup_entries (cs_warmup s)) create"

definition chat_response_usage :: "json option \<Rightarrow> json" where
  "chat_response_usage u =
     (let input = unwrap_or (Option.bind u (\<lambda>u. u64_at u ''prompt_tokens'')) 0;
          out = unwrap_or (Option.bind u (\<lambda>u. u64_at u ''completion_tokens'')) 0;
          total = unwrap_or (Option.bind u (\<lambda>u. u64_at u ''total_tokens'')) (saturating_add_u64 input out)
      in JObject [(''input_tokens'', jnat input), (''input_tokens_details'', JNull),
           (''output_tokens'', jnat out), (''output_tokens_details'', JNull),
           (''total_tokens'', jnat total)])"

definition chat_warmup_events :: "codec \<Rightarrow> str \<Rightarrow> str list" where
  "chat_warmup_events c response =
     map (display c)
       [JObject [(''type'', JString ''response.created''),
          (''response'', JObject [(''id'', JString response)])],
        JObject [(''type'', JString ''response.completed''),
          (''response'', JObject [(''id'', JString response), (''status'', JString ''completed''),
             (''output'', JArray []), (''usage'', chat_response_usage None)])]]"

definition chat_prepare :: "codec \<Rightarrow> nat \<Rightarrow> str \<Rightarrow> (chat_session, chat_error, chat_action) action" where
  "chat_prepare c nanos message s =
     (case chat_parse_object c message of
        Inl e \<Rightarrow> (Inl e, s)
      | Inr create \<Rightarrow>
          if Option.bind (map_get create ''type'') as_str \<noteq> Some ''response.create''
          then (Inl ChatUnsupportedWebSocketMessage, s)
          else if Option.bind (map_get create ''generate'') as_bool = Some False then
            (let response = ''resp_provider_x_warmup_'' @ random_id nanos
             in (Inr (ChatWarmup (chat_warmup_events c response)),
                 (capture_defaults create s)\<lparr>cs_warmup_id := Some response\<rparr>))
          else
            let s = capture_defaults create s;
                create = apply_defaults s create;
                previous = Option.bind (map_get create ''previous_response_id'') as_str;
                input = unwrap_or (map_get create ''input'') JNull;
                create = map_remove ''input'' create
            in (case input_to_messages c input of
                  Inl e \<Rightarrow> (Inl e, s)
                | Inr current \<Rightarrow>
                    let replay = (cs_history s \<noteq> [] \<and> (previous \<noteq> None \<or> contains_tool_message current))
                    in (case (if replay then chat_bounded_merge c (cs_history s) current (cs_max_bytes s)
                              else Inr current) of
                          Inl e \<Rightarrow> (Inl e, s)
                        | Inr messages \<Rightarrow>
                            let s = s\<lparr>cs_warmup_id := None\<rparr>
                            in (case build_request c create (cs_upstream_model s) messages (cs_max_bytes s)
                                       (cs_policy s) of
                                  Inl e \<Rightarrow> (Inl e, s)
                                | Inr request \<Rightarrow>
                                    (Inr (ChatRequest request),
                                     s\<lparr>cs_tool_names := chat_tool_names request\<rparr>)))))"

definition chat_commit :: "codec \<Rightarrow> json list \<Rightarrow> json \<Rightarrow> (chat_session, chat_error, unit) action" where
  "chat_commit c messages assistant s =
     (let messages = messages @ [assistant] in
      case validate_history c messages (cs_max_bytes s) of
        Inl e \<Rightarrow> (Inl e, s)
      | Inr _ \<Rightarrow> (Inr (), s\<lparr>cs_history := messages\<rparr>))"

definition chat_map_failure :: "chat_error \<Rightarrow> bridge_failure" where
  "chat_map_failure e =
     (case e of
        ChatSessionHistoryLimit \<Rightarrow> BridgeSessionHistoryLimit
      | ChatInvalidStream \<Rightarrow> BridgeInvalidStream
      | ChatStreamBufferLimit \<Rightarrow> BridgeInvalidStream
      | ChatStreamStateLimit \<Rightarrow> BridgeInvalidStream
      | _ \<Rightarrow> BridgeInvalidRequest)"

text \<open>\<open>impl WsHttpProtocolAdapter for ChatCompletionsWsHttpAdapter\<close>\<close>

definition chat_prepare_action ::
  "codec \<Rightarrow> nat \<Rightarrow> str \<Rightarrow> (chat_session, bridge_failure, json list ws_http_action) action" where
  "chat_prepare_action c nanos message =
     act (act_map_err chat_map_failure (chat_prepare c nanos message))
       (\<lambda>a. act_ok (case a of ChatWarmup events \<Rightarrow> Warmup events
                    | ChatRequest request \<Rightarrow> Request (chat_body request) (chat_messages request)))"

definition chat_commit_outcome ::
  "codec \<Rightarrow> json list \<Rightarrow> json \<Rightarrow> (chat_session, bridge_failure, unit) action" where
  "chat_commit_outcome c messages assistant = act_map_err chat_map_failure (chat_commit c messages assistant)"

section \<open>Decoder\<close>

type_synonym chat_decoder = "output_emitter sse_decoder"

definition chat_decoder_new :: "nat \<Rightarrow> nat \<Rightarrow> (str, tool_identity) btree \<Rightarrow> chat_decoder" where
  "chat_decoder_new nanos limit names =
     \<lparr>buffer = [], max_buffer_bytes = limit, core = with_tool_names nanos limit names\<rparr>"

definition chat_new_decoder :: "nat \<Rightarrow> nat \<Rightarrow> chat_session \<Rightarrow> chat_decoder" where
  "chat_new_decoder nanos limit s = chat_decoder_new nanos limit (cs_tool_names s)"

definition chat_of_output_error :: "output_error \<Rightarrow> chat_error" where
  "chat_of_output_error e =
     (case e of OutputInvalidStream \<Rightarrow> ChatInvalidStream | OutputStateLimit \<Rightarrow> ChatStreamStateLimit)"

definition chat_apply :: "codec \<Rightarrow> nat \<Rightarrow> stream_event \<Rightarrow> (output_emitter, chat_error, unit) action" where
  "chat_apply c nanos ev = act_map_err chat_of_output_error (emitter_apply c nanos ev)"

definition chat_tool_call :: "codec \<Rightarrow> nat \<Rightarrow> json \<Rightarrow> (output_emitter, chat_error, unit) action" where
  "chat_tool_call c nanos call =
     (let function = jindex call ''function'' in
      case u64_at call ''index'' of
        None \<Rightarrow> act_err ChatInvalidStream
      | Some index \<Rightarrow>
          chat_apply c nanos (Tool index (str_at call ''id'') (str_at function ''name'') (str_at function ''arguments'')))"

text \<open>\<open>if let Some(x) = x { f(x) }\<close>\<close>

definition act_some :: "('a \<Rightarrow> ('s, 'e, unit) action) \<Rightarrow> 'a option \<Rightarrow> ('s, 'e, unit) action" where
  "act_some f x = (case x of None \<Rightarrow> act_ok () | Some a \<Rightarrow> f a)"

definition chat_delta :: "codec \<Rightarrow> nat \<Rightarrow> json \<Rightarrow> (output_emitter, chat_error, unit) action" where
  "chat_delta c nanos delta =
     act (act_some (\<lambda>t. chat_apply c nanos (Reasoning t)) (str_at delta ''reasoning_content''))
     (\<lambda>_. act (act_some (\<lambda>t. chat_apply c nanos (Text t)) (str_at delta ''content''))
     (\<lambda>_. act_some (act_each (chat_tool_call c nanos)) (array_at delta ''tool_calls'')))"

definition first_choice :: "json \<Rightarrow> json option" where
  "first_choice v =
     Option.bind (array_at v ''choices'') (find (\<lambda>choice. u64_at choice ''index'' = Some 0))"

definition chat_chunk :: "codec \<Rightarrow> nat \<Rightarrow> json \<Rightarrow> (output_emitter, chat_error, unit) action" where
  "chat_chunk c nanos v =
     act (chat_apply c nanos (Start (unwrap_or (str_at v ''id'') ''chatcmpl'')))
     (\<lambda>_. act (act_some
          (\<lambda>u. chat_apply c nanos (Usage (unwrap_or (u64_at u ''prompt_tokens'') 0)
                                         (unwrap_or (u64_at u ''completion_tokens'') 0)))
          (case jget v ''usage'' of None \<Rightarrow> None | Some u \<Rightarrow> if is_null u then None else Some u))
     (\<lambda>_. act_some (\<lambda>choice.
          act (act_some (chat_delta c nanos) (jget choice ''delta''))
          (\<lambda>_. act_some (\<lambda>r. chat_apply c nanos (Stop r)) (str_at choice ''finish_reason'')))
          (first_choice v)))"

definition chat_parse_block :: "codec \<Rightarrow> nat \<Rightarrow> str \<Rightarrow> (output_emitter, chat_error, unit) action" where
  "chat_parse_block c nanos block =
     (let data = sse_data (from_utf8_lossy block) in
      if data = [] then act_ok ()
      else if data = ''[DONE]'' then chat_apply c nanos Done
      else (case parse c data of Inl _ \<Rightarrow> act_err ChatInvalidStream | Inr v \<Rightarrow> chat_chunk c nanos v))"

definition put_pending :: "str list \<Rightarrow> output_emitter \<Rightarrow> output_emitter" where
  "put_pending q e = e\<lparr>pending := q\<rparr>"

definition chat_push :: "codec \<Rightarrow> nat \<Rightarrow> str \<Rightarrow> (chat_decoder, chat_error, str list) action" where
  "chat_push c nanos =
     queued_push pending put_pending ChatStreamBufferLimit normalize_sse_newlines (chat_parse_block c nanos)"

definition chat_finish :: "codec \<Rightarrow> nat \<Rightarrow> (chat_decoder, chat_error, str list) action" where
  "chat_finish c nanos d =
     (case sse_flush (chat_parse_block c nanos) d of
        (Inl e, d) \<Rightarrow> (Inl e, d)
      | (Inr _, d) \<Rightarrow> (case emitter_finish c nanos (core d) of (out, e) \<Rightarrow> (Inr out, d\<lparr>core := e\<rparr>)))"

definition chat_outcome :: "chat_decoder \<Rightarrow> json ws_http_stream_outcome" where
  "chat_outcome d =
     (let outcome = emitter_outcome (core d) in
      \<lparr>stream_terminal = outcome_terminal outcome, stream_completed = outcome_completed outcome,
       stream_commit = assistant_message outcome\<rparr>)"

definition chat_decoder_push :: "codec \<Rightarrow> nat \<Rightarrow> str \<Rightarrow> (chat_decoder, bridge_failure, str list) action" where
  "chat_decoder_push c nanos data = act_map_err chat_map_failure (chat_push c nanos data)"

definition chat_decoder_finish :: "codec \<Rightarrow> nat \<Rightarrow> (chat_decoder, bridge_failure, str list) action" where
  "chat_decoder_finish c nanos = act_map_err chat_map_failure (chat_finish c nanos)"

end
