(* ===== verification/AnthropicInput.thy ===== *)
theory AnthropicInput
  imports ChatBridge
begin

text \<open>
  \<open>anthropic_messages/input.rs\<close> and \<open>error.rs\<close>: the conversion of the input, the tools and the
  tool choice of a Responses command into those of an Anthropic Messages request. The inputs and
  the children of a namespace are folded over in the order of the loops of the source, and every
  \<open>?\<close> is a branch.
\<close>

datatype anthropic_error =
    AnthropicInvalidRequest
  | AnthropicUnsupportedInput str
  | AnthropicSerialization str
  | AnthropicSessionHistoryLimit
  | AnthropicInvalidStream
  | AnthropicStreamBufferLimit
  | AnthropicStreamStateLimit

definition messages_url :: "str \<Rightarrow> str" where
  "messages_url http_endpoint = trim_end_matches [CHR ''/''] http_endpoint @ ''/v1/messages''"

definition anthropic_flatten :: "str \<Rightarrow> str \<Rightarrow> str" where
  "anthropic_flatten namespace name = concat (map flatten_byte (namespace @ ''__'' @ name))"

section \<open>Messages\<close>

definition anthropic_content_part :: "str \<Rightarrow> json \<Rightarrow> anthropic_error + str" where
  "anthropic_content_part acc part =
     (let ty = as_str (jindex part ''type'') in
      if ty \<noteq> None \<and> the ty \<in> set [''input_text'', ''output_text'', ''text'']
      then and_then (ok_or AnthropicInvalidRequest (as_str (jindex part ''text''))) (\<lambda>t. Inr (acc @ t))
      else Inl (AnthropicUnsupportedInput ''content part''))"

definition anthropic_content :: "json \<Rightarrow> anthropic_error + json" where
  "anthropic_content v =
     (if is_string v then Inr v
      else
        and_then (ok_or AnthropicInvalidRequest (as_array v)) (\<lambda>parts.
        and_then (try_fold anthropic_content_part [] parts) (\<lambda>t. Inr (JString t))))"

text \<open>The loop state of \<open>messages\<close>: the messages and the system texts.\<close>

type_synonym anthropic_acc = "json list \<times> str list"

definition role_message :: "str \<Rightarrow> json \<Rightarrow> json" where
  "role_message role content = JObject [(''role'', JString role), (''content'', content)]"

definition push_role :: "str \<Rightarrow> json \<Rightarrow> anthropic_acc \<Rightarrow> anthropic_error + anthropic_acc" where
  "push_role role content acc =
     (if role \<in> set [''system'', ''developer''] then
        and_then (ok_or AnthropicInvalidRequest (as_str content)) (\<lambda>t. Inr (fst acc, snd acc @ [t]))
      else if role \<in> set [''user'', ''assistant''] then Inr (fst acc @ [role_message role content], snd acc)
      else Inl AnthropicInvalidRequest)"

definition ignored_inputs :: "str list" where
  "ignored_inputs = [''reasoning'', ''web_search'', ''web_search_call'', ''tool_search_call'', ''tool_search_output'']"

definition anthropic_tool_use :: "codec \<Rightarrow> json \<Rightarrow> anthropic_error + json" where
  "anthropic_tool_use c item =
     and_then (ok_or AnthropicInvalidRequest (as_str (jindex item ''call_id''))) (\<lambda>call.
     and_then (ok_or AnthropicInvalidRequest (as_str (jindex item ''name''))) (\<lambda>name.
       let name = (case str_at item ''namespace'' of None \<Rightarrow> name | Some ns \<Rightarrow> anthropic_flatten ns name) in
       and_then (map_err (\<lambda>_. AnthropicInvalidRequest)
           (parse c (unwrap_or (as_str (jindex item ''arguments'')) ''{}''))) (\<lambda>input.
       Inr (role_message ''assistant'' (JArray [JObject [(''type'', JString ''tool_use''),
         (''id'', JString call), (''name'', JString name), (''input'', input)]])))))"

definition anthropic_tool_result :: "codec \<Rightarrow> json \<Rightarrow> anthropic_error + json" where
  "anthropic_tool_result c item =
     and_then (ok_or AnthropicInvalidRequest (as_str (jindex item ''call_id''))) (\<lambda>call.
       let out = jindex item ''output'';
           t = (case as_str out of None \<Rightarrow> display c out | Some s \<Rightarrow> s)
       in Inr (role_message ''user'' (JArray [JObject [(''type'', JString ''tool_result''),
            (''tool_use_id'', JString call), (''content'', JString t)]])))"

definition anthropic_item :: "codec \<Rightarrow> anthropic_acc \<Rightarrow> json \<Rightarrow> anthropic_error + anthropic_acc" where
  "anthropic_item c acc item =
     (let ty = str_at item ''type'' in
      if (ty = Some ''message'' \<or> ty = None) \<and> jget item ''role'' \<noteq> None then
        and_then (ok_or AnthropicInvalidRequest (as_str (jindex item ''role''))) (\<lambda>role.
        and_then (anthropic_content (jindex item ''content'')) (\<lambda>content. push_role role content acc))
      else if ty = Some ''function_call'' then
        and_then (anthropic_tool_use c item) (\<lambda>m. Inr (fst acc @ [m], snd acc))
      else if ty = Some ''function_call_output'' then
        and_then (anthropic_tool_result c item) (\<lambda>m. Inr (fst acc @ [m], snd acc))
      else if ty \<noteq> None \<and> the ty \<in> set ignored_inputs then Inr acc
      else if ty = None \<and> is_string item then Inr (fst acc @ [role_message ''user'' item], snd acc)
      else Inl (AnthropicUnsupportedInput ''input item''))"

definition anthropic_messages :: "codec \<Rightarrow> json option \<Rightarrow> anthropic_error + anthropic_acc" where
  "anthropic_messages c input =
     (case input of
        Some (JString t) \<Rightarrow> Inr ([role_message ''user'' (JString t)], [])
      | _ \<Rightarrow>
        and_then (case input of
            Some (JArray items) \<Rightarrow> Inr items
          | Some (JObject m) \<Rightarrow> Inr [JObject m]
          | _ \<Rightarrow> Inl AnthropicInvalidRequest) (\<lambda>items.
        and_then (try_fold (anthropic_item c) ([], []) items) (\<lambda>acc.
        if fst acc = [] then Inl AnthropicInvalidRequest else Inr acc)))"

section \<open>Tools\<close>

definition anthropic_push_tool :: "str option \<Rightarrow> tools_acc \<Rightarrow> json \<Rightarrow> anthropic_error + tools_acc" where
  "anthropic_push_tool namespace acc tool =
     (if jindex tool ''type'' \<noteq> JString ''function'' then Inl AnthropicInvalidRequest
      else
        and_then (ok_or AnthropicInvalidRequest
            (case as_str (jindex tool ''name'') of
               None \<Rightarrow> None | Some name \<Rightarrow> if name = [] then None else Some name)) (\<lambda>name.
          let wire_name = (case namespace of None \<Rightarrow> name | Some ns \<Rightarrow> anthropic_flatten ns name) in
          if bt_has (snd acc) wire_name then Inl (AnthropicUnsupportedInput ''duplicate tool name'')
          else
            let converted = [(''name'', JString wire_name),
                  (''input_schema'', unwrap_or (jget tool ''parameters'') (JObject [(''type'', JString ''object'')]))];
                converted = insert_optional ''description'' (jget tool ''description'') converted
            in Inr (fst acc @ [JObject converted],
                    bt_insert wire_name \<lparr>identity_name = name, identity_namespace = namespace\<rparr> (snd acc))))"

definition anthropic_tool :: "tools_acc \<Rightarrow> json \<Rightarrow> anthropic_error + tools_acc" where
  "anthropic_tool acc tool =
     (let ty = as_str (jindex tool ''type'') in
      if ty = Some ''function'' then anthropic_push_tool None acc tool
      else if ty = Some ''namespace'' then
        and_then (ok_or AnthropicInvalidRequest (as_str (jindex tool ''name''))) (\<lambda>namespace.
        and_then (ok_or AnthropicInvalidRequest (as_array (jindex tool ''tools''))) (\<lambda>children.
        try_fold (anthropic_push_tool (Some namespace)) acc children))
      else if ty \<noteq> None \<and> the ty \<in> set [''web_search'', ''web_search_preview'', ''tool_search''] then Inr acc
      else Inl (AnthropicUnsupportedInput ''tool type''))"

definition anthropic_tools :: "json option \<Rightarrow> anthropic_error + tools_acc" where
  "anthropic_tools v =
     (case v of
        None \<Rightarrow> Inr ([], [])
      | Some v \<Rightarrow>
          and_then (ok_or AnthropicInvalidRequest (as_array v)) (\<lambda>tools. try_fold anthropic_tool ([], []) tools))"

definition disable_parallel :: "bool option \<Rightarrow> jmap \<Rightarrow> jmap" where
  "disable_parallel parallel converted =
     (if parallel = Some False then map_insert ''disable_parallel_tool_use'' (JBool True) converted else converted)"

definition anthropic_tool_choice ::
  "json \<Rightarrow> bool option \<Rightarrow> (str, tool_identity) btree \<Rightarrow> anthropic_error + jmap option" where
  "anthropic_tool_choice choice parallel names =
     (case as_str choice of
        Some kind \<Rightarrow>
          if kind \<in> set [''auto'', ''none''] then Inr (Some (disable_parallel parallel [(''type'', JString kind)]))
          else if kind = ''required'' then Inr (Some (disable_parallel parallel [(''type'', JString ''any'')]))
          else Inl AnthropicInvalidRequest
      | None \<Rightarrow>
          let ty = as_str (jindex choice ''type'') in
          if ty \<noteq> None \<and> the ty \<in> set [''web_search'', ''web_search_preview'', ''tool_search''] then Inr None
          else
            and_then (ok_or AnthropicInvalidRequest
                (Option.bind (case jget choice ''name'' of
                     Some v \<Rightarrow> Some v
                   | None \<Rightarrow> Option.bind (jget choice ''function'') (\<lambda>f. jget f ''name'')) as_str)) (\<lambda>name.
            and_then (ok_or AnthropicInvalidRequest
                (find_tool (\<lambda>t. identity_name t = name \<and>
                   identity_namespace t = str_at choice ''namespace'') names)) (\<lambda>wire.
            Inr (Some (disable_parallel parallel [(''type'', JString ''tool''), (''name'', JString wire)])))))"

end
