(* ===== verification/AnthropicBridge.thy ===== *)
theory AnthropicBridge
  imports AnthropicInput
begin

text \<open>
  \<open>anthropic_messages/bridge.rs\<close>: the request with its thinking budget, the session with its
  defaults and its history, and the decoder of the upstream stream, which keeps the raw content
  blocks for the next turn beside the emitter.
\<close>

section \<open>Requests\<close>

record anthropic_request =
  ar_body :: str
  ar_messages :: "json list"
  ar_tool_names :: "(str, tool_identity) btree"

definition default_max_tokens :: u64 where
  "default_max_tokens = 8192"

definition anthropic_validate_history :: "codec \<Rightarrow> json list \<Rightarrow> nat \<Rightarrow> anthropic_error + unit" where
  "anthropic_validate_history c messages limit =
     (if 256 < length messages then Inl AnthropicSessionHistoryLimit
      else
        and_then (map_err (\<lambda>_. AnthropicInvalidRequest) (to_vec c (JArray messages))) (\<lambda>bytes.
        if limit < length bytes then Inl AnthropicSessionHistoryLimit else Inr ()))"

definition max_tokens_of :: "jmap \<Rightarrow> u64" where
  "max_tokens_of create = unwrap_or (Option.bind (map_get create ''max_output_tokens'') as_u64) default_max_tokens"

definition effort_of :: "jmap \<Rightarrow> str option" where
  "effort_of create =
     map_option (\<lambda>v. if v = ''xhigh'' then ''max'' else v)
       (Option.bind (map_get create ''reasoning'') (\<lambda>v. str_at v ''effort''))"

definition parallel_of :: "jmap \<Rightarrow> bool option" where
  "parallel_of create = Option.bind (map_get create ''parallel_tool_calls'') as_bool"

text \<open>\<open>tool_choice\<close> of \<open>build_request\<close>: it is an object where it is present.\<close>

definition anthropic_choice :: "jmap \<Rightarrow> tools_acc \<Rightarrow> anthropic_error + jmap option" where
  "anthropic_choice create tools =
     (let has_tools = (fst tools \<noteq> []) in
      case (if has_tools then map_get create ''tool_choice'' else None) of
        Some choice \<Rightarrow> anthropic_tool_choice choice (parallel_of create) (snd tools)
      | None \<Rightarrow>
          Inr (if has_tools \<and> parallel_of create = Some False
               then Some [(''type'', JString ''auto''), (''disable_parallel_tool_use'', JBool True)]
               else None))"

definition forced_tool :: "jmap option \<Rightarrow> bool" where
  "forced_tool choice \<longleftrightarrow>
     (case choice of
        None \<Rightarrow> False
      | Some m \<Rightarrow> (case Option.bind (map_get m ''type'') as_str of
                    None \<Rightarrow> False | Some t \<Rightarrow> t \<in> set [''any'', ''tool'']))"

definition append_forced_tool_instruction :: "jmap \<Rightarrow> jmap \<Rightarrow> anthropic_error + jmap" where
  "append_forced_tool_instruction request choice =
     (let ty = Option.bind (map_get choice ''type'') as_str in
      if ty \<noteq> Some ''tool'' \<and> ty \<noteq> Some ''any'' then Inr request
      else
        and_then (if ty = Some ''tool'' then
            and_then (ok_or AnthropicInvalidRequest (Option.bind (map_get choice ''name'') as_str)) (\<lambda>name.
            Inr (''You must call the '' @ name @ '' tool in this turn before responding.''))
          else Inr ''You must call one available tool in this turn before responding.'') (\<lambda>instruction.
        case map_get request ''system'' of
          None \<Rightarrow> Inr (map_insert ''system'' (JString instruction) request)
        | Some v \<Rightarrow>
            and_then (ok_or AnthropicInvalidRequest (as_str v)) (\<lambda>system.
            Inr (map_insert ''system'' (JString (system @ [LF, LF] @ instruction)) request))))"

definition insert_choice :: "anthropic_thinking_mode \<Rightarrow> jmap option \<Rightarrow> jmap \<Rightarrow> anthropic_error + jmap" where
  "insert_choice mode choice request =
     (case choice of
        None \<Rightarrow> Inr request
      | Some m \<Rightarrow>
          if forced_tool choice \<and> mode = Enabled then
            and_then (append_forced_tool_instruction request m) (\<lambda>request.
            let auto = (case Option.bind (map_get m ''disable_parallel_tool_use'') as_bool of
                  None \<Rightarrow> [(''type'', JString ''auto'')]
                | Some b \<Rightarrow> [(''type'', JString ''auto''), (''disable_parallel_tool_use'', JBool b)])
            in Inr (map_insert ''tool_choice'' (JObject auto) request))
          else Inr (map_insert ''tool_choice'' (JObject m) request))"

definition desired_budget :: "str \<Rightarrow> u64" where
  "desired_budget effort =
     (if effort = ''low'' then 1024 else if effort = ''medium'' then 2048
      else if effort = ''high'' then 4096 else 8192)"

definition insert_thinking ::
  "anthropic_thinking_mode \<Rightarrow> str option \<Rightarrow> u64 \<Rightarrow> jmap \<Rightarrow> anthropic_error + jmap" where
  "insert_thinking mode effort max_tokens request =
     (case effort of
        None \<Rightarrow> Inr request
      | Some effort \<Rightarrow>
          let request = map_insert ''output_config'' (JObject [(''effort'', JString effort)]) request in
          case mode of
            Adaptive \<Rightarrow> Inr (map_insert ''thinking'' (JObject [(''type'', JString ''adaptive'')]) request)
          | Enabled \<Rightarrow>
              if max_tokens \<le> 1024
              then Inl (AnthropicUnsupportedInput
                     ''enabled Anthropic thinking requires max_output_tokens above 1024'')
              else Inr (map_insert ''thinking'' (JObject [(''type'', JString ''enabled''),
                     (''budget_tokens'', jnat (min (desired_budget effort) (max_tokens - 1)))]) request))"

text \<open>The fields of \<open>request\<close> before the tool choice, in the order \<open>build_request\<close> inserts them.\<close>

definition anthropic_base :: "str \<Rightarrow> json list \<Rightarrow> str list \<Rightarrow> u64 \<Rightarrow> json list \<Rightarrow> jmap" where
  "anthropic_base upstream_model messages system max_tokens tools =
     (let request = [(''model'', JString upstream_model), (''messages'', JArray messages), (''stream'', JBool True)];
          request = (if system = [] then request
                     else map_insert ''system'' (JString (join_with [LF, LF] system)) request);
          request = map_insert ''max_tokens'' (jnat max_tokens) request
      in if tools = [] then request else map_insert ''tools'' (JArray tools) request)"

definition anthropic_system :: "jmap \<Rightarrow> str list \<Rightarrow> str list" where
  "anthropic_system create system =
     (case Option.bind (map_get create ''instructions'') as_str of None \<Rightarrow> system | Some t \<Rightarrow> t # system)"

definition anthropic_build_request ::
  "codec \<Rightarrow> jmap \<Rightarrow> str \<Rightarrow> nat \<Rightarrow> anthropic_thinking_mode \<Rightarrow> anthropic_error + anthropic_request" where
  "anthropic_build_request c create upstream_model max_bytes mode =
     and_then (anthropic_messages c (map_get create ''input'')) (\<lambda>(messages, system).
     and_then (anthropic_validate_history c messages max_bytes) (\<lambda>_.
     and_then (anthropic_tools (map_get create ''tools'')) (\<lambda>tools.
     and_then (anthropic_choice create tools) (\<lambda>choice.
     and_then (insert_choice mode choice
         (anthropic_base upstream_model messages (anthropic_system create system) (max_tokens_of create)
            (fst tools))) (\<lambda>request.
     and_then (insert_thinking mode (effort_of create) (max_tokens_of create) request) (\<lambda>request.
     and_then (map_err AnthropicSerialization (to_vec c (JObject request))) (\<lambda>bytes.
     if max_bytes < length bytes then Inl AnthropicSessionHistoryLimit
     else Inr \<lparr>ar_body = bytes, ar_messages = messages, ar_tool_names = snd tools\<rparr>)))))))"

definition anthropic_http_request_with_mode ::
  "codec \<Rightarrow> str \<Rightarrow> str \<Rightarrow> nat \<Rightarrow> anthropic_thinking_mode \<Rightarrow> anthropic_error + anthropic_request" where
  "anthropic_http_request_with_mode c body upstream_model max_bytes mode =
     and_then (map_err (\<lambda>_. AnthropicInvalidRequest) (parse c body)) (\<lambda>create.
     and_then (ok_or AnthropicInvalidRequest (as_object create)) (\<lambda>create.
     if map_get create ''previous_response_id'' \<noteq> None
     then Inl (AnthropicUnsupportedInput ''previous_response_id requires a WebSocket session'')
     else anthropic_build_request c create upstream_model max_bytes mode))"

definition anthropic_http_request :: "codec \<Rightarrow> str \<Rightarrow> str \<Rightarrow> nat \<Rightarrow> anthropic_error + anthropic_request" where
  "anthropic_http_request c body upstream_model max_bytes =
     anthropic_http_request_with_mode c body upstream_model max_bytes Adaptive"

section \<open>Session\<close>

record anthropic_session =
  as_upstream_model :: str
  as_history :: "json list"
  as_defaults :: jmap
  as_tool_names :: "(str, tool_identity) btree"
  as_max_bytes :: nat
  as_mode :: anthropic_thinking_mode

definition anthropic_session_with_mode :: "str \<Rightarrow> nat \<Rightarrow> anthropic_thinking_mode \<Rightarrow> anthropic_session" where
  "anthropic_session_with_mode upstream_model max_session_bytes mode =
     \<lparr>as_upstream_model = upstream_model, as_history = [], as_defaults = [], as_tool_names = [],
      as_max_bytes = max_session_bytes, as_mode = mode\<rparr>"

definition anthropic_session_new :: "str \<Rightarrow> nat \<Rightarrow> anthropic_session" where
  "anthropic_session_new upstream_model max_session_bytes =
     anthropic_session_with_mode upstream_model max_session_bytes Adaptive"

definition anthropic_map_failure :: "anthropic_error \<Rightarrow> bridge_failure" where
  "anthropic_map_failure e =
     (case e of
        AnthropicSessionHistoryLimit \<Rightarrow> BridgeSessionHistoryLimit
      | AnthropicInvalidStream \<Rightarrow> BridgeInvalidStream
      | AnthropicStreamBufferLimit \<Rightarrow> BridgeInvalidStream
      | AnthropicStreamStateLimit \<Rightarrow> BridgeInvalidStream
      | _ \<Rightarrow> BridgeInvalidRequest)"

definition default_keys :: "str list" where
  "default_keys = [''instructions'', ''tools'', ''tool_choice'', ''parallel_tool_calls'', ''reasoning'']"

definition remember_defaults :: "json \<Rightarrow> jmap \<Rightarrow> jmap" where
  "remember_defaults create defaults =
     fold (\<lambda>key m. case jget create key of None \<Rightarrow> m | Some v \<Rightarrow> map_insert key v m) default_keys defaults"

definition anthropic_warmup_events :: "codec \<Rightarrow> str list" where
  "anthropic_warmup_events c =
     map (display c)
       [JObject [(''type'', JString ''response.created''),
          (''response'', JObject [(''id'', JString ''resp_provider_x_warmup'')])],
        JObject [(''type'', JString ''response.completed''),
          (''response'', JObject [(''id'', JString ''resp_provider_x_warmup''),
             (''status'', JString ''completed''), (''output'', JArray []),
             (''usage'', JObject [(''input_tokens'', jnat 0), (''output_tokens'', jnat 0),
                (''total_tokens'', jnat 0)])])]]"

definition anthropic_replays :: "jmap \<Rightarrow> bool" where
  "anthropic_replays create \<longleftrightarrow>
     map_get create ''previous_response_id'' \<noteq> None \<or>
     (case as_array (jindex (JObject create) ''input'') of
        None \<Rightarrow> False
      | Some items \<Rightarrow> list_ex (\<lambda>item. jindex item ''type'' = JString ''function_call_output'') items)"

text \<open>The replay: the merged messages replace those of the request, whose body is read back and
  written again.\<close>

definition replay_request ::
  "codec \<Rightarrow> anthropic_session \<Rightarrow> anthropic_request \<Rightarrow> bridge_failure + anthropic_request" where
  "replay_request c s request =
     (let messages = merge_items jeq (as_history s) (ar_messages request) in
      and_then (map_err anthropic_map_failure (anthropic_validate_history c messages (as_max_bytes s))) (\<lambda>_.
      and_then (map_err (\<lambda>_. BridgeInvalidRequest) (parse c (ar_body request))) (\<lambda>body.
      and_then (map_err (\<lambda>_. BridgeInvalidRequest) (to_vec c (jset ''messages'' (JArray messages) body))) (\<lambda>bytes.
      if as_max_bytes s < length bytes then Inl BridgeSessionHistoryLimit
      else Inr (request\<lparr>ar_body := bytes, ar_messages := messages\<rparr>)))))"

definition forward_command ::
  "codec \<Rightarrow> jmap \<Rightarrow> anthropic_session \<Rightarrow> bridge_failure + anthropic_request" where
  "forward_command c create s =
     (let create = insert_defaults (map (\<lambda>e. (fst e, Some (snd e))) (as_defaults s)) create;
          replay = anthropic_replays create;
          create = map_remove ''previous_response_id'' create
      in and_then (map_err anthropic_map_failure
             (anthropic_build_request c create (as_upstream_model s) (as_max_bytes s) (as_mode s))) (\<lambda>request.
         if replay \<and> as_history s \<noteq> [] then replay_request c s request else Inr request))"

definition anthropic_prepare_action ::
  "codec \<Rightarrow> str \<Rightarrow> (anthropic_session, bridge_failure, json list ws_http_action) action" where
  "anthropic_prepare_action c message s =
     (case parse c message of
        Inl _ \<Rightarrow> (Inl BridgeInvalidRequest, s)
      | Inr create \<Rightarrow>
          if jindex create ''type'' \<noteq> JString ''response.create'' then (Inl BridgeInvalidRequest, s)
          else
            let s = s\<lparr>as_defaults := remember_defaults create (as_defaults s)\<rparr> in
            case to_vec c (JObject (as_defaults s)) of
              Inl _ \<Rightarrow> (Inl BridgeInvalidRequest, s)
            | Inr bytes \<Rightarrow>
                if as_max_bytes s < length bytes then (Inl BridgeSessionHistoryLimit, s)
                else if jindex create ''generate'' = JBool False then (Inr (Warmup (anthropic_warmup_events c)), s)
                else (case as_object create of
                        None \<Rightarrow> (Inl BridgeInvalidRequest, s)
                      | Some create \<Rightarrow>
                          (case forward_command c create s of
                             Inl e \<Rightarrow> (Inl e, s)
                           | Inr request \<Rightarrow>
                               (Inr (Request (ar_body request) (ar_messages request)),
                                s\<lparr>as_tool_names := ar_tool_names request\<rparr>))))"

definition raw_content_field :: str where
  "raw_content_field = ''_provider_x_anthropic_content''"

definition anthropic_commit_outcome ::
  "codec \<Rightarrow> json list \<Rightarrow> json \<Rightarrow> (anthropic_session, bridge_failure, unit) action" where
  "anthropic_commit_outcome c messages commit s =
     (case jget commit raw_content_field of
        None \<Rightarrow> (Inl BridgeInvalidStream, s)
      | Some content \<Rightarrow>
          let messages = messages @ [role_message ''assistant'' content] in
          case anthropic_validate_history c messages (as_max_bytes s) of
            Inl e \<Rightarrow> (Inl (anthropic_map_failure e), s)
          | Inr _ \<Rightarrow> (Inr (), s\<lparr>as_history := messages\<rparr>))"

section \<open>Decoder\<close>

text \<open>The fields of \<open>AnthropicSseDecoder\<close> beside the buffer and its limit.\<close>

record anthropic_core =
  ac_inner :: output_emitter
  ac_content :: "(u64, json) btree"
  ac_tool_json :: "(u64, str) btree"
  ac_tool_indices :: "(u64, u64) btree"
  ac_pending :: "str list"
  ac_input_tokens :: u64
  ac_output_tokens :: u64
  ac_aggregate_bytes :: nat

type_synonym anthropic_decoder = "anthropic_core sse_decoder"
type_synonym 'a anthropic_action = "(anthropic_core, anthropic_error, 'a) action"

definition max_content_blocks :: nat where
  "max_content_blocks = 256"

definition anthropic_core_new :: "nat \<Rightarrow> nat \<Rightarrow> (str, tool_identity) btree \<Rightarrow> anthropic_core" where
  "anthropic_core_new nanos limit names =
     \<lparr>ac_inner = with_tool_names nanos limit names, ac_content = [], ac_tool_json = [],
      ac_tool_indices = [], ac_pending = [], ac_input_tokens = 0, ac_output_tokens = 0,
      ac_aggregate_bytes = 0\<rparr>"

definition anthropic_decoder_with_tool_names :: "nat \<Rightarrow> nat \<Rightarrow> (str, tool_identity) btree \<Rightarrow> anthropic_decoder" where
  "anthropic_decoder_with_tool_names nanos limit names =
     \<lparr>buffer = [], max_buffer_bytes = limit, core = anthropic_core_new nanos limit names\<rparr>"

definition anthropic_new_decoder :: "nat \<Rightarrow> nat \<Rightarrow> anthropic_session \<Rightarrow> anthropic_decoder" where
  "anthropic_new_decoder nanos limit s = anthropic_decoder_with_tool_names nanos limit (as_tool_names s)"

definition anthropic_of_output_error :: "output_error \<Rightarrow> anthropic_error" where
  "anthropic_of_output_error e =
     (case e of OutputInvalidStream \<Rightarrow> AnthropicInvalidStream | OutputStateLimit \<Rightarrow> AnthropicStreamStateLimit)"

definition anthropic_feed :: "codec \<Rightarrow> nat \<Rightarrow> stream_event \<Rightarrow> unit anthropic_action" where
  "anthropic_feed c nanos ev k =
     (case emitter_apply c nanos ev (ac_inner k) of
        (Inl e, inner) \<Rightarrow> (Inl (anthropic_of_output_error e), k\<lparr>ac_inner := inner\<rparr>)
      | (Inr _, inner) \<Rightarrow>
          (Inr (), k\<lparr>ac_inner := snd (emitter_drain inner),
                     ac_pending := ac_pending k @ fst (emitter_drain inner)\<rparr>))"

definition anthropic_reserve :: "nat \<Rightarrow> nat \<Rightarrow> unit anthropic_action" where
  "anthropic_reserve limit additional k =
     (case checked_add (ac_aggregate_bytes k) additional of
        None \<Rightarrow> (Inl AnthropicStreamStateLimit, k)
      | Some next_bytes \<Rightarrow>
          if limit < next_bytes then (Inl AnthropicStreamStateLimit, k)
          else (Inr (), k\<lparr>ac_aggregate_bytes := next_bytes\<rparr>))"

definition content_index :: "json \<Rightarrow> anthropic_error + u64" where
  "content_index event = ok_or AnthropicInvalidStream (u64_at event ''index'')"

definition append_block_text ::
  "u64 \<Rightarrow> str \<Rightarrow> str \<Rightarrow> (u64, json) btree \<Rightarrow> anthropic_error + (u64, json) btree" where
  "append_block_text index field delta content =
     (case Option.bind (bt_get content index) (\<lambda>block. map_option (Pair block) (jget block field)) of
        Some (block, JString t) \<Rightarrow> Inr (bt_insert index (jset field (JString (t @ delta)) block) content)
      | _ \<Rightarrow> Inl AnthropicInvalidStream)"

text \<open>\<open>block.entry("signature")\<close>\<close>

definition append_signature :: "u64 \<Rightarrow> str \<Rightarrow> (u64, json) btree \<Rightarrow> anthropic_error + (u64, json) btree" where
  "append_signature index signature content =
     (case Option.bind (bt_get content index) as_object of
        None \<Rightarrow> Inl AnthropicInvalidStream
      | Some block \<Rightarrow>
          (case map_get block ''signature'' of
             None \<Rightarrow> Inr (bt_insert index (JObject (map_insert ''signature'' (JString signature) block)) content)
           | Some (JString t) \<Rightarrow>
               Inr (bt_insert index (JObject (map_insert ''signature'' (JString (t @ signature)) block)) content)
           | Some _ \<Rightarrow> Inl AnthropicInvalidStream))"

text \<open>A step on the content that may fail and otherwise replaces it.\<close>

definition on_content ::
  "((u64, json) btree \<Rightarrow> anthropic_error + (u64, json) btree) \<Rightarrow> unit anthropic_action" where
  "on_content f k =
     (case f (ac_content k) of
        Inl e \<Rightarrow> (Inl e, k)
      | Inr content \<Rightarrow> (Inr (), k\<lparr>ac_content := content\<rparr>))"

definition non_empty_text :: "json \<Rightarrow> str \<Rightarrow> str option" where
  "non_empty_text block field =
     (case str_at block field of None \<Rightarrow> None | Some t \<Rightarrow> if t = [] then None else Some t)"

definition tool_arguments :: "codec \<Rightarrow> json \<Rightarrow> str" where
  "tool_arguments c block =
     (case jget block ''input'' of
        Some (JObject m) \<Rightarrow> if m = [] then [] else display c (JObject m)
      | _ \<Rightarrow> [])"

text \<open>\<open>*self.tool_indices.entry(index).or_insert(len)\<close>\<close>

definition tool_slot :: "u64 \<Rightarrow> u64 anthropic_action" where
  "tool_slot index k =
     (case bt_get (ac_tool_indices k) index of
        Some tool_index \<Rightarrow> (Inr tool_index, k)
      | None \<Rightarrow>
          let tool_index = word_of_nat (length (ac_tool_indices k))
          in (Inr tool_index, k\<lparr>ac_tool_indices := bt_insert index tool_index (ac_tool_indices k)\<rparr>))"

definition start_tool_use :: "codec \<Rightarrow> nat \<Rightarrow> u64 \<Rightarrow> json \<Rightarrow> unit anthropic_action" where
  "start_tool_use c nanos index block =
     act (tool_slot index) (\<lambda>tool_index.
       case str_at block ''id'' of
         None \<Rightarrow> act_err AnthropicInvalidStream
       | Some tool_id \<Rightarrow>
           (case str_at block ''name'' of
              None \<Rightarrow> act_err AnthropicInvalidStream
            | Some name \<Rightarrow>
                anthropic_feed c nanos (Tool tool_index (Some tool_id) (Some name) (Some (tool_arguments c block)))))"

definition start_block :: "codec \<Rightarrow> nat \<Rightarrow> u64 \<Rightarrow> json \<Rightarrow> unit anthropic_action" where
  "start_block c nanos index block =
     (let ty = str_at block ''type'' in
      if ty = Some ''text'' then act_some (\<lambda>t. anthropic_feed c nanos (Text t)) (non_empty_text block ''text'')
      else if ty = Some ''thinking'' then
        act_some (\<lambda>t. anthropic_feed c nanos (Reasoning t)) (non_empty_text block ''thinking'')
      else if ty = Some ''tool_use'' then start_tool_use c nanos index block
      else if ty = Some ''redacted_thinking'' then act_ok ()
      else act_err AnthropicInvalidStream)"

definition content_block_start :: "codec \<Rightarrow> nat \<Rightarrow> nat \<Rightarrow> json \<Rightarrow> unit anthropic_action" where
  "content_block_start c nanos limit event k =
     (case content_index event of
        Inl e \<Rightarrow> (Inl e, k)
      | Inr index \<Rightarrow>
          if \<not> bt_has (ac_content k) index \<and> max_content_blocks \<le> length (ac_content k)
          then (Inl AnthropicStreamStateLimit, k)
          else (case jget event ''content_block'' of
                  None \<Rightarrow> (Inl AnthropicInvalidStream, k)
                | Some block \<Rightarrow>
                    act (anthropic_reserve limit (length (display c block)))
                    (\<lambda>_. act (act_upd (\<lambda>k. k\<lparr>ac_content := bt_insert index block (ac_content k)\<rparr>))
                    (\<lambda>_. start_block c nanos index block)) k))"

definition json_delta :: "codec \<Rightarrow> nat \<Rightarrow> nat \<Rightarrow> u64 \<Rightarrow> str \<Rightarrow> unit anthropic_action" where
  "json_delta c nanos limit index partial k =
     (case bt_get (ac_tool_indices k) index of
        None \<Rightarrow> (Inl AnthropicInvalidStream, k)
      | Some tool_index \<Rightarrow>
          act (anthropic_reserve limit (length partial))
          (\<lambda>_. act (act_upd (\<lambda>k. k\<lparr>ac_tool_json :=
                bt_insert index (unwrap_or (bt_get (ac_tool_json k) index) [] @ partial) (ac_tool_json k)\<rparr>))
          (\<lambda>_. anthropic_feed c nanos (Tool tool_index None None (Some partial)))) k)"

definition content_block_delta :: "codec \<Rightarrow> nat \<Rightarrow> nat \<Rightarrow> json \<Rightarrow> unit anthropic_action" where
  "content_block_delta c nanos limit event =
     (case content_index event of
        Inl e \<Rightarrow> act_err e
      | Inr index \<Rightarrow>
          (case jget event ''delta'' of
             None \<Rightarrow> act_err AnthropicInvalidStream
           | Some delta \<Rightarrow>
               let ty = str_at delta ''type'' in
               if ty = Some ''text_delta'' then
                 (let t = unwrap_or (str_at delta ''text'') [] in
                  act (anthropic_reserve limit (length t))
                  (\<lambda>_. act (on_content (append_block_text index ''text'' t))
                  (\<lambda>_. anthropic_feed c nanos (Text t))))
               else if ty = Some ''thinking_delta'' then
                 (let t = unwrap_or (str_at delta ''thinking'') [] in
                  act (anthropic_reserve limit (length t))
                  (\<lambda>_. act (on_content (append_block_text index ''thinking'' t))
                  (\<lambda>_. anthropic_feed c nanos (Reasoning t))))
               else if ty = Some ''signature_delta'' then
                 (case str_at delta ''signature'' of
                    None \<Rightarrow> act_err AnthropicInvalidStream
                  | Some signature \<Rightarrow>
                      act (anthropic_reserve limit (length signature))
                      (\<lambda>_. on_content (append_signature index signature)))
               else if ty = Some ''input_json_delta'' then
                 json_delta c nanos limit index (unwrap_or (str_at delta ''partial_json'') [])
               else act_ok ()))"

definition content_block_stop :: "codec \<Rightarrow> json \<Rightarrow> unit anthropic_action" where
  "content_block_stop c event k =
     (case content_index event of
        Inl e \<Rightarrow> (Inl e, k)
      | Inr index \<Rightarrow>
          (case bt_get (ac_tool_json k) index of
             None \<Rightarrow> (Inr (), k)
           | Some input \<Rightarrow>
               let k = k\<lparr>ac_tool_json := bt_remove index (ac_tool_json k)\<rparr> in
               case parse c input of
                 Inl _ \<Rightarrow> (Inl AnthropicInvalidStream, k)
               | Inr input \<Rightarrow>
                   on_content (\<lambda>content.
                     case Option.bind (bt_get content index) as_object of
                       None \<Rightarrow> Inl AnthropicInvalidStream
                     | Some block \<Rightarrow> Inr (bt_insert index (JObject (map_insert ''input'' input block)) content)) k))"

definition message_start :: "codec \<Rightarrow> nat \<Rightarrow> json \<Rightarrow> unit anthropic_action" where
  "message_start c nanos event =
     (case jget event ''message'' of
        None \<Rightarrow> act_err AnthropicInvalidStream
      | Some message \<Rightarrow>
          let tokens = unwrap_or (Option.bind (jget message ''usage'') (\<lambda>u. u64_at u ''input_tokens'')) 0 in
          act (act_upd (\<lambda>k. k\<lparr>ac_input_tokens := tokens\<rparr>))
          (\<lambda>_. act (anthropic_feed c nanos (Start (unwrap_or (str_at message ''id'') ''message'')))
          (\<lambda>_ k. anthropic_feed c nanos (Usage (ac_input_tokens k) (ac_output_tokens k)) k)))"

definition stop_reason :: "str \<Rightarrow> str" where
  "stop_reason reason =
     (if reason = ''end_turn'' \<or> reason = ''stop_sequence'' then ''stop''
      else if reason = ''tool_use'' then ''tool_calls''
      else if reason = ''max_tokens'' then ''length''
      else ''error'')"

definition message_delta :: "codec \<Rightarrow> nat \<Rightarrow> json \<Rightarrow> unit anthropic_action" where
  "message_delta c nanos event =
     act (act_some (\<lambda>r. anthropic_feed c nanos (Stop (stop_reason r)))
        (Option.bind (jget event ''delta'') (\<lambda>delta. str_at delta ''stop_reason'')))
     (\<lambda>_. act_some (\<lambda>u.
        act (act_upd (\<lambda>k. k\<lparr>ac_output_tokens := unwrap_or (u64_at u ''output_tokens'') (ac_output_tokens k)\<rparr>))
        (\<lambda>_ k. anthropic_feed c nanos (Usage (ac_input_tokens k) (ac_output_tokens k)) k))
        (jget event ''usage''))"

definition anthropic_apply_event :: "codec \<Rightarrow> nat \<Rightarrow> nat \<Rightarrow> json \<Rightarrow> unit anthropic_action" where
  "anthropic_apply_event c nanos limit event =
     (case str_at event ''type'' of
        None \<Rightarrow> act_err AnthropicInvalidStream
      | Some ty \<Rightarrow>
          if ty = ''message_start'' then message_start c nanos event
          else if ty = ''content_block_start'' then content_block_start c nanos limit event
          else if ty = ''content_block_delta'' then content_block_delta c nanos limit event
          else if ty = ''content_block_stop'' then content_block_stop c event
          else if ty = ''message_delta'' then message_delta c nanos event
          else if ty = ''message_stop'' then anthropic_feed c nanos Done
          else if ty = ''error'' then act_err AnthropicInvalidStream
          else act_ok ())"

definition anthropic_parse_block :: "codec \<Rightarrow> nat \<Rightarrow> nat \<Rightarrow> str \<Rightarrow> unit anthropic_action" where
  "anthropic_parse_block c nanos limit block =
     (let data = sse_data (replace_crlf (from_utf8_lossy block)) in
      if data = [] then act_ok ()
      else (case parse c data of
              Inl _ \<Rightarrow> act_err AnthropicInvalidStream
            | Inr v \<Rightarrow> anthropic_apply_event c nanos limit v))"

definition put_ac_pending :: "str list \<Rightarrow> anthropic_core \<Rightarrow> anthropic_core" where
  "put_ac_pending q k = k\<lparr>ac_pending := q\<rparr>"

definition anthropic_push :: "codec \<Rightarrow> nat \<Rightarrow> str \<Rightarrow> (anthropic_decoder, anthropic_error, str list) action" where
  "anthropic_push c nanos data d =
     queued_push ac_pending put_ac_pending AnthropicStreamBufferLimit anthropic_normalize_newlines
       (anthropic_parse_block c nanos (max_buffer_bytes d)) data d"

definition anthropic_finish :: "codec \<Rightarrow> nat \<Rightarrow> (anthropic_decoder, anthropic_error, str list) action" where
  "anthropic_finish c nanos d =
     (case sse_flush (anthropic_parse_block c nanos (max_buffer_bytes d)) d of
        (Inl e, d) \<Rightarrow> (Inl e, d)
      | (Inr _, d) \<Rightarrow>
          let k = core d in
          if \<not> out_terminal (ac_inner k) then (Inl AnthropicInvalidStream, d)
          else (Inr (ac_pending k @ fst (emitter_drain (ac_inner k))),
                d\<lparr>core := k\<lparr>ac_inner := snd (emitter_drain (ac_inner k)), ac_pending := []\<rparr>\<rparr>))"

definition anthropic_outcome :: "anthropic_decoder \<Rightarrow> json ws_http_stream_outcome" where
  "anthropic_outcome d =
     (let outcome = emitter_outcome (ac_inner (core d)) in
      \<lparr>stream_terminal = outcome_terminal outcome, stream_completed = outcome_completed outcome,
       stream_commit = jset raw_content_field (JArray (bt_values (ac_content (core d)))) (assistant_message outcome)\<rparr>)"

definition anthropic_decoder_push ::
  "codec \<Rightarrow> nat \<Rightarrow> str \<Rightarrow> (anthropic_decoder, bridge_failure, str list) action" where
  "anthropic_decoder_push c nanos data = act_map_err anthropic_map_failure (anthropic_push c nanos data)"

definition anthropic_decoder_finish :: "codec \<Rightarrow> nat \<Rightarrow> (anthropic_decoder, bridge_failure, str list) action" where
  "anthropic_decoder_finish c nanos = act_map_err anthropic_map_failure (anthropic_finish c nanos)"

end
