(* ===== verification/ChatProperties.thy ===== *)
theory ChatProperties
  imports ChatBridge
begin

text \<open>
  The Chat Completions bridge: the interpretation of the session and the decoder in the locales
  of \<open>Bridge\<close> and \<open>QueuedStream\<close>, and the properties of the conversion, the session
  and the stream.
\<close>

section \<open>Session\<close>

lemma validate_history_Inr:
  "validate_history c messages n = Inr u \<longleftrightarrow>
     length messages \<le> 256 \<and> (\<exists>bytes. to_vec c (JArray messages) = Inr bytes \<and> length bytes \<le> n)"
  by (auto simp: validate_history_def not_less split: if_splits)

lemma validate_history_within: "validate_history c messages n = Inr u \<Longrightarrow> history_within c n messages"
  by (simp add: validate_history_Inr history_within_def)

lemma capture_defaults_fields [simp]:
  "cs_history (capture_defaults m s) = cs_history s"
  "cs_max_bytes (capture_defaults m s) = cs_max_bytes s"
  "cs_upstream_model (capture_defaults m s) = cs_upstream_model s"
  "cs_policy (capture_defaults m s) = cs_policy s"
  by (simp_all add: capture_defaults_def Let_def)

lemma chat_prepare_fields:
  "cs_history (snd (chat_prepare c nanos message s)) = cs_history s \<and>
   cs_max_bytes (snd (chat_prepare c nanos message s)) = cs_max_bytes s"
  by (simp add: chat_prepare_def Let_def split: sum.split)

lemma chat_action_snd: "snd (chat_prepare_action c nanos message s) = snd (chat_prepare c nanos message s)"
  by (cases "chat_prepare c nanos message s"; cases "fst (chat_prepare c nanos message s)")
    (simp_all add: chat_prepare_action_def act_apply act_map_err_def)

definition chat_within :: "codec \<Rightarrow> chat_session \<Rightarrow> json list \<Rightarrow> bool" where
  "chat_within c s = history_within c (cs_max_bytes s)"

lemma chat_commit_cases:
  obtains (committed) "chat_commit c p m s = (Inr (), s\<lparr>cs_history := p @ [m]\<rparr>)"
      "validate_history c (p @ [m]) (cs_max_bytes s) = Inr ()"
  | (rejected) e where "chat_commit c p m s = (Inl e, s)"
  by (cases "validate_history c (p @ [m]) (cs_max_bytes s)") (simp_all add: chat_commit_def Let_def)

interpretation chat_bridge: bridge_session
    "chat_prepare_action c nanos" "chat_commit_outcome c" cs_history "chat_within c"
  for c nanos
proof unfold_locales
  fix p m s
  show "chat_within c (snd (chat_commit_outcome c p m s)) = chat_within c s"
    using chat_commit_cases [of c p m s]
    by cases (simp_all add: chat_commit_outcome_def chat_within_def)
  show "fst (chat_commit_outcome c p m s) = Inr () \<Longrightarrow>
      chat_within c s (cs_history (snd (chat_commit_outcome c p m s)))"
    using chat_commit_cases [of c p m s]
    by cases (simp_all add: chat_commit_outcome_def chat_within_def validate_history_within)
  show "snd (chat_commit_outcome c p m s) = s" if "fst (chat_commit_outcome c p m s) = Inl e" for e
    using chat_commit_cases [of c p m s] that
    by cases (simp_all add: chat_commit_outcome_def)
qed (simp_all add: chat_action_snd chat_prepare_fields chat_within_def)

lemma chat_run_max:
  "cs_max_bytes (session_run (chat_prepare_action c nanos) (chat_commit_outcome c) commands s) = cs_max_bytes s"
  unfolding session_run_def
proof (induction commands arbitrary: s)
  case (Cons command commands)
  have "cs_max_bytes (session_command_step (chat_prepare_action c nanos) (chat_commit_outcome c) command s) =
      cs_max_bytes s"
  proof (cases command)
    case (Commit p m)
    show ?thesis
      using chat_commit_cases [of c p m s] by cases (simp_all add: Commit chat_commit_outcome_def)
  qed (simp add: chat_action_snd chat_prepare_fields)
  with Cons.IH show ?case by simp
qed simp

section \<open>Stream\<close>

lemma frames_chat_apply [frames_intros]: "frames (chat_apply c nanos ev)"
  unfolding chat_apply_def by (intro frames_intros)

lemma frames_act_some [frames_intros]: "(\<And>a. frames (f a)) \<Longrightarrow> frames (act_some f x)"
  unfolding act_some_def by (intro frames_intros)

lemma frames_chat_parse_block: "frames (chat_parse_block c nanos block)"
proof -
  have call: "frames (chat_tool_call c nanos call)" for call
    unfolding chat_tool_call_def Let_def by (intro frames_intros)
  have delta: "frames (chat_delta c nanos delta)" for delta
    unfolding chat_delta_def by (intro frames_intros call)
  have "frames (chat_chunk c nanos v)" for v
    unfolding chat_chunk_def by (intro frames_intros delta)
  then show ?thesis
    unfolding chat_parse_block_def Let_def
    by (cases "parse c (sse_data (from_utf8_lossy block))") (simp_all add: frames_intros)
qed

lemma keeps_act_some [keeps_intros]: "(\<And>a. keeps P (f a)) \<Longrightarrow> keeps P (act_some f x)"
  unfolding act_some_def by (intro keeps_intros)

lemma keeps_chat_apply [keeps_intros]: "keeps emitter_ok (chat_apply c nanos ev)"
  unfolding chat_apply_def by (intro keeps_intros)

lemma keeps_chat_parse_block: "keeps emitter_ok (chat_parse_block c nanos block)"
proof -
  have call: "keeps emitter_ok (chat_tool_call c nanos call)" for call
    unfolding chat_tool_call_def Let_def by (intro keeps_intros)
  have delta: "keeps emitter_ok (chat_delta c nanos delta)" for delta
    unfolding chat_delta_def by (intro keeps_intros call)
  have "keeps emitter_ok (chat_chunk c nanos v)" for v
    unfolding chat_chunk_def by (intro keeps_intros delta)
  then show ?thesis
    unfolding chat_parse_block_def Let_def
    by (cases "parse c (sse_data (from_utf8_lossy block))") (simp_all add: keeps_intros)
qed

interpretation chat_queue: queued_stream
    pending put_pending "chat_parse_block c nanos" ChatStreamBufferLimit normalize_sse_newlines
  for c nanos
proof unfold_locales
  fix b p e
  show "chat_parse_block c nanos b (put_pending (p @ pending e) e) =
      (fst (chat_parse_block c nanos b e),
       put_pending (p @ pending (snd (chat_parse_block c nanos b e))) (snd (chat_parse_block c nanos b e)))"
    using framesD [OF frames_chat_parse_block, of c nanos b p e]
    by (simp add: queued_def put_pending_def)
qed (simp_all add: put_pending_def normalize_sse_newlines_eq)

definition chat_decoder_ok :: "chat_decoder \<Rightarrow> bool" where
  "chat_decoder_ok d \<longleftrightarrow> buffer_ok d \<and> emitter_ok (core d)"

lemma chat_push_ok:
  assumes "chat_decoder_ok d"
  shows "chat_decoder_ok (snd (chat_push c nanos data d))"
proof -
  have "emitter_ok (snd (snd (drain_blocks (chat_parse_block c nanos) buf (core d))))" for buf
    using drain_blocks_keeps [where P = emitter_ok and pb = "chat_parse_block c nanos" and c = "core d" and buf = buf,
        OF keeps_chat_parse_block] assms
    by (simp add: chat_decoder_ok_def)
  then have "emitter_ok (core (snd (sse_push ChatStreamBufferLimit normalize_sse_newlines
      (chat_parse_block c nanos) data d)))"
    using assms by (auto simp: sse_push_def chat_decoder_ok_def split: prod.split) (metis snd_conv)
  then have "emitter_ok (core (snd (chat_push c nanos data d)))"
    by (cases "sse_push ChatStreamBufferLimit normalize_sse_newlines (chat_parse_block c nanos) data d";
        cases "fst (sse_push ChatStreamBufferLimit normalize_sse_newlines (chat_parse_block c nanos) data d)")
      (simp_all add: chat_push_def queued_push_def put_pending_def)
  moreover have "buffer_ok (snd (chat_push c nanos data d))"
    unfolding chat_push_def using assms
    by (intro chat_queue.pushq_buffer_ok) (simp add: chat_decoder_ok_def)
  ultimately show ?thesis by (simp add: chat_decoder_ok_def)
qed

lemma chat_finish_ok:
  assumes "chat_decoder_ok d"
  shows "chat_decoder_ok (snd (chat_finish c nanos d))"
proof (cases "sse_flush (chat_parse_block c nanos) d")
  case (Pair r d')
  have "emitter_ok (snd (chat_parse_block c nanos (buffer d) (core d)))"
    using keepsD [OF keeps_chat_parse_block, of "core d" c nanos "buffer d"] assms
    by (simp add: chat_decoder_ok_def)
  then have "emitter_ok (core (snd (sse_flush (chat_parse_block c nanos) d)))"
    using assms by (auto simp: sse_flush_def chat_decoder_ok_def split: prod.split sum.split)
  moreover have "buffer_ok (snd (sse_flush (chat_parse_block c nanos) d))"
    using assms sse_flush_buffer_ok [of d "chat_parse_block c nanos"] by (simp add: chat_decoder_ok_def)
  ultimately have "emitter_ok (core d')" "buffer_ok d'" using Pair by simp_all
  with Pair emitter_ok_finish [of "core d'" c nanos] show ?thesis
    by (cases r; cases "emitter_finish c nanos (core d')")
      (simp_all add: chat_finish_def chat_decoder_ok_def buffer_ok_def)
qed

interpretation chat_stream: event_decoder
    "chat_decoder_push c nanos" "chat_decoder_finish c nanos" chat_decoder_ok fits
  for c nanos
proof unfold_locales
  fix d :: chat_decoder and s t data
  assume ok: "chat_decoder_ok d"
  then have buffer: "buffer_ok d" by (simp add: chat_decoder_ok_def)
  show "chat_decoder_ok (snd (chat_decoder_push c nanos data d))"
    using chat_push_ok [OF ok] by (simp add: chat_decoder_push_def)
  show "chat_decoder_ok (snd (chat_decoder_finish c nanos d))"
    using chat_finish_ok [OF ok] by (simp add: chat_decoder_finish_def)
  assume room: "fits d (s @ t)"
  show "fits d' t" if "chat_decoder_push c nanos s d = (Inr out, d')" for out d'
  proof -
    from that have "chat_push c nanos s d = (Inr out, d')"
      by (simp add: chat_decoder_push_def act_map_err_def split: prod.splits)
    then show ?thesis
      unfolding chat_push_def by (rule chat_queue.pushq_room [OF buffer room])
  qed
  assume cut: "\<not> splits_crlf s t"
  let ?two = "\<lambda>push. act (push s) (\<lambda>out. act (push t) (\<lambda>rest. act_ok (out @ rest)))"
  have "fst (?two (chat_push c nanos) d) = fst (chat_push c nanos (s @ t) d) \<and>
      (\<forall>out. fst (chat_push c nanos (s @ t) d) = Inr out \<longrightarrow>
         snd (?two (chat_push c nanos) d) = snd (chat_push c nanos (s @ t) d))"
    unfolding chat_push_def by (rule chat_queue.pushq_two [OF buffer room cut])
  then show "fst (?two (chat_decoder_push c nanos) d) = fst (chat_decoder_push c nanos (s @ t) d) \<and>
      (\<forall>out. fst (chat_decoder_push c nanos (s @ t) d) = Inr out \<longrightarrow>
         snd (?two (chat_decoder_push c nanos) d) = snd (chat_decoder_push c nanos (s @ t) d))"
    unfolding chat_decoder_push_def
    using act_map_err_two [of chat_map_failure "chat_push c nanos s" "chat_push c nanos t" d] by simp
qed

section \<open>Tools\<close>

text \<open>The wire name of a converted tool.\<close>

definition wire_name :: "json \<Rightarrow> str option" where
  "wire_name tool = Option.bind (jget tool ''function'') (\<lambda>f. str_at f ''name'')"

definition identity_wire :: "tool_identity \<Rightarrow> str" where
  "identity_wire t =
     (case identity_namespace t of
        None \<Rightarrow> identity_name t
      | Some n \<Rightarrow> flatten_tool_name n (identity_name t))"

text \<open>What the accumulator of \<open>convert_tools\<close> satisfies: the map has exactly the wire names of the
  converted tools, which are distinct, and each leads back to the tool it came from.\<close>

definition tools_ok :: "tools_acc \<Rightarrow> bool" where
  "tools_ok acc \<longleftrightarrow>
     bt_ok (snd acc) \<and> distinct (map wire_name (fst acc)) \<and>
     (\<forall>name. Some name \<in> wire_name ` set (fst acc) \<longleftrightarrow> bt_has (snd acc) name) \<and>
     None \<notin> wire_name ` set (fst acc) \<and>
     (\<forall>name t. bt_get (snd acc) name = Some t \<longrightarrow> name = identity_wire t)"

lemma copy_fields_get:
  "k \<notin> set names \<Longrightarrow> map_get (copy_fields names tool m) k = map_get m k"
  unfolding copy_fields_def
  by (induction names arbitrary: m) (auto split: option.split)

lemma push_function_tool_ok:
  assumes "push_function_tool tool namespace acc = Inr acc'" and ok: "tools_ok acc"
  shows "tools_ok acc'"
proof -
  from assms(1) obtain original where original: "str_at tool ''name'' = Some original"
    by (auto simp: push_function_tool_def Let_def split: if_splits)
  define identity where "identity = \<lparr>identity_name = original, identity_namespace = namespace\<rparr>"
  let ?name = "identity_wire identity"
  have wire: "(case namespace of None \<Rightarrow> original | Some n \<Rightarrow> flatten_tool_name n original) = ?name"
    by (cases namespace) (simp_all add: identity_wire_def identity_def)
  let ?fields = "copy_fields [''description'', ''parameters'', ''strict''] tool [(''name'', JString ?name)]"
  let ?tool = "JObject [(''type'', JString ''function''), (''function'', JObject ?fields)]"
  from assms(1) original have fresh: "\<not> bt_has (snd acc) ?name"
    and acc': "acc' = (fst acc @ [?tool], bt_insert ?name identity (snd acc))"
    by (simp_all add: push_function_tool_def Let_def wire identity_def split: if_splits)
  have "wire_name ?tool = Some ?name"
    by (simp add: wire_name_def str_at_def map_get_Cons copy_fields_get)
  with ok fresh show ?thesis
    unfolding acc' tools_ok_def by (auto simp: image_iff)
qed

definition wire_char :: "char \<Rightarrow> bool" where
  "wire_char b \<longleftrightarrow> is_ascii_alphanumeric b \<or> b = CHR ''_'' \<or> b = CHR ''-''"

lemma digit_char_wire: "n < 16 \<Longrightarrow> wire_char (digit_char n)"
  by (auto simp: digit_char_def wire_char_def is_ascii_alphanumeric_def is_ascii_lowercase_def
      is_ascii_digit_def)

lemma flatten_byte_wire: "\<forall>b \<in> set (flatten_byte c). wire_char b"
proof -
  have "byte c < 256" by simp
  then have "byte c div 16 < 16" "byte c mod 16 < 16" by (simp_all add: less_mult_imp_div_less)
  then have "\<forall>b \<in> set (hex2 c). wire_char b" by (simp add: hex2_def digit_char_wire)
  moreover have "wire_char (CHR ''_'')" "wire_char (CHR ''x'')"
    by (simp_all add: wire_char_def is_ascii_alphanumeric_def is_ascii_lowercase_def)
  ultimately show ?thesis by (auto simp: flatten_byte_def wire_char_def)
qed

lemma flatten_wire: "\<forall>b \<in> set (flatten_tool_name namespace name). wire_char b"
  using flatten_byte_wire by (auto simp: flatten_tool_name_def)

lemma flatten_clean:
  "\<forall>b \<in> set (namespace @ name). wire_char b \<Longrightarrow> flatten_tool_name namespace name = namespace @ ''__'' @ name"
proof -
  have same: "\<forall>b \<in> set s. wire_char b \<Longrightarrow> concat (map flatten_byte s) = s" for s
    by (induction s) (auto simp: flatten_byte_def wire_char_def)
  assume "\<forall>b \<in> set (namespace @ name). wire_char b"
  then show ?thesis
    unfolding flatten_tool_name_def by (intro same) (auto simp: wire_char_def)
qed

text \<open>The function tools a request names, in its order, each with the namespace that holds it; and what
  the conversion makes of one: the wire tool, and the identity under which its calls are reported.\<close>

definition requested_of :: "json \<Rightarrow> (json \<times> str option) list" where
  "requested_of tool =
     (if str_at tool ''type'' = Some ''function'' then [(tool, None)]
      else if str_at tool ''type'' = Some ''namespace''
      then map (\<lambda>child. (child, str_at tool ''name'')) (unwrap_or (array_at tool ''tools'') [])
      else [])"

definition requested_tools :: "json list \<Rightarrow> (json \<times> str option) list" where
  "requested_tools tools = concat (map requested_of tools)"

definition requested_identity :: "json \<times> str option \<Rightarrow> tool_identity" where
  "requested_identity s =
     \<lparr>identity_name = unwrap_or (str_at (fst s) ''name'') [], identity_namespace = snd s\<rparr>"

definition wire_field :: "json \<times> str option \<Rightarrow> str \<Rightarrow> json option" where
  "wire_field s k =
     (if k = ''name'' then Some (JString (identity_wire (requested_identity s)))
      else if k \<in> {''description'', ''parameters'', ''strict''} then jget (fst s) k else None)"

definition is_wire_tool :: "json \<times> str option \<Rightarrow> json \<Rightarrow> bool" where
  "is_wire_tool s w \<longleftrightarrow>
     str_at (fst s) ''type'' = Some ''function'' \<and> str_at (fst s) ''name'' \<noteq> None \<and>
     (\<exists>function. w = JObject [(''type'', JString ''function''), (''function'', JObject function)] \<and>
        map_get function = wire_field s)"

definition converts :: "(json \<times> str option) list \<Rightarrow> tools_acc \<Rightarrow> tools_acc \<Rightarrow> bool" where
  "converts sources acc acc' \<longleftrightarrow>
     (\<exists>ws. fst acc' = fst acc @ ws \<and> list_all2 is_wire_tool sources ws) \<and>
     set (snd acc') = set (snd acc) \<union>
       (\<lambda>s. (identity_wire (requested_identity s), requested_identity s)) ` set sources"

lemma converts_none [simp]: "converts [] acc acc' \<longleftrightarrow> fst acc' = fst acc \<and> set (snd acc') = set (snd acc)"
  by (auto simp: converts_def)

lemma converts_append: "converts xs acc f \<Longrightarrow> converts ys f g \<Longrightarrow> converts (xs @ ys) acc g"
  by (auto simp: converts_def image_Un intro: list_all2_appendI)

lemma try_fold_converts:
  assumes "\<And>acc x acc'. tools_ok acc \<Longrightarrow> f acc x = Inr acc' \<Longrightarrow> x \<in> set xs \<Longrightarrow>
      tools_ok acc' \<and> converts (g x) acc acc'"
    and "try_fold f acc xs = Inr acc'" and "tools_ok acc"
  shows "tools_ok acc' \<and> converts (concat (map g xs)) acc acc'"
  using assms
proof (induction xs arbitrary: acc)
  case (Cons x xs)
  from Cons.prems(2) obtain t where t: "f acc x = Inr t" "try_fold f t xs = Inr acc'" by auto
  with Cons.prems(1,3) have step: "tools_ok t \<and> converts (g x) acc t" by simp
  have "tools_ok acc' \<and> converts (concat (map g xs)) t acc'"
    using Cons.prems(1) t(2) step by (intro Cons.IH) simp_all
  with step show ?case by (auto intro: converts_append)
qed simp

lemma bt_insert_new_set: "bt_ok m \<Longrightarrow> \<not> bt_has m k \<Longrightarrow> set (bt_insert k v m) = insert (k, v) (set m)"
  by (induction m) (auto simp: bt_has_def bt_get_Cons bt_ok_Cons split: if_splits)

lemma copied_fields:
  "map_get (copy_fields names tool m) k =
     (if k \<in> set names \<and> jget tool k \<noteq> None then jget tool k else map_get m k)"
  unfolding copy_fields_def
  by (induction names arbitrary: m) (auto split: option.split)

lemma push_function_tool_converts:
  assumes run: "push_function_tool tool namespace acc = Inr acc'" and ok: "tools_ok acc"
    and ty: "str_at tool ''type'' = Some ''function''"
  shows "tools_ok acc' \<and> converts [(tool, namespace)] acc acc'"
proof -
  from run obtain original where original: "str_at tool ''name'' = Some original"
    by (auto simp: push_function_tool_def Let_def split: if_splits)
  let ?s = "(tool, namespace)"
  let ?name = "identity_wire (requested_identity ?s)"
  have wire: "(case namespace of None \<Rightarrow> original | Some n \<Rightarrow> flatten_tool_name n original) = ?name"
    by (cases namespace) (simp_all add: identity_wire_def requested_identity_def original unwrap_or_def)
  let ?fields = "copy_fields [''description'', ''parameters'', ''strict''] tool [(''name'', JString ?name)]"
  let ?tool = "JObject [(''type'', JString ''function''), (''function'', JObject ?fields)]"
  have identity: "\<lparr>identity_name = original, identity_namespace = namespace\<rparr> = requested_identity ?s"
    by (simp add: requested_identity_def original unwrap_or_def)
  from run original have fresh: "\<not> bt_has (snd acc) ?name"
    and acc': "acc' = (fst acc @ [?tool], bt_insert ?name (requested_identity ?s) (snd acc))"
    by (simp_all add: push_function_tool_def Let_def wire identity split: if_splits)
  have "map_get ?fields = wire_field ?s"
    by (rule ext) (auto simp: copied_fields wire_field_def map_get_Cons)
  with ty original have "is_wire_tool ?s ?tool" by (simp add: is_wire_tool_def)
  then have "converts [?s] acc acc'"
    using ok fresh by (simp add: converts_def acc' tools_ok_def bt_insert_new_set)
  with push_function_tool_ok [OF run ok] show ?thesis ..
qed

lemma convert_tool_converts:
  assumes ok: "tools_ok acc" and run: "convert_tool acc tool = Inr acc'"
  shows "tools_ok acc' \<and> converts (requested_of tool) acc acc'"
proof (cases "str_at tool ''type'' = Some ''namespace''")
  case True
  with run obtain n children where n: "str_at tool ''name'' = Some n"
    and children: "array_at tool ''tools'' = Some children"
    and fold: "try_fold (push_child n) acc children = Inr acc'"
    by (auto simp: convert_tool_def Let_def)
  have "tools_ok acc' \<and> converts (concat (map (\<lambda>child. [(child, Some n)]) children)) acc acc'"
    using fold ok
    by (rule try_fold_converts [rotated]) (auto simp: push_child_def dest: push_function_tool_converts split: if_splits)
  then show ?thesis
    using True by (simp add: requested_of_def n children unwrap_or_def concat_map_singleton)
next
  case False
  with run ok show ?thesis
    by (auto simp: convert_tool_def Let_def requested_of_def dest: push_function_tool_converts
        split: if_splits option.splits)
qed

lemma convert_tools_converts:
  assumes "try_fold convert_tool ([], []) items = Inr (converted, names)"
  shows "tools_ok (converted, names) \<and> list_all2 is_wire_tool (requested_tools items) converted \<and>
    set names = (\<lambda>s. (identity_wire (requested_identity s), requested_identity s)) ` set (requested_tools items)"
proof -
  have "tools_ok ([], [])" by (simp add: tools_ok_def bt_has_def)
  with assms have "tools_ok (converted, names) \<and>
      converts (concat (map requested_of items)) ([], []) (converted, names)"
    by (intro try_fold_converts [where f = convert_tool and g = requested_of] convert_tool_converts) assumption+
  then show ?thesis by (simp add: converts_def requested_tools_def)
qed

text \<open>C11: the tools of a Chat Completions request are the function tools the command names, those
  inside namespaces included, one for one and in order, with their description, parameters and
  strictness and nothing else, under pairwise different wire names; the map has one entry for each,
  under which a call is reported to the client by the name and the namespace the command gave it.
  The wire name of a tool in a namespace has only letters, digits, underscores and hyphens.\<close>

theorem convert_tools_names:
  assumes "convert_tools (JArray items) = Inr (converted, names)"
  shows "list_all2 is_wire_tool (requested_tools items) converted \<and>
    map wire_name converted = map (\<lambda>s. Some (identity_wire (requested_identity s))) (requested_tools items) \<and>
    distinct (map wire_name converted) \<and>
    fst ` set names = (\<lambda>s. identity_wire (requested_identity s)) ` set (requested_tools items) \<and>
    (\<forall>s \<in> set (requested_tools items).
       tool_identity_of (with_tool_names nanos limit names) (identity_wire (requested_identity s)) =
         requested_identity s \<and>
       (snd s \<noteq> None \<longrightarrow> (\<forall>b \<in> set (identity_wire (requested_identity s)). wire_char b)))"
proof -
  from assms have "try_fold convert_tool ([], []) items = Inr (converted, names)"
    by (simp add: convert_tools_def)
  note parts = convert_tools_converts [OF this]
  then have ok: "tools_ok (converted, names)" and all: "list_all2 is_wire_tool (requested_tools items) converted"
    and names: "set names = (\<lambda>s. (identity_wire (requested_identity s), requested_identity s)) ` set (requested_tools items)"
    by blast+
  have sorted: "bt_ok names" using ok by (simp add: tools_ok_def)
  have one: "wire_name w = Some (identity_wire (requested_identity s))" if "is_wire_tool s w" for s w
    using that by (auto simp: is_wire_tool_def wire_name_def str_at_def map_get_Cons wire_field_def)
  from all have "map wire_name converted =
      map (\<lambda>s. Some (identity_wire (requested_identity s))) (requested_tools items)"
    by (induction rule: list_all2_induct) (simp_all add: one)
  moreover have "tool_identity_of (with_tool_names nanos limit names) (identity_wire (requested_identity s)) =
      requested_identity s" if "s \<in> set (requested_tools items)" for s
  proof -
    have "(identity_wire (requested_identity s), requested_identity s) \<in> set names"
      using that by (simp add: names)
    then have "bt_get names (identity_wire (requested_identity s)) = Some (requested_identity s)"
      by (simp only: bt_get_iff_set [OF sorted])
    then show ?thesis by (simp add: tool_identity_of_def with_tool_names_def Let_def)
  qed
  moreover have "snd s \<noteq> None \<Longrightarrow> \<forall>b \<in> set (identity_wire (requested_identity s)). wire_char b"
    for s using flatten_wire by (auto simp: identity_wire_def requested_identity_def)
  moreover have "fst ` set names = (\<lambda>s. identity_wire (requested_identity s)) ` set (requested_tools items)"
    by (simp add: names image_image)
  ultimately show ?thesis using ok all by (simp add: tools_ok_def)
qed

definition example_tools :: "json list" where
  "example_tools = [JObject [(''type'', JString ''function''), (''name'', JString ''f'')],
     JObject [(''type'', JString ''namespace''), (''name'', JString ''a b''),
       (''tools'', JArray [JObject [(''type'', JString ''function''), (''name'', JString ''f'')]])]]"

lemmas tools_eval = convert_tools_def example_tools_def convert_tool_def push_child_def push_function_tool_def
  copy_fields_def str_at_def array_at_def map_get_Cons as_str_def as_array_def bt_has_def bt_get_Cons
  flatten_tool_name_def flatten_byte_def is_ascii_alphanumeric_def
  is_ascii_lowercase_def is_ascii_uppercase_def is_ascii_digit_def

theorem convert_tools_names_witness:
  "\<exists>converted names. convert_tools (JArray example_tools) = Inr (converted, names) \<and>
     map wire_name converted = [Some ''f'', Some ''a_x20_b__f''] \<and>
     tool_identity_of (with_tool_names 0 9 names) ''a_x20_b__f'' =
       \<lparr>identity_name = ''f'', identity_namespace = Some ''a b''\<rparr>"
proof -
  have space: "hex2 (CHR '' '') = ''20''" by (simp add: hex2_def digit_char_def char_of_eq_iff)
  obtain converted names where run: "convert_tools (JArray example_tools) = Inr (converted, names)"
    by (simp add: tools_eval Let_def space)
  have sources: "map (\<lambda>s. Some (identity_wire (requested_identity s))) (requested_tools example_tools) =
      [Some ''f'', Some ''a_x20_b__f'']"
    and last: "requested_identity (requested_tools example_tools ! 1) =
      \<lparr>identity_name = ''f'', identity_namespace = Some ''a b''\<rparr>"
    and len: "length (requested_tools example_tools) = 2"
    by (simp_all add: tools_eval Let_def space requested_tools_def requested_of_def requested_identity_def
        identity_wire_def unwrap_or_def)
  have "requested_tools example_tools ! 1 \<in> set (requested_tools example_tools)" using len by simp
  moreover have "identity_wire (requested_identity (requested_tools example_tools ! 1)) = ''a_x20_b__f''"
    unfolding last by (simp add: identity_wire_def tools_eval space)
  ultimately show ?thesis
    using convert_tools_names [OF run, of 0 9] run sources last by auto
qed

section \<open>Messages\<close>

definition calls_of :: "json \<Rightarrow> json list" where
  "calls_of message = unwrap_or (array_at message ''tool_calls'') []"

definition is_call :: "json \<Rightarrow> bool" where
  "is_call item \<longleftrightarrow> str_at item ''type'' = Some ''function_call''"

definition is_output :: "json \<Rightarrow> bool" where
  "is_output item \<longleftrightarrow> str_at item ''type'' = Some ''function_call_output''"

definition is_tool_message :: "json \<Rightarrow> bool" where
  "is_tool_message m \<longleftrightarrow> str_at m ''role'' = Some ''tool''"

definition call_keys :: "messages_acc \<Rightarrow> str option list" where
  "call_keys acc = map (\<lambda>call. str_at call ''id'') (concat (map calls_of (fst acc)) @ snd acc)"

definition output_keys :: "messages_acc \<Rightarrow> str option list" where
  "output_keys acc = map (\<lambda>m. str_at m ''tool_call_id'') (filter is_tool_message (fst acc))"

lemmas message_eval = calls_of_def array_at_def is_tool_message_def str_at_def map_get_Cons as_str_def as_array_def

lemma flush_keys [simp]:
  "call_keys (flush_calls acc) = call_keys acc" "output_keys (flush_calls acc) = output_keys acc"
  by (simp_all add: flush_calls_def call_keys_def output_keys_def message_eval)

lemma push_keys:
  "snd acc = [] \<Longrightarrow> calls_of m = [] \<Longrightarrow> call_keys (push_message m acc) = call_keys acc"
  "output_keys (push_message m acc) =
     output_keys acc @ (if is_tool_message m then [str_at m ''tool_call_id''] else [])"
  by (simp_all add: push_message_def call_keys_def output_keys_def)

lemma flush_empty [simp]: "snd (flush_calls acc) = []"
  by (simp add: flush_calls_def)

lemma message_no_calls [simp]:
  "calls_of (chat_message role content) = []"
  "is_tool_message (chat_message role content) \<longleftrightarrow> role = ''tool''"
  by (simp_all add: chat_message_def message_eval)

lemma convert_item_keys:
  assumes "convert_item c acc item = Inr acc'"
  shows "call_keys acc' = call_keys acc @ (if is_call item then [str_at item ''call_id''] else []) \<and>
    output_keys acc' = output_keys acc @ (if is_output item then [str_at item ''call_id''] else [])"
proof -
  let ?ty = "str_at item ''type''"
  consider (message) "?ty = Some ''message''" | (call) "?ty = Some ''function_call''"
    | (reply) "?ty = Some ''function_call_output''"
    | (other) "?ty \<noteq> Some ''message''" "?ty \<noteq> Some ''function_call''" "?ty \<noteq> Some ''function_call_output''"
    by blast
  then show ?thesis
  proof cases
    case message
    with assms show ?thesis
      by (auto simp: convert_item_def Let_def is_call_def is_output_def push_keys split: if_splits)
  next
    case call
    then obtain i name args where "str_at item ''call_id'' = Some i" and
      "acc' = (fst acc, snd acc @ [JObject [(''id'', JString i), (''type'', JString ''function''),
          (''function'', JObject [(''name'', JString name), (''arguments'', JString args)])]])"
      using assms by (auto simp: convert_item_def Let_def)
    then show ?thesis
      using call by (simp add: is_call_def is_output_def call_keys_def output_keys_def message_eval)
  next
    case reply
    then obtain i content where "str_at item ''call_id'' = Some i" and
      "acc' = push_message (JObject [(''role'', JString ''tool''), (''tool_call_id'', JString i),
           (''content'', JString content)]) (flush_calls acc)"
      using assms by (auto simp: convert_item_def Let_def)
    then show ?thesis
      using reply by (simp add: is_call_def is_output_def push_keys message_eval)
  next
    case other
    with assms have "acc' = acc \<or>
        acc' = push_message (JObject [(''role'', JString ''user''), (''content'', item)]) (flush_calls acc)"
      by (auto simp: convert_item_def Let_def split: if_splits)
    then show ?thesis
      using other by (auto simp: is_call_def is_output_def push_keys message_eval)
  qed
qed

lemma convert_items_keys:
  assumes "try_fold (convert_item c) acc items = Inr acc'"
  shows "call_keys acc' = call_keys acc @ map (\<lambda>item. str_at item ''call_id'') (filter is_call items) \<and>
    output_keys acc' = output_keys acc @ map (\<lambda>item. str_at item ''call_id'') (filter is_output items)"
  using assms
proof (induction items arbitrary: acc)
  case (Cons item items)
  then obtain mid where first: "convert_item c acc item = Inr mid"
    and rest: "try_fold (convert_item c) mid items = Inr acc'" by auto
  from convert_item_keys [OF first] Cons.IH [OF rest] show ?case by simp
qed simp

lemma call_keys_empty: "call_keys ([], []) = []" "output_keys ([], []) = []"
  by (simp_all add: call_keys_def output_keys_def)

text \<open>the conversion of an input keeps every tool call and every tool output: the calls in the
  assistant messages are those of the items, in their order, with their identifiers, and the tool
  messages are those of the outputs.\<close>

theorem chat_calls_kept:
  assumes "input_to_messages c (JArray items) = Inr messages"
  shows "map (\<lambda>call. str_at call ''id'') (concat (map calls_of messages)) =
      map (\<lambda>item. str_at item ''call_id'') (filter is_call items) \<and>
    map (\<lambda>m. str_at m ''tool_call_id'') (filter is_tool_message messages) =
      map (\<lambda>item. str_at item ''call_id'') (filter is_output items)"
proof -
  from assms obtain acc where run: "try_fold (convert_item c) ([], []) items = Inr acc"
    and messages: "messages = fst (flush_calls acc)"
    by (auto simp: input_to_messages_def Let_def)
  have "call_keys (flush_calls acc) = map (\<lambda>item. str_at item ''call_id'') (filter is_call items)"
    and "output_keys (flush_calls acc) = map (\<lambda>item. str_at item ''call_id'') (filter is_output items)"
    using convert_items_keys [OF run] call_keys_empty by (simp_all only: flush_keys append_Nil)
  then show ?thesis
    unfolding messages call_keys_def output_keys_def by simp
qed

definition example_call :: json where
  "example_call = JObject [(''type'', JString ''function_call''), (''call_id'', JString ''c1''),
     (''name'', JString ''f''), (''namespace'', JString ''ns''), (''arguments'', JString ''{}'')]"

definition example_output :: json where
  "example_output = JObject [(''type'', JString ''function_call_output''), (''call_id'', JString ''c1''),
     (''output'', JString ''ok'')]"

theorem chat_calls_kept_witness:
  "\<exists>messages. input_to_messages short_codec (JArray [example_call, example_output]) = Inr messages \<and>
     map (\<lambda>call. str_at call ''id'') (concat (map calls_of messages)) = [Some ''c1'']"
proof -
  note eval = example_call_def example_output_def str_at_def map_get_Cons as_str_def
  obtain messages where run: "input_to_messages short_codec (JArray [example_call, example_output]) = Inr messages"
    by (simp add: input_to_messages_def Let_def convert_item_def eval value_as_text_def)
  have "filter is_call [example_call, example_output] = [example_call]"
    by (simp add: is_call_def eval)
  then show ?thesis
    using chat_calls_kept [OF run] run by (simp add: eval)
qed

section \<open>Requests\<close>

lemma insert_optional_get:
  "map_get (insert_optional k v m) j = (if j = k \<and> v \<noteq> None then v else map_get m j)"
  by (auto simp: insert_optional_def split: option.split)

lemma add_reasoning_get:
  "j \<noteq> ''reasoning_effort'' \<Longrightarrow> j \<noteq> ''thinking'' \<Longrightarrow> map_get (add_reasoning policy create m) j = map_get m j"
  by (simp add: add_reasoning_def Let_def split: option.split)

text \<open>What the session asks for under a key: the value in the command, else the one that an earlier
  command gave. The value of every key of a Chat Completions request, from these, and the messages
  with the instructions in front.\<close>

definition warmed :: "chat_session \<Rightarrow> str \<Rightarrow> json option" where
  "warmed s k =
     (if k = ''instructions'' then cw_instructions (cs_warmup s)
      else if k = ''tools'' then cw_tools (cs_warmup s)
      else if k = ''parallel_tool_calls'' then cw_parallel (cs_warmup s)
      else if k = ''tool_choice'' then cw_choice (cs_warmup s)
      else if k = ''reasoning'' then cw_reasoning (cs_warmup s) else None)"

definition asked :: "chat_session \<Rightarrow> jmap \<Rightarrow> str \<Rightarrow> json option" where
  "asked s create k = (case map_get create k of Some v \<Rightarrow> Some v | None \<Rightarrow> warmed s k)"

definition asked_effort :: "(str \<Rightarrow> json option) \<Rightarrow> str option" where
  "asked_effort want =
     (case want ''reasoning'' of
        Some (JObject reasoning) \<Rightarrow>
          (case map_get reasoning ''effort'' of Some (JString effort) \<Rightarrow> Some effort | _ \<Rightarrow> None)
      | _ \<Rightarrow> None)"

definition chat_field :: "chat_session \<Rightarrow> (str \<Rightarrow> json option) \<Rightarrow> json list \<Rightarrow> json list \<Rightarrow>
    (str, tool_identity) btree \<Rightarrow> json option \<Rightarrow> str \<Rightarrow> json option" where
  "chat_field s want messages converted names choice k =
     (if k = ''model'' then Some (JString (cs_upstream_model s))
      else if k = ''messages'' then Some (JArray messages)
      else if k = ''stream'' then Some (JBool True)
      else if k = ''stream_options'' then Some (JObject [(''include_usage'', JBool True)])
      else if k = ''tools'' then (if converted = [] then None else Some (JArray converted))
      else if k = ''tool_choice'' then choice
      else if k = ''parallel_tool_calls'' then (if names = [] then None else want ''parallel_tool_calls'')
      else if k = ''max_tokens'' then want ''max_output_tokens''
      else if k = ''reasoning_effort'' then
        map_option (\<lambda>effort. JString
          (if cs_policy s = DeepSeek \<and> effort = ''medium'' then ''high''
           else if cs_policy s = DeepSeek \<and> effort = ''xhigh'' then ''max'' else effort)) (asked_effort want)
      else if k = ''thinking'' \<and> cs_policy s = DeepSeek \<and> asked_effort want \<noteq> None
      then Some (JObject [(''type'', JString ''enabled'')])
      else None)"

definition instructed :: "codec \<Rightarrow> json option \<Rightarrow> json list \<Rightarrow> json list \<Rightarrow> bool" where
  "instructed c instructions base messages \<longleftrightarrow>
     (case instructions of
        None \<Rightarrow> messages = base
      | Some v \<Rightarrow> \<exists>t. value_as_text c v ''instructions'' = Inr t \<and>
          messages = (if t = [] \<or> system_present t base then base else chat_message ''system'' t # base))"

text \<open>The prefix of the new messages that repeats the end of the history, as long as possible.\<close>

definition longest_overlap :: "json list \<Rightarrow> json list \<Rightarrow> nat \<Rightarrow> bool" where
  "longest_overlap history current k \<longleftrightarrow>
     k \<le> length history \<and> k \<le> length current \<and>
     list_all2 jeq (drop (length history - k) history) (take k current) \<and>
     (\<forall>n \<le> min (length history) (length current).
        list_all2 jeq (drop (length history - n) history) (take n current) \<longrightarrow> n \<le> k)"

lemma overlap_count_longest: "longest_overlap history current (overlap_count jeq history current)"
  using overlap_matches [of jeq history current] overlap_largest [of _ history current jeq]
  by (simp add: longest_overlap_def)

lemma asked_applied:
  assumes "map_ok create" and "k \<noteq> ''input''"
  shows "map_get (map_remove ''input'' (apply_defaults (capture_defaults create s) create)) k = asked s create k"
proof -
  have "distinct (map fst (chat_warmup_entries w))" for w by (simp add: chat_warmup_entries_def)
  with assms show ?thesis
    by (simp add: apply_defaults_def map_get_insert_defaults asked_def warmed_def capture_defaults_def Let_def
        capture_default_def chat_warmup_entries_def split: option.split)
qed

lemma request_fields_field:
  assumes "\<And>k. k \<noteq> ''input'' \<Longrightarrow> map_get create k = want k"
  shows "map_get (request_fields (cs_upstream_model s) messages (cs_policy s) create (converted, names) choice) =
    chat_field s want messages converted names choice"
proof
  fix k
  have effort: "Option.bind (Option.bind (map_get create ''reasoning'') as_object)
      (\<lambda>reasoning. Option.bind (map_get reasoning ''effort'') as_str) = asked_effort want"
    using assms [of "''reasoning''"]
    by (auto simp: asked_effort_def as_object_def as_str_def split: option.split json.split)
  have want: "map_get create ''parallel_tool_calls'' = want ''parallel_tool_calls''"
      "map_get create ''max_output_tokens'' = want ''max_output_tokens''"
    by (simp_all add: assms)
  let ?up = "cs_upstream_model s"
  let ?request = "request_fields ?up messages (cs_policy s) create (converted, names) choice"
  define request where "request = insert_optional ''max_tokens'' (want ''max_output_tokens'')
     ((if names = [] then id else insert_optional ''parallel_tool_calls'' (want ''parallel_tool_calls''))
     (insert_optional ''tool_choice'' choice
     ((if converted = [] then id else map_insert ''tools'' (JArray converted)) (base_request ?up messages))))"
  have all: "?request = add_reasoning (cs_policy s) create request"
    by (simp add: request_fields_def Let_def request_def want)
  have before: "map_get request k = (if k = ''reasoning_effort'' \<or> k = ''thinking'' then None
      else chat_field s want messages converted names choice k)"
    by (cases "names = []"; cases "converted = []")
      (simp_all add: request_def insert_optional_get base_request_def chat_field_def map_get_Cons)
  show "map_get ?request k = chat_field s want messages converted names choice k"
  proof (cases "asked_effort want")
    case None
    then show ?thesis
      unfolding all add_reasoning_def effort by (simp add: before chat_field_def)
  next
    case (Some effort)
    then show ?thesis
      unfolding all add_reasoning_def effort by (simp add: before Let_def chat_effort_def) (simp add: chat_field_def)
  qed
qed

lemma add_instructions_instructed:
  "add_instructions c create base = Inr messages \<Longrightarrow> instructed c (map_get create ''instructions'') base messages"
  by (auto simp: add_instructions_def instructed_def split: option.splits if_splits)

lemma build_request_parts:
  assumes "build_request c create up messages max_bytes policy = Inr r"
  shows "add_instructions c create messages = Inr (chat_messages r) \<and>
    history_within c max_bytes (chat_messages r) \<and> length (chat_body r) \<le> max_bytes \<and>
    (\<exists>converted choice. tools_of create = Inr (converted, chat_tool_names r) \<and>
       choice_of create (chat_tool_names r) = Inr choice \<and>
       to_vec c (JObject (request_fields up (chat_messages r) policy create (converted, chat_tool_names r) choice)) =
         Inr (chat_body r))"
  using assms by (auto simp: build_request_def not_less validate_history_within split: if_splits)

text \<open>C10: a command that the Chat Completions session forwards becomes a streaming request in which
  every field is determined: the upstream model, the messages, the converted tools with their
  choice and parallelism, the token limit and the reasoning effort of the provider's policy, each
  from the command or, where it is silent, from what an earlier command gave; nothing else is sent.
  The messages are the converted input, or the history followed by it without its longest prefix
  that repeats the end of the history where it is replayed, after the instructions as a system
  message unless they are empty or already there. Messages and body are within the bounds of the
  session, which remembers the tool names of the request and keeps its history. (An object that
  was parsed has no key twice.)\<close>

theorem chat_session_request:
  assumes "chat_prepare c nanos message s = (Inr (ChatRequest r), s')"
    and "\<forall>v. parse c message = Inr v \<longrightarrow> json_ok v"
  shows "\<exists>create current base converted choice request. parse c message = Inr (JObject create) \<and>
    map_get create ''type'' = Some (JString ''response.create'') \<and>
    input_to_messages c (unwrap_or (map_get create ''input'') JNull) = Inr current \<and>
    (if cs_history s \<noteq> [] \<and>
        ((\<exists>p. map_get create ''previous_response_id'' = Some (JString p)) \<or> contains_tool_message current)
     then \<exists>k. longest_overlap (cs_history s) current k \<and> base = cs_history s @ drop k current
     else base = current) \<and>
    instructed c (asked s create ''instructions'') base (chat_messages r) \<and>
    history_within c (cs_max_bytes s) (chat_messages r) \<and> length (chat_body r) \<le> cs_max_bytes s \<and>
    (case asked s create ''tools'' of
       None \<Rightarrow> converted = [] \<and> chat_tool_names r = []
     | Some tools \<Rightarrow> convert_tools tools = Inr (converted, chat_tool_names r)) \<and>
    (case asked s create ''tool_choice'' of
       None \<Rightarrow> choice = None
     | Some v \<Rightarrow> if chat_tool_names r = [] then choice = None
                 else convert_tool_choice v (chat_tool_names r) = Inr choice) \<and>
    to_vec c (JObject request) = Inr (chat_body r) \<and>
    map_get request = chat_field s (asked s create) (chat_messages r) converted (chat_tool_names r) choice \<and>
    cs_tool_names s' = chat_tool_names r \<and> cs_history s' = cs_history s \<and> cs_warmup_id s' = None"
proof -
  from assms(1) obtain create where parsed: "chat_parse_object c message = Inr create"
    and ty: "Option.bind (map_get create ''type'') as_str = Some ''response.create''"
    by (auto simp: chat_prepare_def split: sum.splits if_splits)
  have parse: "parse c message = Inr (JObject create)"
    using parsed by (auto simp: chat_parse_object_def)
  with assms(2) have ok: "map_ok create" by simp
  let ?s = "capture_defaults create s"
  let ?create = "map_remove ''input'' (apply_defaults ?s create)"
  note want = asked_applied [OF ok, of _ s]
  have "distinct (map fst (chat_warmup_entries w))" for w by (simp add: chat_warmup_entries_def)
  then have fields: "map_get (apply_defaults ?s create) ''input'' = map_get create ''input''"
      "map_get (apply_defaults ?s create) ''previous_response_id'' = map_get create ''previous_response_id''"
    by (simp_all add: apply_defaults_def map_get_insert_defaults chat_warmup_entries_def split: option.split)
  from assms(1) parsed ty obtain current messages where
    current: "input_to_messages c (unwrap_or (map_get create ''input'') JNull) = Inr current"
    and messages: "(if cs_history s \<noteq> [] \<and>
        (Option.bind (map_get create ''previous_response_id'') as_str \<noteq> None \<or> contains_tool_message current)
      then chat_bounded_merge c (cs_history s) current (cs_max_bytes s) else Inr current) = Inr messages"
    and request: "build_request c ?create (cs_upstream_model s) messages (cs_max_bytes s) (cs_policy s) = Inr r"
    and s': "cs_tool_names s' = chat_tool_names r" "cs_history s' = cs_history s" "cs_warmup_id s' = None"
    by (auto simp: chat_prepare_def Let_def fields split: sum.splits if_splits)
  have "Option.bind (map_get create ''previous_response_id'') as_str \<noteq> None \<longleftrightarrow>
      (\<exists>p. map_get create ''previous_response_id'' = Some (JString p))"
    by (cases "map_get create ''previous_response_id''") auto
  with messages have base: "if cs_history s \<noteq> [] \<and>
      ((\<exists>p. map_get create ''previous_response_id'' = Some (JString p)) \<or> contains_tool_message current)
     then \<exists>k. longest_overlap (cs_history s) current k \<and> messages = cs_history s @ drop k current
     else messages = current"
    using overlap_count_longest [of "cs_history s" current]
    by (auto simp: chat_bounded_merge_def Let_def merge_items_def split: if_splits)
  note sent = build_request_parts [OF request]
  from sent obtain converted choice where tools: "tools_of ?create = Inr (converted, chat_tool_names r)"
    and choice: "choice_of ?create (chat_tool_names r) = Inr choice"
    and body: "to_vec c (JObject (request_fields (cs_upstream_model s) (chat_messages r) (cs_policy s) ?create
      (converted, chat_tool_names r) choice)) = Inr (chat_body r)"
    by blast
  have "instructed c (asked s create ''instructions'') messages (chat_messages r)"
    using sent add_instructions_instructed [of c ?create messages "chat_messages r"] by (simp add: want)
  moreover have "case asked s create ''tools'' of None \<Rightarrow> converted = [] \<and> chat_tool_names r = []
      | Some tools \<Rightarrow> convert_tools tools = Inr (converted, chat_tool_names r)"
    using tools by (simp add: tools_of_def want split: option.splits)
  moreover have "case asked s create ''tool_choice'' of None \<Rightarrow> choice = None
      | Some v \<Rightarrow> if chat_tool_names r = [] then choice = None
                  else convert_tool_choice v (chat_tool_names r) = Inr choice"
    using choice by (simp add: choice_of_def want split: option.splits if_splits)
  moreover have "map_get create ''type'' = Some (JString ''response.create'')"
    using ty by (auto simp: bind_eq_Some_conv)
  ultimately show ?thesis
    using parse current base sent s' body request_fields_field [where want = "asked s create", OF want]
    by (intro exI conjI; assumption?) blast+
qed

definition example_chat_codec :: codec where
  "example_chat_codec =
     \<lparr>parse = (\<lambda>s. if s = ''create'' then
          Inr (JObject [(''type'', JString ''response.create''), (''input'', JString ''hi''),
            (''instructions'', JString ''be brief''), (''previous_response_id'', JString ''r1'')])
        else Inr (JObject [])),
      to_vec = (\<lambda>v. Inr ''[]''), display = (\<lambda>v. ''[]'')\<rparr>"

definition example_chat_session :: chat_session where
  "example_chat_session = (chat_session_new ''up'' 9)\<lparr>cs_history := [chat_message ''user'' ''hello'']\<rparr>"

theorem chat_session_request_witness:
  "\<exists>r s' request. chat_prepare example_chat_codec 0 ''create'' example_chat_session = (Inr (ChatRequest r), s') \<and>
     chat_messages r = [chat_message ''system'' ''be brief'', chat_message ''user'' ''hello'', chat_message ''user'' ''hi''] \<and>
     to_vec example_chat_codec (JObject request) = Inr (chat_body r) \<and>
     map_get request ''model'' = Some (JString ''up'') \<and> map_get request ''temperature'' = None \<and>
     history_within example_chat_codec 9 (chat_messages r)"
proof -
  note eval = chat_prepare_def chat_parse_object_def example_chat_codec_def map_get_Cons as_object_def as_str_def
    as_bool_def Let_def capture_defaults_def capture_default_def apply_defaults_def insert_defaults_def
    insert_default_def chat_warmup_entries_def chat_session_new_def example_chat_session_def input_to_messages_def
    chat_bounded_merge_def merge_items_def overlap_count_def chat_message_def validate_history_def
    build_request_def add_instructions_def value_as_text_def system_present_def str_at_def tools_of_def choice_of_def
  obtain r s' where run: "chat_prepare example_chat_codec 0 ''create'' example_chat_session = (Inr (ChatRequest r), s')"
    and r: "chat_messages r = [chat_message ''system'' ''be brief'', chat_message ''user'' ''hello'', chat_message ''user'' ''hi'']"
    by (simp add: eval)
  have "\<forall>v. parse example_chat_codec ''create'' = Inr v \<longrightarrow> json_ok v"
    by (simp add: example_chat_codec_def map_ok_def)
  from chat_session_request [OF run this] obtain create converted choice request where
    body: "to_vec example_chat_codec (JObject request) = Inr (chat_body r)"
    and fields: "map_get request = chat_field example_chat_session (asked example_chat_session create)
      (chat_messages r) converted (chat_tool_names r) choice"
    and within: "history_within example_chat_codec (cs_max_bytes example_chat_session) (chat_messages r)"
    by (elim exE conjE) (rule that; assumption)
  from within have "history_within example_chat_codec 9 (chat_messages r)"
    by (simp add: example_chat_session_def chat_session_new_def)
  moreover have "map_get request ''model'' = Some (JString ''up'') \<and> map_get request ''temperature'' = None"
    unfolding fields by (simp add: chat_field_def example_chat_session_def chat_session_new_def)
  ultimately show ?thesis using run r body by blast
qed

text \<open>Whatever commands a session of the Chat Completions bridge sees, rejected ones included, its
  history has at most 256 messages and serializes within the configured bytes.\<close>

theorem chat_history_bounded:
  "history_within c max_bytes
     (cs_history (session_run (chat_prepare_action c nanos) (chat_commit_outcome c) commands
        (new_session_with_policy upstream_model max_bytes policy)))"
proof -
  let ?s = "new_session_with_policy upstream_model max_bytes policy"
  let ?run = "session_run (chat_prepare_action c nanos) (chat_commit_outcome c) commands ?s"
  have "chat_within c ?s (cs_history ?s)"
    by (simp add: chat_within_def history_within_def new_session_with_policy_def chat_session_new_def)
  then have "chat_within c ?run (cs_history ?run)" by (rule chat_bridge.run_within)
  moreover have "cs_max_bytes ?run = cs_max_bytes ?s" by (rule chat_run_max)
  ultimately show ?thesis
    by (simp add: chat_within_def new_session_with_policy_def chat_session_new_def)
qed

text \<open>the decoder of the Chat Completions stream gives the same events, the same rejection and the
  same state for any way of cutting a body into chunks that fits its buffer and does not separate a
  carriage return from its line feed, although it empties its queue after every chunk.\<close>

theorem chat_chunking:
  assumes "chat_decoder_ok d" and "fits d (concat chunks)" and "clean_cuts chunks" and "chunks \<noteq> []"
  shows "fst (feed (chat_decoder_push c nanos) chunks d) = fst (chat_decoder_push c nanos (concat chunks) d) \<and>
    (\<forall>out. fst (chat_decoder_push c nanos (concat chunks) d) = Inr out \<longrightarrow>
       snd (feed (chat_decoder_push c nanos) chunks d) = snd (chat_decoder_push c nanos (concat chunks) d))"
  using assms by (rule chat_stream.feed_concat)

theorem chat_chunking_witness:
  "fst (feed (chat_decoder_push example_chat_codec 0) [''data:'', ''x'' @ [LF, LF]] (chat_decoder_new 0 99 [])) =
   fst (chat_decoder_push example_chat_codec 0 (''data:x'' @ [LF, LF]) (chat_decoder_new 0 99 []))"
proof -
  let ?chunks = "[''data:'', ''x'' @ [LF, LF]]"
  have "chat_decoder_ok (chat_decoder_new 0 99 [])"
    using emitter_ok_new [of 99 0 "[]"]
    by (simp add: chat_decoder_ok_def chat_decoder_new_def buffer_ok_def usize_max_def)
  moreover have "fits (chat_decoder_new 0 99 []) (concat ?chunks)"
    by (simp add: fits_def chat_decoder_new_def)
  moreover have "clean_cuts ?chunks" by (simp add: splits_crlf_def)
  ultimately show ?thesis
    using chat_chunking [of "chat_decoder_new 0 99 []" ?chunks example_chat_codec 0] by simp
qed

end
