(* ===== verification/AnthropicProperties.thy ===== *)
theory AnthropicProperties
  imports AnthropicBridge ChatProperties
begin

text \<open>
  The Anthropic Messages bridge: the interpretation of its session and its decoder in the locales
  of \<open>Bridge\<close> and \<open>QueuedStream\<close>, and the properties of the request, the session and the stream.
\<close>

section \<open>Session\<close>

lemma anthropic_history_within:
  "anthropic_validate_history c messages n = Inr u \<Longrightarrow> history_within c n messages"
  by (auto simp: anthropic_validate_history_def history_within_def not_less split: if_splits)

lemma anthropic_prepare_fields [simp]:
  "as_history (snd (anthropic_prepare_action c message s)) = as_history s"
  "as_max_bytes (snd (anthropic_prepare_action c message s)) = as_max_bytes s"
  by (simp_all add: anthropic_prepare_action_def Let_def split: sum.split option.split)

lemma anthropic_commit_cases:
  obtains (committed) content where "jget m raw_content_field = Some content"
      "anthropic_commit_outcome c p m s =
         (Inr (), s\<lparr>as_history := p @ [role_message ''assistant'' content]\<rparr>)"
      "anthropic_validate_history c (p @ [role_message ''assistant'' content]) (as_max_bytes s) = Inr ()"
  | (rejected) e where "anthropic_commit_outcome c p m s = (Inl e, s)"
proof (cases "jget m raw_content_field")
  case (Some content)
  then show ?thesis
    by (cases "anthropic_validate_history c (p @ [role_message ''assistant'' content]) (as_max_bytes s)")
      (use that in \<open>simp_all add: anthropic_commit_outcome_def Let_def\<close>)
qed (use that in \<open>simp add: anthropic_commit_outcome_def\<close>)

definition anthropic_within :: "codec \<Rightarrow> anthropic_session \<Rightarrow> json list \<Rightarrow> bool" where
  "anthropic_within c s = history_within c (as_max_bytes s)"

interpretation anthropic_bridge: bridge_session
    "anthropic_prepare_action c" "anthropic_commit_outcome c" as_history "anthropic_within c"
  for c
proof unfold_locales
  fix p m s
  show "anthropic_within c (snd (anthropic_commit_outcome c p m s)) = anthropic_within c s"
    using anthropic_commit_cases [of m c p s] by cases (simp_all add: anthropic_within_def)
  show "fst (anthropic_commit_outcome c p m s) = Inr () \<Longrightarrow>
      anthropic_within c s (as_history (snd (anthropic_commit_outcome c p m s)))"
    using anthropic_commit_cases [of m c p s]
    by cases (simp_all add: anthropic_within_def anthropic_history_within)
  show "snd (anthropic_commit_outcome c p m s) = s" if "fst (anthropic_commit_outcome c p m s) = Inl e" for e
    using anthropic_commit_cases [of m c p s] that by cases simp_all
qed (simp_all add: anthropic_within_def)

lemma anthropic_run_max:
  "as_max_bytes (session_run (anthropic_prepare_action c) (anthropic_commit_outcome c) commands s) = as_max_bytes s"
  unfolding session_run_def
proof (induction commands arbitrary: s)
  case (Cons command commands)
  have "as_max_bytes (session_command_step (anthropic_prepare_action c) (anthropic_commit_outcome c) command s) =
      as_max_bytes s"
  proof (cases command)
    case (Commit p m)
    show ?thesis using anthropic_commit_cases [of m c p s] by cases (simp_all add: Commit)
  qed simp
  with Cons.IH show ?case by simp
qed simp

section \<open>Stream\<close>

text \<open>Every step of the parser only appends to the queue and does not look at it.\<close>

definition ac_queued :: "str list \<Rightarrow> anthropic_core \<Rightarrow> anthropic_core" where
  "ac_queued p k = k\<lparr>ac_pending := p @ ac_pending k\<rparr>"

definition ac_frames :: "'a anthropic_action \<Rightarrow> bool" where
  "ac_frames m \<longleftrightarrow> (\<forall>p k. m (ac_queued p k) = (fst (m k), ac_queued p (snd (m k))))"

named_theorems ac_intros \<open>rules that show that a step of the Anthropic decoder only appends to its queue\<close>

lemma ac_framesI: "(\<And>p k. m (ac_queued p k) = (fst (m k), ac_queued p (snd (m k)))) \<Longrightarrow> ac_frames m"
  by (simp add: ac_frames_def)

lemma ac_framesD: "ac_frames m \<Longrightarrow> m (ac_queued p k) = (fst (m k), ac_queued p (snd (m k)))"
  by (simp add: ac_frames_def)

lemma ac_queued_fields [simp]:
  "ac_pending (ac_queued p k) = p @ ac_pending k" "ac_inner (ac_queued p k) = ac_inner k"
  "ac_content (ac_queued p k) = ac_content k" "ac_tool_json (ac_queued p k) = ac_tool_json k"
  "ac_tool_indices (ac_queued p k) = ac_tool_indices k"
  "ac_input_tokens (ac_queued p k) = ac_input_tokens k"
  "ac_output_tokens (ac_queued p k) = ac_output_tokens k"
  "ac_aggregate_bytes (ac_queued p k) = ac_aggregate_bytes k"
  by (simp_all add: ac_queued_def)

lemma ac_act [ac_intros]: "ac_frames m \<Longrightarrow> (\<And>a. ac_frames (f a)) \<Longrightarrow> ac_frames (act m f)"
  by (auto simp: ac_frames_def act_apply split: prod.splits sum.splits)

lemma ac_ok [ac_intros]: "ac_frames (act_ok a)"
  by (simp add: ac_frames_def)

lemma ac_err [ac_intros]: "ac_frames (act_err e)"
  by (simp add: ac_frames_def)

lemma ac_upd: "(\<And>p k. u (ac_queued p k) = ac_queued p (u k)) \<Longrightarrow> ac_frames (act_upd u)"
  by (simp add: ac_frames_def)

lemma ac_if [ac_intros]: "ac_frames m \<Longrightarrow> ac_frames n \<Longrightarrow> ac_frames (if b then m else n)"
  by simp

lemma ac_option [ac_intros]:
  "ac_frames m \<Longrightarrow> (\<And>a. ac_frames (f a)) \<Longrightarrow> ac_frames (case x of None \<Rightarrow> m | Some a \<Rightarrow> f a)"
  by (cases x) simp_all

lemma ac_sum [ac_intros]:
  "(\<And>e. ac_frames (f e)) \<Longrightarrow> (\<And>a. ac_frames (g a)) \<Longrightarrow> ac_frames (case x of Inl e \<Rightarrow> f e | Inr a \<Rightarrow> g a)"
  by (cases x) simp_all

lemma ac_some [ac_intros]: "(\<And>a. ac_frames (f a)) \<Longrightarrow> ac_frames (act_some f x)"
  unfolding act_some_def by (intro ac_intros)

lemma ac_read:
  "(\<And>p k. g (ac_queued p k) = g k) \<Longrightarrow> (\<And>x. ac_frames (m x)) \<Longrightarrow> ac_frames (\<lambda>k. m (g k) k)"
  by (simp add: ac_frames_def)

lemma ac_feed [ac_intros]: "ac_frames (anthropic_feed c nanos ev)"
  by (rule ac_framesI) (simp add: anthropic_feed_def ac_queued_def split: prod.split sum.split)

lemma ac_reserve [ac_intros]: "ac_frames (anthropic_reserve limit n)"
  by (rule ac_framesI) (simp add: anthropic_reserve_def ac_queued_def split: option.split)

lemma ac_on_content [ac_intros]: "ac_frames (on_content f)"
  by (rule ac_framesI) (simp add: on_content_def ac_queued_def split: sum.split)

lemma ac_tool_slot [ac_intros]: "ac_frames (tool_slot index)"
  by (rule ac_framesI) (simp add: tool_slot_def ac_queued_def Let_def split: option.split)

lemma ac_start_block [ac_intros]: "ac_frames (start_block c nanos index block)"
  unfolding start_block_def start_tool_use_def Let_def by (intro ac_intros)

lemma ac_block_start [ac_intros]: "ac_frames (content_block_start c nanos limit event)"
proof -
  have run: "ac_frames (act (anthropic_reserve limit n)
      (\<lambda>_. act (act_upd (\<lambda>k. k\<lparr>ac_content := bt_insert index block (ac_content k)\<rparr>))
      (\<lambda>_. start_block c nanos index block)))" for n index block
    by (intro ac_intros ac_upd) (simp add: ac_queued_def)
  show ?thesis
    by (rule ac_framesI) (simp add: content_block_start_def ac_framesD [OF run] split: sum.split option.split)
qed

lemma ac_json_delta [ac_intros]: "ac_frames (json_delta c nanos limit index partial)"
proof -
  have run: "ac_frames (act (anthropic_reserve limit n)
      (\<lambda>_. act (act_upd (\<lambda>k. k\<lparr>ac_tool_json :=
           bt_insert index (unwrap_or (bt_get (ac_tool_json k) index) [] @ partial) (ac_tool_json k)\<rparr>))
      (\<lambda>_. anthropic_feed c nanos ev)))" for n ev
    by (intro ac_intros ac_upd) (simp add: ac_queued_def)
  show ?thesis
    by (rule ac_framesI) (simp add: json_delta_def ac_framesD [OF run] split: option.split)
qed

lemma ac_block_delta [ac_intros]: "ac_frames (content_block_delta c nanos limit event)"
  unfolding content_block_delta_def Let_def by (intro ac_intros)

lemma ac_block_stop [ac_intros]: "ac_frames (content_block_stop c event)"
  by (rule ac_framesI)
    (simp add: content_block_stop_def on_content_def ac_queued_def Let_def split: sum.split option.split)

lemma ac_usage: "ac_frames (\<lambda>k. anthropic_feed c nanos (Usage (ac_input_tokens k) (ac_output_tokens k)) k)"
  by (rule ac_framesI) (simp add: ac_framesD [OF ac_feed])

lemma ac_message_start [ac_intros]: "ac_frames (message_start c nanos event)"
  unfolding message_start_def Let_def by (intro ac_intros ac_upd ac_usage) (simp add: ac_queued_def)

lemma ac_message_delta [ac_intros]: "ac_frames (message_delta c nanos event)"
  unfolding message_delta_def by (intro ac_intros ac_upd ac_usage) (simp add: ac_queued_def)

lemma ac_parse_block: "ac_frames (anthropic_parse_block c nanos limit block)"
  unfolding anthropic_parse_block_def anthropic_apply_event_def Let_def by (intro ac_intros)

interpretation anthropic_queue: queued_stream
    ac_pending put_ac_pending "anthropic_parse_block c nanos limit" AnthropicStreamBufferLimit
    anthropic_normalize_newlines
  for c nanos limit
proof unfold_locales
  fix b p k
  show "anthropic_parse_block c nanos limit b (put_ac_pending (p @ ac_pending k) k) =
      (fst (anthropic_parse_block c nanos limit b k),
       put_ac_pending (p @ ac_pending (snd (anthropic_parse_block c nanos limit b k)))
         (snd (anthropic_parse_block c nanos limit b k)))"
    using ac_framesD [OF ac_parse_block, of c nanos limit b p k]
    by (simp add: ac_queued_def put_ac_pending_def)
qed (simp_all add: put_ac_pending_def anthropic_normalize_newlines_eq)


section \<open>State of the decoder\<close>

text \<open>
  At most 256 content blocks, the bytes of their texts within the limit, and the tool blocks
  numbered without gaps: the numbers under which the emitter knows the calls.
\<close>

definition slots_ok :: "anthropic_core \<Rightarrow> bool" where
  "slots_ok k \<longleftrightarrow>
     bt_ok (ac_content k) \<and> bt_ok (ac_tool_json k) \<and> bt_ok (ac_tool_indices k) \<and>
     length (ac_content k) \<le> max_content_blocks \<and>
     fst ` set (ac_tool_indices k) \<subseteq> fst ` set (ac_content k) \<and>
     fst ` set (ac_tool_json k) \<subseteq> fst ` set (ac_tool_indices k) \<and>
     snd ` set (ac_tool_indices k) = word_of_nat ` {..<length (ac_tool_indices k)}"

definition anthropic_core_ok :: "nat \<Rightarrow> anthropic_core \<Rightarrow> bool" where
  "anthropic_core_ok limit k \<longleftrightarrow>
     emitter_ok (ac_inner k) \<and> max_aggregate_bytes (ac_inner k) = limit \<and>
     ac_aggregate_bytes k \<le> limit \<and> slots_ok k"

lemma bt_has_iff: "bt_has m k \<longleftrightarrow> k \<in> fst ` set m"
  by (simp add: bt_has_def bt_get_None)

lemma slots_ok_frame:
  "slots_ok k \<Longrightarrow> ac_content k' = ac_content k \<Longrightarrow> ac_tool_json k' = ac_tool_json k \<Longrightarrow>
   ac_tool_indices k' = ac_tool_indices k \<Longrightarrow> slots_ok k'"
  by (simp add: slots_ok_def)

lemma slots_ok_replace:
  "slots_ok k \<Longrightarrow> bt_get (ac_content k) index \<noteq> None \<Longrightarrow>
   slots_ok (k\<lparr>ac_content := bt_insert index block (ac_content k)\<rparr>)"
  by (auto simp: slots_ok_def length_bt_insert fst_set_insert)

lemma slots_ok_content:
  "slots_ok k \<Longrightarrow> bt_has (ac_content k) index \<or> length (ac_content k) < max_content_blocks \<Longrightarrow>
   slots_ok (k\<lparr>ac_content := bt_insert index block (ac_content k)\<rparr>)"
  by (auto simp: slots_ok_def length_bt_insert fst_set_insert bt_has_def)

lemma snd_set_insert_new:
  "bt_get m k = None \<Longrightarrow> snd ` set (bt_insert k v m) = insert v (snd ` set m)"
  by (induction m) (auto simp: bt_get_Cons split: if_splits)

lemma slots_ok_slot:
  assumes "slots_ok k" and "bt_has (ac_content k) index"
  shows "slots_ok (snd (tool_slot index k))"
proof (cases "bt_get (ac_tool_indices k) index")
  case None
  with assms show ?thesis
    by (auto simp: tool_slot_def slots_ok_def Let_def fst_set_insert snd_set_insert_new length_bt_insert
        lessThan_Suc bt_has_iff)
qed (use assms in \<open>simp add: tool_slot_def\<close>)

lemma slots_ok_json:
  "slots_ok k \<Longrightarrow> bt_get (ac_tool_indices k) index \<noteq> None \<Longrightarrow>
   slots_ok (k\<lparr>ac_tool_json := bt_insert index partial (ac_tool_json k)\<rparr>)"
  by (auto simp: slots_ok_def fst_set_insert bt_get_None)

lemma fst_set_remove: "fst ` set (bt_remove k m) = fst ` set m - {k}"
  by (auto simp: bt_remove_def)

lemma slots_ok_stop: "slots_ok k \<Longrightarrow> slots_ok (k\<lparr>ac_tool_json := bt_remove index (ac_tool_json k)\<rparr>)"
  by (auto simp: slots_ok_def fst_set_remove)

section \<open>Steps of the decoder\<close>


lemma core_ok_frame:
  "anthropic_core_ok limit k \<Longrightarrow> ac_inner k' = ac_inner k \<Longrightarrow> ac_aggregate_bytes k' = ac_aggregate_bytes k \<Longrightarrow>
   slots_ok k' \<Longrightarrow> anthropic_core_ok limit k'"
  by (simp add: anthropic_core_ok_def)

lemma keeps_feed [keeps_intros]: "keeps (anthropic_core_ok limit) (anthropic_feed c nanos ev)"
proof (rule keepsI)
  fix k
  assume ok: "anthropic_core_ok limit k"
  obtain r inner where step: "emitter_apply c nanos ev (ac_inner k) = (r, inner)" by fastforce
  have "emitter_ok inner" "max_aggregate_bytes inner = limit"
    using keepsD [OF keeps_emitter_apply, of "ac_inner k" c nanos ev] ok step
      emitter_apply_max [of c nanos ev "ac_inner k"]
    by (simp_all add: anthropic_core_ok_def)
  with ok step show "anthropic_core_ok limit (snd (anthropic_feed c nanos ev k))"
    by (cases r) (auto simp: anthropic_feed_def anthropic_core_ok_def slots_ok_def emitter_drain_def)
qed

lemma keeps_reserve [keeps_intros]: "keeps (anthropic_core_ok limit) (anthropic_reserve limit n)"
  by (rule keepsI) (auto simp: anthropic_reserve_def anthropic_core_ok_def slots_ok_def split: option.split)

lemma reserve_content [simp]: "ac_content (snd (anthropic_reserve limit n k)) = ac_content k"
  "ac_tool_indices (snd (anthropic_reserve limit n k)) = ac_tool_indices k"
  by (simp_all add: anthropic_reserve_def split: option.split)

lemma keeps_update_content:
  assumes "\<And>content content'. f content = Inr content' \<Longrightarrow>
      \<exists>index block. bt_get content index \<noteq> None \<and> content' = bt_insert index block content"
  shows "keeps (anthropic_core_ok limit) (on_content f)"
proof (rule keepsI)
  fix k
  assume ok: "anthropic_core_ok limit k"
  show "anthropic_core_ok limit (snd (on_content f k))"
  proof (cases "f (ac_content k)")
    case (Inr content')
    with assms [OF Inr] obtain index block where "bt_get (ac_content k) index \<noteq> None"
      and "content' = bt_insert index block (ac_content k)" by blast
    with ok Inr show ?thesis
      by (auto simp: on_content_def anthropic_core_ok_def intro: slots_ok_replace)
  qed (use ok in \<open>simp add: on_content_def\<close>)
qed

lemma keeps_append_text [keeps_intros]:
  "keeps (anthropic_core_ok limit) (on_content (append_block_text index field delta))"
  by (rule keeps_update_content)
    (auto simp: append_block_text_def bind_eq_Some_conv split: option.splits json.splits prod.splits
      intro!: exI [of _ index])

lemma keeps_append_signature [keeps_intros]:
  "keeps (anthropic_core_ok limit) (on_content (append_signature index signature))"
  by (rule keeps_update_content)
    (auto simp: append_signature_def bind_eq_Some_conv split: option.splits json.splits intro!: exI [of _ index])

lemma keeps_some [keeps_intros]: "(\<And>a. keeps P (f a)) \<Longrightarrow> keeps P (act_some f x)"
  unfolding act_some_def by (intro keeps_intros)

lemma keeps_slot:
  "keeps (\<lambda>k. anthropic_core_ok limit k \<and> bt_has (ac_content k) index) (tool_slot index)"
proof (rule keepsI, elim conjE)
  fix k
  assume ok: "anthropic_core_ok limit k" and has: "bt_has (ac_content k) index"
  have "ac_inner (snd (tool_slot index k)) = ac_inner k \<and> ac_content (snd (tool_slot index k)) = ac_content k \<and>
      ac_aggregate_bytes (snd (tool_slot index k)) = ac_aggregate_bytes k"
    by (simp add: tool_slot_def Let_def split: option.split)
  moreover have "slots_ok (snd (tool_slot index k))"
    using ok has by (intro slots_ok_slot) (simp_all add: anthropic_core_ok_def)
  ultimately show "anthropic_core_ok limit (snd (tool_slot index k)) \<and> bt_has (ac_content (snd (tool_slot index k))) index"
    using ok has by (simp add: anthropic_core_ok_def)
qed

lemma feed_content [simp]: "ac_content (snd (anthropic_feed c nanos ev k)) = ac_content k"
  by (simp add: anthropic_feed_def split: prod.split sum.split)

lemma keeps_feed_has: "keeps (\<lambda>k. anthropic_core_ok limit k \<and> bt_has (ac_content k) index) (anthropic_feed c nanos ev)"
  using keepsD [OF keeps_feed] by (intro keepsI) simp

lemma keeps_start_block:
  "keeps (\<lambda>k. anthropic_core_ok limit k \<and> bt_has (ac_content k) index) (start_block c nanos index block)"
  unfolding start_block_def start_tool_use_def Let_def
  by (intro keeps_intros keeps_slot keeps_feed_has)

lemma keeps_block_start [keeps_intros]:
  "keeps (anthropic_core_ok limit) (content_block_start c nanos limit event)"
proof (rule keepsI)
  fix k
  assume ok: "anthropic_core_ok limit k"
  show "anthropic_core_ok limit (snd (content_block_start c nanos limit event k))"
  proof (cases "content_index event")
    case (Inr index)
    show ?thesis
    proof (cases "bt_has (ac_content k) index \<or> length (ac_content k) < max_content_blocks")
      case room: True
      show ?thesis
      proof (cases "jget event ''content_block''")
        case (Some block)
        obtain r k' where reserve: "anthropic_reserve limit (length (display c block)) k = (r, k')" by fastforce
        then have k': "anthropic_core_ok limit k'" "ac_content k' = ac_content k"
          using keepsD [OF keeps_reserve ok, of "length (display c block)"]
            reserve_content(1) [of limit "length (display c block)" k] by simp_all
        let ?k = "k'\<lparr>ac_content := bt_insert index block (ac_content k')\<rparr>"
        have "anthropic_core_ok limit ?k"
          using k' room slots_ok_content [of k' index block] by (simp add: anthropic_core_ok_def)
        then have "anthropic_core_ok limit (snd (start_block c nanos index block ?k))"
          using keepsD [OF keeps_start_block, of limit ?k index c nanos block] by simp
        with Inr room Some reserve k' show ?thesis
          by (cases r) (auto simp: content_block_start_def act_apply)
      qed (use Inr room ok in \<open>auto simp: content_block_start_def\<close>)
    qed (use Inr ok in \<open>auto simp: content_block_start_def\<close>)
  qed (use ok in \<open>simp add: content_block_start_def\<close>)
qed


lemma keeps_json_delta [keeps_intros]:
  "keeps (anthropic_core_ok limit) (json_delta c nanos limit index partial)"
proof (rule keepsI)
  fix k
  assume ok: "anthropic_core_ok limit k"
  show "anthropic_core_ok limit (snd (json_delta c nanos limit index partial k))"
  proof (cases "bt_get (ac_tool_indices k) index")
    case (Some tool_index)
    obtain r k' where reserve: "anthropic_reserve limit (length partial) k = (r, k')" by fastforce
    then have k': "anthropic_core_ok limit k'" "ac_tool_indices k' = ac_tool_indices k"
      using keepsD [OF keeps_reserve ok, of "length partial"]
        reserve_content(2) [of limit "length partial" k] by simp_all
    let ?k = "k'\<lparr>ac_tool_json :=
      bt_insert index (unwrap_or (bt_get (ac_tool_json k') index) [] @ partial) (ac_tool_json k')\<rparr>"
    have "anthropic_core_ok limit ?k"
      using k' Some slots_ok_json [of k' index] by (simp add: anthropic_core_ok_def)
    then have "anthropic_core_ok limit (snd (anthropic_feed c nanos ev ?k))" for ev
      using keepsD [OF keeps_feed] by simp
    with Some reserve k' show ?thesis
      by (cases r) (simp_all add: json_delta_def act_apply)
  qed (use ok in \<open>simp add: json_delta_def\<close>)
qed

lemma keeps_block_delta [keeps_intros]:
  "keeps (anthropic_core_ok limit) (content_block_delta c nanos limit event)"
  unfolding content_block_delta_def Let_def
  by (cases "content_index event") (simp_all add: keeps_intros)

lemma keeps_block_stop [keeps_intros]: "keeps (anthropic_core_ok limit) (content_block_stop c event)"
proof (rule keepsI)
  fix k
  assume ok: "anthropic_core_ok limit k"
  show "anthropic_core_ok limit (snd (content_block_stop c event k))"
  proof (cases "content_index event")
    case (Inr index)
    let ?k = "k\<lparr>ac_tool_json := bt_remove index (ac_tool_json k)\<rparr>"
    let ?set = "\<lambda>input content. case Option.bind (bt_get content index) as_object of
        None \<Rightarrow> Inl AnthropicInvalidStream
      | Some block \<Rightarrow> Inr (bt_insert index (JObject (map_insert ''input'' input block)) content)"
    have k: "anthropic_core_ok limit ?k"
      using ok slots_ok_stop [of k index] by (simp add: anthropic_core_ok_def)
    have "keeps (anthropic_core_ok limit) (on_content (?set input))" for input
      by (rule keeps_update_content)
        (auto simp: bind_eq_Some_conv split: option.splits intro!: exI [of _ index])
    from keepsD [OF this k] ok k Inr show ?thesis
      by (simp add: content_block_stop_def Let_def split: option.split sum.split)
  qed (use ok in \<open>simp add: content_block_stop_def\<close>)
qed

lemma keeps_tokens [keeps_intros]:
  "keeps (anthropic_core_ok limit) (act_upd (\<lambda>k. k\<lparr>ac_input_tokens := n\<rparr>))"
  "keeps (anthropic_core_ok limit) (act_upd (\<lambda>k. k\<lparr>ac_output_tokens := g k\<rparr>))"
  by (rule keeps_upd; simp add: anthropic_core_ok_def slots_ok_def)+

lemma keeps_usage [keeps_intros]:
  "keeps (anthropic_core_ok limit) (\<lambda>k. anthropic_feed c nanos (Usage (ac_input_tokens k) (ac_output_tokens k)) k)"
  using keepsD [OF keeps_feed] by (intro keepsI)

lemma keeps_anthropic_parse_block:
  "keeps (anthropic_core_ok limit) (anthropic_parse_block c nanos limit block)"
proof -
  have start: "keeps (anthropic_core_ok limit) (message_start c nanos v)" for v
    unfolding message_start_def Let_def by (intro keeps_intros)
  have delta: "keeps (anthropic_core_ok limit) (message_delta c nanos v)" for v
    unfolding message_delta_def by (intro keeps_intros)
  have "keeps (anthropic_core_ok limit) (anthropic_apply_event c nanos limit v)" for v
    unfolding anthropic_apply_event_def by (intro keeps_intros start delta)
  then show ?thesis
    unfolding anthropic_parse_block_def Let_def
    by (cases "parse c (sse_data (replace_crlf (from_utf8_lossy block)))") (simp_all add: keeps_intros)
qed

definition anthropic_decoder_ok :: "anthropic_decoder \<Rightarrow> bool" where
  "anthropic_decoder_ok d \<longleftrightarrow> buffer_ok d \<and> anthropic_core_ok (max_buffer_bytes d) (core d)"

lemma put_pending_ok: "anthropic_core_ok limit k \<Longrightarrow> anthropic_core_ok limit (put_ac_pending q k)"
  by (simp add: anthropic_core_ok_def slots_ok_def put_ac_pending_def)

lemma anthropic_push_max [simp]: "max_buffer_bytes (snd (anthropic_push c nanos data d)) = max_buffer_bytes d"
  by (simp add: anthropic_push_def)

lemma anthropic_push_ok:
  assumes "anthropic_decoder_ok d"
  shows "anthropic_decoder_ok (snd (anthropic_push c nanos data d))"
proof -
  let ?limit = "max_buffer_bytes d"
  have "anthropic_core_ok ?limit (core (snd (anthropic_push c nanos data d)))"
    unfolding anthropic_push_def
    by (rule queued_push_core [where P = "anthropic_core_ok ?limit"])
      (use assms in \<open>simp_all add: anthropic_decoder_ok_def keeps_anthropic_parse_block put_pending_ok\<close>)
  moreover have "buffer_ok (snd (anthropic_push c nanos data d))"
    unfolding anthropic_push_def using assms
    by (intro anthropic_queue.pushq_buffer_ok) (simp add: anthropic_decoder_ok_def)
  ultimately show ?thesis by (simp add: anthropic_decoder_ok_def)
qed

lemma anthropic_finish_ok:
  assumes "anthropic_decoder_ok d"
  shows "anthropic_decoder_ok (snd (anthropic_finish c nanos d))"
proof -
  let ?limit = "max_buffer_bytes d"
  let ?pb = "anthropic_parse_block c nanos ?limit"
  obtain r d' where flush: "sse_flush ?pb d = (r, d')" by fastforce
  have "anthropic_core_ok ?limit (snd (?pb (buffer d) (core d)))"
    using keepsD [OF keeps_anthropic_parse_block] assms by (simp add: anthropic_decoder_ok_def)
  then have "anthropic_core_ok ?limit (core (snd (sse_flush ?pb d)))"
    using assms by (auto simp: sse_flush_def anthropic_decoder_ok_def split: prod.split sum.split)
  with flush have ok: "anthropic_core_ok ?limit (core d')" "max_buffer_bytes d' = ?limit" "buffer_ok d'"
    using sse_flush_max [of ?pb d] sse_flush_buffer_ok [of d ?pb] assms
    by (simp_all add: anthropic_decoder_ok_def)
  then show ?thesis
    by (cases r)
      (simp_all add: anthropic_finish_def flush anthropic_decoder_ok_def Let_def anthropic_core_ok_def slots_ok_def
        emitter_drain_def emitter_ok_pending buffer_ok_def)
qed

lemma anthropic_push_again:
  assumes "max_buffer_bytes d = limit"
  shows "anthropic_push c nanos data d =
     queued_push ac_pending put_ac_pending AnthropicStreamBufferLimit anthropic_normalize_newlines
       (anthropic_parse_block c nanos limit) data d"
  using assms by (simp add: anthropic_push_def)

lemma anthropic_push_two:
  assumes "anthropic_decoder_ok d" and "fits d (s @ t)" and "\<not> splits_crlf s t"
  shows "fst (act (anthropic_push c nanos s) (\<lambda>out. act (anthropic_push c nanos t) (\<lambda>rest. act_ok (out @ rest))) d) =
      fst (anthropic_push c nanos (s @ t) d) \<and>
    (\<forall>out. fst (anthropic_push c nanos (s @ t) d) = Inr out \<longrightarrow>
       snd (act (anthropic_push c nanos s) (\<lambda>out. act (anthropic_push c nanos t) (\<lambda>rest. act_ok (out @ rest))) d) =
       snd (anthropic_push c nanos (s @ t) d))"
proof -
  let ?pb = "anthropic_parse_block c nanos (max_buffer_bytes d)"
  let ?q = "queued_push ac_pending put_ac_pending AnthropicStreamBufferLimit anthropic_normalize_newlines ?pb"
  have "act (anthropic_push c nanos s) (\<lambda>out. act (anthropic_push c nanos t) (\<lambda>rest. act_ok (out @ rest))) d =
      act (?q s) (\<lambda>out. act (?q t) (\<lambda>rest. act_ok (out @ rest))) d"
  proof (cases "?q s d")
    case (Pair r d')
    then have "max_buffer_bytes d' = max_buffer_bytes d"
      using queued_push_max [of ac_pending put_ac_pending AnthropicStreamBufferLimit anthropic_normalize_newlines ?pb s d]
      by simp
    with Pair show ?thesis
      by (cases r) (simp_all add: act_apply anthropic_push_again)
  qed
  moreover have "anthropic_push c nanos (s @ t) d = ?q (s @ t) d"
    by (simp add: anthropic_push_def)
  ultimately show ?thesis
    using anthropic_queue.pushq_two [of d s t c nanos "max_buffer_bytes d"] assms
    by (simp add: anthropic_decoder_ok_def)
qed

interpretation anthropic_stream: event_decoder
    "anthropic_decoder_push c nanos" "anthropic_decoder_finish c nanos" anthropic_decoder_ok fits
  for c nanos
proof unfold_locales
  fix d :: anthropic_decoder and s t data
  assume ok: "anthropic_decoder_ok d"
  then have buffer: "buffer_ok d" by (simp add: anthropic_decoder_ok_def)
  show "anthropic_decoder_ok (snd (anthropic_decoder_push c nanos data d))"
    using anthropic_push_ok [OF ok] by (simp add: anthropic_decoder_push_def)
  show "anthropic_decoder_ok (snd (anthropic_decoder_finish c nanos d))"
    using anthropic_finish_ok [OF ok] by (simp add: anthropic_decoder_finish_def)
  assume room: "fits d (s @ t)"
  show "fits d' t" if "anthropic_decoder_push c nanos s d = (Inr out, d')" for out d'
  proof -
    from that have "anthropic_push c nanos s d = (Inr out, d')"
      by (simp add: anthropic_decoder_push_def act_map_err_def split: prod.splits)
    then show ?thesis
      unfolding anthropic_push_def by (rule anthropic_queue.pushq_room [OF buffer room])
  qed
  assume cut: "\<not> splits_crlf s t"
  show "fst (act (anthropic_decoder_push c nanos s)
          (\<lambda>out. act (anthropic_decoder_push c nanos t) (\<lambda>rest. act_ok (out @ rest))) d) =
        fst (anthropic_decoder_push c nanos (s @ t) d) \<and>
      (\<forall>out. fst (anthropic_decoder_push c nanos (s @ t) d) = Inr out \<longrightarrow>
         snd (act (anthropic_decoder_push c nanos s)
           (\<lambda>out. act (anthropic_decoder_push c nanos t) (\<lambda>rest. act_ok (out @ rest))) d) =
         snd (anthropic_decoder_push c nanos (s @ t) d))"
    unfolding anthropic_decoder_push_def
    using anthropic_push_two [OF ok room cut, of c nanos]
      act_map_err_two [of anthropic_map_failure "anthropic_push c nanos s" "anthropic_push c nanos t" d] by simp
qed


section \<open>Bytes of the content\<close>

text \<open>
  The bytes of the content that the decoder keeps: those of the values in the blocks (a value that
  is no string, no array and no object counts one), and those of the pieces of tool inputs.
\<close>

fun json_bytes :: "json \<Rightarrow> nat" where
  "json_bytes (JString s) = length s"
| "json_bytes (JArray xs) = sum_list (map json_bytes xs)"
| "json_bytes (JObject m) = sum_list (map (\<lambda>e. length (fst e) + json_bytes (snd e)) m)"
| "json_bytes _ = 1"

definition fields_bytes :: "jmap \<Rightarrow> nat" where
  "fields_bytes m = sum_list (map (\<lambda>e. json_bytes (snd e)) m)"

definition block_bytes :: "json \<Rightarrow> nat" where
  "block_bytes b = (case b of JObject m \<Rightarrow> fields_bytes m | _ \<Rightarrow> json_bytes b)"

definition content_bytes :: "anthropic_core \<Rightarrow> nat" where
  "content_bytes k =
     bt_sum (\<lambda>i. block_bytes) (ac_content k) + bt_sum (\<lambda>i. length) (ac_tool_json k)"

text \<open>What \<open>serde_json\<close> guarantees: the text of a value is at least as long as the strings and the
  numbers in it, whether it was printed or read.\<close>

definition codec_sizes :: "codec \<Rightarrow> bool" where
  "codec_sizes c \<longleftrightarrow>
     (\<forall>v. json_ok v \<longrightarrow> json_bytes v \<le> length (display c v)) \<and>
     (\<forall>t v. parse c t = Inr v \<longrightarrow> json_ok v \<and> json_bytes v \<le> length t)"

lemma block_bytes_le: "block_bytes b \<le> json_bytes b"
proof (cases b)
  case (JObject m)
  then show ?thesis by (auto simp: block_bytes_def fields_bytes_def intro!: sum_list_mono)
qed (simp_all add: block_bytes_def)

lemma jget_json_ok: "json_ok v \<Longrightarrow> jget v k = Some w \<Longrightarrow> json_ok w"
  by (cases v) (force simp: map_get_def dest: map_of_SomeD)+

lemma fields_bytes_insert:
  "map_get m k = Some w \<Longrightarrow> fields_bytes (map_insert k v m) + json_bytes w = fields_bytes m + json_bytes v"
  "map_get m k = None \<Longrightarrow> fields_bytes (map_insert k v m) = fields_bytes m + json_bytes v"
  by (induction m) (auto simp: fields_bytes_def map_get_Cons split: if_splits)

lemma fields_bytes_insert_le: "fields_bytes (map_insert k v m) \<le> fields_bytes m + json_bytes v"
  using fields_bytes_insert(1) [of m k _ v] fields_bytes_insert(2) [of m k v] by (cases "map_get m k") fastforce+

definition trees_ok :: "anthropic_core \<Rightarrow> bool" where
  "trees_ok k \<longleftrightarrow> bt_ok (ac_content k) \<and> bt_ok (ac_tool_json k)"

definition counted :: "anthropic_core \<Rightarrow> bool" where
  "counted k \<longleftrightarrow> trees_ok k \<and> content_bytes k \<le> ac_aggregate_bytes k"

text \<open>A step that adds at most so many bytes to the content and does not count them.\<close>

definition grows :: "nat \<Rightarrow> 'a anthropic_action \<Rightarrow> bool" where
  "grows n m \<longleftrightarrow> (\<forall>k. trees_ok k \<longrightarrow> trees_ok (snd (m k)) \<and>
     ac_aggregate_bytes (snd (m k)) = ac_aggregate_bytes k \<and> content_bytes (snd (m k)) \<le> content_bytes k + n)"

lemma growsI:
  "(\<And>k. trees_ok k \<Longrightarrow> trees_ok (snd (m k)) \<and> ac_aggregate_bytes (snd (m k)) = ac_aggregate_bytes k \<and>
     content_bytes (snd (m k)) \<le> content_bytes k + n) \<Longrightarrow> grows n m"
  by (simp add: grows_def)

lemma growsD:
  assumes "grows n m" and "trees_ok k" and "m k = (r, k')"
  shows "trees_ok k' \<and> ac_aggregate_bytes k' = ac_aggregate_bytes k \<and> content_bytes k' \<le> content_bytes k + n"
proof -
  have "k' = snd (m k)" by (simp add: assms(3))
  then show ?thesis using assms(1,2) unfolding grows_def by blast
qed

lemma grows_same:
  "(\<And>k. ac_content (snd (m k)) = ac_content k \<and> ac_tool_json (snd (m k)) = ac_tool_json k \<and>
     ac_aggregate_bytes (snd (m k)) = ac_aggregate_bytes k) \<Longrightarrow> grows 0 m"
  by (rule growsI) (simp add: trees_ok_def content_bytes_def)

lemma grows_act:
  assumes "grows a m" and "\<And>x. grows b (f x)"
  shows "grows (a + b) (act m f)"
proof (rule growsI)
  fix k
  assume k: "trees_ok k"
  obtain r k1 where m: "m k = (r, k1)" by fastforce
  have one: "trees_ok k1" "ac_aggregate_bytes k1 = ac_aggregate_bytes k" "content_bytes k1 \<le> content_bytes k + a"
    using growsD [OF assms(1) k m] by simp_all
  show "trees_ok (snd (act m f k)) \<and> ac_aggregate_bytes (snd (act m f k)) = ac_aggregate_bytes k \<and>
      content_bytes (snd (act m f k)) \<le> content_bytes k + (a + b)"
  proof (cases r)
    case (Inr x)
    obtain q k2 where f: "f x k1 = (q, k2)" by fastforce
    with growsD [OF assms(2) one(1) f] one m Inr show ?thesis by (simp add: act_apply)
  qed (use one m in \<open>simp add: act_apply\<close>)
qed

lemma grows_le: "grows a m \<Longrightarrow> a \<le> b \<Longrightarrow> grows b m"
  unfolding grows_def by (meson add_left_mono le_trans)

lemma grows_feed: "grows 0 (anthropic_feed c nanos ev)"
  by (rule grows_same) (simp add: anthropic_feed_def split: prod.split sum.split)

lemma keeps_grows: "grows 0 m \<Longrightarrow> keeps counted m"
proof (rule keepsI)
  fix k
  assume "grows 0 m" "counted k"
  moreover obtain r k' where "m k = (r, k')" by fastforce
  ultimately show "counted (snd (m k))"
    using growsD [of 0 m k r k'] by (simp add: counted_def)
qed

lemma keeps_reserved:
  assumes "grows n m"
  shows "keeps counted (act (anthropic_reserve limit n) (\<lambda>_. m))"
proof (rule keepsI)
  fix k
  assume k: "counted k"
  show "counted (snd (act (anthropic_reserve limit n) (\<lambda>_. m) k))"
  proof (cases "fst (anthropic_reserve limit n k)")
    case (Inr u)
    let ?k = "k\<lparr>ac_aggregate_bytes := ac_aggregate_bytes k + n\<rparr>"
    from Inr have run: "anthropic_reserve limit n k = (Inr (), ?k)"
      by (auto simp: anthropic_reserve_def checked_add_def split: if_splits)
    have "trees_ok ?k" "content_bytes ?k = content_bytes k"
      using k by (simp_all add: counted_def trees_ok_def content_bytes_def)
    moreover obtain q k2 where "m ?k = (q, k2)" by fastforce
    ultimately have "counted (snd (m ?k))"
      using growsD [OF assms, of ?k q k2] k by (simp add: counted_def)
    then show ?thesis by (simp add: act_apply run)
  next
    case (Inl e)
    then have "anthropic_reserve limit n k = (Inl e, k)"
      by (auto simp: anthropic_reserve_def split: option.splits if_splits)
    then show ?thesis using k by (simp add: act_apply)
  qed
qed

lemma content_insert:
  assumes "trees_ok k"
  shows "bt_get (ac_content k) i = Some old \<Longrightarrow>
      content_bytes (k\<lparr>ac_content := bt_insert i b (ac_content k)\<rparr>) + block_bytes old = content_bytes k + block_bytes b"
    and "content_bytes (k\<lparr>ac_content := bt_insert i b (ac_content k)\<rparr>) \<le> content_bytes k + block_bytes b"
proof -
  have ok: "bt_ok (ac_content k)" using assms by (simp add: trees_ok_def)
  show old: "bt_get (ac_content k) i = Some old \<Longrightarrow>
      content_bytes (k\<lparr>ac_content := bt_insert i b (ac_content k)\<rparr>) + block_bytes old = content_bytes k + block_bytes b"
    for old using bt_sum_insert_old [OF ok, of i old "\<lambda>i. block_bytes" b] by (simp add: content_bytes_def)
  show "content_bytes (k\<lparr>ac_content := bt_insert i b (ac_content k)\<rparr>) \<le> content_bytes k + block_bytes b"
  proof (cases "bt_get (ac_content k) i")
    case None
    then show ?thesis using bt_sum_insert_new [OF ok None, of "\<lambda>i. block_bytes" b] by (simp add: content_bytes_def)
  next
    case (Some w)
    with old [of w] show ?thesis by simp
  qed
qed

lemma grows_on_block:
  assumes "\<And>content content'. f content = Inr content' \<Longrightarrow>
      \<exists>i b b'. bt_get content i = Some b \<and> content' = bt_insert i b' content \<and> block_bytes b' \<le> block_bytes b + n"
  shows "grows n (on_content f)"
proof (rule growsI)
  fix k
  assume k: "trees_ok k"
  show "trees_ok (snd (on_content f k)) \<and> ac_aggregate_bytes (snd (on_content f k)) = ac_aggregate_bytes k \<and>
      content_bytes (snd (on_content f k)) \<le> content_bytes k + n"
  proof (cases "f (ac_content k)")
    case (Inr content)
    with assms [OF Inr] obtain i b b' where step: "bt_get (ac_content k) i = Some b"
      "content = bt_insert i b' (ac_content k)" "block_bytes b' \<le> block_bytes b + n" by blast
    with content_insert(1) [OF k step(1), of b'] have "content_bytes (k\<lparr>ac_content := content\<rparr>) \<le> content_bytes k + n"
      by simp
    with Inr step k show ?thesis by (simp add: on_content_def trees_ok_def)
  qed (use k in \<open>simp add: on_content_def\<close>)
qed

lemma grows_text: "grows (length t) (on_content (append_block_text i f t))"
proof (rule grows_on_block)
  fix content content'
  assume "append_block_text i f t content = Inr content'"
  then obtain m s where m: "bt_get content i = Some (JObject m)" "map_get m f = Some (JString s)"
    "content' = bt_insert i (JObject (map_insert f (JString (s @ t)) m)) content"
    by (auto simp: append_block_text_def bind_eq_Some_conv jget_Some jset_def
        split: option.splits json.splits prod.splits)
  then show "\<exists>i b b'. bt_get content i = Some b \<and> content' = bt_insert i b' content \<and>
      block_bytes b' \<le> block_bytes b + length t"
    using fields_bytes_insert(1) [OF m(2), of "JString (s @ t)"]
    by (intro exI conjI) (assumption, rule m(3), simp add: block_bytes_def)
qed

lemma grows_signature: "grows (length t) (on_content (append_signature i t))"
proof (rule grows_on_block)
  fix content content'
  assume run: "append_signature i t content = Inr content'"
  have obj: "as_object b = Some m \<longleftrightarrow> b = JObject m" for b m
    by (cases b) (simp_all add: as_object_def)
  from run obtain m where m: "bt_get content i = Some (JObject m)"
    by (auto simp: append_signature_def bind_eq_Some_conv obj split: option.splits)
  show "\<exists>i b b'. bt_get content i = Some b \<and> content' = bt_insert i b' content \<and>
      block_bytes b' \<le> block_bytes b + length t"
  proof (cases "map_get m ''signature''")
    case None
    with run m have "content' = bt_insert i (JObject (map_insert ''signature'' (JString t) m)) content"
      by (simp add: append_signature_def obj as_object_def)
    then show ?thesis
      using m fields_bytes_insert(2) [OF None, of "JString t"]
      by (intro exI conjI) (assumption+, simp add: block_bytes_def)
  next
    case (Some v)
    with run m obtain s where v: "v = JString s"
      "content' = bt_insert i (JObject (map_insert ''signature'' (JString (s @ t)) m)) content"
      by (auto simp: append_signature_def as_object_def split: json.splits)
    then show ?thesis
      using m fields_bytes_insert(1) [OF Some, of "JString (s @ t)"]
      by (intro exI conjI) (assumption, rule v(2), simp add: block_bytes_def)
  qed
qed

lemma grows_pieces:
  "grows (length t) (act_upd (\<lambda>k. k\<lparr>ac_tool_json :=
     bt_insert i (unwrap_or (bt_get (ac_tool_json k) i) [] @ t) (ac_tool_json k)\<rparr>))"
proof (rule growsI)
  fix k
  assume k: "trees_ok k"
  then have ok: "bt_ok (ac_tool_json k)" by (simp add: trees_ok_def)
  let ?s = "unwrap_or (bt_get (ac_tool_json k) i) [] @ t"
  have "bt_sum (\<lambda>i. length) (bt_insert i ?s (ac_tool_json k)) = bt_sum (\<lambda>i. length) (ac_tool_json k) + length t"
    using bt_sum_insert_new [OF ok, of i "\<lambda>i. length" ?s] bt_sum_insert_old [OF ok, of i _ "\<lambda>i. length" ?s]
    by (cases "bt_get (ac_tool_json k) i") (fastforce simp: unwrap_or_def)+
  with k show "trees_ok (snd (act_upd (\<lambda>k. k\<lparr>ac_tool_json :=
        bt_insert i (unwrap_or (bt_get (ac_tool_json k) i) [] @ t) (ac_tool_json k)\<rparr>) k)) \<and>
      ac_aggregate_bytes (snd (act_upd (\<lambda>k. k\<lparr>ac_tool_json :=
        bt_insert i (unwrap_or (bt_get (ac_tool_json k) i) [] @ t) (ac_tool_json k)\<rparr>) k)) = ac_aggregate_bytes k \<and>
      content_bytes (snd (act_upd (\<lambda>k. k\<lparr>ac_tool_json :=
        bt_insert i (unwrap_or (bt_get (ac_tool_json k) i) [] @ t) (ac_tool_json k)\<rparr>) k)) \<le> content_bytes k + length t"
    by (simp add: trees_ok_def content_bytes_def)
qed

lemma grows_stop:
  assumes "codec_sizes c"
  shows "grows 0 (content_block_stop c event)"
proof (rule growsI)
  fix k
  assume k: "trees_ok k"
  let ?run = "content_block_stop c event k"
  show "trees_ok (snd ?run) \<and> ac_aggregate_bytes (snd ?run) = ac_aggregate_bytes k \<and>
      content_bytes (snd ?run) \<le> content_bytes k + 0"
  proof (cases "content_index event")
    case (Inr i)
    show ?thesis
    proof (cases "bt_get (ac_tool_json k) i")
      case None
      with Inr k show ?thesis by (simp add: content_block_stop_def)
    next
      case (Some t)
      let ?k = "k\<lparr>ac_tool_json := bt_remove i (ac_tool_json k)\<rparr>"
      have removed: "trees_ok ?k" "content_bytes ?k + length t = content_bytes k"
        using k bt_sum_remove [of "ac_tool_json k" i t "\<lambda>i. length"] Some
        by (simp_all add: trees_ok_def content_bytes_def)
      show ?thesis
      proof (cases "parse c t")
        case (Inl e)
        with Inr Some removed show ?thesis by (simp add: content_block_stop_def Let_def)
      next
        case parsed: (Inr v)
        let ?set = "\<lambda>content. case Option.bind (bt_get content i) as_object of
            None \<Rightarrow> Inl AnthropicInvalidStream
          | Some block \<Rightarrow> Inr (bt_insert i (JObject (map_insert ''input'' v block)) content)"
        have obj: "as_object b = Some m \<longleftrightarrow> b = JObject m" for b m
          by (cases b) (simp_all add: as_object_def)
        have "grows (json_bytes v) (on_content ?set)"
          using fields_bytes_insert_le [of "''input''" v]
          by (intro grows_on_block)
            (force simp: bind_eq_Some_conv obj block_bytes_def split: option.splits)
        then have "trees_ok (snd (on_content ?set ?k)) \<and> ac_aggregate_bytes (snd (on_content ?set ?k)) = ac_aggregate_bytes ?k \<and>
            content_bytes (snd (on_content ?set ?k)) \<le> content_bytes ?k + json_bytes v"
          using removed(1) unfolding grows_def by blast
        moreover have "json_bytes v \<le> length t"
          using assms parsed by (simp add: codec_sizes_def)
        moreover have "?run = on_content ?set ?k"
          using Inr Some parsed by (simp add: content_block_stop_def Let_def)
        ultimately show ?thesis using removed(2) by simp
      qed
    qed
  qed (use k in \<open>simp add: content_block_stop_def\<close>)
qed

lemma grows_start_block: "grows 0 (start_block c nanos index block)"
proof (rule grows_same)
  fix k
  have slot: "ac_content (snd (tool_slot index k)) = ac_content k"
      "ac_tool_json (snd (tool_slot index k)) = ac_tool_json k"
      "ac_aggregate_bytes (snd (tool_slot index k)) = ac_aggregate_bytes k"
    by (simp_all add: tool_slot_def Let_def split: option.split)
  have feed: "ac_tool_json (snd (anthropic_feed c nanos ev k)) = ac_tool_json k"
      "ac_aggregate_bytes (snd (anthropic_feed c nanos ev k)) = ac_aggregate_bytes k" for ev k
    by (simp_all add: anthropic_feed_def split: prod.split sum.split)
  have tool: "ac_content (snd (start_tool_use c nanos index block k)) = ac_content k \<and>
      ac_tool_json (snd (start_tool_use c nanos index block k)) = ac_tool_json k \<and>
      ac_aggregate_bytes (snd (start_tool_use c nanos index block k)) = ac_aggregate_bytes k"
    using slot by (cases "tool_slot index k"; cases "fst (tool_slot index k)")
      (simp_all add: start_tool_use_def act_apply feed split: option.split)
  then show "ac_content (snd (start_block c nanos index block k)) = ac_content k \<and>
      ac_tool_json (snd (start_block c nanos index block k)) = ac_tool_json k \<and>
      ac_aggregate_bytes (snd (start_block c nanos index block k)) = ac_aggregate_bytes k"
    by (simp add: start_block_def act_some_def Let_def feed split: option.split)
qed

lemma counted_start:
  assumes "codec_sizes c" and "json_ok event"
  shows "keeps counted (content_block_start c nanos limit event)"
proof (rule keepsI)
  fix k
  assume k: "counted k"
  have run: "keeps counted (act (anthropic_reserve limit (length (display c b)))
      (\<lambda>_. act (act_upd (\<lambda>k. k\<lparr>ac_content := bt_insert i b (ac_content k)\<rparr>)) (\<lambda>_. start_block c nanos i b)))"
    if "jget event ''content_block'' = Some b" for i b
  proof -
    have "block_bytes b \<le> length (display c b)"
      using block_bytes_le [of b] assms jget_json_ok [OF assms(2) that] unfolding codec_sizes_def
      by (meson le_trans)
    moreover have "grows (block_bytes b) (act_upd (\<lambda>k. k\<lparr>ac_content := bt_insert i b (ac_content k)\<rparr>))"
      by (rule growsI) (simp add: content_insert(2), simp add: trees_ok_def)
    then have "grows (block_bytes b) (act (act_upd (\<lambda>k. k\<lparr>ac_content := bt_insert i b (ac_content k)\<rparr>))
        (\<lambda>_. start_block c nanos i b))"
      using grows_act [OF _ grows_start_block] by fastforce
    ultimately show ?thesis by (intro keeps_reserved) (rule grows_le)
  qed
  show "counted (snd (content_block_start c nanos limit event k))"
    using keepsD [OF run k] k by (simp add: content_block_start_def split: sum.split option.split)
qed

lemma counted_delta: "keeps counted (content_block_delta c nanos limit event)"
proof -
  have later: "grows n m \<Longrightarrow> keeps counted (act (anthropic_reserve limit n) (\<lambda>_. act m (\<lambda>_. anthropic_feed c nanos ev)))"
    for n ev and m :: "unit anthropic_action"
    using grows_act [OF _ grows_feed, of n m] by (intro keeps_reserved) simp
  have "keeps counted (json_delta c nanos limit i t)" for i t
    using keepsD [OF later [OF grows_pieces]]
    by (intro keepsI) (simp add: json_delta_def split: option.split)
  then show ?thesis
    unfolding content_block_delta_def Let_def
    by (cases "content_index event")
      (auto simp: keeps_err keeps_ok later [OF grows_text] keeps_reserved [OF grows_signature] split: option.split)
qed

lemma counted_message: "keeps counted (message_start c nanos event)" "keeps counted (message_delta c nanos event)"
proof -
  have feed: "keeps counted (anthropic_feed c nanos ev)" for ev by (rule keeps_grows [OF grows_feed])
  then have usage: "keeps counted (\<lambda>k. anthropic_feed c nanos (Usage (ac_input_tokens k) (ac_output_tokens k)) k)"
    using keepsD [OF feed] by (intro keepsI)
  have upd: "(\<And>k. counted (u k) = counted k) \<Longrightarrow> keeps counted (act_upd u)" for u
    by (rule keeps_upd) simp
  show "keeps counted (message_start c nanos event)"
    unfolding message_start_def Let_def
    by (intro keeps_intros feed usage upd) (simp add: counted_def trees_ok_def content_bytes_def)
  show "keeps counted (message_delta c nanos event)"
    unfolding message_delta_def
    by (intro keeps_intros feed usage upd) (simp add: counted_def trees_ok_def content_bytes_def)
qed

lemma counted_parse_block:
  assumes "codec_sizes c"
  shows "keeps counted (anthropic_parse_block c nanos limit block)"
proof -
  have event: "keeps counted (anthropic_apply_event c nanos limit v)" if "json_ok v" for v
    unfolding anthropic_apply_event_def
    by (intro keeps_intros counted_start [OF assms that] counted_delta counted_message
        keeps_grows [OF grows_stop [OF assms]] keeps_grows [OF grows_feed])
  show ?thesis
  proof (cases "parse c (sse_data (replace_crlf (from_utf8_lossy block)))")
    case (Inr v)
    then have "json_ok v" using assms by (simp add: codec_sizes_def)
    from event [OF this] Inr show ?thesis
      by (simp add: anthropic_parse_block_def Let_def keeps_intros)
  qed (simp add: anthropic_parse_block_def Let_def keeps_intros)
qed

lemma counted_feed:
  assumes "codec_sizes c"
  shows "counted (core d) \<Longrightarrow> counted (core (snd (feed (anthropic_decoder_push c nanos) chunks d)))"
proof (induction chunks arbitrary: d)
  case (Cons s chunks)
  obtain r d' where step: "anthropic_decoder_push c nanos s d = (r, d')" by fastforce
  have "counted (core (snd (anthropic_push c nanos s d)))"
    unfolding anthropic_push_def
    by (rule queued_push_core [where P = counted])
      (use Cons.prems counted_parse_block [OF assms] in
        \<open>simp_all add: counted_def trees_ok_def content_bytes_def put_ac_pending_def\<close>)
  then have "counted (core (snd (anthropic_decoder_push c nanos s d)))"
    by (simp add: anthropic_decoder_push_def)
  with step have here: "counted (core d')" by simp
  from Cons.IH [OF here] here step show ?case
    by (cases r; cases "feed (anthropic_decoder_push c nanos) chunks d'";
        cases "fst (feed (anthropic_decoder_push c nanos) chunks d')") (simp_all add: act_apply)
qed simp

section \<open>Properties of the session and the stream\<close>

text \<open>Whatever commands a session of the Anthropic bridge sees, rejected ones included, its history
  has at most 256 messages and serializes within the configured bytes.\<close>

theorem anthropic_history_bounded:
  "history_within c max_bytes
     (as_history (session_run (anthropic_prepare_action c) (anthropic_commit_outcome c) commands
        (anthropic_session_with_mode upstream_model max_bytes mode)))"
proof -
  let ?s = "anthropic_session_with_mode upstream_model max_bytes mode"
  let ?run = "session_run (anthropic_prepare_action c) (anthropic_commit_outcome c) commands ?s"
  have "anthropic_within c ?s (as_history ?s)"
    by (simp add: anthropic_within_def history_within_def anthropic_session_with_mode_def)
  then have "anthropic_within c ?run (as_history ?run)" by (rule anthropic_bridge.run_within)
  moreover have "as_max_bytes ?run = as_max_bytes ?s" by (rule anthropic_run_max)
  ultimately show ?thesis
    by (simp add: anthropic_within_def anthropic_session_with_mode_def)
qed

lemma anthropic_decoder_fresh:
  assumes "limit < usize_max"
  shows "anthropic_decoder_ok (anthropic_decoder_with_tool_names nanos limit names)"
  using assms emitter_ok_new [of limit nanos names]
  by (simp add: anthropic_decoder_ok_def anthropic_decoder_with_tool_names_def anthropic_core_new_def buffer_ok_def
      anthropic_core_ok_def slots_ok_def max_content_blocks_def with_tool_names_def Let_def)

text \<open>the decoder of the Anthropic stream gives the same events, the same rejection and the same state
  for any way of cutting a body into chunks that fits its buffer and does not separate a carriage
  return from its line feed, although it normalizes line ends in place and empties its queue after
  every chunk.\<close>

theorem anthropic_chunking:
  assumes "anthropic_decoder_ok d" and "fits d (concat chunks)" and "clean_cuts chunks" and "chunks \<noteq> []"
  shows "fst (feed (anthropic_decoder_push c nanos) chunks d) = fst (anthropic_decoder_push c nanos (concat chunks) d) \<and>
    (\<forall>out. fst (anthropic_decoder_push c nanos (concat chunks) d) = Inr out \<longrightarrow>
       snd (feed (anthropic_decoder_push c nanos) chunks d) = snd (anthropic_decoder_push c nanos (concat chunks) d))"
  using assms by (rule anthropic_stream.feed_concat)

theorem anthropic_chunking_witness:
  "fst (feed (anthropic_decoder_push example_chat_codec 0) [''data:'', ''x'' @ [LF, LF]]
          (anthropic_decoder_with_tool_names 0 99 [])) =
   fst (anthropic_decoder_push example_chat_codec 0 (''data:x'' @ [LF, LF])
          (anthropic_decoder_with_tool_names 0 99 []))"
proof -
  let ?chunks = "[''data:'', ''x'' @ [LF, LF]]" and ?d = "anthropic_decoder_with_tool_names 0 99 []"
  have "anthropic_decoder_ok ?d"
    by (rule anthropic_decoder_fresh) (simp add: usize_max_def)
  moreover have "fits ?d (concat ?chunks)"
    by (simp add: fits_def anthropic_decoder_with_tool_names_def)
  moreover have "clean_cuts ?chunks" by (simp add: splits_crlf_def)
  ultimately show ?thesis
    using anthropic_chunking [of ?d ?chunks example_chat_codec 0] by simp
qed

text \<open>C14: whatever an upstream sends, the decoder of the Anthropic stream buffers at most the
  configured bytes, and keeps at most 256 content blocks, whose values, with the pieces of tool
  inputs that are still open, have at most the bytes it has counted, which are at most the
  configured ones; and it numbers the tool blocks among them without gaps or repetitions, so that
  each has its own call in the output.\<close>

theorem anthropic_decoder_bounded:
  assumes "limit < usize_max" and sizes: "codec_sizes c"
  shows "let d = snd (feed (anthropic_decoder_push c nanos) chunks (anthropic_decoder_with_tool_names nanos limit names));
             k = core d
         in length (buffer d) \<le> limit \<and> content_bytes k \<le> ac_aggregate_bytes k \<and>
            ac_aggregate_bytes k \<le> limit \<and>
            retained_bytes (ac_inner k) \<le> limit \<and> length (ac_content k) \<le> 256 \<and>
            fst ` set (ac_tool_indices k) \<subseteq> fst ` set (ac_content k) \<and>
            distinct (map snd (ac_tool_indices k)) \<and>
            unat ` snd ` set (ac_tool_indices k) = {..<length (ac_tool_indices k)}"
proof -
  let ?d0 = "anthropic_decoder_with_tool_names nanos limit names"
  define d where "d = snd (feed (anthropic_decoder_push c nanos) chunks ?d0)"
  define k where "k = core d"
  have "anthropic_decoder_ok d"
    unfolding d_def by (rule anthropic_stream.feed_ok [OF anthropic_decoder_fresh [OF assms(1)]])
  moreover have "max_buffer_bytes d = max_buffer_bytes ?d0"
    unfolding d_def by (rule feed_field) (simp add: anthropic_decoder_push_def)
  then have max: "max_buffer_bytes d = limit" by (simp add: anthropic_decoder_with_tool_names_def)
  ultimately have ok: "buffer_ok d" "anthropic_core_ok limit k"
    by (simp_all add: anthropic_decoder_ok_def k_def)
  then have slots: "slots_ok k" by (simp add: anthropic_core_ok_def)
  let ?n = "length (ac_tool_indices k)"
  have "?n = card (fst ` set (ac_tool_indices k))"
    using slots bt_ok_distinct [of "ac_tool_indices k"] by (metis distinct_card length_map list.set_map slots_ok_def)
  also have "\<dots> \<le> card (fst ` set (ac_content k))"
    using slots by (intro card_mono) (simp_all add: slots_ok_def)
  also have "\<dots> \<le> length (ac_content k)"
    using card_length [of "map fst (ac_content k)"] by simp
  finally have small: "?n \<le> 256"
    using slots by (simp add: slots_ok_def max_content_blocks_def)
  have unat: "unat (word_of_nat i :: u64) = i" if "i < ?n" for i
    using that small by (simp add: unat_of_nat take_bit_nat_eq_self)
  have numbers: "unat ` snd ` set (ac_tool_indices k) = {..<?n}"
    using slots unat by (auto simp: slots_ok_def image_image)
  then have "card (set (map snd (ac_tool_indices k))) = ?n"
    using card_image_le [of "set (map snd (ac_tool_indices k))" unat] card_length [of "map snd (ac_tool_indices k)"]
    by simp
  then have "distinct (map snd (ac_tool_indices k))"
    by (intro card_distinct) simp
  moreover have "length (buffer d) \<le> limit" using ok(1) max by (simp add: buffer_ok_def)
  moreover have "retained_bytes (ac_inner k) \<le> limit"
    using ok(2) by (simp add: anthropic_core_ok_def emitter_ok_def)
  moreover have "counted (core ?d0)"
    by (simp add: counted_def trees_ok_def content_bytes_def anthropic_decoder_with_tool_names_def
        anthropic_core_new_def)
  then have "content_bytes k \<le> ac_aggregate_bytes k"
    using counted_feed [OF sizes, of ?d0 nanos chunks] by (simp add: counted_def k_def d_def)
  ultimately show ?thesis
    unfolding Let_def d_def [symmetric] k_def [symmetric]
    using ok numbers slots by (simp add: anthropic_core_ok_def slots_ok_def max_content_blocks_def)
qed

definition example_start :: json where
  "example_start = JObject [(''type'', JString ''content_block_start''), (''index'', jnat 0),
     (''content_block'', JObject [(''type'', JString ''text''), (''text'', JString ''hi'')])]"

definition example_start_text :: str where
  "example_start_text = ''type:content_block_start;index:0;content_block:type:text;text:hi;''"

definition example_sized_codec :: codec where
  "example_sized_codec =
     \<lparr>parse = (\<lambda>s. if s = example_start_text then Inr example_start else Inl []),
      to_vec = (\<lambda>v. Inr ''[]''), display = (\<lambda>v. replicate (json_bytes v) (CHR ''x''))\<rparr>"

theorem anthropic_decoder_bounded_witness:
  "\<exists>k b. core (snd (feed (anthropic_decoder_push example_sized_codec 0)
      [''data:'' @ example_start_text @ [LF, LF]] (anthropic_decoder_with_tool_names 0 199 []))) = k \<and>
     ac_content k = [(0, b)] \<and> str_at b ''text'' = Some ''hi'' \<and> content_bytes k = 6 \<and>
     content_bytes k \<le> ac_aggregate_bytes k \<and> ac_aggregate_bytes k \<le> 199"
proof -
  let ?c = "example_sized_codec"
  let ?d = "anthropic_decoder_with_tool_names 0 199 []"
  let ?block = "''data:'' @ example_start_text @ [LF, LF]"
  let ?b = "JObject [(''type'', JString ''text''), (''text'', JString ''hi'')]"
  let ?k = "core (snd (feed (anthropic_decoder_push ?c 0) [?block] ?d))"
  have "codec_sizes ?c"
    by (simp add: codec_sizes_def example_sized_codec_def example_start_def example_start_text_def map_ok_def jnat_def)
  moreover have "(199 :: nat) < usize_max" by (simp add: usize_max_def)
  ultimately have bounds: "content_bytes ?k \<le> ac_aggregate_bytes ?k" "ac_aggregate_bytes ?k \<le> 199"
    using anthropic_decoder_bounded [of 199 ?c 0 "[?block]" "[]"] by (simp_all only: Let_def simp_thms)
  have data: "sse_data (replace_crlf (from_utf8_lossy ?block)) = example_start_text"
    by (simp add: example_start_text_def sse_data_def lines_def strip_cr_def List.map_filter_def trim_eval
        from_utf8_lossy_ascii)
  note fields = str_at_def u64_at_def jget_simps map_get_Cons as_str_JString as_u64_jnat
  note decoder = content_block_start_def content_index_def
    start_block_def non_empty_text_def anthropic_feed_def anthropic_reserve_def anthropic_core_new_def act_some_def
    max_content_blocks_def ok_or_def Let_def act_apply checked_add_def usize_max_def bt_has_def
  have sized: "display ?c v = replicate (json_bytes v) (CHR ''x'')" for v by (simp add: example_sized_codec_def)
  obtain k1 where k1: "content_block_start ?c 0 199 example_start (anthropic_core_new 0 199 []) = (Inr (), k1)"
    and content: "ac_content k1 = [(0, ?b)]" "ac_tool_json k1 = []"
    by (simp add: example_start_def fields decoder sized example_eval)
  have parsed: "parse ?c example_start_text = Inr example_start" "example_start_text \<noteq> []"
    by (simp_all add: example_sized_codec_def example_start_text_def)
  have ty: "str_at example_start ''type'' = Some ''content_block_start''"
    by (simp add: example_start_def fields)
  have "anthropic_parse_block ?c 0 199 ?block (anthropic_core_new 0 199 []) = (Inr (), k1)"
    unfolding anthropic_parse_block_def data
    by (simp add: parsed anthropic_apply_event_def ty k1 Let_def)
  then have "core (snd (anthropic_push ?c 0 ?block ?d)) = put_ac_pending [] k1"
    by (simp add: anthropic_push_def queued_push_def sse_push_def anthropic_decoder_with_tool_names_def
        saturating_add_def anthropic_normalize_newlines_eq normalize_sse_newlines_def drain_blocks.simps
        example_start_text_def usize_max_def)
  then have "?k = put_ac_pending [] k1"
    by (cases "anthropic_push ?c 0 ?block ?d"; cases "fst (anthropic_push ?c 0 ?block ?d)")
      (simp_all add: anthropic_decoder_push_def act_apply act_map_err_def)
  then have "ac_content ?k = [(0, ?b)]" "ac_tool_json ?k = []"
    using content by (simp_all add: put_ac_pending_def)
  moreover from this have "content_bytes ?k = 6"
    by (simp add: content_bytes_def bt_sum_Cons block_bytes_def fields_bytes_def)
  moreover have "str_at ?b ''text'' = Some ''hi''" by (simp add: fields)
  ultimately show ?thesis using bounds by blast
qed

end
