(* ===== verification/AnthropicRequests.thy ===== *)
theory AnthropicRequests
  imports AnthropicProperties
begin

text \<open>
  The properties of the requests of the Anthropic bridge (thinking budget, tool choice, defaults of
  a session) and of the raw content that its decoder keeps for the next turn.
\<close>

section \<open>Requests\<close>

lemma anthropic_base_get:
  "map_get (anthropic_base model messages system n tools) ''model'' = Some (JString model)"
  "map_get (anthropic_base model messages system n tools) ''messages'' = Some (JArray messages)"
  "map_get (anthropic_base model messages system n tools) ''max_tokens'' = Some (jnat n)"
  "map_get (anthropic_base model messages system n tools) ''stream'' = Some (JBool True)"
  "map_get (anthropic_base model messages system n tools) ''tool_choice'' = None"
  by (simp_all add: anthropic_base_def Let_def map_get_Cons)

text \<open>The choices \<open>build_request\<close> converts have one of four types.\<close>

definition choice_type :: "jmap \<Rightarrow> str option" where
  "choice_type m = Option.bind (map_get m ''type'') as_str"

lemma disable_parallel_get: "k \<noteq> ''disable_parallel_tool_use'' \<Longrightarrow> map_get (disable_parallel p m) k = map_get m k"
  by (simp add: disable_parallel_def)

lemma anthropic_choice_type:
  assumes "anthropic_choice create tools = Inr (Some m)"
  shows "choice_type m \<in> {Some ''auto'', Some ''none'', Some ''any'', Some ''tool''}"
proof -
  have choice: "choice_type m \<in> {Some ''auto'', Some ''none'', Some ''any'', Some ''tool''}"
    if "anthropic_tool_choice v p names = Inr (Some m)" for v p names
    using that
    by (auto simp: anthropic_tool_choice_def choice_type_def disable_parallel_get map_get_Cons Let_def as_str_def
        split: option.splits if_splits)
  have auto: "choice_type [(''type'', JString ''auto''), (''disable_parallel_tool_use'', JBool True)] = Some ''auto''"
    by (simp add: choice_type_def map_get_Cons)
  from assms show ?thesis
    unfolding anthropic_choice_def Let_def
    by (auto dest: choice simp: auto split: option.splits if_splits)
qed

lemma append_forced_get:
  "append_forced_tool_instruction request m = Inr request' \<Longrightarrow> k \<noteq> ''system'' \<Longrightarrow>
   map_get request' k = map_get request k"
  by (auto simp: append_forced_tool_instruction_def Let_def split: if_splits option.splits)

lemma insert_choice_get:
  assumes "insert_choice mode choice request = Inr request'" and "k \<notin> {''system'', ''tool_choice''}"
  shows "map_get request' k = map_get request k"
  using assms append_forced_get [of request _ _ k]
  by (auto simp: insert_choice_def Let_def split: if_splits option.splits)

lemma insert_choice_enabled:
  assumes "insert_choice Enabled choice request = Inr request'" and "map_get request ''tool_choice'' = None"
    and "\<forall>m. choice = Some m \<longrightarrow> choice_type m \<in> {Some ''auto'', Some ''none'', Some ''any'', Some ''tool''}"
    and "map_get request' ''tool_choice'' = Some v"
  shows "str_at v ''type'' \<in> {Some ''auto'', Some ''none''}"
proof (cases choice)
  case (Some m)
  show ?thesis
  proof (cases "forced_tool choice")
    case True
    with assms(1,4) Some show ?thesis
      by (auto simp: insert_choice_def Let_def str_at_def map_get_Cons split: option.splits)
  next
    case False
    with Some have "choice_type m \<notin> {Some ''any'', Some ''tool''}"
      by (auto simp: forced_tool_def choice_type_def)
    with assms False Some show ?thesis
      by (auto simp: insert_choice_def str_at_def choice_type_def)
  qed
qed (use assms in \<open>simp add: insert_choice_def\<close>)

lemma anthropic_build_Inr:
  assumes "anthropic_build_request c create model limit mode = Inr r"
  obtains messages system tools choice request fields where
    "anthropic_messages c (map_get create ''input'') = Inr (messages, system)"
    "anthropic_validate_history c messages limit = Inr ()"
    "anthropic_tools (map_get create ''tools'') = Inr tools"
    "anthropic_choice create tools = Inr choice"
    "insert_choice mode choice (anthropic_base model messages (anthropic_system create system)
       (max_tokens_of create) (fst tools)) = Inr request"
    "insert_thinking mode (effort_of create) (max_tokens_of create) request = Inr fields"
    "to_vec c (JObject fields) = Inr (ar_body r)" "length (ar_body r) \<le> limit"
    "ar_messages r = messages" "ar_tool_names r = snd tools"
  using assms by (auto simp: anthropic_build_request_def not_less split: if_splits)

lemma budget_bounds:
  assumes "\<not> n \<le> (1024 :: u64)"
  shows "1024 \<le> min (desired_budget effort) (n - 1) \<and> min (desired_budget effort) (n - 1) < n"
proof -
  from assms have n: "1024 < unat n" by (simp add: word_le_nat_alt)
  then have "n \<noteq> 0" by auto
  then have minus: "unat (n - 1) = unat n - 1" by (rule unat_minus_one)
  with n have "1024 \<le> n - 1" "n - 1 < n"
    by (simp_all add: word_le_nat_alt word_less_nat_alt)
  moreover have "1024 \<le> desired_budget effort" by (simp add: desired_budget_def)
  ultimately show ?thesis by (auto simp: min_def)
qed

text \<open>C12: a request converted for an upstream with enabled thinking carries the model, the converted
  messages and the token limit; its thinking budget is at least 1024 tokens and below the token limit,
  and its tool choice, if any, forces no tool, which such an upstream rejects.\<close>

theorem anthropic_thinking_budget:
  assumes "anthropic_build_request c create model limit Enabled = Inr r" and "effort_of create = Some effort"
  shows "\<exists>fields b. to_vec c (JObject fields) = Inr (ar_body r) \<and> length (ar_body r) \<le> limit \<and>
    map_get fields ''model'' = Some (JString model) \<and>
    map_get fields ''messages'' = Some (JArray (ar_messages r)) \<and>
    map_get fields ''max_tokens'' = Some (jnat (max_tokens_of create)) \<and>
    map_get fields ''thinking'' = Some (JObject [(''type'', JString ''enabled''), (''budget_tokens'', jnat b)]) \<and>
    1024 \<le> b \<and> b < max_tokens_of create \<and>
    (\<forall>v. map_get fields ''tool_choice'' = Some v \<longrightarrow> str_at v ''type'' \<in> {Some ''auto'', Some ''none''})"
  using assms(1)
proof (rule anthropic_build_Inr)
  fix messages system choice request fields and tools :: tools_acc
  let ?base = "anthropic_base model messages (anthropic_system create system) (max_tokens_of create) (fst tools)"
  let ?b = "min (desired_budget effort) (max_tokens_of create - 1)"
  assume choice: "anthropic_choice create tools = Inr choice"
    and request: "insert_choice Enabled choice ?base = Inr request"
    and "insert_thinking Enabled (effort_of create) (max_tokens_of create) request = Inr fields"
    and rest: "to_vec c (JObject fields) = Inr (ar_body r)" "length (ar_body r) \<le> limit" "ar_messages r = messages"
  then have big: "\<not> max_tokens_of create \<le> 1024"
    and fields: "map_get fields k = (if k = ''thinking''
        then Some (JObject [(''type'', JString ''enabled''), (''budget_tokens'', jnat ?b)])
        else if k = ''output_config'' then Some (JObject [(''effort'', JString effort)]) else map_get request k)" for k
    using assms(2) by (auto simp: insert_thinking_def Let_def split: if_splits)
  have types: "\<forall>m. choice = Some m \<longrightarrow> choice_type m \<in> {Some ''auto'', Some ''none'', Some ''any'', Some ''tool''}"
    using anthropic_choice_type [of create tools] choice by blast
  have type: "str_at v ''type'' \<in> {Some ''auto'', Some ''none''}" if "map_get fields ''tool_choice'' = Some v" for v
    using that unfolding fields
    by (intro insert_choice_enabled [OF request anthropic_base_get(5) types]) simp
  have "map_get fields ''model'' = Some (JString model)" "map_get fields ''messages'' = Some (JArray messages)"
    "map_get fields ''max_tokens'' = Some (jnat (max_tokens_of create))"
    unfolding fields by (simp_all add: insert_choice_get [OF request] anthropic_base_get)
  moreover have "map_get fields ''thinking'' = Some (JObject [(''type'', JString ''enabled''), (''budget_tokens'', jnat ?b)])"
    by (simp add: fields)
  ultimately show ?thesis
    using rest budget_bounds [OF big] type by blast
qed

definition example_thinking :: jmap where
  "example_thinking = [(''input'', JString ''hi''), (''max_output_tokens'', jnat 2000),
     (''reasoning'', JObject [(''effort'', JString ''xhigh'')])]"

theorem anthropic_thinking_budget_witness:
  "\<exists>r fields b. anthropic_build_request example_chat_codec example_thinking ''up'' 9 Enabled = Inr r \<and>
     map_get fields ''thinking'' = Some (JObject [(''type'', JString ''enabled''), (''budget_tokens'', jnat b)]) \<and>
     1024 \<le> b \<and> b < 2000"
proof -
  note eval = example_thinking_def map_get_Cons as_str_def as_u64_def jnat_def
  have effort: "effort_of example_thinking = Some ''max''"
    by (simp add: effort_of_def str_at_def eval)
  have tokens: "max_tokens_of example_thinking = 2000"
    by (simp add: max_tokens_of_def eval)
  obtain r where run: "anthropic_build_request example_chat_codec example_thinking ''up'' 9 Enabled = Inr r"
    by (simp add: anthropic_build_request_def anthropic_messages_def anthropic_validate_history_def
        anthropic_tools_def anthropic_choice_def insert_choice_def insert_thinking_def effort tokens
        example_chat_codec_def) (simp add: eval)
  from anthropic_thinking_budget [OF run effort] show ?thesis
    unfolding tokens using run by blast
qed


section \<open>Defaults of a session\<close>

lemma remember_defaults_none:
  "\<forall>key \<in> set default_keys. jget v key = None \<Longrightarrow> remember_defaults v m = m"
  unfolding remember_defaults_def by (simp add: default_keys_def)

text \<open>A command whose fields make the defaults of the session larger than its limit is rejected, but
  the session keeps the defaults: every later command that does not name a default is rejected
  too, whatever it asks for, and leaves the session in the same state.\<close>

theorem anthropic_defaults_stuck:
  assumes "parse c first = Inr create" and "jindex create ''type'' = JString ''response.create''"
    and "to_vec c (JObject (remember_defaults create (as_defaults s))) = Inr bytes" and "as_max_bytes s < length bytes"
    and "parse c later = Inr v" and "jindex v ''type'' = JString ''response.create''"
    and "\<forall>key \<in> set default_keys. jget v key = None"
  shows "\<exists>s'. anthropic_prepare_action c first s = (Inl BridgeSessionHistoryLimit, s') \<and>
    anthropic_prepare_action c later s' = (Inl BridgeSessionHistoryLimit, s')"
  using assms by (simp add: anthropic_prepare_action_def Let_def remember_defaults_none)

definition example_defaults_codec :: codec where
  "example_defaults_codec =
     \<lparr>parse = (\<lambda>s. if s = ''first'' then
          Inr (JObject [(''type'', JString ''response.create''), (''instructions'', JString ''be very brief'')])
        else Inr (JObject [(''type'', JString ''response.create''), (''input'', JString ''hi'')])),
      to_vec = (\<lambda>v. Inr (if v = JObject [] then ''{}'' else ''{instructions: be very brief}'')), display = (\<lambda>v. ''[]'')\<rparr>"

theorem anthropic_defaults_stuck_witness:
  "\<exists>s'. anthropic_prepare_action example_defaults_codec ''first'' (anthropic_session_new ''up'' 9) =
       (Inl BridgeSessionHistoryLimit, s') \<and>
     anthropic_prepare_action example_defaults_codec ''later'' s' = (Inl BridgeSessionHistoryLimit, s')"
proof -
  let ?c = example_defaults_codec and ?s = "anthropic_session_new ''up'' 9"
  let ?first = "JObject [(''type'', JString ''response.create''), (''instructions'', JString ''be very brief'')]"
  let ?later = "JObject [(''type'', JString ''response.create''), (''input'', JString ''hi'')]"
  have parses: "parse ?c ''first'' = Inr ?first" "parse ?c ''later'' = Inr ?later"
    by (simp_all add: example_defaults_codec_def)
  have create: "jindex ?first ''type'' = JString ''response.create''" "jindex ?later ''type'' = JString ''response.create''"
    by (simp_all add: jindex_def map_get_Cons)
  have "remember_defaults ?first (as_defaults ?s) = [(''instructions'', JString ''be very brief'')]"
    by (simp add: remember_defaults_def default_keys_def map_get_Cons anthropic_session_new_def
        anthropic_session_with_mode_def)
  then have bytes: "to_vec ?c (JObject (remember_defaults ?first (as_defaults ?s))) = Inr ''{instructions: be very brief}''"
    by (simp add: example_defaults_codec_def)
  have "as_max_bytes ?s < length ''{instructions: be very brief}''"
    by (simp add: anthropic_session_new_def anthropic_session_with_mode_def)
  moreover have "\<forall>key \<in> set default_keys. jget ?later key = None"
    by (simp add: default_keys_def map_get_Cons)
  ultimately show ?thesis
    using anthropic_defaults_stuck [OF parses(1) create(1) bytes _ parses(2) create(2)] by blast
qed

section \<open>The raw content\<close>

text \<open>
  What the content of a stream should be, from its events alone: a block starts with the fields it
  came with; a delta extends its text, its thinking or its signature; the pieces of the input of a
  tool are collected beside it, and its end replaces the input by the value they spell.
\<close>

type_synonym block_fields = "str \<Rightarrow> json option"

record raw_content =
  raw_blocks :: "u64 \<Rightarrow> block_fields option"
  raw_inputs :: "u64 \<Rightarrow> str option"

definition extend_field :: "str \<Rightarrow> str \<Rightarrow> block_fields \<Rightarrow> block_fields" where
  "extend_field f t b = b(f \<mapsto> JString (unwrap_or (Option.bind (b f) as_str) [] @ t))"

definition change_block :: "u64 \<Rightarrow> (block_fields \<Rightarrow> block_fields) \<Rightarrow> raw_content \<Rightarrow> raw_content" where
  "change_block i g x = x\<lparr>raw_blocks := (raw_blocks x)(i := map_option g (raw_blocks x i))\<rparr>"

definition delta_step :: "u64 \<Rightarrow> json \<Rightarrow> raw_content \<Rightarrow> raw_content" where
  "delta_step i delta =
     (let piece = (\<lambda>f. unwrap_or (str_at delta f) []); ty = str_at delta ''type'' in
      if ty = Some ''text_delta'' then change_block i (extend_field ''text'' (piece ''text''))
      else if ty = Some ''thinking_delta'' then change_block i (extend_field ''thinking'' (piece ''thinking''))
      else if ty = Some ''signature_delta'' then change_block i (extend_field ''signature'' (piece ''signature''))
      else if ty = Some ''input_json_delta''
      then (\<lambda>x. x\<lparr>raw_inputs := (raw_inputs x)(i \<mapsto> unwrap_or (raw_inputs x i) [] @ piece ''partial_json'')\<rparr>)
      else id)"

definition stop_step :: "codec \<Rightarrow> u64 \<Rightarrow> raw_content \<Rightarrow> raw_content" where
  "stop_step c i x =
     (case raw_inputs x i of
        None \<Rightarrow> x
      | Some t \<Rightarrow>
          (case parse c t of
             Inl _ \<Rightarrow> x
           | Inr v \<Rightarrow> change_block i (\<lambda>b. b(''input'' \<mapsto> v)) (x\<lparr>raw_inputs := (raw_inputs x)(i := None)\<rparr>)))"

definition content_step :: "codec \<Rightarrow> json \<Rightarrow> raw_content \<Rightarrow> raw_content" where
  "content_step c event x =
     (case u64_at event ''index'' of
        None \<Rightarrow> x
      | Some i \<Rightarrow>
          if str_at event ''type'' = Some ''content_block_start'' then
            (case jget event ''content_block'' of
               None \<Rightarrow> x
             | Some b \<Rightarrow> x\<lparr>raw_blocks := (raw_blocks x)(i \<mapsto> jget b)\<rparr>)
          else if str_at event ''type'' = Some ''content_block_delta'' then
            (case jget event ''delta'' of None \<Rightarrow> x | Some delta \<Rightarrow> delta_step i delta x)
          else if str_at event ''type'' = Some ''content_block_stop'' then stop_step c i x
          else x)"

definition raw_content_of :: "anthropic_core \<Rightarrow> raw_content" where
  "raw_content_of k =
     \<lparr>raw_blocks = (\<lambda>i. map_option jget (bt_get (ac_content k) i)), raw_inputs = bt_get (ac_tool_json k)\<rparr>"

lemma raw_same:
  "ac_content k' = ac_content k \<Longrightarrow> ac_tool_json k' = ac_tool_json k \<Longrightarrow> raw_content_of k' = raw_content_of k"
  by (simp add: raw_content_of_def)

lemma jget_insert: "jget (JObject (map_insert f v m)) = (map_get m)(f \<mapsto> v)"
  by (rule ext) simp

lemma raw_change:
  assumes "bt_get (ac_content k) i = Some b" and "jget b' = g (jget b)"
    and "ac_content k' = bt_insert i b' (ac_content k)" and "ac_tool_json k' = ac_tool_json k"
  shows "raw_content_of k' = change_block i g (raw_content_of k)"
  using assms by (simp add: raw_content_of_def change_block_def fun_eq_iff)

lemma start_block_content [simp]:
  "ac_content (snd (start_block c nanos index block k)) = ac_content k"
  "ac_tool_json (snd (start_block c nanos index block k)) = ac_tool_json k"
proof -
  have feed: "ac_tool_json (snd (anthropic_feed c nanos ev k)) = ac_tool_json k" for ev k
    by (simp add: anthropic_feed_def split: prod.split sum.split)
  have slot: "ac_content (snd (tool_slot index k)) = ac_content k"
      "ac_tool_json (snd (tool_slot index k)) = ac_tool_json k"
    by (simp_all add: tool_slot_def Let_def split: option.split)
  have tool: "ac_content (snd (start_tool_use c nanos index block k)) = ac_content k"
      "ac_tool_json (snd (start_tool_use c nanos index block k)) = ac_tool_json k"
    using slot by (cases "tool_slot index k"; cases "fst (tool_slot index k)";
        simp add: start_tool_use_def act_apply feed split: option.split)+
  show "ac_content (snd (start_block c nanos index block k)) = ac_content k"
    using tool by (simp add: start_block_def act_some_def Let_def split: option.split)
  show "ac_tool_json (snd (start_block c nanos index block k)) = ac_tool_json k"
    using tool by (simp add: start_block_def act_some_def Let_def feed split: option.split)
qed

lemma append_text_fields:
  assumes "append_block_text i field delta content = Inr content'"
  obtains m t where "bt_get content i = Some (JObject m)" "map_get m field = Some (JString t)"
    "content' = bt_insert i (JObject (map_insert field (JString (t @ delta)) m)) content"
  using assms
  by (auto simp: append_block_text_def bind_eq_Some_conv jget_Some jset_def split: option.splits json.splits prod.splits)

text \<open>A step that, where it succeeds, changes the content in a given way.\<close>

definition on_raw :: "(raw_content \<Rightarrow> raw_content) \<Rightarrow> unit anthropic_action \<Rightarrow> bool" where
  "on_raw g m \<longleftrightarrow> (\<forall>k k'. m k = (Inr (), k') \<longrightarrow> raw_content_of k' = g (raw_content_of k))"

lemma on_rawD: "on_raw g m \<Longrightarrow> m k = (Inr (), k') \<Longrightarrow> raw_content_of k' = g (raw_content_of k)"
  by (simp add: on_raw_def)

lemma on_rawI:
  "(\<And>k. ac_content (snd (m k)) = ac_content k \<and> ac_tool_json (snd (m k)) = ac_tool_json k) \<Longrightarrow> on_raw id m"
  unfolding on_raw_def
proof (intro allI impI)
  fix k k'
  assume same: "\<And>k. ac_content (snd (m k)) = ac_content k \<and> ac_tool_json (snd (m k)) = ac_tool_json k"
    and run: "m k = (Inr (), k')"
  have "raw_content_of k' = raw_content_of k"
    using same [of k] by (intro raw_same) (simp_all add: run)
  then show "raw_content_of k' = id (raw_content_of k)" by simp
qed

lemma on_raw_act: "on_raw g m \<Longrightarrow> on_raw h n \<Longrightarrow> on_raw (\<lambda>x. h (g x)) (act m (\<lambda>_. n))"
  by (auto simp: on_raw_def act_Inr)

lemma on_raw_id: "on_raw id m \<Longrightarrow> on_raw id n \<Longrightarrow> on_raw id (act m (\<lambda>_. n))"
  by (auto simp: on_raw_def act_Inr)

lemma on_raw_feed: "on_raw id (anthropic_feed c nanos ev)"
  by (rule on_rawI) (simp add: anthropic_feed_def split: prod.split sum.split)

lemma on_raw_reserve: "on_raw id (anthropic_reserve limit n)"
  by (rule on_rawI) (simp add: anthropic_reserve_def split: option.split)

lemma on_raw_upd: "(\<And>k. ac_content (u k) = ac_content k \<and> ac_tool_json (u k) = ac_tool_json k) \<Longrightarrow> on_raw id (act_upd u)"
  by (rule on_rawI) simp

lemma on_raw_some: "(\<And>a. on_raw id (f a)) \<Longrightarrow> on_raw id (act_some f x)"
  by (cases x) (auto simp: act_some_def on_raw_def)

lemma on_raw_usage: "on_raw id (\<lambda>k. anthropic_feed c nanos (Usage (ac_input_tokens k) (ac_output_tokens k)) k)"
  using on_rawD [OF on_raw_feed] by (auto simp: on_raw_def)

lemmas on_raw_intros = on_raw_id on_raw_feed on_raw_some on_raw_upd on_raw_usage on_raw_reserve

lemma on_raw_between: "on_raw id m \<Longrightarrow> on_raw g n \<Longrightarrow> on_raw id l \<Longrightarrow> on_raw g (act m (\<lambda>_. act n (\<lambda>_. l)))"
  by (auto simp: on_raw_def act_Inr)

lemma on_raw_text: "on_raw (change_block i (extend_field f t)) (on_content (append_block_text i f t))"
  unfolding on_raw_def
proof (intro allI impI)
  fix k k'
  assume "on_content (append_block_text i f t) k = (Inr (), k')"
  then obtain content where step: "append_block_text i f t (ac_content k) = Inr content"
    and k': "k' = k\<lparr>ac_content := content\<rparr>"
    by (auto simp: on_content_def split: sum.splits)
  from step obtain m s where "bt_get (ac_content k) i = Some (JObject m)" "map_get m f = Some (JString s)"
    "content = bt_insert i (JObject (map_insert f (JString (s @ t)) m)) (ac_content k)"
    by (rule append_text_fields)
  then show "raw_content_of k' = change_block i (extend_field f t) (raw_content_of k)"
    unfolding k' by (intro raw_change) (auto simp: extend_field_def unwrap_or_def fun_eq_iff as_str_JString)
qed

lemma on_raw_signature:
  "on_raw (change_block i (extend_field ''signature'' t)) (on_content (append_signature i t))"
  unfolding on_raw_def
proof (intro allI impI)
  fix k k'
  assume "on_content (append_signature i t) k = (Inr (), k')"
  then obtain content where step: "append_signature i t (ac_content k) = Inr content"
    and k': "k' = k\<lparr>ac_content := content\<rparr>"
    by (auto simp: on_content_def split: sum.splits)
  from step obtain m where "bt_get (ac_content k) i = Some (JObject m)"
    "content = bt_insert i (JObject (map_insert ''signature''
       (JString (unwrap_or (Option.bind (map_get m ''signature'') as_str) [] @ t)) m)) (ac_content k)"
    by (auto simp: append_signature_def bind_eq_Some_conv as_object_def unwrap_or_def
        as_str_JString split: option.splits json.splits)
  then show "raw_content_of k' = change_block i (extend_field ''signature'' t) (raw_content_of k)"
    unfolding k' by (intro raw_change) (auto simp: extend_field_def fun_eq_iff)
qed

lemma on_raw_json:
  "on_raw (\<lambda>x. x\<lparr>raw_inputs := (raw_inputs x)(i \<mapsto> unwrap_or (raw_inputs x i) [] @ t)\<rparr>)
     (json_delta c nanos limit i t)"
proof -
  have "on_raw (\<lambda>x. x\<lparr>raw_inputs := (raw_inputs x)(i \<mapsto> unwrap_or (raw_inputs x i) [] @ t)\<rparr>)
      (act (anthropic_reserve limit n) (\<lambda>_. act (act_upd (\<lambda>k. k\<lparr>ac_tool_json :=
        bt_insert i (unwrap_or (bt_get (ac_tool_json k) i) [] @ t) (ac_tool_json k)\<rparr>))
      (\<lambda>_. anthropic_feed c nanos ev)))" for n ev
    by (intro on_raw_between on_raw_reserve on_raw_feed) (auto simp: on_raw_def raw_content_of_def fun_eq_iff)
  then show ?thesis by (auto simp: on_raw_def json_delta_def split: option.splits)
qed

lemma on_raw_message: "on_raw id (message_start c nanos event)" "on_raw id (message_delta c nanos event)"
  unfolding message_start_def message_delta_def Let_def
  by (cases "jget event ''message''") (auto intro!: on_raw_intros simp: on_raw_def [of _ "act_err _"])

lemma raw_start:
  assumes "content_block_start c nanos limit event k = (Inr (), k')"
    and "str_at event ''type'' = Some ''content_block_start''"
  shows "raw_content_of k' = content_step c event (raw_content_of k)"
proof -
  from assms(1) obtain i b where i: "u64_at event ''index'' = Some i" and b: "jget event ''content_block'' = Some b"
    and run: "act (anthropic_reserve limit (length (display c b)))
      (\<lambda>_. act (act_upd (\<lambda>k. k\<lparr>ac_content := bt_insert i b (ac_content k)\<rparr>)) (\<lambda>_. start_block c nanos i b)) k = (Inr (), k')"
    by (auto simp: content_block_start_def content_index_def ok_or_def split: sum.splits option.splits if_splits)
  have "on_raw (\<lambda>x. x\<lparr>raw_blocks := (raw_blocks x)(i \<mapsto> jget b)\<rparr>)
      (act_upd (\<lambda>k. k\<lparr>ac_content := bt_insert i b (ac_content k)\<rparr>))"
    by (auto simp: on_raw_def raw_content_of_def fun_eq_iff)
  then have "raw_content_of k' = (\<lambda>x. x\<lparr>raw_blocks := (raw_blocks x)(i \<mapsto> jget b)\<rparr>) (raw_content_of k)"
    by (rule on_rawD [OF on_raw_between [OF on_raw_reserve _ on_rawI] run]) simp
  with i b assms(2) show ?thesis by (simp add: content_step_def)
qed

lemma raw_delta:
  assumes run: "content_block_delta c nanos limit event k = (Inr (), k')"
    and ty: "str_at event ''type'' = Some ''content_block_delta''"
  shows "raw_content_of k' = content_step c event (raw_content_of k)"
proof -
  from run obtain i delta where i: "u64_at event ''index'' = Some i" and delta: "jget event ''delta'' = Some delta"
    by (auto simp: content_block_delta_def content_index_def ok_or_def split: sum.splits option.splits)
  have "on_raw (delta_step i delta) (content_block_delta c nanos limit event)"
  proof -
    note defs = content_block_delta_def content_index_def ok_or_def Let_def i delta delta_step_def
    consider "str_at delta ''type'' = Some ''text_delta''" | "str_at delta ''type'' = Some ''thinking_delta''"
      | (signature) "str_at delta ''type'' = Some ''signature_delta''"
      | "str_at delta ''type'' = Some ''input_json_delta''"
      | (other) "str_at delta ''type'' \<notin> Some ` {''text_delta'', ''thinking_delta'', ''signature_delta'', ''input_json_delta''}"
      by blast
    then show ?thesis
    proof cases
      case signature
      have "on_raw (change_block i (extend_field ''signature'' t))
          (act (anthropic_reserve limit n) (\<lambda>_. on_content (append_signature i t)))" for n t
        using on_raw_act [OF on_raw_reserve on_raw_signature] by (simp add: o_def)
      with signature show ?thesis
        by (cases "str_at delta ''signature''") (simp_all add: defs unwrap_or_def, simp add: on_raw_def)
    next
      case other
      then show ?thesis by (auto simp: defs on_raw_def)
    qed (simp_all add: defs on_raw_between on_raw_reserve on_raw_text on_raw_feed on_raw_json)
  qed
  from on_rawD [OF this run] i delta ty show ?thesis by (simp add: content_step_def)
qed

lemma raw_stop:
  assumes run: "content_block_stop c event k = (Inr (), k')"
    and ty: "str_at event ''type'' = Some ''content_block_stop''"
  shows "raw_content_of k' = content_step c event (raw_content_of k)"
proof -
  from run obtain i where i: "u64_at event ''index'' = Some i"
    by (auto simp: content_block_stop_def content_index_def ok_or_def split: sum.splits option.splits)
  have step: "content_step c event (raw_content_of k) = stop_step c i (raw_content_of k)"
    using ty i by (simp add: content_step_def)
  have inputs: "raw_inputs (raw_content_of k) i = bt_get (ac_tool_json k) i" by (simp add: raw_content_of_def)
  have obj: "as_object b = Some m \<longleftrightarrow> b = JObject m" for b m
    by (cases b) (simp_all add: as_object_def)
  show ?thesis
  proof (cases "bt_get (ac_tool_json k) i")
    case None
    with run i have "k' = k" by (simp add: content_block_stop_def content_index_def ok_or_def)
    with None step inputs show ?thesis by (simp add: stop_step_def)
  next
    case (Some t)
    with run i obtain v m where v: "parse c t = Inr v" and m: "bt_get (ac_content k) i = Some (JObject m)"
      and k': "k' = k\<lparr>ac_tool_json := bt_remove i (ac_tool_json k),
        ac_content := bt_insert i (JObject (map_insert ''input'' v m)) (ac_content k)\<rparr>"
      by (auto simp: content_block_stop_def content_index_def ok_or_def on_content_def bind_eq_Some_conv Let_def
          obj split: sum.splits option.splits)
    show ?thesis
      unfolding step stop_step_def inputs Some
      by (simp add: v) (auto simp: k' raw_content_of_def change_block_def m fun_eq_iff)
  qed
qed

lemma content_step_refines:
  assumes run: "anthropic_apply_event c nanos limit event k = (Inr (), k')"
  shows "raw_content_of k' = content_step c event (raw_content_of k)"
proof -
  from run obtain ty where ty: "str_at event ''type'' = Some ty"
    by (auto simp: anthropic_apply_event_def split: option.splits)
  consider "ty = ''content_block_start''" | "ty = ''content_block_delta''" | "ty = ''content_block_stop''"
    | (other) "ty \<notin> {''content_block_start'', ''content_block_delta'', ''content_block_stop''}" by blast
  then show ?thesis
  proof cases
    case other
    have "on_raw id (anthropic_apply_event c nanos limit event)"
      using ty other on_raw_message on_raw_feed
      by (auto simp: anthropic_apply_event_def on_raw_def [of _ "act_err _"] on_raw_def [of _ "act_ok _"])
    from on_rawD [OF this run] ty other show ?thesis
      by (simp add: content_step_def split: option.split)
  qed (use run ty raw_start raw_delta raw_stop in \<open>simp_all add: anthropic_apply_event_def\<close>)
qed

text \<open>C13: the raw content that a turn leaves for the next request is what the events say: on an
  accepted stream each block has the fields it started with; its text, its thinking and its
  signature are extended by their deltas in order; the input of a tool is the value spelled by its
  pieces, in order, once the block ends; no other event changes a block. The blocks are committed
  in the order of their indices.\<close>

theorem anthropic_content_refines:
  assumes "act_each (anthropic_apply_event c nanos limit) events k = (Inr (), k')"
  shows "raw_content_of k' = fold (content_step c) events (raw_content_of k) \<and>
    jget (stream_commit (anthropic_outcome \<lparr>buffer = rest, max_buffer_bytes = limit, core = k'\<rparr>)) raw_content_field =
      Some (JArray (map snd (ac_content k')))"
proof (rule conjI)
  show "raw_content_of k' = fold (content_step c) events (raw_content_of k)"
    using assms
  proof (induction events arbitrary: k)
    case (Cons event events)
    then obtain k1 where "anthropic_apply_event c nanos limit event k = (Inr (), k1)"
      and "act_each (anthropic_apply_event c nanos limit) events k1 = (Inr (), k')"
      by (auto simp: act_Inr)
    with Cons.IH [of k1] content_step_refines show ?case by simp
  qed simp
  show "jget (stream_commit (anthropic_outcome \<lparr>buffer = rest, max_buffer_bytes = limit, core = k'\<rparr>)) raw_content_field =
      Some (JArray (map snd (ac_content k')))"
    by (simp add: anthropic_outcome_def Let_def emitter_outcome_def jset_def bt_values_def)
qed

definition example_block_events :: "json list" where
  "example_block_events =
     [JObject [(''type'', JString ''content_block_start''), (''index'', jnat 0),
        (''content_block'', JObject [(''type'', JString ''thinking''), (''thinking'', JString [])])],
      JObject [(''type'', JString ''content_block_delta''), (''index'', jnat 0),
        (''delta'', JObject [(''type'', JString ''thinking_delta''), (''thinking'', JString ''hm'')])],
      JObject [(''type'', JString ''content_block_delta''), (''index'', jnat 0),
        (''delta'', JObject [(''type'', JString ''signature_delta''), (''signature'', JString ''s'')])]]"

theorem anthropic_content_refines_witness:
  "\<exists>k' fields. act_each (anthropic_apply_event example_chat_codec 0 99) example_block_events (anthropic_core_new 0 99 []) =
     (Inr (), k') \<and> raw_blocks (raw_content_of k') 0 = Some fields \<and>
     fields ''thinking'' = Some (JString ''hm'') \<and> fields ''signature'' = Some (JString ''s'')"
proof -
  note fields = str_at_def u64_at_def jget_simps map_get_Cons as_str_JString as_u64_jnat
  note decoder = anthropic_apply_event_def content_block_start_def content_block_delta_def content_index_def
    start_block_def non_empty_text_def on_content_def append_block_text_def anthropic_feed_def anthropic_reserve_def
    anthropic_core_new_def act_some_def max_content_blocks_def ok_or_def Let_def act_apply checked_add_def
    usize_max_def example_chat_codec_def jset_def bt_has_def bt_get_Cons append_signature_def as_object_def
  obtain k' where run: "act_each (anthropic_apply_event example_chat_codec 0 99) example_block_events
      (anthropic_core_new 0 99 []) = (Inr (), k')"
    by (simp add: example_block_events_def fields decoder example_eval)
  have "\<exists>fields. raw_blocks (fold (content_step example_chat_codec) example_block_events
      (raw_content_of (anthropic_core_new 0 99 []))) 0 = Some fields \<and>
      fields ''thinking'' = Some (JString ''hm'') \<and> fields ''signature'' = Some (JString ''s'')"
    by (simp add: example_block_events_def content_step_def delta_step_def change_block_def extend_field_def Let_def
        fields unwrap_or_def)
  with run anthropic_content_refines [OF run] show ?thesis by metis
qed

end
