(* ===== verification/Headers.thy ===== *)
theory Headers
  imports RustStr
begin

text \<open>
  \<open>provider-x-egress/src/headers.rs\<close>: which headers of an ingress request reach an upstream and
  which headers of a response reach the client.

  \<open>hyper::HeaderMap\<close> is the list of its fields, the names in lower case: a name may occur several
  times, \<open>insert\<close> replaces all its values, \<open>remove\<close> drops them. The order of different names, which
  the map leaves open, is not used below. \<open>HeaderValue::to_str\<close> fails where a byte is no visible
  ASCII character.
\<close>

type_synonym header_map = "(str \<times> str) list"

definition hm_get :: "header_map \<Rightarrow> str \<Rightarrow> str option" where
  "hm_get hs name = map_of hs name"

definition hm_get_all :: "header_map \<Rightarrow> str \<Rightarrow> str list" where
  "hm_get_all hs name = map snd (filter (\<lambda>h. fst h = name) hs)"

definition hm_contains :: "header_map \<Rightarrow> str \<Rightarrow> bool" where
  "hm_contains hs name \<longleftrightarrow> name \<in> fst ` set hs"

definition hm_remove :: "str \<Rightarrow> header_map \<Rightarrow> header_map" where
  "hm_remove name hs = filter (\<lambda>h. fst h \<noteq> name) hs"

definition hm_insert :: "str \<Rightarrow> str \<Rightarrow> header_map \<Rightarrow> header_map" where
  "hm_insert name v hs = hm_remove name hs @ [(name, v)]"

definition header_to_str :: "str \<Rightarrow> str option" where
  "header_to_str v = (if \<forall>b \<in> set v. 32 \<le> byte b \<and> byte b < 127 \<or> byte b = 9 then Some v else None)"

lemma set_hm_remove: "set (hm_remove name hs) = {h \<in> set hs. fst h \<noteq> name}"
  by (auto simp: hm_remove_def)

lemma set_hm_insert: "set (hm_insert name v hs) = {h \<in> set hs. fst h \<noteq> name} \<union> {(name, v)}"
  by (auto simp: hm_insert_def set_hm_remove)

section \<open>Which headers are dropped\<close>

definition connection_headers :: "header_map \<Rightarrow> str list" where
  "connection_headers source =
     map to_ascii_lowercase
       (filter (\<lambda>name. name \<noteq> [])
         (map trim
           (concat (map (split_on (CHR '','')) (List.map_filter header_to_str (hm_get_all source ''connection''))))))"

definition is_hop_by_hop :: "str \<Rightarrow> bool" where
  "is_hop_by_hop name \<longleftrightarrow>
     name \<in> set [''connection'', ''keep-alive'', ''proxy-authenticate'', ''proxy-authorization'', ''te'',
       ''trailer'', ''transfer-encoding'', ''upgrade'']"

fun contains_str :: "str \<Rightarrow> str \<Rightarrow> bool" where
  "contains_str pat [] \<longleftrightarrow> pat = []"
| "contains_str pat (c # s) \<longleftrightarrow> starts_with pat (c # s) \<or> contains_str pat s"

definition is_sensitive_official_header :: "str \<Rightarrow> bool" where
  "is_sensitive_official_header name \<longleftrightarrow>
     name = ''authorization'' \<or> name = ''cookie'' \<or> starts_with ''chatgpt-'' name \<or>
     starts_with ''x-openai-'' name \<or> name \<in> set [''openai-organization'', ''openai-project''] \<or>
     contains_str ''attestation'' name \<or> contains_str ''fedramp'' name"

section \<open>Requests\<close>

definition official_request_headers :: "header_map \<Rightarrow> header_map" where
  "official_request_headers source =
     (let dropped = connection_headers source in
      filter (\<lambda>(name, _). \<not> is_hop_by_hop name \<and> name \<notin> set dropped \<and>
        name \<noteq> ''host'' \<and> name \<noteq> ''content-length'') source)"

definition official_model_catalog_headers :: "header_map \<Rightarrow> header_map" where
  "official_model_catalog_headers source = hm_insert ''accept-encoding'' ''identity'' (official_request_headers source)"

text \<open>The fields of an ingress request that a third party may see.\<close>

definition third_party_fields :: "header_map \<Rightarrow> header_map" where
  "third_party_fields source =
     (let dropped = connection_headers source in
      filter (\<lambda>(name, _). \<not> is_hop_by_hop name \<and> name \<notin> set dropped \<and>
        \<not> is_sensitive_official_header name \<and>
        name \<notin> set [''host'', ''content-length'', ''content-encoding'']) source)"

definition remove_websocket_handshake_headers :: "header_map \<Rightarrow> header_map" where
  "remove_websocket_handshake_headers hs = filter (\<lambda>(name, _). \<not> starts_with ''sec-websocket-'' name) hs"

definition official_websocket_headers :: "header_map \<Rightarrow> header_map" where
  "official_websocket_headers source = remove_websocket_handshake_headers (official_request_headers source)"

section \<open>Responses\<close>

definition response_headers :: "header_map \<Rightarrow> header_map" where
  "response_headers source =
     (let dropped = connection_headers source in
      filter (\<lambda>(name, _). \<not> is_hop_by_hop name \<and> name \<notin> set dropped) source)"

definition rewritten_response_headers :: "header_map \<Rightarrow> header_map" where
  "rewritten_response_headers source =
     fold hm_remove [''content-length'', ''content-encoding'', ''etag'', ''last-modified'', ''content-md5'', ''digest'']
       (response_headers source)"

section \<open>Lemmas\<close>

lemma third_party_fields_clean:
  "h \<in> set (third_party_fields source) \<Longrightarrow>
   h \<in> set source \<and> \<not> is_hop_by_hop (fst h) \<and> \<not> is_sensitive_official_header (fst h) \<and>
   fst h \<notin> set (connection_headers source) \<and>
   fst h \<notin> {''host'', ''content-length'', ''content-encoding''}"
  by (auto simp: third_party_fields_def Let_def)

lemma official_request_fields:
  "h \<in> set (official_request_headers source) \<longleftrightarrow>
   h \<in> set source \<and> \<not> is_hop_by_hop (fst h) \<and> fst h \<notin> set (connection_headers source) \<and>
   fst h \<noteq> ''host'' \<and> fst h \<noteq> ''content-length''"
  by (auto simp: official_request_headers_def Let_def)

end
