(* ===== verification/Providers.thy ===== *)
theory Providers
  imports Routing ModelList AnthropicBridge Headers
begin

text \<open>
  \<open>provider-x-providers/src\<close>: the presets (\<open>presets.rs\<close>) and the profile of a provider (\<open>lib.rs\<close>), which
  selects the conversion of requests, the authentication headers and the transport.

  \<open>hex(Sha256(_))\<close> is the parameter \<open>sha256_hex\<close>, \<open>HeaderValue::from_str\<close> the parameter
  \<open>header_value\<close>, and the version of the crate the parameter \<open>version\<close>.
\<close>

section \<open>Presets\<close>

datatype credential_kind = ApiKey | OpenaiOAuthLogin | ClaudeCodeLogin | NoCredentials

record preset_connection =
  conn_id :: str
  conn_label :: str
  conn_mode :: str
  conn_protocol :: protocol_id
  conn_reasoning_policy :: reasoning_policy
  conn_endpoint :: str
  conn_models_endpoint :: "str option"
  conn_websocket_endpoint :: "str option"
  conn_credentials :: credential_kind

record provider_preset =
  preset_id :: str
  preset_name :: str
  preset_category :: str
  preset_connections :: "preset_connection list"

definition OPENAI_WEBSOCKET_ENDPOINT :: str where
  "OPENAI_WEBSOCKET_ENDPOINT = ''wss://api.openai.com/v1/responses''"

definition OPENAI_OAUTH_MODELS_ENDPOINT :: str where
  "OPENAI_OAUTH_MODELS_ENDPOINT = ''https://chatgpt.com/backend-api/codex/models?client_version=0.7.0''"

definition OPENAI_OAUTH_WEBSOCKET_ENDPOINT :: str where
  "OPENAI_OAUTH_WEBSOCKET_ENDPOINT = ''wss://chatgpt.com/backend-api/codex/responses''"

definition preset_connection_new :: "str \<Rightarrow> str \<Rightarrow> protocol_id \<Rightarrow> str \<Rightarrow> preset_connection" where
  "preset_connection_new identifier label protocol endpoint =
     \<lparr>conn_id = identifier, conn_label = label, conn_mode = ''api'', conn_protocol = protocol,
      conn_reasoning_policy = Native, conn_endpoint = endpoint, conn_models_endpoint = None,
      conn_websocket_endpoint = None, conn_credentials = ApiKey\<rparr>"

definition family :: "str \<Rightarrow> str \<Rightarrow> str \<Rightarrow> preset_connection list \<Rightarrow> provider_preset" where
  "family identifier name category connections =
     \<lparr>preset_id = identifier, preset_name = name, preset_category = category,
      preset_connections = connections\<rparr>"

text \<open>The two characters after the slash of the name of Z.ai are given by their UTF-8 bytes.\<close>

definition presets :: "provider_preset list" where
  "presets =
     [family ''openai'' ''OpenAI'' ''vendor''
        [(preset_connection_new ''api'' ''api'' OpenaiResponses ''https://api.openai.com/v1'')
           \<lparr>conn_websocket_endpoint := Some OPENAI_WEBSOCKET_ENDPOINT\<rparr>,
         (preset_connection_new ''subscription'' ''subscription'' OpenaiResponses
            ''https://chatgpt.com/backend-api/codex'')
           \<lparr>conn_mode := ''subscription'', conn_credentials := OpenaiOAuthLogin,
            conn_models_endpoint := Some OPENAI_OAUTH_MODELS_ENDPOINT,
            conn_websocket_endpoint := Some OPENAI_OAUTH_WEBSOCKET_ENDPOINT\<rparr>],
      family ''anthropic'' ''Anthropic'' ''vendor''
        [preset_connection_new ''api'' ''api'' AnthropicMessages ''https://api.anthropic.com'',
         (preset_connection_new ''subscription'' ''subscription'' AnthropicMessages '''')
           \<lparr>conn_mode := ''subscription'', conn_credentials := ClaudeCodeLogin\<rparr>],
      family ''deepseek'' ''DeepSeek'' ''vendor''
        [(preset_connection_new ''api'' ''api'' OpenaiResponses ''https://api.deepseek.com/v1'')
           \<lparr>conn_reasoning_policy := DeepSeek\<rparr>],
      family ''kimi'' ''Kimi'' ''vendor''
        [preset_connection_new ''global'' ''global'' OpenaiChatCompletions ''https://api.moonshot.ai/v1'',
         preset_connection_new ''china'' ''china'' OpenaiChatCompletions ''https://api.moonshot.cn/v1''],
      family ''qwen'' ''Qwen'' ''vendor''
        [preset_connection_new ''global'' ''global'' OpenaiChatCompletions
           ''https://dashscope-intl.aliyuncs.com/compatible-mode/v1'',
         preset_connection_new ''china'' ''china'' OpenaiChatCompletions
           ''https://dashscope.aliyuncs.com/compatible-mode/v1''],
      family ''zai'' (''Z.ai / '' @ map char_of [0xE6, 0x99, 0xBA, 0xE8, 0xB0, 0xB1 :: nat]) ''vendor''
        [preset_connection_new ''global'' ''global'' OpenaiChatCompletions ''https://api.z.ai/api/paas/v4'',
         preset_connection_new ''global-coding'' ''global_coding'' OpenaiChatCompletions
           ''https://api.z.ai/api/coding/paas/v4'',
         preset_connection_new ''china'' ''china'' OpenaiChatCompletions ''https://open.bigmodel.cn/api/paas/v4'',
         preset_connection_new ''china-coding'' ''china_coding'' OpenaiChatCompletions
           ''https://open.bigmodel.cn/api/coding/paas/v4''],
      family ''minimax'' ''MiniMax'' ''vendor''
        [preset_connection_new ''global'' ''global'' AnthropicMessages ''https://api.minimax.io/anthropic'',
         preset_connection_new ''china'' ''china'' AnthropicMessages ''https://api.minimaxi.com/anthropic''],
      family ''xai'' ''xAI'' ''vendor''
        [preset_connection_new ''api'' ''api'' OpenaiResponses ''https://api.x.ai/v1''],
      family ''openrouter'' ''OpenRouter'' ''relay''
        [preset_connection_new ''api'' ''api'' OpenaiChatCompletions ''https://openrouter.ai/api/v1''],
      family ''opencode'' ''OpenCode'' ''relay''
        [preset_connection_new ''zen'' ''zen'' OpenaiChatCompletions ''https://opencode.ai/zen/v1'',
         preset_connection_new ''go'' ''go'' OpenaiChatCompletions ''https://opencode.ai/zen/go/v1''],
      family ''ollama'' ''Ollama'' ''local''
        [(preset_connection_new ''local'' ''local'' OpenaiChatCompletions ''http://127.0.0.1:11434/v1'')
           \<lparr>conn_credentials := NoCredentials\<rparr>],
      family ''lmstudio'' ''LM Studio'' ''local''
        [(preset_connection_new ''local'' ''local'' OpenaiChatCompletions ''http://127.0.0.1:1234/v1'')
           \<lparr>conn_credentials := NoCredentials\<rparr>],
      family ''custom'' ''Custom'' ''custom'' [preset_connection_new ''api'' ''custom'' OpenaiResponses '''']]"

section \<open>Profiles\<close>

datatype auth_style = StyleNone | StyleClaudeCode | StyleBearer | StyleOpenAiOAuth | StyleAnthropic

datatype execution_backend = BackendHttp | BackendClaudeCode

datatype ws_http_adapter_kind = AdapterResponses | AdapterChatCompletions | AdapterMessages

datatype websocket_route_plan = PlanDirect | PlanHttpBridge ws_http_adapter_kind | PlanUnsupported

datatype http_target = PreserveIngressPath str | Exact str

datatype http_response_adapter =
    Passthrough
  | ChatCompletionsResponse "(str, tool_identity) btree"
  | AnthropicMessagesResponse "(str, tool_identity) btree"

record prepared_http_request =
  prepared_target :: http_target
  prepared_body :: str
  prepared_adapter :: http_response_adapter

datatype provider_error =
    ProviderCore core_error
  | RequestConversion str
  | ModelDiscovery str
  | InvalidAuthenticationHeader
  | ProfileFingerprintSerialization str
  | WebSocketConversionUnavailable
  | UnknownPresetConnection
  | AuthenticationMismatch

text \<open>\<open>ProtocolAdapter\<close> has the cases of \<open>ProtocolId\<close>, between which its conversions are identities.\<close>

record provider_profile =
  prof_adapter :: protocol_id
  prof_auth_style :: auth_style
  prof_http_endpoint :: str
  prof_websocket_endpoint :: "str option"
  prof_models_endpoint :: "str option"
  prof_transports :: transport_config
  prof_models_dev_id :: "str option"
  prof_anthropic_thinking :: anthropic_thinking_mode
  prof_reasoning_policy :: reasoning_policy
  prof_credential_scope :: "str option"

definition models_dev_id_of :: "str \<Rightarrow> str option" where
  "models_dev_id_of preset =
     map_of [(''openai'', ''openai''), (''anthropic'', ''anthropic''), (''deepseek'', ''deepseek''),
       (''kimi'', ''moonshotai''), (''qwen'', ''alibaba''), (''zai'', ''zhipuai''), (''minimax'', ''minimax''),
       (''xai'', ''xai''), (''openrouter'', ''openrouter''), (''opencode'', ''opencode'')] preset"

definition auth_style_of :: "provider_config \<Rightarrow> auth_style" where
  "auth_style_of p =
     (case prov_auth p of
        AuthNone \<Rightarrow> StyleNone
      | ClaudeCode \<Rightarrow> StyleClaudeCode
      | OpenAiOAuth _ _ _ _ _ _ \<Rightarrow> StyleOpenAiOAuth
      | Bearer _ \<Rightarrow> if prov_protocol p = AnthropicMessages then StyleAnthropic else StyleBearer)"

definition resolve_provider :: "(str \<Rightarrow> str) \<Rightarrow> provider_config \<Rightarrow> provider_profile" where
  "resolve_provider sha256_hex p =
     \<lparr>prof_adapter = prov_protocol p, prof_auth_style = auth_style_of p,
      prof_http_endpoint = endpoint_http (prov_endpoints p),
      prof_websocket_endpoint = endpoint_websocket (prov_endpoints p),
      prof_models_endpoint = endpoint_models (prov_endpoints p),
      prof_transports = prov_transports p, prof_models_dev_id = models_dev_id_of (prov_preset p),
      prof_anthropic_thinking = anthropic_thinking_of p,
      prof_reasoning_policy = prov_reasoning_policy p,
      prof_credential_scope =
        (case prov_auth p of
           OpenAiOAuth _ _ account_id _ _ _ \<Rightarrow> Some (sha256_hex account_id) | _ \<Rightarrow> None)\<rparr>"

section \<open>Validation\<close>

definition credentials_match :: "credential_kind \<Rightarrow> auth_config \<Rightarrow> bool" where
  "credentials_match kind auth \<longleftrightarrow>
     (case (kind, auth) of
        (ApiKey, Bearer _) \<Rightarrow> True
      | (OpenaiOAuthLogin, OpenAiOAuth _ _ _ _ _ _) \<Rightarrow> True
      | (ClaudeCodeLogin, ClaudeCode) \<Rightarrow> True
      | (NoCredentials, AuthNone) \<Rightarrow> True
      | _ \<Rightarrow> False)"

definition validate_provider :: "url_parser \<Rightarrow> provider_config \<Rightarrow> provider_error + unit" where
  "validate_provider url_parse p =
     and_then (map_err ProviderCore (provider_validate url_parse p)) (\<lambda>_.
     and_then (ok_or UnknownPresetConnection (find (\<lambda>f. preset_id f = prov_preset p) presets)) (\<lambda>preset.
     and_then (ok_or UnknownPresetConnection
         (find (\<lambda>c. conn_id c = prov_connection p) (preset_connections preset))) (\<lambda>connection.
     if \<not> credentials_match (conn_credentials connection) (prov_auth p) then Inl AuthenticationMismatch
     else if (case prov_auth p of OpenAiOAuth _ _ _ _ _ _ \<Rightarrow> True | _ \<Rightarrow> False) \<and> prov_protocol p \<noteq> OpenaiResponses
     then Inl InvalidAuthenticationHeader
     else if prov_auth p = ClaudeCode \<and> prov_protocol p \<noteq> AnthropicMessages
     then Inl InvalidAuthenticationHeader
     else Inr ())))"

definition validate_document :: "url_parser \<Rightarrow> providers_document \<Rightarrow> provider_error + unit" where
  "validate_document url_parse doc =
     and_then (map_err ProviderCore (providers_validate url_parse doc)) (\<lambda>_.
     try_fold (\<lambda>_ p. validate_provider url_parse p) () (doc_providers doc))"

definition build_runtime_snapshot ::
  "url_parser \<Rightarrow> providers_document \<Rightarrow> model_cache_document \<Rightarrow> provider_error + runtime_snapshot" where
  "build_runtime_snapshot url_parse doc cache =
     and_then (validate_document url_parse doc) (\<lambda>_.
     map_err ProviderCore (snapshot_build url_parse doc cache))"

section \<open>Operations of a profile\<close>

definition execution_backend_of :: "provider_profile \<Rightarrow> execution_backend" where
  "execution_backend_of profile =
     (if prof_auth_style profile = StyleClaudeCode then BackendClaudeCode else BackendHttp)"

definition anthropic_model_list_url :: "str \<Rightarrow> str" where
  "anthropic_model_list_url http_endpoint = trim_end_matches [CHR ''/''] http_endpoint @ ''/v1/models''"

definition profile_model_list_url :: "provider_profile \<Rightarrow> str" where
  "profile_model_list_url profile =
     (case prof_models_endpoint profile of
        Some endpoint \<Rightarrow> endpoint
      | None \<Rightarrow>
          (case prof_adapter profile of
             AnthropicMessages \<Rightarrow> anthropic_model_list_url (prof_http_endpoint profile)
           | _ \<Rightarrow> model_list_url (prof_http_endpoint profile)))"

definition model_source :: "provider_profile \<Rightarrow> provider_model_source" where
  "model_source profile =
     \<lparr>source_protocol = prof_adapter profile, source_endpoint = profile_model_list_url profile\<rparr>"

definition protocol_error_text :: "protocol_error \<Rightarrow> str" where
  "protocol_error_text e =
     (case e of
        UnsupportedPath p \<Rightarrow> ''unsupported Responses path '' @ p
      | InvalidJson m \<Rightarrow> ''request body is not valid JSON: '' @ m
      | BodyMustBeObject \<Rightarrow> ''request body must be a JSON object''
      | InvalidModel \<Rightarrow> ''request body must contain a non-empty top-level string model''
      | UnsupportedWebSocketMessage \<Rightarrow> ''WebSocket message must be response.create''
      | Serialization m \<Rightarrow> ''rewritten request body could not be serialized: '' @ m
      | SessionHistoryLimit \<Rightarrow> ''Responses bridge session history exceeds its configured limit''
      | InvalidStream \<Rightarrow> ''upstream Responses stream is malformed''
      | StreamBufferLimit \<Rightarrow> ''upstream Responses event exceeds its configured buffer limit''
      | StreamStateLimit \<Rightarrow> ''upstream Responses reasoning state exceeds its configured limit'')"

definition chat_error_text :: "chat_error \<Rightarrow> str" where
  "chat_error_text e =
     (case e of
        ChatInvalidJson m \<Rightarrow> ''request body is not valid Responses JSON: '' @ m
      | ChatBodyMustBeObject \<Rightarrow> ''request body must be a JSON object''
      | ChatUnsupportedWebSocketMessage \<Rightarrow> ''WebSocket message must be response.create''
      | ChatUnsupportedInput m \<Rightarrow>
          ''Responses request uses an item or tool unsupported by Chat Completions: '' @ m
      | ChatSerialization m \<Rightarrow> ''converted Chat Completions request could not be serialized: '' @ m
      | ChatSessionHistoryLimit \<Rightarrow> ''Chat Completions bridge session history exceeds its configured limit''
      | ChatInvalidStream \<Rightarrow> ''upstream Chat Completions stream is malformed''
      | ChatStreamBufferLimit \<Rightarrow> ''upstream Chat Completions event exceeds its configured buffer limit''
      | ChatStreamStateLimit \<Rightarrow> ''upstream Chat Completions stream aggregation exceeds its configured limit'')"

definition anthropic_error_text :: "anthropic_error \<Rightarrow> str" where
  "anthropic_error_text e =
     (case e of
        AnthropicInvalidRequest \<Rightarrow> ''converted Anthropic Messages request is malformed''
      | AnthropicUnsupportedInput m \<Rightarrow>
          ''Responses request uses an item or option unsupported by Anthropic Messages: '' @ m
      | AnthropicSerialization m \<Rightarrow> ''converted Anthropic Messages request could not be serialized: '' @ m
      | AnthropicSessionHistoryLimit \<Rightarrow>
          ''Anthropic Messages bridge session history exceeds its configured limit''
      | AnthropicInvalidStream \<Rightarrow> ''upstream Anthropic Messages stream is malformed''
      | AnthropicStreamBufferLimit \<Rightarrow> ''upstream Anthropic Messages event exceeds its configured buffer limit''
      | AnthropicStreamStateLimit \<Rightarrow>
          ''upstream Anthropic Messages stream aggregation exceeds its configured limit'')"

text \<open>The three parsers of a model list; two of them are the one of \<open>model_list.rs\<close> with an error of
  their own.\<close>

definition profile_parse_model_list ::
  "codec \<Rightarrow> provider_profile \<Rightarrow> str \<Rightarrow> provider_error + discovered_model list" where
  "profile_parse_model_list c profile bytes =
     (case prof_adapter profile of
        OpenaiResponses \<Rightarrow> map_err (\<lambda>e. ModelDiscovery (protocol_error_text e)) (parse_model_list c bytes)
      | OpenaiChatCompletions \<Rightarrow>
          map_err (\<lambda>_. ModelDiscovery (chat_error_text ChatInvalidStream)) (generic_parse_model_list c bytes)
      | AnthropicMessages \<Rightarrow>
          map_err (\<lambda>_. ModelDiscovery (anthropic_error_text AnthropicInvalidStream)) (generic_parse_model_list c bytes))"

definition apply_authentication ::
  "(str \<Rightarrow> str option) \<Rightarrow> str \<Rightarrow> provider_profile \<Rightarrow> auth_config \<Rightarrow> header_map \<Rightarrow> provider_error + header_map" where
  "apply_authentication header_value version profile auth hs =
     (case (prof_auth_style profile, auth) of
        (StyleNone, AuthNone) \<Rightarrow> Inr hs
      | (StyleBearer, Bearer api_key) \<Rightarrow>
          and_then (ok_or InvalidAuthenticationHeader (header_value (''Bearer '' @ api_key))) (\<lambda>v.
          Inr (hm_insert ''authorization'' v hs))
      | (StyleAnthropic, Bearer api_key) \<Rightarrow>
          and_then (ok_or InvalidAuthenticationHeader (header_value api_key)) (\<lambda>v.
          Inr (hm_insert ''anthropic-version'' ''2023-06-01'' (hm_insert ''x-api-key'' v hs)))
      | (StyleOpenAiOAuth, OpenAiOAuth access_token _ account_id _ _ is_fedramp) \<Rightarrow>
          and_then (ok_or InvalidAuthenticationHeader (header_value (''Bearer '' @ access_token))) (\<lambda>authorization.
          and_then (ok_or InvalidAuthenticationHeader (header_value account_id)) (\<lambda>account.
            let hs = hm_insert ''chatgpt-account-id'' account (hm_insert ''authorization'' authorization hs);
                hs = (if hm_contains hs ''version'' then hs else hm_insert ''version'' version hs)
            in Inr (if is_fedramp then hm_insert ''x-openai-fedramp'' ''true'' hs else hs)))
      | _ \<Rightarrow> Inl InvalidAuthenticationHeader)"

definition profile_prepare_http_request ::
  "codec \<Rightarrow> provider_profile \<Rightarrow> str \<Rightarrow> str \<Rightarrow> nat \<Rightarrow> provider_error + prepared_http_request" where
  "profile_prepare_http_request c profile body upstream_model max_bytes =
     (case prof_adapter profile of
        OpenaiResponses \<Rightarrow>
          and_then (map_err (\<lambda>e. RequestConversion (protocol_error_text e))
              (rewrite_http_model c body upstream_model)) (\<lambda>bytes.
          Inr \<lparr>prepared_target = PreserveIngressPath (prof_http_endpoint profile), prepared_body = bytes,
               prepared_adapter = Passthrough\<rparr>)
      | OpenaiChatCompletions \<Rightarrow>
          and_then (map_err (\<lambda>e. RequestConversion (chat_error_text e))
              (prepare_http_request_with_policy c body upstream_model max_bytes (prof_reasoning_policy profile)))
            (\<lambda>request.
          Inr \<lparr>prepared_target = Exact (chat_completions_url (prof_http_endpoint profile)),
               prepared_body = chat_body request,
               prepared_adapter = ChatCompletionsResponse (chat_tool_names request)\<rparr>)
      | AnthropicMessages \<Rightarrow>
          and_then (map_err (\<lambda>e. RequestConversion (anthropic_error_text e))
              (anthropic_http_request_with_mode c body upstream_model max_bytes (prof_anthropic_thinking profile)))
            (\<lambda>request.
          Inr \<lparr>prepared_target = Exact (messages_url (prof_http_endpoint profile)),
               prepared_body = ar_body request,
               prepared_adapter = AnthropicMessagesResponse (ar_tool_names request)\<rparr>))"

definition websocket_http_url :: "provider_profile \<Rightarrow> str" where
  "websocket_http_url profile =
     (case prof_adapter profile of
        OpenaiResponses \<Rightarrow> responses_url (prof_http_endpoint profile)
      | OpenaiChatCompletions \<Rightarrow> chat_completions_url (prof_http_endpoint profile)
      | AnthropicMessages \<Rightarrow> messages_url (prof_http_endpoint profile))"

definition profile_websocket_plan :: "provider_profile \<Rightarrow> websocket_route_plan" where
  "profile_websocket_plan profile =
     (case prof_adapter profile of
        OpenaiResponses \<Rightarrow>
          if websocket (prof_transports profile) then PlanDirect
          else if http_sse (prof_transports profile) then PlanHttpBridge AdapterResponses else PlanUnsupported
      | OpenaiChatCompletions \<Rightarrow>
          if http_sse (prof_transports profile) then PlanHttpBridge AdapterChatCompletions else PlanUnsupported
      | AnthropicMessages \<Rightarrow>
          if http_sse (prof_transports profile) then PlanHttpBridge AdapterMessages else PlanUnsupported)"

definition rewrite_websocket_request ::
  "codec \<Rightarrow> provider_profile \<Rightarrow> str \<Rightarrow> str \<Rightarrow> provider_error + str" where
  "rewrite_websocket_request c profile message upstream_model =
     (if prof_adapter profile \<noteq> OpenaiResponses then Inl WebSocketConversionUnavailable
      else map_err (\<lambda>e. RequestConversion (protocol_error_text e)) (rewrite_ws_text c message upstream_model))"

text \<open>The value \<open>routing_fingerprint\<close> serializes; serde names the cases of an enum in snake case.\<close>

definition auth_style_name :: "auth_style \<Rightarrow> str" where
  "auth_style_name s =
     (case s of
        StyleNone \<Rightarrow> ''none'' | StyleClaudeCode \<Rightarrow> ''claude_code'' | StyleBearer \<Rightarrow> ''bearer''
      | StyleOpenAiOAuth \<Rightarrow> ''open_ai_o_auth'' | StyleAnthropic \<Rightarrow> ''anthropic'')"

definition thinking_name :: "anthropic_thinking_mode \<Rightarrow> str" where
  "thinking_name m = (case m of Adaptive \<Rightarrow> ''adaptive'' | Enabled \<Rightarrow> ''enabled'')"

definition policy_name :: "reasoning_policy \<Rightarrow> str" where
  "policy_name r = (case r of Native \<Rightarrow> ''native'' | DeepSeek \<Rightarrow> ''deep_seek'')"

definition profile_fingerprint_input :: "provider_profile \<Rightarrow> json" where
  "profile_fingerprint_input profile =
     JObject [(''adapter'', JString (protocol_name (prof_adapter profile))),
       (''auth_style'', JString (auth_style_name (prof_auth_style profile))),
       (''http_endpoint'', JString (prof_http_endpoint profile)),
       (''websocket_endpoint'', opt_string (prof_websocket_endpoint profile)),
       (''models_endpoint'', JString (profile_model_list_url profile)),
       (''transports'', JObject [(''http_sse'', JBool (http_sse (prof_transports profile))),
          (''websocket'', JBool (websocket (prof_transports profile)))]),
       (''models_dev_id'', opt_string (prof_models_dev_id profile)),
       (''anthropic_thinking'', JString (thinking_name (prof_anthropic_thinking profile))),
       (''reasoning_policy'', JString (policy_name (prof_reasoning_policy profile))),
       (''credential_scope'', opt_string (prof_credential_scope profile))]"

definition profile_routing_fingerprint ::
  "codec \<Rightarrow> (str \<Rightarrow> str) \<Rightarrow> provider_profile \<Rightarrow> provider_error + str" where
  "profile_routing_fingerprint c sha256_hex profile =
     and_then (map_err ProfileFingerprintSerialization (to_vec c (profile_fingerprint_input profile))) (\<lambda>bytes.
     Inr (''sha256:'' @ sha256_hex bytes))"

text \<open>The only error of the fingerprint is that of its serialization, whose text this maps.\<close>

definition cache_fingerprint_matches ::
  "codec \<Rightarrow> (str \<Rightarrow> str) \<Rightarrow> provider_config \<Rightarrow> str \<Rightarrow> core_error + bool" where
  "cache_fingerprint_matches c sha256_hex p candidate =
     (case profile_routing_fingerprint c sha256_hex (resolve_provider sha256_hex p) of
        Inr fingerprint \<Rightarrow> Inr (fingerprint = candidate)
      | Inl (ProfileFingerprintSerialization m) \<Rightarrow>
          Inl (FingerprintSerialization (''failed to serialize provider routing semantics: '' @ m))
      | Inl _ \<Rightarrow> Inl (FingerprintSerialization []))"

end
