(* ===== verification/Credentials.thy ===== *)
theory Credentials
  imports Providers
begin

text \<open>
  The headers of a request to a third party (\<open>third_party_request_headers\<close> and
  \<open>third_party_websocket_headers\<close> of \<open>provider-x-egress/src/headers.rs\<close>): what is left of the
  ingress request and the authentication of the provider. The code replaces the error of the
  authentication by \<open>ProxyError::RequestBuild\<close>, as the requests of \<open>HttpProxy\<close> do here. The properties show that no credential of
  the official service reaches a third party, and that a validated provider can authenticate.
\<close>

definition third_party_request_headers ::
  "(str \<Rightarrow> str option) \<Rightarrow> str \<Rightarrow> header_map \<Rightarrow> auth_config \<Rightarrow> provider_profile \<Rightarrow> provider_error + header_map" where
  "third_party_request_headers header_value version source auth profile =
     apply_authentication header_value version profile auth (third_party_fields source)"

definition third_party_websocket_headers ::
  "(str \<Rightarrow> str option) \<Rightarrow> str \<Rightarrow> header_map \<Rightarrow> auth_config \<Rightarrow> provider_profile \<Rightarrow> provider_error + header_map" where
  "third_party_websocket_headers header_value version source auth profile =
     and_then (third_party_request_headers header_value version source auth profile) (\<lambda>hs.
     Inr (remove_websocket_handshake_headers hs))"

section \<open>Confinement\<close>

text \<open>The fields that the credentials of a provider stand for.\<close>

definition issued_by :: "(str \<Rightarrow> str option) \<Rightarrow> str \<Rightarrow> auth_config \<Rightarrow> str \<Rightarrow> str \<Rightarrow> bool" where
  "issued_by header_value version auth name v \<longleftrightarrow>
     (case auth of
        AuthNone \<Rightarrow> False
      | ClaudeCode \<Rightarrow> False
      | Bearer key \<Rightarrow>
          name = ''authorization'' \<and> header_value (''Bearer '' @ key) = Some v \<or>
          name = ''x-api-key'' \<and> header_value key = Some v \<or>
          name = ''anthropic-version'' \<and> v = ''2023-06-01''
      | OpenAiOAuth access _ account _ _ is_fedramp \<Rightarrow>
          name = ''authorization'' \<and> header_value (''Bearer '' @ access) = Some v \<or>
          name = ''chatgpt-account-id'' \<and> header_value account = Some v \<or>
          name = ''version'' \<and> v = version \<or>
          name = ''x-openai-fedramp'' \<and> is_fedramp \<and> v = ''true'')"

text \<open>The fields of the ingress request that may go on.\<close>

definition forwardable :: "header_map \<Rightarrow> str \<Rightarrow> bool" where
  "forwardable source name \<longleftrightarrow>
     \<not> is_sensitive_official_header name \<and> \<not> is_hop_by_hop name \<and> name \<notin> set (connection_headers source) \<and>
     name \<notin> {''host'', ''content-length'', ''content-encoding''}"

lemma apply_authentication_fields:
  assumes "apply_authentication header_value version profile auth hs = Inr out" and "(name, v) \<in> set out"
  shows "(name, v) \<in> set hs \<or> issued_by header_value version auth name v"
  using assms
  by (auto simp: apply_authentication_def issued_by_def set_hm_insert Let_def
      split: auth_style.splits auth_config.splits if_splits)

lemma third_party_request_confined:
  assumes "third_party_request_headers header_value version source auth profile = Inr hs" and "(name, v) \<in> set hs"
  shows "issued_by header_value version auth name v \<or> (name, v) \<in> set source \<and> forwardable source name"
  using apply_authentication_fields [OF assms(1) [unfolded third_party_request_headers_def] assms(2)]
    third_party_fields_clean [of "(name, v)" source]
  by (auto simp: forwardable_def)

text \<open>C15: every field of a request to a third party either comes from the credentials of that provider, or
  from the ingress request, and then it is no credential, account or attestation field of the official
  service, no hop-by-hop field and none the client listed as such; a WebSocket request has no
  handshake field either.\<close>

theorem third_party_headers_confined:
  assumes "third_party_request_headers header_value version source auth profile = Inr hs"
  shows "(\<forall>(name, v) \<in> set hs. issued_by header_value version auth name v \<or>
      (name, v) \<in> set source \<and> forwardable source name) \<and>
    (\<exists>ws. third_party_websocket_headers header_value version source auth profile = Inr ws \<and>
      set ws \<subseteq> set hs \<and> (\<forall>(name, v) \<in> set ws. \<not> starts_with ''sec-websocket-'' name))"
proof -
  note third_party_request_confined [OF assms]
  with assms show ?thesis
    by (fastforce simp: third_party_websocket_headers_def remove_websocket_handshake_headers_def)
qed

definition example_source :: header_map where
  "example_source = [(''authorization'', ''Bearer official''), (''accept'', ''*'')]"

definition example_profile :: provider_profile where
  "example_profile = resolve_provider (\<lambda>s. s) example_provider"

theorem third_party_headers_confined_witness:
  "\<exists>hs. third_party_request_headers Some ''1'' example_source (Bearer ''k'') example_profile = Inr hs \<and>
     (''authorization'', ''Bearer official'') \<notin> set hs \<and> (''authorization'', ''Bearer k'') \<in> set hs"
proof -
  have style: "prof_auth_style example_profile = StyleBearer"
    by (simp add: example_profile_def resolve_provider_def auth_style_of_def example_provider_def)
  define hs where "hs = hm_insert ''authorization'' ''Bearer k'' (third_party_fields example_source)"
  have run: "third_party_request_headers Some ''1'' example_source (Bearer ''k'') example_profile = Inr hs"
    by (simp add: third_party_request_headers_def apply_authentication_def style hs_def)
  have no: "\<not> issued_by Some ''1'' (Bearer ''k'') ''authorization'' ''Bearer official''"
    "\<not> forwardable example_source ''authorization''"
    by (simp_all add: issued_by_def forwardable_def is_sensitive_official_header_def)
  have "(''authorization'', ''Bearer official'') \<notin> set hs"
  proof
    assume "(''authorization'', ''Bearer official'') \<in> set hs"
    with third_party_headers_confined [OF run] no show False by blast
  qed
  with run show ?thesis by (auto simp: hs_def set_hm_insert)
qed

section \<open>Authentication of a validated provider\<close>

lemma clean_bytes: "\<not> any_control s \<Longrightarrow> \<forall>b \<in> set s. 32 \<le> byte b \<and> byte b \<noteq> 127"
  by (induction s rule: any_control.induct) auto

lemma validate_provider_Inr:
  assumes "validate_provider url_parse p = Inr ()"
  shows "provider_valid url_parse p \<and>
    ((\<exists>a r i e m f. prov_auth p = OpenAiOAuth a r i e m f) \<longrightarrow> prov_protocol p = OpenaiResponses) \<and>
    (prov_auth p = ClaudeCode \<longrightarrow> prov_protocol p = AnthropicMessages)"
  using assms
  by (cases "prov_auth p") (auto simp: validate_provider_def provider_validate_iff split: if_splits)

text \<open>The texts that become header values where the request is authenticated.\<close>

definition header_texts :: "provider_profile \<Rightarrow> auth_config \<Rightarrow> str list" where
  "header_texts profile auth =
     (case auth of
        Bearer key \<Rightarrow> [if prof_auth_style profile = StyleAnthropic then key else ''Bearer '' @ key]
      | OpenAiOAuth access _ account _ _ _ \<Rightarrow> [''Bearer '' @ access, account]
      | _ \<Rightarrow> [])"

lemma validated_http_headers:
  assumes "validate_provider url_parse p = Inr ()"
    and "execution_backend_of (resolve_provider sha256_hex p) = BackendHttp"
  shows "if \<exists>t \<in> set (header_texts (resolve_provider sha256_hex p) (prov_auth p)). header_value t = None
    then third_party_request_headers header_value version source (prov_auth p) (resolve_provider sha256_hex p) =
      Inl InvalidAuthenticationHeader
    else \<exists>hs. third_party_request_headers header_value version source (prov_auth p)
      (resolve_provider sha256_hex p) = Inr hs"
  using assms(2) validate_provider_Inr [OF assms(1)]
  by (cases "prov_auth p")
    (auto simp: third_party_request_headers_def apply_authentication_def resolve_provider_def auth_style_of_def
      execution_backend_of_def header_texts_def Let_def ok_or_def split: option.split)

lemma validated_texts_clean:
  assumes "validate_provider url_parse p = Inr ()" and "t \<in> set (header_texts profile (prov_auth p))"
  shows "\<forall>b \<in> set t. 32 \<le> byte b \<and> byte b \<noteq> 127"
proof -
  have "auth_clean (prov_auth p)"
    using validate_provider_Inr [OF assms(1)] by (simp add: provider_valid_def)
  then show ?thesis
    using assms(2) clean_bytes
    by (cases "prov_auth p") (auto simp: header_texts_def auth_clean_def unclean_def split: if_splits)
qed

lemma backend_claude_code:
  "execution_backend_of (resolve_provider sha256_hex p) = BackendClaudeCode \<longleftrightarrow> prov_auth p = ClaudeCode"
  by (cases "prov_auth p") (auto simp: execution_backend_of_def resolve_provider_def auth_style_of_def)


definition usable_provider :: provider_config where
  "usable_provider = example_provider\<lparr>prov_preset := ''custom'', prov_connection := ''api''\<rparr>"

lemma usable_provider_validated: "validate_provider example_url_parse usable_provider = Inr ()"
proof -
  have "provider_valid example_url_parse usable_provider"
    using example_provider_valid
    by (simp add: provider_valid_def usable_provider_def endpoints_consistent_def example_provider_def)
  then have "provider_validate example_url_parse usable_provider = Inr ()" by (simp add: provider_validate_iff)
  then show ?thesis
    by (simp add: validate_provider_def usable_provider_def example_provider_def presets_def family_def
        preset_connection_new_def credentials_match_def)
qed

definition ascii_header_value :: "str \<Rightarrow> str option" where
  "ascii_header_value s = (if \<forall>b \<in> set s. 32 \<le> byte b \<and> byte b < 127 then Some s else None)"


section \<open>A document that can be used\<close>

definition usable_document :: providers_document where
  "usable_document = example_document\<lparr>doc_providers := [usable_provider]\<rparr>"

lemma usable_document_validated: "validate_document example_url_parse usable_document = Inr ()"
proof -
  have "provider_valid example_url_parse usable_provider"
    using usable_provider_validated by (auto simp: validate_provider_def provider_validate_iff)
  then have "document_valid example_url_parse usable_document"
    by (simp add: document_valid_def usable_document_def listener_valid_def example_document_def SCHEMA_VERSION_def)
  then have "providers_validate example_url_parse usable_document = Inr ()" by (simp add: providers_validate_iff)
  then show ?thesis by (simp add: validate_document_def usable_document_def usable_provider_validated)
qed

lemma usable_document_ids: "document_ids_ok usable_document"
  using example_ids_ok by (simp add: document_ids_ok_def usable_document_def usable_provider_def example_document_def)

end
