(* ===== verification/Network.thy ===== *)
theory Network
  imports Proxy RustStd
begin

text \<open>
  \<open>provider-x-network/src/lib.rs\<close>: the proxy definitions that the connectors of the catalog client and
  of the egress use, and the address a WebSocket connects to. TLS, the connection itself and the
  WebSocket handshake are left to the libraries. \<open>hyper::Uri\<close> is a record of what the code reads of it;
  its parser is the parameter \<open>uri_parse\<close>.
\<close>

datatype proxy_configuration_error = InvalidUri | ProxyInitialization

datatype websocket_connection_error = InvalidEndpoint | ConnectionTransport | ConnectionHandshake

record hyper_uri =
  uri_scheme :: "str option"
  uri_authority :: "str option"
  uri_host :: "str option"
  uri_port :: "nat option"
  uri_path_and_query :: "str option"

text \<open>A proxy of \<open>hyper_http_proxy\<close>: which targets it intercepts and where it is.\<close>

record http_proxy =
  hp_intercept :: "str option \<Rightarrow> str option \<Rightarrow> nat option \<Rightarrow> bool"
  hp_uri :: hyper_uri
  hp_force_connect :: bool

definition parse_proxy_uri ::
  "(str \<Rightarrow> hyper_uri option) \<Rightarrow> str \<Rightarrow> proxy_configuration_error + hyper_uri" where
  "parse_proxy_uri uri_parse s =
     and_then (ok_or InvalidUri (uri_parse s)) (\<lambda>uri.
     if uri_scheme uri \<notin> {Some ''http'', Some ''https''} \<or> uri_host uri = None then Inl InvalidUri
     else Inr uri)"

definition proxy_for_scheme ::
  "(str \<Rightarrow> hyper_uri option) \<Rightarrow> proxy_environment \<Rightarrow> str \<Rightarrow> str \<Rightarrow> proxy_configuration_error + http_proxy" where
  "proxy_for_scheme uri_parse px expected_scheme proxy =
     and_then (parse_proxy_uri uri_parse proxy) (\<lambda>uri.
     Inr \<lparr>hp_intercept = (\<lambda>scheme host port.
            scheme = Some expected_scheme \<and>
            (case host of None \<Rightarrow> False | Some h \<Rightarrow> should_proxy px expected_scheme h port)),
          hp_uri = uri, hp_force_connect = True\<rparr>)"

definition build_http_proxies ::
  "(str \<Rightarrow> hyper_uri option) \<Rightarrow> proxy_environment \<Rightarrow> proxy_configuration_error + http_proxy list" where
  "build_http_proxies uri_parse px =
     try_fold (\<lambda>proxies scheme.
         case proxy_url px scheme of
           None \<Rightarrow> Inr proxies
         | Some url \<Rightarrow> and_then (proxy_for_scheme uri_parse px scheme url) (\<lambda>p. Inr (proxies @ [p])))
       [] [''http'', ''https'']"

text \<open>
  The connector itself: its proxies, whether it may speak HTTP/2 and its timeout. \<open>ProxyConnector::new\<close>
  can fail, which the parameter \<open>init_ok\<close> tells.
\<close>

record network_connector =
  nc_proxies :: "http_proxy list"
  nc_http2 :: bool
  nc_connect_timeout_ms :: nat

definition build_connector ::
  "bool \<Rightarrow> (str \<Rightarrow> hyper_uri option) \<Rightarrow> proxy_environment \<Rightarrow> nat \<Rightarrow> bool \<Rightarrow>
   proxy_configuration_error + network_connector" where
  "build_connector init_ok uri_parse px connect_timeout enable_http2 =
     (if \<not> init_ok then Inl ProxyInitialization
      else and_then (build_http_proxies uri_parse px) (\<lambda>proxies.
        Inr \<lparr>nc_proxies = proxies, nc_http2 = enable_http2, nc_connect_timeout_ms = connect_timeout\<rparr>))"

definition build_http_connector ::
  "bool \<Rightarrow> (str \<Rightarrow> hyper_uri option) \<Rightarrow> proxy_environment \<Rightarrow> nat \<Rightarrow> proxy_configuration_error + network_connector" where
  "build_http_connector init_ok uri_parse px connect_timeout = build_connector init_ok uri_parse px connect_timeout True"

definition build_websocket_connector ::
  "bool \<Rightarrow> (str \<Rightarrow> hyper_uri option) \<Rightarrow> proxy_environment \<Rightarrow> nat \<Rightarrow> proxy_configuration_error + network_connector" where
  "build_websocket_connector init_ok uri_parse px connect_timeout =
     build_connector init_ok uri_parse px connect_timeout False"

definition websocket_connector_uri ::
  "(str \<Rightarrow> str \<Rightarrow> str \<Rightarrow> hyper_uri option) \<Rightarrow> hyper_uri \<Rightarrow> websocket_connection_error + hyper_uri" where
  "websocket_connector_uri uri_build uri =
     and_then
       (if uri_scheme uri = Some ''ws'' then Inr ''http''
        else if uri_scheme uri = Some ''wss'' then Inr ''https''
        else Inl InvalidEndpoint) (\<lambda>scheme.
     and_then (ok_or InvalidEndpoint (uri_authority uri)) (\<lambda>authority.
     and_then (ok_or InvalidEndpoint (uri_path_and_query uri)) (\<lambda>path_and_query.
     ok_or InvalidEndpoint (uri_build scheme authority path_and_query))))"

section \<open>The policy of the connectors\<close>

lemma proxy_for_scheme_Inr:
  "proxy_for_scheme uri_parse px s url = Inr p \<longleftrightarrow>
     (\<exists>uri. parse_proxy_uri uri_parse url = Inr uri \<and>
       p = \<lparr>hp_intercept = (\<lambda>scheme host port.
              scheme = Some s \<and> (case host of None \<Rightarrow> False | Some h \<Rightarrow> should_proxy px s h port)),
            hp_uri = uri, hp_force_connect = True\<rparr>)"
  by (auto simp: proxy_for_scheme_def)

lemma parse_proxy_uri_Inr:
  "parse_proxy_uri uri_parse s = Inr uri \<longleftrightarrow>
     uri_parse s = Some uri \<and> uri_scheme uri \<in> {Some ''http'', Some ''https''} \<and> uri_host uri \<noteq> None"
  by (auto simp: parse_proxy_uri_def split: if_splits)

lemma build_http_proxies_Inr:
  assumes "build_http_proxies uri_parse px = Inr proxies"
  shows "p \<in> set proxies \<longleftrightarrow>
    (\<exists>s url. s \<in> {''http'', ''https''} \<and> proxy_url px s = Some url \<and> proxy_for_scheme uri_parse px s url = Inr p)"
  using assms by (fastforce simp: build_http_proxies_def split: option.splits)

text \<open>The connectors for HTTP and for WebSockets are built together with the same proxies. A target of the scheme http or https goes through a proxy exactly
  when the environment says so, and that proxy is the one configured for the scheme, an absolute http
  or https address, always asked for a tunnel; no other target is intercepted. A WebSocket connects
  under the scheme http or https, with the authority and the path of its address, so that it follows
  the same policy.
\<close>

theorem connectors_follow_policy:
  assumes "build_http_connector init_ok uri_parse px ms = Inr http"
  shows "let proxies = nc_proxies http in
    (\<exists>ws. build_websocket_connector init_ok uri_parse px ms = Inr ws \<and> nc_proxies ws = proxies) \<and>
    ((\<exists>p \<in> set proxies. hp_intercept p scheme host port) \<longleftrightarrow>
      (\<exists>s h. scheme = Some s \<and> host = Some h \<and> should_proxy px s h port)) \<and>
    (\<forall>p \<in> set proxies. hp_intercept p scheme host port \<longrightarrow>
      (\<exists>s url. scheme = Some s \<and> proxy_url px s = Some url \<and> uri_parse url = Some (hp_uri p) \<and>
        uri_scheme (hp_uri p) \<in> {Some ''http'', Some ''https''} \<and> hp_force_connect p)) \<and>
    (websocket_connector_uri uri_build ws = Inr uri \<longrightarrow>
      (\<exists>s a q. (uri_scheme ws, s) \<in> {(Some ''ws'', ''http''), (Some ''wss'', ''https'')} \<and>
        uri_authority ws = Some a \<and> uri_path_and_query ws = Some q \<and> uri_build s a q = Some uri))"
proof -
  define proxies where "proxies = nc_proxies http"
  have built: "build_http_proxies uri_parse px = Inr proxies"
    and ws: "\<exists>ws. build_websocket_connector init_ok uri_parse px ms = Inr ws \<and> nc_proxies ws = proxies"
    using assms by (auto simp: build_http_connector_def build_websocket_connector_def build_connector_def
        proxies_def split: if_splits)
  note mem = build_http_proxies_Inr [OF built]
  have total: "\<exists>p \<in> set proxies. proxy_for_scheme uri_parse px s url = Inr p" if "proxy_url px s = Some url" for s url
    using that built by (auto simp: build_http_proxies_def proxy_url_def split: option.splits if_splits)
  have "(\<exists>p \<in> set proxies. hp_intercept p scheme host port) \<longleftrightarrow>
      (\<exists>s h. scheme = Some s \<and> host = Some h \<and> should_proxy px s h port)" (is "?l = ?r")
  proof
    assume ?l
    then show ?r by (auto simp: mem proxy_for_scheme_Inr split: option.splits)
  next
    assume ?r
    then obtain s h where r: "scheme = Some s" "host = Some h" "should_proxy px s h port" by blast
    then obtain url where "proxy_url px s = Some url" by (auto simp: should_proxy_def)
    from total [OF this] obtain p where p: "p \<in> set proxies" "proxy_for_scheme uri_parse px s url = Inr p" by blast
    then have "hp_intercept p scheme host port" using r by (auto simp: proxy_for_scheme_Inr)
    with p show ?l by blast
  qed
  moreover have "\<exists>s url. scheme = Some s \<and> proxy_url px s = Some url \<and> uri_parse url = Some (hp_uri p) \<and>
      uri_scheme (hp_uri p) \<in> {Some ''http'', Some ''https''} \<and> hp_force_connect p"
    if "p \<in> set proxies" "hp_intercept p scheme host port" for p
    using that by (auto simp: mem proxy_for_scheme_Inr parse_proxy_uri_Inr)
  ultimately show ?thesis
    using ws unfolding proxies_def [symmetric] Let_def
    by (auto simp: websocket_connector_uri_def split: if_splits)
qed

definition example_proxy_uri :: hyper_uri where
  "example_proxy_uri = \<lparr>uri_scheme = Some ''http'', uri_authority = Some ''p:80'', uri_host = Some ''p'',
     uri_port = Some 80, uri_path_and_query = Some ''/''\<rparr>"

theorem connectors_follow_policy_witness:
  "\<exists>http. build_http_connector True (\<lambda>_. Some example_proxy_uri)
      (proxy_from_values (Some ''http://p:80'') None []) 1000 = Inr http \<and>
    (\<exists>p \<in> set (nc_proxies http). hp_intercept p (Some ''http'') (Some ''chatgpt.com'') None) \<and>
    \<not> (\<exists>p \<in> set (nc_proxies http). hp_intercept p (Some ''https'') (Some ''chatgpt.com'') None)"
proof -
  let ?px = "proxy_from_values (Some ''http://p:80'') None []"
  have "proxy_url ?px ''http'' = Some ''http://p:80''" "proxy_url ?px ''https'' = None"
    by (simp_all add: proxy_url_def proxy_from_values_def)
  then have "\<exists>http. build_http_connector True (\<lambda>_. Some example_proxy_uri) ?px 1000 = Inr http"
    by (simp add: build_http_connector_def build_connector_def build_http_proxies_def proxy_for_scheme_def
        parse_proxy_uri_def example_proxy_uri_def)
  then obtain http where built: "build_http_connector True (\<lambda>_. Some example_proxy_uri) ?px 1000 = Inr http" ..
  have "should_proxy ?px ''http'' ''chatgpt.com'' None"
    by (simp add: should_proxy_def proxy_from_values_def proxy_url_def no_proxy_matches_def loopback_hosts
        no_proxy_parse_def trim_eval entry_parse_def List.map_filter_def)
  moreover have "\<not> should_proxy ?px ''https'' ''chatgpt.com'' None"
    by (simp add: should_proxy_def proxy_url_def proxy_from_values_def)
  ultimately have "(\<exists>p \<in> set (nc_proxies http). hp_intercept p (Some ''http'') (Some ''chatgpt.com'') None)"
      "\<not> (\<exists>p \<in> set (nc_proxies http). hp_intercept p (Some ''https'') (Some ''chatgpt.com'') None)"
    by (simp_all only: connectors_follow_policy [OF built, unfolded Let_def, THEN conjunct2, THEN conjunct1]
        option.inject simp_thms ex_simps)
  with built show ?thesis by blast
qed

end
