(* ===== verification/Catalog.thy ===== *)
theory Catalog
  imports Credentials Network
begin

text \<open>
  \<open>provider-x-catalog/src/compiler.rs\<close>: the model catalog the client sees, the official one extended by
  the enabled models of the providers. The lemmas show which models are published, that the official
  part stays as it is, and that the router sends a published model to its provider.

  The parser is the one of the \<open>codec\<close>; \<open>to_vec_pretty\<close> and the hash are the parameters \<open>pretty\<close> and
  \<open>sha256_hex\<close>.
\<close>

datatype catalog_error =
    CatalogCore core_error
  | CatalogProvider provider_error
  | CatalogProxyConfiguration proxy_configuration_error
  | InvalidCodexCatalog str
  | CatalogSerialization str
  | DiscoveryClient
  | InvalidModelRegistry str
  | ModelRegistryStatus nat
  | DiscoveryRequest
  | DiscoveryTransport
  | DiscoveryTimeout
  | DiscoveryStatus nat
  | DiscoveryBodyTooLarge nat
  | PreviewModelNotFound str
  | EmptyModelDisplayName
  | InvalidContextWindow

record compiled_catalog =
  cc_bytes :: str
  cc_sha256 :: str
  cc_official_models :: nat
  cc_third_party_models :: nat

type_synonym catalog_overlay = "(str \<times> json) list"

section \<open>Rendering a model\<close>

text \<open>
  \<open>str::replace\<close> for a pattern that is not empty: the occurrences from the left, without overlap. The
  first argument counts the bytes of an occurrence that are still to be skipped.
\<close>

fun replace_from :: "nat \<Rightarrow> str \<Rightarrow> str \<Rightarrow> str \<Rightarrow> str" where
  "replace_from n pat by_str [] = []"
| "replace_from (Suc n) pat by_str (c # s) = replace_from n pat by_str s"
| "replace_from 0 pat by_str (c # s) =
     (if starts_with pat (c # s) then by_str @ replace_from (length pat - 1) pat by_str s
      else c # replace_from 0 pat by_str s)"

definition str_replace :: "str \<Rightarrow> str \<Rightarrow> str \<Rightarrow> str" where
  "str_replace pat by_str s = replace_from 0 pat by_str s"

definition personality_slot :: str where
  "personality_slot = ''{{ personality }}''"

definition newline2 :: str where
  "newline2 = [CHR 0x0A, CHR 0x0A]"

definition empty_variables :: json where
  "empty_variables = JObject [(''personality_default'', JString []), (''personality_friendly'', JString []),
     (''personality_pragmatic'', JString [])]"

definition instructions_template :: "provider_model_spec \<Rightarrow> str" where
  "instructions_template model =
     ''You are '' @ spec_display_name model @ ''. Your provider-x model identifier is '' @
     catalog_str (spec_catalog_id model) @ ''.'' @ newline2 @ personality_slot @ newline2 @
     ''Follow the user'' @ [CHR 0x27] @ ''s request and use the provided tools when needed.''"

definition render_level :: "str \<Rightarrow> json" where
  "render_level effort =
     JObject [(''effort'', JString effort),
       (''description'', JString (''Provider-declared '' @ effort @ '' reasoning''))]"

definition render_model :: "str \<Rightarrow> provider_model_spec \<Rightarrow> json" where
  "render_model provider_name model =
     (let template = instructions_template model in
      JObject
       [(''slug'', JString (catalog_str (spec_catalog_id model))),
        (''display_name'', JString (provider_name @ '' / '' @ spec_display_name model)),
        (''description'', JString (''Routed through provider-x Provider '' @ provider_name)),
        (''default_reasoning_level'',
           (case spec_reasoning_levels model of [] \<Rightarrow> JNull | level # _ \<Rightarrow> JString level)),
        (''supported_reasoning_levels'', JArray (map render_level (spec_reasoning_levels model))),
        (''shell_type'', JString ''shell_command''),
        (''visibility'', JString ''list''),
        (''supported_in_api'', JBool True),
        (''multi_agent_version'', JString ''v2''),
        (''priority'', jnat 100),
        (''availability_nux'', JNull),
        (''upgrade'', JNull),
        (''base_instructions'', JString (str_replace personality_slot [] template)),
        (''model_messages'', JObject
          [(''instructions_template'', JString template),
           (''instructions_variables'', empty_variables),
           (''approvals'', JNull),
           (''collaboration_modes'', JNull),
           (''auto_review'', JNull),
           (''multi_agent'', JNull),
           (''permissions'', JNull),
           (''token_budget'', JNull)]),
        (''support_verbosity'', JBool False),
        (''default_verbosity'', JNull),
        (''apply_patch_tool_type'', JNull),
        (''truncation_policy'', JObject [(''mode'', JString ''tokens''), (''limit'', jnat 10000)]),
        (''supports_parallel_tool_calls'', JBool (unwrap_or (spec_parallel_tool_calls model) False)),
        (''context_window'', jnat (unwrap_or (spec_context_window model) 128000)),
        (''effective_context_window_percent'', jnat 95),
        (''experimental_supported_tools'', JArray []),
        (''input_modalities'', JArray [JString ''text'']),
        (''supports_search_tool'', JBool (unwrap_or (spec_search_tool model) False))])"

section \<open>The overlay\<close>

text \<open>The slugs seen so far and the rendered models.\<close>

definition overlay_model ::
  "provider_config \<Rightarrow> str set \<times> catalog_overlay \<Rightarrow> provider_model_spec \<Rightarrow> catalog_error + str set \<times> catalog_overlay" where
  "overlay_model p = (\<lambda>(slugs, third_party) model.
     let slug = catalog_str (spec_catalog_id model) in
     if slug \<in> slugs then Inl (InvalidCodexCatalog (''duplicate private catalog model slug '' @ slug))
     else Inr (insert slug slugs, third_party @ [(slug, render_model (prov_name p) model)]))"

definition overlay_provider ::
  "str set \<times> catalog_overlay \<Rightarrow> provider_config \<Rightarrow> catalog_error + str set \<times> catalog_overlay" where
  "overlay_provider s p = try_fold (overlay_model p) s (filter spec_enabled (prov_models p))"

definition overlay_from_documents ::
  "url_parser \<Rightarrow> providers_document \<Rightarrow> model_cache_document \<Rightarrow> catalog_error + catalog_overlay" where
  "overlay_from_documents url_parse doc cache =
     and_then (map_err CatalogProvider (validate_document url_parse doc)) (\<lambda>_.
     and_then (map_err CatalogCore (model_cache_validate cache)) (\<lambda>_.
     and_then (try_fold overlay_provider ({}, []) (filter prov_enabled (doc_providers doc))) (\<lambda>(_, third_party).
     Inr (sort_key fst third_party))))"

definition overlay_is_empty :: "catalog_overlay \<Rightarrow> bool" where
  "overlay_is_empty overlay \<longleftrightarrow> overlay = []"

section \<open>Merging into the official catalog\<close>

text \<open>\<open>Value::pointer\<close> for the two pointers used; an array has no element of these names.\<close>

definition pointer2 :: "str \<Rightarrow> str \<Rightarrow> json \<Rightarrow> json option" where
  "pointer2 a b v = Option.bind (jget v a) (\<lambda>w. jget w b)"

definition has_personality :: "json \<Rightarrow> bool" where
  "has_personality variables \<longleftrightarrow>
     list_all (\<lambda>key. str_at variables key \<noteq> None)
       [''personality_default'', ''personality_friendly'', ''personality_pragmatic'']"

definition personality_variables_from_official :: "json list \<Rightarrow> json" where
  "personality_variables_from_official models =
     unwrap_or
       (find has_personality (List.map_filter (pointer2 ''model_messages'' ''instructions_variables'') models))
       empty_variables"

definition apply_personality_variables :: "json \<Rightarrow> json \<Rightarrow> json" where
  "apply_personality_variables variables model =
     (let personality_default = unwrap_or (str_at variables ''personality_default'') [];
          rendered_instructions =
            map_option (str_replace personality_slot personality_default)
              (Option.bind (pointer2 ''model_messages'' ''instructions_template'' model) as_str);
          model = jset ''model_messages''
            (jset ''instructions_variables'' variables (jindex model ''model_messages'')) model
      in case rendered_instructions of
           None \<Rightarrow> model
         | Some instructions \<Rightarrow> jset ''base_instructions'' (JString instructions) model)"

definition push_private ::
  "json \<Rightarrow> str set \<times> json list \<Rightarrow> str \<times> json \<Rightarrow> catalog_error + str set \<times> json list" where
  "push_private variables = (\<lambda>(slugs, models) (slug, model).
     if slug \<in> slugs then Inl (InvalidCodexCatalog (''duplicate catalog model slug '' @ slug))
     else Inr (insert slug slugs, models @ [apply_personality_variables variables model]))"

definition official_slugs :: "json list \<Rightarrow> str set" where
  "official_slugs models = set (List.map_filter (\<lambda>m. str_at m ''slug'') models)"

definition overlay_merge ::
  "codec \<Rightarrow> (json \<Rightarrow> str + str) \<Rightarrow> (str \<Rightarrow> str) \<Rightarrow> catalog_overlay \<Rightarrow> str \<Rightarrow> catalog_error + compiled_catalog" where
  "overlay_merge c pretty sha256_hex overlay official =
     and_then (map_err InvalidCodexCatalog (parse c official)) (\<lambda>document.
     and_then (ok_or (InvalidCodexCatalog ''missing top-level models array'') (array_at document ''models''))
       (\<lambda>models.
     and_then (try_fold (push_private (personality_variables_from_official models))
         (official_slugs models, models) overlay) (\<lambda>(_, merged).
     and_then (map_err CatalogSerialization (pretty (jset ''models'' (JArray merged) document))) (\<lambda>bytes.
       let bytes = bytes @ [CHR 0x0A] in
       Inr \<lparr>cc_bytes = bytes, cc_sha256 = ''sha256:'' @ sha256_hex bytes,
            cc_official_models = length models, cc_third_party_models = length overlay\<rparr>))))"

definition compile_catalog ::
  "codec \<Rightarrow> (json \<Rightarrow> str + str) \<Rightarrow> (str \<Rightarrow> str) \<Rightarrow> url_parser \<Rightarrow> str \<Rightarrow> providers_document \<Rightarrow>
   model_cache_document \<Rightarrow> catalog_error + compiled_catalog" where
  "compile_catalog c pretty sha256_hex url_parse official doc cache =
     and_then (overlay_from_documents url_parse doc cache) (\<lambda>overlay.
     overlay_merge c pretty sha256_hex overlay official)"

section \<open>Lemmas\<close>

text \<open>A loop that refuses a key it has seen.\<close>

lemma try_fold_distinct:
  assumes "\<And>s x. F s x = (if key x \<in> fst s then Inl (err x) else Inr (insert (key x) (fst s), snd s @ [g x]))"
  shows "try_fold F s xs = Inr t \<longleftrightarrow>
    distinct (map key xs) \<and> fst s \<inter> key ` set xs = {} \<and> t = (fst s \<union> key ` set xs, snd s @ map g xs)"
proof (induction xs arbitrary: s)
  case Nil
  then show ?case by auto
next
  case (Cons x xs)
  show ?case
    by (cases "key x \<in> fst s") (auto simp: assms [of s x] Cons.IH)
qed

definition overlay_entries :: "provider_config \<Rightarrow> catalog_overlay" where
  "overlay_entries p =
     map (\<lambda>m. (catalog_str (spec_catalog_id m), render_model (prov_name p) m)) (filter spec_enabled (prov_models p))"

lemma overlay_provider_Inr:
  "overlay_provider s p = Inr t \<longleftrightarrow>
     distinct (map fst (overlay_entries p)) \<and> fst s \<inter> fst ` set (overlay_entries p) = {} \<and>
     t = (fst s \<union> fst ` set (overlay_entries p), snd s @ overlay_entries p)"
  unfolding overlay_provider_def overlay_entries_def
  by (subst try_fold_distinct [where key = "\<lambda>m. catalog_str (spec_catalog_id m)"
        and err = "\<lambda>m. InvalidCodexCatalog (''duplicate private catalog model slug '' @ catalog_str (spec_catalog_id m))"
        and g = "\<lambda>m. (catalog_str (spec_catalog_id m), render_model (prov_name p) m)"])
    (auto simp: overlay_model_def Let_def comp_def image_image)

lemma overlay_providers_Inr:
  "try_fold overlay_provider s ps = Inr t \<longleftrightarrow>
     distinct (map fst (concat (map overlay_entries ps))) \<and>
     fst s \<inter> fst ` set (concat (map overlay_entries ps)) = {} \<and>
     t = (fst s \<union> fst ` set (concat (map overlay_entries ps)), snd s @ concat (map overlay_entries ps))"
proof (induction ps arbitrary: s)
  case Nil
  then show ?case by auto
next
  case (Cons p ps)
  show ?case
    by (simp add: overlay_provider_Inr Cons.IH image_Un) blast
qed

definition overlay_of :: "providers_document \<Rightarrow> catalog_overlay" where
  "overlay_of doc = concat (map overlay_entries (filter prov_enabled (doc_providers doc)))"

lemma overlay_from_documents_Inr:
  "overlay_from_documents url_parse doc cache = Inr overlay \<longleftrightarrow>
     validate_document url_parse doc = Inr () \<and> model_cache_validate cache = Inr () \<and>
     distinct (map fst (overlay_of doc)) \<and> overlay = sort_key fst (overlay_of doc)"
  by (auto simp: overlay_from_documents_def overlay_providers_Inr overlay_of_def)

lemma validate_document_valid: "validate_document url_parse doc = Inr () \<Longrightarrow> document_valid url_parse doc"
  by (auto simp: validate_document_def providers_validate_iff)

text \<open>What a valid document publishes.\<close>

lemma overlay_entries_slugs:
  assumes "models_consistent (prov_id p) (prov_models p)"
  shows "map fst (overlay_entries p) = map (catalog_key (prov_id p)) (enabled_models p)"
  using assms by (auto simp: overlay_entries_def enabled_models_def models_consistent_def)

lemma distinct_overlay_of:
  assumes valid: "document_valid url_parse doc" and ids: "document_ids_ok doc"
  shows "distinct (map fst (overlay_of doc))"
proof -
  have "distinct (map fst (concat (map overlay_entries ps)))"
    if "distinct (map prov_id ps)" "\<forall>p \<in> set ps. models_consistent (prov_id p) (prov_models p) \<and> provider_id_ok (prov_id p)"
    for ps
    using that
  proof (induction ps)
    case (Cons p ps)
    have "distinct (enabled_models p)"
      using Cons.prems by (auto simp: models_consistent_def enabled_models_def distinct_map_filter)
    then have "distinct (map fst (overlay_entries p))"
      using Cons.prems by (simp add: overlay_entries_slugs distinct_map inj_on_def)
    moreover have "fst x \<noteq> fst y" if "x \<in> set (overlay_entries p)" "q \<in> set ps" "y \<in> set (overlay_entries q)" for x q y
    proof -
      from that Cons.prems obtain u v where
        "fst x = catalog_key (prov_id p) u" "fst y = catalog_key (prov_id q) v"
        using overlay_entries_slugs [of p] overlay_entries_slugs [of q]
        by (metis (no_types, lifting) image_iff list.set_intros(1,2) list.set_map)
      moreover have "prov_id p \<noteq> prov_id q" using that(2) Cons.prems by force
      ultimately show ?thesis using that(2) Cons.prems by (simp add: catalog_key_inject)
    qed
    ultimately show ?case using Cons by fastforce
  qed simp
  moreover have "distinct (map prov_id (filter prov_enabled (doc_providers doc)))"
    using valid by (auto simp: document_valid_def distinct_map_filter)
  ultimately show ?thesis
    using valid ids by (auto simp: overlay_of_def document_valid_def provider_valid_def document_ids_ok_def)
qed

lemma overlay_of_slugs:
  assumes "document_valid url_parse doc"
  shows "slug \<in> fst ` set (overlay_of doc) \<longleftrightarrow>
    (\<exists>p \<in> set (doc_providers doc). \<exists>u. publishes p u \<and> slug = catalog_key (prov_id p) u)"
proof -
  have "fst ` set (overlay_entries p) = catalog_key (prov_id p) ` set (enabled_models p)"
    if "p \<in> set (doc_providers doc)" for p
  proof -
    have "models_consistent (prov_id p) (prov_models p)"
      using assms that by (simp add: document_valid_def provider_valid_def)
    from overlay_entries_slugs [OF this] show ?thesis by (metis list.set_map)
  qed
  then show ?thesis
    by (auto simp: overlay_of_def publishes_def enabled_models_def image_UN)
qed

lemma overlay_of_entry: "e \<in> set (overlay_of doc) \<Longrightarrow> str_at (snd e) ''slug'' = Some (fst e)"
  by (auto simp: overlay_of_def overlay_entries_def render_model_def Let_def str_at_def map_get_Cons)

section \<open>The catalog and the router\<close>

lemma resolve_third_party_iff:
  assumes "document_ids_ok doc"
  shows "(\<exists>q m. resolve \<lparr>routes = published_routes doc\<rparr> slug = ThirdParty q m) \<longleftrightarrow>
    (\<exists>p \<in> set (doc_providers doc). \<exists>u. publishes p u \<and> slug = catalog_key (prov_id p) u)"
proof -
  have "(\<exists>q m. resolve \<lparr>routes = published_routes doc\<rparr> slug = ThirdParty q m) \<longleftrightarrow>
      (\<exists>r. bt_get (published_routes doc) slug = Some r)"
    by (auto simp: resolve_def split: option.splits)
  then show ?thesis using published_routes_get [OF assms] by auto
qed

text \<open>
  C17: The catalog and the router are built from the same documents and agree: one can be built exactly
  when the other can, the overlay lists each slug once and in order, every entry carries its slug, and
  a slug is listed exactly when the router sends it to a provider.
\<close>

theorem catalog_agrees_with_router:
  assumes "document_ids_ok doc"
  shows "((\<exists>overlay. overlay_from_documents url_parse doc cache = Inr overlay) \<longleftrightarrow>
      (\<exists>s. build_runtime_snapshot url_parse doc cache = Inr s)) \<and>
    (\<forall>overlay s. overlay_from_documents url_parse doc cache = Inr overlay \<and>
        build_runtime_snapshot url_parse doc cache = Inr s \<longrightarrow>
      sorted (map fst overlay) \<and> distinct (map fst overlay) \<and>
      (\<forall>(slug, model) \<in> set overlay. str_at model ''slug'' = Some slug) \<and>
      (\<forall>slug. slug \<in> fst ` set overlay \<longleftrightarrow> (\<exists>q m. resolve s slug = ThirdParty q m)))"
proof -
  have snap: "build_runtime_snapshot url_parse doc cache = Inr s \<longleftrightarrow>
      validate_document url_parse doc = Inr () \<and> model_cache_validate cache = Inr () \<and>
      s = \<lparr>routes = published_routes doc\<rparr>" for s
    using validate_document_valid [of url_parse doc]
    by (auto simp: build_runtime_snapshot_def snapshot_build_Inr)
  have over: "overlay_from_documents url_parse doc cache = Inr overlay \<longleftrightarrow>
      validate_document url_parse doc = Inr () \<and> model_cache_validate cache = Inr () \<and>
      overlay = sort_key fst (overlay_of doc)" for overlay
    using distinct_overlay_of [OF validate_document_valid assms] by (auto simp: overlay_from_documents_Inr)
  have slugs: "slug \<in> fst ` set (overlay_of doc) \<longleftrightarrow> (\<exists>q m. resolve \<lparr>routes = published_routes doc\<rparr> slug = ThirdParty q m)"
    if "validate_document url_parse doc = Inr ()" for slug
    using overlay_of_slugs [OF validate_document_valid [OF that]] resolve_third_party_iff [OF assms] by simp
  have "distinct (map fst (sort_key fst (overlay_of doc)))" if "validate_document url_parse doc = Inr ()"
    using distinct_overlay_of [OF validate_document_valid [OF that] assms]
    by (simp add: distinct_map inj_on_def)
  then show ?thesis
    by (simp add: snap over slugs) (auto simp: overlay_of_entry dest: overlay_of_entry)
qed

theorem catalog_agrees_with_router_witness:
  "\<exists>overlay s. overlay_from_documents example_url_parse usable_document example_cache = Inr overlay \<and>
     build_runtime_snapshot example_url_parse usable_document example_cache = Inr s \<and>
     ''a/m'' \<in> fst ` set overlay \<and> (\<exists>q m. resolve s ''a/m'' = ThirdParty q m)"
proof -
  note agrees = catalog_agrees_with_router [OF usable_document_ids, of example_url_parse example_cache]
  have "usable_provider \<in> set (doc_providers usable_document)"
    by (simp add: usable_document_def)
  moreover have "publishes usable_provider (ModelId ''m'')"
    by (simp add: publishes_def usable_provider_def example_provider_def example_model_def)
  moreover have "''a/m'' = catalog_key (prov_id usable_provider) (ModelId ''m'')"
    by (simp add: for_provider_def usable_provider_def example_provider_def)
  ultimately have slug: "''a/m'' \<in> fst ` set (overlay_of usable_document)"
    unfolding overlay_of_slugs [OF validate_document_valid [OF usable_document_validated]] by blast
  have over: "overlay_from_documents example_url_parse usable_document example_cache =
      Inr (sort_key fst (overlay_of usable_document))"
    using distinct_overlay_of [OF validate_document_valid [OF usable_document_validated] usable_document_ids]
    by (simp add: overlay_from_documents_Inr usable_document_validated example_cache_valid)
  then obtain s where built: "build_runtime_snapshot example_url_parse usable_document example_cache = Inr s"
    using agrees [THEN conjunct1] by metis
  from agrees [THEN conjunct2, rule_format, OF conjI, OF over built]
  have "\<exists>q m. resolve s ''a/m'' = ThirdParty q m" using slug by (metis set_sort)
  moreover from slug have "''a/m'' \<in> fst ` set (sort_key fst (overlay_of usable_document))" by (simp only: set_sort)
  ultimately show ?thesis using over built by metis
qed

section \<open>The merged catalog\<close>

lemma push_private_Inr:
  "try_fold (push_private variables) s overlay = Inr t \<longleftrightarrow>
     distinct (map fst overlay) \<and> fst s \<inter> fst ` set overlay = {} \<and>
     t = (fst s \<union> fst ` set overlay, snd s @ map (\<lambda>e. apply_personality_variables variables (snd e)) overlay)"
  by (subst try_fold_distinct [where key = fst and g = "\<lambda>e. apply_personality_variables variables (snd e)"
        and err = "\<lambda>e. InvalidCodexCatalog (''duplicate catalog model slug '' @ fst e)"])
    (auto simp: push_private_def split: prod.splits)

lemma jget_jset: "v = JObject m \<Longrightarrow> jget (jset k w v) k' = (if k' = k then Some w else jget v k')"
  by (simp add: jset_def)

lemma array_at_object: "array_at v k = Some xs \<Longrightarrow> \<exists>m. v = JObject m"
  by (auto simp: array_at_def jget_Some bind_eq_Some_conv)

text \<open>What the personality of the official catalog changes in a rendered model.\<close>

lemma personality_model:
  assumes "model = render_model name spec"
  shows "pointer2 ''model_messages'' ''instructions_variables'' (apply_personality_variables variables model) = Some variables \<and>
    str_at (apply_personality_variables variables model) ''base_instructions'' =
      Some (str_replace personality_slot (unwrap_or (str_at variables ''personality_default'') []) (instructions_template spec)) \<and>
    (\<forall>k. k \<noteq> ''model_messages'' \<and> k \<noteq> ''base_instructions'' \<longrightarrow>
      jget (apply_personality_variables variables model) k = jget model k)"
proof -
  obtain m where m: "model = JObject m" by (simp add: assms render_model_def Let_def)
  have "\<exists>mm. jget model ''model_messages'' = Some (JObject mm) \<and>
      map_get mm ''instructions_template'' = Some (JString (instructions_template spec))"
    by (simp add: assms render_model_def Let_def map_get_Cons)
  then obtain mm where mm: "map_get m ''model_messages'' = Some (JObject mm)"
    "map_get mm ''instructions_template'' = Some (JString (instructions_template spec))"
    by (auto simp: m)
  then have template: "pointer2 ''model_messages'' ''instructions_template'' model = Some (JString (instructions_template spec))"
    by (simp add: pointer2_def m)
  show ?thesis
    by (simp add: apply_personality_variables_def template Let_def)
      (simp add: m jset_def pointer2_def str_at_def jindex_def as_str_def mm)
qed

text \<open>
  C18: A compiled catalog is the official document with the private models appended to its models: every
  other field and every official model stays as it is, the private slugs are new, in order and each
  there once, and each private model is the rendering of an enabled model of an enabled provider
  with the personality of the official catalog filled in; the counts and the hash are those of the result.
\<close>

theorem compiled_catalog_spec:
  assumes "compile_catalog c pretty sha256_hex url_parse official doc cache = Inr cc"
  shows "\<exists>document models private out body.
    parse c official = Inr document \<and> array_at document ''models'' = Some models \<and>
    array_at out ''models'' = Some (models @ private) \<and> (\<forall>k. k \<noteq> ''models'' \<longrightarrow> jget out k = jget document k) \<and>
    pretty out = Inr body \<and> cc_bytes cc = body @ [CHR 0x0A] \<and> cc_sha256 cc = ''sha256:'' @ sha256_hex (cc_bytes cc) \<and>
    cc_official_models cc = length models \<and> cc_third_party_models cc = length private \<and>
    (\<exists>slugs. map (\<lambda>m. str_at m ''slug'') private = map Some slugs \<and> sorted slugs \<and> distinct slugs \<and>
      set slugs \<inter> official_slugs models = {}) \<and>
    (\<forall>m \<in> set private. \<exists>p \<in> set (doc_providers doc). \<exists>spec \<in> set (prov_models p).
      prov_enabled p \<and> spec_enabled spec \<and>
      m = apply_personality_variables (personality_variables_from_official models) (render_model (prov_name p) spec))"
proof -
  from assms obtain overlay where over: "overlay_from_documents url_parse doc cache = Inr overlay"
    and merge: "overlay_merge c pretty sha256_hex overlay official = Inr cc"
    by (auto simp: compile_catalog_def)
  from merge obtain document models merged body where
    doc: "parse c official = Inr document" "array_at document ''models'' = Some models"
    and dist: "distinct (map fst overlay)" "official_slugs models \<inter> fst ` set overlay = {}"
    and merged: "merged = models @ map (\<lambda>e. apply_personality_variables (personality_variables_from_official models) (snd e)) overlay"
    and body: "pretty (jset ''models'' (JArray merged) document) = Inr body"
    and cc: "cc = \<lparr>cc_bytes = body @ [CHR 0x0A], cc_sha256 = ''sha256:'' @ sha256_hex (body @ [CHR 0x0A]),
      cc_official_models = length models, cc_third_party_models = length overlay\<rparr>"
    by (auto simp: overlay_merge_def push_private_Inr Let_def)
  let ?vars = "personality_variables_from_official models"
  let ?private = "map (\<lambda>e. apply_personality_variables ?vars (snd e)) overlay"
  from over have overlay: "overlay = sort_key fst (overlay_of doc)" by (simp add: overlay_from_documents_Inr)
  have rendered: "\<exists>p \<in> set (doc_providers doc). \<exists>spec \<in> set (prov_models p).
      prov_enabled p \<and> spec_enabled spec \<and> snd e = render_model (prov_name p) spec \<and> str_at (snd e) ''slug'' = Some (fst e)"
    if "e \<in> set overlay" for e
    using that overlay_of_entry [of e doc] by (auto simp: overlay overlay_of_def overlay_entries_def) blast
  have slug: "str_at (apply_personality_variables ?vars (snd e)) ''slug'' = Some (fst e)" if "e \<in> set overlay" for e
    using rendered [OF that] personality_model [of "snd e"] by (auto simp: str_at_def)
  obtain m where m: "document = JObject m" using doc(2) array_at_object by blast
  have "sorted (map fst overlay)" by (simp add: overlay)
  with dist have slugs: "\<exists>slugs. map (\<lambda>m. str_at m ''slug'') ?private = map Some slugs \<and> sorted slugs \<and> distinct slugs \<and>
      set slugs \<inter> official_slugs models = {}"
    by (intro exI [of _ "map fst overlay"]) (auto simp: slug)
  have models_out: "array_at (jset ''models'' (JArray merged) document) ''models'' = Some (models @ ?private)"
    by (simp add: m jset_def array_at_def merged as_array_def)
  have fields: "\<forall>k. k \<noteq> ''models'' \<longrightarrow> jget (jset ''models'' (JArray merged) document) k = jget document k"
    by (simp add: m jset_def)
  have rendered_all: "\<forall>m \<in> set ?private. \<exists>p \<in> set (doc_providers doc). \<exists>spec \<in> set (prov_models p).
      prov_enabled p \<and> spec_enabled spec \<and> m = apply_personality_variables ?vars (render_model (prov_name p) spec)"
  proof
    fix m assume "m \<in> set ?private"
    then obtain e where "e \<in> set overlay" "m = apply_personality_variables ?vars (snd e)" by auto
    with rendered [OF this(1)] show "\<exists>p \<in> set (doc_providers doc). \<exists>spec \<in> set (prov_models p).
      prov_enabled p \<and> spec_enabled spec \<and> m = apply_personality_variables ?vars (render_model (prov_name p) spec)"
      by metis
  qed
  show ?thesis
    by (rule exI, rule exI, rule exI, rule exI, rule exI, intro conjI, rule doc(1), rule doc(2), rule models_out,
        rule fields, rule body, simp_all add: cc slugs [simplified] rendered_all [simplified])
qed

definition example_catalog_codec :: codec where
  "example_catalog_codec =
     \<lparr>parse = (\<lambda>_. Inr (JObject [(''models'', JArray [JObject [(''slug'', JString ''gpt'')]])])),
      to_vec = (\<lambda>_. Inr []), display = (\<lambda>_. [])\<rparr>"

theorem compiled_catalog_spec_witness:
  "\<exists>cc. compile_catalog example_catalog_codec (\<lambda>_. Inr ''{}'') (\<lambda>s. s) example_url_parse [] usable_document example_cache =
      Inr cc \<and> cc_official_models cc = 1 \<and> cc_bytes cc = ''{}'' @ [CHR 0x0A]"
proof -
  let ?overlay = "sort_key fst (overlay_of usable_document)"
  note valid = validate_document_valid [OF usable_document_validated]
  have distinct: "distinct (map fst (overlay_of usable_document))"
    by (rule distinct_overlay_of [OF valid usable_document_ids])
  then have over: "overlay_from_documents example_url_parse usable_document example_cache = Inr ?overlay"
    by (simp add: overlay_from_documents_Inr usable_document_validated example_cache_valid)
  have gpt: "CHR ''/'' \<notin> set ''gpt''" by simp
  have "''gpt'' \<notin> fst ` set (overlay_of usable_document)"
    unfolding overlay_of_slugs [OF valid] using for_provider_slash [of "prov_id _"]
    by (metis gpt)
  with distinct have "\<exists>cc. overlay_merge example_catalog_codec (\<lambda>_. Inr ''{}'') (\<lambda>s. s) ?overlay [] = Inr cc"
    by (auto simp: overlay_merge_def example_catalog_codec_def array_at_def map_get_Cons as_array_def push_private_Inr
        official_slugs_def List.map_filter_def str_at_def as_str_def Let_def distinct_map inj_on_def)
  then obtain cc where run: "compile_catalog example_catalog_codec (\<lambda>_. Inr ''{}'') (\<lambda>s. s) example_url_parse []
      usable_document example_cache = Inr cc"
    using over by (auto simp: compile_catalog_def)
  from compiled_catalog_spec [OF run] show ?thesis
    using run by (auto simp: example_catalog_codec_def array_at_def map_get_Cons as_array_def)
qed

end
