(* ===== verification/Refresh.thy ===== *)
theory Refresh
  imports Catalog
begin

text \<open>
  \<open>provider-x-catalog/src/manual_refresh.rs\<close> and \<open>model_registry.rs\<close>: the model cache a refresh of a provider
  proposes, the edits of the user to it, and the suggestions of the public model registry.

  A \<open>BTreeSet\<close> of identifiers is a list or a set, given back in the order of the identifiers.
\<close>

definition DISPLAY_NAME :: str where "DISPLAY_NAME = ''display_name''"
definition CONTEXT_WINDOW :: str where "CONTEXT_WINDOW = ''context_window''"
definition REASONING_LEVELS :: str where "REASONING_LEVELS = ''supported_reasoning_levels''"
definition PARALLEL_TOOLS :: str where "PARALLEL_TOOLS = ''supports_parallel_tool_calls''"
definition SEARCH_TOOL :: str where "SEARCH_TOOL = ''supports_search_tool''"

lemmas field_names = DISPLAY_NAME_def CONTEXT_WINDOW_def REASONING_LEVELS_def PARALLEL_TOOLS_def SEARCH_TOOL_def

record refresh_preview =
  preview_cache :: provider_model_cache
  preview_added :: "model_id list"
  preview_removed :: "model_id list"

record model_capability_settings =
  set_display_name :: str
  set_context_window :: "u64 option"
  set_reasoning_levels :: "str list"
  set_parallel_tool_calls :: bool
  set_search_tool :: bool

section \<open>Edits of the user\<close>

text \<open>\<open>iter_mut().find(p)\<close> and an update of what it finds.\<close>

fun update_first :: "('a \<Rightarrow> bool) \<Rightarrow> ('a \<Rightarrow> 'a) \<Rightarrow> 'a list \<Rightarrow> 'a list option" where
  "update_first p f [] = None"
| "update_first p f (x # xs) = (if p x then Some (f x # xs) else map_option ((#) x) (update_first p f xs))"

text \<open>\<open>filter(|x| seen.insert(x.clone()))\<close>: the first occurrence of each element.\<close>

fun keep_first :: "'a set \<Rightarrow> 'a list \<Rightarrow> 'a list" where
  "keep_first seen [] = []"
| "keep_first seen (x # xs) = (if x \<in> seen then keep_first seen xs else x # keep_first (insert x seen) xs)"

definition edit_model ::
  "(provider_model_spec \<Rightarrow> provider_model_spec) \<Rightarrow> refresh_preview \<Rightarrow> model_id \<Rightarrow> catalog_error + refresh_preview" where
  "edit_model f preview u =
     and_then (ok_or (PreviewModelNotFound (model_str u))
         (update_first (\<lambda>m. upstream_model_id m = u) f (cache_models (preview_cache preview)))) (\<lambda>models.
     Inr (preview\<lparr>preview_cache := (preview_cache preview)\<lparr>cache_models := models\<rparr>\<rparr>))"

definition confirm_settings :: "str \<Rightarrow> str list \<Rightarrow> model_capability_settings \<Rightarrow> provider_model_spec \<Rightarrow> provider_model_spec" where
  "confirm_settings display_name levels settings model =
     model\<lparr>spec_display_name := display_name, spec_context_window := set_context_window settings,
           spec_reasoning_levels := levels,
           spec_parallel_tool_calls := Some (set_parallel_tool_calls settings),
           spec_search_tool := Some (set_search_tool settings),
           spec_metadata_sources :=
             fold (\<lambda>field. bt_insert field UserConfirmed)
               [DISPLAY_NAME, CONTEXT_WINDOW, REASONING_LEVELS, PARALLEL_TOOLS, SEARCH_TOOL]
               (spec_metadata_sources model)\<rparr>"

definition update_model_capabilities ::
  "refresh_preview \<Rightarrow> model_id \<Rightarrow> model_capability_settings \<Rightarrow> catalog_error + refresh_preview" where
  "update_model_capabilities preview u settings =
     (let display_name = trim (set_display_name settings) in
      if display_name = [] then Inl EmptyModelDisplayName
      else
        (let levels = keep_first {} (filter (\<lambda>l. l \<noteq> []) (map trim (set_reasoning_levels settings)))
         in edit_model (confirm_settings display_name levels settings) preview u))"

definition set_model_enabled :: "refresh_preview \<Rightarrow> model_id \<Rightarrow> bool \<Rightarrow> catalog_error + refresh_preview" where
  "set_model_enabled preview u enabled = edit_model (\<lambda>m. m\<lparr>spec_enabled := enabled\<rparr>) preview u"

section \<open>The preview of a refresh\<close>

definition is_user_confirmed :: "provider_model_spec option \<Rightarrow> str \<Rightarrow> bool" where
  "is_user_confirmed old field \<longleftrightarrow>
     Option.bind old (\<lambda>m. bt_get (spec_metadata_sources m) field) = Some UserConfirmed"

text \<open>\<open>choose_copy\<close>; \<open>choose_string\<close> and \<open>choose_vec\<close> differ in where the old value comes from.\<close>

definition choose_copy ::
  "str \<Rightarrow> 'a option \<Rightarrow> 'a option \<Rightarrow> provider_model_spec option \<Rightarrow> (str, metadata_source) btree \<Rightarrow>
   'a option \<times> (str, metadata_source) btree" where
  "choose_copy field discovered previous old sources =
     (if is_user_confirmed old field then (previous, bt_insert field UserConfirmed sources)
      else (discovered, if discovered \<noteq> None then bt_insert field ProviderModels sources else sources))"

definition choose_string ::
  "str \<Rightarrow> str option \<Rightarrow> provider_model_spec option \<Rightarrow> (str, metadata_source) btree \<Rightarrow>
   str option \<times> (str, metadata_source) btree" where
  "choose_string field discovered old sources =
     choose_copy field discovered (map_option spec_display_name old) old sources"

definition choose_vec ::
  "str \<Rightarrow> str list option \<Rightarrow> provider_model_spec option \<Rightarrow> (str, metadata_source) btree \<Rightarrow>
   str list option \<times> (str, metadata_source) btree" where
  "choose_vec field discovered old sources =
     choose_copy field discovered (map_option spec_reasoning_levels old) old sources"

definition refresh_merge_model ::
  "provider_config \<Rightarrow> model_id \<Rightarrow> discovered_model \<Rightarrow> provider_model_spec option \<Rightarrow> provider_model_spec" where
  "refresh_merge_model p u discovered old =
     (let (name, sources) = choose_string DISPLAY_NAME (dm_display_name discovered) old [];
          (context_window, sources) = choose_copy CONTEXT_WINDOW (dm_context_window discovered)
            (Option.bind old spec_context_window) old sources;
          (levels, sources) = choose_vec REASONING_LEVELS (dm_reasoning_levels discovered) old sources;
          (parallel, sources) = choose_copy PARALLEL_TOOLS (dm_parallel_tool_calls discovered)
            (Option.bind old spec_parallel_tool_calls) old sources;
          (search, sources) = choose_copy SEARCH_TOOL (dm_search_tool discovered)
            (Option.bind old spec_search_tool) old sources
      in \<lparr>upstream_model_id = u, spec_catalog_id = for_provider (prov_id p) u,
          spec_display_name = unwrap_or name (model_str u),
          spec_enabled = (case old of None \<Rightarrow> False | Some m \<Rightarrow> spec_enabled m),
          spec_context_window = context_window, spec_reasoning_levels = unwrap_or levels [],
          spec_parallel_tool_calls = parallel, spec_search_tool = search,
          spec_metadata_sources = sources\<rparr>)"

text \<open>The map of the models of the cache; a later model replaces an earlier one.\<close>

definition previous_models :: "provider_model_cache option \<Rightarrow> model_id \<Rightarrow> provider_model_spec option" where
  "previous_models existing =
     (case existing of
        None \<Rightarrow> (\<lambda>_. None)
      | Some cache \<Rightarrow> map_of (rev (map (\<lambda>m. (upstream_model_id m, m)) (cache_models cache))))"

definition previous_ids :: "provider_model_cache option \<Rightarrow> model_id list" where
  "previous_ids existing =
     (case existing of None \<Rightarrow> [] | Some cache \<Rightarrow> map upstream_model_id (cache_models cache))"

definition ids_difference :: "model_id list \<Rightarrow> model_id list \<Rightarrow> model_id list" where
  "ids_difference xs ys = sort_key model_str (remdups (filter (\<lambda>u. u \<notin> set ys) xs))"

definition refresh_model ::
  "provider_config \<Rightarrow> provider_model_cache option \<Rightarrow> model_id list \<times> provider_model_spec list \<Rightarrow> discovered_model \<Rightarrow>
   catalog_error + model_id list \<times> provider_model_spec list" where
  "refresh_model p existing = (\<lambda>(ids, models) d.
     and_then (map_err CatalogCore (model_id_new (dm_id d))) (\<lambda>u.
     if u \<in> set ids then Inr (ids, models)
     else Inr (ids @ [u], models @ [refresh_merge_model p u d (previous_models existing u)])))"

definition build_refresh_preview ::
  "codec \<Rightarrow> (str \<Rightarrow> str) \<Rightarrow> url_parser \<Rightarrow> provider_config \<Rightarrow> discovered_model list \<Rightarrow> provider_model_cache option \<Rightarrow>
   str \<Rightarrow> catalog_error + refresh_preview" where
  "build_refresh_preview c sha256_hex url_parse p discovered existing refreshed_at =
     and_then (map_err CatalogProvider (validate_provider url_parse p)) (\<lambda>_.
     and_then (try_fold (refresh_model p existing) ([], []) discovered) (\<lambda>(new_ids, models).
       let models = sort_key (model_str \<circ> upstream_model_id) models;
           old_ids = previous_ids existing;
           profile = resolve_provider sha256_hex p in
       and_then (map_err CatalogProvider (profile_routing_fingerprint c sha256_hex profile)) (\<lambda>fingerprint.
       Inr \<lparr>preview_cache = \<lparr>config_fingerprint = fingerprint, last_successful_refresh_at = refreshed_at,
                             cache_source = model_source profile, cache_models = models\<rparr>,
            preview_added = ids_difference new_ids old_ids,
            preview_removed = ids_difference old_ids new_ids\<rparr>)))"

section \<open>The model registry\<close>

definition MODEL_REGISTRY_URL :: str where "MODEL_REGISTRY_URL = ''https://models.dev/api.json''"

definition MODEL_REGISTRY_SCHEMA_VERSION :: "32 word" where "MODEL_REGISTRY_SCHEMA_VERSION = 1"

record model_registry_cache =
  mrc_schema_version :: "32 word"
  mrc_source_url :: str
  mrc_fetched_at :: str
  mrc_etag :: "str option"
  mrc_payload :: json

definition registry_validate :: "model_registry_cache \<Rightarrow> catalog_error + unit" where
  "registry_validate cache =
     (if mrc_schema_version cache \<noteq> MODEL_REGISTRY_SCHEMA_VERSION
      then Inl (InvalidModelRegistry ''unsupported cache schema version'')
      else if mrc_source_url cache \<noteq> MODEL_REGISTRY_URL
      then Inl (InvalidModelRegistry ''unexpected registry source URL'')
      else if as_object (mrc_payload cache) = None
      then Inl (InvalidModelRegistry ''registry payload must be an object'')
      else Inr ())"

text \<open>The levels of an option, then those of all options, each once.\<close>

definition effort_levels :: "json \<Rightarrow> str list" where
  "effort_levels opt =
     (case as_object opt of
        None \<Rightarrow> []
      | Some m \<Rightarrow>
          if Option.bind (map_get m ''type'') as_str \<noteq> Some ''effort'' then []
          else
            (case Option.bind (map_get m ''values'') as_array of
               None \<Rightarrow> []
             | Some vs \<Rightarrow> filter (\<lambda>l. l \<noteq> []) (map trim (List.map_filter as_str vs))))"

definition registry_reasoning_levels :: "jmap \<Rightarrow> str list" where
  "registry_reasoning_levels registry =
     (case Option.bind (map_get registry ''reasoning_options'') as_array of
        None \<Rightarrow> []
      | Some opts \<Rightarrow> keep_first {} (concat (map effort_levels opts)))"

definition mark_registry_source :: "str \<Rightarrow> provider_model_spec \<Rightarrow> provider_model_spec" where
  "mark_registry_source field model =
     model\<lparr>spec_metadata_sources := bt_insert field ModelRegistry (spec_metadata_sources model)\<rparr>"

text \<open>The three steps of \<open>apply_model_suggestion\<close>; each tells whether it changed the model.\<close>

definition suggest_name :: "jmap \<Rightarrow> provider_model_spec \<Rightarrow> bool \<times> provider_model_spec" where
  "suggest_name registry model =
     (case Option.bind (map_get registry ''name'') as_str of
        Some name \<Rightarrow>
          if \<not> bt_has (spec_metadata_sources model) DISPLAY_NAME \<and> trim name \<noteq> []
          then (True, mark_registry_source DISPLAY_NAME (model\<lparr>spec_display_name := trim name\<rparr>))
          else (False, model)
      | None \<Rightarrow> (False, model))"

definition suggest_context :: "jmap \<Rightarrow> provider_model_spec \<Rightarrow> bool \<times> provider_model_spec" where
  "suggest_context registry model =
     (case Option.bind (Option.bind (map_get registry ''limit'') as_object)
             (\<lambda>limit. Option.bind (map_get limit ''context'') as_u64) of
        Some context \<Rightarrow>
          if spec_context_window model = None \<and> 0 < context
          then (True, mark_registry_source CONTEXT_WINDOW (model\<lparr>spec_context_window := Some context\<rparr>))
          else (False, model)
      | None \<Rightarrow> (False, model))"

definition suggest_levels :: "jmap \<Rightarrow> provider_model_spec \<Rightarrow> bool \<times> provider_model_spec" where
  "suggest_levels registry model =
     (let levels = registry_reasoning_levels registry in
      if spec_reasoning_levels model = [] \<and> levels \<noteq> []
      then (True, mark_registry_source REASONING_LEVELS (model\<lparr>spec_reasoning_levels := levels\<rparr>))
      else (False, model))"

definition apply_model_suggestion :: "jmap \<Rightarrow> provider_model_spec \<Rightarrow> bool \<times> provider_model_spec" where
  "apply_model_suggestion registry model =
     (let (a, model) = suggest_name registry model;
          (b, model) = suggest_context registry model;
          (d, model) = suggest_levels registry model
      in (a \<or> b \<or> d, model))"

definition suggest_for :: "jmap \<Rightarrow> provider_model_spec \<Rightarrow> bool \<times> provider_model_spec" where
  "suggest_for models model =
     (let model_id = model_str (upstream_model_id model) in
      case Option.bind (map_get models model_id) as_object of
        None \<Rightarrow> (False, model)
      | Some registry_model \<Rightarrow>
          (case Option.bind (map_get registry_model ''id'') as_str of
             Some identifier \<Rightarrow>
               if identifier \<noteq> model_id then (False, model) else apply_model_suggestion registry_model model
           | None \<Rightarrow> apply_model_suggestion registry_model model))"

definition registry_models :: "str \<Rightarrow> model_registry_cache \<Rightarrow> jmap option" where
  "registry_models registry_provider_id cache =
     Option.bind (jget (mrc_payload cache) registry_provider_id) (\<lambda>entry.
       case str_at entry ''id'' of
         Some identifier \<Rightarrow>
           if identifier \<noteq> registry_provider_id then None else Option.bind (jget entry ''models'') as_object
       | None \<Rightarrow> Option.bind (jget entry ''models'') as_object)"

definition apply_registry_suggestions ::
  "(str \<Rightarrow> str) \<Rightarrow> provider_config \<Rightarrow> refresh_preview \<Rightarrow> model_registry_cache \<Rightarrow>
   (catalog_error + model_id list) \<times> refresh_preview" where
  "apply_registry_suggestions sha256_hex p preview cache =
     (case registry_validate cache of
        Inl e \<Rightarrow> (Inl e, preview)
      | Inr _ \<Rightarrow>
          (case registry_models
                  (unwrap_or (prof_models_dev_id (resolve_provider sha256_hex p)) (provider_str (prov_id p))) cache of
             None \<Rightarrow> (Inr [], preview)
           | Some models \<Rightarrow>
               (let results = map (suggest_for models) (cache_models (preview_cache preview)) in
                (Inr (map (upstream_model_id \<circ> snd) (filter fst results)),
                 preview\<lparr>preview_cache := (preview_cache preview)\<lparr>cache_models := map snd results\<rparr>\<rparr>))))"

section \<open>The models of a preview\<close>

lemma set_keep_first: "set (keep_first seen xs) = set xs - seen"
  by (induction xs arbitrary: seen) auto

lemma distinct_keep_first: "distinct (keep_first seen xs)"
  by (induction xs arbitrary: seen) (auto simp: set_keep_first)

definition reported_ids :: "discovered_model list \<Rightarrow> model_id list" where
  "reported_ids discovered = map (\<lambda>d. ModelId (dm_id d)) discovered"

definition report_of :: "discovered_model list \<Rightarrow> model_id \<Rightarrow> discovered_model" where
  "report_of discovered u = the (find (\<lambda>d. ModelId (dm_id d) = u) discovered)"

definition refreshed_model ::
  "provider_config \<Rightarrow> discovered_model list \<Rightarrow> provider_model_cache option \<Rightarrow> model_id \<Rightarrow> provider_model_spec" where
  "refreshed_model p discovered existing u =
     refresh_merge_model p u (report_of discovered u) (previous_models existing u)"

lemma refresh_loop:
  assumes "try_fold (refresh_model p existing) (ids, models) ds = Inr t"
  shows "t = (ids @ keep_first (set ids) (reported_ids ds),
              models @ map (refreshed_model p ds existing) (keep_first (set ids) (reported_ids ds)))"
  using assms
proof (induction ds arbitrary: ids models)
  case Nil
  then show ?case by (simp add: reported_ids_def)
next
  case (Cons d ds)
  let ?u = "ModelId (dm_id d)"
  from Cons.prems have new: "model_id_new (dm_id d) = Inr ?u"
    by (auto simp: refresh_model_def model_id_new_Inr)
  have later: "map (refreshed_model p (d # ds) existing) (keep_first (insert ?u (set ids)) (reported_ids ds)) =
      map (refreshed_model p ds existing) (keep_first (insert ?u (set ids)) (reported_ids ds))" for ids
    by (auto simp: refreshed_model_def report_of_def set_keep_first)
  show ?case
  proof (cases "?u \<in> set ids")
    case True
    with Cons.prems new have "try_fold (refresh_model p existing) (ids, models) ds = Inr t"
      by (simp add: refresh_model_def)
    from Cons.IH [OF this] True later [of ids] show ?thesis by (simp add: reported_ids_def insert_absorb)
  next
    case False
    with Cons.prems new have "try_fold (refresh_model p existing)
        (ids @ [?u], models @ [refresh_merge_model p ?u d (previous_models existing ?u)]) ds = Inr t"
      by (simp add: refresh_model_def)
    from Cons.IH [OF this] False later [of ids] show ?thesis
      by (simp add: reported_ids_def refreshed_model_def report_of_def)
  qed
qed

lemma refreshed_model_ids [simp]:
  "upstream_model_id (refreshed_model p ds existing u) = u"
  "spec_catalog_id (refreshed_model p ds existing u) = for_provider (prov_id p) u"
  by (simp_all add: refreshed_model_def refresh_merge_model_def split: prod.splits)

lemma build_refresh_preview_Inr:
  assumes "build_refresh_preview c sha256_hex url_parse p discovered existing refreshed_at = Inr preview"
  defines "new \<equiv> keep_first {} (reported_ids discovered)"
  shows "validate_provider url_parse p = Inr () \<and>
    cache_models (preview_cache preview) =
      sort_key (model_str \<circ> upstream_model_id) (map (refreshed_model p discovered existing) new) \<and>
    preview_added preview = ids_difference new (previous_ids existing) \<and>
    preview_removed preview = ids_difference (previous_ids existing) new \<and>
    cache_source (preview_cache preview) = model_source (resolve_provider sha256_hex p) \<and>
    profile_routing_fingerprint c sha256_hex (resolve_provider sha256_hex p) = Inr (config_fingerprint (preview_cache preview))"
  using assms(1) refresh_loop [of p existing "[]" "[]" discovered]
  by (auto simp: build_refresh_preview_def Let_def new_def)

lemma ids_difference_spec: "set (ids_difference xs ys) = set xs - set ys" "distinct (ids_difference xs ys)"
  "sorted (map model_str (ids_difference xs ys))"
  by (auto simp: ids_difference_def)

text \<open>
  C20: A refresh proposes exactly the models the provider reports, each once and in order, under the
  identifiers of that provider; every one is merged from its first report and from the model of the
  same identifier in the cache, and is enabled only if that one was. The identifiers that are new and
  those that are gone are listed in order, and the cache is accepted by the validation and by the
  fingerprint check of the same provider.
\<close>

theorem refresh_preview_consistent:
  assumes "build_refresh_preview c sha256_hex url_parse p discovered existing refreshed_at = Inr preview"
  shows "let models = cache_models (preview_cache preview); new = set (map upstream_model_id models);
             old = set (previous_ids existing) in
    new = set (reported_ids discovered) \<and> sorted (map (model_str \<circ> upstream_model_id) models) \<and>
    check_models (prov_id p) models = Inr () \<and>
    (\<forall>m \<in> set models. m = refresh_merge_model p (upstream_model_id m) (report_of discovered (upstream_model_id m))
        (previous_models existing (upstream_model_id m)) \<and>
      (spec_enabled m \<longleftrightarrow> (\<exists>o'. previous_models existing (upstream_model_id m) = Some o' \<and> spec_enabled o'))) \<and>
    set (preview_added preview) = new - old \<and> distinct (preview_added preview) \<and>
    set (preview_removed preview) = old - new \<and> distinct (preview_removed preview) \<and>
    cache_fingerprint_matches c sha256_hex p (config_fingerprint (preview_cache preview)) = Inr True"
proof -
  let ?new = "keep_first {} (reported_ids discovered)"
  note built = build_refresh_preview_Inr [OF assms]
  have "distinct (map upstream_model_id (sort_key (model_str \<circ> upstream_model_id)
      (map (refreshed_model p discovered existing) ?new)))"
    using distinct_keep_first [of "{}" "reported_ids discovered"]
    by (auto simp: distinct_map inj_on_def) (metis refreshed_model_ids(1))
  then have "models_consistent (prov_id p) (cache_models (preview_cache preview))"
    using built by (auto simp: models_consistent_def)
  moreover have "spec_enabled (refreshed_model p discovered existing u) \<longleftrightarrow>
      (\<exists>o'. previous_models existing u = Some o' \<and> spec_enabled o')" for u
    by (cases "previous_models existing u") (simp_all add: refreshed_model_def refresh_merge_model_def split: prod.splits)
  moreover have "set (map upstream_model_id (cache_models (preview_cache preview))) = set (reported_ids discovered)"
    using built by (auto simp: set_keep_first image_iff)
  ultimately show ?thesis
    using built
    by (simp add: Let_def check_models_iff ids_difference_spec set_keep_first cache_fingerprint_matches_def)
      (auto simp: refreshed_model_def set_keep_first)
qed

definition example_report :: discovered_model where
  "example_report = \<lparr>dm_id = ''m'', dm_display_name = Some ''Model'', dm_context_window = None,
     dm_reasoning_levels = None, dm_parallel_tool_calls = None, dm_search_tool = None\<rparr>"

lemma example_model_id: "model_id_new ''m'' = Inr (ModelId ''m'')"
  by (simp add: model_id_new_def trim_def trim_end_def ws1_def)

lemma example_refresh:
  "\<exists>preview. build_refresh_preview example_catalog_codec (\<lambda>s. s) example_url_parse usable_provider [example_report]
     existing at = Inr preview"
  by (simp add: build_refresh_preview_def usable_provider_validated refresh_model_def example_report_def
      example_model_id profile_routing_fingerprint_def example_catalog_codec_def Let_def)

theorem refresh_preview_consistent_witness:
  "\<exists>preview. build_refresh_preview example_catalog_codec (\<lambda>s. s) example_url_parse usable_provider [example_report]
     None ''now'' = Inr preview \<and> set (preview_added preview) = {ModelId ''m''} \<and>
     check_models (ProviderId ''a'') (cache_models (preview_cache preview)) = Inr ()"
proof -
  obtain preview where run: "build_refresh_preview example_catalog_codec (\<lambda>s. s) example_url_parse usable_provider
      [example_report] None ''now'' = Inr preview"
    using example_refresh by blast
  have "prov_id usable_provider = ProviderId ''a''" by (simp add: usable_provider_def example_provider_def)
  with refresh_preview_consistent [OF run] run show ?thesis
    by (auto simp: Let_def reported_ids_def example_report_def previous_ids_def)
qed

section \<open>Edits and the next refresh\<close>

lemma update_first_Some:
  "update_first p f xs = Some ys \<Longrightarrow> \<exists>a x b. xs = a @ x # b \<and> p x \<and> (\<forall>y \<in> set a. \<not> p y) \<and> ys = a @ f x # b"
proof (induction xs arbitrary: ys)
  case (Cons x xs)
  show ?case
  proof (cases "p x")
    case True
    with Cons.prems show ?thesis by (intro exI [of _ "[]"]) auto
  next
    case False
    with Cons.prems obtain zs where "update_first p f xs = Some zs" "ys = x # zs" by auto
    with Cons.IH [of zs] obtain a y b where "xs = a @ y # b" "p y" "\<forall>z \<in> set a. \<not> p z" "zs = a @ f y # b" by auto
    with False \<open>ys = x # zs\<close> show ?thesis by (intro exI [of _ "x # a"]) auto
  qed
qed simp

lemma edit_model_Inr:
  assumes "edit_model f preview u = Inr edited"
  shows "\<exists>a m b. cache_models (preview_cache preview) = a @ m # b \<and> upstream_model_id m = u \<and>
    cache_models (preview_cache edited) = a @ f m # b \<and>
    edited = preview\<lparr>preview_cache := (preview_cache preview)\<lparr>cache_models := a @ f m # b\<rparr>\<rparr>"
proof -
  from assms(1) obtain models where "update_first (\<lambda>m. upstream_model_id m = u) f (cache_models (preview_cache preview)) = Some models"
    and "edited = preview\<lparr>preview_cache := (preview_cache preview)\<lparr>cache_models := models\<rparr>\<rparr>"
    by (auto simp: edit_model_def)
  with update_first_Some [OF this(1)] show ?thesis by fastforce
qed

lemma previous_models_at:
  assumes "cache_models cache = a @ m # b" and "distinct (map upstream_model_id (cache_models cache))"
  shows "previous_models (Some cache) (upstream_model_id m) = Some m"
proof -
  have "map_of (rev (map (\<lambda>m. (upstream_model_id m, m)) b)) (upstream_model_id m) = None"
    using assms by (auto simp: map_of_eq_None_iff rev_map [symmetric])
  with assms show ?thesis by (auto simp: previous_models_def map_add_def)
qed

lemma confirmed_after_edit:
  "is_user_confirmed (Some (confirm_settings name levels settings m)) DISPLAY_NAME"
  "is_user_confirmed (Some (confirm_settings name levels settings m)) CONTEXT_WINDOW"
  "is_user_confirmed (Some (confirm_settings name levels settings m)) REASONING_LEVELS"
  "is_user_confirmed (Some (confirm_settings name levels settings m)) PARALLEL_TOOLS"
  "is_user_confirmed (Some (confirm_settings name levels settings m)) SEARCH_TOOL"
  by (simp_all add: is_user_confirmed_def confirm_settings_def)

text \<open>The merge with a model whose fields are all confirmed keeps them all.\<close>

lemma merge_confirmed:
  fixes name levels settings m
  defines "old \<equiv> confirm_settings name levels settings m"
  shows "refresh_merge_model p u d (Some old) =
    \<lparr>upstream_model_id = u, spec_catalog_id = for_provider (prov_id p) u, spec_display_name = name,
     spec_enabled = spec_enabled m, spec_context_window = set_context_window settings,
     spec_reasoning_levels = levels, spec_parallel_tool_calls = Some (set_parallel_tool_calls settings),
     spec_search_tool = Some (set_search_tool settings),
     spec_metadata_sources =
       fold (\<lambda>field. bt_insert field UserConfirmed)
         [DISPLAY_NAME, CONTEXT_WINDOW, REASONING_LEVELS, PARALLEL_TOOLS, SEARCH_TOOL] []\<rparr>"
  unfolding refresh_merge_model_def choose_string_def choose_vec_def choose_copy_def old_def
  by (simp add: confirmed_after_edit del: bt_insert.simps) (simp add: confirm_settings_def)

lemma upstream_confirm_settings [simp]:
  "upstream_model_id (confirm_settings name levels settings m) = upstream_model_id m"
  by (simp add: confirm_settings_def)

text \<open>
  C19: What the user set for a model survives the next refresh, whatever the provider reports, as long as
  it still reports the model: name, context window, reasoning levels and the two tool flags are those
  of the edit, the model is enabled as before, and all of these fields stay marked as confirmed.
\<close>

theorem edits_survive_refresh:
  assumes "update_model_capabilities preview u settings = Inr edited"
    and "build_refresh_preview c sha256_hex url_parse p discovered (Some (preview_cache edited)) at = Inr refreshed"
    and "distinct (map upstream_model_id (cache_models (preview_cache preview)))"
    and "u \<in> set (reported_ids discovered)"
  shows "\<exists>before \<in> set (cache_models (preview_cache preview)). \<exists>m \<in> set (cache_models (preview_cache refreshed)).
    upstream_model_id before = u \<and> upstream_model_id m = u \<and> spec_enabled m = spec_enabled before \<and>
    spec_display_name m = trim (set_display_name settings) \<and> spec_context_window m = set_context_window settings \<and>
    spec_reasoning_levels m = keep_first {} (filter (\<lambda>l. l \<noteq> []) (map trim (set_reasoning_levels settings))) \<and>
    spec_parallel_tool_calls m = Some (set_parallel_tool_calls settings) \<and>
    spec_search_tool m = Some (set_search_tool settings) \<and>
    (\<forall>field \<in> {DISPLAY_NAME, CONTEXT_WINDOW, REASONING_LEVELS, PARALLEL_TOOLS, SEARCH_TOOL}.
      is_user_confirmed (Some m) field)"
proof -
  let ?levels = "keep_first {} (filter (\<lambda>l. l \<noteq> []) (map trim (set_reasoning_levels settings)))"
  let ?f = "confirm_settings (trim (set_display_name settings)) ?levels settings"
  from assms(1) have "edit_model ?f preview u = Inr edited"
    by (simp add: update_model_capabilities_def Let_def split: if_splits)
  from edit_model_Inr [OF this] obtain a m b where
    before: "cache_models (preview_cache preview) = a @ m # b" "upstream_model_id m = u"
    and after: "cache_models (preview_cache edited) = a @ ?f m # b" by auto
  from before after assms(3) have "distinct (map upstream_model_id (cache_models (preview_cache edited)))" by simp
  from previous_models_at [OF after this] before have old: "previous_models (Some (preview_cache edited)) u = Some (?f m)"
    by simp
  let ?new = "refreshed_model p discovered (Some (preview_cache edited)) u"
  have "?new \<in> set (cache_models (preview_cache refreshed))"
    using build_refresh_preview_Inr [OF assms(2)] assms(4) by (simp add: set_keep_first)
  moreover have "spec_enabled ?new = spec_enabled m \<and> spec_display_name ?new = trim (set_display_name settings) \<and>
      spec_context_window ?new = set_context_window settings \<and> spec_reasoning_levels ?new = ?levels \<and>
      spec_parallel_tool_calls ?new = Some (set_parallel_tool_calls settings) \<and>
      spec_search_tool ?new = Some (set_search_tool settings) \<and>
      (\<forall>field \<in> {DISPLAY_NAME, CONTEXT_WINDOW, REASONING_LEVELS, PARALLEL_TOOLS, SEARCH_TOOL}.
        is_user_confirmed (Some ?new) field)"
    by (simp add: refreshed_model_def old merge_confirmed is_user_confirmed_def del: bt_insert.simps)
  ultimately show ?thesis using before by (intro bexI [of _ m] bexI [of _ ?new] conjI) simp_all
qed

definition example_settings :: model_capability_settings where
  "example_settings = \<lparr>set_display_name = ''Mine'', set_context_window = None, set_reasoning_levels = [],
     set_parallel_tool_calls = True, set_search_tool = False\<rparr>"

definition example_preview :: refresh_preview where
  "example_preview = \<lparr>preview_cache = \<lparr>config_fingerprint = [], last_successful_refresh_at = [],
       cache_source = \<lparr>source_protocol = OpenaiResponses, source_endpoint = []\<rparr>,
       cache_models = [example_model ''m'' True]\<rparr>,
     preview_added = [], preview_removed = []\<rparr>"

theorem edits_survive_refresh_witness:
  "\<exists>edited refreshed. update_model_capabilities example_preview (ModelId ''m'') example_settings = Inr edited \<and>
     build_refresh_preview example_catalog_codec (\<lambda>s. s) example_url_parse usable_provider [example_report]
       (Some (preview_cache edited)) ''now'' = Inr refreshed \<and>
     (\<exists>m \<in> set (cache_models (preview_cache refreshed)). spec_display_name m = ''Mine'' \<and> spec_enabled m)"
proof -
  have "\<exists>edited. update_model_capabilities example_preview (ModelId ''m'') example_settings = Inr edited"
    by (simp add: update_model_capabilities_def example_preview_def example_settings_def edit_model_def
        example_model_def trim_eval Let_def)
  then obtain edited where
    edit: "update_model_capabilities example_preview (ModelId ''m'') example_settings = Inr edited" ..
  obtain refreshed where run: "build_refresh_preview example_catalog_codec (\<lambda>s. s) example_url_parse usable_provider
      [example_report] (Some (preview_cache edited)) ''now'' = Inr refreshed"
    using example_refresh by blast
  have "trim ''Mine'' = ''Mine''" by (simp add: trim_eval)
  with edits_survive_refresh [OF edit run] edit run show ?thesis
    by (auto simp: example_preview_def example_model_def example_settings_def reported_ids_def example_report_def)
qed

section \<open>Suggestions of the registry\<close>

text \<open>What a suggestion may change in a model.\<close>

definition gaps_filled :: "provider_model_spec \<Rightarrow> provider_model_spec \<Rightarrow> bool" where
  "gaps_filled m m' \<longleftrightarrow>
     upstream_model_id m' = upstream_model_id m \<and> spec_catalog_id m' = spec_catalog_id m \<and>
     spec_enabled m' = spec_enabled m \<and> spec_parallel_tool_calls m' = spec_parallel_tool_calls m \<and>
     spec_search_tool m' = spec_search_tool m \<and>
     (bt_has (spec_metadata_sources m) DISPLAY_NAME \<longrightarrow> spec_display_name m' = spec_display_name m) \<and>
     (spec_context_window m \<noteq> None \<longrightarrow> spec_context_window m' = spec_context_window m) \<and>
     (spec_reasoning_levels m \<noteq> [] \<longrightarrow> spec_reasoning_levels m' = spec_reasoning_levels m) \<and>
     (spec_context_window m' = Some 0 \<longrightarrow> spec_context_window m = Some 0) \<and>
     (distinct (spec_reasoning_levels m) \<longrightarrow> distinct (spec_reasoning_levels m')) \<and>
     (\<forall>field. bt_get (spec_metadata_sources m') field \<noteq> bt_get (spec_metadata_sources m) field \<longrightarrow>
        bt_get (spec_metadata_sources m') field = Some ModelRegistry)"

lemma gaps_filled_refl: "gaps_filled m m"
  by (simp add: gaps_filled_def)

lemma gaps_filledD:
  assumes "gaps_filled m m'"
  shows "upstream_model_id m' = upstream_model_id m \<and> spec_catalog_id m' = spec_catalog_id m \<and>
      spec_enabled m' = spec_enabled m \<and> spec_parallel_tool_calls m' = spec_parallel_tool_calls m \<and>
      spec_search_tool m' = spec_search_tool m"
    and "bt_has (spec_metadata_sources m) DISPLAY_NAME \<Longrightarrow> spec_display_name m' = spec_display_name m"
    and "spec_context_window m \<noteq> None \<Longrightarrow> spec_context_window m' = spec_context_window m"
    and "spec_reasoning_levels m \<noteq> [] \<Longrightarrow> spec_reasoning_levels m' = spec_reasoning_levels m"
    and "spec_context_window m' = Some 0 \<Longrightarrow> spec_context_window m = Some 0"
    and "distinct (spec_reasoning_levels m) \<Longrightarrow> distinct (spec_reasoning_levels m')"
    and "bt_get (spec_metadata_sources m') field \<noteq> bt_get (spec_metadata_sources m) field \<Longrightarrow>
      bt_get (spec_metadata_sources m') field = Some ModelRegistry"
  using assms unfolding gaps_filled_def by blast+

lemma gaps_filled_trans:
  assumes ab: "gaps_filled a b" and bd: "gaps_filled b d"
    and keep: "bt_has (spec_metadata_sources a) DISPLAY_NAME \<longrightarrow> bt_has (spec_metadata_sources b) DISPLAY_NAME"
  shows "gaps_filled a d"
  unfolding gaps_filled_def
proof (intro conjI allI impI)
  show "spec_context_window d = spec_context_window a" if "spec_context_window a \<noteq> None"
    using gaps_filledD(3) [OF ab that] gaps_filledD(3) [OF bd] that by metis
  show "spec_reasoning_levels d = spec_reasoning_levels a" if "spec_reasoning_levels a \<noteq> []"
    using gaps_filledD(4) [OF ab that] gaps_filledD(4) [OF bd] that by metis
  show "spec_display_name d = spec_display_name a" if "bt_has (spec_metadata_sources a) DISPLAY_NAME"
    using gaps_filledD(2) [OF ab that] gaps_filledD(2) [OF bd] keep that by metis
  show "bt_get (spec_metadata_sources d) field = Some ModelRegistry"
    if "bt_get (spec_metadata_sources d) field \<noteq> bt_get (spec_metadata_sources a) field" for field
    using gaps_filledD(7) [OF ab, of field] gaps_filledD(7) [OF bd, of field] that by metis
qed (use gaps_filledD(1,5,6) [OF ab] gaps_filledD(1,5,6) [OF bd] in metis)+

lemma bt_has_mark [simp]:
  "bt_has (spec_metadata_sources (mark_registry_source field m)) k \<longleftrightarrow> k = field \<or> bt_has (spec_metadata_sources m) k"
  by (simp add: mark_registry_source_def)

lemma suggest_name_filled: "suggest_name registry m = (changed, m') \<Longrightarrow> gaps_filled m m' \<and> (\<not> changed \<longrightarrow> m' = m)"
  by (auto simp: suggest_name_def gaps_filled_def mark_registry_source_def split: option.splits if_splits)

lemma suggest_context_filled:
  "suggest_context registry m = (changed, m') \<Longrightarrow> gaps_filled m m' \<and> (\<not> changed \<longrightarrow> m' = m) \<and>
   (bt_has (spec_metadata_sources m) k \<longrightarrow> bt_has (spec_metadata_sources m') k)"
  by (auto simp: suggest_context_def gaps_filled_def mark_registry_source_def split: option.splits if_splits)

lemma suggest_levels_filled:
  "suggest_levels registry m = (changed, m') \<Longrightarrow> gaps_filled m m' \<and> (\<not> changed \<longrightarrow> m' = m)"
  by (auto simp: suggest_levels_def gaps_filled_def mark_registry_source_def registry_reasoning_levels_def
      distinct_keep_first Let_def split: option.splits if_splits)

lemma suggest_name_keeps:
  "suggest_name registry m = (changed, m') \<Longrightarrow> bt_has (spec_metadata_sources m) k \<Longrightarrow> bt_has (spec_metadata_sources m') k"
  by (auto simp: suggest_name_def split: option.splits if_splits)

lemma apply_model_suggestion_filled:
  assumes "apply_model_suggestion registry m = (changed, m')"
  shows "gaps_filled m m' \<and> (\<not> changed \<longrightarrow> m' = m)"
proof -
  obtain a m1 where a: "suggest_name registry m = (a, m1)" by (cases "suggest_name registry m")
  obtain b m2 where b: "suggest_context registry m1 = (b, m2)" by (cases "suggest_context registry m1")
  obtain d m3 where d: "suggest_levels registry m2 = (d, m3)" by (cases "suggest_levels registry m2")
  have m': "m' = m3" "changed = (a \<or> b \<or> d)"
    using assms by (simp_all add: apply_model_suggestion_def a b d)
  have "gaps_filled m m2"
    using gaps_filled_trans [of m m1 m2] suggest_name_filled [OF a] suggest_context_filled [OF b]
      suggest_name_keeps [OF a] by blast
  then have "gaps_filled m m3"
    using gaps_filled_trans [of m m2 m3] suggest_levels_filled [OF d] suggest_name_keeps [OF a]
      suggest_context_filled [OF b] by blast
  then show ?thesis
    using m' suggest_name_filled [OF a] suggest_context_filled [OF b] suggest_levels_filled [OF d] by auto
qed

lemma suggest_for_filled: "suggest_for models m = (changed, m') \<Longrightarrow> gaps_filled m m' \<and> (\<not> changed \<longrightarrow> m' = m)"
  by (auto simp: suggest_for_def gaps_filled_refl Let_def dest: apply_model_suggestion_filled
      split: option.splits if_splits)

text \<open>
  C21: The registry only fills gaps. A refused registry changes nothing; otherwise only the models of the
  preview change, each by at most a name that had no source, a context window that was missing and
  then is positive, and reasoning levels that were missing and then are distinct, with the registry
  as the source; identifiers, order, tool flags and what is enabled stay. The models reported as
  matched include every model that changed.
\<close>

theorem registry_fills_gaps:
  assumes "apply_registry_suggestions sha256_hex p preview cache = (r, preview')"
  shows "(case r of
      Inl e \<Rightarrow> preview' = preview \<and> registry_validate cache = Inl e
    | Inr matched \<Rightarrow>
        preview_added preview' = preview_added preview \<and> preview_removed preview' = preview_removed preview \<and>
        config_fingerprint (preview_cache preview') = config_fingerprint (preview_cache preview) \<and>
        list_all2 (\<lambda>m m'. gaps_filled m m' \<and> (m' \<noteq> m \<longrightarrow> upstream_model_id m \<in> set matched))
          (cache_models (preview_cache preview)) (cache_models (preview_cache preview')))"
proof (cases "registry_validate cache")
  case (Inl e)
  with assms show ?thesis by (auto simp: apply_registry_suggestions_def)
next
  case valid: (Inr x)
  let ?id = "unwrap_or (prof_models_dev_id (resolve_provider sha256_hex p)) (provider_str (prov_id p))"
  show ?thesis
  proof (cases "registry_models ?id cache")
    case None
    with assms valid show ?thesis
      by (auto simp: apply_registry_suggestions_def list_all2_same gaps_filled_refl)
  next
    case (Some models)
    have "gaps_filled m (snd (suggest_for models m)) \<and> (\<not> fst (suggest_for models m) \<longrightarrow> snd (suggest_for models m) = m)" for m
      by (cases "suggest_for models m") (simp add: suggest_for_filled)
    moreover from this have "upstream_model_id (snd (suggest_for models m)) = upstream_model_id m" for m
      by (auto simp: gaps_filled_def)
    ultimately have each: "gaps_filled m (snd (suggest_for models m)) \<and>
        (snd (suggest_for models m) \<noteq> m \<longrightarrow> upstream_model_id m \<in>
          (upstream_model_id \<circ> snd) ` set (filter fst (map (suggest_for models) ms)))" if "m \<in> set ms" for m ms
      using that by (auto intro!: image_eqI [where x = "suggest_for models m"])
    then show ?thesis
      using assms valid Some
      by (auto simp: apply_registry_suggestions_def Let_def list_all2_map2 intro!: list_all2_same [THEN iffD2])
  qed
qed

definition example_registry :: model_registry_cache where
  "example_registry = \<lparr>mrc_schema_version = 1, mrc_source_url = MODEL_REGISTRY_URL, mrc_fetched_at = ''now'',
     mrc_etag = None,
     mrc_payload = JObject [(''a'', JObject [(''models'', JObject [(''m'', JObject
       [(''limit'', JObject [(''context'', jnat 1000)])])])])]\<rparr>"

definition example_entry :: jmap where
  "example_entry = [(''limit'', JObject [(''context'', jnat 1000)])]"

lemma example_registry_models:
  "registry_models ''a'' example_registry = Some [(''m'', JObject example_entry)]"
  by (simp add: registry_models_def example_registry_def example_entry_def map_get_Cons str_at_def as_object_def)

lemma example_suggest_for:
  "suggest_for [(''m'', JObject example_entry)] (example_model ''m'' True) =
     (True, mark_registry_source CONTEXT_WINDOW ((example_model ''m'' True)\<lparr>spec_context_window := Some 1000\<rparr>))"
proof -
  have "suggest_name example_entry m = (False, m)" "suggest_levels example_entry m = (False, m)" for m
    by (simp_all add: suggest_name_def suggest_levels_def registry_reasoning_levels_def example_entry_def map_get_Cons)
  moreover have "suggest_context example_entry (example_model ''m'' True) =
      (True, mark_registry_source CONTEXT_WINDOW ((example_model ''m'' True)\<lparr>spec_context_window := Some 1000\<rparr>))"
    by (simp add: suggest_context_def example_entry_def map_get_Cons as_object_def as_u64_jnat example_model_def)
  moreover have "map_get example_entry ''id'' = None" by (simp add: example_entry_def map_get_Cons)
  moreover have "model_str (upstream_model_id (example_model ''m'' True)) = ''m''" by (simp add: example_model_def)
  ultimately show ?thesis
    by (simp add: suggest_for_def map_get_Cons as_object_def apply_model_suggestion_def Let_def)
qed

lemma usable_provider_registry:
  "unwrap_or (prof_models_dev_id (resolve_provider sha256_hex usable_provider)) (provider_str (prov_id usable_provider)) = ''a''"
  by (simp add: resolve_provider_def models_dev_id_of_def usable_provider_def example_provider_def)

theorem registry_fills_gaps_witness:
  "\<exists>preview'. apply_registry_suggestions (\<lambda>s. s) usable_provider example_preview example_registry =
       (Inr [ModelId ''m''], preview') \<and>
     list_all2 gaps_filled [example_model ''m'' True] (cache_models (preview_cache preview')) \<and>
     map spec_context_window (cache_models (preview_cache preview')) = [Some 1000]"
proof -
  have valid: "registry_validate example_registry = Inr ()"
    by (simp add: registry_validate_def example_registry_def MODEL_REGISTRY_SCHEMA_VERSION_def as_object_def)
  define model where "model = mark_registry_source CONTEXT_WINDOW ((example_model ''m'' True)\<lparr>spec_context_window := Some 1000\<rparr>)"
  define preview' where "preview' = example_preview\<lparr>preview_cache := (preview_cache example_preview)\<lparr>cache_models := [model]\<rparr>\<rparr>"
  have model: "upstream_model_id model = ModelId ''m''" "spec_context_window model = Some 1000"
    by (simp_all add: model_def mark_registry_source_def example_model_def)
  have cached: "cache_models (preview_cache example_preview) = [example_model ''m'' True]"
    by (simp add: example_preview_def)
  have run: "apply_registry_suggestions (\<lambda>s. s) usable_provider example_preview example_registry =
      (Inr [ModelId ''m''], preview')"
    by (simp add: apply_registry_suggestions_def valid usable_provider_registry example_registry_models cached
        example_suggest_for model_def [symmetric] model preview'_def)
  have models': "map spec_context_window (cache_models (preview_cache preview')) = [Some 1000]"
    by (simp add: preview'_def model)
  note fills = registry_fills_gaps [OF run, unfolded sum.case cached, THEN conjunct2, THEN conjunct2, THEN conjunct2]
  have "list_all2 gaps_filled [example_model ''m'' True] (cache_models (preview_cache preview'))"
    by (rule list_all2_mono [OF fills]) (elim conjE)
  with run models' show ?thesis by (intro exI [of _ preview'] conjI)
qed

text \<open>
  The refresh keeps a context window that the user confirmed to be unknown, but the registry, applied in
  the same refresh, counts it as missing: it sets a value and takes the confirmation away.
\<close>

lemma registry_overrides_confirmed:
  "\<exists>m registry. is_user_confirmed (Some m) CONTEXT_WINDOW \<and> spec_context_window m = None \<and>
     (\<exists>m'. apply_model_suggestion registry m = (True, m') \<and> spec_context_window m' = Some 1000 \<and>
       \<not> is_user_confirmed (Some m') CONTEXT_WINDOW)"
proof -
  let ?m = "confirm_settings ''Mine'' [] example_settings (example_model ''m'' True)"
  let ?r = "[(''limit'', JObject [(''context'', jnat 1000)])]"
  have none: "spec_context_window ?m = None"
    by (simp add: confirm_settings_def example_settings_def)
  have "apply_model_suggestion ?r ?m =
      (True, mark_registry_source CONTEXT_WINDOW (?m\<lparr>spec_context_window := Some 1000\<rparr>))"
    by (simp add: apply_model_suggestion_def suggest_name_def suggest_context_def suggest_levels_def none map_get_Cons
        registry_reasoning_levels_def as_object_def as_u64_jnat)
  then show ?thesis
    using none confirmed_after_edit(2)
    by (intro exI [of _ ?m] exI [of _ ?r] conjI exI)
      (assumption | simp add: is_user_confirmed_def mark_registry_source_def)+
qed

end
