(* ===== verification/ErrorText.thy ===== *)
theory ErrorText
  imports Catalog
begin

text \<open>
  The messages of the errors (\<open>Display\<close>): \<open>core/error.rs\<close>, \<open>ProviderError\<close> and
  \<open>catalog/error.rs\<close>. The quoting of a string by its \<open>Debug\<close> is the parameter \<open>debug_str\<close>.
\<close>

definition core_error_text :: "(str \<Rightarrow> str) \<Rightarrow> core_error \<Rightarrow> str" where
  "core_error_text debug_str e =
     (case e of
        UnsupportedSchemaVersion actual expected \<Rightarrow>
          ''unsupported schema version '' @ dec_string (unat actual) @ ''; expected '' @ dec_string (unat expected)
      | InvalidListenerHost h \<Rightarrow> ''listener must bind to 127.0.0.1, got '' @ h
      | InvalidListenerPort \<Rightarrow> ''listener port must not be zero''
      | InvalidListenerLimits \<Rightarrow>
          ''listener request body limit and max connections must be greater than zero''
      | InvalidTimeout \<Rightarrow> ''all configured timeouts must be greater than zero''
      | InvalidProviderId p \<Rightarrow>
          ''invalid provider id '' @ debug_str p @
          ''; expected non-empty lowercase ASCII letters, digits, or '' @ [CHR 0x27, CHR ''-'', CHR 0x27]
      | DuplicateProviderId p \<Rightarrow> ''duplicate provider id '' @ p
      | InvalidModelId m \<Rightarrow>
          ''invalid model id '' @ debug_str m @ ''; it must be non-empty and contain no control characters''
      | DuplicateModel p m \<Rightarrow> ''provider '' @ p @ '' contains duplicate model '' @ m
      | CatalogModelIdMismatch expected actual \<Rightarrow>
          ''catalog model id mismatch: expected '' @ expected @ '', got '' @ actual
      | EmptyApiKey p \<Rightarrow> ''provider '' @ p @ '' has an empty bearer API key''
      | InvalidApiKey p \<Rightarrow> ''provider '' @ p @ '' has a bearer API key that cannot be used in an HTTP header''
      | IncompleteOAuthCredentials p \<Rightarrow> ''provider '' @ p @ '' has incomplete OpenAI OAuth credentials''
      | InvalidOAuthCredentials p \<Rightarrow> ''provider '' @ p @ '' has invalid OpenAI OAuth credentials''
      | InvalidHttpEndpoint p \<Rightarrow> ''provider '' @ p @ '' HTTP endpoint must be absolute''
      | InvalidModelListEndpoint p \<Rightarrow> ''provider '' @ p @ '' model-list endpoint must be an absolute HTTP URL''
      | MissingWebSocketEndpoint p \<Rightarrow> ''provider '' @ p @ '' declares WebSocket support without a WebSocket endpoint''
      | InvalidWebSocketEndpoint p \<Rightarrow> ''provider '' @ p @ '' WebSocket endpoint must be absolute ws:// or wss://''
      | ProtocolWebSocketUnsupported p protocol \<Rightarrow>
          ''provider '' @ p @ '' uses '' @ protocol @ '', which has no native WebSocket transport''
      | FingerprintSerialization m \<Rightarrow> ''failed to serialize provider routing fingerprint: '' @ m
      | InvalidYaml m \<Rightarrow> ''failed to parse YAML: '' @ m)"

definition provider_error_text :: "(str \<Rightarrow> str) \<Rightarrow> provider_error \<Rightarrow> str" where
  "provider_error_text debug_str e =
     (case e of
        ProviderCore e \<Rightarrow> core_error_text debug_str e
      | RequestConversion m \<Rightarrow> ''provider request conversion failed: '' @ m
      | ModelDiscovery m \<Rightarrow> ''provider model discovery response is invalid: '' @ m
      | InvalidAuthenticationHeader \<Rightarrow> ''provider authentication header is invalid''
      | ProfileFingerprintSerialization m \<Rightarrow> ''failed to serialize provider routing semantics: '' @ m
      | WebSocketConversionUnavailable \<Rightarrow> ''provider WebSocket request conversion is unavailable''
      | UnknownPresetConnection \<Rightarrow> ''provider preset or connection is unknown''
      | AuthenticationMismatch \<Rightarrow> ''provider credentials do not match its connection mode'')"

definition proxy_configuration_error_text :: "proxy_configuration_error \<Rightarrow> str" where
  "proxy_configuration_error_text e =
     (case e of
        InvalidUri \<Rightarrow> ''invalid HTTP proxy configuration''
      | ProxyInitialization \<Rightarrow> ''failed to initialize proxy support'')"

definition catalog_error_text :: "(str \<Rightarrow> str) \<Rightarrow> catalog_error \<Rightarrow> str" where
  "catalog_error_text debug_str e =
     (case e of
        CatalogCore e \<Rightarrow> core_error_text debug_str e
      | CatalogProvider e \<Rightarrow> provider_error_text debug_str e
      | CatalogProxyConfiguration e \<Rightarrow> proxy_configuration_error_text e
      | InvalidCodexCatalog m \<Rightarrow> ''invalid Codex model catalog: '' @ m
      | CatalogSerialization m \<Rightarrow> ''failed to serialize Codex catalog: '' @ m
      | DiscoveryClient \<Rightarrow> ''failed to build model discovery client''
      | InvalidModelRegistry m \<Rightarrow> ''invalid model registry cache: '' @ m
      | ModelRegistryStatus n \<Rightarrow> ''model registry returned HTTP '' @ dec_string n
      | DiscoveryRequest \<Rightarrow> ''failed to build model discovery request''
      | DiscoveryTransport \<Rightarrow> ''model discovery request failed''
      | DiscoveryTimeout \<Rightarrow> ''model discovery timed out''
      | DiscoveryStatus n \<Rightarrow> ''model discovery returned HTTP '' @ dec_string n
      | DiscoveryBodyTooLarge n \<Rightarrow> ''model discovery response exceeded '' @ dec_string n @ '' bytes''
      | PreviewModelNotFound m \<Rightarrow> ''model '' @ m @ '' is not present in the refresh preview''
      | EmptyModelDisplayName \<Rightarrow> ''model display name must not be empty''
      | InvalidContextWindow \<Rightarrow> ''model context window must be greater than zero'')"

end
