(* ===== verification/Discovery.thy ===== *)
theory Discovery
  imports Refresh ErrorText
begin

text \<open>
  \<open>provider-x-catalog/src/discovery.rs\<close>: the explicit refresh of the models of a provider. The HTTP client
  is a parameter: what it makes of a request is a timeout, a failure or a reply, whose body may in turn
  not arrive. The size limit of the body is applied by the model as the code does.
\<close>

record http_request =
  hr_url :: str
  hr_headers :: header_map

datatype body_outcome = BodyTimedOut | BodyFailed | BodyBytes str

record http_reply =
  reply_status :: nat
  reply_headers :: header_map
  reply_body :: body_outcome

datatype http_outcome = SendTimedOut | SendFailed | Reply http_reply

text \<open>The libraries a client works with, and the settings of \<open>ManualDiscoveryClient\<close>.\<close>

record discovery_client =
  dc_send :: "http_request \<Rightarrow> http_outcome"
  dc_uri_ok :: "str \<Rightarrow> bool"
  dc_header_value :: "str \<Rightarrow> str option"
  dc_version :: str
  dc_codec :: codec
  dc_sha256_hex :: "str \<Rightarrow> str"
  dc_url_parse :: url_parser
  dc_debug_str :: "str \<Rightarrow> str"
  dc_body_limit :: nat
  dc_registry_url :: str

definition discovery_client_new ::
  "bool \<Rightarrow> (str \<Rightarrow> hyper_uri option) \<Rightarrow> proxy_environment \<Rightarrow> nat \<Rightarrow> discovery_client \<Rightarrow> catalog_error + discovery_client" where
  "discovery_client_new init_ok uri_parse px connect_timeout client =
     and_then (map_err CatalogProxyConfiguration (build_http_connector init_ok uri_parse px connect_timeout)) (\<lambda>_.
     if dc_body_limit client = 0 then Inl DiscoveryClient
     else Inr (client\<lparr>dc_registry_url := MODEL_REGISTRY_URL\<rparr>))"

definition discovery_headers :: header_map where
  "discovery_headers =
     [(''accept'', ''application/json''), (''accept-encoding'', ''identity''), (''user-agent'', ''provider-x/0.1'')]"

definition collect_limited :: "nat \<Rightarrow> body_outcome \<Rightarrow> catalog_error + str" where
  "collect_limited limit body =
     (case body of
        BodyTimedOut \<Rightarrow> Inl DiscoveryTimeout
      | BodyFailed \<Rightarrow> Inl (DiscoveryBodyTooLarge limit)
      | BodyBytes bytes \<Rightarrow> if limit < length bytes then Inl (DiscoveryBodyTooLarge limit) else Inr bytes)"

definition send_request :: "discovery_client \<Rightarrow> str \<Rightarrow> header_map \<Rightarrow> catalog_error + http_reply" where
  "send_request client url hs =
     (case dc_send client \<lparr>hr_url = url, hr_headers = hs\<rparr> of
        SendTimedOut \<Rightarrow> Inl DiscoveryTimeout
      | SendFailed \<Rightarrow> Inl DiscoveryTransport
      | Reply r \<Rightarrow> Inr r)"

section \<open>The models of a provider\<close>

definition discover_provider_models ::
  "discovery_client \<Rightarrow> provider_config \<Rightarrow> provider_profile \<Rightarrow> catalog_error + discovered_model list" where
  "discover_provider_models client p profile =
     (if \<not> dc_uri_ok client (profile_model_list_url profile) then Inl DiscoveryRequest
      else
        and_then (map_err CatalogProvider
            (apply_authentication (dc_header_value client) (dc_version client) profile (prov_auth p) discovery_headers))
          (\<lambda>hs.
        and_then (send_request client (profile_model_list_url profile) hs) (\<lambda>response.
        if reply_status response \<noteq> 200 then Inl (DiscoveryStatus (reply_status response))
        else
          and_then (collect_limited (dc_body_limit client) (reply_body response)) (\<lambda>body.
          map_err CatalogProvider (profile_parse_model_list (dc_codec client) profile body)))))"

definition discover :: "discovery_client \<Rightarrow> provider_config \<Rightarrow> catalog_error + discovered_model list" where
  "discover client p =
     and_then (map_err CatalogProvider (validate_provider (dc_url_parse client) p)) (\<lambda>_.
     discover_provider_models client p (resolve_provider (dc_sha256_hex client) p))"

definition client_refresh_preview ::
  "discovery_client \<Rightarrow> provider_config \<Rightarrow> provider_model_cache option \<Rightarrow> str \<Rightarrow> catalog_error + refresh_preview" where
  "client_refresh_preview client p existing refreshed_at =
     and_then (discover client p) (\<lambda>discovered.
     build_refresh_preview (dc_codec client) (dc_sha256_hex client) (dc_url_parse client) p discovered existing
       refreshed_at)"

section \<open>The registry\<close>

datatype registry_fetch = NotModified | Updated model_registry_cache

record registry_enrichment =
  replacement_cache :: "model_registry_cache option"
  matched_models :: "model_id list"
  enrichment_warning :: "str option"

definition fetch_headers ::
  "discovery_client \<Rightarrow> model_registry_cache option \<Rightarrow> catalog_error + header_map" where
  "fetch_headers client cached =
     (case Option.bind cached mrc_etag of
        None \<Rightarrow> Inr discovery_headers
      | Some etag \<Rightarrow>
          and_then (ok_or (InvalidModelRegistry ''invalid cached ETag'') (dc_header_value client etag)) (\<lambda>v.
          Inr (discovery_headers @ [(''if-none-match'', v)])))"

definition fetch_model_registry ::
  "discovery_client \<Rightarrow> model_registry_cache option \<Rightarrow> str \<Rightarrow> catalog_error + registry_fetch" where
  "fetch_model_registry client cached fetched_at =
     and_then (fetch_headers client cached) (\<lambda>hs.
     if \<not> dc_uri_ok client (dc_registry_url client) then Inl DiscoveryRequest
     else
       and_then (send_request client (dc_registry_url client) hs) (\<lambda>response.
       if reply_status response = 304 then Inr NotModified
       else if reply_status response \<noteq> 200 then Inl (ModelRegistryStatus (reply_status response))
       else
         and_then (collect_limited (dc_body_limit client) (reply_body response)) (\<lambda>body.
         and_then (map_err InvalidModelRegistry (parse (dc_codec client) body)) (\<lambda>payload.
           let cache = \<lparr>mrc_schema_version = MODEL_REGISTRY_SCHEMA_VERSION, mrc_source_url = MODEL_REGISTRY_URL,
                        mrc_fetched_at = fetched_at,
                        mrc_etag = Option.bind (hm_get (reply_headers response) ''etag'') header_to_str,
                        mrc_payload = payload\<rparr>
           in and_then (registry_validate cache) (\<lambda>_. Inr (Updated cache))))))"

text \<open>The cache to use, the cache to store and the warning.\<close>

definition effective_registry ::
  "(str \<Rightarrow> str) \<Rightarrow> model_registry_cache option \<Rightarrow> catalog_error + registry_fetch \<Rightarrow>
   model_registry_cache option \<times> model_registry_cache option \<times> str option" where
  "effective_registry debug_str cached fetched =
     (case fetched of
        Inr (Updated cache) \<Rightarrow> (Some cache, Some cache, None)
      | Inr NotModified \<Rightarrow>
          if cached \<noteq> None then (cached, None, None)
          else (None, None, Some ''model registry returned not-modified without a local cache'')
      | Inl e \<Rightarrow> (cached, None, Some (catalog_error_text debug_str e)))"

definition enrich_preview_with_registry ::
  "discovery_client \<Rightarrow> provider_config \<Rightarrow> refresh_preview \<Rightarrow> model_registry_cache option \<Rightarrow> str \<Rightarrow>
   registry_enrichment \<times> refresh_preview" where
  "enrich_preview_with_registry client p preview cached fetched_at =
     (let cached = (case cached of
                      Some cache \<Rightarrow> if registry_validate cache = Inr () then Some cache else None
                    | None \<Rightarrow> None);
          (effective, replacement, warning) =
            effective_registry (dc_debug_str client) cached (fetch_model_registry client cached fetched_at)
      in case effective of
           None \<Rightarrow>
             (\<lparr>replacement_cache = replacement, matched_models = [], enrichment_warning = warning\<rparr>, preview)
         | Some cache \<Rightarrow>
             (case apply_registry_suggestions (dc_sha256_hex client) p preview cache of
                (Inr matched, preview) \<Rightarrow>
                  (\<lparr>replacement_cache = replacement, matched_models = matched, enrichment_warning = warning\<rparr>, preview)
              | (Inl e, preview) \<Rightarrow>
                  (\<lparr>replacement_cache = replacement, matched_models = [],
                    enrichment_warning = Some
                      (case warning of
                         Some previous \<Rightarrow> previous @ ''; '' @ catalog_error_text (dc_debug_str client) e
                       | None \<Rightarrow> catalog_error_text (dc_debug_str client) e)\<rparr>, preview)))"

section \<open>Properties\<close>

lemma fetch_updated_valid:
  "fetch_model_registry client cached at = Inr (Updated cache) \<Longrightarrow> registry_validate cache = Inr ()"
  by (auto simp: fetch_model_registry_def Let_def split: if_splits)

lemma apply_registry_valid:
  assumes "registry_validate cache = Inr ()"
  shows "\<exists>matched preview'. apply_registry_suggestions sha256_hex p preview cache = (Inr matched, preview')"
  using assms by (auto simp: apply_registry_suggestions_def Let_def split: option.splits)

lemma gaps_of_apply:
  assumes "apply_registry_suggestions sha256_hex p preview cache = (Inr matched, preview')"
  shows "list_all2 gaps_filled (cache_models (preview_cache preview)) (cache_models (preview_cache preview'))"
proof -
  have "gaps_filled m (snd (suggest_for models m))" for m models
    by (cases "suggest_for models m") (simp add: suggest_for_filled)
  with assms show ?thesis
    by (auto simp: apply_registry_suggestions_def Let_def list_all2_map2 list_all2_same gaps_filled_refl
        split: sum.splits option.splits)
qed

text \<open>The registry that is used: the one just fetched, else the local one if it is valid.\<close>

definition usable_cache :: "model_registry_cache option \<Rightarrow> model_registry_cache option" where
  "usable_cache cached =
     (case cached of Some cache \<Rightarrow> if registry_validate cache = Inr () then Some cache else None | None \<Rightarrow> None)"

text \<open>No failure of the registry loses the models a refresh found. Whatever the registry answers, the
  models of the preview only have their gaps filled; an answer that cannot be used leaves the local
  registry in use, if that is valid, and gives a warning; a registry that is to be stored has just been
  fetched and is valid; and there is a warning exactly when nothing usable was fetched and the local
  registry was not confirmed as current.
\<close>

theorem enrichment_keeps_models:
  assumes "enrich_preview_with_registry client p preview cached at = (e, preview')"
  defines "fetched \<equiv> fetch_model_registry client (usable_cache cached) at"
  shows "list_all2 gaps_filled (cache_models (preview_cache preview)) (cache_models (preview_cache preview')) \<and>
    (\<forall>cache. replacement_cache e = Some cache \<longleftrightarrow> fetched = Inr (Updated cache)) \<and>
    (\<forall>cache. replacement_cache e = Some cache \<longrightarrow> registry_validate cache = Inr ()) \<and>
    (enrichment_warning e = None \<longleftrightarrow>
      (\<exists>cache. fetched = Inr (Updated cache)) \<or> fetched = Inr NotModified \<and> usable_cache cached \<noteq> None) \<and>
    (\<forall>err cache. fetched = Inl err \<and> usable_cache cached = Some cache \<longrightarrow>
      apply_registry_suggestions (dc_sha256_hex client) p preview cache = (Inr (matched_models e), preview'))"
proof -
  have local: "registry_validate cache = Inr ()" if "usable_cache cached = Some cache" for cache
    using that by (auto simp: usable_cache_def split: option.splits if_splits)
  have run: "enrich_preview_with_registry client p preview cached at =
      (let (effective, replacement, warning) = effective_registry (dc_debug_str client) (usable_cache cached) fetched
       in case effective of
           None \<Rightarrow> (\<lparr>replacement_cache = replacement, matched_models = [], enrichment_warning = warning\<rparr>, preview)
         | Some cache \<Rightarrow>
             (let (r, preview) = apply_registry_suggestions (dc_sha256_hex client) p preview cache in
              (\<lparr>replacement_cache = replacement, matched_models = (case r of Inr m \<Rightarrow> m | Inl _ \<Rightarrow> []),
                enrichment_warning = warning\<rparr>, preview)))"
  proof -
    have "\<exists>matched preview'. apply_registry_suggestions (dc_sha256_hex client) p preview cache = (Inr matched, preview')"
      if "fst (effective_registry (dc_debug_str client) (usable_cache cached) fetched) = Some cache" for cache
      using that local fetch_updated_valid apply_registry_valid
      by (auto simp: effective_registry_def fetched_def split: sum.splits registry_fetch.splits if_splits)
    then show ?thesis
      unfolding enrich_preview_with_registry_def usable_cache_def [symmetric] fetched_def
      by (auto simp: Let_def split: prod.splits option.splits sum.splits)
  qed
  have applied: "\<exists>matched preview'. apply_registry_suggestions (dc_sha256_hex client) p preview cache = (Inr matched, preview') \<and>
      list_all2 gaps_filled (cache_models (preview_cache preview)) (cache_models (preview_cache preview'))"
    if "registry_validate cache = Inr ()" for cache
    using apply_registry_valid [OF that] gaps_of_apply by metis
  have same: "list_all2 gaps_filled ms ms" for ms by (simp add: list_all2_same gaps_filled_refl)
  show ?thesis
  proof (cases fetched)
    case (Inl err)
    with assms(1) local applied same show ?thesis
      by (cases "usable_cache cached") (fastforce simp: run effective_registry_def Let_def)+
  next
    case (Inr f)
    show ?thesis
    proof (cases f)
      case NotModified
      with Inr assms(1) local applied same show ?thesis
        by (cases "usable_cache cached") (fastforce simp: run effective_registry_def Let_def)+
    next
      case (Updated cache)
      with Inr have "registry_validate cache = Inr ()" by (simp add: fetched_def fetch_updated_valid)
      with Updated Inr assms(1) applied [of cache] show ?thesis
        by (auto simp: run effective_registry_def Let_def)
    qed
  qed
qed

definition offline_client :: discovery_client where
  "offline_client =
     \<lparr>dc_send = (\<lambda>_. SendFailed), dc_uri_ok = (\<lambda>_. True), dc_header_value = Some, dc_version = ''1'',
      dc_codec = example_catalog_codec, dc_sha256_hex = (\<lambda>s. s), dc_url_parse = example_url_parse,
      dc_debug_str = (\<lambda>s. s), dc_body_limit = 1000, dc_registry_url = MODEL_REGISTRY_URL\<rparr>"

theorem enrichment_keeps_models_witness:
  "\<exists>e preview'. enrich_preview_with_registry offline_client usable_provider example_preview (Some example_registry) ''now'' =
      (e, preview') \<and> replacement_cache e = None \<and> enrichment_warning e \<noteq> None \<and>
    list_all2 gaps_filled [example_model ''m'' True] (cache_models (preview_cache preview'))"
proof -
  obtain e preview' where run: "enrich_preview_with_registry offline_client usable_provider example_preview
      (Some example_registry) ''now'' = (e, preview')"
    by (cases "enrich_preview_with_registry offline_client usable_provider example_preview (Some example_registry) ''now''")
  have "fetch_model_registry offline_client cached ''now'' = Inl DiscoveryTransport" if "Option.bind cached mrc_etag = None" for cached
    using that by (simp add: fetch_model_registry_def fetch_headers_def send_request_def offline_client_def)
  moreover have "Option.bind (usable_cache (Some example_registry)) mrc_etag = None"
    by (simp add: usable_cache_def example_registry_def)
  moreover have "cache_models (preview_cache example_preview) = [example_model ''m'' True]"
    by (simp add: example_preview_def)
  ultimately show ?thesis
    using enrichment_keeps_models [OF run] run by fastforce
qed

end
