(* ===== verification/EgressState.thy ===== *)
theory EgressState
  imports Discovery
begin

text \<open>
  The state of the data plane: \<open>provider-x-egress/src/state.rs\<close> with the errors (\<open>error.rs\<close>) and the
  redacted events (\<open>events.rs\<close>). The lemmas show what a runtime that could be built promises to the
  requests that are routed with it, and that the ingress capability is compared as a whole.

  The observer is the list of the events the operations emit; the pooled clients are the connectors they
  are made of.
\<close>

section \<open>Errors\<close>

datatype egress_build_error =
    InvalidConfiguration core_error
  | InvalidCatalogOverlay catalog_error
  | BuildProxyConfiguration proxy_configuration_error
  | BuildProvider provider_error
  | DuplicateProvider str
  | InvalidIngressCapability

datatype proxy_error =
    BodyTooLarge
  | RequestBodyTimeout
  | UnsupportedContentEncoding
  | InvalidRequest str
  | InvalidWebSocketHandshake
  | IngressNotFound
  | CrossOriginWebSocket
  | ModelNotAvailable
  | ProviderNotAvailable
  | InvalidUpstreamUri
  | RequestBuild
  | ResponseHeadersTimeout
  | ModelCatalogBodyTimeout
  | ModelCatalogBodyTooLarge
  | InvalidOfficialModelCatalog
  | Upstream
  | UpstreamConnect

definition proxy_error_text :: "proxy_error \<Rightarrow> str" where
  "proxy_error_text e =
     (case e of
        BodyTooLarge \<Rightarrow> ''request body exceeds configured limit''
      | RequestBodyTimeout \<Rightarrow> ''request body timed out''
      | UnsupportedContentEncoding \<Rightarrow> ''unsupported request content encoding''
      | InvalidRequest m \<Rightarrow> ''invalid Responses request: '' @ m
      | InvalidWebSocketHandshake \<Rightarrow> ''invalid WebSocket upgrade request''
      | IngressNotFound \<Rightarrow> ''ingress route not found''
      | CrossOriginWebSocket \<Rightarrow> ''browser-origin WebSocket connections are forbidden''
      | ModelNotAvailable \<Rightarrow> ''managed model is not available''
      | ProviderNotAvailable \<Rightarrow> ''routed Provider is not available''
      | InvalidUpstreamUri \<Rightarrow> ''invalid upstream URI''
      | RequestBuild \<Rightarrow> ''failed to build upstream request''
      | ResponseHeadersTimeout \<Rightarrow> ''upstream response headers timed out''
      | ModelCatalogBodyTimeout \<Rightarrow> ''official model catalog response timed out''
      | ModelCatalogBodyTooLarge \<Rightarrow> ''official model catalog response exceeds configured limit''
      | InvalidOfficialModelCatalog \<Rightarrow> ''official model catalog response is invalid''
      | Upstream \<Rightarrow> ''upstream request failed''
      | UpstreamConnect \<Rightarrow> ''failed to connect to upstream'')"

definition proxy_error_code :: "proxy_error \<Rightarrow> str" where
  "proxy_error_code e =
     (case e of
        BodyTooLarge \<Rightarrow> ''body_too_large''
      | RequestBodyTimeout \<Rightarrow> ''request_body_timeout''
      | UnsupportedContentEncoding \<Rightarrow> ''unsupported_content_encoding''
      | InvalidRequest _ \<Rightarrow> ''invalid_request''
      | InvalidWebSocketHandshake \<Rightarrow> ''invalid_websocket_handshake''
      | IngressNotFound \<Rightarrow> ''ingress_not_found''
      | CrossOriginWebSocket \<Rightarrow> ''cross_origin_websocket''
      | ModelNotAvailable \<Rightarrow> ''model_not_available''
      | ProviderNotAvailable \<Rightarrow> ''provider_not_available''
      | InvalidUpstreamUri \<Rightarrow> ''invalid_upstream_uri''
      | RequestBuild \<Rightarrow> ''request_build_failed''
      | ResponseHeadersTimeout \<Rightarrow> ''response_headers_timeout''
      | ModelCatalogBodyTimeout \<Rightarrow> ''model_catalog_body_timeout''
      | ModelCatalogBodyTooLarge \<Rightarrow> ''model_catalog_body_too_large''
      | InvalidOfficialModelCatalog \<Rightarrow> ''invalid_official_model_catalog''
      | Upstream \<Rightarrow> ''upstream_request_failed''
      | UpstreamConnect \<Rightarrow> ''upstream_connect_failed'')"

section \<open>Events\<close>

datatype observed_transport = ObservedHttp | ObservedWebSocket

datatype observed_websocket_mode = DirectWebSocket | HttpBridge

datatype observed_websocket_stage =
    StageFirstMessage | StageRoute | StageRequestBuild | StageConnect | StageHandshake | StageResponseHeaders
  | StageRelay | StageResponseStream

datatype observed_websocket_direction = Downstream | UpstreamSide

datatype observed_websocket_reason =
    ReasonTimeout | ReasonInvalidEndpoint | ReasonTransport | ReasonHandshake | ReasonUnexpectedEof
  | ReasonProtocol | ReasonRejected

datatype observed_route = ObservedOfficial | ObservedThirdParty str | ObservedUnavailable

definition observed_route_of :: "route_decision \<Rightarrow> observed_route" where
  "observed_route_of decision =
     (case decision of
        BuiltInOfficial \<Rightarrow> ObservedOfficial
      | ThirdParty p _ \<Rightarrow> ObservedThirdParty (provider_str p)
      | UnavailableManagedModel \<Rightarrow> ObservedUnavailable)"

record request_observed =
  ro_transport :: observed_transport
  ro_path :: str
  ro_session_id :: "u64 option"
  ro_sequence :: u64
  ro_model :: str
  ro_route :: observed_route
  ro_previous_response_id_present :: bool
  ro_client_metadata_present :: bool
  ro_codex_turn_metadata_header_present :: bool

record upstream_observed =
  uo_transport :: observed_transport
  uo_session_id :: "u64 option"
  uo_route :: observed_route
  uo_status :: nat

record websocket_failure_observed =
  wf_session_id :: u64
  wf_mode :: "observed_websocket_mode option"
  wf_route :: "observed_route option"
  wf_stage :: observed_websocket_stage
  wf_direction :: "observed_websocket_direction option"
  wf_reason :: observed_websocket_reason

record fallback_observed =
  fo_transport :: observed_transport
  fo_path :: str
  fo_status :: nat

record error_observed =
  eo_transport :: observed_transport
  eo_method :: str
  eo_path :: str
  eo_ingress_authorized :: bool
  eo_status :: "nat option"
  eo_code :: str
  eo_message :: str
  eo_websocket :: "websocket_failure_observed option"

datatype egress_event =
    RequestEvent request_observed
  | UpstreamEvent upstream_observed
  | FallbackEvent fallback_observed
  | ErrorEvent error_observed

section \<open>The runtime\<close>

record provider_egress =
  pe_config :: provider_config
  pe_profile :: provider_profile
  pe_client :: network_connector
  pe_websocket_connector :: network_connector

record egress_runtime =
  er_routes :: runtime_snapshot
  er_providers :: "(provider_id, provider_egress) btree"
  er_catalog_overlay :: catalog_overlay

record egress_state =
  es_runtime :: egress_runtime
  es_official_base_url :: str
  es_request_body_limit :: nat
  es_request_body_timeout_ms :: u64
  es_response_headers_timeout_ms :: u64
  es_stream_idle_timeout_ms :: u64
  es_websocket_idle_timeout_ms :: u64
  es_shutdown_grace_ms :: u64
  es_connection_limit :: nat
  es_official_client :: network_connector
  es_official_websocket_connector :: network_connector
  es_websocket_fallback_on_upgrade :: bool
  es_websocket_session_sequence :: u64
  es_ingress_capability :: str

text \<open>The libraries and the environment the state is built with.\<close>

record egress_env =
  ee_url_parse :: url_parser
  ee_sha256_hex :: "str \<Rightarrow> str"
  ee_init_ok :: bool
  ee_uri_parse :: "str \<Rightarrow> hyper_uri option"
  ee_variables :: "str \<Rightarrow> str option"

definition runtime_resolve :: "egress_runtime \<Rightarrow> str \<Rightarrow> route_decision" where
  "runtime_resolve runtime model = resolve (er_routes runtime) model"

definition runtime_provider :: "egress_runtime \<Rightarrow> provider_id \<Rightarrow> provider_egress option" where
  "runtime_provider runtime p = bt_get (er_providers runtime) p"

definition build_transport ::
  "egress_env \<Rightarrow> providers_document \<Rightarrow> proxy_environment \<Rightarrow>
   egress_build_error + network_connector \<times> network_connector" where
  "build_transport env doc px =
     (let connect_timeout = unat (connect_ms (doc_timeouts doc)) in
      and_then (map_err BuildProxyConfiguration
          (build_http_connector (ee_init_ok env) (ee_uri_parse env) px connect_timeout)) (\<lambda>http_connector.
      and_then (map_err BuildProxyConfiguration
          (build_websocket_connector (ee_init_ok env) (ee_uri_parse env) px connect_timeout)) (\<lambda>websocket_connector.
      Inr (http_connector, websocket_connector))))"

definition add_provider ::
  "egress_env \<Rightarrow> providers_document \<Rightarrow> proxy_environment \<Rightarrow> (provider_id, provider_egress) btree \<Rightarrow>
   provider_config \<Rightarrow> egress_build_error + (provider_id, provider_egress) btree" where
  "add_provider env doc px provider_map p =
     and_then (build_transport env doc px) (\<lambda>(client, websocket_connector).
     if bt_has provider_map (prov_id p) then Inl (DuplicateProvider (provider_str (prov_id p)))
     else Inr (bt_insert (prov_id p)
            \<lparr>pe_config = p, pe_profile = resolve_provider (ee_sha256_hex env) p, pe_client = client,
             pe_websocket_connector = websocket_connector\<rparr> provider_map))"

definition build_provider_map ::
  "egress_env \<Rightarrow> providers_document \<Rightarrow> proxy_environment \<Rightarrow>
   egress_build_error + (provider_id, provider_egress) btree" where
  "build_provider_map env doc px = try_fold (add_provider env doc px) [] (doc_providers doc)"

text \<open>\<open>usize::try_from\<close> of a \<open>u64\<close> never fails on the 64-bit targets.\<close>

definition egress_state_new ::
  "egress_env \<Rightarrow> providers_document \<Rightarrow> model_cache_document \<Rightarrow> str \<Rightarrow> str \<Rightarrow> egress_build_error + egress_state" where
  "egress_state_new env doc cache official_base_url capability =
     and_then (map_err InvalidConfiguration (providers_validate (ee_url_parse env) doc)) (\<lambda>_.
     let px = proxy_read (ee_variables env) in
     and_then (build_provider_map env doc px) (\<lambda>provider_map.
     and_then (map_err InvalidCatalogOverlay (overlay_from_documents (ee_url_parse env) doc cache)) (\<lambda>overlay.
     and_then (build_transport env doc px) (\<lambda>(official_client, official_websocket_connector).
     and_then (map_err BuildProvider (build_runtime_snapshot (ee_url_parse env) doc cache)) (\<lambda>snapshot.
     Inr \<lparr>es_runtime = \<lparr>er_routes = snapshot, er_providers = provider_map, er_catalog_overlay = overlay\<rparr>,
          es_official_base_url = official_base_url,
          es_request_body_limit = unat (request_body_limit_bytes (doc_listener doc)),
          es_request_body_timeout_ms = request_body_ms (doc_timeouts doc),
          es_response_headers_timeout_ms = response_headers_ms (doc_timeouts doc),
          es_stream_idle_timeout_ms = stream_idle_ms (doc_timeouts doc),
          es_websocket_idle_timeout_ms = websocket_idle_ms (doc_timeouts doc),
          es_shutdown_grace_ms = shutdown_grace_ms (doc_timeouts doc),
          es_connection_limit = unat (max_connections (doc_listener doc)),
          es_official_client = official_client,
          es_official_websocket_connector = official_websocket_connector,
          es_websocket_fallback_on_upgrade = False,
          es_websocket_session_sequence = 1,
          es_ingress_capability = capability\<rparr>)))))"

definition prepare_reload ::
  "egress_env \<Rightarrow> providers_document \<Rightarrow> model_cache_document \<Rightarrow> egress_build_error + egress_runtime" where
  "prepare_reload env doc cache =
     and_then (map_err InvalidConfiguration (providers_validate (ee_url_parse env) doc)) (\<lambda>_.
     and_then (map_err BuildProvider (build_runtime_snapshot (ee_url_parse env) doc cache)) (\<lambda>snapshot.
     and_then (build_provider_map env doc (proxy_read (ee_variables env))) (\<lambda>provider_map.
     and_then (map_err InvalidCatalogOverlay (overlay_from_documents (ee_url_parse env) doc cache)) (\<lambda>overlay.
     Inr \<lparr>er_routes = snapshot, er_providers = provider_map, er_catalog_overlay = overlay\<rparr>))))"

definition commit_reload :: "egress_runtime \<Rightarrow> egress_state \<Rightarrow> egress_state" where
  "commit_reload prepared s = s\<lparr>es_runtime := prepared\<rparr>"

definition reload ::
  "egress_env \<Rightarrow> providers_document \<Rightarrow> model_cache_document \<Rightarrow> (egress_state, egress_build_error, unit) action" where
  "reload env doc cache =
     (\<lambda>s. case prepare_reload env doc cache of
            Inl e \<Rightarrow> (Inl e, s)
          | Inr prepared \<Rightarrow> (Inr (), commit_reload prepared s))"

definition with_websocket_fallback_on_upgrade :: "egress_state \<Rightarrow> egress_state" where
  "with_websocket_fallback_on_upgrade s = s\<lparr>es_websocket_fallback_on_upgrade := True\<rparr>"

text \<open>\<open>fetch_add\<close> wraps around.\<close>

definition next_websocket_session_id :: "egress_state \<Rightarrow> u64 \<times> egress_state" where
  "next_websocket_session_id s =
     (es_websocket_session_sequence s,
      s\<lparr>es_websocket_session_sequence := es_websocket_session_sequence s + 1\<rparr>)"

section \<open>The ingress capability\<close>

definition is_capability_byte :: "char \<Rightarrow> bool" where
  "is_capability_byte b \<longleftrightarrow> is_ascii_digit b \<or> 97 \<le> byte b \<and> byte b \<le> 102"

definition capability_from_hex :: "str \<Rightarrow> egress_build_error + str" where
  "capability_from_hex text_value =
     (if length text_value \<noteq> 64 \<or> \<not> list_all is_capability_byte text_value then Inl InvalidIngressCapability
      else Inr text_value)"

text \<open>The comparison looks at every byte, whatever differs first.\<close>

definition capability_matches :: "str \<Rightarrow> str \<Rightarrow> bool" where
  "capability_matches capability candidate =
     (if length candidate \<noteq> length capability then False
      else fold (\<lambda>(expected, actual) difference.
               or difference (xor (of_char expected) (of_char actual) :: 8 word))
             (zip capability candidate) 0 = 0)"

definition authorized_path :: "egress_state \<Rightarrow> str \<Rightarrow> str option" where
  "authorized_path s path =
     (case path of
        [] \<Rightarrow> None
      | c # rest \<Rightarrow>
          if c \<noteq> CHR ''/'' then None
          else
            (case split_once (CHR ''/'') rest of
               None \<Rightarrow> None
             | Some (candidate, suffix) \<Rightarrow>
                 if capability_matches (es_ingress_capability s) candidate then Some (CHR ''/'' # suffix) else None))"

section \<open>Lemmas\<close>

lemma byte8_inject: "(of_char a :: 8 word) = of_char b \<longleftrightarrow> a = b"
proof
  assume eq: "(of_char a :: 8 word) = of_char b"
  have "unat (of_char c :: 8 word) = byte c" for c :: char
  proof -
    have "unat (of_nat (byte c) :: 8 word) = byte c"
      using nat_of_char_less_256 [of c] by (simp add: unat_of_nat take_bit_nat_eq_self)
    then show ?thesis by (simp only: of_nat_of_char)
  qed
  with eq have "byte a = byte b" by metis
  then show "a = b" by simp
qed simp

lemma fold_difference:
  "fold (\<lambda>(e, a) d. or d (xor (f e) (f a) :: 8 word)) ps d = 0 \<longleftrightarrow> d = 0 \<and> (\<forall>(e, a) \<in> set ps. f e = f a)"
proof (induction ps arbitrary: d)
  case (Cons p ps)
  have "or d w = 0 \<longleftrightarrow> d = 0 \<and> w = 0" for d w :: "8 word"
    by (auto simp: bit_eq_iff bit_or_iff)
  moreover have "xor v w = 0 \<longleftrightarrow> v = w" for v w :: "8 word"
    by (auto simp: bit_eq_iff bit_xor_iff)
  ultimately show ?case by (cases p) (auto simp: Cons.IH)
qed simp

text \<open>The comparison is that of the whole strings.\<close>

lemma capability_matches_iff: "capability_matches capability candidate \<longleftrightarrow> candidate = capability"
proof (cases "length candidate = length capability")
  case True
  have "(\<forall>(e, a) \<in> set (zip capability candidate). (of_char e :: 8 word) = of_char a) \<longleftrightarrow> capability = candidate"
    using True list_eq_iff_zip_eq [of capability candidate] by (auto simp: byte8_inject)
  with True show ?thesis by (auto simp: capability_matches_def fold_difference)
qed (auto simp: capability_matches_def)

end
