(* ===== verification/Ingress.thy ===== *)
theory Ingress
  imports EgressState
begin

text \<open>
  What the requests rely on: a runtime that was built always knows the provider of a route, through any
  number of reloads, and only a path with the capability of this process gets in
  (\<open>authorize_ingress\<close> and \<open>unauthorized_request_path\<close> of \<open>provider-x-egress/src/server.rs\<close>).
\<close>

section \<open>The interface of a runtime\<close>

text \<open>A resolver that also keeps an entry for each provider it routes to.\<close>

locale provider_runtime = route_resolver +
  fixes entry_of :: "'a \<Rightarrow> provider_id \<Rightarrow> 'e option"
    and config_of :: "'e \<Rightarrow> provider_config"
  assumes routed_entry: "resolver_ok r \<Longrightarrow> decide r m = ThirdParty p u \<Longrightarrow>
      \<exists>e. entry_of r p = Some e \<and> prov_id (config_of e) = p \<and> publishes (config_of e) u"
begin

lemma provider_available: "resolver_ok r \<Longrightarrow> decide r m = ThirdParty p u \<Longrightarrow> entry_of r p \<noteq> None"
  using routed_entry by fastforce

lemma destination:
  assumes "resolver_ok r" and "decide r m = ThirdParty p u" and "entry_of r p = Some e"
  shows "m = catalog_key (prov_id (config_of e)) u \<and> prov_enabled (config_of e) \<and> publishes (config_of e) u"
  using routed_entry [OF assms(1,2)] third_party [OF assms(1,2)] assms(3)
  by (auto simp: publishes_def)

end

definition runtime_ok :: "egress_env \<Rightarrow> egress_runtime \<Rightarrow> bool" where
  "runtime_ok env r \<longleftrightarrow>
     snapshot_ok (er_routes r) \<and>
     (\<forall>m p u. runtime_resolve r m = ThirdParty p u \<longrightarrow>
        (\<exists>e. runtime_provider r p = Some e \<and> prov_id (pe_config e) = p \<and> publishes (pe_config e) u)) \<and>
     (\<forall>p e. runtime_provider r p = Some e \<longrightarrow>
        pe_profile e = resolve_provider (ee_sha256_hex env) (pe_config e) \<and>
        validate_provider (ee_url_parse env) (pe_config e) = Inr ()) \<and>
     (\<forall>slug. slug \<in> fst ` set (er_catalog_overlay r) \<longleftrightarrow> (\<exists>p u. runtime_resolve r slug = ThirdParty p u))"

interpretation runtime: provider_runtime "runtime_ok env" runtime_resolve runtime_provider pe_config for env
proof unfold_locales
  fix r m p u
  assume "runtime_ok env r" and "runtime_resolve r m = ThirdParty p u"
  then show "m = catalog_key p u \<and> provider_id_ok p"
    using snapshot.third_party by (auto simp: runtime_ok_def runtime_resolve_def)
next
  fix r m
  assume "runtime_ok env r"
  then show "runtime_resolve r m = BuiltInOfficial \<longleftrightarrow> CHR ''/'' \<notin> set m"
    using snapshot.official by (auto simp: runtime_ok_def runtime_resolve_def)
next
  fix r m p u
  assume "runtime_ok env r" and "runtime_resolve r m = ThirdParty p u"
  then show "\<exists>e. runtime_provider r p = Some e \<and> prov_id (pe_config e) = p \<and> publishes (pe_config e) u"
    by (auto simp: runtime_ok_def)
qed

section \<open>Building a runtime\<close>

definition provider_entry :: "egress_env \<Rightarrow> network_connector \<times> network_connector \<Rightarrow> provider_config \<Rightarrow> provider_egress" where
  "provider_entry env transport p =
     \<lparr>pe_config = p, pe_profile = resolve_provider (ee_sha256_hex env) p, pe_client = fst transport,
      pe_websocket_connector = snd transport\<rparr>"

lemma add_provider_Inr:
  "add_provider env doc px m p = Inr m' \<longleftrightarrow>
     (\<exists>t. build_transport env doc px = Inr t \<and> \<not> bt_has m (prov_id p) \<and> m' = bt_insert (prov_id p) (provider_entry env t p) m)"
  by (auto simp: add_provider_def provider_entry_def split: if_splits)

lemma build_provider_map_entries:
  assumes "try_fold (add_provider env doc px) m ps = Inr m'" and "bt_get m' q = Some e"
  shows "bt_get m q = Some e \<or> (\<exists>p \<in> set ps. \<exists>t. prov_id p = q \<and> e = provider_entry env t p)"
  using assms
proof (induction ps arbitrary: m)
  case (Cons p ps)
  then obtain t where step: "try_fold (add_provider env doc px) (bt_insert (prov_id p) (provider_entry env t p) m) ps = Inr m'"
    by (auto simp: add_provider_Inr)
  from Cons.IH [OF this Cons.prems(2)] show ?case by (cases t) (auto split: if_splits)
qed simp

lemma build_provider_map_keeps:
  assumes "try_fold (add_provider env doc px) m ps = Inr m'" and "bt_get m q = Some e"
  shows "bt_get m' q = Some e"
  using assms
proof (induction ps arbitrary: m)
  case (Cons p ps)
  then obtain t where step: "try_fold (add_provider env doc px) (bt_insert (prov_id p) (provider_entry env t p) m) ps = Inr m'"
    and "\<not> bt_has m (prov_id p)"
    by (auto simp: add_provider_Inr)
  with Cons.prems have "bt_get (bt_insert (prov_id p) (provider_entry env t p) m) q = Some e"
    by (auto simp: bt_has_def)
  from Cons.IH [OF step this] show ?case .
qed simp

lemma build_provider_map_all:
  assumes "try_fold (add_provider env doc px) m ps = Inr m'" and "p \<in> set ps"
  shows "\<exists>t. bt_get m' (prov_id p) = Some (provider_entry env t p)"
  using assms
proof (induction ps arbitrary: m)
  case (Cons q ps)
  then obtain t where step: "try_fold (add_provider env doc px) (bt_insert (prov_id q) (provider_entry env t q) m) ps = Inr m'"
    by (auto simp: add_provider_Inr)
  show ?case
  proof (cases "p = q")
    case True
    with build_provider_map_keeps [OF step, of "prov_id q"] show ?thesis by (cases t) auto
  next
    case False
    with Cons.IH [OF step] Cons.prems show ?thesis by auto
  qed
qed simp

lemma validated_providers:
  "validate_document url_parse doc = Inr () \<Longrightarrow> p \<in> set (doc_providers doc) \<Longrightarrow> validate_provider url_parse p = Inr ()"
  by (auto simp: validate_document_def try_fold_unit_iff)

lemma prepared_runtime_ok:
  assumes built: "prepare_reload env doc cache = Inr r" and ids: "document_ids_ok doc"
  shows "runtime_ok env r"
proof -
  from built obtain m overlay where valid: "validate_document (ee_url_parse env) doc = Inr ()"
    and m: "try_fold (add_provider env doc (proxy_read (ee_variables env))) [] (doc_providers doc) = Inr m"
    and overlay: "overlay = sort_key fst (overlay_of doc)"
    and r: "r = \<lparr>er_routes = \<lparr>routes = published_routes doc\<rparr>, er_providers = m, er_catalog_overlay = overlay\<rparr>"
    by (auto simp: prepare_reload_def build_runtime_snapshot_def snapshot_build_Inr build_provider_map_def
        overlay_from_documents_Inr)
  note doc_valid = validate_document_valid [OF valid]
  have "\<exists>e. bt_get m p = Some e \<and> prov_id (pe_config e) = p \<and> publishes (pe_config e) u"
    if "runtime_resolve r x = ThirdParty p u" for x p u
  proof -
    from that have "bt_get (published_routes doc) x = Some (the_route p u)"
      by (auto simp: runtime_resolve_def resolve_def r split: option.splits if_splits intro: third_party_route.equality)
    then obtain c where c: "c \<in> set (doc_providers doc)" "publishes c u" "prov_id c = p"
      by (auto simp: published_routes_get [OF ids])
    from build_provider_map_all [OF m c(1)] c show ?thesis by (auto simp: provider_entry_def)
  qed
  moreover have "pe_profile e = resolve_provider (ee_sha256_hex env) (pe_config e) \<and>
      validate_provider (ee_url_parse env) (pe_config e) = Inr ()" if "bt_get m p = Some e" for p e
    using build_provider_map_entries [OF m that] validated_providers [OF valid] by (auto simp: provider_entry_def)
  moreover have "slug \<in> fst ` set overlay \<longleftrightarrow> (\<exists>p u. runtime_resolve r slug = ThirdParty p u)" for slug
    using overlay_of_slugs [OF doc_valid] resolve_third_party_iff [OF ids, of slug]
    by (simp add: overlay r runtime_resolve_def)
  ultimately show ?thesis
    using snapshot_ok_built [OF ids] by (simp add: runtime_ok_def runtime_provider_def r)
qed

lemma new_runtime_prepared:
  assumes "egress_state_new env doc cache base capability = Inr s"
  shows "prepare_reload env doc cache = Inr (es_runtime s)"
  using assms by (auto simp: egress_state_new_def prepare_reload_def Let_def)

section \<open>Reloads\<close>

text \<open>What happens to the state while the process runs.\<close>

inductive egress_step :: "egress_env \<Rightarrow> egress_state \<Rightarrow> egress_state \<Rightarrow> bool" for env where
  reload_step: "document_ids_ok doc \<Longrightarrow> reload env doc cache s = (r, t) \<Longrightarrow> egress_step env s t"
| session_step: "next_websocket_session_id s = (n, t) \<Longrightarrow> egress_step env s t"
| fallback_step: "egress_step env s (with_websocket_fallback_on_upgrade s)"

inductive egress_reachable :: "egress_env \<Rightarrow> str \<Rightarrow> str \<Rightarrow> egress_state \<Rightarrow> bool" for env base capability where
  started: "document_ids_ok doc \<Longrightarrow> egress_state_new env doc cache base capability = Inr s \<Longrightarrow>
    egress_reachable env base capability s"
| stepped: "egress_reachable env base capability s \<Longrightarrow> egress_step env s t \<Longrightarrow> egress_reachable env base capability t"

lemma reachable_runtime_ok:
  assumes "egress_reachable env base capability s"
  shows "runtime_ok env (es_runtime s) \<and> es_official_base_url s = base \<and> es_ingress_capability s = capability"
  using assms
proof induction
  case (started doc cache s)
  from new_runtime_prepared [OF started(2)] started show ?case
    by (auto simp: prepared_runtime_ok egress_state_new_def Let_def)
next
  case (stepped s t)
  from stepped(2) show ?case
  proof cases
    case (reload_step doc cache r)
    with stepped.IH show ?thesis
      by (auto simp: reload_def commit_reload_def prepared_runtime_ok split: sum.splits)
  next
    case (session_step n)
    with stepped.IH show ?thesis by (auto simp: next_websocket_session_id_def)
  next
    case fallback_step
    with stepped.IH show ?thesis by (simp add: with_websocket_fallback_on_upgrade_def)
  qed
qed

text \<open>
  C23: However often the configuration is reloaded, whether with success or not, every model that is routed to
  a third party has an entry of that provider, enabled, validated, with the profile of its
  configuration and with that model enabled; the catalog offers exactly these models; a model with a
  namespace is never official; and the official address and the capability never change. A reload that
  fails leaves the state as it is.
\<close>

theorem runtime_complete:
  assumes "egress_reachable env base capability s"
  shows "(\<forall>m p u. runtime_resolve (es_runtime s) m = ThirdParty p u \<longrightarrow>
      (\<exists>e. runtime_provider (es_runtime s) p = Some e \<and> m = catalog_key (prov_id (pe_config e)) u \<and>
        prov_enabled (pe_config e) \<and> publishes (pe_config e) u \<and>
        validate_provider (ee_url_parse env) (pe_config e) = Inr () \<and>
        pe_profile e = resolve_provider (ee_sha256_hex env) (pe_config e))) \<and>
    (\<forall>m. m \<in> fst ` set (er_catalog_overlay (es_runtime s)) \<longleftrightarrow>
      (\<exists>p u. runtime_resolve (es_runtime s) m = ThirdParty p u)) \<and>
    (\<forall>m. CHR ''/'' \<in> set m \<longrightarrow> runtime_resolve (es_runtime s) m \<noteq> BuiltInOfficial) \<and>
    es_official_base_url s = base \<and> es_ingress_capability s = capability \<and>
    (\<forall>doc cache e t. reload env doc cache s = (Inl e, t) \<longrightarrow> t = s)"
proof -
  note ok = reachable_runtime_ok [OF assms, THEN conjunct1]
  have "\<exists>e. runtime_provider (es_runtime s) p = Some e \<and> m = catalog_key (prov_id (pe_config e)) u \<and>
      prov_enabled (pe_config e) \<and> publishes (pe_config e) u \<and>
      validate_provider (ee_url_parse env) (pe_config e) = Inr () \<and>
      pe_profile e = resolve_provider (ee_sha256_hex env) (pe_config e)"
    if routed: "runtime_resolve (es_runtime s) m = ThirdParty p u" for m p u
  proof -
    obtain e where "runtime_provider (es_runtime s) p = Some e"
      using runtime.provider_available [OF ok routed] by auto
    with runtime.destination [OF ok routed this] ok show ?thesis by (auto simp: runtime_ok_def)
  qed
  moreover have "t = s" if "reload env doc cache s = (Inl e, t)" for doc cache e t
    using that by (auto simp: reload_def split: sum.splits)
  ultimately show ?thesis
    using ok runtime.fail_closed [OF ok] reachable_runtime_ok [OF assms] by (auto simp: runtime_ok_def)
qed

definition example_env :: egress_env where
  "example_env = \<lparr>ee_url_parse = example_url_parse, ee_sha256_hex = (\<lambda>s. s), ee_init_ok = True,
     ee_uri_parse = (\<lambda>_. None), ee_variables = (\<lambda>_. None)\<rparr>"

lemma example_transport: "\<exists>t. build_transport example_env doc (proxy_read (\<lambda>_. None)) = Inr t"
  by (simp add: build_transport_def build_http_connector_def build_websocket_connector_def build_connector_def
      build_http_proxies_def example_env_def proxy_read_def first_env_def List.map_filter_def or_else_def proxy_url_def
      Let_def)

lemma usable_overlay:
  "overlay_from_documents example_url_parse usable_document example_cache = Inr (sort_key fst (overlay_of usable_document))"
  using distinct_overlay_of [OF validate_document_valid [OF usable_document_validated] usable_document_ids]
  by (simp add: overlay_from_documents_Inr usable_document_validated example_cache_valid)

lemma usable_snapshot:
  "build_runtime_snapshot example_url_parse usable_document example_cache = Inr \<lparr>routes = published_routes usable_document\<rparr>"
  using validate_document_valid [OF usable_document_validated]
  by (simp add: build_runtime_snapshot_def usable_document_validated snapshot_build_eq example_cache_valid)

lemma usable_provider_map:
  "\<exists>t. build_provider_map example_env usable_document (proxy_read (\<lambda>_. None)) =
     Inr [(prov_id usable_provider, provider_entry example_env t usable_provider)]"
  using example_transport [of usable_document]
  by (auto simp: build_provider_map_def usable_document_def add_provider_def provider_entry_def bt_has_def)

lemma usable_state: "\<exists>s. egress_state_new example_env usable_document example_cache base capability = Inr s"
proof -
  have env: "ee_url_parse example_env = example_url_parse" "ee_variables example_env = (\<lambda>_. None)"
    by (simp_all add: example_env_def)
  have "providers_validate example_url_parse usable_document = Inr ()"
    using validate_document_valid [OF usable_document_validated] by (simp add: providers_validate_iff)
  with usable_provider_map example_transport [of usable_document] show ?thesis
    by (auto simp: egress_state_new_def env usable_overlay usable_snapshot Let_def)
qed

lemma usable_routed: "resolve \<lparr>routes = published_routes usable_document\<rparr> ''a/m'' = ThirdParty (ProviderId ''a'') (ModelId ''m'')"
proof -
  have "usable_provider \<in> set (doc_providers usable_document)" by (simp add: usable_document_def)
  moreover have "publishes usable_provider (ModelId ''m'')" "prov_id usable_provider = ProviderId ''a''"
    by (simp_all add: publishes_def usable_provider_def example_provider_def example_model_def)
  moreover have "''a/m'' = catalog_key (ProviderId ''a'') (ModelId ''m'')" by (simp add: for_provider_def)
  ultimately have "bt_get (published_routes usable_document) ''a/m'' = Some (the_route (ProviderId ''a'') (ModelId ''m''))"
    unfolding published_routes_get [OF usable_document_ids] by metis
  then show ?thesis by (simp add: resolve_def)
qed

theorem runtime_complete_witness:
  "\<exists>s e. egress_reachable example_env ''b'' ''c'' s \<and> runtime_provider (es_runtime s) (ProviderId ''a'') = Some e \<and>
     prov_enabled (pe_config e)"
proof -
  obtain s where s: "egress_state_new example_env usable_document example_cache ''b'' ''c'' = Inr s"
    using usable_state by blast
  then have reach: "egress_reachable example_env ''b'' ''c'' s"
    by (rule egress_reachable.started [OF usable_document_ids])
  have "er_routes (es_runtime s) = \<lparr>routes = published_routes usable_document\<rparr>"
    using s usable_snapshot by (auto simp: egress_state_new_def Let_def example_env_def)
  then have "runtime_resolve (es_runtime s) ''a/m'' = ThirdParty (ProviderId ''a'') (ModelId ''m'')"
    by (simp add: runtime_resolve_def usable_routed)
  with runtime_complete [OF reach, THEN conjunct1] reach show ?thesis by metis
qed

section \<open>Who gets in\<close>

definition looks_like_capability :: "str \<Rightarrow> bool" where
  "looks_like_capability segment \<longleftrightarrow> length segment = 64 \<and> list_all is_capability_byte segment"

definition redacted_capability :: str where
  "redacted_capability = ''/<redacted-capability>''"

definition unauthorized_request_path :: "str \<Rightarrow> str" where
  "unauthorized_request_path path =
     (case strip_prefix ''/'' path of
        None \<Rightarrow> path
      | Some candidate_and_suffix \<Rightarrow>
          (let (candidate, suffix) =
                 (case split_once (CHR ''/'') candidate_and_suffix of
                    None \<Rightarrow> (candidate_and_suffix, None)
                  | Some (candidate, suffix) \<Rightarrow> (candidate, Some suffix))
           in if \<not> looks_like_capability candidate then path
              else (case suffix of
                      None \<Rightarrow> redacted_capability
                    | Some suffix \<Rightarrow> redacted_capability @ ''/'' @ suffix)))"

definition is_loopback_listener :: "ip_addr \<Rightarrow> bool" where
  "is_loopback_listener ip \<longleftrightarrow> ip_is_loopback ip"

lemma capability_no_slash: "list_all is_capability_byte cap \<Longrightarrow> CHR ''/'' \<notin> set cap"
  by (auto simp: list_all_iff is_capability_byte_def is_ascii_digit_def)

lemma capability_from_hex_Inr:
  "capability_from_hex s = Inr cap \<longleftrightarrow> cap = s \<and> looks_like_capability s"
  by (auto simp: capability_from_hex_def looks_like_capability_def)

lemma authorized_path_Some:
  assumes "looks_like_capability (es_ingress_capability s)"
  shows "authorized_path s path = Some rest \<longleftrightarrow>
    (\<exists>suffix. rest = CHR ''/'' # suffix \<and> path = CHR ''/'' # es_ingress_capability s @ CHR ''/'' # suffix)"
proof -
  have "CHR ''/'' \<notin> set (es_ingress_capability s)"
    using assms by (simp add: looks_like_capability_def capability_no_slash)
  then have split: "split_once (CHR ''/'') (es_ingress_capability s @ CHR ''/'' # suffix) =
      Some (es_ingress_capability s, suffix)" for suffix
    by (simp add: split_once_Some)
  show ?thesis
  proof
    assume "authorized_path s path = Some rest"
    then show "\<exists>suffix. rest = CHR ''/'' # suffix \<and> path = CHR ''/'' # es_ingress_capability s @ CHR ''/'' # suffix"
      by (auto simp: authorized_path_def capability_matches_iff split_once_Some split: list.splits option.splits
          if_splits)
  next
    assume "\<exists>suffix. rest = CHR ''/'' # suffix \<and> path = CHR ''/'' # es_ingress_capability s @ CHR ''/'' # suffix"
    then show "authorized_path s path = Some rest"
      by (auto simp: authorized_path_def capability_matches_iff split)
  qed
qed

text \<open>The first segment of a path and what follows it.\<close>

definition first_segment :: "str \<Rightarrow> str option" where
  "first_segment path =
     map_option (\<lambda>s. case split_once (CHR ''/'') s of None \<Rightarrow> s | Some (a, _) \<Rightarrow> a) (strip_prefix ''/'' path)"

lemma redacted_first_segment:
  "first_segment redacted_capability = Some ''<redacted-capability>''"
  "first_segment (redacted_capability @ CHR ''/'' # suffix) = Some ''<redacted-capability>''"
proof -
  have none: "split_once (CHR ''/'') ''<redacted-capability>'' = None" by (simp add: split_once_None)
  have some: "split_once (CHR ''/'') (''<redacted-capability>'' @ CHR ''/'' # suffix) = Some (''<redacted-capability>'', suffix)"
    by (simp only: split_once_Some) simp
  show "first_segment redacted_capability = Some ''<redacted-capability>''"
    using none by (simp add: first_segment_def redacted_capability_def)
  show "first_segment (redacted_capability @ CHR ''/'' # suffix) = Some ''<redacted-capability>''"
    using some by (simp add: first_segment_def redacted_capability_def)
qed

text \<open>
  C24: A request gets in exactly when its path starts with the capability of this process as a whole segment,
  and goes on with the rest of the path; the path that is logged for a refused request is the path
  itself or, where its first segment has the form of a capability, the path with that segment replaced.
\<close>

theorem ingress_guarded:
  assumes "capability_from_hex text_value = Inr (es_ingress_capability s)"
  shows "(\<forall>rest. authorized_path s path = Some rest \<longleftrightarrow>
      (\<exists>suffix. rest = ''/'' @ suffix \<and> path = ''/'' @ text_value @ rest)) \<and>
    (\<forall>segment. first_segment (unauthorized_request_path path) = Some segment \<longrightarrow> \<not> looks_like_capability segment) \<and>
    (unauthorized_request_path path \<noteq> path \<longrightarrow>
      (\<exists>segment suffix. looks_like_capability segment \<and> path = ''/'' @ segment @ suffix \<and>
        unauthorized_request_path path = redacted_capability @ suffix))"
proof -
  have cap: "looks_like_capability (es_ingress_capability s)" "text_value = es_ingress_capability s"
    using assms by (auto simp: capability_from_hex_Inr)
  have short: "\<not> looks_like_capability ''<redacted-capability>''" by (simp add: looks_like_capability_def)
  have logged: "(unauthorized_request_path path = path \<and>
        (\<forall>segment. first_segment path = Some segment \<longrightarrow> \<not> looks_like_capability segment)) \<or>
      (\<exists>segment suffix. looks_like_capability segment \<and> path = ''/'' @ segment @ suffix \<and>
        (suffix = [] \<or> (\<exists>r. suffix = CHR ''/'' # r)) \<and> unauthorized_request_path path = redacted_capability @ suffix)"
  proof (cases "strip_prefix ''/'' path")
    case None
    then show ?thesis by (simp add: unauthorized_request_path_def first_segment_def)
  next
    case (Some s')
    then have path: "path = ''/'' @ s'" by (simp only: strip_prefix_Some)
    show ?thesis
    proof (cases "split_once (CHR ''/'') s'")
      case None
      with Some path show ?thesis
        by (cases "looks_like_capability s'") (auto simp: unauthorized_request_path_def first_segment_def)
    next
      case split: (Some x)
      obtain a b where x: "x = (a, b)" by (cases x)
      with split have "s' = a @ CHR ''/'' # b" by (simp add: split_once_Some)
      with Some path split x show ?thesis
        by (cases "looks_like_capability a") (auto simp: unauthorized_request_path_def first_segment_def)
    qed
  qed
  then have "\<forall>segment. first_segment (unauthorized_request_path path) = Some segment \<longrightarrow> \<not> looks_like_capability segment"
    using redacted_first_segment short by fastforce
  then show ?thesis
    using logged authorized_path_Some [OF cap(1), of path] cap(2) by fastforce
qed

theorem ingress_guarded_witness:
  "\<exists>s. egress_state_new example_env usable_document example_cache ''b'' (replicate 64 (CHR ''0'')) = Inr s \<and>
     authorized_path s (''/'' @ replicate 64 (CHR ''0'') @ ''/v1/models'') = Some ''/v1/models'' \<and>
     authorized_path s ''/v1/models'' = None"
proof -
  let ?cap = "replicate 64 (CHR ''0'')"
  obtain s where s: "egress_state_new example_env usable_document example_cache ''b'' ?cap = Inr s"
    using usable_state by blast
  then have "es_ingress_capability s = ?cap" by (auto simp: egress_state_new_def Let_def)
  moreover have "capability_from_hex ?cap = Inr ?cap"
    by (simp add: capability_from_hex_Inr looks_like_capability_def list_all_iff is_capability_byte_def is_ascii_digit_def)
  ultimately have "capability_from_hex ?cap = Inr (es_ingress_capability s)" by simp
  note guarded = ingress_guarded [OF this, THEN conjunct1, rule_format]
  have "\<exists>suffix. ''/v1/models'' = ''/'' @ suffix \<and>
      ''/'' @ ?cap @ ''/v1/models'' = ''/'' @ ?cap @ ''/v1/models''"
    by simp
  then have "authorized_path s (''/'' @ ?cap @ ''/v1/models'') = Some ''/v1/models''"
    unfolding guarded .
  moreover have "''/v1/models'' \<noteq> ''/'' @ ?cap @ rest" for rest
    by (auto simp: numeral_eq_Suc)
  then have "authorized_path s ''/v1/models'' \<noteq> Some rest" for rest
    unfolding guarded by blast
  then have "authorized_path s ''/v1/models'' = None" by (cases "authorized_path s ''/v1/models''") auto
  ultimately show ?thesis using s by blast
qed

text \<open>
  Only the first segment is looked at: where it is empty, as in an address joined with one slash too
  many, the capability itself is logged.
\<close>

lemma capability_after_empty_segment_logged:
  "unauthorized_request_path (''//'' @ cap @ ''/v1/responses'') = ''//'' @ cap @ ''/v1/responses''"
  by (simp add: unauthorized_request_path_def looks_like_capability_def)

end
