(* ===== verification/HttpProxy.thy ===== *)
theory HttpProxy
  imports Ingress
begin

text \<open>
  The HTTP side of \<open>provider-x-egress\<close>: \<open>server.rs\<close> from the authorized request to the response and
  \<open>request_body.rs\<close>. What the upstreams answer, the \<open>zstd\<close> decoder, the URI parser and the start of the
  Claude Code process are parameters. A response body is described by how it is made: passed through,
  converted by a decoder, or given as a whole.
\<close>

section \<open>Requests, responses and the libraries\<close>

record http_incoming =
  in_method :: str
  in_version :: nat
  in_path :: str
  in_query :: "str option"
  in_headers :: header_map
  in_body :: body_outcome

text \<open>Which of the connectors a request is sent with.\<close>

datatype upstream_client = OfficialClient | ProviderClient provider_id

record outgoing_request =
  og_client :: upstream_client
  og_method :: str
  og_uri :: str
  og_headers :: header_map
  og_body :: str

record upstream_reply =
  ur_status :: nat
  ur_version :: nat
  ur_headers :: header_map
  ur_body :: body_outcome

datatype upstream_outcome = HeadersTimedOut | ConnectFailed | RequestFailed | Answered upstream_reply

datatype downstream_body =
    PassedThrough body_outcome
  | ChatBody "(str, tool_identity) btree" nat body_outcome
  | AnthropicBody "(str, tool_identity) btree" nat body_outcome
  | ClaudeCodeBody "(str, tool_identity) btree" nat str
  | Whole str

record http_response =
  rs_status :: nat
  rs_version :: "nat option"
  rs_headers :: header_map
  rs_body :: downstream_body

text \<open>What the code does to the outside: the events for the observer, the requests it sends, the process it starts.\<close>

datatype effect = Observed egress_event | Sent outgoing_request | StartedClaude str

record server_env =
  se_codec :: codec
  se_pretty :: "json \<Rightarrow> str + str"
  se_sha256_hex :: "str \<Rightarrow> str"
  se_uri_ok :: "str \<Rightarrow> bool"
  se_header_value :: "str \<Rightarrow> str option"
  se_version :: str
  se_debug_str :: "str \<Rightarrow> str"
  se_zstd :: "str \<Rightarrow> nat \<Rightarrow> str option"
  se_send :: "outgoing_request \<Rightarrow> upstream_outcome"
  se_claude_start :: "str \<Rightarrow> bool"

section \<open>Request bodies\<close>

datatype request_encoding = Identity | Zstd

definition encoding_from_headers :: "header_map \<Rightarrow> proxy_error + request_encoding" where
  "encoding_from_headers hs =
     (case hm_get_all hs ''content-encoding'' of
        [] \<Rightarrow> Inr Identity
      | [v] \<Rightarrow>
          and_then (ok_or UnsupportedContentEncoding (header_to_str v)) (\<lambda>s.
            let s = trim s in
            if eq_ignore_ascii_case s ''identity'' then Inr Identity
            else if eq_ignore_ascii_case s ''zstd'' then Inr Zstd
            else Inl UnsupportedContentEncoding)
      | _ \<Rightarrow> Inl UnsupportedContentEncoding)"

text \<open>
  The parameter gives at most the first bytes asked for of what the frame decodes to, or nothing where
  the frame is malformed before them.
\<close>

definition decode_zstd :: "server_env \<Rightarrow> str \<Rightarrow> nat \<Rightarrow> proxy_error + str" where
  "decode_zstd env body limit =
     (case se_zstd env body (min (2 ^ 64 - 1) (limit + 1)) of
        None \<Rightarrow> Inl (InvalidRequest ''invalid zstd request body'')
      | Some out \<Rightarrow> if limit < length out then Inl BodyTooLarge else Inr out)"

definition decode_body :: "server_env \<Rightarrow> request_encoding \<Rightarrow> str \<Rightarrow> nat \<Rightarrow> proxy_error + str" where
  "decode_body env encoding body limit =
     (case encoding of Identity \<Rightarrow> Inr body | Zstd \<Rightarrow> decode_zstd env body limit)"

definition collect_request_body :: "egress_state \<Rightarrow> body_outcome \<Rightarrow> proxy_error + str" where
  "collect_request_body s body =
     (case body of
        BodyTimedOut \<Rightarrow> Inl RequestBodyTimeout
      | BodyFailed \<Rightarrow> Inl (InvalidRequest ''failed to read request body'')
      | BodyBytes bytes \<Rightarrow> if es_request_body_limit s < length bytes then Inl BodyTooLarge else Inr bytes)"

section \<open>Addresses\<close>

definition path_and_query :: "http_incoming \<Rightarrow> str" where
  "path_and_query r = (case in_query r of None \<Rightarrow> in_path r | Some q \<Rightarrow> in_path r @ ''?'' @ q)"

definition upstream_uri :: "server_env \<Rightarrow> str \<Rightarrow> http_incoming \<Rightarrow> proxy_error + str" where
  "upstream_uri env base_url r =
     and_then (ok_or InvalidUpstreamUri (strip_prefix ''/v1'' (path_and_query r))) (\<lambda>suffix.
       let uri = trim_end_matches [CHR ''/''] base_url @ suffix in
       if se_uri_ok env uri then Inr uri else Inl InvalidUpstreamUri)"

definition target_uri :: "server_env \<Rightarrow> http_target \<Rightarrow> http_incoming \<Rightarrow> proxy_error + str" where
  "target_uri env target r =
     (case target of
        PreserveIngressPath base_url \<Rightarrow> upstream_uri env base_url r
      | Exact url \<Rightarrow> if se_uri_ok env url then Inr url else Inl InvalidUpstreamUri)"

definition authorize_ingress :: "server_env \<Rightarrow> egress_state \<Rightarrow> http_incoming \<Rightarrow> proxy_error + http_incoming" where
  "authorize_ingress env s r =
     and_then (ok_or IngressNotFound (authorized_path s (in_path r))) (\<lambda>path.
       let r' = r\<lparr>in_path := path\<rparr> in
       if se_uri_ok env (path_and_query r') then Inr r'
       else Inl (InvalidRequest ''failed to normalize ingress path''))"

section \<open>Sending\<close>

definition upstream_answer :: "server_env \<Rightarrow> outgoing_request \<Rightarrow> proxy_error + upstream_reply" where
  "upstream_answer env request =
     (case se_send env request of
        HeadersTimedOut \<Rightarrow> Inl ResponseHeadersTimeout
      | ConnectFailed \<Rightarrow> Inl UpstreamConnect
      | RequestFailed \<Rightarrow> Inl Upstream
      | Answered reply \<Rightarrow> Inr reply)"

definition is_success :: "nat \<Rightarrow> bool" where
  "is_success status \<longleftrightarrow> 200 \<le> status \<and> status < 300"

definition is_error_status :: "nat \<Rightarrow> bool" where
  "is_error_status status \<longleftrightarrow> 400 \<le> status \<and> status < 600"

definition passthrough_response :: "upstream_reply \<Rightarrow> http_response" where
  "passthrough_response reply =
     \<lparr>rs_status = ur_status reply, rs_version = Some (ur_version reply),
      rs_headers = response_headers (ur_headers reply), rs_body = PassedThrough (ur_body reply)\<rparr>"

definition official_request :: "server_env \<Rightarrow> egress_state \<Rightarrow> http_incoming \<Rightarrow> str \<Rightarrow> proxy_error + outgoing_request" where
  "official_request env s r body =
     and_then (upstream_uri env (es_official_base_url s) r) (\<lambda>uri.
     Inr \<lparr>og_client = OfficialClient, og_method = in_method r, og_uri = uri,
          og_headers = official_request_headers (in_headers r), og_body = body\<rparr>)"

definition proxy_official_request ::
  "server_env \<Rightarrow> egress_state \<Rightarrow> http_incoming \<Rightarrow> str \<Rightarrow> (proxy_error + http_response) \<times> effect list" where
  "proxy_official_request env s r body =
     (case official_request env s r body of
        Inl e \<Rightarrow> (Inl e, [])
      | Inr request \<Rightarrow>
          (and_then (upstream_answer env request) (\<lambda>reply. Inr (passthrough_response reply)), [Sent request]))"

section \<open>The model catalog\<close>

definition models_request :: "server_env \<Rightarrow> egress_state \<Rightarrow> http_incoming \<Rightarrow> proxy_error + outgoing_request" where
  "models_request env s r =
     and_then (upstream_uri env (es_official_base_url s) r) (\<lambda>uri.
     Inr \<lparr>og_client = OfficialClient, og_method = ''GET'', og_uri = uri,
          og_headers =
            (if overlay_is_empty (er_catalog_overlay (es_runtime s)) then official_request_headers (in_headers r)
             else official_model_catalog_headers (in_headers r)),
          og_body = []\<rparr>)"

definition collect_catalog_body :: "nat \<Rightarrow> body_outcome \<Rightarrow> proxy_error + str" where
  "collect_catalog_body limit body =
     (case body of
        BodyTimedOut \<Rightarrow> Inl ModelCatalogBodyTimeout
      | BodyFailed \<Rightarrow> Inl InvalidOfficialModelCatalog
      | BodyBytes bytes \<Rightarrow> if limit < length bytes then Inl ModelCatalogBodyTooLarge else Inr bytes)"

definition merged_models_response :: "server_env \<Rightarrow> egress_state \<Rightarrow> upstream_reply \<Rightarrow> proxy_error + http_response" where
  "merged_models_response env s reply =
     and_then (collect_catalog_body (es_request_body_limit s) (ur_body reply)) (\<lambda>collected.
     and_then (map_err (\<lambda>_. InvalidOfficialModelCatalog)
         (overlay_merge (se_codec env) (se_pretty env) (se_sha256_hex env) (er_catalog_overlay (es_runtime s)) collected))
       (\<lambda>merged.
     and_then (ok_or RequestBuild (se_header_value env (dec_string (length (cc_bytes merged))))) (\<lambda>content_length.
     Inr \<lparr>rs_status = ur_status reply, rs_version = Some (ur_version reply),
          rs_headers = hm_insert ''content-length'' content_length
            (hm_insert ''content-type'' ''application/json'' (rewritten_response_headers (ur_headers reply))),
          rs_body = Whole (cc_bytes merged)\<rparr>)))"

definition proxy_official_models ::
  "server_env \<Rightarrow> egress_state \<Rightarrow> http_incoming \<Rightarrow> (proxy_error + http_response) \<times> effect list" where
  "proxy_official_models env s r =
     (case models_request env s r of
        Inl e \<Rightarrow> (Inl e, [])
      | Inr request \<Rightarrow>
          (and_then (upstream_answer env request) (\<lambda>reply.
             if \<not> is_success (ur_status reply) \<or> overlay_is_empty (er_catalog_overlay (es_runtime s))
             then Inr (passthrough_response reply)
             else merged_models_response env s reply), [Sent request]))"

section \<open>Inference requests\<close>

text \<open>What the route of a request asks for: an upstream request, or the Claude Code process.\<close>

datatype planned_request =
    SendRequest http_target http_response_adapter header_map str upstream_client
  | RunClaudeCode str "(str, tool_identity) btree"

definition plan_third_party ::
  "server_env \<Rightarrow> egress_state \<Rightarrow> header_map \<Rightarrow> str \<Rightarrow> provider_id \<Rightarrow> model_id \<Rightarrow> proxy_error + planned_request" where
  "plan_third_party env s hs decoded p u =
     and_then (ok_or ProviderNotAvailable (runtime_provider (es_runtime s) p)) (\<lambda>provider.
     and_then (map_err (\<lambda>e. InvalidRequest (provider_error_text (se_debug_str env) e))
         (profile_prepare_http_request (se_codec env) (pe_profile provider) decoded (model_str u)
           (es_request_body_limit s))) (\<lambda>prepared.
     if execution_backend_of (pe_profile provider) = BackendClaudeCode
     then (case prepared_adapter prepared of
             AnthropicMessagesResponse names \<Rightarrow> Inr (RunClaudeCode (prepared_body prepared) names)
           | _ \<Rightarrow> Inl ProviderNotAvailable)
     else
       and_then (map_err (\<lambda>_. RequestBuild)
           (third_party_request_headers (se_header_value env) (se_version env) hs (prov_auth (pe_config provider))
             (pe_profile provider))) (\<lambda>headers.
       Inr (SendRequest (prepared_target prepared) (prepared_adapter prepared) headers (prepared_body prepared)
              (ProviderClient p)))))"

definition plan_request ::
  "server_env \<Rightarrow> egress_state \<Rightarrow> header_map \<Rightarrow> str \<Rightarrow> str \<Rightarrow> route_decision \<Rightarrow> proxy_error + planned_request" where
  "plan_request env s hs original decoded decision =
     (case decision of
        BuiltInOfficial \<Rightarrow>
          Inr (SendRequest (PreserveIngressPath (es_official_base_url s)) Passthrough
                 (official_request_headers hs) original OfficialClient)
      | UnavailableManagedModel \<Rightarrow> Inl ModelNotAvailable
      | ThirdParty p u \<Rightarrow> plan_third_party env s hs decoded p u)"

definition convert_response :: "egress_state \<Rightarrow> http_response_adapter \<Rightarrow> upstream_reply \<Rightarrow> http_response" where
  "convert_response s adapter reply =
     (let rewrites = adapter \<noteq> Passthrough \<and> is_success (ur_status reply) in
      \<lparr>rs_status = ur_status reply, rs_version = Some (ur_version reply),
       rs_headers = (if rewrites then rewritten_response_headers (ur_headers reply)
                     else response_headers (ur_headers reply)),
       rs_body =
         (case adapter of
            ChatCompletionsResponse names \<Rightarrow>
              if is_success (ur_status reply) then ChatBody names (es_request_body_limit s) (ur_body reply)
              else PassedThrough (ur_body reply)
          | AnthropicMessagesResponse names \<Rightarrow>
              if is_success (ur_status reply) then AnthropicBody names (es_request_body_limit s) (ur_body reply)
              else PassedThrough (ur_body reply)
          | Passthrough \<Rightarrow> PassedThrough (ur_body reply))\<rparr>)"

definition request_event :: "http_incoming \<Rightarrow> inspected_request \<Rightarrow> route_decision \<Rightarrow> egress_event" where
  "request_event r inspected decision =
     RequestEvent \<lparr>ro_transport = ObservedHttp, ro_path = in_path r, ro_session_id = None, ro_sequence = 1,
       ro_model = inspected_model inspected, ro_route = observed_route_of decision,
       ro_previous_response_id_present = previous_response_id_present (inspected_metadata inspected),
       ro_client_metadata_present = (client_metadata (inspected_metadata inspected) \<noteq> None),
       ro_codex_turn_metadata_header_present = hm_contains (in_headers r) ''x-codex-turn-metadata''\<rparr>"

definition upstream_event :: "route_decision \<Rightarrow> upstream_reply \<Rightarrow> egress_event" where
  "upstream_event decision reply =
     UpstreamEvent \<lparr>uo_transport = ObservedHttp, uo_session_id = None, uo_route = observed_route_of decision,
       uo_status = ur_status reply\<rparr>"

text \<open>What is inspected of an inference request: the decoded body and the model.\<close>

definition inspect_inference ::
  "server_env \<Rightarrow> egress_state \<Rightarrow> http_incoming \<Rightarrow> str \<Rightarrow> proxy_error + str \<times> inspected_request" where
  "inspect_inference env s r original =
     and_then (encoding_from_headers (in_headers r)) (\<lambda>encoding.
     and_then (decode_body env encoding original (es_request_body_limit s)) (\<lambda>decoded.
     and_then (map_err (\<lambda>e. InvalidRequest (protocol_error_text e)) (inspect_http (se_codec env) (in_path r) decoded))
       (\<lambda>inspected. Inr (decoded, inspected))))"

definition execute_plan ::
  "server_env \<Rightarrow> egress_state \<Rightarrow> http_incoming \<Rightarrow> route_decision \<Rightarrow> planned_request \<Rightarrow>
   (proxy_error + http_response) \<times> effect list" where
  "execute_plan env s r decision planned =
     (case planned of
        RunClaudeCode body names \<Rightarrow>
          (if se_claude_start env body
           then Inr \<lparr>rs_status = 200, rs_version = None, rs_headers = [(''content-type'', ''text/event-stream'')],
                     rs_body = ClaudeCodeBody names (es_request_body_limit s) body\<rparr>
           else Inl ProviderNotAvailable, [StartedClaude body])
      | SendRequest target adapter headers body client \<Rightarrow>
          (case target_uri env target r of
             Inl e \<Rightarrow> (Inl e, [])
           | Inr uri \<Rightarrow>
               (let request = \<lparr>og_client = client, og_method = in_method r, og_uri = uri, og_headers = headers,
                              og_body = body\<rparr>
                in case upstream_answer env request of
                     Inl e \<Rightarrow> (Inl e, [Sent request])
                   | Inr reply \<Rightarrow>
                       (Inr (convert_response s adapter reply), [Sent request, Observed (upstream_event decision reply)]))))"

definition proxy_inference ::
  "server_env \<Rightarrow> egress_state \<Rightarrow> http_incoming \<Rightarrow> str \<Rightarrow> (proxy_error + http_response) \<times> effect list" where
  "proxy_inference env s r original =
     (case inspect_inference env s r original of
        Inl e \<Rightarrow> (Inl e, [])
      | Inr (decoded, inspected) \<Rightarrow>
          (let decision = runtime_resolve (es_runtime s) (inspected_model inspected);
               event = Observed (request_event r inspected decision)
           in case plan_request env s (in_headers r) original decoded decision of
                Inl e \<Rightarrow> (Inl e, [event])
              | Inr planned \<Rightarrow>
                  (case execute_plan env s r decision planned of (res, effects) \<Rightarrow> (res, event # effects))))"

definition is_inference :: "http_incoming \<Rightarrow> bool" where
  "is_inference r \<longleftrightarrow> in_method r = ''POST'' \<and> (case responses_path_try_from (in_path r) of Inl _ \<Rightarrow> False | Inr _ \<Rightarrow> True)"

definition proxy_request ::
  "server_env \<Rightarrow> egress_state \<Rightarrow> http_incoming \<Rightarrow> (proxy_error + http_response) \<times> effect list" where
  "proxy_request env s r =
     (if in_method r = ''GET'' \<and> in_path r = ''/v1/models'' then proxy_official_models env s r
      else
        (case collect_request_body s (in_body r) of
           Inl e \<Rightarrow> (Inl e, [])
         | Inr original \<Rightarrow>
             if \<not> is_inference r then proxy_official_request env s r original
             else proxy_inference env s r original))"

section \<open>Local answers\<close>

definition proxy_error_status :: "proxy_error \<Rightarrow> nat" where
  "proxy_error_status e =
     (case e of
        BodyTooLarge \<Rightarrow> 413
      | UnsupportedContentEncoding \<Rightarrow> 415
      | RequestBodyTimeout \<Rightarrow> 408
      | InvalidRequest _ \<Rightarrow> 400
      | InvalidWebSocketHandshake \<Rightarrow> 400
      | IngressNotFound \<Rightarrow> 404
      | ModelNotAvailable \<Rightarrow> 404
      | CrossOriginWebSocket \<Rightarrow> 403
      | ResponseHeadersTimeout \<Rightarrow> 504
      | ModelCatalogBodyTimeout \<Rightarrow> 504
      | ModelCatalogBodyTooLarge \<Rightarrow> 502
      | InvalidOfficialModelCatalog \<Rightarrow> 502
      | ProviderNotAvailable \<Rightarrow> 502
      | InvalidUpstreamUri \<Rightarrow> 502
      | RequestBuild \<Rightarrow> 502
      | UpstreamConnect \<Rightarrow> 502
      | Upstream \<Rightarrow> 502)"

definition local_error :: "server_env \<Rightarrow> proxy_error \<Rightarrow> http_response" where
  "local_error env e =
     \<lparr>rs_status = proxy_error_status e, rs_version = None, rs_headers = [(''content-type'', ''application/json'')],
      rs_body = Whole (http_error_body (se_codec env) (proxy_error_text e))\<rparr>"

definition error_event :: "observed_transport \<Rightarrow> str \<Rightarrow> str \<Rightarrow> bool \<Rightarrow> proxy_error \<Rightarrow> egress_event" where
  "error_event transport request_method path authorized e =
     ErrorEvent \<lparr>eo_transport = transport, eo_method = request_method, eo_path = path,
       eo_ingress_authorized = authorized, eo_status = Some (proxy_error_status e), eo_code = proxy_error_code e,
       eo_message = proxy_error_text e, eo_websocket = None\<rparr>"

definition websocket_fallback_response :: http_response where
  "websocket_fallback_response =
     \<lparr>rs_status = 426, rs_version = None, rs_headers = [(''upgrade'', ''websocket'')], rs_body = Whole []\<rparr>"

section \<open>The handshake of a WebSocket\<close>

definition is_websocket_upgrade :: "http_incoming \<Rightarrow> bool" where
  "is_websocket_upgrade r \<longleftrightarrow>
     (case Option.bind (hm_get (in_headers r) ''upgrade'') header_to_str of
        None \<Rightarrow> False
      | Some v \<Rightarrow> eq_ignore_ascii_case v ''websocket'')"

definition valid_handshake :: "http_incoming \<Rightarrow> bool" where
  "valid_handshake r \<longleftrightarrow>
     in_method r = ''GET'' \<and> 11 \<le> in_version r \<and> in_path r = ''/v1/responses'' \<and>
     list_ex (\<lambda>token. eq_ignore_ascii_case (trim token) ''upgrade'')
       (concat (map (split_on (CHR '','')) (List.map_filter header_to_str (hm_get_all (in_headers r) ''connection'')))) \<and>
     hm_get (in_headers r) ''sec-websocket-key'' \<noteq> None \<and>
     hm_get (in_headers r) ''sec-websocket-version'' = Some ''13'' \<and>
     \<not> hm_contains (in_headers r) ''sec-websocket-protocol''"

text \<open>\<open>derive_accept_key\<close> is a parameter; the session itself runs in a task of its own.\<close>

definition websocket_upgrade :: "server_env \<Rightarrow> (str \<Rightarrow> str) \<Rightarrow> http_incoming \<Rightarrow> proxy_error + http_response" where
  "websocket_upgrade env accept_key r =
     (if \<not> valid_handshake r then Inl InvalidWebSocketHandshake
      else
        and_then (ok_or InvalidWebSocketHandshake (hm_get (in_headers r) ''sec-websocket-key'')) (\<lambda>key.
        and_then (ok_or InvalidWebSocketHandshake (se_header_value env (accept_key key))) (\<lambda>accept.
        Inr \<lparr>rs_status = 101, rs_version = Some 11,
             rs_headers = [(''connection'', ''Upgrade''), (''upgrade'', ''websocket''), (''sec-websocket-accept'', accept)],
             rs_body = Whole []\<rparr>)))"

section \<open>The handler\<close>

definition refuse ::
  "server_env \<Rightarrow> observed_transport \<Rightarrow> str \<Rightarrow> str \<Rightarrow> bool \<Rightarrow> proxy_error \<Rightarrow> http_response \<times> effect list" where
  "refuse env transport request_method path authorized e =
     (local_error env e, [Observed (error_event transport request_method path authorized e)])"

definition handle_websocket ::
  "server_env \<Rightarrow> (str \<Rightarrow> str) \<Rightarrow> egress_state \<Rightarrow> http_incoming \<Rightarrow> http_response \<times> effect list" where
  "handle_websocket env accept_key s r =
     (if hm_contains (in_headers r) ''origin''
      then refuse env ObservedWebSocket (in_method r) (in_path r) True CrossOriginWebSocket
      else if es_websocket_fallback_on_upgrade s
      then (websocket_fallback_response,
            [Observed (FallbackEvent \<lparr>fo_transport = ObservedWebSocket, fo_path = in_path r, fo_status = 426\<rparr>)])
      else
        (case websocket_upgrade env accept_key r of
           Inr response \<Rightarrow> (response, [])
         | Inl e \<Rightarrow> refuse env ObservedWebSocket (in_method r) (in_path r) True e))"

definition upstream_status_event :: "http_incoming \<Rightarrow> http_response \<Rightarrow> effect list" where
  "upstream_status_event r response =
     (if is_error_status (rs_status response)
      then [Observed (ErrorEvent \<lparr>eo_transport = ObservedHttp, eo_method = in_method r, eo_path = in_path r,
              eo_ingress_authorized = True, eo_status = Some (rs_status response), eo_code = ''upstream_http_status'',
              eo_message = ''upstream returned an HTTP error status'', eo_websocket = None\<rparr>)]
      else [])"

definition handle_request ::
  "server_env \<Rightarrow> (str \<Rightarrow> str) \<Rightarrow> egress_state \<Rightarrow> http_incoming \<Rightarrow> http_response \<times> effect list" where
  "handle_request env accept_key s incoming =
     (case authorize_ingress env s incoming of
        Inl e \<Rightarrow> refuse env ObservedHttp (in_method incoming) (unauthorized_request_path (in_path incoming)) False e
      | Inr r \<Rightarrow>
          if is_websocket_upgrade r then handle_websocket env accept_key s r
          else
            (case proxy_request env s r of
               (Inr response, effects) \<Rightarrow> (response, effects @ upstream_status_event r response)
             | (Inl e, effects) \<Rightarrow>
                 (case refuse env ObservedHttp (in_method r) (in_path r) True e of
                    (response, observed) \<Rightarrow> (response, effects @ observed))))"

end
