(* ===== verification/HttpProperties.thy ===== *)
theory HttpProperties
  imports HttpProxy
begin

text \<open>
  What leaves the process over HTTP and why: nothing without the capability, nothing with a namespaced model
  to the official service, and to a provider only what its route and its credentials allow.
\<close>

section \<open>What a request causes\<close>

lemma execute_plan_effects:
  assumes "execute_plan env s r decision planned = (res, effects)"
  shows "Sent request \<in> set effects \<Longrightarrow>
      \<exists>target adapter headers body client uri. planned = SendRequest target adapter headers body client \<and>
        target_uri env target r = Inr uri \<and>
        request = \<lparr>og_client = client, og_method = in_method r, og_uri = uri, og_headers = headers, og_body = body\<rparr>"
    and "StartedClaude cli_body \<in> set effects \<Longrightarrow> \<exists>names. planned = RunClaudeCode cli_body names"
    and "length (filter (\<lambda>f. \<forall>e. f \<noteq> Observed e) effects) \<le> 1"
  using assms by (auto simp: execute_plan_def Let_def split: planned_request.splits sum.splits)

lemma plan_request_Send:
  assumes "plan_request env s hs original decoded decision = Inr (SendRequest target adapter headers body client)"
  shows "decision = BuiltInOfficial \<and> client = OfficialClient \<and> body = original \<and>
      target = PreserveIngressPath (es_official_base_url s) \<and> headers = official_request_headers hs \<or>
    (\<exists>p u e prepared. decision = ThirdParty p u \<and> client = ProviderClient p \<and>
      runtime_provider (es_runtime s) p = Some e \<and>
      execution_backend_of (pe_profile e) = BackendHttp \<and>
      profile_prepare_http_request (se_codec env) (pe_profile e) decoded (model_str u) (es_request_body_limit s) = Inr prepared \<and>
      body = prepared_body prepared \<and> target = prepared_target prepared \<and>
      third_party_request_headers (se_header_value env) (se_version env) hs (prov_auth (pe_config e)) (pe_profile e) =
        Inr headers)"
proof (cases decision)
  case (ThirdParty p u)
  with assms obtain e prepared where e: "runtime_provider (es_runtime s) p = Some e"
    and prepared: "profile_prepare_http_request (se_codec env) (pe_profile e) decoded (model_str u)
      (es_request_body_limit s) = Inr prepared"
    by (auto simp: plan_request_def plan_third_party_def)
  have "execution_backend_of (pe_profile e) = BackendHttp"
    using assms ThirdParty e prepared
    by (cases "execution_backend_of (pe_profile e)"; cases "prepared_adapter prepared")
      (auto simp: plan_request_def plan_third_party_def)
  with assms ThirdParty e prepared show ?thesis
    by (auto simp: plan_request_def plan_third_party_def)
qed (use assms in \<open>auto simp: plan_request_def\<close>)

lemma plan_request_Run:
  assumes "plan_request env s hs original decoded decision = Inr (RunClaudeCode body names)"
  shows "\<exists>p u e. decision = ThirdParty p u \<and> runtime_provider (es_runtime s) p = Some e \<and>
      execution_backend_of (pe_profile e) = BackendClaudeCode"
proof (cases decision)
  case (ThirdParty p u)
  with assms obtain e where e: "runtime_provider (es_runtime s) p = Some e"
    by (auto simp: plan_request_def plan_third_party_def)
  then have "execution_backend_of (pe_profile e) = BackendClaudeCode"
    using assms ThirdParty
    by (cases "execution_backend_of (pe_profile e)") (auto simp: plan_request_def plan_third_party_def)
  with ThirdParty e show ?thesis by blast
qed (use assms in \<open>auto simp: plan_request_def\<close>)

text \<open>What is sent is sent by one of the three ways through \<open>proxy\<close>.\<close>

lemma handle_request_sends:
  assumes "handle_request env accept_key s incoming = (response, effects)" and "Sent request \<in> set effects"
  shows "\<exists>r. authorize_ingress env s incoming = Inr r \<and> \<not> is_websocket_upgrade r \<and>
    (\<exists>res fx. proxy_request env s r = (res, fx) \<and> Sent request \<in> set fx)"
  using assms
  by (auto simp: handle_request_def refuse_def handle_websocket_def upstream_status_event_def
      split: sum.splits if_splits prod.splits)

lemma proxy_inference_sends:
  assumes "proxy_inference env s r original = (res, fx)" and "Sent request \<in> set fx"
  shows "\<exists>decoded inspected target adapter headers body client uri.
    inspect_inference env s r original = Inr (decoded, inspected) \<and>
    plan_request env s (in_headers r) original decoded (runtime_resolve (es_runtime s) (inspected_model inspected)) =
      Inr (SendRequest target adapter headers body client) \<and> target_uri env target r = Inr uri \<and>
    request = \<lparr>og_client = client, og_method = in_method r, og_uri = uri, og_headers = headers, og_body = body\<rparr>"
  using assms
  by (auto simp: proxy_inference_def Let_def dest!: execute_plan_effects(1) split: sum.splits prod.splits)

lemma official_headers_subset: "set (official_request_headers hs) \<subseteq> set hs"
  by (auto simp: official_request_headers_def Let_def)

lemma authorized_headers: "authorize_ingress env s incoming = Inr r \<Longrightarrow>
   in_headers r = in_headers incoming \<and> authorized_path s (in_path incoming) = Some (in_path r) \<and> in_body r = in_body incoming"
  by (auto simp: authorize_ingress_def Let_def split: if_splits)

text \<open>The content of an inference request, where it is one.\<close>

definition inference_of :: "server_env \<Rightarrow> egress_state \<Rightarrow> http_incoming \<Rightarrow> (str \<times> str \<times> inspected_request) option" where
  "inference_of env s r =
     (case collect_request_body s (in_body r) of
        Inl _ \<Rightarrow> None
      | Inr original \<Rightarrow>
          if \<not> is_inference r then None
          else (case inspect_inference env s r original of
                  Inl _ \<Rightarrow> None
                | Inr (decoded, inspected) \<Rightarrow> Some (original, decoded, inspected)))"

lemma models_not_inference: "in_method r = ''GET'' \<Longrightarrow> inference_of env s r = None"
  by (auto simp: inference_of_def is_inference_def split: sum.splits)

text \<open>The address of a request: for the official service and for a provider of the same protocol, the
  path behind \<open>/v1\<close> and the query under the base address; for the others, their one endpoint.\<close>

definition under_base :: "http_incoming \<Rightarrow> str \<Rightarrow> str \<Rightarrow> bool" where
  "under_base r base uri \<longleftrightarrow>
     (\<exists>rest. in_path r @ (case in_query r of None \<Rightarrow> [] | Some q \<Rightarrow> ''?'' @ q) = ''/v1'' @ rest \<and>
        uri = trim_end_matches [CHR ''/''] base @ rest)"

definition provider_address :: "http_incoming \<Rightarrow> provider_config \<Rightarrow> str \<Rightarrow> bool" where
  "provider_address r p uri \<longleftrightarrow>
     (case prov_protocol p of
        OpenaiResponses \<Rightarrow> under_base r (endpoint_http (prov_endpoints p)) uri
      | OpenaiChatCompletions \<Rightarrow>
          uri = trim_end_matches [CHR ''/''] (endpoint_http (prov_endpoints p)) @ ''/chat/completions''
      | AnthropicMessages \<Rightarrow> uri = trim_end_matches [CHR ''/''] (endpoint_http (prov_endpoints p)) @ ''/v1/messages'')"

lemma upstream_uri_under: "upstream_uri env base r = Inr uri \<Longrightarrow> under_base r base uri"
  by (cases "in_query r")
    (auto simp: upstream_uri_def under_base_def path_and_query_def ok_or_def strip_prefix_Some Let_def
      split: option.splits if_splits)

lemma planned_address:
  assumes "profile_prepare_http_request c (resolve_provider sha p) decoded model limit = Inr prepared"
    and "target_uri env (prepared_target prepared) r = Inr uri"
  shows "provider_address r p uri"
proof (cases "prov_protocol p")
  case OpenaiResponses
  with assms upstream_uri_under [of env "endpoint_http (prov_endpoints p)" r uri] show ?thesis
    by (auto simp: profile_prepare_http_request_def resolve_provider_def provider_address_def target_uri_def)
qed (use assms in \<open>auto simp: profile_prepare_http_request_def resolve_provider_def provider_address_def target_uri_def
      chat_completions_url_def messages_url_def split: if_splits\<close>)

text \<open>The request as it leaves for the official service, and for a provider.\<close>

definition leaves_official :: "server_env \<Rightarrow> egress_state \<Rightarrow> http_incoming \<Rightarrow> outgoing_request \<Rightarrow> bool" where
  "leaves_official env s r request \<longleftrightarrow>
     og_client request = OfficialClient \<and> og_method request = in_method r \<and>
     under_base r (es_official_base_url s) (og_uri request) \<and>
     set (og_headers request) \<subseteq> set (in_headers r) \<union> {(''accept-encoding'', ''identity'')} \<and>
     (if in_method r = ''GET'' \<and> in_path r = ''/v1/models'' then og_body request = []
      else in_body r = BodyBytes (og_body request)) \<and>
     (\<forall>original decoded inspected. inference_of env s r = Some (original, decoded, inspected) \<longrightarrow>
        CHR ''/'' \<notin> set (inspected_model inspected))"

definition leaves_provider ::
  "server_env \<Rightarrow> egress_state \<Rightarrow> http_incoming \<Rightarrow> outgoing_request \<Rightarrow> provider_id \<Rightarrow> model_id \<Rightarrow> provider_egress \<Rightarrow> bool" where
  "leaves_provider env s r request p u e \<longleftrightarrow>
     og_client request = ProviderClient p \<and> og_method request = in_method r \<and>
     provider_address r (pe_config e) (og_uri request) \<and>
     (\<exists>original decoded inspected prepared. inference_of env s r = Some (original, decoded, inspected) \<and>
        inspected_model inspected = catalog_key p u \<and>
        profile_prepare_http_request (se_codec env) (pe_profile e) decoded (model_str u) (es_request_body_limit s) =
          Inr prepared \<and> og_body request = prepared_body prepared) \<and>
     (\<forall>(name, v) \<in> set (og_headers request).
        issued_by (se_header_value env) (se_version env) (prov_auth (pe_config e)) name v \<or>
        (name, v) \<in> set (in_headers r) \<and> forwardable (in_headers r) name)"

lemma collected_body: "collect_request_body s body = Inr original \<Longrightarrow> body = BodyBytes original"
  by (auto simp: collect_request_body_def split: body_outcome.splits if_splits)

text \<open>
  C25: Whatever request arrives, a request leaves for an upstream only if the path carries the capability. It
  goes to the official service only if it is no inference request or its model has no namespace, and then
  under the official base address with the method and the body as they came (none for the catalog) and with no
  header that did not come with the request, but for the accepted encoding of the catalog. Otherwise
  it goes to the provider its model names, which is enabled and has that model enabled, at an
  address of that provider, with the body that the conversion for its protocol makes of the
  decoded request and the provider's own name of the model; and every header is issued by that
  provider or is one a third party may see.
\<close>

theorem requests_isolated:
  assumes reach: "egress_reachable egress_libs base capability s"
    and handled: "handle_request env accept_key s incoming = (response, effects)"
    and sent: "Sent request \<in> set effects"
  shows "\<exists>r. authorized_path s (in_path incoming) = Some (in_path r) \<and> r = incoming\<lparr>in_path := in_path r\<rparr> \<and>
    (leaves_official env s r request \<or>
     (\<exists>p u e. runtime_provider (es_runtime s) p = Some e \<and>
       prov_id (pe_config e) = p \<and> prov_enabled (pe_config e) \<and> publishes (pe_config e) u \<and>
       pe_profile e = resolve_provider (ee_sha256_hex egress_libs) (pe_config e) \<and>
       leaves_provider env s r request p u e))"
proof -
  note ok = reachable_runtime_ok [OF reach, THEN conjunct1]
  obtain r res fx where r: "authorize_ingress env s incoming = Inr r"
    and proxied: "proxy_request env s r = (res, fx)" "Sent request \<in> set fx"
    using handle_request_sends [OF handled sent] by blast
  have auth: "authorized_path s (in_path incoming) = Some (in_path r)" "r = incoming\<lparr>in_path := in_path r\<rparr>"
    using r by (auto simp: authorize_ingress_def Let_def split: if_splits)
  consider (models) "in_method r = ''GET''" "in_path r = ''/v1/models''" "proxy_official_models env s r = (res, fx)"
    | (other) original where "\<not> (in_method r = ''GET'' \<and> in_path r = ''/v1/models'')"
        "collect_request_body s (in_body r) = Inr original" "\<not> is_inference r"
        "proxy_official_request env s r original = (res, fx)"
    | (inference) original where "\<not> (in_method r = ''GET'' \<and> in_path r = ''/v1/models'')"
        "collect_request_body s (in_body r) = Inr original" "is_inference r"
        "proxy_inference env s r original = (res, fx)"
    using proxied by (auto simp: proxy_request_def split: if_splits sum.splits)
  then have "leaves_official env s r request \<or>
     (\<exists>p u e. runtime_provider (es_runtime s) p = Some e \<and>
       prov_id (pe_config e) = p \<and> prov_enabled (pe_config e) \<and> publishes (pe_config e) u \<and>
       pe_profile e = resolve_provider (ee_sha256_hex egress_libs) (pe_config e) \<and>
       leaves_provider env s r request p u e)"
  proof cases
    case models
    then obtain uri where uri: "upstream_uri env (es_official_base_url s) r = Inr uri"
      and request: "og_client request = OfficialClient" "og_method request = ''GET''" "og_uri request = uri"
        "og_body request = []" "og_headers request = official_request_headers (in_headers r) \<or>
           og_headers request = official_model_catalog_headers (in_headers r)"
      using proxied(2)
      by (auto simp: proxy_official_models_def models_request_def split: sum.splits if_splits)
    have "set (og_headers request) \<subseteq> set (in_headers r) \<union> {(''accept-encoding'', ''identity'')}"
      using request(5) official_headers_subset [of "in_headers r"]
      by (auto simp: official_model_catalog_headers_def set_hm_insert)
    then have "leaves_official env s r request"
      using request(1-4) models(1,2) upstream_uri_under [OF uri] models_not_inference [OF models(1)]
      by (simp add: leaves_official_def)
    then show ?thesis ..
  next
    case other
    then obtain uri where uri: "upstream_uri env (es_official_base_url s) r = Inr uri"
      and request: "request = \<lparr>og_client = OfficialClient, og_method = in_method r, og_uri = uri,
        og_headers = official_request_headers (in_headers r), og_body = original\<rparr>"
      using proxied(2) by (auto simp: proxy_official_request_def official_request_def split: sum.splits)
    have "inference_of env s r = None" using other(2,3) by (simp add: inference_of_def)
    then have "leaves_official env s r request"
      using other(1) collected_body [OF other(2)] upstream_uri_under [OF uri] official_headers_subset [of "in_headers r"]
      by (auto simp: leaves_official_def request)
    then show ?thesis ..
  next
    case inference
    obtain decoded inspected target adapter headers body client uri where
      inspected: "inspect_inference env s r original = Inr (decoded, inspected)"
      and plan: "plan_request env s (in_headers r) original decoded
        (runtime_resolve (es_runtime s) (inspected_model inspected)) = Inr (SendRequest target adapter headers body client)"
      and uri: "target_uri env target r = Inr uri"
      and request: "request = \<lparr>og_client = client, og_method = in_method r, og_uri = uri, og_headers = headers, og_body = body\<rparr>"
      using proxy_inference_sends [OF inference(4) proxied(2)] by blast
    have content: "inference_of env s r = Some (original, decoded, inspected)"
      using inference inspected by (simp add: inference_of_def)
    from plan_request_Send [OF plan] show ?thesis
    proof (elim disjE exE conjE)
      assume routed: "runtime_resolve (es_runtime s) (inspected_model inspected) = BuiltInOfficial"
        and plan: "client = OfficialClient" "body = original" "target = PreserveIngressPath (es_official_base_url s)"
          "headers = official_request_headers (in_headers r)"
      have "under_base r (es_official_base_url s) uri"
        using uri plan(3) by (intro upstream_uri_under [of env]) (simp add: target_uri_def)
      moreover have "CHR ''/'' \<notin> set (inspected_model inspected)"
        using runtime.official [OF ok] routed by blast
      ultimately have "leaves_official env s r request"
        using inference(1) collected_body [OF inference(2)] official_headers_subset [of "in_headers r"]
        by (auto simp: leaves_official_def request plan content)
      then show ?thesis ..
    next
      fix p u e prepared
      assume routed: "runtime_resolve (es_runtime s) (inspected_model inspected) = ThirdParty p u"
        and e: "client = ProviderClient p" "runtime_provider (es_runtime s) p = Some e"
        and prepared: "profile_prepare_http_request (se_codec env) (pe_profile e) decoded (model_str u)
          (es_request_body_limit s) = Inr prepared" "body = prepared_body prepared" "target = prepared_target prepared"
        and hs: "third_party_request_headers (se_header_value env) (se_version env) (in_headers r)
          (prov_auth (pe_config e)) (pe_profile e) = Inr headers"
      have id: "prov_id (pe_config e) = p" using runtime.routed_entry [OF ok routed] e by auto
      have profile: "pe_profile e = resolve_provider (ee_sha256_hex egress_libs) (pe_config e)"
        using ok e(2) by (auto simp: runtime_ok_def)
      have "provider_address r (pe_config e) uri"
        using prepared(1) uri unfolding profile prepared(3) by (rule planned_address)
      moreover have "inspected_model inspected = catalog_key p u"
        using runtime.destination [OF ok routed e(2)] id by simp
      ultimately have "leaves_provider env s r request p u e"
        using content prepared(1,2) third_party_request_confined [OF hs]
        by (auto simp: leaves_provider_def request e(1))
      then show ?thesis using e(2) id profile runtime.destination [OF ok routed e(2)] by blast
    qed
  qed
  with auth show ?thesis by blast
qed

section \<open>A request to a provider\<close>

definition inference_codec :: codec where
  "inference_codec =
     \<lparr>parse = (\<lambda>_. Inr (JObject [(''model'', JString ''a/m'')])), to_vec = (\<lambda>_. Inr ''{}''), display = (\<lambda>_. [])\<rparr>"

definition example_server :: server_env where
  "example_server =
     \<lparr>se_codec = inference_codec, se_pretty = (\<lambda>_. Inr []), se_sha256_hex = (\<lambda>s. s), se_uri_ok = (\<lambda>_. True),
      se_header_value = Some, se_version = ''1'', se_debug_str = (\<lambda>s. s), se_zstd = (\<lambda>_ _. None),
      se_send = (\<lambda>_. RequestFailed), se_claude_start = (\<lambda>_. False)\<rparr>"

definition example_incoming :: http_incoming where
  "example_incoming =
     \<lparr>in_method = ''POST'', in_version = 11, in_path = ''/c/v1/responses'', in_query = None,
      in_headers = [(''authorization'', ''official'')], in_body = BodyBytes []\<rparr>"

definition inside :: http_incoming where
  "inside = example_incoming\<lparr>in_path := ''/v1/responses''\<rparr>"

lemma example_authorized: "es_ingress_capability s = ''c'' \<Longrightarrow> authorize_ingress example_server s example_incoming = Inr inside"
  by (simp add: authorize_ingress_def authorized_path_def example_incoming_def capability_matches_iff example_server_def
      inside_def Let_def)

lemma example_no_upgrade: "\<not> is_websocket_upgrade inside"
  by (simp add: is_websocket_upgrade_def inside_def example_incoming_def hm_get_def)

definition example_inspected :: inspected_request where
  "example_inspected = \<lparr>inspected_model = ''a/m'',
     inspected_metadata = \<lparr>client_metadata = None, previous_response_id_present = False\<rparr>\<rparr>"

lemma example_inspect: "inspect_inference example_server s inside [] = Inr ([], example_inspected)"
proof -
  have "encoding_from_headers (in_headers inside) = Inr Identity"
    by (simp add: encoding_from_headers_def inside_def example_incoming_def hm_get_all_def)
  moreover have "inspect_http (se_codec example_server) (in_path inside) [] = Inr example_inspected"
    by (simp add: inspect_http_def responses_path_try_from_def inside_def example_server_def parse_object_def
        inference_codec_def as_object_def inspect_object_def map_get_Cons as_str_JString trim_eval example_inspected_def)
  ultimately show ?thesis by (simp add: inspect_inference_def decode_body_def)
qed

lemma example_inference: "is_inference inside \<and> in_method inside \<noteq> ''GET''"
  by (simp add: is_inference_def inside_def example_incoming_def responses_path_try_from_def)

lemma example_plan:
  assumes "runtime_provider (es_runtime s) (ProviderId ''a'') = Some (provider_entry example_env t usable_provider)"
  shows "\<exists>target hs. plan_request example_server s (in_headers inside) [] [] (ThirdParty (ProviderId ''a'') (ModelId ''m'')) =
      Inr (SendRequest target Passthrough hs ''{}'' (ProviderClient (ProviderId ''a'')))"
proof -
  have profile: "prof_adapter (resolve_provider (\<lambda>s. s) usable_provider) = OpenaiResponses"
    by (simp add: resolve_provider_def usable_provider_def example_provider_def)
  have backend: "execution_backend_of (resolve_provider (\<lambda>s. s) usable_provider) = BackendHttp"
    by (simp add: execution_backend_of_def resolve_provider_def auth_style_of_def usable_provider_def example_provider_def)
  from validated_http_headers [OF usable_provider_validated backend, of Some "''1''" "in_headers inside"]
  obtain hs where "third_party_request_headers Some ''1'' (in_headers inside) (prov_auth usable_provider)
      (resolve_provider (\<lambda>s. s) usable_provider) = Inr hs" by auto
  moreover have "rewrite_http_model inference_codec [] ''m'' = Inr ''{}''"
    by (simp add: rewrite_http_model_def rewrite_model_def trim_eval parse_object_def inference_codec_def as_object_def
        map_get_Cons as_str_JString)
  ultimately show ?thesis
    using assms profile backend
    by (simp add: plan_request_def plan_third_party_def provider_entry_def example_env_def example_server_def
        profile_prepare_http_request_def)
qed

lemma example_state:
  "\<exists>s t. egress_reachable example_env ''b'' ''c'' s \<and> es_ingress_capability s = ''c'' \<and>
     runtime_resolve (es_runtime s) ''a/m'' = ThirdParty (ProviderId ''a'') (ModelId ''m'') \<and>
     runtime_provider (es_runtime s) (ProviderId ''a'') = Some (provider_entry example_env t usable_provider)"
proof -
  obtain s where s: "egress_state_new example_env usable_document example_cache ''b'' ''c'' = Inr s"
    using usable_state by blast
  obtain t where map: "build_provider_map example_env usable_document (proxy_read (\<lambda>_. None)) =
      Inr [(prov_id usable_provider, provider_entry example_env t usable_provider)]"
    using usable_provider_map by blast
  have "prov_id usable_provider = ProviderId ''a''" by (simp add: usable_provider_def example_provider_def)
  with s map have "runtime_provider (es_runtime s) (ProviderId ''a'') = Some (provider_entry example_env t usable_provider)"
    by (auto simp: egress_state_new_def Let_def example_env_def runtime_provider_def bt_get_Cons)
  moreover have "runtime_resolve (es_runtime s) ''a/m'' = ThirdParty (ProviderId ''a'') (ModelId ''m'')"
    using s usable_snapshot usable_routed
    by (auto simp: egress_state_new_def Let_def example_env_def runtime_resolve_def)
  moreover have "egress_reachable example_env ''b'' ''c'' s"
    by (rule egress_reachable.started [OF usable_document_ids s])
  ultimately show ?thesis using reachable_runtime_ok by blast
qed

theorem requests_isolated_witness:
  "\<exists>s response effects request. egress_reachable example_env ''b'' ''c'' s \<and>
     handle_request example_server (\<lambda>k. k) s example_incoming = (response, effects) \<and> Sent request \<in> set effects \<and>
     og_client request = ProviderClient (ProviderId ''a'') \<and>
     (''authorization'', ''official'') \<notin> set (og_headers request)"
proof -
  obtain s t where reach: "egress_reachable example_env ''b'' ''c'' s" and cap: "es_ingress_capability s = ''c''"
    and routed: "runtime_resolve (es_runtime s) ''a/m'' = ThirdParty (ProviderId ''a'') (ModelId ''m'')"
    and entry: "runtime_provider (es_runtime s) (ProviderId ''a'') = Some (provider_entry example_env t usable_provider)"
    using example_state by blast
  obtain target hs where plan: "plan_request example_server s (in_headers inside) [] [] (ThirdParty (ProviderId ''a'') (ModelId ''m'')) =
      Inr (SendRequest target Passthrough hs ''{}'' (ProviderClient (ProviderId ''a'')))"
    using example_plan [OF entry] by blast
  obtain uri where uri: "target_uri example_server target inside = Inr uri"
  proof -
    have "\<exists>uri. target_uri example_server target inside = Inr uri"
      by (cases target) (simp_all add: target_uri_def upstream_uri_def path_and_query_def inside_def example_incoming_def
          example_server_def)
    then show thesis using that by blast
  qed
  let ?request = "\<lparr>og_client = ProviderClient (ProviderId ''a''), og_method = in_method inside, og_uri = uri,
      og_headers = hs, og_body = ''{}''\<rparr>"
  have answer: "upstream_answer example_server ?request = Inl Upstream"
    by (simp add: upstream_answer_def example_server_def)
  obtain event where "proxy_inference example_server s inside [] = (Inl Upstream, [event, Sent ?request])"
    using example_inspect [of s] routed plan uri answer
    by (simp add: proxy_inference_def example_inspected_def execute_plan_def Let_def)
  moreover have "collect_request_body s (in_body inside) = Inr []"
    by (simp add: collect_request_body_def inside_def example_incoming_def)
  ultimately obtain response effects where
    handled: "handle_request example_server (\<lambda>k. k) s example_incoming = (response, effects)" "Sent ?request \<in> set effects"
    using example_authorized [OF cap] example_no_upgrade example_inference
    by (simp add: handle_request_def proxy_request_def refuse_def)
  from requests_isolated [OF reach handled]
  obtain r p u e where r: "r = example_incoming\<lparr>in_path := in_path r\<rparr>"
    and e: "runtime_provider (es_runtime s) p = Some e" and leaves: "leaves_provider example_server s r ?request p u e"
    by (auto simp: leaves_official_def)
  have headers: "in_headers r = in_headers example_incoming" by (subst r) simp
  from leaves have "p = ProviderId ''a''" by (simp add: leaves_provider_def)
  with e entry have "e = provider_entry example_env t usable_provider" by simp
  with leaves have "\<forall>(name, v) \<in> set hs.
      issued_by Some ''1'' (prov_auth (pe_config (provider_entry example_env t usable_provider))) name v \<or>
      (name, v) \<in> set (in_headers example_incoming) \<and> forwardable (in_headers example_incoming) name"
    by (simp add: leaves_provider_def headers example_server_def)
  moreover have "prov_auth (pe_config (provider_entry example_env t usable_provider)) = Bearer ''key''"
    by (simp add: provider_entry_def usable_provider_def example_provider_def)
  moreover have "\<not> issued_by Some ''1'' (Bearer ''key'') ''authorization'' ''official''"
    "\<not> forwardable (in_headers example_incoming) ''authorization''"
    by (simp_all add: issued_by_def forwardable_def is_sensitive_official_header_def)
  ultimately have "(''authorization'', ''official'') \<notin> set hs" by fastforce
  with reach handled show ?thesis by force
qed

section \<open>What the catalog offers is served\<close>

text \<open>A request for a model the catalog offers is never answered with an unavailable model or provider: it
  is planned, for the provider the model names, unless its content cannot be converted, which is a
  request error, or \<open>HeaderValue::from_str\<close> rejects the credentials of the provider.
\<close>

theorem offered_models_planned:
  assumes reach: "egress_reachable egress_libs base capability s"
    and offered: "model \<in> fst ` set (er_catalog_overlay (es_runtime s))"
  shows "\<exists>p u e. runtime_resolve (es_runtime s) model = ThirdParty p u \<and> model = catalog_key p u \<and>
    runtime_provider (es_runtime s) p = Some e \<and>
    ((\<exists>planned. plan_request env s hs original decoded (ThirdParty p u) = Inr planned) \<or>
     (\<exists>message. plan_request env s hs original decoded (ThirdParty p u) = Inl (InvalidRequest message)) \<or>
     plan_request env s hs original decoded (ThirdParty p u) = Inl RequestBuild \<and>
       (\<exists>t \<in> set (header_texts (pe_profile e) (prov_auth (pe_config e))). se_header_value env t = None))"
proof -
  note ok = reachable_runtime_ok [OF reach, THEN conjunct1]
  from offered ok obtain p u where routed: "runtime_resolve (es_runtime s) model = ThirdParty p u"
    by (auto simp: runtime_ok_def)
  obtain e where e: "runtime_provider (es_runtime s) p = Some e"
    using runtime.provider_available [OF ok routed] by auto
  with ok have valid: "validate_provider (ee_url_parse egress_libs) (pe_config e) = Inr ()"
    and profile: "pe_profile e = resolve_provider (ee_sha256_hex egress_libs) (pe_config e)"
    by (auto simp: runtime_ok_def)
  have "(\<exists>planned. plan_request env s hs original decoded (ThirdParty p u) = Inr planned) \<or>
     (\<exists>message. plan_request env s hs original decoded (ThirdParty p u) = Inl (InvalidRequest message)) \<or>
     plan_request env s hs original decoded (ThirdParty p u) = Inl RequestBuild \<and>
       (\<exists>t \<in> set (header_texts (pe_profile e) (prov_auth (pe_config e))). se_header_value env t = None)"
  proof (cases "profile_prepare_http_request (se_codec env) (pe_profile e) decoded (model_str u) (es_request_body_limit s)")
    case (Inl err)
    with e show ?thesis by (auto simp: plan_request_def plan_third_party_def)
  next
    case (Inr prepared)
    show ?thesis
    proof (cases "execution_backend_of (pe_profile e)")
      case BackendHttp
      with validated_http_headers [OF valid, of "ee_sha256_hex egress_libs" "se_header_value env" "se_version env" hs]
        profile e Inr show ?thesis
        by (simp add: plan_request_def plan_third_party_def split: if_splits)
    next
      case BackendClaudeCode
      then have "prov_auth (pe_config e) = ClaudeCode" using profile by (simp add: backend_claude_code)
      with validate_provider_Inr [OF valid] have "prof_adapter (pe_profile e) = AnthropicMessages"
        by (simp add: profile resolve_provider_def)
      with Inr have "\<exists>names. prepared_adapter prepared = AnthropicMessagesResponse names"
        by (auto simp: profile_prepare_http_request_def)
      with BackendClaudeCode e Inr show ?thesis
        by (auto simp: plan_request_def plan_third_party_def)
    qed
  qed
  then show ?thesis using e routed runtime.third_party [OF ok routed] by blast
qed

theorem offered_models_planned_witness:
  "\<exists>s p u. egress_reachable example_env ''b'' ''c'' s \<and> runtime_resolve (es_runtime s) ''a/m'' = ThirdParty p u \<and>
     plan_request example_server s (in_headers inside) [] [] (ThirdParty p u) \<noteq> Inl ModelNotAvailable"
proof -
  obtain s t where reach: "egress_reachable example_env ''b'' ''c'' s"
    and routed: "runtime_resolve (es_runtime s) ''a/m'' = ThirdParty (ProviderId ''a'') (ModelId ''m'')"
    using example_state by blast
  have "''a/m'' \<in> fst ` set (er_catalog_overlay (es_runtime s))"
    using reachable_runtime_ok [OF reach] routed by (auto simp: runtime_ok_def)
  from offered_models_planned [OF reach this, of example_server "in_headers inside" "[]" "[]"]
  obtain p u where "runtime_resolve (es_runtime s) ''a/m'' = ThirdParty p u"
    "plan_request example_server s (in_headers inside) [] [] (ThirdParty p u) \<noteq> Inl ModelNotAvailable"
    by fastforce
  with reach show ?thesis by blast
qed

end
