(* ===== verification/HttpBody.thy ===== *)
theory HttpBody
  imports ChatProperties AnthropicProperties
begin

text \<open>
  The converting response bodies \<open>chat_http_bridge.rs\<close> and \<open>anthropic_http_bridge.rs\<close> and the pass-through
  body of \<open>timeouts.rs\<close> of \<open>provider-x-egress\<close>: one call of \<open>poll_frame\<close> is a function of what the
  upstream body has to give at that moment. Both converting bodies have the same code but for the decoder
  and the text of the timeout; the decoder is the pair of its \<open>push\<close> and \<open>finish\<close>. The lemmas show
  that polling delivers exactly the events of the decoder, in order, and comes to an end.
\<close>

text \<open>
  What the inner body gives when it is polled. \<open>InnerPending\<close> tells whether the idle timer has run out
  by then; the timer is set anew by every frame.
\<close>

datatype inner_event = InnerData str | InnerTrailers | InnerFailed | InnerEnded | InnerPending bool

datatype 'e polled = ReadyData str | ReadyTrailers | DecoderError 'e | BodyError | IdleTimeout | ReadyEnd | PollPending

record 'd body_state =
  bs_decoder :: 'd
  bs_pending :: "str list"
  bs_upstream_done :: bool

definition body_new :: "'d \<Rightarrow> 'd body_state" where
  "body_new d = \<lparr>bs_decoder = d, bs_pending = [], bs_upstream_done = False\<rparr>"

definition sse_frame :: "str \<Rightarrow> str" where
  "sse_frame event = ''data: '' @ event @ [LF, LF]"

text \<open>\<open>pending.extend(events)\<close>, then \<open>pop_front\<close>.\<close>

definition offer :: "str list \<Rightarrow> 'd body_state \<Rightarrow> str option \<times> 'd body_state" where
  "offer events b =
     (case bs_pending b @ map sse_frame events of
        [] \<Rightarrow> (None, b\<lparr>bs_pending := []\<rparr>)
      | frame # rest \<Rightarrow> (Some frame, b\<lparr>bs_pending := rest\<rparr>))"

text \<open>The loop of a poll; the second argument tells that the timer was set by a frame in this poll.\<close>

fun poll_inner ::
  "(str \<Rightarrow> ('d, 'e, str list) action) \<Rightarrow> ('d, 'e, str list) action \<Rightarrow> bool \<Rightarrow> inner_event list \<Rightarrow> 'd body_state \<Rightarrow>
   'e polled \<times> inner_event list \<times> 'd body_state" where
  "poll_inner push finish fresh [] b = (PollPending, [], b)"
| "poll_inner push finish fresh (InnerPending expired # inner) b =
     (if expired \<and> \<not> fresh then IdleTimeout else PollPending, inner, b)"
| "poll_inner push finish fresh (InnerTrailers # inner) b = poll_inner push finish True inner b"
| "poll_inner push finish fresh (InnerFailed # inner) b = (BodyError, inner, b)"
| "poll_inner push finish fresh (InnerEnded # inner) b =
     (case finish (bs_decoder b) of
        (Inl e, d) \<Rightarrow> (DecoderError e, inner, b\<lparr>bs_decoder := d\<rparr>)
      | (Inr events, d) \<Rightarrow>
          (case offer events (b\<lparr>bs_decoder := d\<rparr>) of
             (None, b) \<Rightarrow> (ReadyEnd, inner, b\<lparr>bs_upstream_done := True\<rparr>)
           | (Some frame, b) \<Rightarrow> (ReadyData frame, inner, b\<lparr>bs_upstream_done := True\<rparr>)))"
| "poll_inner push finish fresh (InnerData data # inner) b =
     (case push data (bs_decoder b) of
        (Inl e, d) \<Rightarrow> (DecoderError e, inner, b\<lparr>bs_decoder := d\<rparr>)
      | (Inr events, d) \<Rightarrow>
          (case offer events (b\<lparr>bs_decoder := d\<rparr>) of
             (None, b) \<Rightarrow> poll_inner push finish True inner b
           | (Some frame, b) \<Rightarrow> (ReadyData frame, inner, b)))"

definition poll_frame ::
  "(str \<Rightarrow> ('d, 'e, str list) action) \<Rightarrow> ('d, 'e, str list) action \<Rightarrow> inner_event list \<Rightarrow> 'd body_state \<Rightarrow>
   'e polled \<times> inner_event list \<times> 'd body_state" where
  "poll_frame push finish inner b =
     (case bs_pending b of
        frame # rest \<Rightarrow> (ReadyData frame, inner, b\<lparr>bs_pending := rest\<rparr>)
      | [] \<Rightarrow> if bs_upstream_done b then (ReadyEnd, inner, b) else poll_inner push finish False inner b)"

text \<open>The body that passes everything on.\<close>

definition idle_poll_frame :: "inner_event list \<Rightarrow> 'e polled \<times> inner_event list" where
  "idle_poll_frame inner =
     (case inner of
        [] \<Rightarrow> (PollPending, [])
      | InnerData data # rest \<Rightarrow> (ReadyData data, rest)
      | InnerTrailers # rest \<Rightarrow> (ReadyTrailers, rest)
      | InnerFailed # rest \<Rightarrow> (BodyError, rest)
      | InnerEnded # rest \<Rightarrow> (ReadyEnd, rest)
      | InnerPending expired # rest \<Rightarrow> (if expired then IdleTimeout else PollPending, rest))"

definition chat_body_poll ::
  "codec \<Rightarrow> nat \<Rightarrow> inner_event list \<Rightarrow> chat_decoder body_state \<Rightarrow>
   chat_error polled \<times> inner_event list \<times> chat_decoder body_state" where
  "chat_body_poll c nanos = poll_frame (chat_push c nanos) (chat_finish c nanos)"

definition anthropic_body_poll ::
  "codec \<Rightarrow> nat \<Rightarrow> inner_event list \<Rightarrow> anthropic_decoder body_state \<Rightarrow>
   anthropic_error polled \<times> inner_event list \<times> anthropic_decoder body_state" where
  "anthropic_body_poll c nanos = poll_frame (anthropic_push c nanos) (anthropic_finish c nanos)"

section \<open>Polling to the end\<close>

text \<open>
  The client polls again after a frame and when it is woken, and stops at the end and at an error. The
  result is what it got, and how it ended; nothing, where the fuel did not last.
\<close>

fun drive ::
  "('i \<Rightarrow> 's \<Rightarrow> 'e polled \<times> 'i \<times> 's) \<Rightarrow> nat \<Rightarrow> 'i \<Rightarrow> 's \<Rightarrow> str list \<times> 'e polled option" where
  "drive poll 0 inner b = ([], None)"
| "drive poll (Suc n) inner b =
     (case poll inner b of
        (ReadyData frame, inner, b) \<Rightarrow> (case drive poll n inner b of (got, r) \<Rightarrow> (frame # got, r))
      | (PollPending, inner, b) \<Rightarrow> drive poll n inner b
      | (r, _, _) \<Rightarrow> ([], Some r))"

text \<open>What the decoder makes of the chunks: the events up to the first error, and that error.\<close>

fun decode_all ::
  "(str \<Rightarrow> ('d, 'e, str list) action) \<Rightarrow> ('d, 'e, str list) action \<Rightarrow> str list \<Rightarrow> 'd \<Rightarrow> str list \<times> 'e option" where
  "decode_all push finish [] d =
     (case finish d of (Inl e, _) \<Rightarrow> ([], Some e) | (Inr events, _) \<Rightarrow> (events, None))"
| "decode_all push finish (chunk # chunks) d =
     (case push chunk d of
        (Inl e, _) \<Rightarrow> ([], Some e)
      | (Inr events, d) \<Rightarrow> (case decode_all push finish chunks d of (rest, r) \<Rightarrow> (events @ rest, r)))"

text \<open>An upstream body that ends: chunks, trailers and waiting times that never exceed the timeout.\<close>

definition ends_well :: "inner_event list \<Rightarrow> bool" where
  "ends_well inner \<longleftrightarrow>
     (\<exists>events. inner = events @ [InnerEnded] \<and>
        (\<forall>e \<in> set events. (\<exists>data. e = InnerData data) \<or> e = InnerTrailers \<or> e = InnerPending False))"

definition chunks_of :: "inner_event list \<Rightarrow> str list" where
  "chunks_of inner = List.map_filter (\<lambda>e. case e of InnerData data \<Rightarrow> Some data | _ \<Rightarrow> None) inner"

definition waits :: "inner_event list \<Rightarrow> nat" where
  "waits inner = length (filter (\<lambda>e. \<exists>x. e = InnerPending x) inner)"

lemma ends_well_Cons:
  "ends_well (e # inner) \<longleftrightarrow> e = InnerEnded \<and> inner = [] \<or>
     ((\<exists>data. e = InnerData data) \<or> e = InnerTrailers \<or> e = InnerPending False) \<and> ends_well inner"
proof
  assume "ends_well (e # inner)"
  then obtain events where "e # inner = events @ [InnerEnded]"
    "\<forall>e \<in> set events. (\<exists>data. e = InnerData data) \<or> e = InnerTrailers \<or> e = InnerPending False"
    by (auto simp: ends_well_def)
  then show "e = InnerEnded \<and> inner = [] \<or>
      ((\<exists>data. e = InnerData data) \<or> e = InnerTrailers \<or> e = InnerPending False) \<and> ends_well inner"
    by (cases events) (auto simp: ends_well_def)
next
  assume "e = InnerEnded \<and> inner = [] \<or>
      ((\<exists>data. e = InnerData data) \<or> e = InnerTrailers \<or> e = InnerPending False) \<and> ends_well inner"
  then show "ends_well (e # inner)"
    by (auto simp: ends_well_def intro: exI [of _ "e # events" for events])
qed

lemma ends_well_Nil [simp]: "\<not> ends_well []"
  by (simp add: ends_well_def)

definition carry_on ::
  "('i \<Rightarrow> 's \<Rightarrow> str list \<times> 'e polled option) \<Rightarrow> 'e polled \<times> 'i \<times> 's \<Rightarrow> str list \<times> 'e polled option" where
  "carry_on again polled =
     (case polled of
        (ReadyData frame, inner, b) \<Rightarrow> (case again inner b of (got, r) \<Rightarrow> (frame # got, r))
      | (PollPending, inner, b) \<Rightarrow> again inner b
      | (r, _, _) \<Rightarrow> ([], Some r))"

lemma drive_Suc: "drive poll (Suc n) inner b = carry_on (drive poll n) (poll inner b)"
  by (simp add: carry_on_def)

lemma carry_on_simps [simp]:
  "carry_on again (ReadyData frame, inner, b) = (frame # fst (again inner b), snd (again inner b))"
  "carry_on again (PollPending, inner, b) = again inner b"
  "carry_on again (ReadyEnd, inner, b) = ([], Some ReadyEnd)"
  "carry_on again (DecoderError e, inner, b) = ([], Some (DecoderError e))"
  by (simp_all add: carry_on_def split: prod.split)

declare drive.simps(2) [simp del]

lemma poll_frame_inner:
  "bs_pending b = [] \<Longrightarrow> \<not> bs_upstream_done b \<Longrightarrow>
   poll_frame push finish inner b = poll_inner push finish False inner b"
  by (simp add: poll_frame_def)

lemma drain_pending:
  "bs_pending b = frames' \<Longrightarrow> length frames' \<le> n \<Longrightarrow>
   drive (poll_frame push finish) n inner b =
     (let (got, r) = drive (poll_frame push finish) (n - length frames') inner (b\<lparr>bs_pending := []\<rparr>)
      in (frames' @ got, r))"
proof (induction frames' arbitrary: b n)
  case Nil
  then have same: "b\<lparr>bs_pending := []\<rparr> = b" by simp
  show ?case by (simp add: same split: prod.split)
next
  case (Cons frame rest)
  from Cons.prems obtain m where [simp]: "n = Suc m" and "length rest \<le> m"
    by (cases n) auto
  with Cons.IH [of "b\<lparr>bs_pending := rest\<rparr>" m] show ?case
    by (simp add: drive_Suc poll_frame_def Cons.prems(1) Let_def split: prod.split)
qed

lemma drive_done:
  assumes "bs_upstream_done b" "length (bs_pending b) < n"
  shows "drive (poll_frame push finish) n inner b = (bs_pending b, Some ReadyEnd)"
proof -
  from assms(2) obtain m where "n - length (bs_pending b) = Suc m"
    by (metis Suc_diff_Suc)
  with assms show ?thesis
    by (subst drain_pending [OF refl]) (simp_all add: drive_Suc poll_frame_def)
qed

text \<open>How much fuel \<open>drive\<close> needs, and what it gives.\<close>

definition ended :: "'e option \<Rightarrow> 'e polled option" where
  "ended r = Some (case r of None \<Rightarrow> ReadyEnd | Some e \<Rightarrow> DecoderError e)"

lemma offer_none: "bs_pending b = [] \<Longrightarrow> offer [] b = (None, b)"
  by (simp add: offer_def)

lemma offer_some:
  "bs_pending b = [] \<Longrightarrow> offer (f # fs) b = (Some (sse_frame f), b\<lparr>bs_pending := map sse_frame fs\<rparr>)"
  by (simp add: offer_def)

lemma drain_frames:
  assumes "bs_pending b = []" "length fs \<le> n"
  shows "drive (poll_frame push finish) n inner (b\<lparr>bs_pending := fs\<rparr>) =
    (let (got, r) = drive (poll_frame push finish) (n - length fs) inner b in (fs @ got, r))"
  using assms by (cases b) (simp add: drain_pending [where frames' = fs and n = n])

lemma drive_inner:
  "ends_well inner \<Longrightarrow> bs_pending b = [] \<Longrightarrow> \<not> bs_upstream_done b \<Longrightarrow>
   decode_all push finish (chunks_of inner) (bs_decoder b) = (events, r) \<Longrightarrow>
   length events + waits inner \<le> n \<Longrightarrow>
   carry_on (drive (poll_frame push finish) n) (poll_inner push finish fresh inner b) =
     (map sse_frame events, ended r)"
proof (induction inner arbitrary: b fresh n events)
  case (Cons e inner)
  have once_more: "drive (poll_frame push finish) (Suc m) inner b' = (map sse_frame events', ended r)"
    if "ends_well inner" "bs_pending b' = []" "\<not> bs_upstream_done b'"
      "decode_all push finish (chunks_of inner) (bs_decoder b') = (events', r)"
      "length events' + waits inner \<le> m" for m b' events'
    using Cons.IH [OF that, of False] that by (simp add: drive_Suc poll_frame_inner)
  show ?case
  proof (cases e)
    case (InnerData data)
    with Cons.prems have well: "ends_well inner" by (simp add: ends_well_Cons)
    show ?thesis
    proof (cases "push data (bs_decoder b)")
      case (Pair x d)
      show ?thesis
      proof (cases x)
        case (Inl err)
        with Pair InnerData Cons.prems show ?thesis by (auto simp: chunks_of_def ended_def)
      next
        case (Inr first)
        with Pair InnerData Cons.prems(4) obtain later where
          later: "decode_all push finish (chunks_of inner) d = (later, r)" and "events = first @ later"
          by (auto simp: chunks_of_def split: prod.splits)
        show ?thesis
        proof (cases first)
          case Nil
          with Cons.IH [of "b\<lparr>bs_decoder := d\<rparr>" later n True] well later \<open>events = first @ later\<close> Pair Inr
            InnerData Cons.prems show ?thesis
            by (simp add: offer_none waits_def)
        next
          case (Cons f fs)
          have "length later + waits inner < n - length fs"
            using Cons.prems(5) \<open>events = first @ later\<close> Cons InnerData by (simp add: waits_def)
          then obtain m where "n - length fs = Suc m" "length later + waits inner \<le> m"
            by (metis less_Suc_eq_le not_less_zero old.nat.exhaust)
          moreover have "length fs \<le> n" using calculation(1) by simp
          ultimately show ?thesis
            using once_more [of "b\<lparr>bs_decoder := d\<rparr>" later m] well later \<open>events = first @ later\<close> Pair Inr
              InnerData Cons.prems Cons
            by (simp add: offer_some drain_frames del: drive.simps)
        qed
      qed
    qed
  next
    case InnerTrailers
    with Cons.IH [of b events n True] Cons.prems show ?thesis
      by (simp add: ends_well_Cons chunks_of_def waits_def)
  next
    case (InnerPending expired)
    with Cons.prems obtain m where "n = Suc m" "length events + waits inner \<le> m"
      by (cases n) (auto simp: waits_def)
    with once_more [of b events m] InnerPending Cons.prems show ?thesis
      by (simp add: ends_well_Cons chunks_of_def)
  next
    case InnerEnded
    with Cons.prems have "inner = []" by (simp add: ends_well_Cons)
    with InnerEnded Cons.prems show ?thesis
      by (cases "finish (bs_decoder b)"; cases "fst (finish (bs_decoder b))"; cases events)
        (auto simp: chunks_of_def offer_none offer_some ended_def drive_done)
  qed (use Cons.prems in \<open>simp add: ends_well_Cons\<close>)
qed simp

lemma drive_new:
  assumes "ends_well inner" "decode_all push finish (chunks_of inner) d = (events, r)"
    "length events + waits inner < n"
  shows "drive (poll_frame push finish) n inner (body_new d) = (map sse_frame events, ended r)"
  using assms drive_inner [of inner "body_new d" push finish events r "n - 1" False]
  by (cases n) (simp_all add: drive_Suc poll_frame_inner body_new_def)

section \<open>The two bodies\<close>

text \<open>C26: The converting bodies of the HTTP egress deliver. Take an upstream body of any chunks, trailers and
  waiting times below the timeout that ends, and poll the Chat or the Anthropic body until it ends: after at
  most one poll for each event and each wait the client has got exactly the events the decoder makes of the
  chunks, each as one \<open>data:\<close> frame, in order, and the body has ended - properly, or with the error of the
  decoder after all events before it. No event is lost in the pending queue and the body never hangs.\<close>

theorem http_bodies_deliver:
  assumes "ends_well inner"
  shows
    "(\<forall>n > length (fst (decode_all (chat_push c nanos) (chat_finish c nanos) (chunks_of inner) chat)) + waits inner.
       drive (chat_body_poll c nanos) n inner (body_new chat) =
         (map sse_frame (fst (decode_all (chat_push c nanos) (chat_finish c nanos) (chunks_of inner) chat)),
          ended (snd (decode_all (chat_push c nanos) (chat_finish c nanos) (chunks_of inner) chat)))) \<and>
     (\<forall>n > length (fst (decode_all (anthropic_push c nanos) (anthropic_finish c nanos) (chunks_of inner) anthropic)) +
         waits inner.
       drive (anthropic_body_poll c nanos) n inner (body_new anthropic) =
         (map sse_frame (fst (decode_all (anthropic_push c nanos) (anthropic_finish c nanos) (chunks_of inner) anthropic)),
          ended (snd (decode_all (anthropic_push c nanos) (anthropic_finish c nanos) (chunks_of inner) anthropic))))"
  using assms by (simp add: chat_body_poll_def anthropic_body_poll_def drive_new prod_eq_iff)

theorem http_bodies_deliver_witness:
  "\<exists>n. drive (chat_body_poll example_chat_codec 0) n
         [InnerPending False, InnerData ''data: [DONE]'', InnerTrailers, InnerData [LF, LF], InnerEnded]
         (body_new (chat_new_decoder 0 100 example_chat_session)) =
       (map sse_frame (fst (decode_all (chat_push example_chat_codec 0) (chat_finish example_chat_codec 0)
          [''data: [DONE]'', [LF, LF]] (chat_new_decoder 0 100 example_chat_session))),
        ended (snd (decode_all (chat_push example_chat_codec 0) (chat_finish example_chat_codec 0)
          [''data: [DONE]'', [LF, LF]] (chat_new_decoder 0 100 example_chat_session))))"
proof
  let ?inner = "[InnerPending False, InnerData ''data: [DONE]'', InnerTrailers, InnerData [LF, LF], InnerEnded]"
  have "ends_well ?inner" by (simp add: ends_well_Cons)
  moreover have "chunks_of ?inner = [''data: [DONE]'', [LF, LF]]" by (simp add: chunks_of_def)
  ultimately show "drive (chat_body_poll example_chat_codec 0)
      (Suc (length (fst (decode_all (chat_push example_chat_codec 0) (chat_finish example_chat_codec 0)
          [''data: [DONE]'', [LF, LF]] (chat_new_decoder 0 100 example_chat_session))) + waits ?inner)) ?inner
      (body_new (chat_new_decoder 0 100 example_chat_session)) =
    (map sse_frame (fst (decode_all (chat_push example_chat_codec 0) (chat_finish example_chat_codec 0)
          [''data: [DONE]'', [LF, LF]] (chat_new_decoder 0 100 example_chat_session))),
        ended (snd (decode_all (chat_push example_chat_codec 0) (chat_finish example_chat_codec 0)
          [''data: [DONE]'', [LF, LF]] (chat_new_decoder 0 100 example_chat_session))))"
    using http_bodies_deliver [of ?inner example_chat_codec 0 "chat_new_decoder 0 100 example_chat_session"] lessI by metis
qed

end
