(* ===== verification/WsRelay.thy ===== *)
theory WsRelay
  imports HttpProperties
begin

text \<open>
  The WebSocket sessions of \<open>provider-x-egress\<close> up to the relay, \<open>ws_proxy.rs\<close>: the errors and how they are
  reported, the first message that freezes the route, and the loop that relays between the two sockets. What
  arrives, whether a send succeeds and when the shutdown signal changes is the input of a step, a \<open>moment\<close>;
  the messages handed to a socket and the events are its effects. \<open>relay_reach\<close> is the relation of the
  states the loop can be in; its lemmas are shown by rule induction.
\<close>

section \<open>Messages and the shutdown signal\<close>

datatype close_code = CloseAway | ClosePolicy | CloseRestart | CloseCode nat

record close_frame =
  cf_code :: close_code
  cf_reason :: str

datatype message = Text str | Binary str | Ping str | Pong str | Close "close_frame option" | RawFrame str

text \<open>What \<open>next\<close> of a socket gives.\<close>

datatype stream_item = Received message | StreamError | StreamEnd

datatype waited = TimedOut | Item stream_item

text \<open>
  The libraries: \<open>Message::to_text\<close>, which also reads the payload of other messages as UTF-8; the text of a
  status; and whether \<open>into_client_request\<close> takes a URL.
\<close>

record ws_env =
  ws_server :: server_env
  ws_to_text :: "message \<Rightarrow> str option"
  ws_status_text :: "nat \<Rightarrow> str"
  ws_client_request :: "str \<Rightarrow> bool"

abbreviation ws_codec :: "ws_env \<Rightarrow> codec" where
  "ws_codec env \<equiv> se_codec (ws_server env)"

datatype websocket_shutdown = Running | Draining | Force

text \<open>The watched value, and whether its sender is gone: then \<open>changed\<close> fails and every wait returns.\<close>

record shutdown_watch =
  sw_state :: websocket_shutdown
  sw_closed :: bool

definition wait_for_drain :: "shutdown_watch \<Rightarrow> bool" where
  "wait_for_drain w \<longleftrightarrow> sw_state w \<noteq> Running \<or> sw_closed w"

definition wait_for_force :: "shutdown_watch \<Rightarrow> bool" where
  "wait_for_force w \<longleftrightarrow> sw_state w = Force \<or> sw_closed w"

definition wait_for_session_shutdown :: "shutdown_watch \<Rightarrow> bool \<Rightarrow> bool" where
  "wait_for_session_shutdown w request_in_flight \<longleftrightarrow>
     sw_state w = Force \<or> \<not> request_in_flight \<and> sw_state w = Draining \<or> sw_closed w"

definition close_message :: "close_code \<Rightarrow> str \<Rightarrow> message" where
  "close_message code reason = Close (Some \<lparr>cf_code = code, cf_reason = reason\<rparr>)"

datatype ws_effect =
    WsObserved egress_event
  | ToUpstream message
  | ToDownstream message
  | WsConnect str header_map network_connector
  | WsRequest outgoing_request
  | WsClaude str

definition close_both :: "close_code \<Rightarrow> str \<Rightarrow> ws_effect list" where
  "close_both code reason = [ToDownstream (close_message code reason), ToUpstream (close_message code reason)]"

section \<open>Errors\<close>

record websocket_failure =
  fl_stage :: observed_websocket_stage
  fl_direction :: "observed_websocket_direction option"
  fl_reason :: observed_websocket_reason

definition failure_upstream :: "observed_websocket_stage \<Rightarrow> observed_websocket_reason \<Rightarrow> websocket_failure" where
  "failure_upstream stage reason = \<lparr>fl_stage = stage, fl_direction = Some UpstreamSide, fl_reason = reason\<rparr>"

definition failure_downstream :: "observed_websocket_stage \<Rightarrow> observed_websocket_reason \<Rightarrow> websocket_failure" where
  "failure_downstream stage reason = \<lparr>fl_stage = stage, fl_direction = Some Downstream, fl_reason = reason\<rparr>"

definition failure_undirected :: "observed_websocket_stage \<Rightarrow> observed_websocket_reason \<Rightarrow> websocket_failure" where
  "failure_undirected stage reason = \<lparr>fl_stage = stage, fl_direction = None, fl_reason = reason\<rparr>"

datatype websocket_proxy_error =
    WsInvalidFirstMessage
  | WsModelNotAvailable
  | WsProviderNotAvailable
  | WsTransportNotSupported
  | WsRouteChanged
  | WsUpstreamConnect websocket_failure
  | WsIdleTimeout websocket_failure
  | WsShutdown
  | WsTransport websocket_failure
  | WsClientClosed
  | WsConcurrentRequest
  | WsUpstreamStatus nat
  | WsInvalidUpstreamStream
  | WsSessionHistoryLimit

definition ws_error_text :: "ws_env \<Rightarrow> websocket_proxy_error \<Rightarrow> str" where
  "ws_error_text env e =
     (case e of
        WsInvalidFirstMessage \<Rightarrow> ''the first WebSocket message must be a valid response.create''
      | WsModelNotAvailable \<Rightarrow> ''the selected model is not available''
      | WsProviderNotAvailable \<Rightarrow> ''the selected Provider is not available''
      | WsTransportNotSupported \<Rightarrow> ''the selected Provider does not support WebSocket''
      | WsRouteChanged \<Rightarrow> ''a WebSocket connection cannot switch Provider''
      | WsUpstreamConnect _ \<Rightarrow> ''failed to connect to upstream''
      | WsIdleTimeout _ \<Rightarrow> ''WebSocket connection was idle for too long''
      | WsShutdown \<Rightarrow> ''WebSocket connection is shutting down''
      | WsTransport _ \<Rightarrow> ''WebSocket transport failed''
      | WsClientClosed \<Rightarrow> ''the client closed the WebSocket''
      | WsConcurrentRequest \<Rightarrow> ''only one upstream response may be in flight per WebSocket''
      | WsUpstreamStatus status \<Rightarrow> ''the upstream HTTP endpoint returned status '' @ ws_status_text env status
      | WsInvalidUpstreamStream \<Rightarrow> ''the upstream HTTP stream ended without a terminal event''
      | WsSessionHistoryLimit \<Rightarrow> ''the WebSocket-to-HTTP session exceeded its bounded history limit'')"

definition ws_log_code :: "websocket_proxy_error \<Rightarrow> str" where
  "ws_log_code e =
     (case e of
        WsTransportNotSupported \<Rightarrow> ''transport_not_supported''
      | WsModelNotAvailable \<Rightarrow> ''model_not_available''
      | WsRouteChanged \<Rightarrow> ''route_changed''
      | WsIdleTimeout _ \<Rightarrow> ''idle_timeout''
      | WsShutdown \<Rightarrow> ''service_restart''
      | WsSessionHistoryLimit \<Rightarrow> ''session_history_limit''
      | WsConcurrentRequest \<Rightarrow> ''concurrent_request''
      | WsInvalidFirstMessage \<Rightarrow> ''invalid_request''
      | WsProviderNotAvailable \<Rightarrow> ''provider_not_available''
      | WsUpstreamConnect _ \<Rightarrow> ''upstream_connect_failed''
      | WsUpstreamStatus _ \<Rightarrow> ''upstream_http_status''
      | WsInvalidUpstreamStream \<Rightarrow> ''invalid_upstream_stream''
      | WsClientClosed \<Rightarrow> ''client_closed''
      | WsTransport _ \<Rightarrow> ''websocket_transport_failed'')"

definition ws_error_status :: "websocket_proxy_error \<Rightarrow> nat option" where
  "ws_error_status e = (case e of WsUpstreamStatus status \<Rightarrow> Some status | _ \<Rightarrow> None)"

definition ws_client_code :: "websocket_proxy_error \<Rightarrow> str" where
  "ws_client_code e =
     (case e of
        WsTransportNotSupported \<Rightarrow> ''transport_not_supported''
      | WsModelNotAvailable \<Rightarrow> ''model_not_available''
      | WsRouteChanged \<Rightarrow> ''route_changed''
      | WsIdleTimeout _ \<Rightarrow> ''idle_timeout''
      | WsShutdown \<Rightarrow> ''service_restart''
      | WsSessionHistoryLimit \<Rightarrow> ''session_history_limit''
      | WsConcurrentRequest \<Rightarrow> ''concurrent_request''
      | WsInvalidFirstMessage \<Rightarrow> ''invalid_request''
      | _ \<Rightarrow> ''upstream_error'')"

definition ws_failure :: "websocket_proxy_error \<Rightarrow> websocket_failure" where
  "ws_failure e =
     (case e of
        WsUpstreamConnect failure \<Rightarrow> failure
      | WsIdleTimeout failure \<Rightarrow> failure
      | WsTransport failure \<Rightarrow> failure
      | WsInvalidFirstMessage \<Rightarrow> failure_downstream StageFirstMessage ReasonProtocol
      | WsModelNotAvailable \<Rightarrow> failure_undirected StageRoute ReasonProtocol
      | WsProviderNotAvailable \<Rightarrow> failure_undirected StageRoute ReasonProtocol
      | WsTransportNotSupported \<Rightarrow> failure_undirected StageRoute ReasonProtocol
      | WsRouteChanged \<Rightarrow> failure_undirected StageRoute ReasonProtocol
      | WsConcurrentRequest \<Rightarrow> failure_downstream StageRelay ReasonProtocol
      | WsUpstreamStatus _ \<Rightarrow> failure_upstream StageResponseHeaders ReasonRejected
      | WsInvalidUpstreamStream \<Rightarrow> failure_upstream StageResponseStream ReasonProtocol
      | WsSessionHistoryLimit \<Rightarrow> failure_upstream StageResponseStream ReasonProtocol
      | WsShutdown \<Rightarrow> failure_undirected StageRelay ReasonTransport
      | WsClientClosed \<Rightarrow> failure_undirected StageRelay ReasonTransport)"

definition is_reportable_session_error :: "websocket_proxy_error \<Rightarrow> bool" where
  "is_reportable_session_error e \<longleftrightarrow> e \<noteq> WsClientClosed \<and> e \<noteq> WsShutdown"

definition map_websocket_connection_error :: "websocket_connection_error \<Rightarrow> websocket_proxy_error" where
  "map_websocket_connection_error e =
     (case e of
        InvalidEndpoint \<Rightarrow> WsUpstreamConnect (failure_upstream StageRequestBuild ReasonInvalidEndpoint)
      | ConnectionTransport \<Rightarrow> WsUpstreamConnect (failure_upstream StageConnect ReasonTransport)
      | ConnectionHandshake \<Rightarrow> WsUpstreamConnect (failure_upstream StageHandshake ReasonHandshake))"

definition relay_transport_error ::
  "observed_websocket_direction \<Rightarrow> observed_websocket_reason \<Rightarrow> websocket_proxy_error" where
  "relay_transport_error direction reason =
     WsTransport (case direction of
        Downstream \<Rightarrow> failure_downstream StageRelay reason
      | UpstreamSide \<Rightarrow> failure_upstream StageRelay reason)"

definition reject_downstream :: "ws_env \<Rightarrow> websocket_proxy_error \<Rightarrow> ws_effect list" where
  "reject_downstream env e =
     [ToDownstream (Text (websocket_error_event (ws_codec env) (ws_client_code e) (ws_error_text env e))),
      ToDownstream (close_message (if e = WsShutdown then CloseRestart else ClosePolicy) (ws_client_code e))]"


section \<open>The first message\<close>

text \<open>
  What \<open>receive_first_message\<close> is given, one entry for each turn of its loop: the shutdown signal, what the
  client sends or the timeout, and whether the flush after a ping succeeds. Nothing is the result where the
  loop still waits.
\<close>

fun receive_first_message ::
  "codec \<Rightarrow> (shutdown_watch \<times> waited \<times> bool) list \<Rightarrow> (websocket_proxy_error + message) option" where
  "receive_first_message c [] = None"
| "receive_first_message c ((w, arrived, flushed) # moments) =
     (if wait_for_drain w then Some (Inl WsShutdown)
      else
        (case arrived of
           TimedOut \<Rightarrow> Some (Inl (WsIdleTimeout (failure_downstream StageFirstMessage ReasonTimeout)))
         | Item StreamEnd \<Rightarrow> Some (Inl WsClientClosed)
         | Item StreamError \<Rightarrow> Some (Inl (WsTransport (failure_downstream StageFirstMessage ReasonTransport)))
         | Item (Received m) \<Rightarrow>
             (case m of
                Text t \<Rightarrow>
                  (case inspect_ws_text c t of
                     Inl _ \<Rightarrow> Some (Inl WsInvalidFirstMessage)
                   | Inr _ \<Rightarrow> Some (Inr (Text t)))
              | Ping _ \<Rightarrow>
                  if flushed then receive_first_message c moments
                  else Some (Inl (WsTransport (failure_downstream StageFirstMessage ReasonTransport)))
              | Pong _ \<Rightarrow>
                  if flushed then receive_first_message c moments
                  else Some (Inl (WsTransport (failure_downstream StageFirstMessage ReasonTransport)))
              | Close _ \<Rightarrow> Some (Inl WsClientClosed)
              | _ \<Rightarrow> Some (Inl WsInvalidFirstMessage))))"

definition official_websocket_url :: "str \<Rightarrow> str option" where
  "official_websocket_url http_base_url =
     map_option (\<lambda>base. trim_end_matches ''/'' base @ ''/responses'')
       (case strip_prefix ''https://'' http_base_url of
          Some remainder \<Rightarrow> Some (''wss://'' @ remainder)
        | None \<Rightarrow> map_option (\<lambda>remainder. ''ws://'' @ remainder) (strip_prefix ''http://'' http_base_url))"

datatype session_route = RouteOfficial | RouteThirdParty provider_id

datatype prepared_upstream =
    UpstreamSocket str header_map message network_connector
  | UpstreamBridge provider_egress str str

record prepared_first =
  pf_runtime :: egress_runtime
  pf_route :: session_route
  pf_observed_route :: observed_route
  pf_codex_turn_metadata :: bool
  pf_upstream :: prepared_upstream

definition ws_request_event ::
  "egress_runtime \<Rightarrow> u64 \<Rightarrow> u64 \<Rightarrow> bool \<Rightarrow> inspected_request \<Rightarrow> ws_effect" where
  "ws_request_event runtime session_id sequence codex_turn_metadata inspected =
     WsObserved (RequestEvent \<lparr>ro_transport = ObservedWebSocket, ro_path = ''/v1/responses'',
       ro_session_id = Some session_id, ro_sequence = sequence, ro_model = inspected_model inspected,
       ro_route = observed_route_of (runtime_resolve runtime (inspected_model inspected)),
       ro_previous_response_id_present = previous_response_id_present (inspected_metadata inspected),
       ro_client_metadata_present = (client_metadata (inspected_metadata inspected) \<noteq> None),
       ro_codex_turn_metadata_header_present = codex_turn_metadata\<rparr>)"

definition prepare_official :: "egress_state \<Rightarrow> header_map \<Rightarrow> str \<Rightarrow> websocket_proxy_error + prepared_upstream" where
  "prepare_official s hs t =
     and_then (ok_or WsProviderNotAvailable (official_websocket_url (es_official_base_url s))) (\<lambda>url.
     Inr (UpstreamSocket url (official_websocket_headers hs) (Text t) (es_official_websocket_connector s)))"

definition prepare_third_party ::
  "ws_env \<Rightarrow> egress_runtime \<Rightarrow> header_map \<Rightarrow> str \<Rightarrow> provider_id \<Rightarrow> model_id \<Rightarrow>
   websocket_proxy_error + prepared_upstream" where
  "prepare_third_party env runtime hs t p u =
     and_then (ok_or WsProviderNotAvailable (runtime_provider runtime p)) (\<lambda>provider.
     case profile_websocket_plan (pe_profile provider) of
       PlanHttpBridge _ \<Rightarrow> Inr (UpstreamBridge provider (model_str u) t)
     | PlanDirect \<Rightarrow>
         and_then (ok_or WsTransportNotSupported (prof_websocket_endpoint (pe_profile provider))) (\<lambda>url.
         and_then (map_err (\<lambda>_. WsInvalidFirstMessage)
             (rewrite_websocket_request (ws_codec env) (pe_profile provider) t (model_str u))) (\<lambda>rewritten.
         and_then (map_err (\<lambda>_. WsProviderNotAvailable)
             (third_party_websocket_headers (se_header_value (ws_server env)) (se_version (ws_server env)) hs
               (prov_auth (pe_config provider)) (pe_profile provider))) (\<lambda>headers.
         Inr (UpstreamSocket url headers (Text rewritten) (pe_websocket_connector provider)))))
     | PlanUnsupported \<Rightarrow> Inl WsTransportNotSupported)"

definition prepare_first_message ::
  "ws_env \<Rightarrow> egress_state \<Rightarrow> header_map \<Rightarrow> u64 \<Rightarrow> message \<Rightarrow>
   (websocket_proxy_error + prepared_first) \<times> ws_effect list" where
  "prepare_first_message env s hs session_id m =
     (case m of
        Text t \<Rightarrow>
          (case inspect_ws_text (ws_codec env) t of
             Inl _ \<Rightarrow> (Inl WsInvalidFirstMessage, [])
           | Inr inspected \<Rightarrow>
               (let runtime = es_runtime s; decision = runtime_resolve runtime (inspected_model inspected);
                    codex = hm_contains hs ''x-codex-turn-metadata'';
                    prepared = (\<lambda>route upstream. \<lparr>pf_runtime = runtime, pf_route = route,
                      pf_observed_route = observed_route_of decision, pf_codex_turn_metadata = codex,
                      pf_upstream = upstream\<rparr>)
                in
                  (case decision of
                     BuiltInOfficial \<Rightarrow> and_then (prepare_official s hs t) (\<lambda>upstream. Inr (prepared RouteOfficial upstream))
                   | UnavailableManagedModel \<Rightarrow> Inl WsModelNotAvailable
                   | ThirdParty p u \<Rightarrow>
                       and_then (prepare_third_party env runtime hs t p u) (\<lambda>upstream.
                       Inr (prepared (RouteThirdParty p) upstream)),
                   [ws_request_event runtime session_id 1 codex inspected])))
      | _ \<Rightarrow> (Inl WsInvalidFirstMessage, []))"

section \<open>The relay\<close>

text \<open>The context of a relay does not change: a reload of the configuration is not seen by the session.\<close>

record relay_context =
  rc_runtime :: egress_runtime
  rc_route :: session_route
  rc_codex_turn_metadata :: bool
  rc_session_id :: u64

record relay_state =
  rl_request_sequence :: u64
  rl_request_in_flight :: bool

definition relay_start :: relay_state where
  "relay_start = \<lparr>rl_request_sequence = 1, rl_request_in_flight = True\<rparr>"

text \<open>One turn of the loop: the signal, what arrives, how the send of the turn ends, and the signal after it.\<close>

datatype relay_waited = RelayIdle | FromDownstream stream_item | FromUpstream stream_item

datatype send_outcome = Delivered | SendForced | SendTimedOut | SendFailed

record relay_moment =
  rm_watch :: shutdown_watch
  rm_waited :: relay_waited
  rm_sent :: send_outcome
  rm_watch_after :: shutdown_watch

datatype 'a progress = Continue 'a | Return "websocket_proxy_error option"

definition is_response_create_message :: "ws_env \<Rightarrow> message \<Rightarrow> bool" where
  "is_response_create_message env m \<longleftrightarrow>
     (case ws_to_text env m of
        None \<Rightarrow> False
      | Some t \<Rightarrow> (case classify_ws_text (ws_codec env) t of Inl _ \<Rightarrow> False | Inr kind \<Rightarrow> kind = ResponseCreate))"

definition is_terminal_message :: "ws_env \<Rightarrow> message \<Rightarrow> bool" where
  "is_terminal_message env m \<longleftrightarrow>
     (case ws_to_text env m of None \<Rightarrow> False | Some t \<Rightarrow> is_terminal_ws_event (ws_codec env) t)"

definition send_upstream :: "send_outcome \<Rightarrow> websocket_proxy_error + unit" where
  "send_upstream sent =
     (case sent of
        Delivered \<Rightarrow> Inr ()
      | SendForced \<Rightarrow> Inl WsShutdown
      | SendTimedOut \<Rightarrow> Inl (WsIdleTimeout (failure_upstream StageRelay ReasonTimeout))
      | SendFailed \<Rightarrow> Inl (WsTransport (failure_upstream StageRelay ReasonTransport)))"

definition send_downstream :: "observed_websocket_stage \<Rightarrow> send_outcome \<Rightarrow> websocket_proxy_error + unit" where
  "send_downstream stage sent =
     (case sent of
        Delivered \<Rightarrow> Inr ()
      | SendForced \<Rightarrow> Inl WsShutdown
      | SendTimedOut \<Rightarrow> Inl (WsIdleTimeout (failure_downstream stage ReasonTimeout))
      | SendFailed \<Rightarrow> Inl (WsTransport (failure_downstream stage ReasonTransport)))"


definition followup_decision ::
  "ws_env \<Rightarrow> relay_context \<Rightarrow> str \<Rightarrow> route_decision \<Rightarrow> websocket_proxy_error + message" where
  "followup_decision env ctx t decision =
     (case (rc_route ctx, decision) of
        (RouteOfficial, BuiltInOfficial) \<Rightarrow> Inr (Text t)
      | (RouteThirdParty current, ThirdParty p u) \<Rightarrow>
          if current = p
          then and_then (ok_or WsProviderNotAvailable (runtime_provider (rc_runtime ctx) current)) (\<lambda>provider.
               map_err (\<lambda>_. WsInvalidFirstMessage)
                 (and_then (rewrite_websocket_request (ws_codec env) (pe_profile provider) t (model_str u))
                   (\<lambda>rewritten. Inr (Text rewritten))))
          else Inl WsRouteChanged
      | (_, UnavailableManagedModel) \<Rightarrow> Inl WsModelNotAvailable
      | _ \<Rightarrow> Inl WsRouteChanged)"

definition prepare_followup_message ::
  "ws_env \<Rightarrow> relay_context \<Rightarrow> u64 \<Rightarrow> message \<Rightarrow> (websocket_proxy_error + message) \<times> u64 \<times> ws_effect list" where
  "prepare_followup_message env ctx request_sequence m =
     (case m of
        Text t \<Rightarrow>
          (case classify_ws_text (ws_codec env) t of
             Inl _ \<Rightarrow> (Inl WsInvalidFirstMessage, request_sequence, [])
           | Inr Other \<Rightarrow> (Inr (Text t), request_sequence, [])
           | Inr ResponseCreate \<Rightarrow>
               (case inspect_ws_text (ws_codec env) t of
                  Inl _ \<Rightarrow> (Inl WsInvalidFirstMessage, request_sequence, [])
                | Inr inspected \<Rightarrow>
                    (let request_sequence = saturating_add_u64 request_sequence 1 in
                     (followup_decision env ctx t (runtime_resolve (rc_runtime ctx) (inspected_model inspected)),
                      request_sequence,
                      [ws_request_event (rc_runtime ctx) (rc_session_id ctx) request_sequence
                         (rc_codex_turn_metadata ctx) inspected]))))
      | _ \<Rightarrow> (Inr m, request_sequence, []))"

definition relay_downstream ::
  "ws_env \<Rightarrow> relay_context \<Rightarrow> relay_state \<Rightarrow> send_outcome \<Rightarrow> message \<Rightarrow> relay_state progress \<times> ws_effect list" where
  "relay_downstream env ctx st sent m =
     (let starts_request = is_response_create_message env m in
      if starts_request \<and> rl_request_in_flight st then (Return (Some WsConcurrentRequest), [])
      else
        (case prepare_followup_message env ctx (rl_request_sequence st) m of
           (Inl e, _, effects) \<Rightarrow>
             (Return (Some e), effects @ [ToUpstream (close_message ClosePolicy ''route rejected'')])
         | (Inr m, request_sequence, effects) \<Rightarrow>
             (case send_upstream sent of
                Inl e \<Rightarrow> (Return (Some e), effects @ [ToUpstream m])
              | Inr _ \<Rightarrow>
                  (Continue \<lparr>rl_request_sequence = request_sequence,
                             rl_request_in_flight = (starts_request \<or> rl_request_in_flight st)\<rparr>,
                   effects @ [ToUpstream m]))))"

definition relay_upstream ::
  "ws_env \<Rightarrow> relay_state \<Rightarrow> send_outcome \<Rightarrow> shutdown_watch \<Rightarrow> message \<Rightarrow> relay_state progress \<times> ws_effect list" where
  "relay_upstream env st sent w m =
     (let terminal = is_terminal_message env m in
      case send_downstream StageRelay sent of
        Inl e \<Rightarrow> (Return (Some e), [ToDownstream m])
      | Inr _ \<Rightarrow>
          if terminal
          then (if sw_state w \<noteq> Running
                then (Return None, ToDownstream m # close_both CloseRestart ''service restart'')
                else (Continue (st\<lparr>rl_request_in_flight := False\<rparr>), [ToDownstream m]))
          else (Continue st, [ToDownstream m]))"

definition relay_step ::
  "ws_env \<Rightarrow> relay_context \<Rightarrow> relay_moment \<Rightarrow> relay_state \<Rightarrow> relay_state progress \<times> ws_effect list" where
  "relay_step env ctx moment st =
     (if wait_for_session_shutdown (rm_watch moment) (rl_request_in_flight st)
      then (Return None, close_both CloseRestart ''service restart'')
      else
        (case rm_waited moment of
           RelayIdle \<Rightarrow> (Return (Some (WsIdleTimeout (failure_undirected StageRelay ReasonTimeout))), [])
         | FromDownstream (Received (Close frame)) \<Rightarrow> (Return None, [ToUpstream (Close frame)])
         | FromDownstream (Received m) \<Rightarrow> relay_downstream env ctx st (rm_sent moment) m
         | FromUpstream (Received (Close frame)) \<Rightarrow> (Return None, [ToDownstream (Close frame)])
         | FromUpstream (Received m) \<Rightarrow> relay_upstream env st (rm_sent moment) (rm_watch_after moment) m
         | FromDownstream StreamEnd \<Rightarrow> (Return None, [ToUpstream (close_message CloseAway ''client closed'')])
         | FromDownstream StreamError \<Rightarrow> (Return (Some (relay_transport_error Downstream ReasonTransport)), [])
         | FromUpstream StreamError \<Rightarrow> (Return (Some (relay_transport_error UpstreamSide ReasonTransport)), [])
         | FromUpstream StreamEnd \<Rightarrow> (Return (Some (relay_transport_error UpstreamSide ReasonUnexpectedEof)), [])))"

fun relay ::
  "ws_env \<Rightarrow> relay_context \<Rightarrow> relay_moment list \<Rightarrow> relay_state \<Rightarrow> relay_state progress \<times> ws_effect list" where
  "relay env ctx [] st = (Continue st, [])"
| "relay env ctx (moment # moments) st =
     (case relay_step env ctx moment st of
        (Return r, effects) \<Rightarrow> (Return r, effects)
      | (Continue st, effects) \<Rightarrow>
          (case relay env ctx moments st of (r, later) \<Rightarrow> (r, effects @ later)))"

text \<open>The states of the loop, with the moments behind it and the effects it had.\<close>

inductive relay_reach ::
  "ws_env \<Rightarrow> relay_context \<Rightarrow> relay_moment list \<Rightarrow> ws_effect list \<Rightarrow> relay_state \<Rightarrow> bool"
  for env ctx where
  start: "relay_reach env ctx [] [] relay_start"
| turn: "relay_reach env ctx moments effects st \<Longrightarrow> relay_step env ctx moment st = (Continue st', fresh) \<Longrightarrow>
    relay_reach env ctx (moments @ [moment]) (effects @ fresh) st'"

inductive_cases relay_reachE: "relay_reach env ctx moments effects st"


section \<open>What the loop keeps\<close>

lemma relay_step_Continue:
  assumes "relay_step env ctx moment st = (Continue st', fresh)"
  obtains
    (downstream) m m' events where "rm_waited moment = FromDownstream (Received m)"
      "\<not> (is_response_create_message env m \<and> rl_request_in_flight st)"
      "prepare_followup_message env ctx (rl_request_sequence st) m = (Inr m', rl_request_sequence st', events)"
      "fresh = events @ [ToUpstream m']"
      "rl_request_in_flight st' \<longleftrightarrow> is_response_create_message env m \<or> rl_request_in_flight st"
  | (upstream) m where "rm_waited moment = FromUpstream (Received m)" "fresh = [ToDownstream m]"
      "rl_request_in_flight st' \<longleftrightarrow> rl_request_in_flight st \<and> \<not> is_terminal_message env m"
      "rl_request_sequence st' = rl_request_sequence st"
proof -
  from assms consider m where "rm_waited moment = FromDownstream (Received m)"
      "relay_downstream env ctx st (rm_sent moment) m = (Continue st', fresh)"
    | m where "rm_waited moment = FromUpstream (Received m)"
      "relay_upstream env st (rm_sent moment) (rm_watch_after moment) m = (Continue st', fresh)"
    by (auto simp: relay_step_def split: if_splits relay_waited.splits stream_item.splits message.splits)
  then show ?thesis
  proof cases
    case (1 m)
    from 1(2) obtain m' events where
      "prepare_followup_message env ctx (rl_request_sequence st) m = (Inr m', rl_request_sequence st', events)"
      and "fresh = events @ [ToUpstream m']"
      and "\<not> (is_response_create_message env m \<and> rl_request_in_flight st)"
      and "rl_request_in_flight st' \<longleftrightarrow> is_response_create_message env m \<or> rl_request_in_flight st"
      by (auto simp: relay_downstream_def Let_def split: if_splits prod.splits sum.splits)
    then show ?thesis using downstream [OF 1(1)] by blast
  next
    case (2 m)
    then show ?thesis
      using upstream [OF 2(1)] by (auto simp: relay_upstream_def Let_def split: if_splits sum.splits)
  qed
qed

text \<open>The specification of \<open>request_in_flight\<close>: whether the last request has no answer yet.\<close>

definition starts_request :: "ws_env \<Rightarrow> relay_moment \<Rightarrow> bool" where
  "starts_request env moment \<longleftrightarrow>
     (case rm_waited moment of FromDownstream (Received m) \<Rightarrow> is_response_create_message env m | _ \<Rightarrow> False)"

definition ends_request :: "ws_env \<Rightarrow> relay_moment \<Rightarrow> bool" where
  "ends_request env moment \<longleftrightarrow>
     (case rm_waited moment of FromUpstream (Received m) \<Rightarrow> is_terminal_message env m | _ \<Rightarrow> False)"

definition open_request :: "ws_env \<Rightarrow> relay_moment list \<Rightarrow> bool" where
  "open_request env moments =
     fold (\<lambda>moment b. starts_request env moment \<or> b \<and> \<not> ends_request env moment) moments True"

lemma open_request_snoc:
  "open_request env (moments @ [moment]) \<longleftrightarrow>
     starts_request env moment \<or> open_request env moments \<and> \<not> ends_request env moment"
  by (simp add: open_request_def)

lemma relay_in_flight:
  "relay_reach env ctx moments effects st \<Longrightarrow> rl_request_in_flight st = open_request env moments"
proof (induction rule: relay_reach.induct)
  case start
  show ?case by (simp add: relay_start_def open_request_def)
next
  case (turn moments effects st moment st' fresh)
  from turn.hyps(2) show ?case
    by (rule relay_step_Continue) (auto simp: open_request_snoc turn.IH starts_request_def ends_request_def)
qed

lemma relay_serial:
  "relay_reach env ctx moments effects st \<Longrightarrow> moments = before @ moment # after \<Longrightarrow>
   starts_request env moment \<Longrightarrow> \<not> open_request env before"
proof (induction arbitrary: after rule: relay_reach.induct)
  case (turn moments effects st now st' fresh)
  show ?case
  proof (cases after rule: rev_cases)
    case Nil
    with turn.prems have "now = moment" "moments = before" by simp_all
    with turn.hyps(2) turn.prems(2) relay_in_flight [OF turn.hyps(1)] show ?thesis
      by (auto elim!: relay_step_Continue simp: starts_request_def)
  qed (use turn in auto)
qed simp

lemma relay_reach_relay:
  "relay env ctx moments st = (Continue st', effects) \<Longrightarrow> relay_reach env ctx before done st \<Longrightarrow>
   relay_reach env ctx (before @ moments) (done @ effects) st'"
proof (induction moments arbitrary: st before "done" effects)
  case (Cons moment moments)
  from Cons.prems(1) obtain mid fresh later where
    step: "relay_step env ctx moment st = (Continue mid, fresh)"
    and rest: "relay env ctx moments mid = (Continue st', later)" and "effects = fresh @ later"
    by (auto split: prod.splits progress.splits)
  with Cons.IH [OF rest turn [OF Cons.prems(2) step]] show ?case by simp
qed simp


lemma followup_text:
  assumes "prepare_followup_message env ctx request_sequence m = (Inr (Text t), request_sequence', events)"
  obtains
    (other) "m = Text t" "classify_ws_text (ws_codec env) t = Inr Other"
  | (official) inspected where "m = Text t" "inspect_ws_text (ws_codec env) t = Inr inspected"
      "rc_route ctx = RouteOfficial" "runtime_resolve (rc_runtime ctx) (inspected_model inspected) = BuiltInOfficial"
  | (third_party) t0 inspected p u e where "m = Text t0" "inspect_ws_text (ws_codec env) t0 = Inr inspected"
      "rc_route ctx = RouteThirdParty p" "runtime_resolve (rc_runtime ctx) (inspected_model inspected) = ThirdParty p u"
      "runtime_provider (rc_runtime ctx) p = Some e"
      "rewrite_websocket_request (ws_codec env) (pe_profile e) t0 (model_str u) = Inr t"
proof (cases m)
  case (Text t0)
  with assms consider "classify_ws_text (ws_codec env) t0 = Inr Other" "t = t0"
    | inspected where "inspect_ws_text (ws_codec env) t0 = Inr inspected"
        "followup_decision env ctx t0 (runtime_resolve (rc_runtime ctx) (inspected_model inspected)) = Inr (Text t)"
    by (auto simp: prepare_followup_message_def Let_def split: sum.splits web_socket_message_kind.splits)
  then show ?thesis
  proof cases
    case (2 inspected)
    then show ?thesis
      using official [of inspected] third_party [of t0 inspected] Text
      by (auto simp: followup_decision_def map_err_eq_Inr split: session_route.splits route_decision.splits if_splits)
  qed (use other Text in simp)
qed (use assms in \<open>auto simp: prepare_followup_message_def\<close>)

lemma events_send_nothing:
  "prepare_followup_message env ctx request_sequence m = (r, request_sequence', events) \<Longrightarrow>
   x \<in> set events \<Longrightarrow> \<exists>e. x = WsObserved e"
  by (auto simp: prepare_followup_message_def ws_request_event_def Let_def
      split: message.splits sum.splits web_socket_message_kind.splits)

lemma relay_step_sends:
  assumes "relay_step env ctx moment st = (r, effects)" and "x \<in> set effects"
  shows "(\<exists>e. x = WsObserved e) \<or> (\<exists>m. x = ToDownstream m) \<or> (\<exists>m. x = ToUpstream m \<and>
    (\<forall>t. m = Text t \<longrightarrow> (\<exists>request_sequence m0 request_sequence' events.
       rm_waited moment = FromDownstream (Received m0) \<and>
       prepare_followup_message env ctx request_sequence m0 = (Inr (Text t), request_sequence', events))))"
proof -
  from assms(1) consider
      (quiet) "effects = []"
    | (closing) code reason where "effects = close_both code reason"
    | (closed) frame where "effects = [ToUpstream (Close frame)]"
    | (downstream) m where "rm_waited moment = FromDownstream (Received m)"
        "relay_downstream env ctx st (rm_sent moment) m = (r, effects)"
    | (upstream) "\<forall>x \<in> set effects. \<exists>m. x = ToDownstream m \<or> x = ToUpstream (close_message CloseRestart ''service restart'')"
    by (auto simp: relay_step_def relay_upstream_def close_message_def close_both_def Let_def
        split: if_splits relay_waited.splits stream_item.splits message.splits sum.splits)
  then show ?thesis
  proof cases
    case (downstream m)
    then show ?thesis
      using assms(2) events_send_nothing [of env ctx "rl_request_sequence st" m]
      by (auto simp: relay_downstream_def close_message_def Let_def split: if_splits prod.splits sum.splits) blast+
  qed (use assms(2) in \<open>auto simp: close_both_def close_message_def\<close>)
qed

text \<open>Where the texts a relay sends upstream come from, up to the turn it ends with.\<close>

lemma relay_sends:
  assumes "relay env ctx moments st = (r, effects)" and "x \<in> set effects"
  shows "(\<exists>e. x = WsObserved e) \<or> (\<exists>m. x = ToDownstream m) \<or> (\<exists>m. x = ToUpstream m \<and>
    (\<forall>t. m = Text t \<longrightarrow> (\<exists>moment request_sequence m0 request_sequence' events. moment \<in> set moments \<and>
       rm_waited moment = FromDownstream (Received m0) \<and>
       prepare_followup_message env ctx request_sequence m0 = (Inr (Text t), request_sequence', events))))"
  using assms
proof (induction moments arbitrary: st effects)
  case (Cons moment moments)
  obtain p fresh where step: "relay_step env ctx moment st = (p, fresh)" by fastforce
  show ?case
  proof (cases "x \<in> set fresh")
    case True
    from relay_step_sends [OF step this] show ?thesis
      by (elim disjE exE conjE) (simp_all, metis)
  next
    case False
    with Cons.prems step obtain st' later where "relay env ctx moments st' = (r, later)" "x \<in> set later"
      by (auto split: progress.splits prod.splits)
    from Cons.IH [OF this] show ?thesis
      by (elim disjE exE conjE) (simp_all, metis)
  qed
qed simp

section \<open>One request at a time\<close>

text \<open>C27: A relayed session serves one request at a time. The flag \<open>request_in_flight\<close> is true exactly while the
  last request of the session has no answer, whatever arrives in whatever order on the two sockets; no
  message that starts a request is passed on while one is open; and a request that comes too early ends the
  session with the error for concurrent requests, without a message to the upstream.\<close>

theorem relay_one_request:
  assumes reach: "relay_reach env ctx moments effects st"
  shows "(rl_request_in_flight st \<longleftrightarrow> open_request env moments) \<and>
    (\<forall>before moment after. moments = before @ moment # after \<and> starts_request env moment \<longrightarrow>
       \<not> open_request env before) \<and>
    (\<forall>(early :: relay_moment) m. open_request env moments \<and> rm_waited early = FromDownstream (Received m) \<and>
       (\<forall>frame. m \<noteq> Close frame) \<and> is_response_create_message env m \<and>
       \<not> wait_for_session_shutdown (rm_watch early) True \<longrightarrow>
       relay_step env ctx early st = (Return (Some WsConcurrentRequest), []))"
proof (intro conjI allI impI)
  show flag: "rl_request_in_flight st \<longleftrightarrow> open_request env moments"
    by (rule relay_in_flight [OF reach])
  show "\<not> open_request env before" if "moments = before @ moment # after \<and> starts_request env moment"
    for before moment after
    using relay_serial [OF reach] that by blast
  fix early :: relay_moment and m
  assume "open_request env moments \<and> rm_waited early = FromDownstream (Received m) \<and>
    (\<forall>frame. m \<noteq> Close frame) \<and> is_response_create_message env m \<and>
    \<not> wait_for_session_shutdown (rm_watch early) True"
  with flag show "relay_step env ctx early st = (Return (Some WsConcurrentRequest), [])"
    by (cases m) (simp_all add: relay_step_def relay_downstream_def)
qed

definition relay_codec :: codec where
  "relay_codec =
     \<lparr>parse = (\<lambda>s. Inr (if s = ''create'' then JObject [(''type'', JString ''response.create''), (''model'', JString ''gpt'')]
                       else if s = ''end'' then JObject [(''type'', JString ''response.completed'')] else JNull)),
      to_vec = (\<lambda>_. Inr []), display = (\<lambda>_. [])\<rparr>"

definition relay_env :: ws_env where
  "relay_env =
     \<lparr>ws_server = example_server\<lparr>se_codec := relay_codec\<rparr>,
      ws_to_text = (\<lambda>m. case m of Text t \<Rightarrow> Some t | Binary b \<Rightarrow> Some b | _ \<Rightarrow> None),
      ws_status_text = (\<lambda>_. []), ws_client_request = (\<lambda>_. True)\<rparr>"

definition running :: shutdown_watch where
  "running = \<lparr>sw_state = Running, sw_closed = False\<rparr>"

definition arrives :: "relay_waited \<Rightarrow> relay_moment" where
  "arrives x = \<lparr>rm_watch = running, rm_waited = x, rm_sent = Delivered, rm_watch_after = running\<rparr>"

definition official_context :: relay_context where
  "official_context =
     \<lparr>rc_runtime = \<lparr>er_routes = \<lparr>routes = []\<rparr>, er_providers = [], er_catalog_overlay = []\<rparr>,
      rc_route = RouteOfficial, rc_codex_turn_metadata = False, rc_session_id = 1\<rparr>"

lemmas relay_eval = relay_env_def relay_codec_def arrives_def running_def wait_for_session_shutdown_def
  is_terminal_message_def is_terminal_ws_event_def terminal_types_def is_response_create_message_def
  classify_ws_text_def str_at_def jget_def map_get_Cons as_str_JString

lemma example_terminal: "is_terminal_message relay_env (Text ''end'')"
  by (simp add: relay_eval)

lemma example_create: "is_response_create_message relay_env (Text ''create'') \<and>
    is_response_create_message relay_env (Binary ''create'')"
  by (simp add: relay_eval)

lemma example_first_turn:
  "relay_step relay_env ctx (arrives (FromUpstream (Received (Text ''end'')))) st =
     (Continue (st\<lparr>rl_request_in_flight := False\<rparr>), [ToDownstream (Text ''end'')])"
  if "rl_request_in_flight st"
  using that example_terminal
  by (simp add: relay_step_def relay_upstream_def send_downstream_def arrives_def running_def
      wait_for_session_shutdown_def)

lemma example_second_turn:
  assumes "\<not> rl_request_in_flight st"
  shows "\<exists>st' events. relay_step relay_env official_context (arrives (FromDownstream (Received (Text ''create'')))) st =
     (Continue st', events @ [ToUpstream (Text ''create'')]) \<and> rl_request_in_flight st'"
proof -
  have kind: "classify_ws_text relay_codec ''create'' = Inr ResponseCreate"
    by (simp add: relay_eval)
  have "inspect_ws_text relay_codec ''create'' =
      Inr \<lparr>inspected_model = ''gpt'',
           inspected_metadata = \<lparr>client_metadata = None, previous_response_id_present = False\<rparr>\<rparr>"
    by (simp add: inspect_ws_text_def parse_object_def inspect_object_def relay_codec_def as_object_def str_at_def jget_def
        map_get_Cons as_str_JString trim_eval)
  moreover have "runtime_resolve (rc_runtime official_context) ''gpt'' = BuiltInOfficial"
    by (simp add: runtime_resolve_def official_context_def resolve_def)
  moreover have "ws_codec relay_env = relay_codec" "rc_route official_context = RouteOfficial"
    by (simp_all add: relay_env_def official_context_def)
  ultimately show ?thesis
    using assms example_create kind
    by (simp add: relay_step_def relay_downstream_def prepare_followup_message_def followup_decision_def Let_def
        send_upstream_def arrives_def running_def wait_for_session_shutdown_def)
qed

theorem relay_one_request_witness:
  "\<exists>effects st.
     relay_reach relay_env official_context
       [arrives (FromUpstream (Received (Text ''end''))), arrives (FromDownstream (Received (Text ''create'')))] effects st \<and>
     \<not> open_request relay_env [arrives (FromUpstream (Received (Text ''end'')))] \<and> rl_request_in_flight st \<and>
     relay_step relay_env official_context (arrives (FromDownstream (Received (Binary ''create'')))) st =
       (Return (Some WsConcurrentRequest), [])"
proof -
  let ?last = "arrives (FromUpstream (Received (Text ''end'')))" and ?create = "arrives (FromDownstream (Received (Text ''create'')))"
  let ?idle = "relay_start\<lparr>rl_request_in_flight := False\<rparr>"
  have "relay_reach relay_env official_context ([] @ [?last]) ([] @ [ToDownstream (Text ''end'')]) ?idle"
    using example_first_turn [of relay_start] by (intro relay_reach.turn [OF relay_reach.start]) (simp add: relay_start_def)
  moreover obtain st events where second: "relay_step relay_env official_context ?create ?idle =
      (Continue st, events @ [ToUpstream (Text ''create'')])" and flag: "rl_request_in_flight st"
    using example_second_turn [of ?idle] by auto
  ultimately have reach: "relay_reach relay_env official_context [?last, ?create]
      (([] @ [ToDownstream (Text ''end'')]) @ events @ [ToUpstream (Text ''create'')]) st"
    using relay_reach.turn [OF _ second] by fastforce
  have starts: "starts_request relay_env ?create"
    using example_create by (simp add: starts_request_def arrives_def)
  note one = relay_one_request [OF reach]
  from one have closed: "\<forall>before moment after. [?last, ?create] = before @ moment # after \<and>
      starts_request relay_env moment \<longrightarrow> \<not> open_request relay_env before" by (elim conjE)
  from closed [THEN spec, of "[?last]", THEN spec, of ?create, THEN spec, of "[]"] starts
  have "\<not> open_request relay_env [?last]" by simp
  moreover from one flag have "open_request relay_env [?last, ?create]" by blast
  with one have "\<forall>(early :: relay_moment) m. rm_waited early = FromDownstream (Received m) \<and>
       (\<forall>frame. m \<noteq> Close frame) \<and> is_response_create_message relay_env m \<and>
       \<not> wait_for_session_shutdown (rm_watch early) True \<longrightarrow>
       relay_step relay_env official_context early st = (Return (Some WsConcurrentRequest), [])" by blast
  then have "relay_step relay_env official_context (arrives (FromDownstream (Received (Binary ''create'')))) st =
      (Return (Some WsConcurrentRequest), [])"
    using example_create by (simp add: arrives_def running_def wait_for_session_shutdown_def)
  ultimately show ?thesis using reach flag by blast
qed

text \<open>
  Only text messages are looked at by \<open>prepare_followup_message\<close>, but the test for a request reads the
  payload of every message: a request in a binary message is passed on as it is, whatever its model and its
  route, and counts as the open request of the session.
\<close>

lemma binary_request_unchecked:
  assumes "\<not> rl_request_in_flight st" and "rm_waited moment = FromDownstream (Received (Binary b))"
    and "rm_sent moment = Delivered" and "sw_state (rm_watch moment) = Running" "\<not> sw_closed (rm_watch moment)"
    and "is_response_create_message env (Binary b)"
  shows "relay_step env ctx moment st = (Continue (st\<lparr>rl_request_in_flight := True\<rparr>), [ToUpstream (Binary b)])"
  using assms
  by (simp add: relay_step_def relay_downstream_def prepare_followup_message_def send_upstream_def
      wait_for_session_shutdown_def)

section \<open>Shutting down\<close>

text \<open>What the upstream sends while the service drains.\<close>

definition draining :: shutdown_watch where
  "draining = \<lparr>sw_state = Draining, sw_closed = False\<rparr>"

definition sent_while_draining :: "str \<Rightarrow> relay_moment" where
  "sent_while_draining t =
     \<lparr>rm_watch = draining, rm_waited = FromUpstream (Received (Text t)), rm_sent = Delivered, rm_watch_after = draining\<rparr>"

lemma relay_delivers:
  "rl_request_in_flight st \<Longrightarrow> \<forall>t \<in> set ts. \<not> is_terminal_message env (Text t) \<Longrightarrow>
   relay env ctx (map sent_while_draining ts @ moments) st =
     (fst (relay env ctx moments st), map (\<lambda>t. ToDownstream (Text t)) ts @ snd (relay env ctx moments st))"
  by (induction ts)
    (simp_all add: relay_step_def sent_while_draining_def draining_def wait_for_session_shutdown_def relay_upstream_def
      send_downstream_def split: prod.split)

text \<open>C28: A drain cuts nothing off and does not wait longer than it must. When the service starts to drain, a
  session with an open request still passes on everything the upstream sends until the answer is complete,
  and then closes both sockets with the code for a restart and ends without an error; a session without
  an open request is closed at its next turn, whatever arrives.\<close>

theorem relay_drains:
  assumes reach: "relay_reach env ctx moments effects st"
  shows "(open_request env moments \<and> (\<forall>t \<in> set ts. \<not> is_terminal_message env (Text t)) \<and>
      is_terminal_message env (Text answer) \<longrightarrow>
      relay env ctx (map sent_while_draining ts @ sent_while_draining answer # later) st =
        (Return None, map (\<lambda>t. ToDownstream (Text t)) (ts @ [answer]) @ close_both CloseRestart ''service restart'')) \<and>
    (\<not> open_request env moments \<and> sw_state (rm_watch moment) = Draining \<longrightarrow>
      relay env ctx (moment # later) st = (Return None, close_both CloseRestart ''service restart''))"
proof (intro conjI impI)
  note flag = relay_in_flight [OF reach]
  show "relay env ctx (moment # later) st = (Return None, close_both CloseRestart ''service restart'')"
    if "\<not> open_request env moments \<and> sw_state (rm_watch moment) = Draining"
    using flag that by (simp add: relay_step_def wait_for_session_shutdown_def)
  assume "open_request env moments \<and> (\<forall>t \<in> set ts. \<not> is_terminal_message env (Text t)) \<and>
    is_terminal_message env (Text answer)"
  with flag show "relay env ctx (map sent_while_draining ts @ sent_while_draining answer # later) st =
      (Return None, map (\<lambda>t. ToDownstream (Text t)) (ts @ [answer]) @ close_both CloseRestart ''service restart'')"
    by (simp add: relay_delivers) (simp add: relay_step_def sent_while_draining_def draining_def
        wait_for_session_shutdown_def relay_upstream_def send_downstream_def)
qed

theorem relay_drains_witness:
  "relay relay_env official_context [sent_while_draining ''delta'', sent_while_draining ''end''] relay_start =
     (Return None, [ToDownstream (Text ''delta''), ToDownstream (Text ''end''),
        ToDownstream (close_message CloseRestart ''service restart''), ToUpstream (close_message CloseRestart ''service restart'')])"
proof -
  have "\<not> is_terminal_message relay_env (Text ''delta'')" by (simp add: relay_eval)
  then show ?thesis
    using relay_drains [OF relay_reach.start, of relay_env "[''delta'']" "''end''" official_context "[]"] example_terminal
    by (simp add: open_request_def close_both_def)
qed

end
