(* ===== verification/WsRunner.thy ===== *)
theory WsRunner
  imports WsRelay ResponsesProperties ChatProperties AnthropicProperties
begin

text \<open>
  The WebSocket sessions that are bridged to HTTP: \<open>ws_http_runner.rs\<close> and \<open>ws_protocol_bridge.rs\<close>. The trait
  \<open>WsHttpProtocolAdapter\<close> is a record of its methods, one for each reading of the clock, and the three
  adapters are its values. A session is a loop of turns: a command of the client, an answer of the adapter
  or a request to the provider, whose stream is decoded and sent on, and the commit of a completed turn.
  The locale \<open>bridged_session\<close> states what the loop relies on, and is interpreted for the three adapters.
\<close>

section \<open>Adapters\<close>

record ('s, 'p, 'm, 'd) ws_http_adapter =
  wa_prepare_action :: "str \<Rightarrow> ('s, bridge_failure, 'p ws_http_action) action"
  wa_new_decoder :: "nat \<Rightarrow> 's \<Rightarrow> 'd"
  wa_push :: "str \<Rightarrow> ('d, bridge_failure, str list) action"
  wa_finish :: "('d, bridge_failure, str list) action"
  wa_is_terminal :: "'d \<Rightarrow> bool"
  wa_into_outcome :: "'d \<Rightarrow> 'm ws_http_stream_outcome"
  wa_commit_outcome :: "'p \<Rightarrow> 'm \<Rightarrow> ('s, bridge_failure, unit) action"

definition responses_adapter ::
  "codec \<Rightarrow> nat \<Rightarrow> (responses_session, json list, json list, responses_decoder) ws_http_adapter" where
  "responses_adapter c nanos =
     \<lparr>wa_prepare_action = responses_prepare_action c nanos,
      wa_new_decoder = (\<lambda>limit _. responses_decoder_new limit),
      wa_push = responses_decoder_push c, wa_finish = responses_decoder_finish c,
      wa_is_terminal = (\<lambda>d. rc_terminal (core d)), wa_into_outcome = responses_outcome,
      wa_commit_outcome = responses_commit_outcome c\<rparr>"

definition chat_adapter ::
  "codec \<Rightarrow> nat \<Rightarrow> (chat_session, json list, json, chat_decoder) ws_http_adapter" where
  "chat_adapter c nanos =
     \<lparr>wa_prepare_action = chat_prepare_action c nanos,
      wa_new_decoder = chat_new_decoder nanos,
      wa_push = chat_decoder_push c nanos, wa_finish = chat_decoder_finish c nanos,
      wa_is_terminal = (\<lambda>d. out_terminal (core d)), wa_into_outcome = chat_outcome,
      wa_commit_outcome = chat_commit_outcome c\<rparr>"

definition anthropic_adapter ::
  "codec \<Rightarrow> nat \<Rightarrow> (anthropic_session, json list, json, anthropic_decoder) ws_http_adapter" where
  "anthropic_adapter c nanos =
     \<lparr>wa_prepare_action = anthropic_prepare_action c,
      wa_new_decoder = anthropic_new_decoder nanos,
      wa_push = anthropic_decoder_push c nanos, wa_finish = anthropic_decoder_finish c nanos,
      wa_is_terminal = (\<lambda>d. out_terminal (ac_inner (core d))), wa_into_outcome = anthropic_outcome,
      wa_commit_outcome = anthropic_commit_outcome c\<rparr>"

definition map_bridge_failure :: "bridge_failure \<Rightarrow> websocket_proxy_error" where
  "map_bridge_failure e =
     (case e of
        BridgeSessionHistoryLimit \<Rightarrow> WsSessionHistoryLimit
      | BridgeInvalidStream \<Rightarrow> WsInvalidUpstreamStream
      | BridgeInvalidRequest \<Rightarrow> WsInvalidFirstMessage)"

section \<open>Sending and decoding\<close>

text \<open>The outcomes of the sends of a turn are numbered; \<open>send_events\<close> stops at the first that fails.\<close>

fun send_events ::
  "(nat \<Rightarrow> send_outcome) \<Rightarrow> nat \<Rightarrow> str list \<Rightarrow> (websocket_proxy_error + unit) \<times> ws_effect list" where
  "send_events sent k [] = (Inr (), [])"
| "send_events sent k (event # events) =
     (case send_downstream StageResponseStream (sent k) of
        Inl e \<Rightarrow> (Inl e, [ToDownstream (Text event)])
      | Inr _ \<Rightarrow> (case send_events sent (Suc k) events of (r, effects) \<Rightarrow> (r, ToDownstream (Text event) # effects)))"

datatype body_frame = FrameData str | FrameTrailers | FrameError | FrameEnd

datatype collect_waited = CollectForced | CollectIdle | FromBody body_frame | FromClient stream_item

record collect_moment =
  cm_waited :: collect_waited
  cm_sent :: "nat \<Rightarrow> send_outcome"
  cm_nanos :: nat

definition prepend :: "'e list \<Rightarrow> 'a \<times> 'e list \<Rightarrow> 'a \<times> 'e list" where
  "prepend effects later = (fst later, effects @ snd later)"

definition collect_finish ::
  "('s, 'p, 'm, 'd) ws_http_adapter \<Rightarrow> (nat \<Rightarrow> send_outcome) \<Rightarrow> nat \<Rightarrow> 'd \<Rightarrow>
   (websocket_proxy_error + 'm ws_http_stream_outcome) option \<times> ws_effect list" where
  "collect_finish adapter sent k d =
     (case wa_finish adapter d of
        (Inl e, _) \<Rightarrow> (Some (Inl (map_bridge_failure e)), [])
      | (Inr events, d) \<Rightarrow>
          (case send_events sent k events of
             (Inl e, effects) \<Rightarrow> (Some (Inl e), effects)
           | (Inr _, effects) \<Rightarrow> (Some (Inr (wa_into_outcome adapter d)), effects)))"

fun collect_sse ::
  "(nat \<Rightarrow> ('s, 'p, 'm, 'd) ws_http_adapter) \<Rightarrow> collect_moment list \<Rightarrow> 'd \<Rightarrow>
   (websocket_proxy_error + 'm ws_http_stream_outcome) option \<times> ws_effect list" where
  "collect_sse adapter [] d = (None, [])"
| "collect_sse adapter (moment # moments) d =
     (case cm_waited moment of
        CollectForced \<Rightarrow> (Some (Inl WsShutdown), [])
      | CollectIdle \<Rightarrow> (Some (Inl (WsIdleTimeout (failure_undirected StageResponseStream ReasonTimeout))), [])
      | FromBody FrameError \<Rightarrow> (Some (Inl (WsTransport (failure_upstream StageResponseStream ReasonTransport))), [])
      | FromBody FrameEnd \<Rightarrow> collect_finish (adapter (cm_nanos moment)) (cm_sent moment) 0 d
      | FromBody FrameTrailers \<Rightarrow> collect_sse adapter moments d
      | FromBody (FrameData data) \<Rightarrow>
          (case wa_push (adapter (cm_nanos moment)) data d of
             (Inl e, _) \<Rightarrow> (Some (Inl (map_bridge_failure e)), [])
           | (Inr events, d) \<Rightarrow>
               (case send_events (cm_sent moment) 0 events of
                  (Inl e, effects) \<Rightarrow> (Some (Inl e), effects)
                | (Inr _, effects) \<Rightarrow>
                    if wa_is_terminal (adapter (cm_nanos moment)) d
                    then prepend effects
                           (collect_finish (adapter (cm_nanos moment)) (cm_sent moment) (length events) d)
                    else prepend effects (collect_sse adapter moments d)))
      | FromClient (Received (Ping payload)) \<Rightarrow>
          (case send_downstream StageResponseStream (cm_sent moment 0) of
             Inl e \<Rightarrow> (Some (Inl e), [ToDownstream (Pong payload)])
           | Inr _ \<Rightarrow> prepend [ToDownstream (Pong payload)] (collect_sse adapter moments d))
      | FromClient (Received (Pong _)) \<Rightarrow> collect_sse adapter moments d
      | FromClient (Received (Close _)) \<Rightarrow> (Some (Inl WsClientClosed), [])
      | FromClient StreamEnd \<Rightarrow> (Some (Inl WsClientClosed), [])
      | FromClient (Received (Text _)) \<Rightarrow> (Some (Inl WsConcurrentRequest), [])
      | FromClient _ \<Rightarrow> (Some (Inl (WsTransport (failure_downstream StageResponseStream ReasonTransport))), []))"

section \<open>One turn\<close>

text \<open>The answer to the HTTP request of a turn, or that the wait for it was cut off.\<close>

datatype http_outcome = HttpForced | HttpTimedOut | HttpFailed | HttpAnswered nat

record bridge_turn =
  bt_receive :: "(shutdown_watch \<times> waited \<times> send_outcome) list"
  bt_nanos :: nat
  bt_sent :: "nat \<Rightarrow> send_outcome"
  bt_started :: bool
  bt_outcome :: http_outcome
  bt_collect :: "collect_moment list"
  bt_watch_after :: shutdown_watch

record bridge_context =
  bc_provider :: provider_egress
  bc_runtime :: egress_runtime
  bc_headers :: header_map
  bc_observed_route :: observed_route
  bc_codex_turn_metadata :: bool
  bc_session_id :: u64

definition send_service_restart :: "ws_effect list" where
  "send_service_restart = [ToDownstream (close_message CloseRestart ''service restart'')]"

fun receive_next_create ::
  "(shutdown_watch \<times> waited \<times> send_outcome) list \<Rightarrow> (websocket_proxy_error + str) option \<times> ws_effect list" where
  "receive_next_create [] = (None, [])"
| "receive_next_create ((w, arrived, sent) # moments) =
     (if wait_for_drain w then (Some (Inl WsClientClosed), send_service_restart)
      else
        (case arrived of
           TimedOut \<Rightarrow> (Some (Inl (WsIdleTimeout (failure_downstream StageRelay ReasonTimeout))), [])
         | Item StreamEnd \<Rightarrow> (Some (Inl WsClientClosed), [])
         | Item StreamError \<Rightarrow> (Some (Inl (WsTransport (failure_downstream StageRelay ReasonTransport))), [])
         | Item (Received m) \<Rightarrow>
             (case m of
                Text t \<Rightarrow> (Some (Inr t), [])
              | Ping payload \<Rightarrow>
                  (case send_downstream StageResponseStream sent of
                     Inl e \<Rightarrow> (Some (Inl e), [ToDownstream (Pong payload)])
                   | Inr _ \<Rightarrow> prepend [ToDownstream (Pong payload)] (receive_next_create moments))
              | Pong _ \<Rightarrow> receive_next_create moments
              | Close _ \<Rightarrow> (Some (Inl WsClientClosed), [])
              | _ \<Rightarrow> (Some (Inl WsInvalidFirstMessage), []))))"

definition validate_followup_route ::
  "ws_env \<Rightarrow> bridge_context \<Rightarrow> u64 \<Rightarrow> str \<Rightarrow> (websocket_proxy_error + unit) \<times> ws_effect list" where
  "validate_followup_route env ctx sequence t =
     (case inspect_ws_text (ws_codec env) t of
        Inl _ \<Rightarrow> (Inl WsInvalidFirstMessage, [])
      | Inr inspected \<Rightarrow>
          (case runtime_resolve (bc_runtime ctx) (inspected_model inspected) of
             ThirdParty p _ \<Rightarrow> if p = prov_id (pe_config (bc_provider ctx)) then Inr () else Inl WsRouteChanged
           | UnavailableManagedModel \<Rightarrow> Inl WsModelNotAvailable
           | BuiltInOfficial \<Rightarrow> Inl WsRouteChanged,
           [ws_request_event (bc_runtime ctx) (bc_session_id ctx) sequence (bc_codex_turn_metadata ctx) inspected]))"

text \<open>The headers and the target of the request to the provider.\<close>

definition bridge_headers :: "ws_env \<Rightarrow> bridge_context \<Rightarrow> websocket_proxy_error + header_map" where
  "bridge_headers env ctx =
     and_then (map_err (\<lambda>_. WsProviderNotAvailable)
         (third_party_request_headers (se_header_value (ws_server env)) (se_version (ws_server env)) (bc_headers ctx)
           (prov_auth (pe_config (bc_provider ctx))) (pe_profile (bc_provider ctx)))) (\<lambda>headers.
     Inr (hm_insert ''accept'' ''text/event-stream''
           (hm_insert ''content-type'' ''application/json''
             (hm_remove ''accept-encoding'' (filter (\<lambda>h. \<not> starts_with ''sec-websocket-'' (fst h)) headers)))))"

definition bridge_http_request :: "ws_env \<Rightarrow> bridge_context \<Rightarrow> str \<Rightarrow> websocket_proxy_error + outgoing_request" where
  "bridge_http_request env ctx body =
     (let uri = websocket_http_url (pe_profile (bc_provider ctx)) in
      if \<not> se_uri_ok (ws_server env) uri then Inl WsProviderNotAvailable
      else
        and_then (bridge_headers env ctx) (\<lambda>headers.
        Inr \<lparr>og_client = ProviderClient (prov_id (pe_config (bc_provider ctx))), og_method = ''POST'', og_uri = uri,
             og_headers = headers, og_body = body\<rparr>))"

definition request_http ::
  "ws_env \<Rightarrow> egress_state \<Rightarrow> (nat \<Rightarrow> ('s, 'p, 'm, 'd) ws_http_adapter) \<Rightarrow> bridge_context \<Rightarrow> bridge_turn \<Rightarrow> str \<Rightarrow>
   's \<Rightarrow> (websocket_proxy_error + 'm ws_http_stream_outcome) option \<times> ws_effect list" where
  "request_http env s adapter ctx turn body a =
     (let collect = collect_sse adapter (bt_collect turn)
            (wa_new_decoder (adapter (bt_nanos turn)) (es_request_body_limit s) a)
      in
      if execution_backend_of (pe_profile (bc_provider ctx)) = BackendClaudeCode
      then prepend [WsClaude body] (if bt_started turn then collect else (Some (Inl WsProviderNotAvailable), []))
      else
        (case bridge_http_request env ctx body of
           Inl e \<Rightarrow> (Some (Inl e), [])
         | Inr request \<Rightarrow>
             prepend [WsRequest request]
               (case bt_outcome turn of
                  HttpForced \<Rightarrow> (Some (Inl WsShutdown), [])
                | HttpTimedOut \<Rightarrow> (Some (Inl (WsUpstreamConnect (failure_upstream StageConnect ReasonTimeout))), [])
                | HttpFailed \<Rightarrow> (Some (Inl (WsUpstreamConnect (failure_upstream StageConnect ReasonTransport))), [])
                | HttpAnswered status \<Rightarrow>
                    prepend
                      [WsObserved (UpstreamEvent \<lparr>uo_transport = ObservedHttp, uo_session_id = Some (bc_session_id ctx),
                         uo_route = bc_observed_route ctx, uo_status = status\<rparr>)]
                      (if \<not> is_success status then (Some (Inl (WsUpstreamStatus status)), []) else collect))))"

datatype 'a turn_end = TurnWaiting | TurnDone 'a | TurnReturn "websocket_proxy_error option"

definition finish_turn ::
  "('s, 'p, 'm, 'd) ws_http_adapter \<Rightarrow> bridge_turn \<Rightarrow> 'p \<Rightarrow> 'm ws_http_stream_outcome \<Rightarrow> 's \<Rightarrow>
   's turn_end \<times> ws_effect list" where
  "finish_turn adapter turn kept result a =
     (if \<not> stream_terminal result then (TurnReturn (Some WsInvalidUpstreamStream), [])
      else
        (case (if stream_completed result then wa_commit_outcome adapter kept (stream_commit result) a
               else (Inr (), a)) of
           (Inl e, _) \<Rightarrow> (TurnReturn (Some (map_bridge_failure e)), [])
         | (Inr _, a) \<Rightarrow>
             if sw_state (bt_watch_after turn) \<noteq> Running then (TurnReturn None, send_service_restart)
             else (TurnDone a, [])))"

definition perform_turn ::
  "ws_env \<Rightarrow> egress_state \<Rightarrow> (nat \<Rightarrow> ('s, 'p, 'm, 'd) ws_http_adapter) \<Rightarrow> bridge_context \<Rightarrow> bridge_turn \<Rightarrow> str \<Rightarrow>
   's \<Rightarrow> 's turn_end \<times> ws_effect list" where
  "perform_turn env s adapter ctx turn t a =
     (case wa_prepare_action (adapter (bt_nanos turn)) t a of
        (Inl e, _) \<Rightarrow> (TurnReturn (Some (map_bridge_failure e)), [])
      | (Inr (Warmup events), a) \<Rightarrow>
          (case send_events (bt_sent turn) 0 events of
             (Inl e, effects) \<Rightarrow> (TurnReturn (Some e), effects)
           | (Inr _, effects) \<Rightarrow> (TurnDone a, effects))
      | (Inr (Request body kept), a) \<Rightarrow>
          (case request_http env s adapter ctx turn body a of
             (None, effects) \<Rightarrow> (TurnWaiting, effects)
           | (Some (Inl e), effects) \<Rightarrow> (TurnReturn (Some e), effects)
           | (Some (Inr result), effects) \<Rightarrow>
               prepend effects (finish_turn (adapter (bt_nanos turn)) turn kept result a)))"

section \<open>The session\<close>

text \<open>The state of the loop: the text it was given, the number of the request, and the adapter.\<close>

record 's bridge_state =
  bg_next_text :: "str option"
  bg_sequence :: u64
  bg_adapter :: 's

definition bridge_text ::
  "ws_env \<Rightarrow> bridge_context \<Rightarrow> bridge_turn \<Rightarrow> 's bridge_state \<Rightarrow>
   (websocket_proxy_error + str \<times> u64) option \<times> ws_effect list" where
  "bridge_text env ctx turn b =
     (case bg_next_text b of
        Some t \<Rightarrow> (Some (Inr (t, bg_sequence b)), [])
      | None \<Rightarrow>
          (case receive_next_create (bt_receive turn) of
             (None, effects) \<Rightarrow> (None, effects)
           | (Some (Inl e), effects) \<Rightarrow> (Some (Inl e), effects)
           | (Some (Inr t), effects) \<Rightarrow>
               (let sequence = saturating_add_u64 (bg_sequence b) 1 in
                case validate_followup_route env ctx sequence t of
                  (Inl e, events) \<Rightarrow> (Some (Inl e), effects @ events)
                | (Inr _, events) \<Rightarrow> (Some (Inr (t, sequence)), effects @ events))))"

definition bridge_turn_step ::
  "ws_env \<Rightarrow> egress_state \<Rightarrow> (nat \<Rightarrow> ('s, 'p, 'm, 'd) ws_http_adapter) \<Rightarrow> bridge_context \<Rightarrow> bridge_turn \<Rightarrow>
   's bridge_state \<Rightarrow> 's bridge_state turn_end \<times> ws_effect list" where
  "bridge_turn_step env s adapter ctx turn b =
     (case bridge_text env ctx turn b of
        (None, effects) \<Rightarrow> (TurnWaiting, effects)
      | (Some (Inl e), effects) \<Rightarrow> (TurnReturn (Some e), effects)
      | (Some (Inr (t, sequence)), effects) \<Rightarrow>
          prepend effects
            (case perform_turn env s adapter ctx turn t (bg_adapter b) of
               (TurnDone a, later) \<Rightarrow> (TurnDone \<lparr>bg_next_text = None, bg_sequence = sequence, bg_adapter = a\<rparr>, later)
             | (TurnWaiting, later) \<Rightarrow> (TurnWaiting, later)
             | (TurnReturn r, later) \<Rightarrow> (TurnReturn r, later)))"

fun bridge_turns ::
  "ws_env \<Rightarrow> egress_state \<Rightarrow> (nat \<Rightarrow> ('s, 'p, 'm, 'd) ws_http_adapter) \<Rightarrow> bridge_context \<Rightarrow> bridge_turn list \<Rightarrow>
   's bridge_state \<Rightarrow> 's bridge_state turn_end \<times> ws_effect list" where
  "bridge_turns env s adapter ctx [] b = (TurnDone b, [])"
| "bridge_turns env s adapter ctx (turn # turns) b =
     (case bridge_turn_step env s adapter ctx turn b of
        (TurnDone b, effects) \<Rightarrow> prepend effects (bridge_turns env s adapter ctx turns b)
      | (r, effects) \<Rightarrow> (r, effects))"

definition run_with_adapter ::
  "ws_env \<Rightarrow> egress_state \<Rightarrow> (nat \<Rightarrow> ('s, 'p, 'm, 'd) ws_http_adapter) \<Rightarrow> bridge_context \<Rightarrow> str \<Rightarrow> bridge_turn list \<Rightarrow> 's \<Rightarrow>
   's bridge_state turn_end \<times> ws_effect list" where
  "run_with_adapter env s adapter ctx first_text turns a =
     bridge_turns env s adapter ctx turns \<lparr>bg_next_text = Some first_text, bg_sequence = 1, bg_adapter = a\<rparr>"

text \<open>How a session stands: waiting, or ended with or without an error.\<close>

definition turn_result :: "'a turn_end \<Rightarrow> websocket_proxy_error option option" where
  "turn_result r = (case r of TurnReturn e \<Rightarrow> Some e | _ \<Rightarrow> None)"

definition run_bridge ::
  "ws_env \<Rightarrow> egress_state \<Rightarrow> bridge_context \<Rightarrow> str \<Rightarrow> str \<Rightarrow> bridge_turn list \<Rightarrow>
   websocket_proxy_error option option \<times> ws_effect list" where
  "run_bridge env s ctx upstream_model first_text turns =
     (let c = ws_codec env; limit = es_request_body_limit s; profile = pe_profile (bc_provider ctx) in
      case profile_websocket_plan profile of
        PlanHttpBridge AdapterResponses \<Rightarrow>
          apfst turn_result (run_with_adapter env s (responses_adapter c) ctx first_text turns
            (responses_session_new upstream_model limit))
      | PlanHttpBridge AdapterChatCompletions \<Rightarrow>
          apfst turn_result (run_with_adapter env s (chat_adapter c) ctx first_text turns
            (new_session_with_policy upstream_model limit (prof_reasoning_policy profile)))
      | PlanHttpBridge AdapterMessages \<Rightarrow>
          apfst turn_result (run_with_adapter env s (anthropic_adapter c) ctx first_text turns
            (anthropic_session_with_mode upstream_model limit (prof_anthropic_thinking profile)))
      | _ \<Rightarrow> (Some (Some WsTransportNotSupported), []))"


text \<open>The states of the loop, with the effects behind them.\<close>

inductive bridge_reach ::
  "ws_env \<Rightarrow> egress_state \<Rightarrow> (nat \<Rightarrow> ('s, 'p, 'm, 'd) ws_http_adapter) \<Rightarrow> bridge_context \<Rightarrow> str \<Rightarrow> 's \<Rightarrow>
   ws_effect list \<Rightarrow> 's bridge_state \<Rightarrow> bool"
  for env s adapter ctx first_text a where
  start: "bridge_reach env s adapter ctx first_text a []
    \<lparr>bg_next_text = Some first_text, bg_sequence = 1, bg_adapter = a\<rparr>"
| turn: "bridge_reach env s adapter ctx first_text a effects b \<Longrightarrow>
    bridge_turn_step env s adapter ctx turn b = (TurnDone b', fresh) \<Longrightarrow>
    bridge_reach env s adapter ctx first_text a (effects @ fresh) b'"

lemma prepend_simps [simp]: "fst (prepend x r) = fst r" "snd (prepend x r) = x @ snd r"
  by (simp_all add: prepend_def)

lemma prepend_eq: "prepend x r = (a, y) \<longleftrightarrow> (\<exists>z. r = (a, z) \<and> y = x @ z)"
  by (cases r) (auto simp: prepend_def)

lemma bridge_turns_last:
  assumes "bridge_reach env s adapter ctx first_text a done b"
    and "bridge_turns env s adapter ctx turns b = (r, effects)" and "x \<in> set effects"
  shows "\<exists>done b turn r fresh. bridge_reach env s adapter ctx first_text a done b \<and>
    bridge_turn_step env s adapter ctx turn b = (r, fresh) \<and> x \<in> set fresh"
  using assms
proof (induction turns arbitrary: b "done" effects)
  case (Cons turn turns)
  obtain end_of fresh where step: "bridge_turn_step env s adapter ctx turn b = (end_of, fresh)" by fastforce
  show ?case
  proof (cases "x \<in> set fresh")
    case True
    with Cons.prems(1) step show ?thesis by blast
  next
    case False
    with Cons.prems(2,3) step obtain b' later where "end_of = TurnDone b'"
      "bridge_turns env s adapter ctx turns b' = (r, later)" "x \<in> set later"
      by (auto split: turn_end.splits simp: prepend_eq)
    with Cons.IH turn [OF Cons.prems(1)] step show ?thesis by blast
  qed
qed simp

section \<open>What a session keeps\<close>

text \<open>
  The contract between the loop and an adapter: at every reading of the clock it is a session as in
  \<open>Bridge\<close>, with the same history and the same bounds.
\<close>

locale bridged_session =
  fixes adapter :: "nat \<Rightarrow> ('s, 'p, 'm, 'd) ws_http_adapter"
    and history :: "'s \<Rightarrow> json list"
    and within :: "'s \<Rightarrow> json list \<Rightarrow> bool"
  assumes session:
    "bridge_session (wa_prepare_action (adapter nanos)) (wa_commit_outcome (adapter nanos)) history within"
begin

lemma prepared:
  "wa_prepare_action (adapter nanos) t a = (r, a') \<Longrightarrow> history a' = history a \<and> within a' = within a"
  using bridge_session.prepare_history [OF session, of nanos t a]
    bridge_session.prepare_within [OF session, of nanos t a] by simp

lemma committed:
  assumes "wa_commit_outcome (adapter nanos) p m a = (Inr u, a')"
  shows "within a (history a') \<and> within a' = within a"
  using bridge_session.commit_within [OF session, of nanos p m a]
    bridge_session.commit_done [OF session, of nanos p m a] assms by simp

text \<open>A turn that goes on keeps the bounds; only a complete answer changes the history.\<close>

lemma finished:
  assumes "finish_turn (adapter nanos) turn kept result a = (TurnDone a', effects)"
  shows "within a' = within a \<and> stream_terminal result \<and> effects = [] \<and>
    (history a' = history a \<and> \<not> stream_completed result \<or> within a (history a') \<and> stream_completed result)"
proof -
  from assms have terminal: "stream_terminal result" "effects = []"
    by (auto simp: finish_turn_def split: if_splits sum.splits prod.splits)
  show ?thesis
  proof (cases "stream_completed result")
    case True
    with assms terminal obtain u where
      "wa_commit_outcome (adapter nanos) kept (stream_commit result) a = (Inr u, a')"
      by (auto simp: finish_turn_def split: if_splits sum.splits prod.splits)
    with committed True terminal show ?thesis by blast
  next
    case False
    with assms terminal show ?thesis by (auto simp: finish_turn_def split: if_splits)
  qed
qed

lemma performed:
  assumes "perform_turn env s adapter ctx turn t a = (TurnDone a', effects)" and "within a (history a)"
  shows "within a' = within a \<and> within a' (history a')"
proof (cases "wa_prepare_action (adapter (bt_nanos turn)) t a")
  case (Pair r mid)
  note kept = prepared [OF Pair]
  show ?thesis
  proof (cases r)
    case (Inr action)
    show ?thesis
    proof (cases action)
      case (Warmup events)
      with assms Pair Inr have "a' = mid"
        by (auto simp: perform_turn_def split: sum.splits prod.splits)
      with kept assms(2) show ?thesis by simp
    next
      case (Request body pending_turn)
      with assms(1) Pair Inr obtain result fx where
        "finish_turn (adapter (bt_nanos turn)) turn pending_turn result mid = (TurnDone a', fx)"
        by (auto simp: perform_turn_def prepend_eq split: option.splits sum.splits prod.splits)
      from finished [OF this] kept assms(2) show ?thesis by auto
    qed
  qed (use assms Pair in \<open>simp add: perform_turn_def\<close>)
qed

lemma turned:
  assumes "bridge_turn_step env s adapter ctx turn b = (TurnDone b', effects)"
    and "within (bg_adapter b) (history (bg_adapter b))"
  shows "within (bg_adapter b') = within (bg_adapter b) \<and> within (bg_adapter b') (history (bg_adapter b'))"
proof -
  from assms(1) obtain t a' later where "perform_turn env s adapter ctx turn t (bg_adapter b) = (TurnDone a', later)"
    "bg_adapter b' = a'"
    by (auto simp: bridge_turn_step_def prepend_eq split: option.splits sum.splits prod.splits turn_end.splits)
  with performed assms(2) show ?thesis by blast
qed

lemma reached:
  assumes "bridge_reach env s adapter ctx first_text a effects b" and "within a (history a)"
  shows "within (bg_adapter b) = within a \<and> within (bg_adapter b) (history (bg_adapter b))"
  using assms
proof (induction rule: bridge_reach.induct)
  case (turn effects b turn b' fresh)
  from turn.IH turn.prems turned [OF turn.hyps(2)] show ?case by metis
qed simp

end

interpretation bridged_responses: bridged_session "responses_adapter c" rs_history "responses_within c" for c
  by (rule bridged_session.intro) (simp add: responses_adapter_def responses_bridge.bridge_session_axioms)

interpretation bridged_chat: bridged_session "chat_adapter c" cs_history "chat_within c" for c
  by (rule bridged_session.intro) (simp add: chat_adapter_def chat_bridge.bridge_session_axioms)

interpretation bridged_anthropic: bridged_session "anthropic_adapter c" as_history "anthropic_within c" for c
  by (rule bridged_session.intro) (simp add: anthropic_adapter_def anthropic_bridge.bridge_session_axioms)

end
