(* ===== verification/WsSession.thy ===== *)
theory WsSession
  imports WsRunner
begin

text \<open>
  A whole WebSocket session, \<open>run_session\<close> of \<open>ws_proxy.rs\<close>: the first message, the connection or the bridge,
  the relay, and the report of its error. The properties say where a session sends anything, and within
  which bounds a bridged session keeps its history.
\<close>

section \<open>The session\<close>

datatype connect_outcome = ConnectForced | ConnectTimedOut | ConnectRefused websocket_connection_error | Connected nat

text \<open>What a session meets from outside.\<close>

record session_script =
  ss_first :: "(shutdown_watch \<times> waited \<times> bool) list"
  ss_connect :: connect_outcome
  ss_first_sent :: send_outcome
  ss_relay :: "relay_moment list"
  ss_bridge :: "bridge_turn list"

record session_diagnostics =
  sd_session_id :: u64
  sd_mode :: "observed_websocket_mode option"
  sd_route :: "observed_route option"

definition connect_direct_upstream ::
  "ws_env \<Rightarrow> str \<Rightarrow> header_map \<Rightarrow> network_connector \<Rightarrow> connect_outcome \<Rightarrow>
   (websocket_proxy_error + nat) \<times> ws_effect list" where
  "connect_direct_upstream env url headers connector outcome =
     (if \<not> ws_client_request env url
      then (Inl (WsUpstreamConnect (failure_upstream StageRequestBuild ReasonInvalidEndpoint)), [])
      else
        (case outcome of
           ConnectForced \<Rightarrow> Inl WsShutdown
         | ConnectTimedOut \<Rightarrow> Inl (WsUpstreamConnect (failure_upstream StageConnect ReasonTimeout))
         | ConnectRefused e \<Rightarrow> Inl (map_websocket_connection_error e)
         | Connected status \<Rightarrow> Inr status,
         [WsConnect url headers connector]))"

definition direct_session ::
  "ws_env \<Rightarrow> egress_state \<Rightarrow> session_script \<Rightarrow> u64 \<Rightarrow> prepared_first \<Rightarrow> str \<Rightarrow> header_map \<Rightarrow> message \<Rightarrow>
   network_connector \<Rightarrow> websocket_proxy_error option option \<times> ws_effect list" where
  "direct_session env s script session_id prepared url headers m connector =
     (case connect_direct_upstream env url headers connector (ss_connect script) of
        (Inl e, effects) \<Rightarrow> (Some (Some e), effects)
      | (Inr status, effects) \<Rightarrow>
          prepend
            (effects @
             [WsObserved (UpstreamEvent \<lparr>uo_transport = ObservedWebSocket, uo_session_id = Some session_id,
                uo_route = pf_observed_route prepared, uo_status = status\<rparr>),
              ToUpstream m])
            (case send_upstream (ss_first_sent script) of
               Inl e \<Rightarrow> (Some (Some e), [])
             | Inr _ \<Rightarrow>
                 (case relay env
                         \<lparr>rc_runtime = pf_runtime prepared, rc_route = pf_route prepared,
                          rc_codex_turn_metadata = pf_codex_turn_metadata prepared, rc_session_id = session_id\<rparr>
                         (ss_relay script) relay_start of
                    (Continue _, later) \<Rightarrow> (None, later)
                  | (Return None, later) \<Rightarrow> (Some None, later)
                  | (Return (Some e), later) \<Rightarrow>
                      (Some (Some e), later @ [ToUpstream (close_message ClosePolicy ''proxy error'')]))))"

definition bridge_context_of ::
  "header_map \<Rightarrow> u64 \<Rightarrow> prepared_first \<Rightarrow> provider_egress \<Rightarrow> bridge_context" where
  "bridge_context_of hs session_id prepared provider =
     \<lparr>bc_provider = provider, bc_runtime = pf_runtime prepared, bc_headers = hs,
      bc_observed_route = pf_observed_route prepared,
      bc_codex_turn_metadata = pf_codex_turn_metadata prepared, bc_session_id = session_id\<rparr>"

definition session_body ::
  "ws_env \<Rightarrow> egress_state \<Rightarrow> header_map \<Rightarrow> session_script \<Rightarrow> u64 \<Rightarrow>
   (websocket_proxy_error option option \<times> ws_effect list) \<times> session_diagnostics" where
  "session_body env s hs script session_id =
     (let diagnostics = \<lparr>sd_session_id = session_id, sd_mode = None, sd_route = None\<rparr> in
      case receive_first_message (ws_codec env) (ss_first script) of
        None \<Rightarrow> ((None, []), diagnostics)
      | Some (Inl e) \<Rightarrow> ((Some (Some e), []), diagnostics)
      | Some (Inr m) \<Rightarrow>
          (case prepare_first_message env s hs session_id m of
             (Inl e, effects) \<Rightarrow> ((Some (Some e), effects), diagnostics)
           | (Inr prepared, effects) \<Rightarrow>
               let diagnostics = diagnostics\<lparr>sd_route := Some (pf_observed_route prepared)\<rparr> in
               case pf_upstream prepared of
                 UpstreamBridge provider upstream_model first_text \<Rightarrow>
                   (prepend effects
                      (run_bridge env s (bridge_context_of hs session_id prepared provider) upstream_model first_text
                        (ss_bridge script)),
                    diagnostics\<lparr>sd_mode := Some observed_websocket_mode.HttpBridge\<rparr>)
               | UpstreamSocket url headers first_message connector \<Rightarrow>
                   (prepend effects (direct_session env s script session_id prepared url headers first_message connector),
                    diagnostics\<lparr>sd_mode := Some observed_websocket_mode.DirectWebSocket\<rparr>)))"

definition observe_session_error :: "ws_env \<Rightarrow> session_diagnostics \<Rightarrow> websocket_proxy_error \<Rightarrow> ws_effect" where
  "observe_session_error env diagnostics e =
     WsObserved (ErrorEvent \<lparr>eo_transport = ObservedWebSocket, eo_method = ''GET'', eo_path = ''/v1/responses'',
       eo_ingress_authorized = True, eo_status = ws_error_status e, eo_code = ws_log_code e,
       eo_message = ws_error_text env e,
       eo_websocket = Some \<lparr>wf_session_id = sd_session_id diagnostics, wf_mode = sd_mode diagnostics,
         wf_route = sd_route diagnostics, wf_stage = fl_stage (ws_failure e),
         wf_direction = fl_direction (ws_failure e), wf_reason = fl_reason (ws_failure e)\<rparr>\<rparr>)"

definition run_session ::
  "ws_env \<Rightarrow> egress_state \<Rightarrow> header_map \<Rightarrow> session_script \<Rightarrow> u64 \<Rightarrow>
   websocket_proxy_error option option \<times> ws_effect list" where
  "run_session env s hs script session_id =
     (case session_body env s hs script session_id of
        ((r, effects), diagnostics) \<Rightarrow>
          (r, effects @
              (case r of
                 Some (Some e) \<Rightarrow>
                   if is_reportable_session_error e
                   then observe_session_error env diagnostics e # reject_downstream env e else []
               | _ \<Rightarrow> [])))"

section \<open>Bounds of a bridged session\<close>

lemma history_within_Nil: "history_within c limit []"
  by (simp add: history_within_def)

text \<open>C30: Whatever a client and a provider do in a bridged WebSocket session, the history kept for it has at
  most 256 items and serializes within the configured bytes, for each of the three protocols and at every
  turn.\<close>

theorem bridged_history_bounded:
  "(bridge_reach env s (responses_adapter c) ctx t (responses_session_new m limit) effects responses \<longrightarrow>
      history_within c limit (rs_history (bg_adapter responses))) \<and>
   (bridge_reach env s (chat_adapter c) ctx t (new_session_with_policy m limit policy) effects chat \<longrightarrow>
      history_within c limit (cs_history (bg_adapter chat))) \<and>
   (bridge_reach env s (anthropic_adapter c) ctx t (anthropic_session_with_mode m limit mode) effects anthropic \<longrightarrow>
      history_within c limit (as_history (bg_adapter anthropic)))"
proof (intro conjI impI)
  assume "bridge_reach env s (responses_adapter c) ctx t (responses_session_new m limit) effects responses"
  from bridged_responses.reached [OF this] show "history_within c limit (rs_history (bg_adapter responses))"
    by (simp add: responses_within_def responses_session_new_def fun_eq_iff history_within_Nil) blast
next
  assume "bridge_reach env s (chat_adapter c) ctx t (new_session_with_policy m limit policy) effects chat"
  from bridged_chat.reached [OF this] show "history_within c limit (cs_history (bg_adapter chat))"
    by (simp add: chat_within_def new_session_with_policy_def chat_session_new_def fun_eq_iff history_within_Nil) blast
next
  assume "bridge_reach env s (anthropic_adapter c) ctx t (anthropic_session_with_mode m limit mode) effects anthropic"
  from bridged_anthropic.reached [OF this] show "history_within c limit (as_history (bg_adapter anthropic))"
    by (simp add: anthropic_within_def anthropic_session_with_mode_def fun_eq_iff history_within_Nil) blast
qed

section \<open>What a bridged session sends\<close>

definition stays_here :: "ws_effect \<Rightarrow> bool" where
  "stays_here x \<longleftrightarrow> (\<exists>e. x = WsObserved e) \<or> (\<exists>m. x = ToDownstream m)"

text \<open>A command whose model is one of the provider of the session, in the configuration the session began
  with; and the bodies that an adapter makes of such commands in the turns of a session.\<close>

definition routed_text :: "ws_env \<Rightarrow> bridge_context \<Rightarrow> str \<Rightarrow> bool" where
  "routed_text env ctx t \<longleftrightarrow>
     (\<exists>inspected u. inspect_ws_text (ws_codec env) t = Inr inspected \<and>
        runtime_resolve (bc_runtime ctx) (inspected_model inspected) =
          ThirdParty (prov_id (pe_config (bc_provider ctx))) u)"

definition bridged_by ::
  "ws_env \<Rightarrow> egress_state \<Rightarrow> (nat \<Rightarrow> ('s, 'p, 'm, 'd) ws_http_adapter) \<Rightarrow> bridge_context \<Rightarrow> str \<Rightarrow> 's \<Rightarrow> str \<Rightarrow> bool" where
  "bridged_by env s adapter ctx first_text a body \<longleftrightarrow>
     (\<exists>earlier b t nanos kept a'. bridge_reach env s adapter ctx first_text a earlier b \<and> routed_text env ctx t \<and>
        wa_prepare_action (adapter nanos) t (bg_adapter b) = (Inr (Request body kept), a'))"

definition bridged_body :: "ws_env \<Rightarrow> egress_state \<Rightarrow> bridge_context \<Rightarrow> str \<Rightarrow> str \<Rightarrow> str \<Rightarrow> bool" where
  "bridged_body env s ctx upstream_model first_text body \<longleftrightarrow>
     (let c = ws_codec env; limit = es_request_body_limit s; profile = pe_profile (bc_provider ctx) in
      case profile_websocket_plan profile of
        PlanHttpBridge AdapterResponses \<Rightarrow>
          bridged_by env s (responses_adapter c) ctx first_text (responses_session_new upstream_model limit) body
      | PlanHttpBridge AdapterChatCompletions \<Rightarrow>
          bridged_by env s (chat_adapter c) ctx first_text
            (new_session_with_policy upstream_model limit (prof_reasoning_policy profile)) body
      | PlanHttpBridge AdapterMessages \<Rightarrow>
          bridged_by env s (anthropic_adapter c) ctx first_text
            (anthropic_session_with_mode upstream_model limit (prof_anthropic_thinking profile)) body
      | _ \<Rightarrow> False)"

definition bridged_effect :: "ws_env \<Rightarrow> bridge_context \<Rightarrow> (str \<Rightarrow> bool) \<Rightarrow> ws_effect \<Rightarrow> bool" where
  "bridged_effect env ctx made x \<longleftrightarrow> stays_here x \<or>
     (\<exists>body. x = WsClaude body \<and> execution_backend_of (pe_profile (bc_provider ctx)) = BackendClaudeCode \<and>
        made body) \<or>
     (\<exists>body request. x = WsRequest request \<and> bridge_http_request env ctx body = Inr request \<and> made body)"

lemma stays_here_simps [simp]:
  "stays_here (WsObserved e)" "stays_here (ToDownstream m)" "\<not> stays_here (WsRequest request)"
  "\<not> stays_here (WsConnect url headers connector)" "\<not> stays_here (ToUpstream m)" "\<not> stays_here (WsClaude body)"
  by (simp_all add: stays_here_def)

lemma stays_bridged: "stays_here x \<Longrightarrow> bridged_effect env ctx made x"
  by (simp add: bridged_effect_def)

lemma send_events_stay: "\<forall>x \<in> set (snd (send_events sent k events)). stays_here x"
  by (induction sent k events rule: send_events.induct) (auto split: sum.split prod.split)

lemma collect_finish_stays: "\<forall>x \<in> set (snd (collect_finish adapter sent k d)). stays_here x"
proof -
  have sent: "send_events sent k events = (r, fx) \<Longrightarrow> x \<in> set fx \<Longrightarrow> stays_here x" for sent k events r fx x
    using send_events_stay [of sent k events] by simp
  show ?thesis by (auto simp: collect_finish_def intro: sent split: prod.split sum.split)
qed

lemma collect_sse_stays: "\<forall>x \<in> set (snd (collect_sse adapter moments d)). stays_here x"
proof (induction moments arbitrary: d)
  case (Cons moment moments)
  have sent: "send_events sent k events = (r, fx) \<Longrightarrow> x \<in> set fx \<Longrightarrow> stays_here x" for sent k events r fx x
    using send_events_stay [of sent k events] by simp
  show ?case
    by (auto simp: Cons.IH collect_finish_stays intro: sent
        split: collect_waited.split body_frame.split stream_item.split message.split sum.split prod.split)
qed simp

lemma request_http_bridged:
  assumes "made body"
  shows "\<forall>x \<in> set (snd (request_http env s adapter ctx turn body a)). bridged_effect env ctx made x"
proof -
  have request: "bridge_http_request env ctx body = Inr request \<Longrightarrow> bridged_effect env ctx made (WsRequest request)"
    for request using assms by (auto simp: bridged_effect_def)
  have claude: "execution_backend_of (pe_profile (bc_provider ctx)) = BackendClaudeCode \<Longrightarrow>
      bridged_effect env ctx made (WsClaude body)"
    using assms by (simp add: bridged_effect_def)
  show ?thesis
    using request claude
    by (auto simp: request_http_def Let_def collect_sse_stays stays_bridged split: sum.split http_outcome.split)
qed

lemma finish_turn_stays: "\<forall>x \<in> set (snd (finish_turn adapter turn kept result a)). stays_here x"
  by (auto simp: finish_turn_def send_service_restart_def split: sum.split prod.split)

lemma perform_turn_bridged:
  assumes "\<And>body kept a'. wa_prepare_action (adapter (bt_nanos turn)) t a = (Inr (Request body kept), a') \<Longrightarrow> made body"
  shows "\<forall>x \<in> set (snd (perform_turn env s adapter ctx turn t a)). bridged_effect env ctx made x"
proof -
  have sent: "send_events sent k events = (r, fx) \<Longrightarrow> x \<in> set fx \<Longrightarrow> bridged_effect env ctx made x"
    for sent k events r fx x
    using send_events_stay [of sent k events] by (simp add: stays_bridged)
  have requested: "request_http env s adapter ctx turn body a' = (r, fx) \<Longrightarrow> x \<in> set fx \<Longrightarrow>
      bridged_effect env ctx made x"
    if "wa_prepare_action (adapter (bt_nanos turn)) t a = (Inr (Request body kept), a')" for body kept a' r fx x
    using request_http_bridged [of made body env s adapter ctx turn a'] assms [OF that] by simp
  show ?thesis
    by (auto simp: perform_turn_def finish_turn_stays stays_bridged intro: sent requested
        split: sum.split prod.split ws_http_action.split option.split)
qed

lemma receive_next_create_stays: "\<forall>x \<in> set (snd (receive_next_create moments)). stays_here x"
  by (induction moments rule: receive_next_create.induct)
    (auto simp: send_service_restart_def split: waited.split stream_item.split message.split sum.split)

lemma bridge_text_stays: "\<forall>x \<in> set (snd (bridge_text env ctx turn b)). stays_here x"
proof -
  have received: "receive_next_create moments = (r, fx) \<Longrightarrow> x \<in> set fx \<Longrightarrow> stays_here x" for moments r fx x
    using receive_next_create_stays [of moments] by simp
  have validated: "validate_followup_route env ctx sequence t = (r, fx) \<Longrightarrow> x \<in> set fx \<Longrightarrow> stays_here x"
    for sequence t r fx x
    by (auto simp: validate_followup_route_def ws_request_event_def split: sum.splits)
  show ?thesis
    by (auto simp: bridge_text_def Let_def intro: received validated split: option.split sum.split prod.split)
qed

lemma bridge_text_routed:
  assumes "bridge_text env ctx turn b = (Some (Inr (t, sequence)), fx)"
    and "\<And>first_text. bg_next_text b = Some first_text \<Longrightarrow> routed_text env ctx first_text"
  shows "routed_text env ctx t"
proof (cases "bg_next_text b")
  case None
  with assms(1) obtain n events where "validate_followup_route env ctx n t = (Inr (), events)"
    by (auto simp: bridge_text_def Let_def split: option.splits sum.splits prod.splits)
  then show ?thesis
    by (auto simp: validate_followup_route_def routed_text_def split: sum.splits route_decision.splits if_splits)
qed (use assms in \<open>simp add: bridge_text_def\<close>)

lemma bridge_reach_next:
  "bridge_reach env s adapter ctx first_text a earlier b \<Longrightarrow> bg_next_text b = Some t \<Longrightarrow> t = first_text"
  by (induction rule: bridge_reach.induct)
    (auto simp: bridge_turn_step_def prepend_eq split: option.splits sum.splits prod.splits turn_end.splits)

lemma bridge_turn_bridged:
  assumes reach: "bridge_reach env s adapter ctx first_text a earlier b" and first: "routed_text env ctx first_text"
  shows "\<forall>x \<in> set (snd (bridge_turn_step env s adapter ctx turn b)).
    bridged_effect env ctx (bridged_by env s adapter ctx first_text a) x"
proof -
  have heard: "bridge_text env ctx turn b = (r, fx) \<Longrightarrow> x \<in> set fx \<Longrightarrow> bridged_effect env ctx made x" for r fx x made
    using bridge_text_stays [of env ctx turn b] by (simp add: stays_bridged)
  have performed: "perform_turn env s adapter ctx turn t (bg_adapter b) = (r, fx) \<Longrightarrow> x \<in> set fx \<Longrightarrow>
      bridged_effect env ctx (bridged_by env s adapter ctx first_text a) x"
    if heard_text: "bridge_text env ctx turn b = (Some (Inr (t, sequence)), events)" for t sequence events r fx x
  proof -
    have routed: "routed_text env ctx t"
      using heard_text by (rule bridge_text_routed) (use bridge_reach_next [OF reach] first in blast)
    have "\<forall>x \<in> set (snd (perform_turn env s adapter ctx turn t (bg_adapter b))).
        bridged_effect env ctx (bridged_by env s adapter ctx first_text a) x"
      by (rule perform_turn_bridged) (use reach routed in \<open>unfold bridged_by_def, blast\<close>)
    then show "perform_turn env s adapter ctx turn t (bg_adapter b) = (r, fx) \<Longrightarrow> x \<in> set fx \<Longrightarrow>
        bridged_effect env ctx (bridged_by env s adapter ctx first_text a) x" by simp
  qed
  show ?thesis
    by (auto simp: bridge_turn_step_def intro: heard performed split: option.split sum.split prod.split turn_end.split)
qed

lemma run_with_adapter_bridged:
  assumes "routed_text env ctx first_text" and "x \<in> set (snd (run_with_adapter env s adapter ctx first_text turns a))"
  shows "bridged_effect env ctx (bridged_by env s adapter ctx first_text a) x"
proof -
  from assms(2) obtain r effects where "bridge_turns env s adapter ctx turns
      \<lparr>bg_next_text = Some first_text, bg_sequence = 1, bg_adapter = a\<rparr> = (r, effects)" "x \<in> set effects"
    unfolding run_with_adapter_def by (metis prod.collapse)
  from bridge_turns_last [OF bridge_reach.start this] obtain earlier b turn q fresh
    where "bridge_reach env s adapter ctx first_text a earlier b"
      "bridge_turn_step env s adapter ctx turn b = (q, fresh)" "x \<in> set fresh" by blast
  with bridge_turn_bridged [OF _ assms(1)] show ?thesis by (metis snd_conv)
qed

lemma run_bridge_bridged:
  assumes "routed_text env ctx first_text" and "x \<in> set (snd (run_bridge env s ctx upstream_model first_text turns))"
  shows "bridged_effect env ctx (bridged_body env s ctx upstream_model first_text) x"
proof (cases "profile_websocket_plan (pe_profile (bc_provider ctx))")
  case (PlanHttpBridge kind)
  then show ?thesis
  proof (cases kind)
    case AdapterResponses
    with PlanHttpBridge have "bridged_body env s ctx upstream_model first_text =
        bridged_by env s (responses_adapter (ws_codec env)) ctx first_text
          (responses_session_new upstream_model (es_request_body_limit s))"
      by (intro ext) (simp add: bridged_body_def)
    then show ?thesis
      using assms(2) PlanHttpBridge AdapterResponses run_with_adapter_bridged [OF assms(1)]
      by (simp add: run_bridge_def Let_def)
  next
    case AdapterChatCompletions
    with PlanHttpBridge have "bridged_body env s ctx upstream_model first_text =
        bridged_by env s (chat_adapter (ws_codec env)) ctx first_text
          (new_session_with_policy upstream_model (es_request_body_limit s) (prof_reasoning_policy (pe_profile (bc_provider ctx))))"
      by (intro ext) (simp add: bridged_body_def)
    then show ?thesis
      using assms(2) PlanHttpBridge AdapterChatCompletions run_with_adapter_bridged [OF assms(1)]
      by (simp add: run_bridge_def Let_def)
  next
    case AdapterMessages
    with PlanHttpBridge have "bridged_body env s ctx upstream_model first_text =
        bridged_by env s (anthropic_adapter (ws_codec env)) ctx first_text
          (anthropic_session_with_mode upstream_model (es_request_body_limit s) (prof_anthropic_thinking (pe_profile (bc_provider ctx))))"
      by (intro ext) (simp add: bridged_body_def)
    then show ?thesis
      using assms(2) PlanHttpBridge AdapterMessages run_with_adapter_bridged [OF assms(1)]
      by (simp add: run_bridge_def Let_def)
  qed
qed (use assms(2) in \<open>simp_all add: run_bridge_def Let_def\<close>)


section \<open>Where a session sends anything\<close>

text \<open>What a session on the official route may do, and what one on the route of a provider may do.\<close>

fun official_effect :: "ws_env \<Rightarrow> egress_state \<Rightarrow> header_map \<Rightarrow> ws_effect \<Rightarrow> bool" where
  "official_effect env s hs (WsConnect url headers connector) \<longleftrightarrow>
     official_websocket_url (es_official_base_url s) = Some url \<and> connector = es_official_websocket_connector s \<and>
     set headers \<subseteq> set hs"
| "official_effect env s hs (ToUpstream (Text t)) \<longleftrightarrow>
     classify_ws_text (ws_codec env) t = Inr Other \<or>
     (\<exists>inspected. inspect_ws_text (ws_codec env) t = Inr inspected \<and> CHR ''/'' \<notin> set (inspected_model inspected))"
| "official_effect env s hs (WsRequest request) \<longleftrightarrow> False"
| "official_effect env s hs (WsClaude body) \<longleftrightarrow> False"
| "official_effect env s hs x \<longleftrightarrow> True"

definition confined :: "ws_env \<Rightarrow> header_map \<Rightarrow> provider_egress \<Rightarrow> header_map \<Rightarrow> bool" where
  "confined env hs e headers \<longleftrightarrow>
     (\<forall>(name, v) \<in> set headers.
        issued_by (se_header_value (ws_server env)) (se_version (ws_server env)) (prov_auth (pe_config e)) name v \<or>
        (name, v) \<in> set hs \<and> forwardable hs name \<or>
        (name, v) \<in> {(''accept'', ''text/event-stream''), (''content-type'', ''application/json'')})"

text \<open>The bodies of the requests of a bridged session: what the adapter for the protocol of the provider makes
  of commands for models of that provider, for the published model that the first of them names.\<close>

definition session_bodies :: "ws_env \<Rightarrow> egress_state \<Rightarrow> provider_egress \<Rightarrow> str \<Rightarrow> bool" where
  "session_bodies env s e body \<longleftrightarrow>
     (\<exists>ctx first_text inspected u. bc_provider ctx = e \<and> bc_runtime ctx = es_runtime s \<and>
        inspect_ws_text (ws_codec env) first_text = Inr inspected \<and>
        inspected_model inspected = catalog_key (prov_id (pe_config e)) u \<and> publishes (pe_config e) u \<and>
        bridged_body env s ctx (model_str u) first_text body)"

fun provider_effect ::
  "ws_env \<Rightarrow> egress_state \<Rightarrow> header_map \<Rightarrow> provider_id \<Rightarrow> provider_egress \<Rightarrow> ws_effect \<Rightarrow> bool" where
  "provider_effect env s hs p e (WsConnect url headers connector) \<longleftrightarrow>
     prof_websocket_endpoint (pe_profile e) = Some url \<and> connector = pe_websocket_connector e \<and> confined env hs e headers"
| "provider_effect env s hs p e (ToUpstream (Text t)) \<longleftrightarrow>
     classify_ws_text (ws_codec env) t = Inr Other \<or>
     (\<exists>t0 inspected u. inspect_ws_text (ws_codec env) t0 = Inr inspected \<and>
        inspected_model inspected = catalog_key p u \<and> publishes (pe_config e) u \<and>
        rewrite_websocket_request (ws_codec env) (pe_profile e) t0 (model_str u) = Inr t)"
| "provider_effect env s hs p e (WsRequest request) \<longleftrightarrow>
     og_client request = ProviderClient p \<and> og_method request = ''POST'' \<and>
     og_uri request = websocket_http_url (pe_profile e) \<and>
     confined env hs e (og_headers request) \<and> session_bodies env s e (og_body request)"
| "provider_effect env s hs p e (WsClaude body) \<longleftrightarrow>
     execution_backend_of (pe_profile e) = BackendClaudeCode \<and> session_bodies env s e body"
| "provider_effect env s hs p e x \<longleftrightarrow> True"

lemma stays_allowed: "stays_here x \<Longrightarrow> official_effect env s hs x \<and> provider_effect env s hs p e x"
  by (cases x) auto

lemma official_headers_websocket: "set (official_websocket_headers hs) \<subseteq> set hs"
  using official_headers_subset [of hs]
  by (auto simp: official_websocket_headers_def remove_websocket_handshake_headers_def)

lemma websocket_headers_confined:
  assumes "third_party_websocket_headers (se_header_value (ws_server env)) (se_version (ws_server env)) hs
    (prov_auth (pe_config e)) (pe_profile e) = Inr headers"
  shows "confined env hs e headers"
  using assms third_party_request_confined
  by (fastforce simp: confined_def third_party_websocket_headers_def remove_websocket_handshake_headers_def)

lemma bridge_request_confined:
  assumes "bridge_http_request env ctx body = Inr request" and "session_bodies env s (bc_provider ctx) body"
  shows "provider_effect env s (bc_headers ctx) (prov_id (pe_config (bc_provider ctx))) (bc_provider ctx)
    (WsRequest request)"
proof -
  from assms(1) obtain source where
    source: "third_party_request_headers (se_header_value (ws_server env)) (se_version (ws_server env)) (bc_headers ctx)
      (prov_auth (pe_config (bc_provider ctx))) (pe_profile (bc_provider ctx)) = Inr source"
    and made: "og_headers request = hm_insert ''accept'' ''text/event-stream''
      (hm_insert ''content-type'' ''application/json''
        (hm_remove ''accept-encoding'' (filter (\<lambda>h. \<not> starts_with ''sec-websocket-'' (fst h)) source)))"
    by (auto simp: bridge_http_request_def bridge_headers_def Let_def split: if_splits)
  from made have headers: "set (og_headers request) \<subseteq>
      set source \<union> {(''accept'', ''text/event-stream''), (''content-type'', ''application/json'')}"
    by (auto simp: set_hm_insert set_hm_remove)
  note third_party_request_confined [OF source]
  with headers have "confined env (bc_headers ctx) (bc_provider ctx) (og_headers request)"
    by (fastforce simp: confined_def)
  with assms show ?thesis by (auto simp: bridge_http_request_def Let_def split: if_splits)
qed

text \<open>The first message settles the route.\<close>

lemma prepare_first_cases:
  assumes "prepare_first_message env s hs session_id m = (Inr prepared, effects)"
  obtains
    (official) t inspected url where "inspect_ws_text (ws_codec env) t = Inr inspected"
      "runtime_resolve (es_runtime s) (inspected_model inspected) = BuiltInOfficial" "pf_route prepared = RouteOfficial"
      "official_websocket_url (es_official_base_url s) = Some url"
      "pf_upstream prepared =
        UpstreamSocket url (official_websocket_headers hs) (Text t) (es_official_websocket_connector s)"
  | (direct) t inspected p u e url headers rewritten where "inspect_ws_text (ws_codec env) t = Inr inspected"
      "runtime_resolve (es_runtime s) (inspected_model inspected) = ThirdParty p u" "pf_route prepared = RouteThirdParty p"
      "runtime_provider (es_runtime s) p = Some e" "prof_websocket_endpoint (pe_profile e) = Some url"
      "rewrite_websocket_request (ws_codec env) (pe_profile e) t (model_str u) = Inr rewritten"
      "third_party_websocket_headers (se_header_value (ws_server env)) (se_version (ws_server env)) hs
        (prov_auth (pe_config e)) (pe_profile e) = Inr headers"
      "pf_upstream prepared = UpstreamSocket url headers (Text rewritten) (pe_websocket_connector e)"
  | (bridge) t inspected p u e where "inspect_ws_text (ws_codec env) t = Inr inspected"
      "runtime_resolve (es_runtime s) (inspected_model inspected) = ThirdParty p u"
      "runtime_provider (es_runtime s) p = Some e" "pf_upstream prepared = UpstreamBridge e (model_str u) t"
proof -
  from assms obtain t inspected where m: "m = Text t" and inspected: "inspect_ws_text (ws_codec env) t = Inr inspected"
    by (auto simp: prepare_first_message_def split: message.splits sum.splits)
  show ?thesis
  proof (cases "runtime_resolve (es_runtime s) (inspected_model inspected)")
    case BuiltInOfficial
    with assms m inspected show ?thesis
      by (auto simp: prepare_first_message_def prepare_official_def Let_def intro: official)
  next
    case (ThirdParty p u)
    with assms m inspected obtain e where e: "runtime_provider (es_runtime s) p = Some e"
      and upstream: "prepare_third_party env (es_runtime s) hs t p u = Inr (pf_upstream prepared)"
      and route: "pf_route prepared = RouteThirdParty p"
      by (auto simp: prepare_first_message_def prepare_third_party_def Let_def)
    from upstream e ThirdParty inspected route show ?thesis
      by (auto simp: prepare_third_party_def intro: direct bridge split: websocket_route_plan.splits)
  qed (use assms m inspected in \<open>simp add: prepare_first_message_def Let_def\<close>)
qed

lemma prepare_first_stays:
  assumes "prepare_first_message env s hs session_id m = (r, effects)" and "x \<in> set effects"
  shows "stays_here x"
  using assms
  by (auto simp: prepare_first_message_def ws_request_event_def Let_def split: message.splits sum.splits)

lemma prepare_first_runtime:
  "prepare_first_message env s hs session_id m = (Inr prepared, effects) \<Longrightarrow> pf_runtime prepared = es_runtime s"
  by (auto simp: prepare_first_message_def Let_def split: message.splits sum.splits route_decision.splits)

lemma direct_session_effects:
  assumes "x \<in> set (snd (direct_session env s script session_id prepared url headers m connector))"
  shows "stays_here x \<or> x = WsConnect url headers connector \<or> x = ToUpstream m \<or>
    (\<exists>code reason. x = ToUpstream (close_message code reason)) \<or>
    (\<exists>r effects. relay env \<lparr>rc_runtime = pf_runtime prepared, rc_route = pf_route prepared,
        rc_codex_turn_metadata = pf_codex_turn_metadata prepared, rc_session_id = session_id\<rparr>
        (ss_relay script) relay_start = (r, effects) \<and> x \<in> set effects)"
  using assms
  by (auto simp: direct_session_def connect_direct_upstream_def
      split: prod.splits sum.splits if_splits progress.splits option.splits)


lemma relayed_official:
  assumes ok: "runtime_ok libs (rc_runtime ctx)" and route: "rc_route ctx = RouteOfficial"
    and run: "relay env ctx moments st = (r, effects)" and "x \<in> set effects"
  shows "official_effect env s hs x"
  using relay_sends [OF run \<open>x \<in> set effects\<close>]
proof (elim disjE exE conjE)
  fix m
  assume x: "x = ToUpstream m" and sent: "\<forall>t. m = Text t \<longrightarrow> (\<exists>moment request_sequence m0 request_sequence' events.
       moment \<in> set moments \<and> rm_waited moment = FromDownstream (Received m0) \<and>
       prepare_followup_message env ctx request_sequence m0 = (Inr (Text t), request_sequence', events))"
  show ?thesis
  proof (cases m)
    case (Text t)
    with sent obtain q m0 q' events where run: "prepare_followup_message env ctx q m0 = (Inr (Text t), q', events)"
      by blast
    from run show ?thesis
    proof (cases rule: followup_text)
      case (official inspected)
      with runtime.official [OF ok] x Text show ?thesis by auto
    qed (use x Text route in auto)
  qed (use x in auto)
qed auto

lemma relayed_provider:
  assumes ok: "runtime_ok libs (rc_runtime ctx)" and route: "rc_route ctx = RouteThirdParty p"
    and e: "runtime_provider (rc_runtime ctx) p = Some e"
    and run: "relay env ctx moments st = (r, effects)" and "x \<in> set effects"
  shows "provider_effect env s hs p e x"
  using relay_sends [OF run \<open>x \<in> set effects\<close>]
proof (elim disjE exE conjE)
  fix m
  assume x: "x = ToUpstream m" and sent: "\<forall>t. m = Text t \<longrightarrow> (\<exists>moment request_sequence m0 request_sequence' events.
       moment \<in> set moments \<and> rm_waited moment = FromDownstream (Received m0) \<and>
       prepare_followup_message env ctx request_sequence m0 = (Inr (Text t), request_sequence', events))"
  show ?thesis
  proof (cases m)
    case (Text t)
    with sent obtain q m0 q' events where run: "prepare_followup_message env ctx q m0 = (Inr (Text t), q', events)"
      by blast
    from run show ?thesis
    proof (cases rule: followup_text)
      case (third_party t0 inspected p' u e')
      with route e have "p' = p" "e' = e" by auto
      with third_party runtime.routed_entry [OF ok third_party(4)] runtime.destination [OF ok third_party(4)] e
      have "inspected_model inspected = catalog_key p u \<and> publishes (pe_config e) u" by auto
      with third_party \<open>e' = e\<close> x Text show ?thesis by auto
    qed (use x Text route in auto)
  qed (use x in auto)
qed auto

lemma official_session_effects:
  assumes ok: "runtime_ok libs (es_runtime s)" and runtime: "pf_runtime prepared = es_runtime s"
    and route: "pf_route prepared = RouteOfficial"
    and url: "official_websocket_url (es_official_base_url s) = Some url"
    and first: "inspect_ws_text (ws_codec env) t = Inr inspected"
      "runtime_resolve (es_runtime s) (inspected_model inspected) = BuiltInOfficial"
    and x: "x \<in> set (snd (direct_session env s script session_id prepared url (official_websocket_headers hs) (Text t)
      (es_official_websocket_connector s)))"
  shows "official_effect env s hs x"
proof -
  let ?ctx = "\<lparr>rc_runtime = pf_runtime prepared, rc_route = pf_route prepared,
    rc_codex_turn_metadata = pf_codex_turn_metadata prepared, rc_session_id = session_id\<rparr>"
  have "official_effect env s hs x" if "relay env ?ctx moments st = (r, effects)" "x \<in> set effects" for moments st r effects
    using relayed_official [of libs ?ctx, OF _ _ that] ok runtime route by simp
  with direct_session_effects [OF x] show ?thesis
    using url first official_headers_websocket runtime.official [OF ok] stays_allowed by (auto simp: close_message_def)
qed

lemma direct_provider_effects:
  assumes ok: "runtime_ok libs (es_runtime s)" and runtime: "pf_runtime prepared = es_runtime s"
    and route: "pf_route prepared = RouteThirdParty p" and e: "runtime_provider (es_runtime s) p = Some e"
    and url: "prof_websocket_endpoint (pe_profile e) = Some url" and headers: "confined env hs e headers"
    and first: "inspect_ws_text (ws_codec env) t = Inr inspected" "inspected_model inspected = catalog_key p u"
      "publishes (pe_config e) u" "rewrite_websocket_request (ws_codec env) (pe_profile e) t (model_str u) = Inr rewritten"
    and x: "x \<in> set (snd (direct_session env s script session_id prepared url headers (Text rewritten)
      (pe_websocket_connector e)))"
  shows "provider_effect env s hs p e x"
proof -
  let ?ctx = "\<lparr>rc_runtime = pf_runtime prepared, rc_route = pf_route prepared,
    rc_codex_turn_metadata = pf_codex_turn_metadata prepared, rc_session_id = session_id\<rparr>"
  have "provider_effect env s hs p e x" if "relay env ?ctx moments st = (r, effects)" "x \<in> set effects" for moments st r effects
    using relayed_provider [of libs ?ctx p e, OF _ _ _ that] ok runtime route e by simp
  with direct_session_effects [OF x] show ?thesis
    using url headers first stays_allowed by (auto simp: close_message_def)
qed

lemma session_effects:
  assumes run: "run_session env s hs script session_id = (r, effects)" and x: "x \<in> set effects"
  shows "stays_here x \<or> (\<exists>m prepared events.
    prepare_first_message env s hs session_id m = (Inr prepared, events) \<and>
    receive_first_message (ws_codec env) (ss_first script) = Some (Inr m) \<and>
    (\<forall>provider upstream_model t. pf_upstream prepared = UpstreamBridge provider upstream_model t \<longrightarrow>
       x \<in> set (snd (run_bridge env s (bridge_context_of hs session_id prepared provider) upstream_model t
         (ss_bridge script)))) \<and>
    (\<forall>url headers first_message connector. pf_upstream prepared = UpstreamSocket url headers first_message connector \<longrightarrow>
       x \<in> set (snd (direct_session env s script session_id prepared url headers first_message connector))))"
proof -
  obtain fx diagnostics where body: "session_body env s hs script session_id = ((r, fx), diagnostics)"
    using run by (auto simp: run_session_def split: prod.splits)
  have "stays_here x \<or> x \<in> set fx"
    using run body x by (auto simp: run_session_def observe_session_error_def reject_downstream_def
        split: option.splits if_splits)
  then show ?thesis
    using body prepare_first_stays [of env s hs session_id]
    by (auto simp: session_body_def Let_def prepend_eq split: option.splits sum.splits prod.splits prepared_upstream.splits)
qed



section \<open>Examples\<close>

definition example_script :: session_script where
  "example_script =
     \<lparr>ss_first = [(running, Item (Received (Text ''create'')), True)], ss_connect = Connected 101,
      ss_first_sent = Delivered, ss_relay = [arrives (FromUpstream (Received (Text ''end'')))], ss_bridge = []\<rparr>"

definition example_gpt :: inspected_request where
  "example_gpt = \<lparr>inspected_model = ''gpt'',
     inspected_metadata = \<lparr>client_metadata = None, previous_response_id_present = False\<rparr>\<rparr>"

lemma example_inspects: "inspect_ws_text relay_codec t = Inr inspected \<longleftrightarrow> t = ''create'' \<and> inspected = example_gpt"
  by (auto simp: inspect_ws_text_def parse_object_def inspect_object_def relay_codec_def as_object_def str_at_def jget_def
      map_get_Cons as_str_JString trim_eval example_gpt_def split: if_splits)

lemma example_ws_codec: "ws_codec relay_env = relay_codec" "ws_client_request relay_env url"
  by (simp_all add: relay_env_def)

lemma example_direct:
  assumes ok: "runtime_ok libs (es_runtime s)" and base: "es_official_base_url s = ''https://o''"
  shows "\<exists>effects. run_session relay_env s [] example_script 1 = (None, effects) \<and>
    ToUpstream (Text ''create'') \<in> set effects \<and>
    WsConnect ''wss://o/responses'' [] (es_official_websocket_connector s) \<in> set effects"
proof -
  have received: "receive_first_message relay_codec (ss_first example_script) = Some (Inr (Text ''create''))"
    using example_inspects [of "''create''" example_gpt]
    by (simp add: example_script_def running_def wait_for_drain_def)
  have decided: "runtime_resolve (es_runtime s) ''gpt'' = BuiltInOfficial"
    using runtime.official [OF ok, of "''gpt''"] by simp
  have url: "official_websocket_url ''https://o'' = Some ''wss://o/responses''"
    by (simp add: official_websocket_url_def trim_end_matches_def)
  have headers: "official_websocket_headers [] = []"
    using official_headers_websocket [of "[]"] by simp
  have prepared: "\<exists>prepared events. prepare_first_message relay_env s [] 1 (Text ''create'') = (Inr prepared, events) \<and>
      pf_upstream prepared = UpstreamSocket ''wss://o/responses'' [] (Text ''create'') (es_official_websocket_connector s)"
    using example_inspects [of "''create''" example_gpt] decided url headers base
    by (simp add: prepare_first_message_def prepare_official_def example_ws_codec example_gpt_def Let_def)
  then obtain prepared events where prepared: "prepare_first_message relay_env s [] 1 (Text ''create'') = (Inr prepared, events)"
    and upstream: "pf_upstream prepared =
      UpstreamSocket ''wss://o/responses'' [] (Text ''create'') (es_official_websocket_connector s)" by blast
  have "\<exists>later. direct_session relay_env s example_script 1 prepared ''wss://o/responses'' [] (Text ''create'')
      (es_official_websocket_connector s) = (None, [WsConnect ''wss://o/responses'' [] (es_official_websocket_connector s),
        WsObserved (UpstreamEvent \<lparr>uo_transport = ObservedWebSocket, uo_session_id = Some 1,
                uo_route = pf_observed_route prepared, uo_status = 101\<rparr>), ToUpstream (Text ''create'')] @ later)"
    using example_first_turn [of relay_start]
    by (simp add: direct_session_def connect_direct_upstream_def example_script_def example_ws_codec send_upstream_def
        relay_start_def prepend_def)
  then show ?thesis
    using received prepared upstream
    by (auto simp: run_session_def session_body_def example_ws_codec prepend_def Let_def)
qed



definition warmup_turn :: bridge_turn where
  "warmup_turn = \<lparr>bt_receive = [], bt_nanos = 0, bt_sent = (\<lambda>_. Delivered), bt_started = False,
     bt_outcome = HttpFailed, bt_collect = [], bt_watch_after = running\<rparr>"

lemma send_events_delivered:
  "send_events (\<lambda>_. Delivered) k events = (Inr (), map (\<lambda>e. ToDownstream (Text e)) events)"
  by (induction events arbitrary: k) (simp_all add: send_downstream_def)

lemma example_warmup_action:
  "\<exists>events a. responses_prepare_action example_codec 0 ''warmup'' (responses_session_new ''m'' 9) =
     (Inr (Warmup events), a)"
proof -
  obtain m where m: "example_warmup = JObject m" "map_get m ''generate'' = Some (JBool False)"
    by (simp add: example_warmup_def map_get_Cons)
  have "parse_response_create example_codec ''warmup'' = Inr m"
    using m(1) by (auto simp: create_eval)
  with m(2) have "\<exists>events a. responses_prepare example_codec 0 ''warmup'' (responses_session_new ''m'' 9) =
      (Inr (BridgeWarmup events), a)"
    by (simp add: responses_prepare_def Let_def as_bool_def)
  then show ?thesis by (auto simp: responses_prepare_action_def act_apply act_map_err_def)
qed

theorem bridged_history_bounded_witness:
  "\<forall>s ctx. \<exists>effects b. bridge_reach relay_env s (responses_adapter example_codec) ctx ''warmup'' (responses_session_new ''m'' 9) effects b \<and>
     bg_next_text b = None \<and> history_within example_codec 9 (rs_history (bg_adapter b))"
proof (intro allI)
  fix s ctx
  obtain events a where "responses_prepare_action example_codec 0 ''warmup'' (responses_session_new ''m'' 9) =
     (Inr (Warmup events), a)" using example_warmup_action by blast
  then have "\<exists>fresh. bridge_turn_step relay_env s (responses_adapter example_codec) ctx warmup_turn
      \<lparr>bg_next_text = Some ''warmup'', bg_sequence = 1, bg_adapter = responses_session_new ''m'' 9\<rparr> =
      (TurnDone \<lparr>bg_next_text = None, bg_sequence = 1, bg_adapter = a\<rparr>, fresh)"
    by (simp add: bridge_turn_step_def bridge_text_def perform_turn_def warmup_turn_def responses_adapter_def
        send_events_delivered prepend_def)
  then obtain fresh where "bridge_turn_step relay_env s (responses_adapter example_codec) ctx warmup_turn
      \<lparr>bg_next_text = Some ''warmup'', bg_sequence = 1, bg_adapter = responses_session_new ''m'' 9\<rparr> =
      (TurnDone \<lparr>bg_next_text = None, bg_sequence = 1, bg_adapter = a\<rparr>, fresh)" by blast
  from bridge_reach.turn [OF bridge_reach.start this] have reach:
    "bridge_reach relay_env s (responses_adapter example_codec) ctx ''warmup'' (responses_session_new ''m'' 9) ([] @ fresh)
      \<lparr>bg_next_text = None, bg_sequence = 1, bg_adapter = a\<rparr>" .
  moreover have "history_within example_codec 9 (rs_history (bg_adapter \<lparr>bg_next_text = None, bg_sequence = 1, bg_adapter = a\<rparr>))"
    using bridged_history_bounded reach by blast
  ultimately show "\<exists>effects b. bridge_reach relay_env s (responses_adapter example_codec) ctx ''warmup'' (responses_session_new ''m'' 9) effects b \<and>
     bg_next_text b = None \<and> history_within example_codec 9 (rs_history (bg_adapter b))" by force
qed


text \<open>
  A later command of a bridged session may name any published model of the provider: the route of the
  session accepts it. The request that is made of it still asks for the model of the first command.
\<close>

lemma followup_keeps_first_model:
  assumes "inspect_ws_text (ws_codec env) t = Inr inspected"
    and "runtime_resolve (bc_runtime ctx) (inspected_model inspected) = ThirdParty (prov_id (pe_config (bc_provider ctx))) u"
    and "\<forall>v. parse c t = Inr v \<longrightarrow> json_ok v"
    and "responses_prepare c nanos t (responses_session_new first_model limit) = (Inr (BridgeRequest body input), a)"
  shows "fst (validate_followup_route env ctx sequence t) = Inr () \<and>
    (\<exists>request. to_vec c (JObject request) = Inr body \<and> map_get request ''model'' = Some (JString first_model))"
proof -
  from responses_prepare_cases [OF assms(4)] assms(3) obtain create request where
    "to_vec c (JObject request) = Inr body"
    "forwards (capture_explicit_defaults create (responses_session_new first_model limit)) create input request" by blast
  moreover have "rs_upstream_model (capture_explicit_defaults create (responses_session_new first_model limit)) = first_model"
    by (simp add: responses_session_new_def)
  ultimately show ?thesis using assms(1,2) by (auto simp: validate_followup_route_def forwards_def)
qed

end
