(* ===== verification/Files.thy ===== *)
theory Files
  imports RustStr RustNum
begin

text \<open>
  The file store of \<open>provider-x-app\<close>, \<open>storage/atomic_file.rs\<close>. The world is a file system and the number of
  calls made; any call may fail, and other processes may change files before it. Every state the file system
  goes through is recorded, so that what a crash at any moment leaves behind can be stated. The triples and
  their rules carry the proofs.
\<close>

section \<open>The file system\<close>

type_synonym path = "str list"

type_synonym u32 = "32 word"

datatype file_kind = KindSymlink | KindFile | KindDirectory | KindSpecial

text \<open>\<open>nd_bytes\<close> is what opening and reading gives, for a link the content of its target.\<close>

record inode =
  nd_kind :: file_kind
  nd_mode :: u32
  nd_links :: nat
  nd_uid :: u32
  nd_bytes :: str

type_synonym fs = "path \<Rightarrow> inode option"

datatype io_failure = IoNotFound | IoOther

text \<open>
  What the system decides: which calls fail, how much of a failing write reaches the file, what other processes
  change before a call, the names of temporary files, the clock and the digest.
\<close>

record os =
  os_fails :: "nat \<Rightarrow> bool"
  os_cut :: "nat \<Rightarrow> nat"
  os_other :: "nat \<Rightarrow> fs \<Rightarrow> fs"
  os_temp :: "nat \<Rightarrow> str"
  os_clock :: "nat \<Rightarrow> nat option"
  os_uid :: u32
  os_dir_mode :: u32
  os_sha256 :: "str \<Rightarrow> str"

record world =
  wd_fs :: fs
  wd_seen :: "fs list"
  wd_tick :: nat

type_synonym ('e, 'a) io = "(world, 'e, 'a) action"

text \<open>One call of the system, after a step of the others; the states before and after it are recorded.\<close>

definition sys_call :: "os \<Rightarrow> (fs \<Rightarrow> fs) \<Rightarrow> (fs \<Rightarrow> (io_failure + 'a) \<times> fs) \<Rightarrow> (io_failure, 'a) io" where
  "sys_call os broken f w =
     (let n = wd_tick w; before = os_other os n (wd_fs w) in
      case (if os_fails os n then (Inl IoOther, broken before) else f before) of
        (r, after) \<Rightarrow> (r, \<lparr>wd_fs = after, wd_seen = after # before # wd_seen w, wd_tick = n + 1\<rparr>))"

definition sys_metadata :: "os \<Rightarrow> path \<Rightarrow> (io_failure, inode) io" where
  "sys_metadata os p = sys_call os (\<lambda>fs. fs)
     (\<lambda>fs. (case fs p of None \<Rightarrow> Inl IoNotFound | Some n \<Rightarrow> Inr n, fs))"

definition sys_read :: "os \<Rightarrow> path \<Rightarrow> (io_failure, str) io" where
  "sys_read os p = sys_call os (\<lambda>fs. fs) (\<lambda>fs.
     (case fs p of
        None \<Rightarrow> Inl IoNotFound
      | Some n \<Rightarrow> if nd_kind n = KindDirectory then Inl IoOther else Inr (nd_bytes n), fs))"

definition sys_remove :: "os \<Rightarrow> path \<Rightarrow> (io_failure, unit) io" where
  "sys_remove os p = sys_call os (\<lambda>fs. fs) (\<lambda>fs.
     case fs p of
       None \<Rightarrow> (Inl IoNotFound, fs)
     | Some n \<Rightarrow> if nd_kind n = KindDirectory then (Inl IoOther, fs) else (Inr (), fs(p := None)))"

definition sys_sync :: "os \<Rightarrow> path \<Rightarrow> (io_failure, unit) io" where
  "sys_sync os p = sys_call os (\<lambda>fs. fs) (\<lambda>fs. (if fs p = None then Inl IoNotFound else Inr (), fs))"

definition change_node :: "(inode \<Rightarrow> inode) \<Rightarrow> path \<Rightarrow> fs \<Rightarrow> fs" where
  "change_node f p fs = fs(p := map_option f (fs p))"

definition on_node :: "(inode \<Rightarrow> inode) \<Rightarrow> path \<Rightarrow> fs \<Rightarrow> (io_failure + unit) \<times> fs" where
  "on_node f p fs = (if fs p = None then Inl IoNotFound else Inr (), change_node f p fs)"

definition sys_set_mode :: "os \<Rightarrow> path \<Rightarrow> u32 \<Rightarrow> (io_failure, unit) io" where
  "sys_set_mode os p mode = sys_call os (\<lambda>fs. fs) (on_node (\<lambda>n. n\<lparr>nd_mode := mode\<rparr>) p)"

definition sys_write :: "os \<Rightarrow> path \<Rightarrow> str \<Rightarrow> (io_failure, unit) io" where
  "sys_write os p bytes w =
     sys_call os (change_node (\<lambda>n. n\<lparr>nd_bytes := take (os_cut os (wd_tick w)) bytes\<rparr>) p)
       (on_node (\<lambda>n. n\<lparr>nd_bytes := bytes\<rparr>) p) w"

text \<open>Renaming replaces the target in one step, unless it is a directory.\<close>

definition sys_rename :: "os \<Rightarrow> path \<Rightarrow> path \<Rightarrow> (io_failure, unit) io" where
  "sys_rename os p q = sys_call os (\<lambda>fs. fs) (\<lambda>fs.
     case fs p of
       None \<Rightarrow> (Inl IoNotFound, fs)
     | Some n \<Rightarrow>
         if map_option nd_kind (fs q) = Some KindDirectory then (Inl IoOther, fs)
         else (Inr (), fs(p := None, q \<mapsto> n)))"

text \<open>\<open>NamedTempFile::new_in\<close>: a new file under a name that is not in use, readable by its owner only.\<close>

definition private_file :: "os \<Rightarrow> str \<Rightarrow> inode" where
  "private_file os bytes = \<lparr>nd_kind = KindFile, nd_mode = 384, nd_links = 1, nd_uid = os_uid os, nd_bytes = bytes\<rparr>"

definition sys_new_temp :: "os \<Rightarrow> path \<Rightarrow> (io_failure, path) io" where
  "sys_new_temp os directory w =
     (let p = directory @ [os_temp os (wd_tick w)] in
      sys_call os (\<lambda>fs. fs) (\<lambda>fs.
        if map_option nd_kind (fs directory) \<noteq> Some KindDirectory then (Inl IoNotFound, fs)
        else if fs p \<noteq> None then (Inl IoOther, fs)
        else (Inr p, fs(p \<mapsto> private_file os []))) w)"

text \<open>\<open>create_dir_all\<close>: the missing directories of a path, from the root.\<close>

fun make_directories :: "inode \<Rightarrow> path list \<Rightarrow> fs \<Rightarrow> (io_failure + unit) \<times> fs" where
  "make_directories d [] fs = (Inr (), fs)"
| "make_directories d (p # ps) fs =
     (case fs p of
        None \<Rightarrow> make_directories d ps (fs(p \<mapsto> d))
      | Some n \<Rightarrow> if nd_kind n = KindDirectory then make_directories d ps fs else (Inl IoOther, fs))"

definition sys_create_dir_all :: "os \<Rightarrow> path \<Rightarrow> (io_failure, unit) io" where
  "sys_create_dir_all os p =
     sys_call os (\<lambda>fs. fs) (make_directories
       \<lparr>nd_kind = KindDirectory, nd_mode = os_dir_mode os, nd_links = 1, nd_uid = os_uid os, nd_bytes = []\<rparr>
       (map (\<lambda>n. take (Suc n) p) [0..<length p]))"

definition sys_now :: "os \<Rightarrow> (io_failure, nat) io" where
  "sys_now os w = (case os_clock os (wd_tick w) of None \<Rightarrow> Inl IoOther | Some n \<Rightarrow> Inr n, w)"

definition path_parent :: "path \<Rightarrow> path option" where
  "path_parent p = (if p = [] then None else Some (butlast p))"

section \<open>Errors and attributes\<close>

record loaded_file =
  lf_bytes :: str
  lf_sha256 :: str

datatype secure_file_error =
    MissingParent path
  | SymbolicLink path
  | NotRegularFile path
  | UnexpectedHardLinks path nat
  | InsecurePermissions path u32
  | InsecureExternalPermissions path u32
  | UnexpectedOwner path u32 u32
  | ConcurrentModification path
  | MissingFile path
  | InvalidSystemTime
  | FileIo path
  | PersistFailed path

datatype destination_expectation = DestinationMissing | DestinationSha256 str

datatype directory_policy = PolicyPrivate | PolicyTrustedExisting

definition io_error :: "path \<Rightarrow> (io_failure, 'a) io \<Rightarrow> (secure_file_error, 'a) io" where
  "io_error p m = act_map_err (\<lambda>_. FileIo p) m"

definition act_of :: "'e + 'a \<Rightarrow> ('s, 'e, 'a) action" where
  "act_of r = (\<lambda>s. (r, s))"

definition act_match ::
  "('s, 'e, 'a) action \<Rightarrow> ('a \<Rightarrow> ('s, 'f, 'b) action) \<Rightarrow> ('e \<Rightarrow> ('s, 'f, 'b) action) \<Rightarrow> ('s, 'f, 'b) action" where
  "act_match m f g = (\<lambda>s. case m s of (Inr a, t) \<Rightarrow> f a t | (Inl e, t) \<Rightarrow> g e t)"

definition validate_regular_file :: "path \<Rightarrow> inode \<Rightarrow> secure_file_error + unit" where
  "validate_regular_file p n =
     (if nd_kind n = KindSymlink then Inl (SymbolicLink p)
      else if nd_kind n \<noteq> KindFile then Inl (NotRegularFile p)
      else if nd_links n \<noteq> 1 then Inl (UnexpectedHardLinks p (nd_links n))
      else
        (let mode = and (nd_mode n) 511 in
         if mode \<noteq> 384 then Inl (InsecurePermissions p mode) else Inr ()))"

definition validate_external_cache_file :: "path \<Rightarrow> inode \<Rightarrow> u32 \<Rightarrow> secure_file_error + unit" where
  "validate_external_cache_file p n expected_owner =
     (if nd_kind n = KindSymlink then Inl (SymbolicLink p)
      else if nd_kind n \<noteq> KindFile then Inl (NotRegularFile p)
      else if nd_links n \<noteq> 1 then Inl (UnexpectedHardLinks p (nd_links n))
      else if nd_uid n \<noteq> expected_owner then Inl (UnexpectedOwner p (nd_uid n) expected_owner)
      else
        (let mode = and (nd_mode n) 511 in
         if and mode 256 = 0 \<or> and mode 27 \<noteq> 0 then Inl (InsecureExternalPermissions p mode) else Inr ()))"

definition secure_metadata :: "os \<Rightarrow> path \<Rightarrow> (secure_file_error, inode) io" where
  "secure_metadata os p =
     act_map_err (\<lambda>e. if e = IoNotFound then MissingFile p else FileIo p) (sys_metadata os p)"

definition ensure_trusted_existing_directory :: "os \<Rightarrow> path \<Rightarrow> (secure_file_error, unit) io" where
  "ensure_trusted_existing_directory os p =
     act (io_error p (sys_metadata os p)) (\<lambda>n.
     if nd_kind n = KindSymlink then act_err (SymbolicLink p)
     else if nd_kind n \<noteq> KindDirectory then act_err (NotRegularFile p)
     else
       (let mode = and (nd_mode n) 511 in
        if and mode 18 \<noteq> 0 then act_err (InsecurePermissions p mode) else act_ok ()))"

definition ensure_private_directory :: "os \<Rightarrow> path \<Rightarrow> (secure_file_error, unit) io" where
  "ensure_private_directory os p =
     act_match (sys_metadata os p)
       (\<lambda>n.
          if nd_kind n = KindSymlink then act_err (SymbolicLink p)
          else if nd_kind n \<noteq> KindDirectory then act_err (NotRegularFile p)
          else
            (let mode = and (nd_mode n) 511 in
             if mode \<noteq> 448 then act_err (InsecurePermissions p mode) else act_ok ()))
       (\<lambda>e.
          if e = IoNotFound
          then act (io_error p (sys_create_dir_all os p)) (\<lambda>_. io_error p (sys_set_mode os p 448))
          else act_err (FileIo p))"

section \<open>Reading\<close>

definition read_loaded_file :: "os \<Rightarrow> path \<Rightarrow> (secure_file_error, loaded_file) io" where
  "read_loaded_file os p =
     act (io_error p (sys_read os p)) (\<lambda>bytes. act_ok \<lparr>lf_bytes = bytes, lf_sha256 = os_sha256 os bytes\<rparr>)"

definition load_file :: "os \<Rightarrow> path \<Rightarrow> (secure_file_error, loaded_file) io" where
  "load_file os p =
     act (secure_metadata os p) (\<lambda>n.
     act (act_of (validate_regular_file p n)) (\<lambda>_.
     read_loaded_file os p))"

definition load_external_cache :: "os \<Rightarrow> path \<Rightarrow> (secure_file_error, loaded_file) io" where
  "load_external_cache os p =
     act (secure_metadata os p) (\<lambda>n.
     act (act_of (ok_or (MissingParent p) (path_parent p))) (\<lambda>parent.
     act (ensure_trusted_existing_directory os parent) (\<lambda>_.
     act (secure_metadata os parent) (\<lambda>parent_node.
     act (act_of (validate_external_cache_file p n (nd_uid parent_node))) (\<lambda>_.
     read_loaded_file os p)))))"

section \<open>Writing\<close>

text \<open>A temporary file is removed when it is dropped, that is where the steps that use it fail.\<close>

definition with_temp :: "os \<Rightarrow> path \<Rightarrow> ('e, 'a) io \<Rightarrow> ('e, 'a) io" where
  "with_temp os temporary m =
     act_match m act_ok
       (\<lambda>e. act_match (sys_remove os temporary) (\<lambda>_. act_err e) (\<lambda>_. act_err e))"

definition recheck_destination ::
  "os \<Rightarrow> path \<Rightarrow> destination_expectation \<Rightarrow> (secure_file_error, unit) io" where
  "recheck_destination os p expectation =
     (case expectation of
        DestinationMissing \<Rightarrow>
          act_match (sys_metadata os p)
            (\<lambda>_. act_err (ConcurrentModification p))
            (\<lambda>e. if e = IoNotFound then act_ok () else act_err (FileIo p))
      | DestinationSha256 expected \<Rightarrow>
          act (load_file os p) (\<lambda>current.
          if lf_sha256 current \<noteq> expected then act_err (ConcurrentModification p) else act_ok ()))"

definition persist_private ::
  "os \<Rightarrow> path \<Rightarrow> str \<Rightarrow> destination_expectation \<Rightarrow> (secure_file_error, unit) io" where
  "persist_private os p bytes expectation =
     act (act_of (ok_or (MissingParent p) (path_parent p))) (\<lambda>parent.
     act (io_error parent (sys_new_temp os parent)) (\<lambda>temporary.
     act (with_temp os temporary
       (act (io_error temporary (sys_set_mode os temporary 384)) (\<lambda>_.
        act (io_error temporary (sys_write os temporary bytes)) (\<lambda>_.
        act (io_error temporary (sys_sync os temporary)) (\<lambda>_.
        act (recheck_destination os p expectation) (\<lambda>_.
        act_map_err (\<lambda>_. PersistFailed p) (sys_rename os temporary p))))))) (\<lambda>_.
     io_error parent (sys_sync os parent))))"

definition write_backup :: "os \<Rightarrow> path \<Rightarrow> loaded_file \<Rightarrow> (secure_file_error, unit) io" where
  "write_backup os p current =
     act (act_of (ok_or (MissingParent p) (path_parent p))) (\<lambda>parent.
     let backup_directory = parent @ [''backups''] in
     act (ensure_private_directory os backup_directory) (\<lambda>_.
     act (act_map_err (\<lambda>_. InvalidSystemTime) (sys_now os)) (\<lambda>timestamp.
     let backup_path = backup_directory @
           [last p @ ''.'' @ dec_string timestamp @ ''.sha256-'' @ take 16 (lf_sha256 current) @ ''.bak'']
     in persist_private os backup_path (lf_bytes current) DestinationMissing)))"

definition load_current :: "os \<Rightarrow> path \<Rightarrow> (secure_file_error, loaded_file option) io" where
  "load_current os p =
     act_match (sys_metadata os p)
       (\<lambda>n. act (act_of (validate_regular_file p n)) (\<lambda>_. act (load_file os p) (\<lambda>current. act_ok (Some current))))
       (\<lambda>e. if e = IoNotFound then act_ok None else act_err (FileIo p))"

definition expectation_of :: "loaded_file option \<Rightarrow> destination_expectation" where
  "expectation_of current =
     (case current of None \<Rightarrow> DestinationMissing | Some loaded \<Rightarrow> DestinationSha256 (lf_sha256 loaded))"

definition write_with_policy ::
  "os \<Rightarrow> path \<Rightarrow> str option \<Rightarrow> str \<Rightarrow> directory_policy \<Rightarrow> bool \<Rightarrow> (secure_file_error, loaded_file) io" where
  "write_with_policy os p expected_sha256 bytes policy backup =
     act (act_of (ok_or (MissingParent p) (path_parent p))) (\<lambda>parent.
     act (case policy of
            PolicyPrivate \<Rightarrow> ensure_private_directory os parent
          | PolicyTrustedExisting \<Rightarrow> ensure_trusted_existing_directory os parent) (\<lambda>_.
     act (load_current os p) (\<lambda>current.
     if map_option lf_sha256 current \<noteq> expected_sha256 then act_err (ConcurrentModification p)
     else
       act (case current of
              Some loaded \<Rightarrow> if backup then write_backup os p loaded else act_ok ()
            | None \<Rightarrow> act_ok ()) (\<lambda>_.
       act (persist_private os p bytes (expectation_of current)) (\<lambda>_.
       load_file os p)))))"

definition write_file :: "os \<Rightarrow> path \<Rightarrow> str option \<Rightarrow> str \<Rightarrow> (secure_file_error, loaded_file) io" where
  "write_file os p expected bytes = write_with_policy os p expected bytes PolicyPrivate True"

definition write_without_backup ::
  "os \<Rightarrow> path \<Rightarrow> str option \<Rightarrow> str \<Rightarrow> (secure_file_error, loaded_file) io" where
  "write_without_backup os p expected bytes = write_with_policy os p expected bytes PolicyPrivate False"

definition write_external :: "os \<Rightarrow> path \<Rightarrow> str option \<Rightarrow> str \<Rightarrow> (secure_file_error, loaded_file) io" where
  "write_external os p expected bytes = write_with_policy os p expected bytes PolicyTrustedExisting False"

definition remove_loaded ::
  "os \<Rightarrow> (path \<Rightarrow> (secure_file_error, loaded_file) io) \<Rightarrow> path \<Rightarrow> str \<Rightarrow> (secure_file_error, unit) io" where
  "remove_loaded os load_it p expected_sha256 =
     act (act_of (ok_or (MissingParent p) (path_parent p))) (\<lambda>parent.
     act (ensure_trusted_existing_directory os parent) (\<lambda>_.
     act (load_it p) (\<lambda>current.
     if lf_sha256 current \<noteq> expected_sha256 then act_err (ConcurrentModification p)
     else
       act (io_error p (sys_remove os p)) (\<lambda>_.
       io_error parent (sys_sync os parent)))))"

definition remove_external :: "os \<Rightarrow> path \<Rightarrow> str \<Rightarrow> (secure_file_error, unit) io" where
  "remove_external os = remove_loaded os (load_file os)"

definition remove_external_cache :: "os \<Rightarrow> path \<Rightarrow> str \<Rightarrow> (secure_file_error, unit) io" where
  "remove_external_cache os = remove_loaded os (load_external_cache os)"

section \<open>Triples\<close>

definition triple ::
  "('s \<Rightarrow> bool) \<Rightarrow> ('s, 'e, 'a) action \<Rightarrow> ('a \<Rightarrow> 's \<Rightarrow> bool) \<Rightarrow> ('e \<Rightarrow> 's \<Rightarrow> bool) \<Rightarrow> bool" where
  "triple P m Q E \<longleftrightarrow> (\<forall>s. P s \<longrightarrow> (case m s of (Inr a, t) \<Rightarrow> Q a t | (Inl e, t) \<Rightarrow> E e t))"

named_theorems triples \<open>triples of the calls of the system and of what is built from them\<close>

lemma triple_act: "triple P m M E \<Longrightarrow> (\<And>a. triple (M a) (f a) Q E) \<Longrightarrow> triple P (act m f) Q E"
  by (fastforce simp: triple_def act_apply split: prod.splits sum.splits)

lemma triple_match:
  assumes "triple P m M N" "\<And>a. triple (M a) (f a) Q E" "\<And>e. triple (N e) (g e) Q E"
  shows "triple P (act_match m f g) Q E"
  unfolding triple_def
proof (intro allI impI)
  fix s assume "P s"
  obtain r t where m: "m s = (r, t)" by (cases "m s")
  show "case act_match m f g s of (Inr a, t) \<Rightarrow> Q a t | (Inl e, t) \<Rightarrow> E e t"
  proof (cases r)
    case (Inl e)
    then have "N e t" using assms(1) m \<open>P s\<close> unfolding triple_def by fastforce
    then show ?thesis using assms(3)[of e] m Inl by (simp add: triple_def act_match_def)
  next
    case (Inr a)
    then have "M a t" using assms(1) m \<open>P s\<close> unfolding triple_def by fastforce
    then show ?thesis using assms(2)[of a] m Inr by (simp add: triple_def act_match_def)
  qed
qed

lemma triple_ok: "(\<And>s. P s \<Longrightarrow> Q a s) \<Longrightarrow> triple P (act_ok a) Q E"
  by (simp add: triple_def)

lemma triple_err: "(\<And>s. P s \<Longrightarrow> E e s) \<Longrightarrow> triple P (act_err e) Q E"
  by (simp add: triple_def)

lemma triple_of: "(\<And>s a. P s \<Longrightarrow> r = Inr a \<Longrightarrow> Q a s) \<Longrightarrow> (\<And>s e. P s \<Longrightarrow> r = Inl e \<Longrightarrow> E e s) \<Longrightarrow> triple P (act_of r) Q E"
  by (cases r) (auto simp: triple_def act_of_def)

lemma triple_map_err: "triple P m Q (\<lambda>e. E (g e)) \<Longrightarrow> triple P (act_map_err g m) Q E"
  unfolding triple_def by (fastforce simp: act_map_err_def map_err_def split: prod.splits sum.splits)

lemma triple_io_error: "triple P m Q (\<lambda>_. E (FileIo p)) \<Longrightarrow> triple P (io_error p m) Q E"
  by (simp add: io_error_def triple_map_err)

lemma triple_conseq:
  "triple P' m Q' E' \<Longrightarrow> (\<And>s. P s \<Longrightarrow> P' s) \<Longrightarrow> (\<And>a s. Q' a s \<Longrightarrow> Q a s) \<Longrightarrow> (\<And>e s. E' e s \<Longrightarrow> E e s) \<Longrightarrow> triple P m Q E"
  by (fastforce simp: triple_def split: prod.splits sum.splits)

lemma triple_if: "(b \<Longrightarrow> triple P m Q E) \<Longrightarrow> (\<not> b \<Longrightarrow> triple P n Q E) \<Longrightarrow> triple P (if b then m else n) Q E"
  by simp

lemma triple_pre: "(\<And>s. P s \<Longrightarrow> triple (\<lambda>t. t = s) m Q E) \<Longrightarrow> triple P m Q E"
  by (simp add: triple_def)

lemma triple_Inr: "triple P m Q E \<Longrightarrow> P s \<Longrightarrow> m s = (Inr a, t) \<Longrightarrow> Q a t"
  by (fastforce simp: triple_def)

lemma triple_Inl: "triple P m Q E \<Longrightarrow> P s \<Longrightarrow> m s = (Inl e, t) \<Longrightarrow> E e t"
  by (fastforce simp: triple_def)

lemma triple_snd: "triple P m (\<lambda>_. Q) (\<lambda>_. Q) \<Longrightarrow> P s \<Longrightarrow> Q (snd (m s))"
  unfolding triple_def by (drule spec[of _ s]) (simp split: prod.splits sum.splits)

lemma triple_sys_call:
  assumes "\<And>w fs. P w \<Longrightarrow> fs = os_other os (wd_tick w) (wd_fs w) \<Longrightarrow>
      E IoOther \<lparr>wd_fs = broken fs, wd_seen = broken fs # fs # wd_seen w, wd_tick = wd_tick w + 1\<rparr>"
    and "\<And>w fs r fs'. P w \<Longrightarrow> fs = os_other os (wd_tick w) (wd_fs w) \<Longrightarrow> f fs = (r, fs') \<Longrightarrow>
      (case r of Inr a \<Rightarrow> Q a \<lparr>wd_fs = fs', wd_seen = fs' # fs # wd_seen w, wd_tick = wd_tick w + 1\<rparr>
       | Inl e \<Rightarrow> E e \<lparr>wd_fs = fs', wd_seen = fs' # fs # wd_seen w, wd_tick = wd_tick w + 1\<rparr>)"
  shows "triple P (sys_call os broken f) Q E"
  using assms by (fastforce simp: triple_def sys_call_def Let_def split: prod.splits sum.splits)

section \<open>What every state of a write holds\<close>

text \<open>
  \<open>Q\<close> is what a file may be; other processes keep it. \<open>file_held\<close> says that every state so far had it, \<open>temp_held\<close>
  that besides the temporary file is the new file.
\<close>

definition others_keep :: "os \<Rightarrow> path \<Rightarrow> (inode option \<Rightarrow> bool) \<Rightarrow> bool" where
  "others_keep os p Q \<longleftrightarrow> (\<forall>n fs. Q (fs p) \<longrightarrow> Q (os_other os n fs p))"

definition file_held :: "path \<Rightarrow> (inode option \<Rightarrow> bool) \<Rightarrow> world \<Rightarrow> bool" where
  "file_held p Q w \<longleftrightarrow> Q (wd_fs w p) \<and> (\<forall>fs\<in>set (wd_seen w). Q (fs p))"

definition temps_private :: "os \<Rightarrow> path \<Rightarrow> bool" where
  "temps_private os directory \<longleftrightarrow>
     (\<forall>n k fs. os_other os n fs (directory @ [os_temp os k]) = fs (directory @ [os_temp os k]))"

text \<open>A predicate is stable when calls that only read, and the others, keep it.\<close>

definition stable :: "os \<Rightarrow> (world \<Rightarrow> bool) \<Rightarrow> bool" where
  "stable os P \<longleftrightarrow> (\<forall>w fs. P w \<longrightarrow> fs = os_other os (wd_tick w) (wd_fs w) \<longrightarrow>
     P \<lparr>wd_fs = fs, wd_seen = fs # fs # wd_seen w, wd_tick = wd_tick w + 1\<rparr>)"

lemma stable_held [simp, intro]: "others_keep os p Q \<Longrightarrow> stable os (file_held p Q)"
  by (auto simp: stable_def file_held_def others_keep_def)

lemma stable_at [simp, intro]: "(\<And>n fs. os_other os n fs p = fs p) \<Longrightarrow> stable os (\<lambda>w. wd_fs w p = x)"
  by (auto simp: stable_def)

lemma stable_conj [simp, intro]: "stable os P \<Longrightarrow> stable os P' \<Longrightarrow> stable os (\<lambda>w. P w \<and> P' w)"
  by (simp add: stable_def)

lemma stable_imp [simp, intro]: "(b \<Longrightarrow> stable os P) \<Longrightarrow> stable os (\<lambda>w. b \<longrightarrow> P w)"
  by (simp add: stable_def)

lemma reads_stable [triples]:
  assumes "stable os P"
  shows "triple P (sys_metadata os q) (\<lambda>_. P) (\<lambda>_. P)"
    and "triple P (sys_read os q) (\<lambda>_. P) (\<lambda>_. P)"
    and "triple P (sys_sync os q) (\<lambda>_. P) (\<lambda>_. P)"
  unfolding sys_metadata_def sys_read_def sys_sync_def
  by (rule triple_sys_call; use assms in \<open>auto simp: stable_def split: sum.splits option.splits\<close>)+

lemma now_stable [triples]: "triple P (sys_now os) (\<lambda>_. P) (\<lambda>_. P)"
  by (auto simp: triple_def sys_now_def split: option.splits)

lemma secure_metadata_stable [triples]: "stable os P \<Longrightarrow> triple P (secure_metadata os q) (\<lambda>_. P) (\<lambda>_. P)"
  unfolding secure_metadata_def by (intro triple_map_err triples)

lemma load_file_stable [triples]: "stable os P \<Longrightarrow> triple P (load_file os q) (\<lambda>_. P) (\<lambda>_. P)"
  unfolding load_file_def read_loaded_file_def
  by (intro triple_act[of P _ "\<lambda>_. P"] triple_of triple_io_error triple_ok triples)

lemma trusted_directory_stable [triples]:
  "stable os P \<Longrightarrow> triple P (ensure_trusted_existing_directory os q) (\<lambda>_. P) (\<lambda>_. P)"
  unfolding ensure_trusted_existing_directory_def Let_def
  by (intro triple_act[of P _ "\<lambda>_. P"] triple_io_error triple_if triple_ok triple_err triples)

lemma recheck_stable [triples]:
  "stable os P \<Longrightarrow> triple P (recheck_destination os q e) (\<lambda>_. P) (\<lambda>_. P)"
  unfolding recheck_destination_def
  by (cases e; simp only: destination_expectation.case)
    (intro triple_match[of P _ "\<lambda>_. P" "\<lambda>_. P"] triple_act[of P _ "\<lambda>_. P"] triple_if triple_ok triple_err triples; assumption)+

lemma load_current_stable [triples]:
  "stable os P \<Longrightarrow> triple P (load_current os q) (\<lambda>_. P) (\<lambda>_. P)"
  unfolding load_current_def
  by (intro triple_match[of P _ "\<lambda>_. P" "\<lambda>_. P"] triple_act[of P _ "\<lambda>_. P"] triple_of triple_if triple_ok triple_err triples)

lemma sys_call_held:
  assumes "others_keep os p Q" "\<And>fs. Q (fs p) \<Longrightarrow> Q (broken fs p)" "\<And>fs. Q (fs p) \<Longrightarrow> Q (snd (f fs) p)"
  shows "triple (file_held p Q) (sys_call os broken f) (\<lambda>_. file_held p Q) (\<lambda>_. file_held p Q)"
proof (rule triple_sys_call, goal_cases)
  case (1 w fs)
  then show ?case using assms by (auto simp: file_held_def others_keep_def)
next
  case (2 w fs r fs')
  then show ?case using assms(1) assms(3)[of fs] by (auto simp: file_held_def others_keep_def split: sum.splits)
qed

lemma make_directories_other: "p \<notin> set ps \<Longrightarrow> snd (make_directories d ps fs) p = fs p"
  by (induction d ps fs rule: make_directories.induct) (auto split: option.splits)

lemma remove_held [triples]:
  "others_keep os p Q \<Longrightarrow> q \<noteq> p \<Longrightarrow>
   triple (file_held p Q) (sys_remove os q) (\<lambda>_. file_held p Q) (\<lambda>_. file_held p Q)"
  unfolding sys_remove_def by (rule sys_call_held) (auto split: option.splits)

lemma set_mode_held [triples]:
  "others_keep os p Q \<Longrightarrow> q \<noteq> p \<Longrightarrow>
   triple (file_held p Q) (sys_set_mode os q mode) (\<lambda>_. file_held p Q) (\<lambda>_. file_held p Q)"
  unfolding sys_set_mode_def by (rule sys_call_held) (auto simp: on_node_def change_node_def)

lemma write_call_held [triples]:
  assumes "others_keep os p Q" "q \<noteq> p"
  shows "triple (file_held p Q) (sys_write os q bytes) (\<lambda>_. file_held p Q) (\<lambda>_. file_held p Q)"
proof -
  have "triple (file_held p Q) (sys_call os (change_node (\<lambda>n. n\<lparr>nd_bytes := take k bytes\<rparr>) q)
      (on_node (\<lambda>n. n\<lparr>nd_bytes := bytes\<rparr>) q)) (\<lambda>_. file_held p Q) (\<lambda>_. file_held p Q)" for k
    using assms by (intro sys_call_held) (auto simp: on_node_def change_node_def)
  then show ?thesis by (simp add: triple_def sys_write_def)
qed

lemma rename_held [triples]:
  "others_keep os p Q \<Longrightarrow> t \<noteq> p \<Longrightarrow> q \<noteq> p \<Longrightarrow>
   triple (file_held p Q) (sys_rename os t q) (\<lambda>_. file_held p Q) (\<lambda>_. file_held p Q)"
  unfolding sys_rename_def by (rule sys_call_held) (auto split: option.splits)

lemma create_dir_all_held [triples]:
  assumes "others_keep os p Q" "\<forall>n. take n q \<noteq> p"
  shows "triple (file_held p Q) (sys_create_dir_all os q) (\<lambda>_. file_held p Q) (\<lambda>_. file_held p Q)"
proof -
  have *: "triple (file_held p Q) (sys_call os (\<lambda>fs. fs) (make_directories d ps)) (\<lambda>_. file_held p Q) (\<lambda>_. file_held p Q)"
    if "p \<notin> set ps" for d ps
    using assms(1) that by (intro sys_call_held) (simp_all add: make_directories_other)
  show ?thesis
    unfolding sys_create_dir_all_def by (rule *) (use assms(2) in auto)
qed

lemma private_directory_held [triples]:
  assumes "others_keep os p Q" "\<forall>n. take n q \<noteq> p"
  shows "triple (file_held p Q) (ensure_private_directory os q) (\<lambda>_. file_held p Q) (\<lambda>_. file_held p Q)"
proof -
  have "q \<noteq> p"
    using assms(2)[rule_format, of "length q"] by simp
  then show ?thesis
    unfolding ensure_private_directory_def Let_def using assms
    by (intro triple_match[of _ _ "\<lambda>_. file_held p Q" "\<lambda>_. file_held p Q"] triple_act[of _ _ "\<lambda>_. file_held p Q"]
        triple_if triple_ok triple_err triple_io_error triples stable_held)
qed

section \<open>Replacing a file\<close>

definition is_temp :: "os \<Rightarrow> path \<Rightarrow> path \<Rightarrow> bool" where
  "is_temp os directory t \<longleftrightarrow> (\<exists>k. t = directory @ [os_temp os k])"

definition temp_held :: "os \<Rightarrow> path \<Rightarrow> (inode option \<Rightarrow> bool) \<Rightarrow> path \<Rightarrow> str \<Rightarrow> world \<Rightarrow> bool" where
  "temp_held os p Q t bytes w \<longleftrightarrow> file_held p Q w \<and> wd_fs w t = Some (private_file os bytes)"

lemma temp_held_stable [simp, intro]:
  "temps_private os d \<Longrightarrow> is_temp os d t \<Longrightarrow> others_keep os p Q \<Longrightarrow> stable os (temp_held os p Q t bytes)"
  unfolding temp_held_def [abs_def] by (intro stable_conj stable_held stable_at) (auto simp: temps_private_def is_temp_def)

lemma new_temp_held:
  assumes "others_keep os p Q" "\<not> is_temp os d p"
  shows "triple (file_held p Q) (sys_new_temp os d)
     (\<lambda>t w. is_temp os d t \<and> temp_held os p Q t [] w) (\<lambda>_. file_held p Q)"
proof -
  have "triple (file_held p Q) (sys_call os (\<lambda>fs. fs) (\<lambda>fs.
        if map_option nd_kind (fs d) \<noteq> Some KindDirectory then (Inl IoNotFound, fs)
        else if fs (d @ [os_temp os k]) \<noteq> None then (Inl IoOther, fs)
        else (Inr (d @ [os_temp os k]), fs(d @ [os_temp os k] \<mapsto> private_file os []))))
     (\<lambda>t w. is_temp os d t \<and> temp_held os p Q t [] w) (\<lambda>_. file_held p Q)" for k
    using assms by (intro triple_sys_call)
      (auto simp: file_held_def temp_held_def others_keep_def is_temp_def split: if_splits)
  then show ?thesis by (simp add: triple_def sys_new_temp_def Let_def)
qed

lemma set_mode_temp:
  assumes "others_keep os p Q" "temps_private os d" "is_temp os d t" "t \<noteq> p"
  shows "triple (temp_held os p Q t bytes) (sys_set_mode os t 384) (\<lambda>_. temp_held os p Q t bytes) (\<lambda>_. file_held p Q)"
  unfolding sys_set_mode_def using assms
  by (intro triple_sys_call)
    (auto simp: temp_held_def file_held_def others_keep_def on_node_def change_node_def private_file_def
      temps_private_def is_temp_def)

lemma write_temp:
  assumes "others_keep os p Q" "temps_private os d" "is_temp os d t" "t \<noteq> p"
  shows "triple (temp_held os p Q t old) (sys_write os t bytes) (\<lambda>_. temp_held os p Q t bytes) (\<lambda>_. file_held p Q)"
proof -
  have "triple (temp_held os p Q t old)
      (sys_call os (change_node (\<lambda>n. n\<lparr>nd_bytes := take k bytes\<rparr>) t) (on_node (\<lambda>n. n\<lparr>nd_bytes := bytes\<rparr>) t))
      (\<lambda>_. temp_held os p Q t bytes) (\<lambda>_. file_held p Q)" for k
    using assms by (intro triple_sys_call)
      (auto simp: temp_held_def file_held_def others_keep_def on_node_def change_node_def private_file_def
        temps_private_def is_temp_def)
  then show ?thesis by (simp add: triple_def sys_write_def)
qed

definition placed :: "os \<Rightarrow> path \<Rightarrow> (inode option \<Rightarrow> bool) \<Rightarrow> str \<Rightarrow> world \<Rightarrow> bool" where
  "placed os p Q bytes w \<longleftrightarrow> file_held p Q w \<and>
     ((\<forall>n fs. os_other os n fs p = fs p) \<longrightarrow> wd_fs w p = Some (private_file os bytes))"

lemma placed_stable [simp, intro]: "others_keep os p Q \<Longrightarrow> stable os (placed os p Q bytes)"
  unfolding placed_def [abs_def] by (intro stable_conj stable_held stable_imp stable_at) auto

lemma rename_temp:
  assumes "others_keep os p Q" "temps_private os d" "is_temp os d t" "t \<noteq> p" "Q (Some (private_file os bytes))"
  shows "triple (temp_held os p Q t bytes) (sys_rename os t p) (\<lambda>_. placed os p Q bytes) (\<lambda>_. file_held p Q)"
  unfolding sys_rename_def
proof (rule triple_sys_call, goal_cases)
  case (1 w fs)
  then show ?case using assms(1) by (auto simp: temp_held_def file_held_def others_keep_def)
next
  case (2 w fs r fs')
  then have "Q (fs p)" "fs t = Some (private_file os bytes)"
    using assms(1,2,3) by (auto simp: temp_held_def file_held_def others_keep_def temps_private_def is_temp_def)
  then show ?case using 2 assms(4,5)
    by (auto simp: temp_held_def file_held_def placed_def split: if_splits)
qed

lemma with_temp_triple:
  "triple P m Q (\<lambda>_. I) \<Longrightarrow> triple I (sys_remove os t) (\<lambda>_. I) (\<lambda>_. I) \<Longrightarrow> triple P (with_temp os t m) Q (\<lambda>_. I)"
  unfolding with_temp_def
  by (rule triple_match[where M = Q and N = "\<lambda>_. I"], assumption, rule triple_ok, assumption,
      rule triple_match[where M = "\<lambda>_. I" and N = "\<lambda>_. I"]) (auto intro: triple_err)

lemma parent_of_child [simp]: "act (act_of (ok_or e (path_parent (d @ [name])))) f = f d"
  by (simp add: act_of_def path_parent_def act_def)

lemma triple_given: "(c \<Longrightarrow> triple P m Q E) \<Longrightarrow> triple (\<lambda>s. c \<and> P s) m Q E"
  by (auto simp: triple_def)

lemma triple_weak: "triple P m Q (\<lambda>_. E') \<Longrightarrow> (\<And>s. E' s \<Longrightarrow> E s) \<Longrightarrow> triple P m Q (\<lambda>_. E)"
  by (erule triple_conseq) auto

text \<open>The temporary file takes the place of the file in one step; nothing else touches it.\<close>

lemma persist_places:
  assumes "others_keep os (d @ [name]) Q" "temps_private os d" "\<forall>k. os_temp os k \<noteq> name"
    and "Q (Some (private_file os bytes))"
  shows "triple (file_held (d @ [name]) Q) (persist_private os (d @ [name]) bytes e)
    (\<lambda>_. placed os (d @ [name]) Q bytes) (\<lambda>_. file_held (d @ [name]) Q)"
proof -
  let ?p = "d @ [name]"
  have t: "t \<noteq> ?p" if "is_temp os d t" for t using that assms(3) by (auto simp: is_temp_def)
  have body: "triple (temp_held os ?p Q t []) (with_temp os t
       (act (io_error t (sys_set_mode os t 384)) (\<lambda>_.
        act (io_error t (sys_write os t bytes)) (\<lambda>_.
        act (io_error t (sys_sync os t)) (\<lambda>_.
        act (recheck_destination os ?p e) (\<lambda>_.
        act_map_err (\<lambda>_. PersistFailed ?p) (sys_rename os t ?p)))))))
      (\<lambda>_. placed os ?p Q bytes) (\<lambda>_. file_held ?p Q)" if "is_temp os d t" for t
  proof (rule with_temp_triple)
    have weak: "triple (temp_held os ?p Q t bytes) m (\<lambda>_. temp_held os ?p Q t bytes) (\<lambda>_. file_held ?p Q)"
      if "triple (temp_held os ?p Q t bytes) m (\<lambda>_. temp_held os ?p Q t bytes) (\<lambda>_. temp_held os ?p Q t bytes)"
      for m :: "(world, 'e, 'a) action"
      using that by (rule triple_weak) (simp add: temp_held_def)
    have s: "stable os (temp_held os ?p Q t bytes)" using assms that by blast
    show "triple (temp_held os ?p Q t [])
       (act (io_error t (sys_set_mode os t 384)) (\<lambda>_.
        act (io_error t (sys_write os t bytes)) (\<lambda>_.
        act (io_error t (sys_sync os t)) (\<lambda>_.
        act (recheck_destination os ?p e) (\<lambda>_.
        act_map_err (\<lambda>_. PersistFailed ?p) (sys_rename os t ?p))))))
      (\<lambda>_. placed os ?p Q bytes) (\<lambda>_. file_held ?p Q)"
      using assms that t[OF that]
      by (intro triple_act[where M = "\<lambda>_. temp_held os ?p Q t []"] triple_act[where M = "\<lambda>_. temp_held os ?p Q t bytes"]
          triple_io_error triple_map_err set_mode_temp write_temp rename_temp weak
          reads_stable(3)[OF s] recheck_stable[OF s])
    show "triple (file_held ?p Q) (sys_remove os t) (\<lambda>_. file_held ?p Q) (\<lambda>_. file_held ?p Q)"
      using assms(1) t[OF that] by (rule remove_held)
  qed
  have final: "triple (placed os ?p Q bytes) (io_error d (sys_sync os d)) (\<lambda>_. placed os ?p Q bytes) (\<lambda>_. file_held ?p Q)"
    by (intro triple_io_error triple_weak[OF reads_stable(3)] placed_stable assms(1)) (simp add: placed_def)
  show ?thesis
    unfolding persist_private_def parent_of_child using t
    by (intro triple_act[where M = "\<lambda>t w. is_temp os d t \<and> temp_held os ?p Q t [] w"]
        triple_act[where M = "\<lambda>_. placed os ?p Q bytes"] triple_io_error new_temp_held assms(1) final)
      (auto intro: triple_given body)
qed

text \<open>Writing another file touches this one no more than the others do.\<close>

lemma persist_elsewhere:
  assumes "others_keep os p Q" "q \<noteq> p" "\<forall>d. path_parent q = Some d \<longrightarrow> \<not> is_temp os d p"
  shows "triple (file_held p Q) (persist_private os q bytes e) (\<lambda>_. file_held p Q) (\<lambda>_. file_held p Q)"
proof (cases "path_parent q")
  case None
  then show ?thesis by (auto simp: persist_private_def triple_def act_of_def act_def)
next
  case (Some d)
  then have d: "\<not> is_temp os d p" using assms(3) by simp
  have body: "triple (file_held p Q) (with_temp os t
       (act (io_error t (sys_set_mode os t 384)) (\<lambda>_.
        act (io_error t (sys_write os t bytes)) (\<lambda>_.
        act (io_error t (sys_sync os t)) (\<lambda>_.
        act (recheck_destination os q e) (\<lambda>_.
        act_map_err (\<lambda>_. PersistFailed q) (sys_rename os t q)))))))
      (\<lambda>_. file_held p Q) (\<lambda>_. file_held p Q)" if "is_temp os d t" for t
  proof -
    have "t \<noteq> p" using d that by (auto simp: is_temp_def)
    then show ?thesis
      using assms(1,2)
      by (intro with_temp_triple triple_act[where M = "\<lambda>_. file_held p Q"] triple_io_error triple_map_err triples stable_held)
  qed
  have new: "triple (file_held p Q) (sys_new_temp os d) (\<lambda>t w. is_temp os d t \<and> file_held p Q w) (\<lambda>_. file_held p Q)"
    by (rule triple_conseq[OF new_temp_held[OF assms(1) d]]) (simp_all add: temp_held_def)
  show ?thesis
    unfolding persist_private_def Some
    by (simp add: act_of_def act_def[of "\<lambda>s. (Inr d, s)"],
        intro triple_act[where M = "\<lambda>t w. is_temp os d t \<and> file_held p Q w"] triple_act[where M = "\<lambda>_. file_held p Q"]
          triple_io_error new triples stable_held assms(1))
      (auto intro: triple_given body)
qed

lemma backup_held:
  assumes "others_keep os (d @ [name]) Q" "name \<noteq> ''backups''"
  shows "triple (file_held (d @ [name]) Q) (write_backup os (d @ [name]) current)
    (\<lambda>_. file_held (d @ [name]) Q) (\<lambda>_. file_held (d @ [name]) Q)"
proof -
  have "\<forall>n. take n (d @ [''backups'']) \<noteq> d @ [name]"
    using assms(2) by (auto simp: take_Cons' split: if_splits dest: arg_cong[of _ _ length])
  moreover have "triple (file_held (d @ [name]) Q) (persist_private os ((d @ [''backups'']) @ [b]) bytes e)
      (\<lambda>_. file_held (d @ [name]) Q) (\<lambda>_. file_held (d @ [name]) Q)" for b bytes e
    by (rule persist_elsewhere[OF assms(1)]) (auto simp: path_parent_def butlast_append is_temp_def dest: arg_cong[of _ _ length])
  ultimately show ?thesis
    unfolding write_backup_def parent_of_child Let_def
    by (intro triple_act[where M = "\<lambda>_. file_held (d @ [name]) Q"] triple_map_err triples assms(1)) simp_all
qed

lemma act_map_err_Inr: "act_map_err g m w = (Inr a, t) \<longleftrightarrow> m w = (Inr a, t)"
  by (cases "m w"; cases "fst (m w)") (simp_all add: act_map_err_def)

lemma act_of_apply [simp]: "act_of r s = (r, s)"
  by (simp add: act_of_def)

lemma act_of_Inr: "act (act_of r) f w = (Inr a, t) \<longleftrightarrow> (\<exists>x. r = Inr x \<and> f x w = (Inr a, t))"
  by (cases r) (simp_all add: act_of_def act_def)

section \<open>What is read\<close>

lemma triple_conj:
  "triple P m Q E \<Longrightarrow> triple P' m Q' E' \<Longrightarrow>
   triple (\<lambda>s. P s \<and> P' s) m (\<lambda>a s. Q a s \<and> Q' a s) (\<lambda>e s. E e s \<and> E' e s)"
  unfolding triple_def by (fastforce split: prod.splits sum.splits)

lemma triple_given_last: "(c \<Longrightarrow> triple P m Q E) \<Longrightarrow> triple (\<lambda>s. P s \<and> c) m Q E"
  by (auto simp: triple_def)

definition exact :: "os \<Rightarrow> path \<Rightarrow> bool" where
  "exact os p \<longleftrightarrow> (\<forall>n fs. os_other os n fs p = fs p)"

lemma exact_keeps: "exact os p \<Longrightarrow> others_keep os p Q"
  by (simp add: exact_def others_keep_def)

definition loaded_of :: "os \<Rightarrow> inode \<Rightarrow> loaded_file" where
  "loaded_of os n = \<lparr>lf_bytes = nd_bytes n, lf_sha256 = os_sha256 os (nd_bytes n)\<rparr>"

lemma metadata_value:
  assumes "exact os p"
  shows "triple (\<lambda>w. wd_fs w p = x) (sys_metadata os p) (\<lambda>n w. wd_fs w p = x \<and> x = Some n)
    (\<lambda>e w. wd_fs w p = x \<and> (e = IoNotFound \<longrightarrow> x = None))"
  unfolding sys_metadata_def using assms
  by (intro triple_sys_call) (auto simp: exact_def split: option.splits)

lemma read_value:
  assumes "exact os p"
  shows "triple (\<lambda>w. wd_fs w p = x) (sys_read os p) (\<lambda>bytes w. wd_fs w p = x \<and> map_option nd_bytes x = Some bytes)
    (\<lambda>e w. wd_fs w p = x)"
  unfolding sys_read_def using assms
  by (intro triple_sys_call) (auto simp: exact_def split: option.splits if_splits)

lemma load_value:
  assumes "exact os p"
  shows "triple (\<lambda>w. wd_fs w p = x) (load_file os p)
    (\<lambda>l w. wd_fs w p = x \<and> (\<exists>n. x = Some n \<and> validate_regular_file p n = Inr () \<and> l = loaded_of os n))
    (\<lambda>_ w. wd_fs w p = x)"
  unfolding load_file_def secure_metadata_def read_loaded_file_def
  by (rule triple_act[where M = "\<lambda>n w. wd_fs w p = x \<and> x = Some n"],
      rule triple_map_err, rule triple_conseq[OF metadata_value[OF assms]], simp, simp, simp,
      rule triple_act[where M = "\<lambda>_ w. wd_fs w p = x \<and> x \<noteq> None \<and> validate_regular_file p (the x) = Inr ()"],
      rule triple_of, simp, simp,
      rule triple_act[where M = "\<lambda>bytes w. wd_fs w p = x \<and> x \<noteq> None \<and> validate_regular_file p (the x) = Inr () \<and> nd_bytes (the x) = bytes"],
      rule triple_io_error, rule triple_given_last, rule triple_conseq[OF read_value[OF assms, of x]])
    (auto intro: triple_ok simp: loaded_of_def)

lemma load_missing:
  assumes "exact os p"
  shows "triple (\<lambda>w. wd_fs w p = x) (load_file os p) (\<lambda>_ _. True) (\<lambda>e _. (\<exists>q. e = MissingFile q) \<longrightarrow> x = None)"
  unfolding load_file_def secure_metadata_def read_loaded_file_def
proof (rule triple_act[where M = "\<lambda>n w. wd_fs w p = x"])
  show "triple (\<lambda>w. wd_fs w p = x) (act_map_err (\<lambda>e. if e = IoNotFound then MissingFile p else FileIo p) (sys_metadata os p))
    (\<lambda>_ w. wd_fs w p = x) (\<lambda>e _. (\<exists>q. e = MissingFile q) \<longrightarrow> x = None)"
    by (rule triple_map_err, rule triple_conseq[OF metadata_value[OF assms, of x]]) (auto split: if_splits)
  show "triple (\<lambda>w. wd_fs w p = x) (act (act_of (validate_regular_file p n)) (\<lambda>_.
      act (io_error p (sys_read os p)) (\<lambda>bytes. act_ok \<lparr>lf_bytes = bytes, lf_sha256 = os_sha256 os bytes\<rparr>)))
    (\<lambda>_ _. True) (\<lambda>e _. (\<exists>q. e = MissingFile q) \<longrightarrow> x = None)" for n
    by (rule triple_act[where M = "\<lambda>_ w. wd_fs w p = x"], rule triple_of)
      (auto simp: validate_regular_file_def Let_def triple_def act_apply io_error_def act_map_err_def map_err_def
        split: if_splits prod.splits sum.splits)
qed

lemma load_current_value:
  assumes "exact os p"
  shows "triple (\<lambda>w. wd_fs w p = x) (load_current os p)
    (\<lambda>l w. wd_fs w p = x \<and> l = map_option (loaded_of os) x) (\<lambda>_ w. wd_fs w p = x)"
  unfolding load_current_def
  by (rule triple_match[OF metadata_value[OF assms]],
      rule triple_act[where M = "\<lambda>_ w. wd_fs w p = x"], rule triple_of, simp, simp,
      rule triple_act[OF load_value[OF assms]])
    (auto intro!: triple_ok triple_if triple_err)

section \<open>The whole write\<close>

lemma policy_held:
  assumes "others_keep os (d @ [name]) Q"
  shows "triple (file_held (d @ [name]) Q)
    (case policy of PolicyPrivate \<Rightarrow> ensure_private_directory os d | PolicyTrustedExisting \<Rightarrow> ensure_trusted_existing_directory os d)
    (\<lambda>_. file_held (d @ [name]) Q) (\<lambda>_. file_held (d @ [name]) Q)"
proof -
  have "\<forall>n. take n d \<noteq> d @ [name]"
    by (auto dest: arg_cong[of _ _ length])
  then show ?thesis
    by (cases policy) (simp_all add: private_directory_held trusted_directory_stable stable_held assms)
qed

lemma optional_backup_held:
  assumes "others_keep os (d @ [name]) Q" "backup \<longrightarrow> name \<noteq> ''backups''"
  shows "triple (file_held (d @ [name]) Q)
    (case current of Some loaded \<Rightarrow> if backup then write_backup os (d @ [name]) loaded else act_ok () | None \<Rightarrow> act_ok ())
    (\<lambda>_. file_held (d @ [name]) Q) (\<lambda>_. file_held (d @ [name]) Q)"
  by (cases current) (auto intro!: triple_ok triple_if backup_held simp: assms)

lemma write_held:
  assumes "others_keep os (d @ [name]) Q" "temps_private os d" "\<forall>k. os_temp os k \<noteq> name"
    and "Q (Some (private_file os bytes))" "backup \<longrightarrow> name \<noteq> ''backups''"
  shows "triple (file_held (d @ [name]) Q) (write_with_policy os (d @ [name]) expected bytes policy backup)
    (\<lambda>_. file_held (d @ [name]) Q) (\<lambda>_. file_held (d @ [name]) Q)"
proof -
  let ?P = "file_held (d @ [name]) Q"
  have persist: "triple ?P (persist_private os (d @ [name]) bytes e) (\<lambda>_. ?P) (\<lambda>_. ?P)" for e
    by (rule triple_conseq[OF persist_places[OF assms(1-4)]]) (simp_all add: placed_def)
  show ?thesis
    unfolding write_with_policy_def parent_of_child using assms(1,5)
    by (intro triple_act[where M = "\<lambda>_. ?P"] triple_if triple_err policy_held optional_backup_held persist triples stable_held)
qed

lemma write_value:
  assumes "exact os (d @ [name])" "temps_private os d" "\<forall>k. os_temp os k \<noteq> name" "backup \<longrightarrow> name \<noteq> ''backups''"
  shows "triple (file_held (d @ [name]) (\<lambda>y. y = x)) (write_with_policy os (d @ [name]) expected bytes policy backup)
    (\<lambda>l w. wd_fs w (d @ [name]) = Some (private_file os bytes) \<and> l = loaded_of os (private_file os bytes) \<and>
      expected = map_option (\<lambda>n. os_sha256 os (nd_bytes n)) x)
    (\<lambda>_. file_held (d @ [name]) (\<lambda>y. y = x \<or> y = Some (private_file os bytes)))"
proof -
  let ?Q = "\<lambda>y. y = x \<or> y = Some (private_file os bytes)"
  let ?p = "d @ [name]" and ?x = "file_held (d @ [name]) (\<lambda>y. y = x)"
  have x: "others_keep os ?p (\<lambda>y. y = x)" and Q: "others_keep os ?p ?Q"
    using assms(1) by (auto simp: others_keep_def exact_def)
  have weaken: "?x w \<Longrightarrow> file_held ?p ?Q w" for w by (auto simp: file_held_def)
  have load: "triple ?x (load_current os ?p) (\<lambda>l w. l = map_option (loaded_of os) x \<and> ?x w) (\<lambda>_. ?x)"
    by (rule triple_conseq[OF triple_conj[OF load_current_stable[OF stable_held[OF x]] load_current_value[OF assms(1), of x]]])
      (auto simp: file_held_def)
  have persist: "triple ?x (persist_private os ?p bytes e) (\<lambda>_. placed os ?p ?Q bytes) (\<lambda>_. file_held ?p ?Q)" for e
    by (rule triple_conseq[OF persist_places[OF Q assms(2,3)]]) (auto simp: file_held_def)
  have final: "triple (placed os ?p ?Q bytes) (load_file os ?p)
     (\<lambda>l w. wd_fs w ?p = Some (private_file os bytes) \<and> l = loaded_of os (private_file os bytes)) (\<lambda>_. file_held ?p ?Q)"
    by (rule triple_conseq[OF triple_conj[OF load_file_stable[OF placed_stable[OF Q]] load_value[OF assms(1), of "Some (private_file os bytes)"]]])
      (use assms(1) in \<open>auto simp: placed_def exact_def\<close>)
  show ?thesis
    unfolding write_with_policy_def parent_of_child
    apply (rule triple_act[where M = "\<lambda>_. ?x"])
     apply (rule triple_weak[OF policy_held[OF x] weaken], assumption)
    apply (rule triple_act[where M = "\<lambda>l w. l = map_option (loaded_of os) x \<and> ?x w"])
     apply (rule triple_weak[OF load weaken], assumption)
    apply (rule triple_given)
    apply (rule triple_if, rule triple_err, erule weaken)
    apply (rule triple_act[where M = "\<lambda>_. ?x"])
     apply (rule triple_weak[OF optional_backup_held[OF x assms(4)] weaken], assumption)
    apply (rule triple_act[OF persist])
    apply (rule triple_conseq[OF final])
      apply (auto simp: loaded_of_def option.map_comp comp_def)
    done
qed

lemma io_error_apply [simp]: "io_error p m w = (map_err (\<lambda>_. FileIo p) (fst (m w)), snd (m w))"
  by (simp add: io_error_def prod_eq_iff)

lemmas works_defs = sys_metadata_def sys_read_def sys_remove_def sys_sync_def sys_set_mode_def sys_write_def
  sys_rename_def sys_new_temp_def sys_create_dir_all_def on_node_def change_node_def

section \<open>Histories\<close>

text \<open>No operation looks at the history: it puts its own states before what was there.\<close>

definition fresh :: "world \<Rightarrow> world" where
  "fresh w = w\<lparr>wd_seen := []\<rparr>"

definition after :: "world \<Rightarrow> world \<Rightarrow> world" where
  "after w' w = w'\<lparr>wd_seen := wd_seen w' @ wd_seen w\<rparr>"

definition forgets :: "('e, 'a) io \<Rightarrow> bool" where
  "forgets m \<longleftrightarrow> (\<forall>w. m w = (fst (m (fresh w)), after (snd (m (fresh w))) w))"

named_theorems forgets_intros \<open>operations that do not look at the history\<close>

lemma fresh_simps [simp]:
  "wd_fs (fresh w) = wd_fs w" "wd_tick (fresh w) = wd_tick w" "wd_seen (fresh w) = []" "fresh (fresh w) = fresh w"
  "wd_fs (after w' w) = wd_fs w'" "wd_tick (after w' w) = wd_tick w'" "wd_seen (after w' w) = wd_seen w' @ wd_seen w"
  "fresh (after w' w) = fresh w'" "after w2 (after w1 w) = after (after w2 w1) w" "after (fresh w) w = w"
  by (simp_all add: fresh_def after_def)

lemma forgetsD: "forgets m \<Longrightarrow> m (fresh w) = (r, w') \<Longrightarrow> m w = (r, after w' w)"
  by (metis forgets_def fst_conv snd_conv)

lemma forgets_act [forgets_intros]:
  assumes "forgets m" "\<And>a. forgets (f a)"
  shows "forgets (act m f)"
  unfolding forgets_def
proof
  fix w
  obtain r w1 where m: "m (fresh w) = (r, w1)" by fastforce
  show "act m f w = (fst (act m f (fresh w)), after (snd (act m f (fresh w))) w)"
  proof (cases r)
    case (Inl e)
    then show ?thesis using m forgetsD[OF assms(1) m] by simp
  next
    case (Inr a)
    obtain r2 w2 where f: "f a (fresh w1) = (r2, w2)" by fastforce
    have "f a w1 = (r2, after w2 w1)" "f a (after w1 w) = (r2, after w2 (after w1 w))"
      using forgetsD[OF assms(2)] f by simp_all
    then show ?thesis using m forgetsD[OF assms(1) m] Inr by simp
  qed
qed

lemma forgets_match [forgets_intros]:
  assumes "forgets m" "\<And>a. forgets (f a)" "\<And>e. forgets (g e)"
  shows "forgets (act_match m f g)"
  unfolding forgets_def
proof
  fix w
  obtain r w1 where m: "m (fresh w) = (r, w1)" by fastforce
  define k where "k = (case r of Inr a \<Rightarrow> f a | Inl e \<Rightarrow> g e)"
  have "forgets k" unfolding k_def using assms(2,3) by (cases r) simp_all
  obtain r2 w2 where k: "k (fresh w1) = (r2, w2)" by fastforce
  have "k w1 = (r2, after w2 w1)" "k (after w1 w) = (r2, after w2 (after w1 w))"
    using forgetsD[OF \<open>forgets k\<close>] k by simp_all
  then show "act_match m f g w = (fst (act_match m f g (fresh w)), after (snd (act_match m f g (fresh w))) w)"
    using m forgetsD[OF assms(1) m] by (cases r) (simp_all add: act_match_def k_def)
qed

lemma forgets_basic [forgets_intros]:
  "forgets (act_ok a)" "forgets (act_err e)" "forgets (act_of r)" "forgets (sys_now os)"
  by (simp_all add: forgets_def act_of_def sys_now_def)

lemma forgets_call: "forgets (sys_call os broken f)"
  by (simp add: forgets_def sys_call_def fresh_def after_def Let_def split: prod.splits)

lemma forgets_sys [forgets_intros]:
  "forgets (sys_metadata os p)" "forgets (sys_read os p)" "forgets (sys_remove os p)" "forgets (sys_sync os p)"
  "forgets (sys_set_mode os p mode)" "forgets (sys_rename os p q)" "forgets (sys_create_dir_all os p)"
  by (simp_all add: works_defs forgets_call)

lemma forgets_at_tick:
  assumes "\<And>n. forgets (m n)"
  shows "forgets (\<lambda>w. m (wd_tick w) w)"
  unfolding forgets_def
proof
  fix w
  show "m (wd_tick w) w = (fst (m (wd_tick (fresh w)) (fresh w)), after (snd (m (wd_tick (fresh w)) (fresh w))) w)"
    unfolding fresh_simps by (rule assms[of "wd_tick w", unfolded forgets_def, rule_format])
qed

lemma forgets_write [forgets_intros]: "forgets (sys_write os p bytes)"
  unfolding sys_write_def
  by (rule forgets_at_tick[of "\<lambda>n. sys_call os (change_node (\<lambda>m. m\<lparr>nd_bytes := take (os_cut os n) bytes\<rparr>) p) (on_node (\<lambda>n. n\<lparr>nd_bytes := bytes\<rparr>) p)"])
    (rule forgets_call)

lemma forgets_new_temp [forgets_intros]: "forgets (sys_new_temp os d)"
  unfolding sys_new_temp_def Let_def
  by (rule forgets_at_tick[of "\<lambda>n. sys_call os (\<lambda>fs. fs) (\<lambda>fs.
        if map_option nd_kind (fs d) \<noteq> Some KindDirectory then (Inl IoNotFound, fs)
        else if fs (d @ [os_temp os n]) \<noteq> None then (Inl IoOther, fs)
        else (Inr (d @ [os_temp os n]), fs(d @ [os_temp os n] \<mapsto> private_file os [])))"])
    (rule forgets_call)

lemma forgets_map_err [forgets_intros]:
  assumes "forgets m"
  shows "forgets (act_map_err g m)"
  unfolding forgets_def
proof
  fix w
  obtain r w' where m: "m (fresh w) = (r, w')" by fastforce
  then show "act_map_err g m w = (fst (act_map_err g m (fresh w)), after (snd (act_map_err g m (fresh w))) w)"
    using forgetsD[OF assms m] by (simp add: act_map_err_def)
qed

lemma forgets_io_error [forgets_intros]: "forgets m \<Longrightarrow> forgets (io_error p m)"
  unfolding io_error_def by (rule forgets_map_err)

lemma forgets_if [forgets_intros]: "forgets m \<Longrightarrow> forgets n \<Longrightarrow> forgets (if b then m else n)"
  by simp

lemma forgets_load [forgets_intros]: "forgets (load_file os p)"
  unfolding load_file_def secure_metadata_def read_loaded_file_def by (intro forgets_intros)

lemma forgets_directories [forgets_intros]:
  "forgets (ensure_private_directory os p)" "forgets (ensure_trusted_existing_directory os p)"
  unfolding ensure_private_directory_def ensure_trusted_existing_directory_def Let_def by (intro forgets_intros)+

lemma forgets_recheck [forgets_intros]: "forgets (recheck_destination os p e)"
  unfolding recheck_destination_def
  by (cases e; simp only: destination_expectation.case) (intro forgets_intros)+

lemma forgets_persist [forgets_intros]: "forgets (persist_private os p bytes e)"
  unfolding persist_private_def with_temp_def by (intro forgets_intros)

lemma forgets_backup [forgets_intros]: "forgets (write_backup os p current)"
  unfolding write_backup_def Let_def by (intro forgets_intros)

lemma forgets_load_current [forgets_intros]: "forgets (load_current os p)"
  unfolding load_current_def by (intro forgets_intros)

lemma forgets_write_with_policy [forgets_intros]: "forgets (write_with_policy os p expected bytes policy backup)"
proof -
  have "forgets (case policy of PolicyPrivate \<Rightarrow> ensure_private_directory os d
      | PolicyTrustedExisting \<Rightarrow> ensure_trusted_existing_directory os d)" for d
    by (cases policy) (simp_all add: forgets_directories)
  moreover have "forgets (case c of Some loaded \<Rightarrow> if backup then write_backup os p loaded else act_ok () | None \<Rightarrow> act_ok ())" for c
    by (cases c) (simp_all add: forgets_backup forgets_basic)
  ultimately show ?thesis
    unfolding write_with_policy_def by (intro forgets_intros)
qed

section \<open>A system that works\<close>

definition os_works :: "os \<Rightarrow> bool" where
  "os_works os \<longleftrightarrow> (\<forall>n. \<not> os_fails os n) \<and> (\<forall>n fs. os_other os n fs = fs) \<and> (\<forall>n. os_clock os n \<noteq> None)"

definition called :: "fs \<Rightarrow> world \<Rightarrow> world" where
  "called fs w = \<lparr>wd_fs = fs, wd_seen = fs # wd_fs w # wd_seen w, wd_tick = wd_tick w + 1\<rparr>"

lemma called_fs [simp]: "wd_fs (called fs w) = fs"
  by (simp add: called_def)

lemma works_call: "os_works os \<Longrightarrow> sys_call os broken f w = (fst (f (wd_fs w)), called (snd (f (wd_fs w))) w)"
  by (simp add: os_works_def sys_call_def called_def case_prod_beta Let_def)

lemma private_file_regular [simp]: "validate_regular_file p (private_file os bytes) = Inr ()"
  by (simp add: validate_regular_file_def private_file_def)

lemma load_works:
  "os_works os \<Longrightarrow> wd_fs w p = Some n \<Longrightarrow> validate_regular_file p n = Inr () \<Longrightarrow>
   fst (load_file os p w) = Inr (loaded_of os n) \<and> wd_fs (snd (load_file os p w)) = wd_fs w"
  by (auto simp: load_file_def secure_metadata_def read_loaded_file_def act_apply act_of_def act_map_err_def
      works_call works_defs loaded_of_def validate_regular_file_def split: if_splits)

lemma load_current_works:
  assumes "os_works os" "\<forall>n. wd_fs w p = Some n \<longrightarrow> validate_regular_file p n = Inr ()"
  shows "fst (load_current os p w) = Inr (map_option (loaded_of os) (wd_fs w p)) \<and> wd_fs (snd (load_current os p w)) = wd_fs w"
proof (cases "wd_fs w p")
  case None
  then show ?thesis
    by (simp add: load_current_def act_match_def works_call[OF assms(1)] works_defs)
next
  case (Some n)
  let ?w = "called (wd_fs w) w"
  have "fst (load_file os p ?w) = Inr (loaded_of os n) \<and> wd_fs (snd (load_file os p ?w)) = wd_fs ?w"
    using Some assms(2) by (intro load_works[OF assms(1)]) auto
  then show ?thesis
    using Some assms(2)
    by (cases "load_file os p ?w") (simp add: load_current_def act_match_def works_call[OF assms(1)] sys_metadata_def act_of_def act_def)
qed

text \<open>Nothing else changes when a file is replaced.\<close>

definition expected_now :: "os \<Rightarrow> inode option \<Rightarrow> destination_expectation \<Rightarrow> bool" where
  "expected_now os x e =
     (case e of
        DestinationMissing \<Rightarrow> x = None
      | DestinationSha256 h \<Rightarrow>
          (case x of None \<Rightarrow> False | Some n \<Rightarrow> validate_regular_file [] n = Inr () \<and> os_sha256 os (nd_bytes n) = h))"

lemma validate_anywhere: "validate_regular_file p n = Inr () \<longleftrightarrow> validate_regular_file q n = Inr ()"
  by (simp add: validate_regular_file_def Let_def)

lemma recheck_works:
  assumes "os_works os" "expected_now os (wd_fs w p) e"
  shows "fst (recheck_destination os p e w) = Inr () \<and> wd_fs (snd (recheck_destination os p e w)) = wd_fs w"
proof (cases e)
  case DestinationMissing
  then show ?thesis
    using assms(2) by (simp add: recheck_destination_def act_match_def works_call[OF assms(1)] works_defs expected_now_def)
next
  case (DestinationSha256 h)
  then obtain n where n: "wd_fs w p = Some n" "validate_regular_file p n = Inr ()" "os_sha256 os (nd_bytes n) = h"
    using assms(2) validate_anywhere[of "[]" _ p] by (auto simp: expected_now_def split: option.splits)
  show ?thesis
    using load_works[OF assms(1) n(1,2)] n(3) DestinationSha256
    by (cases "load_file os p w") (simp add: recheck_destination_def act_def loaded_of_def)
qed

lemma persist_works:
  assumes "os_works os" "map_option nd_kind (wd_fs w d) = Some KindDirectory"
    and "\<forall>k. wd_fs w (d @ [os_temp os k]) = None" "\<forall>k. os_temp os k \<noteq> name" "\<forall>k. d @ [os_temp os k] \<noteq> d"
    and "map_option nd_kind (wd_fs w (d @ [name])) \<noteq> Some KindDirectory"
    and "expected_now os (wd_fs w (d @ [name])) e"
  shows "fst (persist_private os (d @ [name]) bytes e w) = Inr () \<and>
    wd_fs (snd (persist_private os (d @ [name]) bytes e w)) = (wd_fs w)(d @ [name] \<mapsto> private_file os bytes)"
proof -
  let ?p = "d @ [name]"
  define t where "t = d @ [os_temp os (wd_tick w)]"
  have t: "t \<noteq> ?p" "wd_fs w t = None" "t \<noteq> d" "?p \<noteq> d"
    using assms(3,4) by (auto simp: t_def)
  let ?empty = "(wd_fs w)(t \<mapsto> private_file os [])" and ?fs = "(wd_fs w)(t \<mapsto> private_file os bytes)"
  define w1 where "w1 = called ?empty w"
  define w2 where "w2 = called ?empty w1"
  define w3 where "w3 = called ?fs w2"
  define w4 where "w4 = called ?fs w3"
  obtain w5 where w5: "recheck_destination os ?p e w4 = (Inr (), w5)" "wd_fs w5 = ?fs"
    using recheck_works[OF assms(1), of w4 ?p e] assms(7) t(1)
    by (cases "recheck_destination os ?p e w4") (auto simp: w4_def)
  define w6 where "w6 = called ((wd_fs w)(?p \<mapsto> private_file os bytes)) w5"
  have kind: "nd_kind n \<noteq> KindDirectory" if "wd_fs w ?p = Some n" for n
    using that assms(6) by auto
  have replaced: "?fs(t := None, ?p \<mapsto> private_file os bytes) = (wd_fs w)(?p \<mapsto> private_file os bytes)"
    using t by (auto simp: fun_eq_iff)
  have temp: "sys_new_temp os d w = (Inr t, w1)"
    using assms(2) t(2) by (simp add: sys_new_temp_def works_call[OF assms(1)] t_def[symmetric] w1_def)
  have mode: "sys_set_mode os t 384 w1 = (Inr (), w2)"
    by (simp add: sys_set_mode_def works_call[OF assms(1)] w1_def w2_def on_node_def change_node_def private_file_def)
  have bytes: "sys_write os t bytes w2 = (Inr (), w3)"
    by (simp add: sys_write_def works_call[OF assms(1)] w2_def w3_def on_node_def change_node_def private_file_def)
  have sync: "sys_sync os t w3 = (Inr (), w4)"
    by (simp add: sys_sync_def works_call[OF assms(1)] w3_def w4_def)
  have rename: "sys_rename os t ?p w5 = (Inr (), w6)"
    using t kind replaced by (auto simp: sys_rename_def works_call[OF assms(1)] w5(2) w6_def)
  have w6: "wd_fs w6 = (wd_fs w)(?p \<mapsto> private_file os bytes)"
    by (simp add: w6_def)
  have directory: "sys_sync os d w6 = (Inr (), called (wd_fs w6) w6)"
    using assms(2) t(4) by (auto simp: sys_sync_def works_call[OF assms(1)] w6_def)
  show ?thesis
    unfolding persist_private_def parent_of_child
    by (simp add: act_def with_temp_def act_match_def act_map_err_def temp mode bytes sync w5(1) rename directory w6)
qed

definition private_directory :: "fs \<Rightarrow> path \<Rightarrow> bool" where
  "private_directory fs d \<longleftrightarrow>
     (case fs d of None \<Rightarrow> False | Some n \<Rightarrow> nd_kind n = KindDirectory \<and> and (nd_mode n) 511 = 448)"

lemma directory_works:
  assumes "os_works os" "private_directory (wd_fs w) d"
  shows "ensure_private_directory os d w = (Inr (), called (wd_fs w) w)"
    and "ensure_trusted_existing_directory os d w = (Inr (), called (wd_fs w) w)"
proof -
  obtain n where n: "wd_fs w d = Some n" "nd_kind n = KindDirectory" "and (nd_mode n) 511 = 448"
    using assms(2) by (auto simp: private_directory_def split: option.splits)
  then show "ensure_private_directory os d w = (Inr (), called (wd_fs w) w)"
    by (simp add: ensure_private_directory_def act_match_def works_call[OF assms(1)] sys_metadata_def Let_def)
  show "ensure_trusted_existing_directory os d w = (Inr (), called (wd_fs w) w)"
    using n by (simp add: ensure_trusted_existing_directory_def act_def works_call[OF assms(1)] sys_metadata_def Let_def io_error_def act_map_err_def)
qed

definition room_in :: "os \<Rightarrow> fs \<Rightarrow> path \<Rightarrow> bool" where
  "room_in os fs d \<longleftrightarrow> private_directory fs d \<and> (\<forall>k. fs (d @ [os_temp os k]) = None)"

lemma room_kind: "room_in os fs d \<Longrightarrow> map_option nd_kind (fs d) = Some KindDirectory"
  by (auto simp: room_in_def private_directory_def split: option.splits)

text \<open>The directory of backups has room for one more, whatever the time and the digest.\<close>

definition backup_room :: "os \<Rightarrow> fs \<Rightarrow> path \<Rightarrow> str \<Rightarrow> bool" where
  "backup_room os fs d name \<longleftrightarrow> room_in os fs (d @ [''backups'']) \<and>
     (\<forall>k h. fs (d @ [''backups'', name @ ''.'' @ dec_string k @ ''.sha256-'' @ h @ ''.bak'']) = None \<and>
        (\<forall>j. os_temp os j \<noteq> name @ ''.'' @ dec_string k @ ''.sha256-'' @ h @ ''.bak''))"

lemma backup_works:
  assumes "os_works os" "backup_room os (wd_fs w) d name"
  shows "\<exists>b. fst (write_backup os (d @ [name]) current w) = Inr () \<and>
    wd_fs (snd (write_backup os (d @ [name]) current w)) =
      (wd_fs w)(d @ [''backups'', b] \<mapsto> private_file os (lf_bytes current))"
proof -
  let ?w = "called (wd_fs w) w"
  obtain k where k: "os_clock os (wd_tick ?w) = Some k"
    using assms(1) by (metis os_works_def option.exhaust)
  let ?b = "name @ ''.'' @ dec_string k @ ''.sha256-'' @ take 16 (lf_sha256 current) @ ''.bak''"
  have room: "room_in os (wd_fs w) (d @ [''backups''])" and free: "wd_fs w (d @ [''backups'', ?b]) = None"
    and temps: "\<forall>j. os_temp os j \<noteq> ?b"
    using assms(2) by (simp_all add: backup_room_def)
  have "fst (persist_private os ((d @ [''backups'']) @ [?b]) (lf_bytes current) DestinationMissing ?w) = Inr () \<and>
    wd_fs (snd (persist_private os ((d @ [''backups'']) @ [?b]) (lf_bytes current) DestinationMissing ?w)) =
      (wd_fs ?w)((d @ [''backups'']) @ [?b] \<mapsto> private_file os (lf_bytes current))"
    by (rule persist_works[OF assms(1)]) (use room free temps room_kind[OF room] in \<open>simp_all add: room_in_def expected_now_def\<close>)
  moreover have "private_directory (wd_fs w) (d @ [''backups''])"
    using room by (simp add: room_in_def)
  ultimately show ?thesis
    using k unfolding write_backup_def parent_of_child by (intro exI[of _ ?b])
      (simp add: act_def directory_works(1)[OF assms(1)] Let_def sys_now_def act_map_err_def)
qed

lemma write_works:
  fixes name :: str
  assumes "os_works os" "room_in os (wd_fs w) d" "\<forall>k. os_temp os k \<noteq> name" "name \<noteq> ''backups''"
    and "\<forall>n. wd_fs w (d @ [name]) = Some n \<longrightarrow> validate_regular_file [] n = Inr ()"
    and "expected = map_option (\<lambda>n. os_sha256 os (nd_bytes n)) (wd_fs w (d @ [name]))"
    and "backup \<longrightarrow> backup_room os (wd_fs w) d name"
  shows "\<exists>w'. write_with_policy os (d @ [name]) expected bytes policy backup w
        = (Inr (loaded_of os (private_file os bytes)), w') \<and>
      wd_fs w' (d @ [name]) = Some (private_file os bytes) \<and>
      (\<forall>q. q \<noteq> d @ [name] \<longrightarrow> (\<forall>b. q \<noteq> d @ [''backups'', b]) \<longrightarrow> wd_fs w' q = wd_fs w q)"
proof -
  let ?p = "d @ [name]" and ?w1 = "called (wd_fs w) w"
  have d: "private_directory (wd_fs w) d" and dd: "d \<noteq> d @ xs \<or> xs = []" for xs :: path
    using assms(2) by (auto simp: room_in_def)
  have dir: "(case policy of PolicyPrivate \<Rightarrow> ensure_private_directory os d
      | PolicyTrustedExisting \<Rightarrow> ensure_trusted_existing_directory os d) w = (Inr (), ?w1)"
    by (cases policy) (simp_all add: directory_works[OF assms(1) d])
  obtain w2 where w2: "load_current os ?p ?w1 = (Inr (map_option (loaded_of os) (wd_fs w ?p)), w2)" "wd_fs w2 = wd_fs w"
    using load_current_works[OF assms(1), of ?w1 ?p] assms(5) validate_anywhere[of "[]" _ ?p]
    by (cases "load_current os ?p ?w1") auto
  let ?keep = "case map_option (loaded_of os) (wd_fs w ?p) of
      Some loaded \<Rightarrow> if backup then write_backup os ?p loaded else act_ok () | None \<Rightarrow> act_ok ()"
  obtain w3 where w3: "?keep w2 = (Inr (), w3)" "\<forall>q. (\<forall>b. q \<noteq> d @ [''backups'', b]) \<longrightarrow> wd_fs w3 q = wd_fs w q"
  proof (cases "wd_fs w ?p")
    case None
    then show ?thesis using that[of w2] w2 by simp
  next
    case (Some n)
    then show ?thesis
      using that assms(7) w2 backup_works[OF assms(1), of w2 d name "loaded_of os n"]
      by (cases "write_backup os ?p (loaded_of os n) w2"; cases backup) fastforce+
  qed
  have same: "wd_fs w3 ?p = wd_fs w ?p" "wd_fs w3 d = wd_fs w d" "wd_fs w3 (d @ [os_temp os k]) = wd_fs w (d @ [os_temp os k])" for k
    using w3(2) by auto
  have now: "expected_now os (wd_fs w ?p) (expectation_of (map_option (loaded_of os) (wd_fs w ?p)))"
    using assms(5) by (cases "wd_fs w ?p") (auto simp: expected_now_def expectation_of_def loaded_of_def)
  have "map_option nd_kind (wd_fs w ?p) \<noteq> Some KindDirectory"
    using assms(5) by (auto simp: validate_regular_file_def split: if_splits)
  then have "fst (persist_private os ?p bytes (expectation_of (map_option (loaded_of os) (wd_fs w ?p))) w3) = Inr () \<and>
      wd_fs (snd (persist_private os ?p bytes (expectation_of (map_option (loaded_of os) (wd_fs w ?p))) w3))
        = (wd_fs w3)(?p \<mapsto> private_file os bytes)"
    by (intro persist_works[OF assms(1)])
      (use assms(2,3) room_kind[OF assms(2)] now same in \<open>simp_all add: room_in_def\<close>)
  then obtain w4 where w4: "persist_private os ?p bytes (expectation_of (map_option (loaded_of os) (wd_fs w ?p))) w3 = (Inr (), w4)"
      "wd_fs w4 = (wd_fs w3)(?p \<mapsto> private_file os bytes)"
    by (cases "persist_private os ?p bytes (expectation_of (map_option (loaded_of os) (wd_fs w ?p))) w3") auto
  obtain w5 where w5: "load_file os ?p w4 = (Inr (loaded_of os (private_file os bytes)), w5)" "wd_fs w5 = wd_fs w4"
    using load_works[OF assms(1), of w4 ?p] w4(2) by (cases "load_file os ?p w4") auto
  have "write_with_policy os ?p expected bytes policy backup w = (Inr (loaded_of os (private_file os bytes)), w5)"
    unfolding write_with_policy_def parent_of_child
    using dir w2(1) w3(1) w4(1) w5(1) assms(6)
    by (simp add: act_def option.map_comp comp_def loaded_of_def)
  then show ?thesis
    using w5(2) w4(2) w3(2) by (intro exI[of _ w5]) auto
qed

section \<open>A write of another file\<close>

lemma write_elsewhere:
  assumes "others_keep os p Q" "\<forall>n. take n d \<noteq> p" "p \<noteq> d @ [name]" "\<not> is_temp os d p"
    and "backup \<longrightarrow> p \<noteq> d @ [''backups''] \<and> (\<forall>x. p \<noteq> d @ [''backups'', x])"
  shows "triple (file_held p Q) (write_with_policy os (d @ [name]) expected bytes policy backup)
    (\<lambda>_. file_held p Q) (\<lambda>_. file_held p Q)"
proof -
  have dir: "triple (file_held p Q)
    (case policy of PolicyPrivate \<Rightarrow> ensure_private_directory os d | PolicyTrustedExisting \<Rightarrow> ensure_trusted_existing_directory os d)
    (\<lambda>_. file_held p Q) (\<lambda>_. file_held p Q)"
    by (cases policy) (simp_all add: private_directory_held trusted_directory_stable stable_held assms)
  have "triple (file_held p Q) (write_backup os (d @ [name]) l) (\<lambda>_. file_held p Q) (\<lambda>_. file_held p Q)"
    if "backup" for l
  proof -
    have "\<forall>n. take n (d @ [''backups'']) \<noteq> p"
      using assms(2,5) that by (auto simp: take_Cons' split: if_splits)
    moreover have "triple (file_held p Q) (persist_private os ((d @ [''backups'']) @ [b]) bs e) (\<lambda>_. file_held p Q) (\<lambda>_. file_held p Q)" for b bs e
      using assms(5) that
      by (intro persist_elsewhere[OF assms(1)]) (auto simp: path_parent_def butlast_append is_temp_def)
    ultimately show ?thesis
      unfolding write_backup_def parent_of_child Let_def
      by (intro triple_act[where M = "\<lambda>_. file_held p Q"] triple_map_err triples assms(1)) simp_all
  qed
  then have keep: "triple (file_held p Q)
    (case current of Some loaded \<Rightarrow> if backup then write_backup os (d @ [name]) loaded else act_ok () | None \<Rightarrow> act_ok ())
    (\<lambda>_. file_held p Q) (\<lambda>_. file_held p Q)" for current
    by (cases current) (auto intro!: triple_ok triple_if)
  have persist: "triple (file_held p Q) (persist_private os (d @ [name]) bytes e) (\<lambda>_. file_held p Q) (\<lambda>_. file_held p Q)" for e
    using assms(3,4) by (intro persist_elsewhere[OF assms(1)]) (auto simp: path_parent_def)
  show ?thesis
    unfolding write_with_policy_def parent_of_child using assms(1)
    by (intro triple_act[where M = "\<lambda>_. file_held p Q"] triple_if triple_err dir keep persist triples stable_held)
qed

section \<open>Properties\<close>

text \<open>C31: A write is atomic. Whatever fails, whatever other processes do to other files, and wherever the process
  is stopped, the file is in every state on the way what it was before, something another process put there, or
  exactly the new regular file, with all the new bytes, one link and mode 0600: a condition \<open>Q\<close> that the old file
  and the new one satisfy and that the others keep holds in every state. If no other process touches the file, a
  write that returns has put the bytes there, returns them with their digest, and the digest that the caller
  expected was that of the file before; only the temporary names have to be apart from the file and private.\<close>

theorem write_is_atomic:
  assumes "wd_seen w = []" "temps_private os d" "\<forall>k. os_temp os k \<noteq> name" "backup \<longrightarrow> name \<noteq> ''backups''"
    and "write_with_policy os (d @ [name]) expected bytes policy backup w = (r, w')"
  shows "(\<forall>Q. others_keep os (d @ [name]) Q \<longrightarrow> Q (wd_fs w (d @ [name])) \<longrightarrow> Q (Some (private_file os bytes)) \<longrightarrow>
        Q (wd_fs w' (d @ [name])) \<and> (\<forall>fs\<in>set (wd_seen w'). Q (fs (d @ [name])))) \<and>
    (\<forall>l. exact os (d @ [name]) \<longrightarrow> r = Inr l \<longrightarrow>
        wd_fs w' (d @ [name]) = Some (private_file os bytes) \<and> l = loaded_of os (private_file os bytes) \<and>
        expected = map_option (\<lambda>n. os_sha256 os (nd_bytes n)) (wd_fs w (d @ [name])))"
proof (intro conjI allI impI)
  fix Q assume Q: "others_keep os (d @ [name]) Q" "Q (wd_fs w (d @ [name]))" "Q (Some (private_file os bytes))"
  have "file_held (d @ [name]) Q (snd (write_with_policy os (d @ [name]) expected bytes policy backup w))"
    by (rule triple_snd[OF write_held[OF Q(1) assms(2,3) Q(3) assms(4)]]) (simp add: file_held_def Q(2) assms(1))
  then show "Q (wd_fs w' (d @ [name]))" "\<forall>fs\<in>set (wd_seen w'). Q (fs (d @ [name]))"
    by (simp_all add: assms(5) file_held_def)
next
  fix l assume l: "exact os (d @ [name])" "r = Inr l"
  have "file_held (d @ [name]) (\<lambda>y. y = wd_fs w (d @ [name])) w"
    by (simp add: file_held_def assms(1))
  from triple_Inr[OF write_value[OF l(1) assms(2-4)] this assms(5)[unfolded l(2)]]
  show "wd_fs w' (d @ [name]) = Some (private_file os bytes)" "l = loaded_of os (private_file os bytes)"
    "expected = map_option (\<lambda>n. os_sha256 os (nd_bytes n)) (wd_fs w (d @ [name]))"
    by simp_all
qed

definition example_os :: os where
  "example_os = \<lparr>os_fails = (\<lambda>_. False), os_cut = (\<lambda>_. 0), os_other = (\<lambda>_ fs. fs), os_temp = (\<lambda>_. ''.tmp''),
     os_clock = (\<lambda>n. Some n), os_uid = 501, os_dir_mode = 493, os_sha256 = rev\<rparr>"

definition example_directory :: inode where
  "example_directory = \<lparr>nd_kind = KindDirectory, nd_mode = 448, nd_links = 2, nd_uid = 501, nd_bytes = []\<rparr>"

definition example_world :: world where
  "example_world = \<lparr>wd_fs = [[''home''] \<mapsto> example_directory, [''home'', ''backups''] \<mapsto> example_directory,
     [''home'', ''config.toml''] \<mapsto> private_file example_os ''old''], wd_seen = [], wd_tick = 0\<rparr>"

text \<open>The same system, failing at the call that renames.\<close>

theorem write_is_atomic_witness:
  "(\<lambda>fs. fs [''home'', ''config.toml'']) ` set (wd_seen (snd (write_with_policy (example_os\<lparr>os_fails := (\<lambda>n. n = 9)\<rparr>)
       [''home'', ''config.toml''] (Some ''dlo'') ''new'' PolicyPrivate False example_world)))
     \<subseteq> {Some (private_file example_os ''old''), Some (private_file example_os ''new'')}"
proof -
  let ?os = "example_os\<lparr>os_fails := (\<lambda>n. n = 9)\<rparr>"
  let ?Q = "\<lambda>y. y \<in> {Some (private_file example_os ''old''), Some (private_file example_os ''new'')}"
  obtain r w' where run: "write_with_policy ?os ([''home''] @ [''config.toml'']) (Some ''dlo'') ''new'' PolicyPrivate False
      example_world = (r, w')"
    by fastforce
  have "\<forall>Q. others_keep ?os ([''home''] @ [''config.toml'']) Q \<longrightarrow> Q (wd_fs example_world ([''home''] @ [''config.toml''])) \<longrightarrow>
      Q (Some (private_file ?os ''new'')) \<longrightarrow>
      Q (wd_fs w' ([''home''] @ [''config.toml''])) \<and> (\<forall>fs\<in>set (wd_seen w'). Q (fs ([''home''] @ [''config.toml''])))"
    by (rule conjunct1[OF write_is_atomic[OF _ _ _ _ run]])
      (simp_all add: example_world_def example_os_def temps_private_def)
  from this[rule_format, of ?Q] show ?thesis
    using run by (simp add: image_subset_iff others_keep_def example_os_def example_world_def private_file_def)
qed

text \<open>A write that nothing hinders succeeds. When no call fails, the directory is private and has a free
  temporary name, the file is missing or a private regular file whose digest is the expected one, and a backup has
  room, every write returns the new content and its digest; the file is the new one, and no other path has changed
  but those of the directory of backups.\<close>

theorem write_succeeds:
  fixes name :: str
  assumes "os_works os" "room_in os (wd_fs w) d" "\<forall>k. os_temp os k \<noteq> name" "name \<noteq> ''backups''"
    and "\<forall>n. wd_fs w (d @ [name]) = Some n \<longrightarrow> validate_regular_file [] n = Inr ()"
    and "expected = map_option (\<lambda>n. os_sha256 os (nd_bytes n)) (wd_fs w (d @ [name]))"
    and "backup_room os (wd_fs w) d name"
  shows "\<exists>w'. write_file os (d @ [name]) expected bytes w = (Inr (loaded_of os (private_file os bytes)), w') \<and>
      wd_fs w' (d @ [name]) = Some (private_file os bytes) \<and>
      (\<forall>q. q \<noteq> d @ [name] \<longrightarrow> (\<forall>b. q \<noteq> d @ [''backups'', b]) \<longrightarrow> wd_fs w' q = wd_fs w q)"
  unfolding write_file_def using assms by (intro write_works) auto

theorem write_succeeds_witness:
  "\<exists>w'. write_file example_os [''home'', ''config.toml''] (Some ''dlo'') ''new'' example_world
      = (Inr \<lparr>lf_bytes = ''new'', lf_sha256 = ''wen''\<rparr>, w') \<and>
    wd_fs w' [''home'', ''config.toml''] = Some (private_file example_os ''new'')"
proof -
  have "\<exists>w'. write_file example_os ([''home''] @ [''config.toml'']) (Some ''dlo'') ''new'' example_world
      = (Inr (loaded_of example_os (private_file example_os ''new'')), w') \<and>
      wd_fs w' ([''home''] @ [''config.toml'']) = Some (private_file example_os ''new'') \<and>
      (\<forall>q. q \<noteq> [''home''] @ [''config.toml''] \<longrightarrow> (\<forall>b. q \<noteq> [''home''] @ [''backups'', b]) \<longrightarrow>
        wd_fs w' q = wd_fs example_world q)"
    by (rule write_succeeds)
      (simp_all add: os_works_def room_in_def backup_room_def private_directory_def example_os_def example_world_def
        example_directory_def private_file_def validate_regular_file_def)
  then show ?thesis
    by (fastforce simp: loaded_of_def private_file_def example_os_def)
qed

end
