(* ===== verification/Stores.thy ===== *)
theory Stores
  imports Files ErrorText Refresh
begin

text \<open>
  The stores of \<open>provider-x-app\<close>: \<open>storage/provider_config.rs\<close>, \<open>storage/model_cache.rs\<close> and
  \<open>storage/model_registry.rs\<close> over \<open>storage/atomic_file.rs\<close>, and the messages of the latter's errors. The YAML and
  JSON libraries are parameters. The last part shows how a store keeps the files of the others.
\<close>

section \<open>The messages of the file errors\<close>

definition path_text :: "path \<Rightarrow> str" where
  "path_text p = concat (map (\<lambda>c. ''/'' @ c) p)"

definition oct_string :: "nat \<Rightarrow> str" where
  "oct_string n = radix_string 8 n"

text \<open>The text of an error of the system is a parameter.\<close>

definition secure_file_error_text :: "str \<Rightarrow> secure_file_error \<Rightarrow> str" where
  "secure_file_error_text os_text e =
     (case e of
        MissingParent p \<Rightarrow> ''path has no parent directory: '' @ path_text p
      | SymbolicLink p \<Rightarrow> ''refusing symbolic link: '' @ path_text p
      | NotRegularFile p \<Rightarrow> ''refusing non-regular file: '' @ path_text p
      | UnexpectedHardLinks p links \<Rightarrow>
          ''refusing file with '' @ dec_string links @ '' hard links: '' @ path_text p
      | InsecurePermissions p mode \<Rightarrow>
          ''refusing file with permissions '' @ oct_string (unat mode) @ ''; expected 600: '' @ path_text p
      | InsecureExternalPermissions p mode \<Rightarrow>
          ''refusing external cache with permissions '' @ oct_string (unat mode) @
          ''; owner read is required and group/other write or execute is forbidden: '' @ path_text p
      | UnexpectedOwner p owner expected \<Rightarrow>
          ''refusing external cache owned by uid '' @ dec_string (unat owner) @
          ''; expected directory owner uid '' @ dec_string (unat expected) @ '': '' @ path_text p
      | ConcurrentModification p \<Rightarrow> ''concurrent modification detected for '' @ path_text p
      | MissingFile p \<Rightarrow> ''expected an existing file at '' @ path_text p
      | InvalidSystemTime \<Rightarrow> ''system clock is before the Unix epoch''
      | FileIo p \<Rightarrow> ''I/O error for '' @ path_text p @ '': '' @ os_text
      | PersistFailed p \<Rightarrow> ''failed to persist temporary file to '' @ path_text p @ '': '' @ os_text)"

section \<open>The environment of the stores\<close>

record 'y store_env =
  se_os :: os
  se_os_text :: str
  se_url_parse :: url_parser
  se_debug_str :: "str \<Rightarrow> str"
  se_yaml :: "'y yaml_reader"
  se_providers_text :: "providers_document \<Rightarrow> str + str"
  se_cache_parse :: "str \<Rightarrow> str + model_cache_document"
  se_cache_text :: "model_cache_document \<Rightarrow> str + str"
  se_registry_parse :: "str \<Rightarrow> str + model_registry_cache"
  se_registry_text :: "model_registry_cache \<Rightarrow> str + str"

section \<open>Providers\<close>

datatype provider_store_error =
    ProviderFile secure_file_error
  | InvalidProviderDocument str
  | UnsupportedProviderSchema u32 u32
  | ProviderSerialization str

definition provider_store_error_text :: "'y store_env \<Rightarrow> provider_store_error \<Rightarrow> str" where
  "provider_store_error_text env e =
     (case e of
        ProviderFile e \<Rightarrow> secure_file_error_text (se_os_text env) e
      | InvalidProviderDocument m \<Rightarrow> ''invalid Provider YAML: '' @ m
      | UnsupportedProviderSchema actual expected \<Rightarrow>
          ''unsupported provider schema version '' @ dec_string (unat actual) @
          ''; expected '' @ dec_string (unat expected)
      | ProviderSerialization m \<Rightarrow> ''failed to serialize Provider YAML: '' @ m)"

definition decode_providers :: "'y store_env \<Rightarrow> str \<Rightarrow> provider_store_error + providers_document" where
  "decode_providers env bytes =
     and_then (map_err InvalidProviderDocument (from_utf8 bytes)) (\<lambda>yaml.
     map_err (\<lambda>e. case e of
          UnsupportedSchemaVersion actual expected \<Rightarrow> UnsupportedProviderSchema actual expected
        | _ \<Rightarrow> InvalidProviderDocument (core_error_text (se_debug_str env) e))
       (providers_from_yaml (se_url_parse env) (se_yaml env) yaml))"

definition provider_store_load ::
  "'y store_env \<Rightarrow> path \<Rightarrow> (provider_store_error, providers_document \<times> str) io" where
  "provider_store_load env p =
     act (act_map_err ProviderFile (load_file (se_os env) p)) (\<lambda>loaded.
     act (act_of (decode_providers env (lf_bytes loaded))) (\<lambda>document.
     act_ok (document, lf_sha256 loaded)))"

definition encode_providers :: "'y store_env \<Rightarrow> providers_document \<Rightarrow> provider_store_error + str" where
  "encode_providers env document =
     and_then (map_err (\<lambda>e. InvalidProviderDocument (core_error_text (se_debug_str env) e))
         (providers_validate (se_url_parse env) document)) (\<lambda>_.
     map_err ProviderSerialization (se_providers_text env document))"

definition provider_store_save ::
  "'y store_env \<Rightarrow> path \<Rightarrow> providers_document \<Rightarrow> str option \<Rightarrow> (provider_store_error, loaded_file) io" where
  "provider_store_save env p document expected =
     act (act_of (encode_providers env document)) (\<lambda>yaml.
     act_map_err ProviderFile (write_file (se_os env) p expected yaml))"

section \<open>The model cache\<close>

datatype cache_store_error = CacheFile secure_file_error | InvalidCacheDocument str | CacheSerialization str

definition decode_cache :: "'y store_env \<Rightarrow> str \<Rightarrow> cache_store_error + model_cache_document" where
  "decode_cache env bytes =
     and_then (map_err InvalidCacheDocument (from_utf8 bytes)) (\<lambda>yaml.
     map_err (\<lambda>e. InvalidCacheDocument (core_error_text (se_debug_str env) e))
       (model_cache_from_yaml (se_cache_parse env) yaml))"

definition cache_store_load :: "'y store_env \<Rightarrow> path \<Rightarrow> (cache_store_error, model_cache_document \<times> str) io" where
  "cache_store_load env p =
     act (act_map_err CacheFile (load_file (se_os env) p)) (\<lambda>loaded.
     act (act_of (decode_cache env (lf_bytes loaded))) (\<lambda>document.
     act_ok (document, lf_sha256 loaded)))"

definition encode_cache :: "'y store_env \<Rightarrow> model_cache_document \<Rightarrow> cache_store_error + str" where
  "encode_cache env document =
     and_then (map_err (\<lambda>e. InvalidCacheDocument (core_error_text (se_debug_str env) e))
         (model_cache_validate document)) (\<lambda>_.
     map_err CacheSerialization (se_cache_text env document))"

definition cache_store_save ::
  "'y store_env \<Rightarrow> path \<Rightarrow> model_cache_document \<Rightarrow> str option \<Rightarrow> (cache_store_error, loaded_file) io" where
  "cache_store_save env p document expected =
     act (act_of (encode_cache env document)) (\<lambda>yaml.
     act_map_err CacheFile (write_file (se_os env) p expected yaml))"

section \<open>The model registry\<close>

datatype registry_store_error =
  RegistryFile secure_file_error | InvalidRegistryDocument str | RegistrySerialization str

definition decode_registry :: "'y store_env \<Rightarrow> str \<Rightarrow> registry_store_error + model_registry_cache" where
  "decode_registry env bytes =
     and_then (map_err InvalidRegistryDocument (se_registry_parse env bytes)) (\<lambda>document.
     and_then (map_err (\<lambda>e. InvalidRegistryDocument (catalog_error_text (se_debug_str env) e))
         (registry_validate document)) (\<lambda>_.
     Inr document))"

definition registry_store_load ::
  "'y store_env \<Rightarrow> path \<Rightarrow> (registry_store_error, model_registry_cache \<times> str) io" where
  "registry_store_load env p =
     act (act_map_err RegistryFile (load_file (se_os env) p)) (\<lambda>loaded.
     act (act_of (decode_registry env (lf_bytes loaded))) (\<lambda>document.
     act_ok (document, lf_sha256 loaded)))"

definition encode_registry :: "'y store_env \<Rightarrow> model_registry_cache \<Rightarrow> registry_store_error + str" where
  "encode_registry env document =
     and_then (map_err (\<lambda>e. InvalidRegistryDocument (catalog_error_text (se_debug_str env) e))
         (registry_validate document)) (\<lambda>_.
     and_then (map_err RegistrySerialization (se_registry_text env document)) (\<lambda>bytes.
     Inr (bytes @ [LF])))"

definition registry_store_save ::
  "'y store_env \<Rightarrow> path \<Rightarrow> model_registry_cache \<Rightarrow> str option \<Rightarrow> (registry_store_error, loaded_file) io" where
  "registry_store_save env p document expected =
     act (act_of (encode_registry env document)) (\<lambda>bytes.
     act_map_err RegistryFile (write_file (se_os env) p expected bytes))"

section \<open>Writes as triples\<close>

text \<open>
  A file that only its store writes: no other process changes it or the temporary files beside it, whose names
  differ from its own.
\<close>

definition own_file :: "os \<Rightarrow> path \<Rightarrow> bool" where
  "own_file os p \<longleftrightarrow> exact os p \<and> p \<noteq> [] \<and> temps_private os (butlast p) \<and> (\<forall>k. os_temp os k \<noteq> last p) \<and>
     last p \<noteq> ''backups''"

lemma triple_forget:
  assumes "forgets m" "triple P m Q E" "\<And>w. P' w \<Longrightarrow> P (fresh w)"
    and "\<And>a w w0. Q a w \<Longrightarrow> Q' a (after w w0)" "\<And>e w w0. E e w \<Longrightarrow> E' e (after w w0)"
  shows "triple P' m Q' E'"
  unfolding triple_def
proof (intro allI impI)
  fix w assume "P' w"
  obtain r w' where run: "m (fresh w) = (r, w')" by fastforce
  show "case m w of (Inr a, t) \<Rightarrow> Q' a t | (Inl e, t) \<Rightarrow> E' e t"
    using assms(2) assms(3)[OF \<open>P' w\<close>] run forgetsD[OF assms(1) run] assms(4,5)
    by (cases r) (fastforce simp: triple_def)+
qed

lemma write_at:
  assumes "own_file os p"
  shows "triple (\<lambda>w. wd_fs w p = x) (write_with_policy os p expected bytes policy backup)
    (\<lambda>l w. wd_fs w p = Some (private_file os bytes) \<and> l = loaded_of os (private_file os bytes) \<and>
      expected = map_option (\<lambda>n. os_sha256 os (nd_bytes n)) x)
    (\<lambda>_ w. wd_fs w p = x \<or> wd_fs w p = Some (private_file os bytes))"
proof -
  obtain d name where p: "p = d @ [name]" using assms by (cases p rule: rev_cases) (auto simp: own_file_def)
  show ?thesis
    unfolding p
    by (rule triple_forget[OF forgets_write_with_policy write_value[where x = x]])
      (use assms in \<open>auto simp: own_file_def p file_held_def\<close>)
qed

text \<open>A write in the directory \<open>d\<close> does not touch these files.\<close>

definition beside :: "path \<Rightarrow> path \<Rightarrow> bool" where
  "beside p d \<longleftrightarrow> (\<forall>n. take n d \<noteq> p) \<and> p \<noteq> d @ [''backups''] \<and> (\<forall>x. p \<noteq> d @ [''backups'', x])"

lemma write_keeps_at:
  assumes "exact os q" "beside q d" "q \<noteq> d @ [name]" "\<forall>k. q \<noteq> d @ [os_temp os k]"
  shows "triple (\<lambda>w. wd_fs w q = y) (write_with_policy os (d @ [name]) expected bytes policy backup)
    (\<lambda>_ w. wd_fs w q = y) (\<lambda>_ w. wd_fs w q = y)"
  by (rule triple_forget[OF forgets_write_with_policy write_elsewhere[where Q = "\<lambda>z. z = y"]])
    (use assms in \<open>auto simp: exact_keeps file_held_def is_temp_def beside_def\<close>)

lemma remove_call_at:
  assumes "exact os p"
  shows "triple (\<lambda>w. wd_fs w p = x) (sys_remove os p) (\<lambda>_ w. wd_fs w p = None) (\<lambda>_ w. wd_fs w p = x)"
  unfolding sys_remove_def using assms
  by (intro triple_sys_call) (auto simp: exact_def split: option.splits if_splits)

lemma remove_call_keeps_at:
  assumes "exact os q" "q \<noteq> p"
  shows "triple (\<lambda>w. wd_fs w q = y) (sys_remove os p) (\<lambda>_ w. wd_fs w q = y) (\<lambda>_ w. wd_fs w q = y)"
  unfolding sys_remove_def using assms
  by (intro triple_sys_call) (auto simp: exact_def split: option.splits if_splits)

lemma external_cache_stable [triples]: "stable os P \<Longrightarrow> triple P (load_external_cache os q) (\<lambda>_. P) (\<lambda>_. P)"
  unfolding load_external_cache_def read_loaded_file_def
  by (intro triple_act[where M = "\<lambda>_. P"] triple_of triple_io_error triple_ok triples)

lemma remove_loaded_keeps_at:
  assumes "exact os q" "q \<noteq> p" "\<And>P. stable os P \<Longrightarrow> triple P (load_it p) (\<lambda>_. P) (\<lambda>_. P)"
  shows "triple (\<lambda>w. wd_fs w q = y) (remove_loaded os load_it p h) (\<lambda>_ w. wd_fs w q = y) (\<lambda>_ w. wd_fs w q = y)"
proof -
  have "stable os (\<lambda>w. wd_fs w q = y)" using assms(1) by (auto simp: exact_def)
  then show ?thesis
    unfolding remove_loaded_def using assms(2)
    by (intro triple_act[where M = "\<lambda>_ w. wd_fs w q = y"] triple_of triple_io_error triple_if triple_err triples
        assms(3) remove_call_keeps_at assms(1))
qed

lemma remove_external_at:
  assumes "exact os p"
  shows "triple (\<lambda>w. wd_fs w p = x) (remove_external os p h) (\<lambda>_ w. wd_fs w p = None)
    (\<lambda>_ w. wd_fs w p = x \<or> wd_fs w p = None)"
proof -
  have s: "stable os (\<lambda>w. wd_fs w p = z)" for z using assms by (auto simp: exact_def)
  have weak: "triple P m Q (\<lambda>_ w. wd_fs w p = x) \<Longrightarrow> triple P m Q (\<lambda>_ w. wd_fs w p = x \<or> wd_fs w p = None)"
    "triple P m Q (\<lambda>_ w. wd_fs w p = None) \<Longrightarrow> triple P m Q (\<lambda>_ w. wd_fs w p = x \<or> wd_fs w p = None)"
    for P Q and m :: "('e, 'a) io"
    by (erule triple_weak, simp)+
  show ?thesis
    unfolding remove_external_def remove_loaded_def
    apply (rule triple_act[where M = "\<lambda>_ w. wd_fs w p = x"], rule triple_of, assumption, simp)
    apply (rule triple_act[where M = "\<lambda>_ w. wd_fs w p = x"], rule weak(1), rule trusted_directory_stable, rule s)
    apply (rule triple_act[where M = "\<lambda>_ w. wd_fs w p = x"], rule weak(1), rule load_file_stable, rule s)
    apply (rule triple_if, rule triple_err, simp)
    apply (rule triple_act[where M = "\<lambda>_ w. wd_fs w p = None"], rule triple_io_error, rule weak(1), rule remove_call_at[OF assms])
    apply (rule triple_io_error, rule weak(2), rule reads_stable(3), rule s)
    done
qed

section \<open>The contract of a store\<close>

text \<open>
  Loading returns what the file holds and its digest. Saving writes the encoding of the document over the file
  that the caller expected; in every state on the way the file is the old one or the new one.
\<close>

locale document_store =
  fixes os :: os and store_path :: path
    and load_it :: "(world, 'e, 'd \<times> str) action"
    and save_it :: "'d \<Rightarrow> str option \<Rightarrow> (world, 'e, loaded_file) action"
    and decode :: "str \<Rightarrow> 'e + 'd" and encode :: "'d \<Rightarrow> 'e + str"
  assumes load_reads: "exact os store_path \<Longrightarrow> load_it w = (Inr (d, h), w') \<Longrightarrow>
      \<exists>n. wd_fs w store_path = Some n \<and> decode (nd_bytes n) = Inr d \<and> h = os_sha256 os (nd_bytes n)"
    and load_keeps: "exact os store_path \<Longrightarrow> wd_fs (snd (load_it w)) store_path = wd_fs w store_path"
    and save_writes: "own_file os store_path \<Longrightarrow> save_it d expected w = (Inr l, w') \<Longrightarrow>
      \<exists>bytes. encode d = Inr bytes \<and> wd_fs w' store_path = Some (private_file os bytes) \<and>
        lf_sha256 l = os_sha256 os bytes \<and> expected = map_option (\<lambda>n. os_sha256 os (nd_bytes n)) (wd_fs w store_path)"
    and save_states: "own_file os store_path \<Longrightarrow>
      file_held store_path (\<lambda>y. y = wd_fs w store_path \<or> (\<exists>bytes. encode d = Inr bytes \<and> y = Some (private_file os bytes)))
        (snd (save_it d expected (fresh w)))"
begin

lemma saved_is_loaded:
  assumes "own_file os store_path" "save_it d expected w = (Inr l, w1)" "load_it w1 = (Inr (d', h), w2)"
    and "\<forall>bytes. encode d = Inr bytes \<longrightarrow> decode bytes = Inr d"
  shows "d' = d \<and> h = lf_sha256 l"
proof -
  obtain bytes where "encode d = Inr bytes" "wd_fs w1 store_path = Some (private_file os bytes)" "lf_sha256 l = os_sha256 os bytes"
    using save_writes[OF assms(1,2)] by blast
  moreover obtain n where "wd_fs w1 store_path = Some n" "decode (nd_bytes n) = Inr d'" "h = os_sha256 os (nd_bytes n)"
    using load_reads[OF _ assms(3)] assms(1) by (auto simp: own_file_def)
  ultimately show ?thesis using assms(4) by (auto simp: private_file_def)
qed

lemma stale_save_fails:
  assumes "own_file os store_path" "expected \<noteq> map_option (\<lambda>n. os_sha256 os (nd_bytes n)) (wd_fs w store_path)"
  shows "\<exists>e w'. save_it d expected w = (Inl e, w')"
proof -
  obtain r w' where "save_it d expected w = (r, w')" by fastforce
  moreover have "r \<noteq> Inr l" for l
    using save_writes[OF assms(1), of d expected w l w'] assms(2) \<open>save_it d expected w = (r, w')\<close> by blast
  ultimately show ?thesis by (cases r) auto
qed

end

text \<open>What the three stores share.\<close>

lemma stored_load_reads:
  assumes "exact os p"
    and "act (act_map_err g (load_file os p)) (\<lambda>l. act (act_of (decode (lf_bytes l))) (\<lambda>d. act_ok (d, lf_sha256 l))) w = (Inr (d, h), w')"
  shows "\<exists>n. wd_fs w p = Some n \<and> decode (nd_bytes n) = Inr d \<and> h = os_sha256 os (nd_bytes n)"
proof -
  obtain l w1 where l: "load_file os p w = (Inr l, w1)" "decode (lf_bytes l) = Inr d" "h = lf_sha256 l"
    using assms(2) unfolding act_Inr act_of_Inr act_map_err_Inr by auto
  from triple_Inr[OF load_value[OF assms(1), of "wd_fs w p"] refl l(1)] show ?thesis
    using l(2,3) by (auto simp: loaded_of_def)
qed

lemma stored_load_keeps:
  assumes "exact os p"
  shows "wd_fs (snd (act (act_map_err g (load_file os p)) (\<lambda>l. act (act_of (decode (lf_bytes l))) (\<lambda>d. act_ok (d, lf_sha256 l))) w)) p = wd_fs w p"
proof (rule triple_snd[of "\<lambda>v. wd_fs v p = wd_fs w p"])
  show "triple (\<lambda>v. wd_fs v p = wd_fs w p)
    (act (act_map_err g (load_file os p)) (\<lambda>l. act (act_of (decode (lf_bytes l))) (\<lambda>d. act_ok (d, lf_sha256 l))))
    (\<lambda>_ v. wd_fs v p = wd_fs w p) (\<lambda>_ v. wd_fs v p = wd_fs w p)"
    by (rule triple_act[where M = "\<lambda>_ v. wd_fs v p = wd_fs w p"], rule triple_map_err,
        rule triple_conseq[OF load_value[OF assms, of "wd_fs w p"]], simp, simp, simp,
        rule triple_act[where M = "\<lambda>_ v. wd_fs v p = wd_fs w p"], rule triple_of, assumption, assumption, rule triple_ok)
qed simp

lemma stored_save_writes:
  assumes "own_file os p" "act (act_of r) (\<lambda>bytes. act_map_err g (write_with_policy os p expected bytes policy backup)) w = (Inr l, w')"
  shows "\<exists>bytes. r = Inr bytes \<and> wd_fs w' p = Some (private_file os bytes) \<and> lf_sha256 l = os_sha256 os bytes \<and>
    expected = map_option (\<lambda>n. os_sha256 os (nd_bytes n)) (wd_fs w p)"
proof -
  obtain bytes where r: "r = Inr bytes" and run: "write_with_policy os p expected bytes policy backup w = (Inr l, w')"
    using assms(2) unfolding act_of_Inr act_map_err_Inr by blast
  obtain d name where p: "p = d @ [name]" using assms(1) by (cases p rule: rev_cases) (auto simp: own_file_def)
  obtain w1 where run1: "write_with_policy os (d @ [name]) expected bytes policy backup (fresh w) = (Inr l, w1)" "w' = after w1 w"
    using run p forgetsD[OF forgets_write_with_policy, of os p expected bytes policy backup w]
    by (cases "write_with_policy os p expected bytes policy backup (fresh w)") auto
  have "file_held (d @ [name]) (\<lambda>y. y = wd_fs w p) (fresh w)" by (simp add: file_held_def p)
  from triple_Inr[OF write_value this run1(1)] show ?thesis
    using assms(1) run1(2) by (auto simp: own_file_def p r loaded_of_def private_file_def)
qed

lemma stored_save_states:
  assumes "own_file os p"
  shows "file_held p (\<lambda>y. y = wd_fs w p \<or> (\<exists>bytes. r = Inr bytes \<and> y = Some (private_file os bytes)))
    (snd (act (act_of r) (\<lambda>bytes. act_map_err g (write_with_policy os p expected bytes policy backup)) (fresh w)))"
proof (cases r)
  case (Inl e)
  then show ?thesis by (simp add: act_of_def act_def file_held_def)
next
  case (Inr bytes)
  let ?Q = "\<lambda>y. y = wd_fs w p \<or> y = Some (private_file os bytes)"
  obtain d name where p: "p = d @ [name]" using assms by (cases p rule: rev_cases) (auto simp: own_file_def)
  have "file_held p ?Q (snd (write_with_policy os (d @ [name]) expected bytes policy backup (fresh w)))"
    unfolding p by (rule triple_snd[OF write_held]) (use assms in \<open>auto simp: own_file_def p exact_def others_keep_def file_held_def\<close>)
  then show ?thesis using Inr p by (simp add: act_of_def act_def write_file_def)
qed

lemma stored_save_elsewhere:
  assumes "exact os p" "\<forall>n. take n d \<noteq> p" "p \<noteq> d @ [name]" "\<not> is_temp os d p"
    and "p \<noteq> d @ [''backups'']" "\<forall>x. p \<noteq> d @ [''backups'', x]"
  shows "file_held p (\<lambda>y. y = wd_fs w p)
    (snd (act (act_of r) (\<lambda>bytes. act_map_err g (write_with_policy os (d @ [name]) expected bytes policy backup)) (fresh w)))"
proof (cases r)
  case (Inl e)
  then show ?thesis by (simp add: act_def file_held_def)
next
  case (Inr bytes)
  have "file_held p (\<lambda>y. y = wd_fs w p) (snd (write_with_policy os (d @ [name]) expected bytes policy backup (fresh w)))"
    by (rule triple_snd[OF write_elsewhere]) (use assms in \<open>auto simp: exact_keeps file_held_def\<close>)
  then show ?thesis using Inr by (simp add: act_def write_file_def)
qed

lemma forgets_stored_save [forgets_intros]:
  "forgets (act (act_of r) (\<lambda>bytes. act_map_err g (write_with_policy os p expected bytes policy backup)))"
  by (intro forgets_intros)

text \<open>Conditions on the whole file system, kept in every state.\<close>

definition held :: "(fs \<Rightarrow> bool) \<Rightarrow> world \<Rightarrow> bool" where
  "held R w \<longleftrightarrow> R (wd_fs w) \<and> (\<forall>fs\<in>set (wd_seen w). R fs)"

lemma held_pair: "file_held p P w \<Longrightarrow> file_held q Q w \<Longrightarrow> (\<And>fs. P (fs p) \<Longrightarrow> Q (fs q) \<Longrightarrow> R fs) \<Longrightarrow> held R w"
  by (simp add: file_held_def held_def)

lemma held_phase: "forgets m \<Longrightarrow> held R w \<Longrightarrow> held R (snd (m (fresh w))) \<Longrightarrow> held R (snd (m w))"
  using forgetsD[of m w "fst (m (fresh w))" "snd (m (fresh w))"] by (auto simp: held_def)

lemmas store_laws = stored_load_reads stored_load_keeps stored_save_writes stored_save_states

interpretation provider_store: document_store
  "se_os env" p "provider_store_load env p" "provider_store_save env p" "decode_providers env" "encode_providers env"
  for env :: "'y store_env" and p
  unfolding provider_store_load_def provider_store_save_def write_file_def by unfold_locales (rule store_laws; assumption)+

interpretation cache_store: document_store
  "se_os env" p "cache_store_load env p" "cache_store_save env p" "decode_cache env" "encode_cache env"
  for env :: "'y store_env" and p
  unfolding cache_store_load_def cache_store_save_def write_file_def by unfold_locales (rule store_laws; assumption)+

interpretation registry_store: document_store
  "se_os env" p "registry_store_load env p" "registry_store_save env p" "decode_registry env" "encode_registry env"
  for env :: "'y store_env" and p
  unfolding registry_store_load_def registry_store_save_def write_file_def by unfold_locales (rule store_laws; assumption)+

end
