(* ===== verification/ControlPlane.thy ===== *)
theory ControlPlane
  imports Stores EgressState Credentials
begin

text \<open>
  The control plane of \<open>provider-x-app\<close>, \<open>control_plane.rs\<close>: the documents in memory, the changes that are
  prepared on copies of them, and the commits that write them. A commit is an action on the control plane and
  the world of the stores.
\<close>

section \<open>State\<close>

record app_paths =
  ap_root :: path
  ap_providers :: path
  ap_model_cache :: path
  ap_model_registry :: path
  ap_install_receipt :: path
  ap_ui_locale :: path
  ap_logs :: path

definition paths_for_home :: "path \<Rightarrow> app_paths" where
  "paths_for_home home =
     (let root = home @ [''Library'', ''Application Support'', ''dev.qiankun.provider-x''] in
      \<lparr>ap_root = root,
       ap_providers = root @ [''providers.yaml''],
       ap_model_cache = root @ [''cache'', ''models.yaml''],
       ap_model_registry = root @ [''cache'', ''model-registry.json''],
       ap_install_receipt = root @ [''install-receipt.json''],
       ap_ui_locale = root @ [''ui-locale''],
       ap_logs = root @ [''logs'']\<rparr>)"

datatype control_mutation =
    CommitRefresh provider_config refresh_preview
  | SaveProvider provider_config
  | SetProviderEnabled provider_id bool
  | RemoveProvider provider_id

record prepared_mutation =
  pm_providers :: providers_document
  pm_cache :: model_cache_document
  pm_provider_id :: provider_id
  pm_cache_changed :: bool

datatype control_error =
    ControlSecureFile secure_file_error
  | ControlProviderStore provider_store_error
  | ControlCacheStore cache_store_error
  | ControlCatalog catalog_error
  | ControlProvider provider_error
  | ProviderNotFound str
  | RefreshFingerprintMismatch str
  | ProviderSaveAfterCache str

record control_plane =
  cp_provider_path :: path
  cp_cache_path :: path
  cp_providers :: providers_document
  cp_provider_sha256 :: "str option"
  cp_cache :: model_cache_document
  cp_cache_sha256 :: "str option"

record 'y control_env =
  ce_stores :: "'y store_env"
  ce_codec :: codec

abbreviation ce_os :: "'y control_env \<Rightarrow> os" where
  "ce_os env \<equiv> se_os (ce_stores env)"

definition default_providers :: providers_document where
  "default_providers =
     \<lparr>schema_version = SCHEMA_VERSION,
      doc_listener = \<lparr>listener_host = ''127.0.0.1'', listener_port = 43119, request_body_limit_bytes = 32 * 1024 * 1024,
        max_connections = 128\<rparr>,
      doc_timeouts = \<lparr>request_body_ms = 30000, connect_ms = 10000, response_headers_ms = 30000,
        stream_idle_ms = 300000, websocket_idle_ms = 300000, shutdown_grace_ms = 30000\<rparr>,
      doc_codex = \<lparr>manage_user_config = True\<rparr>,
      doc_providers = []\<rparr>"

definition empty_cache :: model_cache_document where
  "empty_cache = \<lparr>cache_schema_version = 1, cache_providers = []\<rparr>"

section \<open>Loading\<close>

definition validate_documents ::
  "'y control_env \<Rightarrow> providers_document \<Rightarrow> model_cache_document \<Rightarrow> control_error + unit" where
  "validate_documents env providers cache =
     and_then (map_err ControlProvider (build_runtime_snapshot (se_url_parse (ce_stores env)) providers cache)) (\<lambda>_.
     and_then (map_err ControlCatalog (overlay_from_documents (se_url_parse (ce_stores env)) providers cache)) (\<lambda>_.
     Inr ()))"

definition load_providers_or_default ::
  "'y control_env \<Rightarrow> path \<Rightarrow> (control_error, providers_document \<times> str option) io" where
  "load_providers_or_default env p =
     act_match (provider_store_load (ce_stores env) p)
       (\<lambda>(document, sha256). act_ok (document, Some sha256))
       (\<lambda>e. case e of
            ProviderFile (MissingFile _) \<Rightarrow> act_ok (default_providers, None)
          | _ \<Rightarrow> act_err (ControlProviderStore e))"

definition load_cache_or_default ::
  "'y control_env \<Rightarrow> path \<Rightarrow> (control_error, model_cache_document \<times> str option) io" where
  "load_cache_or_default env p =
     act_match (cache_store_load (ce_stores env) p)
       (\<lambda>(document, sha256). act_ok (document, Some sha256))
       (\<lambda>e. case e of
            CacheFile (MissingFile _) \<Rightarrow> act_ok (empty_cache, None)
          | _ \<Rightarrow> act_err (ControlCacheStore e))"

definition control_load :: "'y control_env \<Rightarrow> app_paths \<Rightarrow> (control_error, control_plane) io" where
  "control_load env paths =
     act (load_providers_or_default env (ap_providers paths)) (\<lambda>(providers, provider_sha256).
     act (load_cache_or_default env (ap_model_cache paths)) (\<lambda>(cache, cache_sha256).
     act (act_of (validate_documents env providers cache)) (\<lambda>_.
     act_ok \<lparr>cp_provider_path = ap_providers paths, cp_cache_path = ap_model_cache paths,
             cp_providers = providers, cp_provider_sha256 = provider_sha256,
             cp_cache = cache, cp_cache_sha256 = cache_sha256\<rparr>)))"

section \<open>Preparing a change\<close>

definition upsert_provider :: "providers_document \<Rightarrow> provider_config \<Rightarrow> providers_document" where
  "upsert_provider doc p =
     doc\<lparr>doc_providers :=
       (case update_first (\<lambda>q. prov_id q = prov_id p) (\<lambda>_. p) (doc_providers doc) of
          Some ps \<Rightarrow> ps
        | None \<Rightarrow> sort_key prov_id (doc_providers doc @ [p]))\<rparr>"

text \<open>The copies a change is prepared on, the provider it names and whether it changes the cache.\<close>

definition mutate ::
  "'y control_env \<Rightarrow> control_plane \<Rightarrow> control_mutation \<Rightarrow> control_error + prepared_mutation" where
  "mutate env cp mutation =
     (case mutation of
        CommitRefresh p preview \<Rightarrow>
          and_then (map_err ControlProvider (profile_routing_fingerprint (ce_codec env) (os_sha256 (ce_os env))
              (resolve_provider (os_sha256 (ce_os env)) p))) (\<lambda>fingerprint.
          if config_fingerprint (preview_cache preview) \<noteq> fingerprint
          then Inl (RefreshFingerprintMismatch (provider_str (prov_id p)))
          else
            (let p = p\<lparr>prov_models := cache_models (preview_cache preview)\<rparr> in
             Inr \<lparr>pm_providers = upsert_provider (cp_providers cp) p,
                  pm_cache = (cp_cache cp)\<lparr>cache_providers :=
                    bt_insert (prov_id p) (preview_cache preview) (cache_providers (cp_cache cp))\<rparr>,
                  pm_provider_id = prov_id p, pm_cache_changed = True\<rparr>))
      | SaveProvider p \<Rightarrow>
          Inr \<lparr>pm_providers = upsert_provider (cp_providers cp) p, pm_cache = cp_cache cp,
               pm_provider_id = prov_id p, pm_cache_changed = False\<rparr>
      | SetProviderEnabled i enabled \<Rightarrow>
          and_then (ok_or (ProviderNotFound (provider_str i))
              (update_first (\<lambda>q. prov_id q = i) (\<lambda>q. q\<lparr>prov_enabled := enabled\<rparr>) (doc_providers (cp_providers cp)))) (\<lambda>ps.
          Inr \<lparr>pm_providers = (cp_providers cp)\<lparr>doc_providers := ps\<rparr>, pm_cache = cp_cache cp,
               pm_provider_id = i, pm_cache_changed = False\<rparr>)
      | RemoveProvider i \<Rightarrow>
          if \<not> list_ex (\<lambda>q. prov_id q = i) (doc_providers (cp_providers cp))
          then Inl (ProviderNotFound (provider_str i))
          else Inr \<lparr>pm_providers = (cp_providers cp)\<lparr>doc_providers :=
                      filter (\<lambda>q. prov_id q \<noteq> i) (doc_providers (cp_providers cp))\<rparr>,
                    pm_cache = cp_cache cp, pm_provider_id = i, pm_cache_changed = False\<rparr>)"

definition prepare_mutation ::
  "'y control_env \<Rightarrow> control_plane \<Rightarrow> control_mutation \<Rightarrow> control_error + prepared_mutation" where
  "prepare_mutation env cp mutation =
     and_then (mutate env cp mutation) (\<lambda>prepared.
     and_then (validate_documents env (pm_providers prepared) (pm_cache prepared)) (\<lambda>_.
     Inr prepared))"

section \<open>Committing it\<close>

definition paths_root :: "control_plane \<Rightarrow> path" where
  "paths_root cp = butlast (cp_provider_path cp)"

definition adopt_cache :: "prepared_mutation \<Rightarrow> loaded_file option \<Rightarrow> control_plane \<Rightarrow> control_plane" where
  "adopt_cache prepared saved_cache cp =
     (case saved_cache of
        None \<Rightarrow> cp\<lparr>cp_cache := pm_cache prepared\<rparr>
      | Some saved \<Rightarrow> cp\<lparr>cp_cache := pm_cache prepared, cp_cache_sha256 := Some (lf_sha256 saved)\<rparr>)"

text \<open>The files of a commit, in the order they are written.\<close>

definition save_cache ::
  "'y control_env \<Rightarrow> control_plane \<Rightarrow> prepared_mutation \<Rightarrow> (control_error, loaded_file option) io" where
  "save_cache env cp prepared =
     act (act_map_err ControlSecureFile (ensure_private_directory (ce_os env) (paths_root cp))) (\<lambda>_.
     if pm_cache_changed prepared
     then act (act_map_err ControlCacheStore
            (cache_store_save (ce_stores env) (cp_cache_path cp) (pm_cache prepared) (cp_cache_sha256 cp)))
            (\<lambda>saved. act_ok (Some saved))
     else act_ok None)"

definition commit_mutation ::
  "'y control_env \<Rightarrow> prepared_mutation \<Rightarrow> (control_plane \<times> world, control_error, provider_id) action" where
  "commit_mutation env prepared = (\<lambda>(cp, w).
     case save_cache env cp prepared w of
       (Inl e, w) \<Rightarrow> (Inl e, (cp, w))
     | (Inr saved_cache, w) \<Rightarrow>
         (case provider_store_save (ce_stores env) (cp_provider_path cp) (pm_providers prepared) (cp_provider_sha256 cp) w of
            (Inl e, w) \<Rightarrow>
              (case saved_cache of
                 Some _ \<Rightarrow>
                   (Inl (ProviderSaveAfterCache (provider_store_error_text (ce_stores env) e)),
                    (adopt_cache prepared saved_cache cp, w))
               | None \<Rightarrow> (Inl (ControlProviderStore e), (cp, w)))
          | (Inr saved, w) \<Rightarrow>
              (Inr (pm_provider_id prepared),
               (adopt_cache prepared saved_cache
                  (cp\<lparr>cp_providers := pm_providers prepared, cp_provider_sha256 := Some (lf_sha256 saved)\<rparr>), w))))"

definition mutate_and_commit ::
  "'y control_env \<Rightarrow> control_mutation \<Rightarrow> (control_plane \<times> world, control_error, provider_id) action" where
  "mutate_and_commit env mutation = (\<lambda>(cp, w).
     act (act_of (prepare_mutation env cp mutation)) (commit_mutation env) (cp, w))"

definition commit_refresh ::
  "'y control_env \<Rightarrow> provider_config \<Rightarrow> refresh_preview \<Rightarrow> (control_plane \<times> world, control_error, provider_id) action" where
  "commit_refresh env p preview = mutate_and_commit env (CommitRefresh p preview)"

definition save_provider ::
  "'y control_env \<Rightarrow> provider_config \<Rightarrow> (control_plane \<times> world, control_error, provider_id) action" where
  "save_provider env p = mutate_and_commit env (SaveProvider p)"

definition set_provider_enabled ::
  "'y control_env \<Rightarrow> provider_id \<Rightarrow> bool \<Rightarrow> (control_plane \<times> world, control_error, unit) action" where
  "set_provider_enabled env i enabled =
     act (mutate_and_commit env (SetProviderEnabled i enabled)) (\<lambda>_. act_ok ())"

definition remove_provider ::
  "'y control_env \<Rightarrow> provider_id \<Rightarrow> (control_plane \<times> world, control_error, unit) action" where
  "remove_provider env i = act (mutate_and_commit env (RemoveProvider i)) (\<lambda>_. act_ok ())"

section \<open>What a commit leaves in the files\<close>

text \<open>The files of the two documents in the directory of the application, which no other process writes.\<close>

definition own_files :: "'y control_env \<Rightarrow> path \<Rightarrow> control_plane \<Rightarrow> bool" where
  "own_files env root cp \<longleftrightarrow>
     cp_provider_path cp = root @ [''providers.yaml''] \<and> cp_cache_path cp = root @ [''cache'', ''models.yaml''] \<and>
     own_file (ce_os env) (root @ [''providers.yaml'']) \<and> own_file (ce_os env) (root @ [''cache'', ''models.yaml''])"

definition new_providers :: "'y control_env \<Rightarrow> prepared_mutation \<Rightarrow> inode option \<Rightarrow> bool" where
  "new_providers env prepared y \<longleftrightarrow>
     (\<exists>bytes. encode_providers (ce_stores env) (pm_providers prepared) = Inr bytes \<and> y = Some (private_file (ce_os env) bytes))"

definition new_cache :: "'y control_env \<Rightarrow> prepared_mutation \<Rightarrow> inode option \<Rightarrow> bool" where
  "new_cache env prepared y \<longleftrightarrow>
     (\<exists>bytes. encode_cache (ce_stores env) (pm_cache prepared) = Inr bytes \<and> y = Some (private_file (ce_os env) bytes))"

definition digest_of :: "'y control_env \<Rightarrow> inode option \<Rightarrow> str option" where
  "digest_of env y = map_option (\<lambda>n. os_sha256 (ce_os env) (nd_bytes n)) y"

lemma save_cache_forgets: "forgets (save_cache env cp prepared)"
  unfolding save_cache_def cache_store_save_def write_file_def by (intro forgets_intros)

lemma snd_act_ok [simp]: "snd (act m (\<lambda>a. act_ok (g a)) w) = snd (m w)"
  by (cases "m w"; cases "fst (m w)") (simp_all add: act_def)

lemma own_paths:
  assumes "own_files env root cp"
  shows "butlast (cp_provider_path cp) = root"
    and "\<forall>n. take n root \<noteq> cp_provider_path cp" "\<forall>n. take n root \<noteq> cp_cache_path cp"
    and "\<forall>n. take n (root @ [''cache'']) \<noteq> cp_provider_path cp"
    and "\<not> is_temp os (root @ [''cache'']) (cp_provider_path cp)" "\<not> is_temp os root (cp_cache_path cp)"
proof -
  have paths: "cp_provider_path cp = root @ [''providers.yaml'']" "cp_cache_path cp = root @ [''cache'', ''models.yaml'']"
    using assms by (simp_all add: own_files_def)
  have short: "take n root \<noteq> root @ x # xs" for n x and xs :: path
  proof
    assume "take n root = root @ x # xs"
    then have "length (take n root) = length (root @ x # xs)" by simp
    then show False by simp
  qed
  show "butlast (cp_provider_path cp) = root" by (simp add: paths butlast_append)
  show "\<forall>n. take n root \<noteq> cp_provider_path cp" "\<forall>n. take n root \<noteq> cp_cache_path cp"
    using short by (simp_all add: paths)
  show "\<forall>n. take n (root @ [''cache'']) \<noteq> cp_provider_path cp"
    using short by (auto simp: paths take_Cons' split: if_splits)
  show "\<not> is_temp os (root @ [''cache'']) (cp_provider_path cp)" "\<not> is_temp os root (cp_cache_path cp)"
    by (auto simp: is_temp_def paths dest: arg_cong[of _ _ length])
qed

lemma directory_keeps:
  assumes "own_files env root cp" "p = cp_provider_path cp \<or> p = cp_cache_path cp"
  shows "file_held p (\<lambda>y. y = wd_fs w p)
    (snd (act_map_err ControlSecureFile (ensure_private_directory (ce_os env) (paths_root cp)) (fresh w)))"
proof -
  have "\<forall>n. take n (paths_root cp) \<noteq> p" "exact (ce_os env) p"
    using own_paths(1-3)[OF assms(1)] assms by (auto simp: paths_root_def own_files_def own_file_def)
  then show ?thesis
    by (intro triple_snd[OF triple_map_err[OF private_directory_held]] exact_keeps) (simp_all add: file_held_def)
qed

lemma cache_save_keeps_providers:
  assumes "own_files env root cp"
  shows "file_held (cp_provider_path cp) (\<lambda>y. y = wd_fs w (cp_provider_path cp))
    (snd (cache_store_save (ce_stores env) (cp_cache_path cp) document expected (fresh w)))"
proof -
  have paths: "cp_cache_path cp = (root @ [''cache'']) @ [''models.yaml'']" "exact (ce_os env) (cp_provider_path cp)"
    "cp_provider_path cp = root @ [''providers.yaml'']"
    using assms by (simp_all add: own_files_def own_file_def)
  show ?thesis
    unfolding cache_store_save_def write_file_def paths(1)
    by (rule stored_save_elsewhere) (use paths own_paths(4,5)[OF assms] in auto)
qed

lemma provider_save_keeps_cache:
  assumes "own_files env root cp"
  shows "file_held (cp_cache_path cp) (\<lambda>y. y = wd_fs w (cp_cache_path cp))
    (snd (provider_store_save (ce_stores env) (cp_provider_path cp) document expected (fresh w)))"
proof -
  have paths: "cp_cache_path cp = root @ [''cache'', ''models.yaml'']" "exact (ce_os env) (cp_cache_path cp)"
    "cp_provider_path cp = root @ [''providers.yaml'']"
    using assms by (simp_all add: own_files_def own_file_def)
  show ?thesis
    unfolding provider_store_save_def write_file_def paths(3)
    by (rule stored_save_elsewhere) (use paths own_paths(3,6)[OF assms] in auto)
qed

lemma save_cache_states:
  assumes "own_files env root cp"
  defines "pp \<equiv> cp_provider_path cp" and "pc \<equiv> cp_cache_path cp"
  shows "held (\<lambda>fs. fs pp = wd_fs w pp \<and>
      (fs pc = wd_fs w pc \<or> pm_cache_changed prepared \<and> new_cache env prepared (fs pc)))
    (snd (save_cache env cp prepared (fresh w)))" (is "held ?R _")
proof -
  let ?dir = "act_map_err ControlSecureFile (ensure_private_directory (ce_os env) (paths_root cp))"
  obtain r w1 where dir: "?dir (fresh w) = (r, w1)" by fastforce
  have "file_held pp (\<lambda>y. y = wd_fs w pp) w1" and "file_held pc (\<lambda>y. y = wd_fs w pc) w1"
    using directory_keeps[OF assms(1), of _ w] dir by (auto simp: pp_def pc_def)
  then have w1: "held ?R w1" "wd_fs w1 pp = wd_fs w pp" "wd_fs w1 pc = wd_fs w pc"
    by (auto simp: file_held_def held_def)
  show ?thesis
  proof (cases r)
    case (Inl e)
    then show ?thesis using w1(1) dir by (simp add: save_cache_def)
  next
    case (Inr u)
    let ?save = "cache_store_save (ce_stores env) (cp_cache_path cp) (pm_cache prepared) (cp_cache_sha256 cp)"
    have own: "own_file (ce_os env) (cp_cache_path cp)" using assms(1) by (simp add: own_files_def)
    have "held ?R (snd (?save w1))" if "pm_cache_changed prepared"
    proof (rule held_phase[OF _ w1(1)])
      show "forgets ?save" unfolding cache_store_save_def write_file_def by (intro forgets_intros)
      show "held ?R (snd (?save (fresh w1)))"
        by (rule held_pair[OF cache_save_keeps_providers[OF assms(1)] cache_store.save_states[OF own]])
          (use that w1 in \<open>auto simp: pp_def pc_def new_cache_def\<close>)
    qed
    then show ?thesis using w1(1) dir Inr by (cases "pm_cache_changed prepared") (simp_all add: save_cache_def)
  qed
qed

lemma save_cache_result:
  assumes "own_files env root cp" "save_cache env cp prepared w = (Inr saved, w')"
  defines "pp \<equiv> cp_provider_path cp" and "pc \<equiv> cp_cache_path cp"
  shows "wd_fs w' pp = wd_fs w pp \<and>
    (case saved of
       None \<Rightarrow> \<not> pm_cache_changed prepared \<and> wd_fs w' pc = wd_fs w pc
     | Some l \<Rightarrow> pm_cache_changed prepared \<and> new_cache env prepared (wd_fs w' pc) \<and>
         digest_of env (wd_fs w' pc) = Some (lf_sha256 l) \<and> cp_cache_sha256 cp = digest_of env (wd_fs w pc))"
proof -
  let ?dir = "act_map_err ControlSecureFile (ensure_private_directory (ce_os env) (paths_root cp))"
  have own: "own_file (ce_os env) (cp_cache_path cp)" using assms(1) by (simp add: own_files_def)
  have "wd_fs (snd (save_cache env cp prepared w)) pp = wd_fs w pp"
    using forgetsD[OF save_cache_forgets, of env cp prepared w] save_cache_states[OF assms(1), of w prepared]
    by (cases "save_cache env cp prepared (fresh w)") (simp add: held_def pp_def)
  moreover obtain w1 where dir: "?dir w = (Inr (), w1)"
    and rest: "(if pm_cache_changed prepared
       then act (act_map_err ControlCacheStore
            (cache_store_save (ce_stores env) (cp_cache_path cp) (pm_cache prepared) (cp_cache_sha256 cp)))
            (\<lambda>saved. act_ok (Some saved))
       else act_ok None) w1 = (Inr saved, w')"
    using assms(2) unfolding save_cache_def act_Inr by auto
  moreover have "wd_fs w1 pc = wd_fs w pc"
  proof -
    have "forgets ?dir" by (intro forgets_intros)
    then show ?thesis
      using dir directory_keeps[OF assms(1), of "cp_cache_path cp" w] forgetsD[of ?dir w]
      by (cases "?dir (fresh w)") (auto simp: file_held_def pc_def)
  qed
  ultimately show ?thesis
    using assms(2) cache_store.save_writes[OF own, of "pm_cache prepared" "cp_cache_sha256 cp" w1]
    by (auto simp: act_Inr act_map_err_Inr new_cache_def digest_of_def pc_def private_file_def split: if_splits)
qed

section \<open>Properties\<close>

text \<open>What the two files hold: the old documents, the new cache with the old providers, or the new documents.\<close>

definition commit_state :: "'y control_env \<Rightarrow> control_plane \<Rightarrow> prepared_mutation \<Rightarrow> fs \<Rightarrow> fs \<Rightarrow> bool" where
  "commit_state env cp prepared old fs \<longleftrightarrow>
     (let pp = cp_provider_path cp; pc = cp_cache_path cp in
      (fs pp = old pp \<or> new_providers env prepared (fs pp) \<and> (pm_cache_changed prepared \<longrightarrow> new_cache env prepared (fs pc))) \<and>
      (fs pc = old pc \<or> pm_cache_changed prepared \<and> new_cache env prepared (fs pc)))"

lemma commit_cases:
  assumes "commit_mutation env prepared (cp, w) = (r, (cp', w'))"
  obtains e where "save_cache env cp prepared w = (Inl e, w')" "r = Inl e" "cp' = cp"
  | saved w1 e where "save_cache env cp prepared w = (Inr saved, w1)"
      "provider_store_save (ce_stores env) (cp_provider_path cp) (pm_providers prepared) (cp_provider_sha256 cp) w1 = (Inl e, w')"
      "\<forall>i. r \<noteq> Inr i" "cp' = (if saved = None then cp else adopt_cache prepared saved cp)"
  | saved w1 l where "save_cache env cp prepared w = (Inr saved, w1)"
      "provider_store_save (ce_stores env) (cp_provider_path cp) (pm_providers prepared) (cp_provider_sha256 cp) w1 = (Inr l, w')"
      "r = Inr (pm_provider_id prepared)"
      "cp' = adopt_cache prepared saved (cp\<lparr>cp_providers := pm_providers prepared, cp_provider_sha256 := Some (lf_sha256 l)\<rparr>)"
  using assms unfolding commit_mutation_def prod.case
  by (auto split: prod.splits sum.splits option.splits)

lemma commit_states:
  assumes "own_files env root cp" "wd_seen w = []" "commit_mutation env prepared (cp, w) = (r, (cp', w'))"
  shows "held (commit_state env cp prepared (wd_fs w)) w'"
proof -
  have own: "own_file (ce_os env) (cp_provider_path cp)" using assms(1) by (simp add: own_files_def)
  have fresh: "fresh w = w" using assms(2) by (simp add: fresh_def)
  define R where "R = commit_state env cp prepared (wd_fs w)"
  have first: "held R w1" if "save_cache env cp prepared w = (x, w1)" for x w1
    using save_cache_states[OF assms(1), of w prepared] that fresh
    by (auto simp: held_def R_def commit_state_def Let_def)
  let ?save = "provider_store_save (ce_stores env) (cp_provider_path cp) (pm_providers prepared) (cp_provider_sha256 cp)"
  have second: "held R (snd (?save w1))" if saved: "save_cache env cp prepared w = (Inr saved, w1)" for saved w1
  proof (rule held_phase)
    show "forgets ?save" unfolding provider_store_save_def write_file_def by (intro forgets_intros)
    show "held R w1" by (rule first[OF saved])
    have now: "wd_fs w1 (cp_provider_path cp) = wd_fs w (cp_provider_path cp)"
      "if pm_cache_changed prepared then new_cache env prepared (wd_fs w1 (cp_cache_path cp))
       else wd_fs w1 (cp_cache_path cp) = wd_fs w (cp_cache_path cp)"
      using save_cache_result[OF assms(1) saved] by (auto split: option.splits)
    show "held R (snd (?save (fresh w1)))"
      by (rule held_pair[OF provider_store.save_states[OF own] provider_save_keeps_cache[OF assms(1)]])
        (use now in \<open>auto simp: R_def commit_state_def new_providers_def Let_def split: if_splits\<close>)
  qed
  show ?thesis
    using assms(3)
  proof (cases rule: commit_cases)
    case 1
    then show ?thesis using first by (auto simp: R_def)
  next
    case (2 saved w1 e)
    then show ?thesis using second[of saved w1] by (simp add: R_def)
  next
    case (3 saved w1 l)
    then show ?thesis using second[of saved w1] by (simp add: R_def)
  qed
qed

lemma commit_success:
  assumes "own_files env root cp" "commit_mutation env prepared (cp, w) = (Inr i, (cp', w'))"
  shows "i = pm_provider_id prepared \<and> cp_providers cp' = pm_providers prepared \<and> cp_cache cp' = pm_cache prepared \<and>
    new_providers env prepared (wd_fs w' (cp_provider_path cp)) \<and>
    (if pm_cache_changed prepared then new_cache env prepared (wd_fs w' (cp_cache_path cp))
     else wd_fs w' (cp_cache_path cp) = wd_fs w (cp_cache_path cp)) \<and>
    cp_provider_sha256 cp' = digest_of env (wd_fs w' (cp_provider_path cp)) \<and>
    cp_provider_sha256 cp = digest_of env (wd_fs w (cp_provider_path cp)) \<and>
    (cp_cache_sha256 cp = digest_of env (wd_fs w (cp_cache_path cp)) \<longrightarrow>
     cp_cache_sha256 cp' = digest_of env (wd_fs w' (cp_cache_path cp)))"
  using assms(2)
proof (cases rule: commit_cases)
  case (3 saved w1 l)
  let ?save = "provider_store_save (ce_stores env) (cp_provider_path cp) (pm_providers prepared) (cp_provider_sha256 cp)"
  have own: "own_file (ce_os env) (cp_provider_path cp)" using assms(1) by (simp add: own_files_def)
  have "forgets ?save" unfolding provider_store_save_def write_file_def by (intro forgets_intros)
  then have "wd_fs w' (cp_cache_path cp) = wd_fs w1 (cp_cache_path cp)"
    using 3(2) provider_save_keeps_cache[OF assms(1), of w1 "pm_providers prepared" "cp_provider_sha256 cp"] forgetsD[of ?save w1]
    by (cases "?save (fresh w1)") (auto simp: file_held_def)
  moreover obtain bytes where "encode_providers (ce_stores env) (pm_providers prepared) = Inr bytes"
      "wd_fs w' (cp_provider_path cp) = Some (private_file (ce_os env) bytes)" "lf_sha256 l = os_sha256 (ce_os env) bytes"
      "cp_provider_sha256 cp = digest_of env (wd_fs w1 (cp_provider_path cp))"
    using provider_store.save_writes[OF own 3(2)] by (auto simp: digest_of_def)
  ultimately show ?thesis
    using save_cache_result[OF assms(1) 3(1)] 3(3,4)
    by (auto simp: adopt_cache_def new_providers_def digest_of_def private_file_def split: option.splits)
qed auto

text \<open>The documents that the files stand for; a missing file stands for the defaults.\<close>

definition stored_providers :: "'y control_env \<Rightarrow> inode option \<Rightarrow> providers_document \<Rightarrow> bool" where
  "stored_providers env y doc \<longleftrightarrow>
     (case y of
        None \<Rightarrow> doc = default_providers
      | Some n \<Rightarrow> decode_providers (ce_stores env) (nd_bytes n) = Inr doc)"

definition stored_cache :: "'y control_env \<Rightarrow> inode option \<Rightarrow> model_cache_document \<Rightarrow> bool" where
  "stored_cache env y doc \<longleftrightarrow>
     (case y of
        None \<Rightarrow> doc = empty_cache
      | Some n \<Rightarrow> decode_cache (ce_stores env) (nd_bytes n) = Inr doc)"

definition synced :: "'y control_env \<Rightarrow> control_plane \<Rightarrow> fs \<Rightarrow> bool" where
  "synced env cp fs \<longleftrightarrow>
     stored_providers env (fs (cp_provider_path cp)) (cp_providers cp) \<and>
     cp_provider_sha256 cp = digest_of env (fs (cp_provider_path cp)) \<and>
     stored_cache env (fs (cp_cache_path cp)) (cp_cache cp) \<and>
     cp_cache_sha256 cp = digest_of env (fs (cp_cache_path cp))"

text \<open>The library reads back the documents it has written.\<close>

definition yaml_reads_back :: "'y control_env \<Rightarrow> prepared_mutation \<Rightarrow> bool" where
  "yaml_reads_back env prepared \<longleftrightarrow>
     (\<forall>bytes. encode_providers (ce_stores env) (pm_providers prepared) = Inr bytes \<longrightarrow>
        decode_providers (ce_stores env) bytes = Inr (pm_providers prepared)) \<and>
     (\<forall>bytes. encode_cache (ce_stores env) (pm_cache prepared) = Inr bytes \<longrightarrow>
        decode_cache (ce_stores env) bytes = Inr (pm_cache prepared))"

lemma load_providers_part:
  assumes "exact (ce_os env) p" "load_providers_or_default env p w = (Inr (doc, h), w')"
  shows "stored_providers env (wd_fs w p) doc \<and> h = digest_of env (wd_fs w p)"
proof (cases "provider_store_load (ce_stores env) p w")
  case (Pair r w1)
  show ?thesis
  proof (cases r)
    case (Inr dh)
    then show ?thesis
      using assms(2) Pair provider_store.load_reads[OF assms(1), of w "fst dh" "snd dh" w1]
      by (auto simp: act_match_def load_providers_or_default_def stored_providers_def digest_of_def split: prod.splits)
  next
    case (Inl e)
    then obtain q where e: "e = ProviderFile (MissingFile q)" "doc = default_providers" "h = None"
      using assms(2) Pair by (auto simp: act_match_def load_providers_or_default_def split: provider_store_error.splits secure_file_error.splits)
    then obtain w2 where "load_file (ce_os env) p w = (Inl (MissingFile q), w2)"
      using Pair Inl
      by (auto simp: provider_store_load_def act_apply act_map_err_def map_err_def decode_providers_def
          split: prod.splits sum.splits core_error.splits)
    then have "wd_fs w p = None"
      using triple_Inl[OF load_missing[OF assms(1), of "wd_fs w p"] refl] by blast
    then show ?thesis using e by (simp add: stored_providers_def digest_of_def)
  qed
qed

lemma load_cache_part:
  assumes "exact (ce_os env) p" "load_cache_or_default env p w = (Inr (doc, h), w')"
  shows "stored_cache env (wd_fs w p) doc \<and> h = digest_of env (wd_fs w p)"
proof (cases "cache_store_load (ce_stores env) p w")
  case (Pair r w1)
  show ?thesis
  proof (cases r)
    case (Inr dh)
    then show ?thesis
      using assms(2) Pair cache_store.load_reads[OF assms(1), of w "fst dh" "snd dh" w1]
      by (auto simp: act_match_def load_cache_or_default_def stored_cache_def digest_of_def split: prod.splits)
  next
    case (Inl e)
    then obtain q where e: "e = CacheFile (MissingFile q)" "doc = empty_cache" "h = None"
      using assms(2) Pair by (auto simp: act_match_def load_cache_or_default_def split: cache_store_error.splits secure_file_error.splits)
    then obtain w2 where "load_file (ce_os env) p w = (Inl (MissingFile q), w2)"
      using Pair Inl
      by (auto simp: cache_store_load_def act_apply act_map_err_def map_err_def decode_cache_def
          split: prod.splits sum.splits core_error.splits)
    then have "wd_fs w p = None"
      using triple_Inl[OF load_missing[OF assms(1), of "wd_fs w p"] refl] by blast
    then show ?thesis using e by (simp add: stored_cache_def digest_of_def)
  qed
qed

lemma load_providers_keeps:
  assumes "exact (ce_os env) q"
  shows "wd_fs (snd (load_providers_or_default env p w)) q = wd_fs w q"
proof -
  let ?P = "\<lambda>v. wd_fs v q = wd_fs w q"
  have "stable (ce_os env) ?P" using assms by (auto simp: exact_def)
  then have "triple ?P (provider_store_load (ce_stores env) p) (\<lambda>_. ?P) (\<lambda>_. ?P)"
    unfolding provider_store_load_def
    by (intro triple_act[where M = "\<lambda>_. ?P"] triple_map_err triple_of triple_ok load_file_stable)
  then have "triple ?P (load_providers_or_default env p) (\<lambda>_. ?P) (\<lambda>_. ?P)"
    unfolding load_providers_or_default_def
    by (rule triple_match)
      (auto simp: triple_def split: provider_store_error.splits secure_file_error.splits)
  then show ?thesis by (rule triple_snd) simp
qed

lemma control_load_Inr:
  assumes "own_files env root cp0" "cp_provider_path cp0 = ap_providers paths" "cp_cache_path cp0 = ap_model_cache paths"
    and "control_load env paths w = (Inr cp, w')"
  shows "synced env cp (wd_fs w) \<and> own_files env root cp \<and> validate_documents env (cp_providers cp) (cp_cache cp) = Inr () \<and>
    cp_provider_path cp = ap_providers paths \<and> cp_cache_path cp = ap_model_cache paths"
proof -
  have exact: "exact (ce_os env) (ap_providers paths)" "exact (ce_os env) (ap_model_cache paths)"
    using assms(1-3) by (simp_all add: own_files_def own_file_def)
  obtain providers h w1 cache h2 w2 where
    p: "load_providers_or_default env (ap_providers paths) w = (Inr (providers, h), w1)"
    and c: "load_cache_or_default env (ap_model_cache paths) w1 = (Inr (cache, h2), w2)"
    and v: "validate_documents env providers cache = Inr ()"
    and cp: "cp = \<lparr>cp_provider_path = ap_providers paths, cp_cache_path = ap_model_cache paths,
             cp_providers = providers, cp_provider_sha256 = h, cp_cache = cache, cp_cache_sha256 = h2\<rparr>"
    using assms(4) unfolding control_load_def by (fastforce simp: act_Inr)
  have "wd_fs w1 (ap_model_cache paths) = wd_fs w (ap_model_cache paths)"
    using load_providers_keeps[OF exact(2), of "ap_providers paths" w] p by simp
  then show ?thesis
    using load_providers_part[OF exact(1) p] load_cache_part[OF exact(2) c] v assms(1-3)
    by (simp add: cp synced_def own_files_def)
qed

lemma stored_unique:
  "stored_providers env y d \<Longrightarrow> stored_providers env y d' \<Longrightarrow> d = d'"
  "stored_cache env y c \<Longrightarrow> stored_cache env y c' \<Longrightarrow> c = c'"
  by (auto simp: stored_providers_def stored_cache_def split: option.splits)

lemma new_stored:
  assumes "yaml_reads_back env prepared"
  shows "new_providers env prepared y \<Longrightarrow> stored_providers env y (pm_providers prepared)"
    and "new_cache env prepared y \<Longrightarrow> stored_cache env y (pm_cache prepared)"
  using assms by (auto simp: yaml_reads_back_def new_providers_def new_cache_def stored_providers_def stored_cache_def private_file_def)

lemma validate_documents_iff:
  "validate_documents env doc cache = Inr () \<longleftrightarrow>
     (\<exists>s. build_runtime_snapshot (se_url_parse (ce_stores env)) doc cache = Inr s) \<and>
     (\<exists>x. overlay_from_documents (se_url_parse (ce_stores env)) doc cache = Inr x)"
  by (auto simp: validate_documents_def)

lemma validate_documents_Inr:
  "validate_documents env doc cache = Inr () \<longleftrightarrow>
     validate_document (se_url_parse (ce_stores env)) doc = Inr () \<and> model_cache_validate cache = Inr () \<and>
     distinct (map fst (overlay_of doc))"
  using validate_document_valid[of "se_url_parse (ce_stores env)" doc]
  by (auto simp: validate_documents_iff overlay_from_documents_Inr build_runtime_snapshot_def snapshot_build_eq)

text \<open>The routes and the catalog do not depend on the cache, which is only validated.\<close>

lemma validate_documents_parts:
  assumes "validate_documents env d c = Inr ()" "validate_documents env d' c' = Inr ()"
  shows "validate_documents env d c' = Inr ()"
proof -
  have "model_cache_validate c' = Inr ()"
    using assms(2) by (auto simp: validate_documents_iff overlay_from_documents_def)
  then show ?thesis
    using assms(1)
    by (auto simp: validate_documents_iff build_runtime_snapshot_def snapshot_build_def overlay_from_documents_def)
qed

lemma prepare_mutation_Inr:
  assumes "prepare_mutation env cp mutation = Inr prepared"
  shows "validate_documents env (pm_providers prepared) (pm_cache prepared) = Inr () \<and>
    (\<not> pm_cache_changed prepared \<longrightarrow> pm_cache prepared = cp_cache cp)"
proof -
  have m: "mutate env cp mutation = Inr prepared" and v: "validate_documents env (pm_providers prepared) (pm_cache prepared) = Inr ()"
    using assms by (auto simp: prepare_mutation_def)
  have "\<not> pm_cache_changed prepared \<longrightarrow> pm_cache prepared = cp_cache cp"
    using m by (cases mutation) (auto simp: mutate_def Let_def split: if_splits)
  with v show ?thesis by simp
qed

text \<open>Whatever fails and wherever the process stops while a prepared change is written, the two files stand for
  the old documents, for the old providers with the new cache, or for the new documents; never for new
  providers with an old cache. Each of these pairs passes the validation of a start, and a start that
  reads the files finds exactly that pair. This is so for a refresh too: the comment of \<open>commit_refresh\<close> expects a
  start to refuse the old providers with the new cache, but no start compares the fingerprints of the two.\<close>

lemma commit_crash_states:
  fixes home :: path
  defines "paths \<equiv> paths_for_home home"
  assumes "own_files env (ap_root paths) cp" "synced env cp (wd_fs w)" "wd_seen w = []"
    and "validate_documents env (cp_providers cp) (cp_cache cp) = Inr ()"
    and "prepare_mutation env cp mutation = Inr prepared" "yaml_reads_back env prepared"
    and "commit_mutation env prepared (cp, w) = (r, (cp', w'))" "fs \<in> set (wd_fs w' # wd_seen w')"
  shows "\<exists>providers cache.
    (providers = cp_providers cp \<and> cache \<in> {cp_cache cp, pm_cache prepared} \<or>
     providers = pm_providers prepared \<and> cache = pm_cache prepared) \<and>
    validate_documents env providers cache = Inr () \<and>
    (\<forall>v loaded v'. wd_fs v = fs \<longrightarrow> control_load env paths v = (Inr loaded, v') \<longrightarrow>
       cp_providers loaded = providers \<and> cp_cache loaded = cache)"
proof -
  let ?pp = "cp_provider_path cp" and ?pc = "cp_cache_path cp"
  have paths: "?pp = ap_providers paths" "?pc = ap_model_cache paths"
    using assms(2) by (simp_all add: own_files_def paths_def paths_for_home_def Let_def)
  have new: "validate_documents env (pm_providers prepared) (pm_cache prepared) = Inr ()"
    and same: "\<not> pm_cache_changed prepared \<longrightarrow> pm_cache prepared = cp_cache cp"
    using prepare_mutation_Inr[OF assms(6)] by simp_all
  have state: "commit_state env cp prepared (wd_fs w) fs"
    using commit_states[OF assms(2,4,8)] assms(9) by (auto simp: held_def)
  have old: "stored_providers env (wd_fs w ?pp) (cp_providers cp)" "stored_cache env (wd_fs w ?pc) (cp_cache cp)"
    using assms(3) by (simp_all add: synced_def)
  have "\<exists>cache. stored_cache env (fs ?pc) cache \<and> cache \<in> {cp_cache cp, pm_cache prepared}"
    using state old(2) new_stored(2)[OF assms(7)] by (auto simp: commit_state_def Let_def)
  moreover have "stored_cache env (fs ?pc) (pm_cache prepared)" if "new_providers env prepared (fs ?pp)" "fs ?pp \<noteq> wd_fs w ?pp"
    using that state same old(2) new_stored(2)[OF assms(7)]
    by (cases "pm_cache_changed prepared") (auto simp: commit_state_def Let_def)
  moreover have "fs ?pp = wd_fs w ?pp \<or> new_providers env prepared (fs ?pp) \<and> fs ?pp \<noteq> wd_fs w ?pp"
    using state by (auto simp: commit_state_def Let_def)
  ultimately obtain providers cache where stored: "stored_providers env (fs ?pp) providers" "stored_cache env (fs ?pc) cache"
    and pair: "providers = cp_providers cp \<and> cache \<in> {cp_cache cp, pm_cache prepared} \<or>
      providers = pm_providers prepared \<and> cache = pm_cache prepared"
    using old(1) new_stored(1)[OF assms(7)] by metis
  have "validate_documents env providers cache = Inr ()"
    using pair new assms(5) validate_documents_parts[OF assms(5) new] by auto
  moreover have "cp_providers loaded = providers \<and> cp_cache loaded = cache"
    if "wd_fs v = fs" "control_load env paths v = (Inr loaded, v')" for v loaded v'
    using control_load_Inr[OF assms(2) paths that(2)] that(1) stored stored_unique paths
    by (auto simp: synced_def)
  ultimately show ?thesis using pair by blast
qed

lemma mutation_keeps_cache:
  assumes "mutate env cp mutation = Inr prepared" and "\<forall>p preview. mutation \<noteq> CommitRefresh p preview"
  shows "pm_cache prepared = cp_cache cp \<and> \<not> pm_cache_changed prepared"
  using assms by (cases mutation) (auto simp: mutate_def split: if_splits)


definition example_saved :: providers_document where
  "example_saved = default_providers\<lparr>doc_providers := [usable_provider]\<rparr>"

text \<open>A library whose only document is this one.\<close>

definition example_stores :: "unit store_env" where
  "example_stores = \<lparr>se_os = example_os, se_os_text = [], se_url_parse = example_url_parse, se_debug_str = (\<lambda>s. s),
     se_yaml = \<lparr>yaml_parse = (\<lambda>_. Inr ()), yaml_version = (\<lambda>_. Some 3), yaml_document = (\<lambda>_. Inr example_saved)\<rparr>,
     se_providers_text = (\<lambda>_. Inr []), se_cache_parse = (\<lambda>_. Inr empty_cache), se_cache_text = (\<lambda>_. Inr []),
     se_registry_parse = (\<lambda>_. Inl []), se_registry_text = (\<lambda>_. Inr [])\<rparr>"

definition example_control_env :: "unit control_env" where
  "example_control_env = \<lparr>ce_stores = example_stores, ce_codec = \<lparr>parse = (\<lambda>_. Inl []), to_vec = (\<lambda>_. Inr []), display = (\<lambda>_. [])\<rparr>\<rparr>"

definition example_control :: control_plane where
  "example_control = \<lparr>cp_provider_path = ap_providers (paths_for_home []), cp_cache_path = ap_model_cache (paths_for_home []),
     cp_providers = default_providers, cp_provider_sha256 = None, cp_cache = empty_cache, cp_cache_sha256 = None\<rparr>"

definition empty_world :: world where
  "empty_world = \<lparr>wd_fs = Map.empty, wd_seen = [], wd_tick = 0\<rparr>"

definition example_prepared :: prepared_mutation where
  "example_prepared = \<lparr>pm_providers = example_saved, pm_cache = empty_cache, pm_provider_id = prov_id usable_provider,
     pm_cache_changed = False\<rparr>"

lemma example_own_files: "own_files example_control_env (ap_root (paths_for_home [])) example_control"
  by (simp add: own_files_def example_control_def paths_for_home_def Let_def own_file_def exact_def temps_private_def
      example_control_env_def example_stores_def example_os_def)

lemma example_synced: "synced example_control_env example_control (wd_fs empty_world)"
  by (simp add: synced_def stored_providers_def stored_cache_def digest_of_def example_control_def empty_world_def)

lemma defaults_valid: "validate_documents example_control_env default_providers empty_cache = Inr ()"
proof -
  have "document_valid example_url_parse default_providers"
    by (simp add: document_valid_def default_providers_def listener_valid_def SCHEMA_VERSION_def)
  then show ?thesis
    by (simp add: validate_documents_Inr validate_document_def providers_validate_iff example_control_env_def
        example_stores_def default_providers_def overlay_of_def model_cache_validate_def empty_cache_def
        MODEL_CACHE_SCHEMA_VERSION_def)
qed

lemma saved_valid: "validate_documents example_control_env example_saved empty_cache = Inr ()"
proof -
  have "provider_valid example_url_parse usable_provider"
    using usable_provider_validated by (auto simp: validate_provider_def provider_validate_iff)
  then have valid: "document_valid example_url_parse example_saved"
    by (simp add: document_valid_def example_saved_def default_providers_def listener_valid_def SCHEMA_VERSION_def)
  have "overlay_of example_saved = overlay_of usable_document"
    by (simp add: overlay_of_def example_saved_def usable_document_def)
  then have "distinct (map fst (overlay_of example_saved))"
    using distinct_overlay_of [OF validate_document_valid [OF usable_document_validated] usable_document_ids] by simp
  with valid show ?thesis
    by (simp add: validate_documents_Inr validate_document_def providers_validate_iff example_control_env_def
        example_stores_def usable_provider_validated example_saved_def model_cache_validate_def empty_cache_def
        MODEL_CACHE_SCHEMA_VERSION_def)
qed

lemma example_prepares:
  "prepare_mutation example_control_env example_control (SaveProvider usable_provider) = Inr example_prepared"
  using saved_valid
  by (simp add: prepare_mutation_def mutate_def example_prepared_def upsert_provider_def example_control_def
      default_providers_def example_saved_def)

lemma example_reads_back: "yaml_reads_back example_control_env example_prepared"
proof -
  have "document_valid example_url_parse example_saved"
    using saved_valid validate_document_valid
    by (simp add: validate_documents_Inr example_control_env_def example_stores_def)
  then show ?thesis
    by (simp add: yaml_reads_back_def encode_providers_def decode_providers_def encode_cache_def decode_cache_def
        example_control_env_def example_stores_def example_prepared_def providers_from_yaml_def providers_validate_iff
        model_cache_from_yaml_def from_utf8_def utf8_error.simps Let_def SCHEMA_VERSION_def)
qed


end
