(* ===== verification/CodexConfig.thy ===== *)
theory CodexConfig
  imports ControlPlane "HOL-Library.AList"
begin

text \<open>
  The integration with Codex: \<open>codex_config/mod.rs\<close> edits the user's configuration, and the receipt of
  \<open>codex_config/receipt.rs\<close> records what to restore. The TOML library is a parameter.
\<close>

section \<open>Receipts\<close>

definition INSTALL_RECEIPT_SCHEMA_VERSION :: u32 where "INSTALL_RECEIPT_SCHEMA_VERSION = 2"

datatype receipt_phase = PhasePrepared str | PhaseActive str | PhaseRestored

record original_config =
  oc_existed :: bool
  oc_sha256 :: "str option"
  oc_contents :: str

record original_model_cache =
  om_existed :: bool
  om_sha256 :: "str option"
  om_contents :: str

record applied_values =
  av_openai_base_url :: str

record install_receipt =
  ir_schema_version :: u32
  ir_config_path :: str
  ir_updated_at :: str
  ir_phase :: receipt_phase
  ir_original :: original_config
  ir_original_model_cache :: "original_model_cache option"
  ir_applied_values :: applied_values

datatype receipt_store_error = ReceiptFile secure_file_error | InvalidReceipt str | ReceiptSerialization str

definition receipt_validate :: "os \<Rightarrow> install_receipt \<Rightarrow> receipt_store_error + unit" where
  "receipt_validate os r =
     (if ir_schema_version r \<noteq> INSTALL_RECEIPT_SCHEMA_VERSION then Inl (InvalidReceipt ''unsupported schema version'')
      else if trim (ir_config_path r) = [] then Inl (InvalidReceipt ''config path is empty'')
      else if oc_existed (ir_original r) \<noteq> (oc_sha256 (ir_original r) \<noteq> None)
      then Inl (InvalidReceipt ''original existence and hash disagree'')
      else if \<not> oc_existed (ir_original r) \<and> oc_contents (ir_original r) \<noteq> []
      then Inl (InvalidReceipt ''missing original config has contents'')
      else if (case oc_sha256 (ir_original r) of
                 Some expected \<Rightarrow> os_sha256 os (oc_contents (ir_original r)) \<noteq> expected | None \<Rightarrow> False)
      then Inl (InvalidReceipt ''original config hash does not match contents'')
      else
        (case ir_original_model_cache r of
           None \<Rightarrow> Inr ()
         | Some cache \<Rightarrow>
             if om_existed cache \<noteq> (om_sha256 cache \<noteq> None)
             then Inl (InvalidReceipt ''original model cache existence and hash disagree'')
             else if \<not> om_existed cache \<and> om_contents cache \<noteq> []
             then Inl (InvalidReceipt ''missing original model cache has contents'')
             else if (case om_sha256 cache of
                        Some expected \<Rightarrow> os_sha256 os (om_contents cache) \<noteq> expected | None \<Rightarrow> False)
             then Inl (InvalidReceipt ''original model cache hash does not match contents'')
             else Inr ()))"

section \<open>The libraries\<close>

text \<open>A TOML document maps keys to items; an item may be a string and has a text.\<close>

record ('d, 'i) toml =
  toml_parse :: "str \<Rightarrow> str + 'd"
  toml_text :: "'d \<Rightarrow> str"
  toml_empty :: 'd
  toml_get :: "'d \<Rightarrow> str \<Rightarrow> 'i option"
  toml_assign :: "'d \<Rightarrow> str \<Rightarrow> 'i \<Rightarrow> 'd"
  toml_insert :: "'d \<Rightarrow> str \<Rightarrow> 'i \<Rightarrow> 'd"
  toml_remove :: "'d \<Rightarrow> str \<Rightarrow> 'd"
  toml_value :: "str \<Rightarrow> 'i"
  item_str :: "'i \<Rightarrow> str option"
  item_text :: "'i \<Rightarrow> str"

record ('d, 'i) codex_env =
  xe_os :: os
  xe_toml :: "('d, 'i) toml"
  xe_receipt_parse :: "str \<Rightarrow> str + install_receipt"
  xe_receipt_text :: "install_receipt \<Rightarrow> str + str"

definition decode_receipt :: "('d, 'i) codex_env \<Rightarrow> str \<Rightarrow> receipt_store_error + install_receipt" where
  "decode_receipt env bytes =
     and_then (map_err InvalidReceipt (xe_receipt_parse env bytes)) (\<lambda>receipt.
     and_then (receipt_validate (xe_os env) receipt) (\<lambda>_. Inr receipt))"

definition encode_receipt :: "('d, 'i) codex_env \<Rightarrow> install_receipt \<Rightarrow> receipt_store_error + str" where
  "encode_receipt env receipt =
     and_then (receipt_validate (xe_os env) receipt) (\<lambda>_.
     and_then (map_err ReceiptSerialization (xe_receipt_text env receipt)) (\<lambda>bytes.
     Inr (bytes @ [LF])))"

definition receipt_store_load ::
  "('d, 'i) codex_env \<Rightarrow> path \<Rightarrow> (receipt_store_error, install_receipt \<times> str) io" where
  "receipt_store_load env p =
     act (act_map_err ReceiptFile (load_file (xe_os env) p)) (\<lambda>loaded.
     act (act_of (decode_receipt env (lf_bytes loaded))) (\<lambda>receipt.
     act_ok (receipt, lf_sha256 loaded)))"

definition receipt_store_save ::
  "('d, 'i) codex_env \<Rightarrow> path \<Rightarrow> install_receipt \<Rightarrow> str option \<Rightarrow> (receipt_store_error, loaded_file) io" where
  "receipt_store_save env p receipt expected =
     act (act_of (encode_receipt env receipt)) (\<lambda>bytes.
     act_map_err ReceiptFile (write_without_backup (xe_os env) p expected bytes))"

interpretation receipt_store: document_store
  "xe_os env" p "receipt_store_load env p" "receipt_store_save env p" "decode_receipt env" "encode_receipt env"
  for env :: "('d, 'i) codex_env" and p
  unfolding receipt_store_load_def receipt_store_save_def write_without_backup_def
  by unfold_locales (rule store_laws; assumption)+

section \<open>The editor\<close>

definition OPENAI_BASE_URL :: str where "OPENAI_BASE_URL = ''openai_base_url''"

definition MODEL_CATALOG_JSON :: str where "MODEL_CATALOG_JSON = ''model_catalog_json''"

definition MODEL_PROVIDER :: str where "MODEL_PROVIDER = ''model_provider''"

definition managed_keys :: "str list" where
  "managed_keys = [OPENAI_BASE_URL, MODEL_CATALOG_JSON, MODEL_PROVIDER]"

record codex_integration =
  cx_openai_base_url :: str

record codex_config_status =
  cs_config_exists :: bool
  cs_receipt_phase :: "receipt_phase option"
  cs_managed_values_match :: bool

datatype codex_config_error =
    CodexFile secure_file_error
  | CodexReceipt receipt_store_error
  | InvalidToml str
  | InvalidModelCache str
  | ReceiptPathMismatch
  | ConfigDrift

record codex_editor =
  cx_config_path :: path
  cx_model_cache_path :: path
  cx_receipt_path :: path

definition editor_new :: "path \<Rightarrow> path \<Rightarrow> codex_editor" where
  "editor_new config_path receipt_path =
     \<lparr>cx_config_path = config_path,
      cx_model_cache_path =
        (case path_parent config_path of
           None \<Rightarrow> [''models_cache.json''] | Some parent \<Rightarrow> parent @ [''models_cache.json'']),
      cx_receipt_path = receipt_path\<rparr>"

record 'd current_config =
  cfg_document :: 'd
  cfg_contents :: str
  cfg_sha256 :: "str option"

definition parse_document :: "('d, 'i) codex_env \<Rightarrow> str \<Rightarrow> codex_config_error + 'd" where
  "parse_document env contents = map_err InvalidToml (toml_parse (xe_toml env) contents)"

definition load_config :: "('d, 'i) codex_env \<Rightarrow> codex_editor \<Rightarrow> (codex_config_error, 'd current_config) io" where
  "load_config env ed =
     act_match (load_file (xe_os env) (cx_config_path ed))
       (\<lambda>loaded.
          act (act_of (map_err InvalidToml (from_utf8 (lf_bytes loaded)))) (\<lambda>contents.
          act (act_of (parse_document env contents)) (\<lambda>document.
          act_ok \<lparr>cfg_document = document, cfg_contents = contents, cfg_sha256 = Some (lf_sha256 loaded)\<rparr>)))
       (\<lambda>e. case e of
            MissingFile _ \<Rightarrow>
              act_ok \<lparr>cfg_document = toml_empty (xe_toml env), cfg_contents = [], cfg_sha256 = None\<rparr>
          | _ \<Rightarrow> act_err (CodexFile e))"

definition load_receipt ::
  "('d, 'i) codex_env \<Rightarrow> codex_editor \<Rightarrow> (codex_config_error, (install_receipt \<times> str) option) io" where
  "load_receipt env ed =
     act_match (receipt_store_load env (cx_receipt_path ed))
       (\<lambda>loaded. act_ok (Some loaded))
       (\<lambda>e. case e of ReceiptFile (MissingFile _) \<Rightarrow> act_ok None | _ \<Rightarrow> act_err (CodexReceipt e))"

definition load_model_cache ::
  "('d, 'i) codex_env \<Rightarrow> codex_editor \<Rightarrow> (codex_config_error, loaded_file option) io" where
  "load_model_cache env ed =
     act_match (load_external_cache (xe_os env) (cx_model_cache_path ed))
       (\<lambda>loaded. act_ok (Some loaded))
       (\<lambda>e. case e of MissingFile _ \<Rightarrow> act_ok None | _ \<Rightarrow> act_err (CodexFile e))"

definition invalidate_model_cache ::
  "('d, 'i) codex_env \<Rightarrow> codex_editor \<Rightarrow> loaded_file option \<Rightarrow> (codex_config_error, unit) io" where
  "invalidate_model_cache env ed current =
     (case current of
        Some loaded \<Rightarrow>
          act_map_err CodexFile (remove_external_cache (xe_os env) (cx_model_cache_path ed) (lf_sha256 loaded))
      | None \<Rightarrow> act_ok ())"

definition validate_receipt_path :: "codex_editor \<Rightarrow> install_receipt \<Rightarrow> codex_config_error + unit" where
  "validate_receipt_path ed receipt =
     (if ir_config_path receipt = path_text (cx_config_path ed) then Inr () else Inl ReceiptPathMismatch)"

definition get_str :: "('d, 'i) codex_env \<Rightarrow> 'd \<Rightarrow> str \<Rightarrow> str option" where
  "get_str env document key = Option.bind (toml_get (xe_toml env) document key) (item_str (xe_toml env))"

definition managed_state_matches :: "('d, 'i) codex_env \<Rightarrow> 'd \<Rightarrow> install_receipt \<Rightarrow> bool" where
  "managed_state_matches env document receipt \<longleftrightarrow>
     get_str env document OPENAI_BASE_URL = Some (av_openai_base_url (ir_applied_values receipt)) \<and>
     toml_get (xe_toml env) document MODEL_CATALOG_JSON = None \<and>
     get_str env document MODEL_PROVIDER = Some ''openai''"

definition items_match :: "('d, 'i) codex_env \<Rightarrow> 'i option \<Rightarrow> 'i option \<Rightarrow> bool" where
  "items_match env left right =
     (case (left, right) of
        (None, None) \<Rightarrow> True
      | (Some left, Some right) \<Rightarrow>
          (case (item_str (xe_toml env) left, item_str (xe_toml env) right) of
             (Some left, Some right) \<Rightarrow> left = right
           | _ \<Rightarrow> trim (item_text (xe_toml env) left) = trim (item_text (xe_toml env) right))
      | _ \<Rightarrow> False)"

definition original_managed_state_matches :: "('d, 'i) codex_env \<Rightarrow> 'd \<Rightarrow> install_receipt \<Rightarrow> bool" where
  "original_managed_state_matches env document receipt =
     (case parse_document env (oc_contents (ir_original receipt)) of
        Inl _ \<Rightarrow> False
      | Inr original \<Rightarrow>
          list_all (\<lambda>key. items_match env (toml_get (xe_toml env) document key) (toml_get (xe_toml env) original key))
            managed_keys)"

definition current_matches_receipt :: "('d, 'i) codex_env \<Rightarrow> 'd current_config \<Rightarrow> install_receipt \<Rightarrow> bool" where
  "current_matches_receipt env config receipt =
     (case ir_phase receipt of
        PhaseActive _ \<Rightarrow> managed_state_matches env (cfg_document config) receipt
      | PhasePrepared planned \<Rightarrow>
          cfg_sha256 config = Some planned \<or> managed_state_matches env (cfg_document config) receipt \<or>
          original_managed_state_matches env (cfg_document config) receipt
      | PhaseRestored \<Rightarrow> original_managed_state_matches env (cfg_document config) receipt)"

definition validate_current_against_receipt ::
  "('d, 'i) codex_env \<Rightarrow> 'd current_config \<Rightarrow> install_receipt \<Rightarrow> codex_config_error + unit" where
  "validate_current_against_receipt env config receipt =
     (if current_matches_receipt env config receipt then Inr () else Inl ConfigDrift)"

definition inspect_codex ::
  "('d, 'i) codex_env \<Rightarrow> codex_editor \<Rightarrow> (codex_config_error, codex_config_status) io" where
  "inspect_codex env ed =
     act (load_config env ed) (\<lambda>config.
     act (load_receipt env ed) (\<lambda>receipt.
     act (act_of (case receipt of Some (r, _) \<Rightarrow> validate_receipt_path ed r | None \<Rightarrow> Inr ())) (\<lambda>_.
     act_ok \<lparr>cs_config_exists = (cfg_sha256 config \<noteq> None),
             cs_receipt_phase = map_option (\<lambda>(r, _). ir_phase r) receipt,
             cs_managed_values_match =
               (case receipt of Some (r, _) \<Rightarrow> managed_state_matches env (cfg_document config) r | None \<Rightarrow> False)\<rparr>)))"

definition active_integration ::
  "('d, 'i) codex_env \<Rightarrow> codex_editor \<Rightarrow> (codex_config_error, codex_integration option) io" where
  "active_integration env ed =
     act (load_config env ed) (\<lambda>config.
     act (load_receipt env ed) (\<lambda>receipt.
     case receipt of
       None \<Rightarrow> act_ok None
     | Some (r, _) \<Rightarrow>
         act (act_of (validate_receipt_path ed r)) (\<lambda>_.
         if (case ir_phase r of PhaseActive _ \<Rightarrow> False | _ \<Rightarrow> True) \<or> \<not> managed_state_matches env (cfg_document config) r
         then act_ok None
         else act_ok (Some \<lparr>cx_openai_base_url = av_openai_base_url (ir_applied_values r)\<rparr>))))"

section \<open>Applying\<close>

definition prepare_candidate :: "('d, 'i) codex_env \<Rightarrow> 'd \<Rightarrow> codex_integration \<Rightarrow> 'd" where
  "prepare_candidate env current desired =
     (let t = xe_toml env;
          candidate = toml_assign t current OPENAI_BASE_URL (toml_value t (cx_openai_base_url desired));
          candidate = toml_remove t candidate MODEL_CATALOG_JSON
      in toml_assign t candidate MODEL_PROVIDER (toml_value t ''openai''))"

definition original_of :: "'d current_config \<Rightarrow> original_config" where
  "original_of current =
     \<lparr>oc_existed = (cfg_sha256 current \<noteq> None), oc_sha256 = cfg_sha256 current, oc_contents = cfg_contents current\<rparr>"

definition original_cache_of :: "loaded_file option \<Rightarrow> codex_config_error + original_model_cache" where
  "original_cache_of current =
     (case current of
        None \<Rightarrow> Inr \<lparr>om_existed = False, om_sha256 = None, om_contents = []\<rparr>
      | Some loaded \<Rightarrow>
          and_then (map_err InvalidModelCache (from_utf8 (lf_bytes loaded))) (\<lambda>contents.
          Inr \<lparr>om_existed = True, om_sha256 = Some (lf_sha256 loaded), om_contents = contents\<rparr>))"

text \<open>What to record as the original; the argument of \<open>unwrap_or\<close> is evaluated in any case.\<close>

definition choose_original ::
  "('d, 'i) codex_env \<Rightarrow> codex_editor \<Rightarrow> 'd current_config \<Rightarrow> loaded_file option \<Rightarrow> (install_receipt \<times> str) option \<Rightarrow>
     codex_config_error + original_config \<times> original_model_cache \<times> str option" where
  "choose_original env ed config model_cache loaded =
     (case loaded of
        None \<Rightarrow> and_then (original_cache_of model_cache) (\<lambda>cache. Inr (original_of config, cache, None))
      | Some (receipt, sha256) \<Rightarrow>
          and_then (validate_receipt_path ed receipt) (\<lambda>_.
          if ir_phase receipt = PhaseRestored
          then and_then (original_cache_of model_cache) (\<lambda>cache. Inr (original_of config, cache, Some sha256))
          else
            and_then (validate_current_against_receipt env config receipt) (\<lambda>_.
            and_then (original_cache_of model_cache) (\<lambda>cache.
            Inr (ir_original receipt,
                 (case ir_original_model_cache receipt of Some original \<Rightarrow> original | None \<Rightarrow> cache),
                 Some sha256)))))"

text \<open>The receipt is on disk before the configuration changes, and becomes active after it.\<close>

definition install_candidate ::
  "('d, 'i) codex_env \<Rightarrow> codex_editor \<Rightarrow> 'd current_config \<Rightarrow> loaded_file option \<Rightarrow> str option \<Rightarrow> str \<Rightarrow>
     (receipt_phase \<Rightarrow> install_receipt) \<Rightarrow> (codex_config_error, install_receipt) io" where
  "install_candidate env ed config model_cache receipt_sha256 candidate_bytes receipt =
     (let candidate_sha256 = os_sha256 (xe_os env) candidate_bytes;
          prepared = receipt (PhasePrepared candidate_sha256); active = receipt (PhaseActive candidate_sha256) in
      act (act_map_err CodexReceipt (receipt_store_save env (cx_receipt_path ed) prepared receipt_sha256)) (\<lambda>saved.
      act (act_map_err CodexFile
        (write_external (xe_os env) (cx_config_path ed) (cfg_sha256 config) candidate_bytes)) (\<lambda>_.
      act (invalidate_model_cache env ed model_cache) (\<lambda>_.
      act (act_map_err CodexReceipt
        (receipt_store_save env (cx_receipt_path ed) active (Some (lf_sha256 saved)))) (\<lambda>_.
      act_ok active)))))"

definition planned_receipt ::
  "codex_editor \<Rightarrow> codex_integration \<Rightarrow> str \<Rightarrow> original_config \<Rightarrow> original_model_cache \<Rightarrow> receipt_phase \<Rightarrow> install_receipt" where
  "planned_receipt ed desired updated_at original cache phase =
     \<lparr>ir_schema_version = INSTALL_RECEIPT_SCHEMA_VERSION, ir_config_path = path_text (cx_config_path ed),
      ir_updated_at = updated_at, ir_phase = phase, ir_original = original, ir_original_model_cache = Some cache,
      ir_applied_values = \<lparr>av_openai_base_url = cx_openai_base_url desired\<rparr>\<rparr>"

definition apply_integration ::
  "('d, 'i) codex_env \<Rightarrow> codex_editor \<Rightarrow> codex_integration \<Rightarrow> str \<Rightarrow> (codex_config_error, install_receipt) io" where
  "apply_integration env ed desired updated_at =
     act (load_config env ed) (\<lambda>config.
     act (load_model_cache env ed) (\<lambda>model_cache.
     act (load_receipt env ed) (\<lambda>loaded.
     act (act_of (choose_original env ed config model_cache loaded)) (\<lambda>(original, original_cache, receipt_sha256).
     install_candidate env ed config model_cache receipt_sha256
       (toml_text (xe_toml env) (prepare_candidate env (cfg_document config) desired))
       (planned_receipt ed desired updated_at original original_cache)))))"

section \<open>Restoring\<close>

definition restore_item :: "('d, 'i) codex_env \<Rightarrow> 'd \<Rightarrow> 'd \<Rightarrow> str \<Rightarrow> 'd" where
  "restore_item env original candidate key =
     (case toml_get (xe_toml env) original key of
        Some item \<Rightarrow> toml_insert (xe_toml env) candidate key item
      | None \<Rightarrow> toml_remove (xe_toml env) candidate key)"

definition restore_candidate :: "('d, 'i) codex_env \<Rightarrow> 'd \<Rightarrow> 'd \<Rightarrow> 'd" where
  "restore_candidate env original document = fold (\<lambda>key candidate. restore_item env original candidate key) managed_keys document"

definition write_restored ::
  "('d, 'i) codex_env \<Rightarrow> codex_editor \<Rightarrow> 'd current_config \<Rightarrow> original_config \<Rightarrow> str \<Rightarrow> (codex_config_error, unit) io" where
  "write_restored env ed config original candidate =
     (if \<not> oc_existed original \<and> trim candidate = []
      then (case cfg_sha256 config of
              Some current_sha \<Rightarrow>
                act_map_err CodexFile (remove_external (xe_os env) (cx_config_path ed) current_sha)
            | None \<Rightarrow> act_ok ())
      else if candidate \<noteq> cfg_contents config
      then act (act_map_err CodexFile
                  (write_external (xe_os env) (cx_config_path ed) (cfg_sha256 config) candidate)) (\<lambda>_. act_ok ())
      else act_ok ())"

definition restore_integration ::
  "('d, 'i) codex_env \<Rightarrow> codex_editor \<Rightarrow> str \<Rightarrow> (codex_config_error, install_receipt) io" where
  "restore_integration env ed updated_at =
     act (act_map_err CodexReceipt (receipt_store_load env (cx_receipt_path ed))) (\<lambda>(receipt, receipt_sha256).
     act (act_of (validate_receipt_path ed receipt)) (\<lambda>_.
     if ir_phase receipt = PhaseRestored then act_ok receipt
     else
       act (load_config env ed) (\<lambda>config.
       act (act_of (validate_current_against_receipt env config receipt)) (\<lambda>_.
       act (load_model_cache env ed) (\<lambda>model_cache.
       act (invalidate_model_cache env ed model_cache) (\<lambda>_.
       act (act_of (parse_document env (oc_contents (ir_original receipt)))) (\<lambda>original.
       act (write_restored env ed config (ir_original receipt)
              (toml_text (xe_toml env) (restore_candidate env original (cfg_document config)))) (\<lambda>_.
       let restored = receipt\<lparr>ir_phase := PhaseRestored, ir_updated_at := updated_at\<rparr> in
       act (act_map_err CodexReceipt
         (receipt_store_save env (cx_receipt_path ed) restored (Some receipt_sha256))) (\<lambda>_.
       act_ok restored)))))))))"

section \<open>Reading the files\<close>

text \<open>
  The configuration of Codex and the receipt lie in directories of the same home; only the application writes
  the receipt, and while an operation runs only the application writes the configuration.
\<close>

definition own_codex :: "('d, 'i) codex_env \<Rightarrow> path \<Rightarrow> codex_editor \<Rightarrow> bool" where
  "own_codex env home ed \<longleftrightarrow>
     ed = editor_new (home @ [''.codex'', ''config.toml'']) (ap_install_receipt (paths_for_home home)) \<and>
     own_file (xe_os env) (home @ [''.codex'', ''config.toml'']) \<and>
     own_file (xe_os env) (ap_install_receipt (paths_for_home home))"

definition files_at :: "codex_editor \<Rightarrow> inode option \<Rightarrow> inode option \<Rightarrow> world \<Rightarrow> bool" where
  "files_at ed x y w \<longleftrightarrow> wd_fs w (cx_config_path ed) = x \<and> wd_fs w (cx_receipt_path ed) = y"

definition config_view :: "('d, 'i) codex_env \<Rightarrow> inode option \<Rightarrow> 'd current_config \<Rightarrow> bool" where
  "config_view env x c \<longleftrightarrow>
     (case x of
        None \<Rightarrow> c = \<lparr>cfg_document = toml_empty (xe_toml env), cfg_contents = [], cfg_sha256 = None\<rparr>
      | Some n \<Rightarrow> toml_parse (xe_toml env) (nd_bytes n) = Inr (cfg_document c) \<and> cfg_contents c = nd_bytes n \<and>
          cfg_sha256 c = Some (os_sha256 (xe_os env) (nd_bytes n)))"

definition receipt_view :: "('d, 'i) codex_env \<Rightarrow> inode option \<Rightarrow> (install_receipt \<times> str) option \<Rightarrow> bool" where
  "receipt_view env y l \<longleftrightarrow>
     (case y of
        None \<Rightarrow> l = None
      | Some n \<Rightarrow> \<exists>r. decode_receipt env (nd_bytes n) = Inr r \<and> l = Some (r, os_sha256 (xe_os env) (nd_bytes n)))"

lemma own_codex_paths:
  assumes "own_codex env home ed"
  shows "cx_config_path ed = (home @ [''.codex'']) @ [''config.toml'']"
    and "cx_model_cache_path ed = (home @ [''.codex'']) @ [''models_cache.json'']"
    and "cx_receipt_path ed = (home @ [''Library'', ''Application Support'', ''dev.qiankun.provider-x'']) @ [''install-receipt.json'']"
  using assms by (simp_all add: own_codex_def editor_new_def path_parent_def paths_for_home_def Let_def butlast_append)

lemma own_codex_files:
  assumes "own_codex env home ed"
  shows "own_file (xe_os env) (cx_config_path ed)" "own_file (xe_os env) (cx_receipt_path ed)"
    "exact (xe_os env) (cx_config_path ed)" "exact (xe_os env) (cx_receipt_path ed)"
    "cx_config_path ed \<noteq> cx_model_cache_path ed" "cx_receipt_path ed \<noteq> cx_model_cache_path ed"
    "cx_receipt_path ed \<noteq> cx_config_path ed"
proof -
  have c: "own_file (xe_os env) (cx_config_path ed)" and r: "own_file (xe_os env) (cx_receipt_path ed)"
    using assms by (simp_all add: own_codex_def editor_new_def)
  then show "own_file (xe_os env) (cx_config_path ed)" "own_file (xe_os env) (cx_receipt_path ed)"
    "exact (xe_os env) (cx_config_path ed)" "exact (xe_os env) (cx_receipt_path ed)"
    by (simp_all add: own_file_def)
  show "cx_config_path ed \<noteq> cx_model_cache_path ed" "cx_receipt_path ed \<noteq> cx_model_cache_path ed"
    "cx_receipt_path ed \<noteq> cx_config_path ed"
    by (simp_all add: own_codex_paths[OF assms])
qed

lemma files_stable [simp, intro]: "own_codex env home ed \<Longrightarrow> stable (xe_os env) (files_at ed x y)"
  using own_codex_files(3,4)[of env home ed] unfolding files_at_def [abs_def]
  by (intro stable_conj stable_at) (auto simp: exact_def)

lemma load_config_triple:
  assumes "own_codex env home ed"
  shows "triple (files_at ed x y) (load_config env ed) (\<lambda>c w. config_view env x c \<and> files_at ed x y w) (\<lambda>_. files_at ed x y)"
proof -
  note own = own_codex_files[OF assms]
  have load: "triple (files_at ed x y) (load_file (xe_os env) (cx_config_path ed))
     (\<lambda>l w. files_at ed x y w \<and> (\<exists>n. x = Some n \<and> l = loaded_of (xe_os env) n))
     (\<lambda>e w. files_at ed x y w \<and> ((\<exists>q. e = MissingFile q) \<longrightarrow> x = None))"
    by (rule triple_conseq[OF triple_conj[OF load_file_stable[OF files_stable[OF assms, of x y]]
          triple_conj[OF load_value[OF own(3), of x] load_missing[OF own(3), of x]]]])
      (auto simp: files_at_def)
  show ?thesis
    unfolding load_config_def
  proof (rule triple_match[OF load])
    show "triple (\<lambda>w. files_at ed x y w \<and> (\<exists>n. x = Some n \<and> l = loaded_of (xe_os env) n))
       (act (act_of (map_err InvalidToml (from_utf8 (lf_bytes l)))) (\<lambda>contents.
        act (act_of (parse_document env contents)) (\<lambda>document.
        act_ok \<lparr>cfg_document = document, cfg_contents = contents, cfg_sha256 = Some (lf_sha256 l)\<rparr>)))
       (\<lambda>c w. config_view env x c \<and> files_at ed x y w) (\<lambda>_. files_at ed x y)" for l
      by (auto simp: triple_def act_def parse_document_def config_view_def loaded_of_def dest!: from_utf8_Inr split: sum.splits)
    show "triple (\<lambda>w. files_at ed x y w \<and> ((\<exists>q. e = MissingFile q) \<longrightarrow> x = None))
       (case e of
            MissingFile _ \<Rightarrow>
              act_ok \<lparr>cfg_document = toml_empty (xe_toml env), cfg_contents = [], cfg_sha256 = None\<rparr>
          | _ \<Rightarrow> act_err (CodexFile e))
       (\<lambda>c w. config_view env x c \<and> files_at ed x y w) (\<lambda>_. files_at ed x y)" for e
      by (cases e) (auto simp: triple_def config_view_def)
  qed
qed

lemma decode_receipt_error: "decode_receipt env bytes = Inl e \<Longrightarrow> \<exists>m. e = InvalidReceipt m"
proof -
  have "receipt_validate os r = Inl e \<Longrightarrow> \<exists>m. e = InvalidReceipt m" for os r
    by (auto simp: receipt_validate_def split: if_splits option.splits)
  then show "decode_receipt env bytes = Inl e \<Longrightarrow> \<exists>m. e = InvalidReceipt m"
    by (auto simp: decode_receipt_def and_then_def map_err_def split: sum.splits)
qed

lemma receipt_load_triple:
  assumes "own_codex env home ed"
  shows "triple (files_at ed x y) (receipt_store_load env (cx_receipt_path ed))
    (\<lambda>l w. receipt_view env y (Some l) \<and> files_at ed x y w)
    (\<lambda>e w. files_at ed x y w \<and> ((\<exists>q. e = ReceiptFile (MissingFile q)) \<longrightarrow> y = None))"
proof -
  note own = own_codex_files[OF assms]
  have load: "triple (files_at ed x y) (act_map_err ReceiptFile (load_file (xe_os env) (cx_receipt_path ed)))
     (\<lambda>l w. files_at ed x y w \<and> (\<exists>n. y = Some n \<and> l = loaded_of (xe_os env) n))
     (\<lambda>e w. files_at ed x y w \<and> ((\<exists>q. e = ReceiptFile (MissingFile q)) \<longrightarrow> y = None))"
    by (rule triple_map_err, rule triple_conseq[OF triple_conj[OF load_file_stable[OF files_stable[OF assms, of x y]]
          triple_conj[OF load_value[OF own(4), of y] load_missing[OF own(4), of y]]]])
      (auto simp: files_at_def)
  show ?thesis
    unfolding receipt_store_load_def
    by (rule triple_act[OF load])
      (auto simp: triple_def act_def receipt_view_def loaded_of_def split: sum.splits dest: decode_receipt_error)
qed

lemma load_receipt_triple:
  assumes "own_codex env home ed"
  shows "triple (files_at ed x y) (load_receipt env ed) (\<lambda>l w. receipt_view env y l \<and> files_at ed x y w) (\<lambda>_. files_at ed x y)"
  unfolding load_receipt_def
  by (rule triple_match[OF receipt_load_triple[OF assms]])
    (auto simp: triple_def receipt_view_def split: receipt_store_error.splits secure_file_error.splits)

lemma load_model_cache_triple:
  assumes "own_codex env home ed"
  shows "triple (files_at ed x y) (load_model_cache env ed) (\<lambda>_. files_at ed x y) (\<lambda>_. files_at ed x y)"
  unfolding load_model_cache_def
  by (rule triple_match[OF external_cache_stable[OF files_stable[OF assms]]])
    (auto simp: triple_def split: secure_file_error.splits)

lemma invalidate_triple:
  assumes "own_codex env home ed"
  shows "triple (files_at ed x y) (invalidate_model_cache env ed c) (\<lambda>_. files_at ed x y) (\<lambda>_. files_at ed x y)"
proof -
  note own = own_codex_files[OF assms]
  have "triple (files_at ed x y) (remove_external_cache (xe_os env) (cx_model_cache_path ed) h)
      (\<lambda>_. files_at ed x y) (\<lambda>_. files_at ed x y)" for h
    unfolding remove_external_cache_def files_at_def
    by (rule triple_conseq[OF triple_conj[OF
          remove_loaded_keeps_at[OF own(3,5) external_cache_stable, where y = x] remove_loaded_keeps_at[OF own(4,6) external_cache_stable, where y = y]]])
      auto
  then show ?thesis
    by (cases c) (auto simp: invalidate_model_cache_def intro!: triple_map_err triple_ok)
qed

lemma act_of_value: "act (act_of (Inr b)) f = f b"
  by (rule ext) (simp add: act_def)

text \<open>The bytes that saving a receipt puts into its file.\<close>

definition receipt_node :: "('d, 'i) codex_env \<Rightarrow> install_receipt \<Rightarrow> inode option \<Rightarrow> bool" where
  "receipt_node env r y \<longleftrightarrow> (\<exists>bytes. encode_receipt env r = Inr bytes \<and> y = Some (private_file (xe_os env) bytes))"

lemma save_receipt_triple:
  assumes "own_codex env home ed"
  shows "triple (files_at ed x y) (receipt_store_save env (cx_receipt_path ed) r h)
    (\<lambda>l w. \<exists>y'. receipt_node env r y' \<and> map_option (\<lambda>n. os_sha256 (xe_os env) (nd_bytes n)) y' = Some (lf_sha256 l) \<and>
        h = map_option (\<lambda>n. os_sha256 (xe_os env) (nd_bytes n)) y \<and> files_at ed x y' w)
    (\<lambda>_ w. files_at ed x y w \<or> (\<exists>y'. receipt_node env r y' \<and> files_at ed x y' w))"
proof (cases "encode_receipt env r")
  case (Inl e)
  then show ?thesis by (simp add: receipt_store_save_def triple_def act_def)
next
  case (Inr bytes)
  note own = own_codex_files[OF assms]
  have keeps: "triple (\<lambda>w. wd_fs w (cx_config_path ed) = x)
      (write_with_policy (xe_os env) (cx_receipt_path ed) h bytes PolicyPrivate False)
      (\<lambda>_ w. wd_fs w (cx_config_path ed) = x) (\<lambda>_ w. wd_fs w (cx_config_path ed) = x)"
    unfolding own_codex_paths(3)[OF assms]
    by (rule write_keeps_at[OF own(3)]) (auto simp: beside_def own_codex_paths[OF assms] take_Cons' split: if_splits dest: arg_cong[of _ _ length])
  have "triple (files_at ed x y) (write_with_policy (xe_os env) (cx_receipt_path ed) h bytes PolicyPrivate False)
    (\<lambda>l w. \<exists>y'. receipt_node env r y' \<and> map_option (\<lambda>n. os_sha256 (xe_os env) (nd_bytes n)) y' = Some (lf_sha256 l) \<and>
        h = map_option (\<lambda>n. os_sha256 (xe_os env) (nd_bytes n)) y \<and> files_at ed x y' w)
    (\<lambda>_ w. files_at ed x y w \<or> (\<exists>y'. receipt_node env r y' \<and> files_at ed x y' w))"
    by (rule triple_conseq[OF triple_conj[OF keeps write_at[OF own(2), of y]]])
      (auto simp: files_at_def receipt_node_def Inr loaded_of_def private_file_def)
  then show ?thesis
    unfolding receipt_store_save_def Inr write_without_backup_def act_of_value by (rule triple_map_err)
qed

lemma write_config_triple:
  assumes "own_codex env home ed"
  shows "triple (files_at ed x y) (write_external (xe_os env) (cx_config_path ed) h bytes)
    (\<lambda>_ w. files_at ed (Some (private_file (xe_os env) bytes)) y w \<and>
       h = map_option (\<lambda>n. os_sha256 (xe_os env) (nd_bytes n)) x)
    (\<lambda>_ w. files_at ed x y w \<or> files_at ed (Some (private_file (xe_os env) bytes)) y w)"
proof -
  note own = own_codex_files[OF assms]
  have keeps: "triple (\<lambda>w. wd_fs w (cx_receipt_path ed) = y)
      (write_with_policy (xe_os env) (cx_config_path ed) h bytes PolicyTrustedExisting False)
      (\<lambda>_ w. wd_fs w (cx_receipt_path ed) = y) (\<lambda>_ w. wd_fs w (cx_receipt_path ed) = y)"
    unfolding own_codex_paths(1)[OF assms]
    by (rule write_keeps_at[OF own(4)]) (auto simp: beside_def own_codex_paths[OF assms] take_Cons' split: if_splits dest: arg_cong[of _ _ length])
  show ?thesis
    unfolding write_external_def
    by (rule triple_conseq[OF triple_conj[OF keeps write_at[OF own(1), of x]]]) (auto simp: files_at_def)
qed

lemma remove_config_triple:
  assumes "own_codex env home ed"
  shows "triple (files_at ed x y) (remove_external (xe_os env) (cx_config_path ed) h)
    (\<lambda>_. files_at ed None y) (\<lambda>_ w. files_at ed x y w \<or> files_at ed None y w)"
proof -
  note own = own_codex_files[OF assms]
  have keeps: "triple (\<lambda>w. wd_fs w (cx_receipt_path ed) = y) (remove_external (xe_os env) (cx_config_path ed) h)
      (\<lambda>_ w. wd_fs w (cx_receipt_path ed) = y) (\<lambda>_ w. wd_fs w (cx_receipt_path ed) = y)"
    unfolding remove_external_def by (rule remove_loaded_keeps_at[OF own(4,7) load_file_stable])
  show ?thesis
    by (rule triple_conseq[OF triple_conj[OF keeps remove_external_at[OF own(3), of x]]]) (auto simp: files_at_def)
qed

section \<open>What an operation leaves\<close>

text \<open>How far an apply has come: nothing written, the prepared receipt, the configuration too, and all.\<close>

definition install_progress ::
  "('d, 'i) codex_env \<Rightarrow> inode option \<Rightarrow> inode option \<Rightarrow> str \<Rightarrow> (receipt_phase \<Rightarrow> install_receipt) \<Rightarrow>
     inode option \<Rightarrow> inode option \<Rightarrow> install_receipt option \<Rightarrow> bool" where
  "install_progress env x y bytes receipt x' y' result \<longleftrightarrow>
     (let h = os_sha256 (xe_os env) bytes; new = Some (private_file (xe_os env) bytes) in
      x' = x \<and> y' = y \<and> result = None \<or>
      receipt_node env (receipt (PhasePrepared h)) y' \<and> x' \<in> {x, new} \<and> result = None \<or>
      receipt_node env (receipt (PhaseActive h)) y' \<and> x' = new \<and> result \<in> {None, Some (receipt (PhaseActive h))})"

lemma install_triple:
  fixes env :: "('d, 'i) codex_env"
  assumes own: "own_codex env home ed"
  shows "triple (files_at ed x y) (install_candidate env ed config model_cache receipt_sha256 bytes receipt)
    (\<lambda>r w. \<exists>x' y'. files_at ed x' y' w \<and> install_progress env x y bytes receipt x' y' (Some r))
    (\<lambda>_ w. \<exists>x' y'. files_at ed x' y' w \<and> install_progress env x y bytes receipt x' y' None)"
proof -
  let ?E = "\<lambda>w. \<exists>x' y'. files_at ed x' y' w \<and> install_progress env x y bytes receipt x' y' None"
  let ?h = "os_sha256 (xe_os env) bytes" and ?new = "Some (private_file (xe_os env) bytes)"
  let ?prepared = "receipt (PhasePrepared ?h)" and ?active = "receipt (PhaseActive ?h)"
  have E: "?E w" if "files_at ed x' y' w" "install_progress env x y bytes receipt x' y' None" for x' y' w
    using that by blast
  have first: "triple (files_at ed x y) (act_map_err CodexReceipt (receipt_store_save env (cx_receipt_path ed) ?prepared receipt_sha256))
      (\<lambda>_ w. \<exists>y'. receipt_node env ?prepared y' \<and> files_at ed x y' w) (\<lambda>_. ?E)"
    by (rule triple_map_err, rule triple_conseq[OF save_receipt_triple[OF own]])
      (blast | fastforce simp: install_progress_def Let_def)+
  have second: "triple (files_at ed x y') (act_map_err CodexFile (write_external (xe_os env) (cx_config_path ed) (cfg_sha256 config) bytes))
      (\<lambda>_. files_at ed ?new y') (\<lambda>_. ?E)" if "receipt_node env ?prepared y'" for y'
    by (rule triple_map_err, rule triple_conseq[OF write_config_triple[OF own]])
      (use that in \<open>(blast | fastforce simp: install_progress_def Let_def)+\<close>)
  have third: "triple (files_at ed ?new y') (invalidate_model_cache env ed model_cache) (\<lambda>_. files_at ed ?new y') (\<lambda>_. ?E)"
    if "receipt_node env ?prepared y'" for y'
    by (rule triple_conseq[OF invalidate_triple[OF own]]) (use that in \<open>(blast | fastforce simp: install_progress_def Let_def)+\<close>)
  have fourth: "triple (files_at ed ?new y') (act_map_err CodexReceipt (receipt_store_save env (cx_receipt_path ed) ?active h))
      (\<lambda>_ w. \<exists>y'. receipt_node env ?active y' \<and> files_at ed ?new y' w) (\<lambda>_. ?E)"
    if "receipt_node env ?prepared y'" for y' h
    by (rule triple_map_err, rule triple_conseq[OF save_receipt_triple[OF own]])
      (use that in \<open>(blast | fastforce simp: install_progress_def Let_def)+\<close>)
  have ex: "triple (\<lambda>w. \<exists>y'. A y' \<and> P y' w) m Q F" if "\<And>y'. A y' \<Longrightarrow> triple (P y') m Q F"
    for A P Q F and m :: "('s, 'x, 'z) action"
    using that by (fastforce simp: triple_def)
  show ?thesis
    unfolding install_candidate_def Let_def
    by (rule triple_act[OF first], rule ex, rule triple_act[OF second], assumption, rule triple_act[OF third], assumption,
        rule triple_act[OF fourth], assumption, rule triple_ok) (fastforce simp: install_progress_def Let_def)
qed

lemma apply_triple:
  fixes env :: "('d, 'i) codex_env"
  assumes own: "own_codex env home ed"
  shows "triple (files_at ed x y) (apply_integration env ed desired updated_at)
    (\<lambda>r w. \<exists>x' y' c l cache original oc h. files_at ed x' y' w \<and> config_view env x c \<and> receipt_view env y l \<and>
       choose_original env ed c cache l = Inr (original, oc, h) \<and>
       install_progress env x y (toml_text (xe_toml env) (prepare_candidate env (cfg_document c) desired))
         (planned_receipt ed desired updated_at original oc) x' y' (Some r))
    (\<lambda>_ w. files_at ed x y w \<or> (\<exists>x' y' c l cache original oc h. files_at ed x' y' w \<and> config_view env x c \<and> receipt_view env y l \<and>
       choose_original env ed c cache l = Inr (original, oc, h) \<and>
       install_progress env x y (toml_text (xe_toml env) (prepare_candidate env (cfg_document c) desired))
         (planned_receipt ed desired updated_at original oc) x' y' None))"
    (is "triple _ _ ?Q (\<lambda>_. ?E)")
proof -
  have weak: "triple P m Q (\<lambda>_. files_at ed x y) \<Longrightarrow> triple P m Q (\<lambda>_. ?E)" for P Q and m :: "('x, 'z) io"
    by (erule triple_weak) blast
  show ?thesis
    unfolding apply_integration_def
  proof (rule triple_act[OF weak[OF load_config_triple[OF own]]], rule triple_given,
      rule triple_act[OF weak[OF load_model_cache_triple[OF own]]],
      rule triple_act[OF weak[OF load_receipt_triple[OF own]]], rule triple_given, goal_cases)
    case (1 c mc l)
    show ?case
    proof (rule triple_act[where M = "\<lambda>o' w. choose_original env ed c mc l = Inr o' \<and> files_at ed x y w"], goal_cases)
      case 1
      show ?case by (rule triple_of) auto
    next
      case (2 o')
      show ?case
        by (cases o', simp only: prod.case, rule triple_given, rule triple_conseq[OF install_triple[OF own]])
          (use 1 in blast)+
    qed
  qed
qed

text \<open>What restoring makes of the configuration.\<close>

definition restored_node ::
  "('d, 'i) codex_env \<Rightarrow> 'd current_config \<Rightarrow> original_config \<Rightarrow> str \<Rightarrow> inode option \<Rightarrow> inode option" where
  "restored_node env c original candidate x =
     (if \<not> oc_existed original \<and> trim candidate = [] then None
      else if candidate \<noteq> cfg_contents c then Some (private_file (xe_os env) candidate)
      else x)"

lemma write_restored_triple:
  fixes env :: "('d, 'i) codex_env"
  assumes own: "own_codex env home ed" and "config_view env x c"
  shows "triple (files_at ed x y) (write_restored env ed c original candidate)
    (\<lambda>_. files_at ed (restored_node env c original candidate x) y)
    (\<lambda>_ w. files_at ed x y w \<or> files_at ed (restored_node env c original candidate x) y w)"
proof -
  have none: "cfg_sha256 c = None \<Longrightarrow> x = None"
    using assms(2) by (auto simp: config_view_def split: option.splits)
  show ?thesis
  proof (cases "\<not> oc_existed original \<and> trim candidate = []")
    case True
    then show ?thesis
      using none remove_config_triple[OF own, of x y]
      by (cases "cfg_sha256 c") (auto simp: write_restored_def restored_node_def intro!: triple_ok triple_map_err)
  next
    case False
    have external: "triple (files_at ed x y) (write_external (xe_os env) (cx_config_path ed) (cfg_sha256 c) candidate)
        (\<lambda>_. files_at ed (Some (private_file (xe_os env) candidate)) y)
        (\<lambda>_ w. files_at ed x y w \<or> files_at ed (Some (private_file (xe_os env) candidate)) y w)"
      by (rule triple_conseq[OF write_config_triple[OF own]]) auto
    show ?thesis
    proof (cases "candidate = cfg_contents c")
      case True
      with False show ?thesis
        by (auto simp: write_restored_def restored_node_def intro!: triple_ok)
    next
      case differs: False
      have node: "restored_node env c original candidate x = Some (private_file (xe_os env) candidate)"
        using False differs by (auto simp: restored_node_def)
      have eq: "write_restored env ed c original candidate =
          act (act_map_err CodexFile (write_external (xe_os env) (cx_config_path ed) (cfg_sha256 c) candidate)) (\<lambda>_. act_ok ())"
        using False differs by (auto simp: write_restored_def)
      show ?thesis
        unfolding node eq by (rule triple_act, rule triple_map_err, rule external, rule triple_ok)
    qed
  qed
qed

definition restored_receipt :: "install_receipt \<Rightarrow> str \<Rightarrow> install_receipt" where
  "restored_receipt r updated_at = r\<lparr>ir_phase := PhaseRestored, ir_updated_at := updated_at\<rparr>"

text \<open>How far a restore has come: nothing written, the configuration, and the receipt too.\<close>

definition restore_progress ::
  "('d, 'i) codex_env \<Rightarrow> codex_editor \<Rightarrow> str \<Rightarrow> inode option \<Rightarrow> inode option \<Rightarrow> inode option \<Rightarrow> inode option \<Rightarrow>
     install_receipt option \<Rightarrow> bool" where
  "restore_progress env ed updated_at x y x' y' result \<longleftrightarrow>
     x' = x \<and> y' = y \<and> result = None \<or>
     (\<exists>r h. receipt_view env y (Some (r, h)) \<and> ir_phase r = PhaseRestored \<and> x' = x \<and> y' = y \<and> result = Some r) \<or>
     (\<exists>r h c d. receipt_view env y (Some (r, h)) \<and> ir_phase r \<noteq> PhaseRestored \<and> config_view env x c \<and>
        current_matches_receipt env c r \<and> parse_document env (oc_contents (ir_original r)) = Inr d \<and>
        x' = restored_node env c (ir_original r) (toml_text (xe_toml env) (restore_candidate env d (cfg_document c))) x \<and>
        (y' = y \<and> result = None \<or>
         receipt_node env (restored_receipt r updated_at) y' \<and> result \<in> {None, Some (restored_receipt r updated_at)}))"

lemma restore_triple:
  fixes env :: "('d, 'i) codex_env"
  assumes own: "own_codex env home ed"
  shows "triple (files_at ed x y) (restore_integration env ed updated_at)
    (\<lambda>r w. \<exists>x' y'. files_at ed x' y' w \<and> restore_progress env ed updated_at x y x' y' (Some r))
    (\<lambda>_ w. \<exists>x' y'. files_at ed x' y' w \<and> restore_progress env ed updated_at x y x' y' None)"
    (is "triple _ _ ?Q (\<lambda>_. ?E)")
proof -
  have start: "?E w" if "files_at ed x y w" for w
    using that by (auto simp: restore_progress_def)
  have weak: "triple P m Q (\<lambda>_. files_at ed x y) \<Longrightarrow> triple P m Q (\<lambda>_. ?E)" for P Q and m :: "('x, 'z) io"
    by (erule triple_weak) (rule start)
  have load: "triple (files_at ed x y) (act_map_err CodexReceipt (receipt_store_load env (cx_receipt_path ed)))
      (\<lambda>l w. receipt_view env y (Some l) \<and> files_at ed x y w) (\<lambda>_. files_at ed x y)"
    by (rule triple_map_err, rule triple_conseq[OF receipt_load_triple[OF own]]) auto
  show ?thesis
    unfolding restore_integration_def Let_def
  proof (rule triple_act[OF weak[OF load]], rule triple_given, goal_cases)
    case (1 l)
    obtain r h where l: "l = (r, h)" by fastforce
    have view: "receipt_view env y (Some (r, h))" using 1 l by simp
    show ?case
      unfolding l prod.case
    proof (rule triple_act[where M = "\<lambda>_. files_at ed x y"], rule triple_of, assumption, erule start, rule triple_if, goal_cases)
      case 1
      then show ?case by (intro triple_ok) (use view in \<open>auto simp: restore_progress_def\<close>)
    next
      case 2
      then have phase: "ir_phase r \<noteq> PhaseRestored" by simp
      show ?case
      proof (rule triple_act[OF weak[OF load_config_triple[OF own]]], rule triple_given, goal_cases)
        case (1 c)
        then have c: "config_view env x c" by simp
        show ?case
        proof (rule triple_act[where M = "\<lambda>_ w. current_matches_receipt env c r \<and> files_at ed x y w"], goal_cases)
          case 1
          show ?case by (rule triple_of) (auto simp: validate_current_against_receipt_def start split: if_splits)
        next
          case (2 u)
          show ?case
          proof (rule triple_given, rule triple_act[OF weak[OF load_model_cache_triple[OF own]]],
              rule triple_act[OF weak[OF invalidate_triple[OF own]]], goal_cases)
            case (1 mc v)
            then have matches: "current_matches_receipt env c r" by simp
            show ?case
            proof (rule triple_act[where M = "\<lambda>d w. parse_document env (oc_contents (ir_original r)) = Inr d \<and> files_at ed x y w"], goal_cases)
              case 1
              show ?case by (rule triple_of) (auto intro: start)
            next
              case (2 d)
              let ?x = "restored_node env c (ir_original r) (toml_text (xe_toml env) (restore_candidate env d (cfg_document c))) x"
              have progress: "restore_progress env ed updated_at x y x' y' result"
                if "parse_document env (oc_contents (ir_original r)) = Inr d" "x' = ?x"
                  "y' = y \<and> result = None \<or>
                   receipt_node env (restored_receipt r updated_at) y' \<and> result \<in> {None, Some (restored_receipt r updated_at)}"
                for x' y' result
                using that view phase c matches by (auto simp: restore_progress_def)
              show ?case
              proof (rule triple_given, rule triple_act[where M = "\<lambda>_. files_at ed ?x y"])
                assume d: "parse_document env (oc_contents (ir_original r)) = Inr d"
                show "triple (files_at ed x y) (write_restored env ed c (ir_original r)
                    (toml_text (xe_toml env) (restore_candidate env d (cfg_document c)))) (\<lambda>_. files_at ed ?x y) (\<lambda>_. ?E)"
                  by (rule triple_conseq[OF write_restored_triple[OF own c]]) (use d start progress in blast)+
                have save: "triple (files_at ed ?x y)
                   (act_map_err CodexReceipt (receipt_store_save env (cx_receipt_path ed) (restored_receipt r updated_at) (Some h)))
                   (\<lambda>_ w. \<exists>y'. receipt_node env (restored_receipt r updated_at) y' \<and> files_at ed ?x y' w) (\<lambda>_. ?E)"
                  by (rule triple_map_err, rule triple_conseq[OF save_receipt_triple[OF own]]) (use d progress in blast)+
                show "triple (files_at ed ?x y)
                   (act (act_map_err CodexReceipt (receipt_store_save env (cx_receipt_path ed)
                      (r\<lparr>ir_phase := PhaseRestored, ir_updated_at := updated_at\<rparr>) (Some h)))
                      (\<lambda>_. act_ok (r\<lparr>ir_phase := PhaseRestored, ir_updated_at := updated_at\<rparr>))) ?Q (\<lambda>_. ?E)" for u :: unit
                  unfolding restored_receipt_def[symmetric]
                  by (rule triple_act[OF save], rule triple_ok) (use d progress in blast)
              qed
            qed
          qed
        qed
      qed
    qed
  qed
qed

section \<open>The laws of the libraries\<close>

text \<open>Items are compared by their string, if they are one, and by their text without the blanks around it.\<close>

definition alike_item :: "('d, 'i) codex_env \<Rightarrow> 'i option \<Rightarrow> 'i option \<Rightarrow> bool" where
  "alike_item env a b \<longleftrightarrow>
     map_option (\<lambda>i. (item_str (xe_toml env) i, trim (item_text (xe_toml env) i))) a =
     map_option (\<lambda>i. (item_str (xe_toml env) i, trim (item_text (xe_toml env) i))) b"

text \<open>
  Documents are those that parsing and these edits make. Setting and removing a key changes that key only; the text
  of a document parses to a document with the same items; the new document prints as the empty text, and a document
  with a key prints something that is not blank.
\<close>

definition toml_laws :: "('d, 'i) codex_env \<Rightarrow> bool" where
  "toml_laws env \<longleftrightarrow>
     (let t = xe_toml env in
      (\<forall>d k i k'. toml_get t (toml_assign t d k i) k' = (if k' = k then Some i else toml_get t d k')) \<and>
      (\<forall>d k i k'. toml_get t (toml_insert t d k i) k' = (if k' = k then Some i else toml_get t d k')) \<and>
      (\<forall>d k k'. toml_get t (toml_remove t d k) k' = (if k' = k then None else toml_get t d k')) \<and>
      (\<forall>s. item_str t (toml_value t s) = Some s) \<and>
      (\<forall>k. toml_get t (toml_empty t) k = None) \<and> toml_text t (toml_empty t) = [] \<and>
      (\<forall>d. \<exists>d'. toml_parse t (toml_text t d) = Inr d' \<and> (\<forall>k. alike_item env (toml_get t d' k) (toml_get t d k))) \<and>
      (\<forall>d k i. toml_get t d k = Some i \<longrightarrow> trim (toml_text t d) \<noteq> []))"

definition receipts_read_back :: "('d, 'i) codex_env \<Rightarrow> bool" where
  "receipts_read_back env \<longleftrightarrow> (\<forall>r bytes. encode_receipt env r = Inr bytes \<longrightarrow> decode_receipt env bytes = Inr r)"

lemma keys_distinct [simp]:
  "OPENAI_BASE_URL \<noteq> MODEL_CATALOG_JSON" "OPENAI_BASE_URL \<noteq> MODEL_PROVIDER" "MODEL_CATALOG_JSON \<noteq> MODEL_PROVIDER"
  "MODEL_CATALOG_JSON \<noteq> OPENAI_BASE_URL" "MODEL_PROVIDER \<noteq> OPENAI_BASE_URL" "MODEL_PROVIDER \<noteq> MODEL_CATALOG_JSON"
  by (simp_all add: OPENAI_BASE_URL_def MODEL_CATALOG_JSON_def MODEL_PROVIDER_def)

lemma alike_item_get_str:
  "alike_item env (toml_get (xe_toml env) d' k) (toml_get (xe_toml env) d k) \<Longrightarrow> get_str env d' k = get_str env d k"
  by (cases "toml_get (xe_toml env) d' k"; cases "toml_get (xe_toml env) d k") (auto simp: alike_item_def get_str_def)

lemma alike_item_None [simp]: "alike_item env a None \<longleftrightarrow> a = None" "alike_item env None a \<longleftrightarrow> a = None"
  by (auto simp: alike_item_def)

lemma alike_item_refl [simp]: "alike_item env a a"
  by (simp add: alike_item_def)

lemma alike_item_trans: "alike_item env a b \<Longrightarrow> alike_item env b c \<Longrightarrow> alike_item env a c"
  by (simp add: alike_item_def)

lemma items_match_alike: "alike_item env a b \<Longrightarrow> items_match env a b"
  by (cases a; cases b) (auto simp: alike_item_def items_match_def split: option.splits)

lemma candidate_items:
  assumes "toml_laws env"
  shows "toml_get (xe_toml env) (prepare_candidate env d desired) k =
    (if k = OPENAI_BASE_URL then Some (toml_value (xe_toml env) (cx_openai_base_url desired))
     else if k = MODEL_CATALOG_JSON then None
     else if k = MODEL_PROVIDER then Some (toml_value (xe_toml env) ''openai'')
     else toml_get (xe_toml env) d k)"
  using assms by (auto simp: toml_laws_def prepare_candidate_def Let_def)

lemma restored_items:
  assumes "toml_laws env"
  shows "toml_get (xe_toml env) (restore_candidate env original d) k =
    (if k \<in> set managed_keys then toml_get (xe_toml env) original k else toml_get (xe_toml env) d k)"
  using assms by (auto simp: toml_laws_def restore_candidate_def restore_item_def managed_keys_def Let_def split: option.splits)

lemma printed_items:
  assumes "toml_laws env" "config_view env (Some (private_file os (toml_text (xe_toml env) d))) c"
  shows "alike_item env (toml_get (xe_toml env) (cfg_document c) k) (toml_get (xe_toml env) d k)"
  using assms by (auto simp: toml_laws_def config_view_def private_file_def Let_def) (metis Inr_inject)

lemma applied_matches:
  assumes "toml_laws env" "av_openai_base_url (ir_applied_values r) = cx_openai_base_url desired"
    and "config_view env (Some (private_file os (toml_text (xe_toml env) (prepare_candidate env d desired)))) c"
  shows "managed_state_matches env (cfg_document c) r"
proof -
  have same: "alike_item env (toml_get (xe_toml env) (cfg_document c) k) (toml_get (xe_toml env) (prepare_candidate env d desired) k)" for k
    by (rule printed_items[OF assms(1,3)])
  have valued: "item_str (xe_toml env) (toml_value (xe_toml env) s) = Some s" for s
    using assms(1) by (simp add: toml_laws_def Let_def)
  show ?thesis
    using same[of MODEL_CATALOG_JSON] alike_item_get_str[OF same[of OPENAI_BASE_URL]] alike_item_get_str[OF same[of MODEL_PROVIDER]]
    by (simp add: managed_state_matches_def candidate_items[OF assms(1)] get_str_def assms(2) valued)
qed

lemma trim_empty [simp]: "trim [] = []"
  by (simp add: trim_def trim_end_def)

lemma toml_printed:
  "toml_laws env \<Longrightarrow> \<exists>d'. toml_parse (xe_toml env) (toml_text (xe_toml env) d) = Inr d' \<and>
     (\<forall>k. alike_item env (toml_get (xe_toml env) d' k) (toml_get (xe_toml env) d k))"
  by (simp add: toml_laws_def Let_def)

lemma printed_blank: "toml_laws env \<Longrightarrow> trim (toml_text (xe_toml env) d) = [] \<Longrightarrow> toml_get (xe_toml env) d k = None"
  unfolding toml_laws_def Let_def by (metis option.exhaust)

lemma toml_parse_empty:
  assumes "toml_laws env"
  obtains d where "toml_parse (xe_toml env) [] = Inr d" "\<forall>k. toml_get (xe_toml env) d k = None"
proof -
  have "toml_text (xe_toml env) (toml_empty (xe_toml env)) = []" "\<forall>k. toml_get (xe_toml env) (toml_empty (xe_toml env)) k = None"
    using assms by (simp_all add: toml_laws_def Let_def)
  with toml_printed[OF assms, of "toml_empty (xe_toml env)"] that show thesis by auto
qed

lemma toml_empty_get: "toml_laws env \<Longrightarrow> toml_get (xe_toml env) (toml_empty (xe_toml env)) k = None"
  by (simp add: toml_laws_def Let_def)

lemma original_matches:
  assumes "toml_laws env" "config_view env x c" "oc_contents (ir_original r) = cfg_contents c"
  shows "original_managed_state_matches env (cfg_document c) r"
proof (cases x)
  case None
  obtain d where "toml_parse (xe_toml env) [] = Inr d" "\<forall>k. toml_get (xe_toml env) d k = None"
    by (rule toml_parse_empty[OF assms(1)])
  moreover have "cfg_contents c = []" "\<forall>k. toml_get (xe_toml env) (cfg_document c) k = None"
    using None assms(2) toml_empty_get[OF assms(1)] by (simp_all add: config_view_def)
  ultimately show ?thesis
    using assms(3) by (simp add: original_managed_state_matches_def parse_document_def items_match_def list_all_iff)
next
  case (Some n)
  then show ?thesis
    using assms(2,3) by (simp add: original_managed_state_matches_def parse_document_def config_view_def list_all_iff items_match_alike)
qed

section \<open>Properties\<close>

text \<open>
  The files are sound when the configuration agrees with the receipt: neither applying nor restoring is refused
  as drift.
\<close>

definition codex_sound :: "('d, 'i) codex_env \<Rightarrow> codex_editor \<Rightarrow> fs \<Rightarrow> bool" where
  "codex_sound env ed fs \<longleftrightarrow>
     (\<forall>c r h. config_view env (fs (cx_config_path ed)) c \<longrightarrow> receipt_view env (fs (cx_receipt_path ed)) (Some (r, h)) \<longrightarrow>
        ir_config_path r = path_text (cx_config_path ed) \<and>
        (case ir_phase r of
           PhaseRestored \<Rightarrow> True
         | PhaseActive _ \<Rightarrow> managed_state_matches env (cfg_document c) r
         | PhasePrepared _ \<Rightarrow> managed_state_matches env (cfg_document c) r \<or>
             original_managed_state_matches env (cfg_document c) r))"

lemma sound_matches:
  assumes "codex_sound env ed fs" "config_view env (fs (cx_config_path ed)) c"
    and "receipt_view env (fs (cx_receipt_path ed)) (Some (r, h))" "ir_phase r \<noteq> PhaseRestored"
  shows "validate_receipt_path ed r = Inr () \<and> validate_current_against_receipt env c r = Inr ()"
  using assms unfolding codex_sound_def
  by (cases "ir_phase r")
    (fastforce simp: validate_receipt_path_def validate_current_against_receipt_def current_matches_receipt_def)+

lemma receipt_node_view:
  "receipts_read_back env \<Longrightarrow> receipt_node env r y \<Longrightarrow> receipt_view env y (Some (r', h)) \<Longrightarrow> r' = r"
  by (auto simp: receipts_read_back_def receipt_node_def receipt_view_def private_file_def)

lemma config_view_unique: "config_view env x c \<Longrightarrow> config_view env x c' \<Longrightarrow> c = c'"
  by (auto simp: config_view_def split: option.splits)

lemma receipt_view_unique: "receipt_view env y l \<Longrightarrow> receipt_view env y l' \<Longrightarrow> l = l'"
  by (auto simp: receipt_view_def split: option.splits)

lemma chosen_original:
  assumes "choose_original env ed c cache l = Inr (original, oc, h)"
  shows "original = original_of c \<and> (\<forall>r h. l = Some (r, h) \<longrightarrow> ir_phase r = PhaseRestored) \<or>
    (\<exists>r h. l = Some (r, h) \<and> ir_phase r \<noteq> PhaseRestored \<and> original = ir_original r)"
  using assms by (auto simp: choose_original_def split: option.splits prod.splits if_splits)

lemma install_sound:
  assumes laws: "toml_laws env" "receipts_read_back env"
    and old: "files_at ed x y w" "codex_sound env ed (wd_fs w)" "config_view env x c" "receipt_view env y l"
    and chosen: "choose_original env ed c cache l = Inr (original, oc, h)"
    and same: "\<forall>r h. l = Some (r, h) \<longrightarrow> ir_phase r = PhaseRestored \<or>
      av_openai_base_url (ir_applied_values r) = cx_openai_base_url desired"
    and new: "files_at ed x' y' w'"
    and progress: "install_progress env x y (toml_text (xe_toml env) (prepare_candidate env (cfg_document c) desired))
      (planned_receipt ed desired updated_at original oc) x' y' result"
  shows "codex_sound env ed (wd_fs w')"
  unfolding codex_sound_def
proof (intro allI impI)
  fix c' r' h'
  let ?bytes = "toml_text (xe_toml env) (prepare_candidate env (cfg_document c) desired)"
  let ?r = "planned_receipt ed desired updated_at original oc"
  assume "config_view env (wd_fs w' (cx_config_path ed)) c'" "receipt_view env (wd_fs w' (cx_receipt_path ed)) (Some (r', h'))"
  then have c': "config_view env x' c'" and r': "receipt_view env y' (Some (r', h'))"
    using new by (simp_all add: files_at_def)
  have path: "ir_config_path (?r phase) = path_text (cx_config_path ed)"
    and url: "av_openai_base_url (ir_applied_values (?r phase)) = cx_openai_base_url desired"
    and orig: "ir_original (?r phase) = original" and phase: "ir_phase (?r phase) = phase" for phase
    by (simp_all add: planned_receipt_def)
  have written: "managed_state_matches env (cfg_document c') (?r p)" if "x' = Some (private_file (xe_os env) ?bytes)" for p
    using applied_matches[OF laws(1) url] c' that by simp
  have untouched: "managed_state_matches env (cfg_document c') (?r p) \<or> original_managed_state_matches env (cfg_document c') (?r p)"
    if "x' = x" for p
  proof -
    have cc: "c' = c" using config_view_unique old(3) c' that by blast
    from chosen_original[OF chosen] show ?thesis
    proof (elim disjE exE conjE)
      assume "original = original_of c"
      then have "oc_contents (ir_original (?r p)) = cfg_contents c" by (simp add: planned_receipt_def original_of_def)
      from original_matches[OF laws(1) old(3) this] show ?thesis using cc by simp
    next
      fix r h assume r: "l = Some (r, h)" "ir_phase r \<noteq> PhaseRestored" "original = ir_original r"
      then have "managed_state_matches env (cfg_document c) r \<or> original_managed_state_matches env (cfg_document c) r"
        using old unfolding codex_sound_def files_at_def by (cases "ir_phase r") fastforce+
      moreover have "av_openai_base_url (ir_applied_values r) = cx_openai_base_url desired" using same r by blast
      ultimately show ?thesis
        using r(3) cc by (simp add: managed_state_matches_def original_managed_state_matches_def planned_receipt_def)
    qed
  qed
  show "ir_config_path r' = path_text (cx_config_path ed) \<and>
        (case ir_phase r' of
           PhaseRestored \<Rightarrow> True
         | PhaseActive _ \<Rightarrow> managed_state_matches env (cfg_document c') r'
         | PhasePrepared _ \<Rightarrow> managed_state_matches env (cfg_document c') r' \<or>
             original_managed_state_matches env (cfg_document c') r')"
    using progress unfolding install_progress_def Let_def
  proof (elim disjE conjE)
    assume "x' = x" "y' = y"
    then show ?thesis using old c' r' unfolding codex_sound_def files_at_def by blast
  next
    assume "receipt_node env (?r (PhasePrepared (os_sha256 (xe_os env) ?bytes))) y'" "x' \<in> {x, Some (private_file (xe_os env) ?bytes)}"
    then show ?thesis
      using receipt_node_view[OF laws(2) _ r'] written untouched by (auto simp: path phase)
  next
    assume "receipt_node env (?r (PhaseActive (os_sha256 (xe_os env) ?bytes))) y'" "x' = Some (private_file (xe_os env) ?bytes)"
    then show ?thesis
      using receipt_node_view[OF laws(2) _ r'] written by (auto simp: path phase)
  qed
qed


lemma original_items:
  assumes "toml_laws env" "config_view env x c" "parse_document env (cfg_contents c) = Inr d"
  shows "toml_get (xe_toml env) d k = toml_get (xe_toml env) (cfg_document c) k"
proof (cases x)
  case None
  obtain d0 where "toml_parse (xe_toml env) [] = Inr d0" "\<forall>k. toml_get (xe_toml env) d0 k = None"
    by (rule toml_parse_empty[OF assms(1)])
  then show ?thesis
    using None assms(2,3) toml_empty_get[OF assms(1)] by (simp add: config_view_def parse_document_def)
next
  case (Some n)
  then show ?thesis using assms(2,3) by (auto simp: config_view_def parse_document_def)
qed

lemma restored_node_cases:
  obtains "trim candidate = []" "restored_node env c original candidate x = None"
    | "restored_node env c original candidate x = Some (private_file (xe_os env) candidate)"
    | "restored_node env c original candidate x = x" "candidate = cfg_contents c"
proof (cases "\<not> oc_existed original \<and> trim candidate = []")
  case True
  then show ?thesis using that(1) by (simp add: restored_node_def)
next
  case False
  show ?thesis
  proof (cases "candidate = cfg_contents c")
    case True
    then have "restored_node env c original candidate x = x"
      unfolding restored_node_def if_not_P[OF False] by simp
    then show ?thesis using that(3) True by blast
  next
    case differs: False
    then have "restored_node env c original candidate x = Some (private_file (xe_os env) candidate)"
      unfolding restored_node_def if_not_P[OF False] by simp
    then show ?thesis using that(2) by blast
  qed
qed

lemma restored_node_items:
  assumes laws: "toml_laws env" and c: "config_view env x c" "candidate = toml_text (xe_toml env) d"
    and c2: "config_view env (restored_node env c original candidate x) c2"
  shows "alike_item env (toml_get (xe_toml env) (cfg_document c2) k) (toml_get (xe_toml env) d k)"
proof -
  have blank: "toml_get (xe_toml env) d k = None" if "trim candidate = []" using printed_blank[OF laws] that c(2) by simp
  from restored_node_cases[where env = env and c = c and original = original and candidate = candidate and x = x]
  show ?thesis
  proof cases
    case 1
    then show ?thesis using c2 blank toml_empty_get[OF laws] by (simp add: config_view_def)
  next
    case 2
    then show ?thesis using printed_items[OF laws, of "xe_os env" d c2 k] c2 c(2) by simp
  next
    case 3
    then have "c2 = c" using c2 c(1) config_view_unique by simp
    show ?thesis
    proof (cases x)
      case None
      then have "candidate = []" using 3 c(1) by (simp add: config_view_def)
      then show ?thesis using None \<open>c2 = c\<close> c(1) blank toml_empty_get[OF laws] by (simp add: config_view_def)
    next
      case (Some n)
      moreover obtain d' where "toml_parse (xe_toml env) (toml_text (xe_toml env) d) = Inr d'"
          "\<forall>k. alike_item env (toml_get (xe_toml env) d' k) (toml_get (xe_toml env) d k)"
        using toml_printed[OF laws] by blast
      ultimately show ?thesis using 3 c \<open>c2 = c\<close> by (simp add: config_view_def)
    qed
  qed
qed

text \<open>
  What a restore leaves, whatever the configuration became since the apply: the managed keys are again what they were
  in \<open>c0\<close>, absent ones absent, and every other key is what it is in the configuration \<open>c1\<close> that the restore finds.
\<close>

lemma restored_keys:
  fixes env :: "('d, 'i) codex_env"
  assumes "own_codex env home ed" "toml_laws env" "receipts_read_back env"
    and "\<forall>r h. receipt_view env (wd_fs w (cx_receipt_path ed)) (Some (r, h)) \<longrightarrow> ir_phase r = PhaseRestored"
    and "config_view env (wd_fs w (cx_config_path ed)) c0"
    and "apply_integration env ed desired t1 w = (Inr r1, w1)"
    and "wd_fs v (cx_receipt_path ed) = wd_fs w1 (cx_receipt_path ed)" "config_view env (wd_fs v (cx_config_path ed)) c1"
    and "restore_integration env ed t2 v = (Inr r2, w2)"
  shows "ir_phase r2 = PhaseRestored \<and>
    (\<forall>c2 k. config_view env (wd_fs w2 (cx_config_path ed)) c2 \<longrightarrow>
       alike_item env (toml_get (xe_toml env) (cfg_document c2) k)
         (toml_get (xe_toml env) (cfg_document (if k \<in> set managed_keys then c0 else c1)) k)) \<and>
    (wd_fs w2 (cx_config_path ed) = None \<longrightarrow> wd_fs w (cx_config_path ed) = None \<or> wd_fs v (cx_config_path ed) = None)"
proof -
  let ?x = "wd_fs w (cx_config_path ed)" and ?y = "wd_fs w (cx_receipt_path ed)" and ?x1 = "wd_fs v (cx_config_path ed)"
  have "files_at ed ?x ?y w" by (simp add: files_at_def)
  from triple_Inr[OF apply_triple[OF assms(1)] this assms(6)]
  obtain x' y' c l cache original oc h where
    new: "files_at ed x' y' w1" and c: "config_view env ?x c" and l: "receipt_view env ?y l"
    and chosen: "choose_original env ed c cache l = Inr (original, oc, h)"
    and progress: "install_progress env ?x ?y (toml_text (xe_toml env) (prepare_candidate env (cfg_document c) desired))
       (planned_receipt ed desired t1 original oc) x' y' (Some r1)"
    by blast
  have "original = original_of c"
    using chosen_original[OF chosen] assms(4) l by auto
  then have contents: "original = original_of c0" using config_view_unique[OF c assms(5)] by simp
  have r1: "\<exists>planned. r1 = planned_receipt ed desired t1 original oc (PhaseActive planned)" "receipt_node env r1 y'"
    using progress by (auto simp: install_progress_def Let_def)
  have "files_at ed ?x1 y' v" using assms(7) new by (simp add: files_at_def)
  from triple_Inr[OF restore_triple[OF assms(1)] this assms(9)]
  obtain x2 y2 where w2: "files_at ed x2 y2 w2" and restored: "restore_progress env ed t2 ?x1 y' x2 y2 (Some r2)"
    by blast
  have view: "r = r1" if "receipt_view env y' (Some (r, h))" for r h
    using receipt_node_view[OF assms(3) r1(2) that] .
  obtain d where d: "parse_document env (oc_contents original) = Inr d"
    and x2: "x2 = restored_node env c1 original (toml_text (xe_toml env) (restore_candidate env d (cfg_document c1))) ?x1"
    and r2: "r2 = restored_receipt r1 t2"
    using restored r1(1) config_view_unique[OF _ assms(8)] unfolding restore_progress_def
    by (auto simp: planned_receipt_def dest!: view)
  have items: "toml_get (xe_toml env) d k = toml_get (xe_toml env) (cfg_document c0) k" for k
    using original_items[OF assms(2,5), of d k] d contents by (simp add: original_of_def)
  have "alike_item env (toml_get (xe_toml env) (cfg_document c2) k)
         (toml_get (xe_toml env) (cfg_document (if k \<in> set managed_keys then c0 else c1)) k)"
    if "config_view env (wd_fs w2 (cx_config_path ed)) c2" for c2 k
    using restored_node_items[OF assms(2,8) refl, of original "restore_candidate env d (cfg_document c1)" c2 k] that w2 x2
    by (cases "k \<in> set managed_keys") (simp_all add: files_at_def restored_items[OF assms(2)] items)
  moreover have "?x = None \<or> ?x1 = None" if "x2 = None"
    using that x2 contents assms(5)
    by (auto simp: restored_node_def original_of_def config_view_def split: if_splits option.splits)
  ultimately show ?thesis
    using w2 r2 by (auto simp: files_at_def restored_receipt_def)
qed

lemma applied_config:
  fixes env :: "('d, 'i) codex_env"
  assumes own: "own_codex env home ed" and laws: "toml_laws env"
    and c0: "config_view env (wd_fs w (cx_config_path ed)) c0"
    and run: "apply_integration env ed desired updated_at w = (Inr r, w1)"
  obtains c1 where "config_view env (wd_fs w1 (cx_config_path ed)) c1" "wd_fs w1 (cx_config_path ed) \<noteq> None"
    "\<forall>k. k \<notin> set managed_keys \<longrightarrow>
       alike_item env (toml_get (xe_toml env) (cfg_document c1) k) (toml_get (xe_toml env) (cfg_document c0) k)"
proof -
  let ?x = "wd_fs w (cx_config_path ed)" and ?y = "wd_fs w (cx_receipt_path ed)"
  have "files_at ed ?x ?y w" by (simp add: files_at_def)
  from triple_Inr[OF apply_triple[OF own] this run]
  obtain x' y' c original oc where
    new: "files_at ed x' y' w1" and c: "config_view env ?x c"
    and progress: "install_progress env ?x ?y (toml_text (xe_toml env) (prepare_candidate env (cfg_document c) desired))
       (planned_receipt ed desired updated_at original oc) x' y' (Some r)"
    by blast
  let ?d = "prepare_candidate env (cfg_document c) desired"
  let ?bytes = "toml_text (xe_toml env) ?d"
  have x': "wd_fs w1 (cx_config_path ed) = Some (private_file (xe_os env) ?bytes)"
    using new progress by (auto simp: install_progress_def Let_def files_at_def)
  obtain d' where d': "toml_parse (xe_toml env) ?bytes = Inr d'"
      "\<forall>k. alike_item env (toml_get (xe_toml env) d' k) (toml_get (xe_toml env) ?d k)"
    using toml_printed[OF laws] by blast
  let ?c1 = "\<lparr>cfg_document = d', cfg_contents = ?bytes, cfg_sha256 = Some (os_sha256 (xe_os env) ?bytes)\<rparr>"
  have view: "config_view env (wd_fs w1 (cx_config_path ed)) ?c1"
    using d'(1) by (simp add: x' config_view_def private_file_def)
  have "alike_item env (toml_get (xe_toml env) (cfg_document ?c1) k) (toml_get (xe_toml env) (cfg_document c0) k)"
    if "k \<notin> set managed_keys" for k
    using d'(2)[rule_format, of k] that config_view_unique[OF c0 c] by (simp add: candidate_items[OF laws] managed_keys_def)
  then show thesis using that[OF view] x' by simp
qed


section \<open>An integration that nothing hinders\<close>

text \<open>
  The files can be read, there is no model cache to remove, and both directories are private and have room for
  temporary files.
\<close>

definition codex_ready ::
  "('d, 'i) codex_env \<Rightarrow> codex_editor \<Rightarrow> fs \<Rightarrow> 'd current_config \<Rightarrow> (install_receipt \<times> str) option \<Rightarrow> bool" where
  "codex_ready env ed fs c l \<longleftrightarrow>
     config_view env (fs (cx_config_path ed)) c \<and> receipt_view env (fs (cx_receipt_path ed)) l \<and>
     (\<forall>n. fs (cx_config_path ed) = Some n \<longrightarrow> validate_regular_file [] n = Inr () \<and> from_utf8 (nd_bytes n) = Inr (nd_bytes n)) \<and>
     (\<forall>n. fs (cx_receipt_path ed) = Some n \<longrightarrow> validate_regular_file [] n = Inr ()) \<and>
     fs (cx_model_cache_path ed) = None \<and>
     room_in (xe_os env) fs (butlast (cx_config_path ed)) \<and> room_in (xe_os env) fs (butlast (cx_receipt_path ed))"

lemma load_missing_works:
  "os_works os \<Longrightarrow> wd_fs w p = None \<Longrightarrow> load_file os p w = (Inl (MissingFile p), called (wd_fs w) w)"
  by (simp add: load_file_def secure_metadata_def act_map_err_def act_def works_call sys_metadata_def)

lemma ready_loads:
  assumes "os_works (xe_os env)" "codex_ready env ed (wd_fs w) c l"
  shows "\<exists>w'. load_config env ed w = (Inr c, w') \<and> wd_fs w' = wd_fs w"
    and "\<exists>w'. load_model_cache env ed w = (Inr None, w') \<and> wd_fs w' = wd_fs w"
    and "\<exists>w'. load_receipt env ed w = (Inr l, w') \<and> wd_fs w' = wd_fs w"
proof -
  show "\<exists>w'. load_config env ed w = (Inr c, w') \<and> wd_fs w' = wd_fs w"
  proof (cases "wd_fs w (cx_config_path ed)")
    case None
    then show ?thesis
      using load_missing_works[OF assms(1) None] assms(2)
      by (simp add: load_config_def act_match_def codex_ready_def config_view_def)
  next
    case (Some n)
    then have "validate_regular_file (cx_config_path ed) n = Inr ()"
      using assms(2) validate_anywhere unfolding codex_ready_def by blast
    from load_works[OF assms(1) Some this] show ?thesis
      using Some assms(2)
      by (cases "load_file (xe_os env) (cx_config_path ed) w")
        (auto simp: load_config_def act_match_def codex_ready_def config_view_def loaded_of_def act_def parse_document_def)
  qed
  show "\<exists>w'. load_model_cache env ed w = (Inr None, w') \<and> wd_fs w' = wd_fs w"
    using assms(2)
    by (simp add: load_model_cache_def act_match_def load_external_cache_def secure_metadata_def act_map_err_def act_def
        works_call[OF assms(1)] sys_metadata_def codex_ready_def)
  show "\<exists>w'. load_receipt env ed w = (Inr l, w') \<and> wd_fs w' = wd_fs w"
  proof (cases "wd_fs w (cx_receipt_path ed)")
    case None
    then show ?thesis
      using load_missing_works[OF assms(1) None] assms(2)
      by (simp add: load_receipt_def receipt_store_load_def act_def act_map_err_def act_match_def codex_ready_def receipt_view_def)
  next
    case (Some n)
    then have "validate_regular_file (cx_receipt_path ed) n = Inr ()"
      using assms(2) validate_anywhere unfolding codex_ready_def by blast
    from load_works[OF assms(1) Some this] show ?thesis
      using Some assms(2)
      by (cases "load_file (xe_os env) (cx_receipt_path ed) w")
        (auto simp: load_receipt_def receipt_store_load_def act_map_err_def act_match_def codex_ready_def receipt_view_def
          loaded_of_def act_def)
  qed
qed

lemma view_digest:
  "config_view env x c \<Longrightarrow> cfg_sha256 c = map_option (\<lambda>n. os_sha256 (xe_os env) (nd_bytes n)) x"
  "receipt_view env y l \<Longrightarrow> map_option snd l = map_option (\<lambda>n. os_sha256 (xe_os env) (nd_bytes n)) y"
  by (auto simp: config_view_def receipt_view_def split: option.splits)

lemma room_kept:
  assumes "room_in os fs d" "\<forall>q. q \<noteq> p \<longrightarrow> (\<forall>b. q \<noteq> d' @ [''backups'', b]) \<longrightarrow> fs' q = fs q"
    and "d \<noteq> p" "\<forall>k. d @ [os_temp os k] \<noteq> p" "\<forall>b. d \<noteq> d' @ [''backups'', b]"
    and "\<forall>k b. d @ [os_temp os k] \<noteq> d' @ [''backups'', b]"
  shows "room_in os fs' d"
  using assms by (simp add: room_in_def private_directory_def)

lemma receipt_works:
  assumes works: "os_works (xe_os env)" and own: "own_codex env home ed" and ready: "codex_ready env ed (wd_fs w) c l"
    and r: "encode_receipt env r = Inr bytes" "decode_receipt env bytes = Inr r"
  shows "\<exists>s w'. receipt_store_save env (cx_receipt_path ed) r (map_option snd l) w = (Inr s, w') \<and>
    lf_sha256 s = os_sha256 (xe_os env) bytes \<and>
    codex_ready env ed (wd_fs w') c (Some (r, os_sha256 (xe_os env) bytes))"
proof -
  note p = own_codex_paths[OF own] and o = own_codex_files[OF own]
  let ?os = "xe_os env" and ?d = "home @ [''Library'', ''Application Support'', ''dev.qiankun.provider-x'']"
  have rp: "cx_receipt_path ed = ?d @ [''install-receipt.json'']" by (simp add: p(3))
  have temps: "\<forall>k. os_temp ?os k \<noteq> ''install-receipt.json''" "\<forall>k. os_temp ?os k \<noteq> ''config.toml''"
    using o(1,2) by (simp_all add: own_file_def p)
  have "\<exists>w'. write_with_policy ?os (?d @ [''install-receipt.json'']) (map_option snd l) bytes PolicyPrivate False w
        = (Inr (loaded_of ?os (private_file ?os bytes)), w') \<and>
      wd_fs w' (?d @ [''install-receipt.json'']) = Some (private_file ?os bytes) \<and>
      (\<forall>q. q \<noteq> ?d @ [''install-receipt.json''] \<longrightarrow> (\<forall>b. q \<noteq> ?d @ [''backups'', b]) \<longrightarrow> wd_fs w' q = wd_fs w q)"
    by (rule write_works[OF works])
      (use ready temps view_digest(2) in \<open>auto simp: codex_ready_def rp butlast_append\<close>)
  then obtain w' where w': "write_with_policy ?os (cx_receipt_path ed) (map_option snd l) bytes PolicyPrivate False w
        = (Inr (loaded_of ?os (private_file ?os bytes)), w')"
      "wd_fs w' (cx_receipt_path ed) = Some (private_file ?os bytes)"
      "\<forall>q. q \<noteq> cx_receipt_path ed \<longrightarrow> (\<forall>b. q \<noteq> ?d @ [''backups'', b]) \<longrightarrow> wd_fs w' q = wd_fs w q"
    unfolding rp by blast
  have same: "wd_fs w' (cx_config_path ed) = wd_fs w (cx_config_path ed)"
    "wd_fs w' (cx_model_cache_path ed) = wd_fs w (cx_model_cache_path ed)"
    by (rule w'(3)[rule_format]; simp add: p; fail)+
  have rooms: "room_in ?os (wd_fs w') (butlast (cx_config_path ed))" "room_in ?os (wd_fs w') (butlast (cx_receipt_path ed))"
    by (rule room_kept[OF _ w'(3)];
        use ready temps in \<open>auto simp: codex_ready_def p butlast_append dest: arg_cong[of _ _ length]\<close>)+
  have "codex_ready env ed (wd_fs w') c (Some (r, os_sha256 ?os bytes))"
    using ready rooms same w'(2) r(2) by (simp add: codex_ready_def receipt_view_def private_file_def validate_regular_file_def)
  then show ?thesis
    using w'(1) by (simp add: receipt_store_save_def r(1) act_of_value write_without_backup_def act_map_err_def loaded_of_def private_file_def)
qed

lemma config_works:
  assumes works: "os_works (xe_os env)" and own: "own_codex env home ed" and ready: "codex_ready env ed (wd_fs w) c l"
    and bytes: "toml_parse (xe_toml env) bytes = Inr d" "from_utf8 bytes = Inr bytes"
  shows "\<exists>s w'. write_external (xe_os env) (cx_config_path ed) (cfg_sha256 c) bytes w = (Inr s, w') \<and>
    codex_ready env ed (wd_fs w')
      \<lparr>cfg_document = d, cfg_contents = bytes, cfg_sha256 = Some (os_sha256 (xe_os env) bytes)\<rparr> l"
proof -
  note p = own_codex_paths[OF own] and o = own_codex_files[OF own]
  let ?os = "xe_os env" and ?d = "home @ [''.codex'']"
  have cp: "cx_config_path ed = ?d @ [''config.toml'']" by (simp add: p(1))
  have temps: "\<forall>k. os_temp ?os k \<noteq> ''install-receipt.json''" "\<forall>k. os_temp ?os k \<noteq> ''config.toml''"
    using o(1,2) by (simp_all add: own_file_def p)
  have "\<exists>w'. write_with_policy ?os (?d @ [''config.toml'']) (cfg_sha256 c) bytes PolicyTrustedExisting False w
        = (Inr (loaded_of ?os (private_file ?os bytes)), w') \<and>
      wd_fs w' (?d @ [''config.toml'']) = Some (private_file ?os bytes) \<and>
      (\<forall>q. q \<noteq> ?d @ [''config.toml''] \<longrightarrow> (\<forall>b. q \<noteq> ?d @ [''backups'', b]) \<longrightarrow> wd_fs w' q = wd_fs w q)"
    by (rule write_works[OF works])
      (use ready temps view_digest(1) in \<open>auto simp: codex_ready_def cp butlast_append\<close>)
  then obtain w' where w': "write_with_policy ?os (cx_config_path ed) (cfg_sha256 c) bytes PolicyTrustedExisting False w
        = (Inr (loaded_of ?os (private_file ?os bytes)), w')"
      "wd_fs w' (cx_config_path ed) = Some (private_file ?os bytes)"
      "\<forall>q. q \<noteq> cx_config_path ed \<longrightarrow> (\<forall>b. q \<noteq> ?d @ [''backups'', b]) \<longrightarrow> wd_fs w' q = wd_fs w q"
    unfolding cp by blast
  have same: "wd_fs w' (cx_receipt_path ed) = wd_fs w (cx_receipt_path ed)"
    "wd_fs w' (cx_model_cache_path ed) = wd_fs w (cx_model_cache_path ed)"
    by (rule w'(3)[rule_format]; simp add: p; fail)+
  have rooms: "room_in ?os (wd_fs w') (butlast (cx_config_path ed))" "room_in ?os (wd_fs w') (butlast (cx_receipt_path ed))"
    by (rule room_kept[OF _ w'(3)];
        use ready temps in \<open>auto simp: codex_ready_def p butlast_append dest: arg_cong[of _ _ length]\<close>)+
  show ?thesis
    using ready rooms same w' bytes
    by (simp add: codex_ready_def config_view_def private_file_def validate_regular_file_def write_external_def)
qed

lemma chosen_hash: "choose_original env ed c cache l = Inr (original, oc, h) \<Longrightarrow> h = map_option snd l"
  by (auto simp: choose_original_def split: option.splits prod.splits if_splits)

text \<open>An apply and a restore that nothing hinders return, and leave files that do not hinder the next one.\<close>

lemma apply_works:
  fixes env :: "('d, 'i) codex_env"
  assumes works: "os_works (xe_os env)" and own: "own_codex env home ed" and laws: "receipts_read_back env"
    and ready: "codex_ready env ed (wd_fs w) c l"
    and chosen: "choose_original env ed c None l = Inr (original, oc, h)"
    and bytes: "bytes = toml_text (xe_toml env) (prepare_candidate env (cfg_document c) desired)" "from_utf8 bytes = Inr bytes"
      "toml_parse (xe_toml env) bytes = Inr d"
    and receipts: "\<forall>phase \<in> {PhasePrepared (os_sha256 (xe_os env) bytes), PhaseActive (os_sha256 (xe_os env) bytes)}.
      \<exists>b. encode_receipt env (planned_receipt ed desired updated_at original oc phase) = Inr b"
  shows "\<exists>w' h'. apply_integration env ed desired updated_at w =
      (Inr (planned_receipt ed desired updated_at original oc (PhaseActive (os_sha256 (xe_os env) bytes))), w') \<and>
    codex_ready env ed (wd_fs w')
      \<lparr>cfg_document = d, cfg_contents = bytes, cfg_sha256 = Some (os_sha256 (xe_os env) bytes)\<rparr>
      (Some (planned_receipt ed desired updated_at original oc (PhaseActive (os_sha256 (xe_os env) bytes)), h'))"
proof -
  let ?sha = "os_sha256 (xe_os env) bytes" and ?r = "planned_receipt ed desired updated_at original oc"
  let ?c = "\<lparr>cfg_document = d, cfg_contents = bytes, cfg_sha256 = Some ?sha\<rparr>"
  obtain bp ba where b: "encode_receipt env (?r (PhasePrepared ?sha)) = Inr bp" "encode_receipt env (?r (PhaseActive ?sha)) = Inr ba"
    using receipts by blast
  have reads: "\<And>r b. encode_receipt env r = Inr b \<Longrightarrow> decode_receipt env b = Inr r" using laws by (simp add: receipts_read_back_def)
  obtain w1 where w1: "load_config env ed w = (Inr c, w1)" "wd_fs w1 = wd_fs w" using ready_loads(1)[OF works ready] by blast
  have ready1: "codex_ready env ed (wd_fs w1) c l" using ready w1(2) by simp
  obtain w2 where w2: "load_model_cache env ed w1 = (Inr None, w2)" "wd_fs w2 = wd_fs w1"
    using ready_loads(2)[OF works ready1] by blast
  have ready2: "codex_ready env ed (wd_fs w2) c l" using ready1 w2(2) by simp
  obtain w3 where w3: "load_receipt env ed w2 = (Inr l, w3)" "wd_fs w3 = wd_fs w2" using ready_loads(3)[OF works ready2] by blast
  have ready3: "codex_ready env ed (wd_fs w3) c l" using ready2 w3(2) by simp
  from receipt_works[OF works own ready3 b(1) reads[OF b(1)]]
  obtain s4 w4 where w4: "receipt_store_save env (cx_receipt_path ed) (?r (PhasePrepared ?sha)) h w3 = (Inr s4, w4)"
      "lf_sha256 s4 = os_sha256 (xe_os env) bp"
      "codex_ready env ed (wd_fs w4) c (Some (?r (PhasePrepared ?sha), os_sha256 (xe_os env) bp))"
    unfolding chosen_hash[OF chosen] by blast
  from config_works[OF works own w4(3) bytes(3,2)]
  obtain s5 w5 where w5: "write_external (xe_os env) (cx_config_path ed) (cfg_sha256 c) bytes w4 = (Inr s5, w5)"
      "codex_ready env ed (wd_fs w5) ?c (Some (?r (PhasePrepared ?sha), os_sha256 (xe_os env) bp))"
    by blast
  from receipt_works[OF works own w5(2) b(2) reads[OF b(2)]]
  obtain s6 w6 where w6: "receipt_store_save env (cx_receipt_path ed) (?r (PhaseActive ?sha)) (Some (os_sha256 (xe_os env) bp)) w5 = (Inr s6, w6)"
      "codex_ready env ed (wd_fs w6) ?c (Some (?r (PhaseActive ?sha), os_sha256 (xe_os env) ba))"
    by auto
  have "apply_integration env ed desired updated_at w = (Inr (?r (PhaseActive ?sha)), w6)"
    using w1(1) w2(1) w3(1) w4(1,2) w5(1) w6(1) chosen bytes(1)
    by (simp add: apply_integration_def install_candidate_def act_def Let_def invalidate_model_cache_def act_map_err_def)
  then show ?thesis using w6(2) by blast
qed

lemma restore_works:
  fixes env :: "('d, 'i) codex_env"
  assumes works: "os_works (xe_os env)" and own: "own_codex env home ed" and laws: "receipts_read_back env"
    and ready: "codex_ready env ed (wd_fs w) c (Some (r, h))"
    and drift: "ir_phase r \<noteq> PhaseRestored" "validate_receipt_path ed r = Inr ()" "current_matches_receipt env c r"
    and original: "parse_document env (oc_contents (ir_original r)) = Inr original"
    and bytes: "bytes = toml_text (xe_toml env) (restore_candidate env original (cfg_document c))" "from_utf8 bytes = Inr bytes"
      "toml_parse (xe_toml env) bytes = Inr d" "oc_existed (ir_original r)" "bytes \<noteq> cfg_contents c"
    and receipts: "\<exists>b. encode_receipt env (restored_receipt r updated_at) = Inr b"
  shows "\<exists>w'. restore_integration env ed updated_at w = (Inr (restored_receipt r updated_at), w')"
proof -
  obtain b where b: "encode_receipt env (restored_receipt r updated_at) = Inr b" using receipts by blast
  have reads: "\<And>r b. encode_receipt env r = Inr b \<Longrightarrow> decode_receipt env b = Inr r" using laws by (simp add: receipts_read_back_def)
  obtain w1 where w1: "receipt_store_load env (cx_receipt_path ed) w = (Inr (r, h), w1)" "wd_fs w1 = wd_fs w"
  proof -
    obtain w' where "load_receipt env ed w = (Inr (Some (r, h)), w')" "wd_fs w' = wd_fs w"
      using ready_loads(3)[OF works ready] by blast
    then show thesis
      by (intro that[of w'])
        (auto simp: load_receipt_def act_match_def split: prod.splits sum.splits receipt_store_error.splits secure_file_error.splits)
  qed
  have ready1: "codex_ready env ed (wd_fs w1) c (Some (r, h))" using ready w1(2) by simp
  obtain w2 where w2: "load_config env ed w1 = (Inr c, w2)" "wd_fs w2 = wd_fs w1" using ready_loads(1)[OF works ready1] by blast
  have ready2: "codex_ready env ed (wd_fs w2) c (Some (r, h))" using ready1 w2(2) by simp
  obtain w3 where w3: "load_model_cache env ed w2 = (Inr None, w3)" "wd_fs w3 = wd_fs w2"
    using ready_loads(2)[OF works ready2] by blast
  have ready3: "codex_ready env ed (wd_fs w3) c (Some (r, h))" using ready2 w3(2) by simp
  from config_works[OF works own ready3 bytes(3,2)]
  obtain s4 w4 where w4: "write_external (xe_os env) (cx_config_path ed) (cfg_sha256 c) bytes w3 = (Inr s4, w4)"
      "codex_ready env ed (wd_fs w4)
        \<lparr>cfg_document = d, cfg_contents = bytes, cfg_sha256 = Some (os_sha256 (xe_os env) bytes)\<rparr> (Some (r, h))"
    by blast
  from receipt_works[OF works own w4(2) b reads[OF b]]
  obtain s5 w5 where w5: "receipt_store_save env (cx_receipt_path ed) (restored_receipt r updated_at) (Some h) w4 = (Inr s5, w5)"
    by auto
  have "restore_integration env ed updated_at w = (Inr (restored_receipt r updated_at), w5)"
    using w1(1) w2(1) w3(1) w4(1) w5 drift original bytes(1,4,5)
    by (simp add: restore_integration_def restored_receipt_def validate_current_against_receipt_def write_restored_def
        act_def Let_def invalidate_model_cache_def act_map_err_def)
  then show ?thesis by blast
qed

section \<open>A library to try it with\<close>

text \<open>A document is a list of keys and strings, printed with every character marked.\<close>

definition quote :: "str \<Rightarrow> str" where
  "quote s = concat (map (\<lambda>c. [CHR ''x'', c]) s) @ [CHR ''.'']"

fun unquote :: "str \<Rightarrow> str \<times> str" where
  "unquote (m # c # s) = (if m = CHR ''x'' then (let (t, rest) = unquote s in (c # t, rest)) else ([], c # s))"
| "unquote s = ([], [])"

definition print_pairs :: "(str \<times> str) list \<Rightarrow> str" where
  "print_pairs d = concat (map (\<lambda>(k, v). CHR ''p'' # quote k @ quote v) d)"

fun read_pairs :: "nat \<Rightarrow> str \<Rightarrow> (str \<times> str) list" where
  "read_pairs (Suc n) (c # s) =
     (if c = CHR ''p'' then (let (k, s) = unquote s; (v, s) = unquote s in (k, v) # read_pairs n s) else [])"
| "read_pairs _ _ = []"

definition pairs_toml :: "((str \<times> str) list, str) toml" where
  "pairs_toml = \<lparr>toml_parse = (\<lambda>s. Inr (read_pairs (length s) s)), toml_text = print_pairs, toml_empty = [],
     toml_get = map_of, toml_assign = (\<lambda>d k i. AList.update k i d), toml_insert = (\<lambda>d k i. AList.update k i d),
     toml_remove = (\<lambda>d k. AList.delete k d), toml_value = (\<lambda>s. s), item_str = Some, item_text = (\<lambda>s. s)\<rparr>"

lemma unquote_quote: "unquote (quote s @ t) = (s, t)"
proof (induction s)
  case Nil
  then show ?case by (cases t) (simp_all add: quote_def)
qed (simp add: quote_def)

lemma read_print_pairs: "length d \<le> n \<Longrightarrow> read_pairs n (print_pairs d) = d"
proof (induction d arbitrary: n)
  case Nil
  then show ?case by (cases n) (simp_all add: print_pairs_def)
next
  case (Cons p d)
  then obtain m k v where "n = Suc m" "length d \<le> m" "p = (k, v)" by (cases n; cases p) auto
  moreover have "print_pairs (p # d) = CHR ''p'' # quote k @ quote v @ print_pairs d"
    using \<open>p = (k, v)\<close> by (simp add: print_pairs_def)
  ultimately show ?case by (simp add: unquote_quote Cons.IH)
qed

lemma print_pairs_length: "length d \<le> length (print_pairs d)"
  by (induction d) (auto simp: print_pairs_def quote_def)

lemma trim_back_mark: "trim_back (s @ ''p'') \<noteq> []"
  by (induction s rule: trim_back.induct) (auto simp: ws1_def ws2_def ws3_def)

lemma pairs_not_blank: "trim (print_pairs (p # d)) \<noteq> []"
proof -
  obtain t where "print_pairs (p # d) = CHR ''p'' # t" by (cases p) (simp add: print_pairs_def)
  moreover have "trim_start (CHR ''p'' # t) = CHR ''p'' # t"
    by (cases t rule: trim_start.cases) (simp_all add: ws1_def ws2_def ws3_def)
  ultimately show ?thesis using trim_back_mark[of "rev t"] by (simp add: trim_def trim_end_def)
qed

lemma pairs_laws: "toml_laws (env\<lparr>xe_toml := pairs_toml\<rparr>)"
proof -
  have "trim (print_pairs d) \<noteq> []" if "map_of d k = Some v" for d k v
    using that pairs_not_blank by (cases d) simp_all
  moreover have "print_pairs [] = []" by (simp add: print_pairs_def)
  ultimately show ?thesis
    using read_print_pairs[OF print_pairs_length]
    by (auto simp: toml_laws_def pairs_toml_def Let_def update_conv' delete_conv')
qed

lemma utf8_ascii: "\<forall>c \<in> set s. byte c < 128 \<Longrightarrow> from_utf8 s = Inr s"
proof -
  have "\<forall>c \<in> set s. byte c < 128 \<Longrightarrow> utf8_error i s = None" for i
  proof (induction s arbitrary: i)
    case (Cons a s)
    then show ?case by (subst utf8_error.simps) (simp add: utf8_chunk_def utf8_width_def)
  qed (simp add: utf8_error.simps)
  then show "\<forall>c \<in> set s. byte c < 128 \<Longrightarrow> ?thesis" by (simp add: from_utf8_def)
qed

definition example_editor :: codex_editor where
  "example_editor = editor_new [''.codex'', ''config.toml''] (ap_install_receipt (paths_for_home []))"

definition example_integration :: "str \<Rightarrow> codex_integration" where
  "example_integration url = \<lparr>cx_openai_base_url = url\<rparr>"

definition example_toml :: "(str \<times> str) list" where
  "example_toml = [(''model'', ''m''), (MODEL_PROVIDER, ''x'')]"

definition example_applied :: "str \<Rightarrow> str" where
  "example_applied url = print_pairs [(''model'', ''m''), (MODEL_PROVIDER, ''openai''), (OPENAI_BASE_URL, url)]"

text \<open>The receipts that the example writes, and their texts.\<close>

definition example_original :: original_config where
  "example_original = \<lparr>oc_existed = True, oc_sha256 = Some (rev (print_pairs example_toml)), oc_contents = print_pairs example_toml\<rparr>"

definition example_receipt :: "str \<Rightarrow> receipt_phase \<Rightarrow> install_receipt" where
  "example_receipt url =
     planned_receipt example_editor (example_integration url) ''t1'' example_original
       \<lparr>om_existed = False, om_sha256 = None, om_contents = []\<rparr>"

definition example_receipts :: "str \<Rightarrow> (str \<times> install_receipt) list" where
  "example_receipts url =
     [(''1'', example_receipt url (PhasePrepared (rev (example_applied url)))), (''2'', example_receipt url (PhaseActive (rev (example_applied url)))),
      (''3'', restored_receipt (example_receipt url (PhaseActive (rev (example_applied url)))) ''t2'')]"

definition example_codex_env :: "str \<Rightarrow> ((str \<times> str) list, str) codex_env" where
  "example_codex_env url = \<lparr>xe_os = example_os, xe_toml = pairs_toml,
     xe_receipt_parse = (\<lambda>s. case map_of (example_receipts url) (butlast s) of Some r \<Rightarrow> Inr r | None \<Rightarrow> Inl []),
     xe_receipt_text = (\<lambda>r. case List.find (\<lambda>(_, r'). r' = r) (example_receipts url) of Some (s, _) \<Rightarrow> Inr s | None \<Rightarrow> Inl [])\<rparr>"

definition example_codex_world :: world where
  "example_codex_world =
     \<lparr>wd_fs = [[''.codex''] \<mapsto> example_directory,
        [''Library'', ''Application Support'', ''dev.qiankun.provider-x''] \<mapsto> example_directory,
        [''.codex'', ''config.toml''] \<mapsto> private_file example_os (print_pairs example_toml)], wd_seen = [], wd_tick = 0\<rparr>"

definition example_current :: "(str \<times> str) list current_config" where
  "example_current = \<lparr>cfg_document = example_toml, cfg_contents = print_pairs example_toml, cfg_sha256 = Some (rev (print_pairs example_toml))\<rparr>"

lemma example_env_simps [simp]: "xe_os (example_codex_env url) = example_os" "xe_toml (example_codex_env url) = pairs_toml"
  by (simp_all add: example_codex_env_def)

lemma example_codex_laws: "toml_laws (example_codex_env url)"
proof -
  have "(example_codex_env url)\<lparr>xe_toml := pairs_toml\<rparr> = (example_codex_env url)" by (simp add: example_codex_env_def)
  with pairs_laws[of "example_codex_env url"] show ?thesis by simp
qed

lemma example_distinct:
  "example_receipt url (PhasePrepared a) \<noteq> example_receipt url (PhaseActive b)"
  "restored_receipt r t \<noteq> example_receipt url (PhaseActive b)" "restored_receipt r t \<noteq> example_receipt url (PhasePrepared b)"
proof -
  have "ir_phase (example_receipt url p) = p" "ir_phase (restored_receipt r t) = PhaseRestored" for p
    by (simp_all add: example_receipt_def planned_receipt_def restored_receipt_def)
  then show "example_receipt url (PhasePrepared a) \<noteq> example_receipt url (PhaseActive b)"
    "restored_receipt r t \<noteq> example_receipt url (PhaseActive b)" "restored_receipt r t \<noteq> example_receipt url (PhasePrepared b)"
    by (metis receipt_phase.distinct)+
qed

lemma example_reads: "receipts_read_back (example_codex_env url)"
  by (auto simp: receipts_read_back_def encode_receipt_def decode_receipt_def example_codex_env_def example_receipts_def
      split: option.splits if_splits)

lemma example_own: "own_codex (example_codex_env url) [] example_editor"
  by (simp add: own_codex_def example_editor_def own_file_def exact_def temps_private_def paths_for_home_def Let_def example_os_def)

lemma example_texts:
  "from_utf8 (print_pairs example_toml) = Inr (print_pairs example_toml)"
  "toml_parse pairs_toml (print_pairs d) = Inr d"
  using read_print_pairs[OF print_pairs_length, of d]
  by (auto simp: pairs_toml_def example_toml_def print_pairs_def quote_def MODEL_PROVIDER_def intro!: utf8_ascii)

lemma example_applied_text:
  assumes "\<forall>c \<in> set url. byte c < 128"
  shows "from_utf8 (example_applied url) = Inr (example_applied url)"
proof -
  have "set (quote url) \<subseteq> {CHR ''x'', CHR ''.''} \<union> set url" by (auto simp: quote_def)
  then have "\<forall>c \<in> set (quote url). byte c < 128" using assms by auto
  then have "\<forall>c \<in> set (example_applied url). byte c < 128"
    by (auto simp: example_applied_def print_pairs_def MODEL_PROVIDER_def OPENAI_BASE_URL_def)
      (auto simp: quote_def)
  then show ?thesis by (rule utf8_ascii)
qed

lemma example_ready: "codex_ready (example_codex_env url) example_editor (wd_fs example_codex_world) example_current None"
  using example_texts
  by (simp add: codex_ready_def config_view_def receipt_view_def own_codex_paths[OF example_own] example_codex_world_def
      example_current_def private_file_def validate_regular_file_def room_in_def private_directory_def example_directory_def)
    (simp add: example_os_def)

lemma example_encodes:
  "\<exists>b. encode_receipt (example_codex_env url) (example_receipt url (PhasePrepared (rev (example_applied url)))) = Inr b"
  "\<exists>b. encode_receipt (example_codex_env url) (example_receipt url (PhaseActive (rev (example_applied url)))) = Inr b"
  "\<exists>b. encode_receipt (example_codex_env url) (restored_receipt (example_receipt url (PhaseActive (rev (example_applied url)))) ''t2'') = Inr b"
proof -
  have "receipt_validate example_os (example_receipt url p) = Inr ()" for p
    by (simp add: receipt_validate_def example_receipt_def planned_receipt_def example_original_def example_os_def
        example_editor_def editor_new_def path_text_def trim_def trim_end_def ws1_def ws2_def ws3_def)
  moreover have "receipt_validate os (restored_receipt r t) = receipt_validate os r" for os r t
    by (cases "oc_sha256 (ir_original r)") (simp_all add: receipt_validate_def restored_receipt_def)
  ultimately show
    "\<exists>b. encode_receipt (example_codex_env url) (example_receipt url (PhasePrepared (rev (example_applied url)))) = Inr b"
    "\<exists>b. encode_receipt (example_codex_env url) (example_receipt url (PhaseActive (rev (example_applied url)))) = Inr b"
    "\<exists>b. encode_receipt (example_codex_env url) (restored_receipt (example_receipt url (PhaseActive (rev (example_applied url)))) ''t2'') = Inr b"
    using example_distinct by (auto simp: encode_receipt_def example_codex_env_def example_receipts_def)
qed

lemma example_candidate: "print_pairs (prepare_candidate (example_codex_env url) example_toml (example_integration url)) = example_applied url"
  by (simp add: prepare_candidate_def example_applied_def example_toml_def example_integration_def pairs_toml_def
      OPENAI_BASE_URL_def MODEL_CATALOG_JSON_def MODEL_PROVIDER_def)

definition example_after :: "str \<Rightarrow> (str \<times> str) list current_config" where
  "example_after url =
     \<lparr>cfg_document = [(''model'', ''m''), (MODEL_PROVIDER, ''openai''), (OPENAI_BASE_URL, url)],
      cfg_contents = example_applied url, cfg_sha256 = Some (rev (example_applied url))\<rparr>"

lemma example_codex_run:
  assumes ascii: "\<forall>c \<in> set url. byte c < 128"
  shows "\<exists>w1 w2 h. apply_integration (example_codex_env url) example_editor (example_integration url) ''t1'' example_codex_world =
       (Inr (example_receipt url (PhaseActive (rev (example_applied url)))), w1) \<and>
     restore_integration (example_codex_env url) example_editor ''t2'' w1 =
       (Inr (restored_receipt (example_receipt url (PhaseActive (rev (example_applied url)))) ''t2''), w2) \<and>
     codex_ready (example_codex_env url) example_editor (wd_fs w1) (example_after url)
       (Some (example_receipt url (PhaseActive (rev (example_applied url))), h)) \<and>
     current_matches_receipt (example_codex_env url) (example_after url) (example_receipt url (PhaseActive (rev (example_applied url))))"
proof -
  let ?applied = "[(''model'', ''m''), (MODEL_PROVIDER, ''openai''), (OPENAI_BASE_URL, url)]"
  let ?r = "example_receipt url (PhaseActive (rev (example_applied url)))"
  let ?c = "\<lparr>cfg_document = ?applied, cfg_contents = example_applied url, cfg_sha256 = Some (rev (example_applied url))\<rparr>"
  have works: "os_works (xe_os (example_codex_env url))" by (simp add: os_works_def) (simp add: example_os_def)
  have sha: "os_sha256 (xe_os (example_codex_env url)) s = rev s" for s by (simp add: example_os_def)
  have pairs: "toml_text (xe_toml (example_codex_env url)) = print_pairs" "toml_get (xe_toml (example_codex_env url)) = map_of"
    by (simp_all add: pairs_toml_def)
  have chosen: "choose_original (example_codex_env url) example_editor example_current None None =
      Inr (example_original, \<lparr>om_existed = False, om_sha256 = None, om_contents = []\<rparr>, None)"
    by (simp add: choose_original_def original_cache_of_def original_of_def example_current_def example_original_def)
  have parsed: "toml_parse (xe_toml (example_codex_env url)) (example_applied url) = Inr ?applied"
    using example_texts(2)[of ?applied] by (simp add: example_applied_def)
  have bytes: "example_applied url = toml_text (xe_toml (example_codex_env url))
      (prepare_candidate (example_codex_env url) (cfg_document example_current) (example_integration url))"
    unfolding pairs example_candidate[symmetric] by (simp add: example_current_def)
  have receipts: "\<forall>phase \<in> {PhasePrepared (os_sha256 (xe_os (example_codex_env url)) (example_applied url)),
      PhaseActive (os_sha256 (xe_os (example_codex_env url)) (example_applied url))}.
    \<exists>b. encode_receipt (example_codex_env url) (planned_receipt example_editor (example_integration url) ''t1'' example_original
       \<lparr>om_existed = False, om_sha256 = None, om_contents = []\<rparr> phase) = Inr b"
    using example_encodes(1,2) unfolding sha example_receipt_def by blast
  from apply_works[OF works example_own example_reads example_ready chosen bytes example_applied_text[OF ascii] parsed receipts]
  obtain w1 h where w1: "apply_integration (example_codex_env url) example_editor (example_integration url) ''t1'' example_codex_world = (Inr ?r, w1)"
      "codex_ready (example_codex_env url) example_editor (wd_fs w1) ?c (Some (?r, h))"
    unfolding sha example_receipt_def by blast
  have r: "ir_phase ?r = PhaseActive (rev (example_applied url))" "ir_original ?r = example_original"
      "av_openai_base_url (ir_applied_values ?r) = url" "ir_config_path ?r = path_text (cx_config_path example_editor)"
    by (simp_all add: example_receipt_def planned_receipt_def example_integration_def)
  have matches: "current_matches_receipt (example_codex_env url) ?c ?r"
    by (simp add: current_matches_receipt_def r managed_state_matches_def get_str_def pairs_toml_def
        MODEL_PROVIDER_def OPENAI_BASE_URL_def MODEL_CATALOG_JSON_def)
  have original: "parse_document (example_codex_env url) (oc_contents (ir_original ?r)) = Inr example_toml"
    using example_texts(2)[of example_toml] by (simp add: parse_document_def r example_original_def)
  let ?undone = "restore_candidate (example_codex_env url) example_toml ?applied"
  have undone: "?undone = example_toml"
    by (simp add: restore_candidate_def restore_item_def managed_keys_def pairs_toml_def example_toml_def
        MODEL_PROVIDER_def OPENAI_BASE_URL_def MODEL_CATALOG_JSON_def)
  have differs: "print_pairs example_toml \<noteq> example_applied url"
    using read_print_pairs[OF print_pairs_length, of example_toml] read_print_pairs[OF print_pairs_length, of ?applied]
    by (auto simp: example_applied_def example_toml_def)
  have "\<exists>w2. restore_integration (example_codex_env url) example_editor ''t2'' w1 = (Inr (restored_receipt ?r ''t2''), w2)"
    by (rule restore_works[OF works example_own example_reads w1(2), where bytes = "print_pairs example_toml" and d = example_toml
        and original = example_toml])
      (use r matches original undone differs example_texts example_encodes(3) in
        \<open>simp_all add: pairs(1)[simplified] validate_receipt_path_def example_original_def\<close>)
  then show ?thesis using w1 matches by (auto simp: example_after_def)
qed

lemma example_fresh: "\<not> receipt_view (example_codex_env url) (wd_fs example_codex_world (cx_receipt_path example_editor)) (Some l)"
  using example_ready by (auto simp: codex_ready_def dest: receipt_view_unique)




end
