(* ===== verification/Upgrade.thy ===== *)
theory Upgrade
  imports ControlPlane
begin

text \<open>
  The upgrade of documents of an older version, \<open>storage/provider_upgrade.rs\<close>: the documents are copied to a
  directory of their own, a receipt says so, the documents are replaced by empty ones, and the receipt is
  completed. An upgrade that was interrupted is taken up again from its receipt.
\<close>

section \<open>Data\<close>

definition RECEIPT :: str where "RECEIPT = ''provider-upgrade.json''"

datatype upgrade_error =
    UpgradeFile secure_file_error
  | UpgradeProvider provider_store_error
  | UpgradeBackup
  | UpgradeReceipt

record upgrade_receipt =
  ur_directory :: str
  ur_providers_sha256 :: str
  ur_cache_sha256 :: "str option"
  ur_complete :: bool

record upgrade_notice =
  un_backup :: path
  un_receipt :: path
  un_sha256 :: str

text \<open>The names of new directories and the reader and the printer of a receipt are parameters.\<close>

record 'y upgrade_env =
  ue_control :: "'y control_env"
  ue_suffix :: "nat \<Rightarrow> str"
  ue_receipt_parse :: "str \<Rightarrow> upgrade_receipt option"
  ue_receipt_text :: "upgrade_receipt \<Rightarrow> str option"

abbreviation ue_os :: "'y upgrade_env \<Rightarrow> os" where
  "ue_os env \<equiv> ce_os (ue_control env)"

definition acknowledge :: "'y upgrade_env \<Rightarrow> upgrade_notice \<Rightarrow> (upgrade_error, unit) io" where
  "acknowledge env notice =
     act (act_of (ok_or UpgradeReceipt (path_parent (un_receipt notice)))) (\<lambda>parent.
     act (act_map_err UpgradeFile (ensure_private_directory (ue_os env) parent)) (\<lambda>_.
     act_map_err UpgradeFile (remove_external (ue_os env) (un_receipt notice) (un_sha256 notice))))"

definition load_optional :: "os \<Rightarrow> path \<Rightarrow> (secure_file_error, loaded_file option) io" where
  "load_optional os p =
     act_match (load_file os p)
       (\<lambda>loaded. act_ok (Some loaded))
       (\<lambda>e. case e of MissingFile _ \<Rightarrow> act_ok None | _ \<Rightarrow> act_err e)"

section \<open>The backup\<close>

text \<open>\<open>tempdir_in\<close> with its prefix: a new directory that only its owner can enter.\<close>

definition sys_new_directory :: "'y upgrade_env \<Rightarrow> path \<Rightarrow> (io_failure, path) io" where
  "sys_new_directory env parent w =
     (let p = parent @ [''upgrade-backup-'' @ ue_suffix env (wd_tick w)] in
      sys_call (ue_os env) (\<lambda>fs. fs) (\<lambda>fs.
        if map_option nd_kind (fs parent) \<noteq> Some KindDirectory then (Inl IoNotFound, fs)
        else if fs p \<noteq> None then (Inl IoOther, fs)
        else (Inr p, fs(p \<mapsto> \<lparr>nd_kind = KindDirectory, nd_mode = 448, nd_links = 1, nd_uid = os_uid (ue_os env), nd_bytes = []\<rparr>))) w)"

definition begin_upgrade :: "'y upgrade_env \<Rightarrow> app_paths \<Rightarrow> loaded_file \<Rightarrow> (upgrade_error, loaded_file) io" where
  "begin_upgrade env paths providers =
     act (act_of (ok_or UpgradeBackup (path_parent (ap_model_cache paths)))) (\<lambda>cache_parent.
     act (act_map_err UpgradeFile (ensure_private_directory (ue_os env) cache_parent)) (\<lambda>_.
     act (act_map_err UpgradeFile (load_optional (ue_os env) (ap_model_cache paths))) (\<lambda>cache.
     act (act_map_err (\<lambda>_. UpgradeBackup) (sys_new_directory env (ap_root paths))) (\<lambda>directory.
     act (act_map_err UpgradeFile (ensure_private_directory (ue_os env) directory)) (\<lambda>_.
     act (act_map_err UpgradeFile
       (write_without_backup (ue_os env) (directory @ [''providers.yaml'']) None (lf_bytes providers))) (\<lambda>_.
     act (case cache of
            None \<Rightarrow> act_ok ()
          | Some cache \<Rightarrow>
              act (act_map_err UpgradeFile
                (write_without_backup (ue_os env) (directory @ [''models.yaml'']) None (lf_bytes cache))) (\<lambda>_. act_ok ())) (\<lambda>_.
     act (act_of (ok_or UpgradeReceipt (ue_receipt_text env
       \<lparr>ur_directory = last directory, ur_providers_sha256 = lf_sha256 providers,
        ur_cache_sha256 = map_option lf_sha256 cache, ur_complete = False\<rparr>))) (\<lambda>text.
     act_map_err UpgradeFile (write_without_backup (ue_os env) (ap_root paths @ [RECEIPT]) None text)))))))))"

section \<open>The replacement\<close>

text \<open>The digest of a file that is still the original or already the replacement.\<close>

definition replacement_hash ::
  "'y upgrade_env \<Rightarrow> path \<Rightarrow> str option \<Rightarrow> str \<Rightarrow> (upgrade_error, str option) io" where
  "replacement_hash env p original bytes =
     act (act_map_err UpgradeFile (load_optional (ue_os env) p)) (\<lambda>current.
     if map_option lf_sha256 current = original \<or>
        (case current of None \<Rightarrow> False | Some file \<Rightarrow> lf_bytes file = bytes)
     then act_ok (map_option lf_sha256 current)
     else act_err (UpgradeFile (ConcurrentModification p)))"

definition is_alphanumeric :: "char \<Rightarrow> bool" where
  "is_alphanumeric c \<longleftrightarrow>
     48 \<le> byte c \<and> byte c \<le> 57 \<or> 65 \<le> byte c \<and> byte c \<le> 90 \<or> 97 \<le> byte c \<and> byte c \<le> 122"

definition check_backup ::
  "'y upgrade_env \<Rightarrow> path \<Rightarrow> upgrade_receipt \<Rightarrow> (upgrade_error, unit) io" where
  "check_backup env backup receipt =
     act (act_map_err UpgradeFile (ensure_private_directory (ue_os env) backup)) (\<lambda>_.
     act (act_map_err UpgradeFile (load_file (ue_os env) (backup @ [''providers.yaml'']))) (\<lambda>providers.
     if lf_sha256 providers \<noteq> ur_providers_sha256 receipt then act_err UpgradeReceipt
     else
       (case ur_cache_sha256 receipt of
          None \<Rightarrow> act_ok ()
        | Some expected \<Rightarrow>
            act (act_map_err UpgradeFile (load_file (ue_os env) (backup @ [''models.yaml'']))) (\<lambda>cache.
            if lf_sha256 cache \<noteq> expected then act_err UpgradeReceipt else act_ok ()))))"

text \<open>Both documents are checked before either is replaced, the cache first.\<close>

definition replace_documents ::
  "'y upgrade_env \<Rightarrow> app_paths \<Rightarrow> upgrade_receipt \<Rightarrow> (upgrade_error, unit) io" where
  "replace_documents env paths receipt =
     act (act_of (map_err (\<lambda>_. UpgradeBackup) (se_providers_text (ce_stores (ue_control env)) default_providers))) (\<lambda>providers.
     act (act_of (map_err (\<lambda>_. UpgradeBackup) (se_cache_text (ce_stores (ue_control env)) empty_cache))) (\<lambda>cache.
     act (replacement_hash env (ap_providers paths) (Some (ur_providers_sha256 receipt)) providers) (\<lambda>provider_hash.
     act (replacement_hash env (ap_model_cache paths) (ur_cache_sha256 receipt) cache) (\<lambda>cache_hash.
     act (act_map_err UpgradeFile (write_without_backup (ue_os env) (ap_model_cache paths) cache_hash cache)) (\<lambda>_.
     act (act_map_err UpgradeFile (write_without_backup (ue_os env) (ap_providers paths) provider_hash providers)) (\<lambda>_.
     act_ok ()))))))"

definition finish_upgrade ::
  "'y upgrade_env \<Rightarrow> app_paths \<Rightarrow> loaded_file \<Rightarrow> (upgrade_error, upgrade_notice) io" where
  "finish_upgrade env paths loaded =
     act (act_of (ok_or UpgradeReceipt (ue_receipt_parse env (lf_bytes loaded)))) (\<lambda>receipt.
     case strip_prefix ''upgrade-backup-'' (ur_directory receipt) of
       None \<Rightarrow> act_err UpgradeReceipt
     | Some suffix \<Rightarrow>
         if suffix = [] \<or> \<not> list_all is_alphanumeric suffix then act_err UpgradeReceipt
         else
           (let backup = ap_root paths @ [ur_directory receipt]; receipt_path = ap_root paths @ [RECEIPT] in
            act (check_backup env backup receipt) (\<lambda>_.
            if ur_complete receipt
            then act_ok \<lparr>un_backup = backup, un_receipt = receipt_path, un_sha256 = lf_sha256 loaded\<rparr>
            else
              act (replace_documents env paths receipt) (\<lambda>_.
              act (act_of (ok_or UpgradeReceipt (ue_receipt_text env (receipt\<lparr>ur_complete := True\<rparr>)))) (\<lambda>text.
              act (act_map_err UpgradeFile
                (write_without_backup (ue_os env) receipt_path (Some (lf_sha256 loaded)) text)) (\<lambda>saved.
              act_ok \<lparr>un_backup = backup, un_receipt = receipt_path, un_sha256 = lf_sha256 saved\<rparr>))))))"

text \<open>Whether a document is of an older version, which is what an upgrade is for.\<close>

definition outdated :: "'y upgrade_env \<Rightarrow> loaded_file \<Rightarrow> upgrade_error + bool" where
  "outdated env providers =
     (let stores = ce_stores (ue_control env) in
      and_then (map_err (\<lambda>_. UpgradeProvider (InvalidProviderDocument ''invalid UTF-8'')) (from_utf8 (lf_bytes providers))) (\<lambda>yaml.
      case providers_from_yaml (se_url_parse stores) (se_yaml stores) yaml of
        Inr _ \<Rightarrow> Inr False
      | Inl (UnsupportedSchemaVersion actual expected) \<Rightarrow>
          if actual > 0 then Inr True
          else Inl (UpgradeProvider (InvalidProviderDocument
                 (core_error_text (se_debug_str stores) (UnsupportedSchemaVersion actual expected))))
      | Inl e \<Rightarrow> Inl (UpgradeProvider (InvalidProviderDocument (core_error_text (se_debug_str stores) e)))))"

definition upgrade_prepare :: "'y upgrade_env \<Rightarrow> app_paths \<Rightarrow> (upgrade_error, upgrade_notice option) io" where
  "upgrade_prepare env paths =
     act (act_map_err UpgradeFile (ensure_private_directory (ue_os env) (ap_root paths))) (\<lambda>_.
     act (act_map_err UpgradeFile (load_optional (ue_os env) (ap_root paths @ [RECEIPT]))) (\<lambda>loaded.
     case loaded of
       Some loaded \<Rightarrow> act (finish_upgrade env paths loaded) (\<lambda>notice. act_ok (Some notice))
     | None \<Rightarrow>
         act (act_map_err UpgradeFile (load_optional (ue_os env) (ap_providers paths))) (\<lambda>found.
         case found of
           None \<Rightarrow> act_ok None
         | Some providers \<Rightarrow>
             act (act_of (outdated env providers)) (\<lambda>old.
             if \<not> old then act_ok None
             else
               act (begin_upgrade env paths providers) (\<lambda>loaded.
               act (finish_upgrade env paths loaded) (\<lambda>notice. act_ok (Some notice)))))))"

end
