(* ===== verification/OAuth.thy ===== *)
theory OAuth
  imports Discovery
begin

text \<open>
  The login of an OpenAI account, \<open>openai_oauth/auth.rs\<close> of \<open>provider-x-providers\<close>: the login in the browser with
  the callback it waits for, the exchange of the code and the refresh of the tokens. HTTP, Base64, the URL
  library, the random source, the browser and the clients that connect are parameters.
\<close>

section \<open>Data\<close>

definition ISSUER :: str where "ISSUER = ''https://auth.openai.com''"

definition CLIENT_ID :: str where "CLIENT_ID = ''app_EMoamEEZ73f0CkXaXp7hrann''"

definition CALLBACK_PORTS :: "nat list" where "CALLBACK_PORTS = [1455, 1457]"

definition RESPONSE_BODY_LIMIT :: nat where "RESPONSE_BODY_LIMIT = 256 * 1024"

definition TOKEN_REFRESH_WINDOW_SECS :: u64 where "TOKEN_REFRESH_WINDOW_SECS = 5 * 60"

datatype oauth_error =
    CallbackUnavailable
  | LoginTimeout
  | InvalidCallback
  | BrowserOpen
  | OAuthRequestBuild
  | OAuthTransport
  | ResponseTimeout
  | ResponseStatus nat
  | InvalidResponse
  | MissingAccount
  | InvalidCredentials
  | NetworkConfiguration

record token_response =
  tr_id_token :: str
  tr_access_token :: str
  tr_refresh_token :: str

record refresh_response =
  rr_id_token :: "str option"
  rr_access_token :: "str option"
  rr_refresh_token :: "str option"

record identity_claims =
  ic_account_id :: "str option"
  ic_email :: "str option"
  ic_is_fedramp :: bool

record post_request =
  post_url :: str
  post_headers :: header_map
  post_body :: str

text \<open>What a client that connects to the callback sends, one read at a time; an empty read is the end.\<close>

datatype read_outcome = ReadFailed | ReadBytes str

datatype connection = AcceptFailed | Incoming "read_outcome list" bool

record oauth_env =
  oe_send :: "post_request \<Rightarrow> http_outcome"
  oe_uri_ok :: "str \<Rightarrow> bool"
  oe_issuer :: str
  oe_version :: str
  oe_codec :: codec
  oe_parse_tokens :: "str \<Rightarrow> token_response option"
  oe_parse_refresh :: "str \<Rightarrow> refresh_response option"
  oe_b64_decode :: "str \<Rightarrow> str option"
  oe_b64_encode :: "str \<Rightarrow> str"
  oe_sha256 :: "str \<Rightarrow> str"
  oe_random :: "nat \<Rightarrow> nat \<Rightarrow> str option"
  oe_form :: "(str \<times> str) list \<Rightarrow> str"
  oe_url_with :: "str \<Rightarrow> (str \<times> str) list \<Rightarrow> str option"
  oe_url_parse :: "str \<Rightarrow> (str \<times> (str \<times> str) list) option"
  oe_bind :: "nat \<Rightarrow> bool"
  oe_local_port :: "nat \<Rightarrow> nat option"
  oe_open_browser :: "str \<Rightarrow> bool"
  oe_connections :: "connection list"
  oe_reason :: "nat \<Rightarrow> str option"

section \<open>Tokens\<close>

definition needs_refresh :: "auth_config \<Rightarrow> u64 \<Rightarrow> bool" where
  "needs_refresh auth now_unix =
     (case openai_oauth_expires_at_unix auth of
        None \<Rightarrow> False
      | Some expires_at \<Rightarrow> unat expires_at \<le> min (unat now_unix + unat TOKEN_REFRESH_WINDOW_SECS) (2 ^ 64 - 1))"

definition decode_jwt_payload :: "oauth_env \<Rightarrow> str \<Rightarrow> oauth_error + json" where
  "decode_jwt_payload env jwt =
     (case split_on (CHR ''.'') jwt of
        header # payload # signature # _ \<Rightarrow>
          if header = [] \<or> payload = [] \<or> signature = [] then Inl InvalidResponse
          else
            and_then (ok_or InvalidResponse (oe_b64_decode env payload)) (\<lambda>decoded.
            map_err (\<lambda>_. InvalidResponse) (parse (oe_codec env) decoded))
      | _ \<Rightarrow> Inl InvalidResponse)"

definition parse_expiration :: "oauth_env \<Rightarrow> str \<Rightarrow> oauth_error + u64" where
  "parse_expiration env jwt =
     and_then (decode_jwt_payload env jwt) (\<lambda>payload.
     case u64_at payload ''exp'' of
       Some expiration \<Rightarrow> if expiration > 0 then Inr expiration else Inl InvalidResponse
     | None \<Rightarrow> Inl InvalidResponse)"

definition parse_identity_claims :: "oauth_env \<Rightarrow> str \<Rightarrow> oauth_error + identity_claims option" where
  "parse_identity_claims env jwt =
     and_then (decode_jwt_payload env jwt) (\<lambda>payload.
     let auth = Option.bind (jget payload ''https://api.openai.com/auth'') as_object;
         account_id = Option.bind (Option.bind auth (\<lambda>claims. map_get claims ''chatgpt_account_id'')) as_str;
         is_fedramp = unwrap_or
           (Option.bind (Option.bind auth (\<lambda>claims. map_get claims ''chatgpt_account_is_fedramp'')) as_bool) False;
         email = or_else (str_at payload ''email'')
           (Option.bind (Option.bind (Option.bind (jget payload ''https://api.openai.com/profile'') as_object)
             (\<lambda>claims. map_get claims ''email'')) as_str)
     in Inr (if account_id \<noteq> None \<or> email \<noteq> None
             then Some \<lparr>ic_account_id = account_id, ic_email = email, ic_is_fedramp = is_fedramp\<rparr> else None))"

definition auth_from_tokens :: "oauth_env \<Rightarrow> token_response \<Rightarrow> oauth_error + auth_config" where
  "auth_from_tokens env tokens =
     and_then (parse_identity_claims env (tr_id_token tokens)) (\<lambda>claims.
     and_then (ok_or MissingAccount claims) (\<lambda>identity.
     and_then (ok_or MissingAccount (ic_account_id identity)) (\<lambda>account_id.
     and_then (parse_expiration env (tr_access_token tokens)) (\<lambda>expires_at_unix.
     Inr (OpenAiOAuth (tr_access_token tokens) (tr_refresh_token tokens) account_id expires_at_unix
            (ic_email identity) (ic_is_fedramp identity))))))"

section \<open>Requests\<close>

definition oauth_headers :: "oauth_env \<Rightarrow> str \<Rightarrow> header_map" where
  "oauth_headers env content_type =
     [(''content-type'', content_type), (''accept'', ''application/json''),
      (''user-agent'', ''codex_cli_rs/'' @ oe_version env), (''originator'', ''codex_cli_rs'')]"

definition post :: "oauth_env \<Rightarrow> (str \<Rightarrow> 'a option) \<Rightarrow> str \<Rightarrow> str \<Rightarrow> str \<Rightarrow> oauth_error + 'a" where
  "post env deserialize url content_type body =
     (if \<not> oe_uri_ok env url then Inl OAuthRequestBuild
      else
        (case oe_send env \<lparr>post_url = url, post_headers = oauth_headers env content_type, post_body = body\<rparr> of
           SendTimedOut \<Rightarrow> Inl ResponseTimeout
         | SendFailed \<Rightarrow> Inl OAuthTransport
         | Reply r \<Rightarrow>
             if \<not> (200 \<le> reply_status r \<and> reply_status r < 300) then Inl (ResponseStatus (reply_status r))
             else
               (case reply_body r of
                  BodyTimedOut \<Rightarrow> Inl ResponseTimeout
                | BodyFailed \<Rightarrow> Inl InvalidResponse
                | BodyBytes bytes \<Rightarrow>
                    if RESPONSE_BODY_LIMIT < length bytes then Inl InvalidResponse
                    else ok_or InvalidResponse (deserialize bytes))))"

definition token_url :: "oauth_env \<Rightarrow> str" where
  "token_url env = trim_end_matches ''/'' (oe_issuer env) @ ''/oauth/token''"

definition exchange_authorization_code :: "oauth_env \<Rightarrow> str \<Rightarrow> str \<Rightarrow> str \<Rightarrow> oauth_error + token_response" where
  "exchange_authorization_code env redirect_uri verifier code =
     post env (oe_parse_tokens env) (token_url env) ''application/x-www-form-urlencoded''
       (oe_form env [(''grant_type'', ''authorization_code''), (''code'', code), (''redirect_uri'', redirect_uri),
          (''client_id'', CLIENT_ID), (''code_verifier'', verifier)])"

definition refresh_request :: "str \<Rightarrow> json" where
  "refresh_request refresh_token =
     JObject [(''client_id'', JString CLIENT_ID), (''grant_type'', JString ''refresh_token''),
       (''refresh_token'', JString refresh_token)]"

definition oauth_refresh :: "oauth_env \<Rightarrow> auth_config \<Rightarrow> oauth_error + auth_config" where
  "oauth_refresh env auth =
     (case auth of
        OpenAiOAuth _ refresh_token account_id _ email is_fedramp \<Rightarrow>
          and_then (map_err (\<lambda>_. OAuthRequestBuild) (to_vec (oe_codec env) (refresh_request refresh_token))) (\<lambda>body.
          and_then (post env (oe_parse_refresh env) (token_url env) ''application/json'' body) (\<lambda>response.
          and_then (ok_or InvalidResponse (rr_access_token response)) (\<lambda>access_token.
          and_then (case rr_id_token response of
                      None \<Rightarrow> Inr None | Some id_token \<Rightarrow> parse_identity_claims env id_token) (\<lambda>claims.
          and_then (parse_expiration env access_token) (\<lambda>expires_at_unix.
          Inr (OpenAiOAuth access_token (unwrap_or (rr_refresh_token response) refresh_token)
                 (unwrap_or (Option.bind claims ic_account_id) account_id) expires_at_unix
                 (or_else (Option.bind claims ic_email) email)
                 (case claims of None \<Rightarrow> is_fedramp | Some claims \<Rightarrow> ic_is_fedramp claims)))))))
      | _ \<Rightarrow> Inl InvalidCredentials)"

definition oauth_client_new ::
  "bool \<Rightarrow> (str \<Rightarrow> hyper_uri option) \<Rightarrow> proxy_environment \<Rightarrow> nat \<Rightarrow> oauth_env \<Rightarrow> oauth_error + oauth_env" where
  "oauth_client_new init_ok uri_parse px connect_timeout env =
     and_then (map_err (\<lambda>_. NetworkConfiguration) (build_http_connector init_ok uri_parse px connect_timeout)) (\<lambda>_.
     Inr (env\<lparr>oe_issuer := ISSUER\<rparr>))"

section \<open>The callback\<close>

text \<open>
  \<open>split_whitespace\<close>: the next word and the rest, if there is a word. White space is matched on the bytes, as
  in \<open>trim_start\<close>.
\<close>

fun take_word :: "str \<Rightarrow> str \<times> str" where
  "take_word [] = ([], [])"
| "take_word [a] = (if ws1 a then ([], [a]) else ([a], []))"
| "take_word [a, b] =
     (if ws1 a \<or> ws2 a b then ([], [a, b]) else (let (w, r) = take_word [b] in (a # w, r)))"
| "take_word (a # b # c # s) =
     (if ws1 a \<or> ws2 a b \<or> ws3 a b c then ([], a # b # c # s)
      else (let (w, r) = take_word (b # c # s) in (a # w, r)))"

definition next_word :: "str \<Rightarrow> (str \<times> str) option" where
  "next_word s = (let s = trim_start s in if s = [] then None else Some (take_word s))"

definition ends_request :: "str \<Rightarrow> bool" where
  "ends_request bytes \<longleftrightarrow> split_once_str [CR, LF, CR, LF] bytes \<noteq> None"

text \<open>
  The reads of \<open>read_request_target\<close>: until the end of the head, the end of the stream, or 16 KiB. A client that
  neither sends nor closes is waited for until the login times out.
\<close>

fun read_head :: "read_outcome list \<Rightarrow> str \<Rightarrow> oauth_error + str" where
  "read_head reads bytes =
     (if length bytes < 16 * 1024 then
        (case reads of
           [] \<Rightarrow> Inl LoginTimeout
         | ReadFailed # _ \<Rightarrow> Inl InvalidCallback
         | ReadBytes chunk # rest \<Rightarrow>
             if chunk = [] then Inr bytes
             else if ends_request (bytes @ chunk) then Inr (bytes @ chunk)
             else read_head rest (bytes @ chunk))
      else Inr bytes)"

definition request_target :: "str \<Rightarrow> oauth_error + str" where
  "request_target bytes =
     and_then (map_err (\<lambda>_. InvalidCallback) (from_utf8 bytes)) (\<lambda>request.
     let line = (case lines request of [] \<Rightarrow> [] | l # _ \<Rightarrow> l) in
     case next_word line of
       Some (m, rest) \<Rightarrow>
         (case next_word rest of
            Some (target, rest) \<Rightarrow>
              (case next_word rest of
                 Some (version, _) \<Rightarrow>
                   if m = ''GET'' \<and> starts_with ''HTTP/'' version then Inr target else Inl InvalidCallback
               | None \<Rightarrow> Inl InvalidCallback)
          | None \<Rightarrow> Inl InvalidCallback)
     | None \<Rightarrow> Inl InvalidCallback)"

definition read_request_target :: "read_outcome list \<Rightarrow> oauth_error + str" where
  "read_request_target reads = and_then (read_head reads []) request_target"

text \<open>What is sent to the browser.\<close>

definition browser_response :: "oauth_env \<Rightarrow> nat \<Rightarrow> str \<Rightarrow> str" where
  "browser_response env status message =
     (let body = ''<!doctype html><meta charset=\"utf-8\"><title>ProviderX</title><body><p>'' @ message @ ''</p></body>'' in
      ''HTTP/1.1 '' @ dec_string status @ '' '' @ unwrap_or (oe_reason env status) ''Response'' @ [CR, LF] @
      ''Content-Type: text/html; charset=utf-8'' @ [CR, LF] @ ''Content-Length: '' @ dec_string (length body) @ [CR, LF] @
      ''Connection: close'' @ [CR, LF, CR, LF] @ body)"

definition sign_in_failed :: str where
  "sign_in_failed = ''OpenAI sign-in could not be completed. Return to ProviderX and try again.''"

definition sign_in_completed :: str where
  "sign_in_completed = ''OpenAI sign-in completed. You can close this window and return to ProviderX.''"

text \<open>The last value of each of the three parameters.\<close>

definition last_pair :: "str \<Rightarrow> (str \<times> str) list \<Rightarrow> str option" where
  "last_pair name pairs = fold (\<lambda>(n, v) found. if n = name then Some v else found) pairs None"

text \<open>
  The loop that waits for the callback, with the responses that are sent. When no further client connects, the
  login times out. The second component of a connection says whether its response can be sent.
\<close>

fun receive_authorization_code ::
  "oauth_env \<Rightarrow> str \<Rightarrow> connection list \<Rightarrow> str list \<times> (oauth_error + str \<times> bool)" where
  "receive_authorization_code env expected_state [] = ([], Inl LoginTimeout)"
| "receive_authorization_code env expected_state (AcceptFailed # _) = ([], Inl InvalidCallback)"
| "receive_authorization_code env expected_state (Incoming reads writable # rest) =
     (case read_request_target reads of
        Inl e \<Rightarrow> ([], Inl e)
      | Inr target \<Rightarrow>
          (case oe_url_parse env (''http://localhost'' @ target) of
             None \<Rightarrow> ([], Inl InvalidCallback)
           | Some (path, pairs) \<Rightarrow>
               if path \<noteq> ''/auth/callback'' then
                 (if \<not> writable then ([], Inl InvalidCallback)
                  else
                    (let (sent, r) = receive_authorization_code env expected_state rest
                     in (browser_response env 404 ''Not Found'' # sent, r)))
               else if last_pair ''error'' pairs \<noteq> None \<or> last_pair ''state'' pairs \<noteq> Some expected_state \<or>
                       last_pair ''code'' pairs = None then
                 (if \<not> writable then ([], Inl InvalidCallback)
                  else ([browser_response env 400 sign_in_failed], Inl InvalidCallback))
               else
                 (case last_pair ''code'' pairs of
                    Some code \<Rightarrow> ([], Inr (code, writable))
                  | None \<Rightarrow> ([], Inl InvalidCallback))))"

definition authorization_url :: "oauth_env \<Rightarrow> str \<Rightarrow> str \<Rightarrow> str \<Rightarrow> oauth_error + str" where
  "authorization_url env redirect_uri challenge state =
     ok_or OAuthRequestBuild (oe_url_with env (ISSUER @ ''/oauth/authorize'')
       [(''response_type'', ''code''), (''client_id'', CLIENT_ID), (''redirect_uri'', redirect_uri),
        (''scope'', ''openid profile email offline_access api.connectors.read api.connectors.invoke''),
        (''code_challenge'', challenge), (''code_challenge_method'', ''S256''),
        (''id_token_add_organizations'', ''true''), (''codex_cli_simplified_flow'', ''true''),
        (''state'', state), (''originator'', ''codex_cli_rs'')])"

fun bind_first :: "oauth_env \<Rightarrow> nat list \<Rightarrow> oauth_error + nat" where
  "bind_first env [] = Inl CallbackUnavailable"
| "bind_first env (port # ports) = (if oe_bind env port then Inr port else bind_first env ports)"

definition bind_callback_listener :: "oauth_env \<Rightarrow> oauth_error + nat" where
  "bind_callback_listener env = bind_first env CALLBACK_PORTS"

text \<open>The n-th use of the random source.\<close>

definition random_urlsafe :: "oauth_env \<Rightarrow> nat \<Rightarrow> nat \<Rightarrow> oauth_error + str" where
  "random_urlsafe env n byte_count = map_err (\<lambda>_. OAuthRequestBuild)
     (and_then (ok_or () (oe_random env n byte_count)) (\<lambda>bytes. Inr (oe_b64_encode env bytes)))"

record pkce =
  pkce_verifier :: str
  pkce_challenge :: str

definition pkce_generate :: "oauth_env \<Rightarrow> oauth_error + pkce" where
  "pkce_generate env =
     and_then (random_urlsafe env 0 64) (\<lambda>verifier.
     Inr \<lparr>pkce_verifier = verifier, pkce_challenge = oe_b64_encode env (oe_sha256 env verifier)\<rparr>)"

text \<open>The exchange and its answer to the browser, which failed before the result of the login is known.\<close>

definition complete_login :: "oauth_env \<Rightarrow> str \<Rightarrow> str \<Rightarrow> str \<Rightarrow> bool \<Rightarrow> str list \<times> (oauth_error + auth_config)" where
  "complete_login env redirect_uri verifier code writable =
     (let failed = (if writable then [browser_response env 502 sign_in_failed] else []) in
      case exchange_authorization_code env redirect_uri verifier code of
        Inl e \<Rightarrow> (failed, Inl e)
      | Inr tokens \<Rightarrow>
          (case auth_from_tokens env tokens of
             Inl e \<Rightarrow> (failed, Inl e)
           | Inr auth \<Rightarrow>
               if writable then ([browser_response env 200 sign_in_completed], Inr auth)
               else ([], Inl InvalidCallback)))"

text \<open>The start of a login, up to the browser.\<close>

definition begin_login :: "oauth_env \<Rightarrow> oauth_error + str \<times> pkce \<times> str" where
  "begin_login env =
     and_then (bind_callback_listener env) (\<lambda>listener.
     and_then (ok_or CallbackUnavailable (oe_local_port env listener)) (\<lambda>port.
     let redirect_uri = ''http://localhost:'' @ dec_string port @ ''/auth/callback'' in
     and_then (pkce_generate env) (\<lambda>pkce.
     and_then (random_urlsafe env 1 32) (\<lambda>state.
     and_then (authorization_url env redirect_uri (pkce_challenge pkce) state) (\<lambda>url.
     if oe_open_browser env url then Inr (redirect_uri, pkce, state) else Inl BrowserOpen)))))"

definition login_with_browser :: "oauth_env \<Rightarrow> str list \<times> (oauth_error + auth_config)" where
  "login_with_browser env =
     (case begin_login env of
        Inl e \<Rightarrow> ([], Inl e)
      | Inr (redirect_uri, pkce, state) \<Rightarrow>
          (case receive_authorization_code env state (oe_connections env) of
             (sent, Inl e) \<Rightarrow> (sent, Inl e)
           | (sent, Inr (code, writable)) \<Rightarrow>
               (let (answer, r) = complete_login env redirect_uri (pkce_verifier pkce) code writable in (sent @ answer, r))))"

section \<open>Properties\<close>

lemma parse_expiration_pos: "parse_expiration env jwt = Inr e \<Longrightarrow> e > 0"
  by (auto simp: parse_expiration_def split: option.splits if_splits)

lemma auth_from_tokens_Inr:
  "auth_from_tokens env tokens = Inr auth \<Longrightarrow>
     \<exists>i e m f. auth = OpenAiOAuth (tr_access_token tokens) (tr_refresh_token tokens) i e m f \<and> e > 0"
  by (auto simp: auth_from_tokens_def intro: parse_expiration_pos)

text \<open>A client that asked for something else than the callback and was told so.\<close>

definition strayed :: "oauth_env \<Rightarrow> connection \<Rightarrow> bool" where
  "strayed env c \<longleftrightarrow>
     (\<exists>reads target path pairs. c = Incoming reads True \<and> read_request_target reads = Inr target \<and>
        oe_url_parse env (''http://localhost'' @ target) = Some (path, pairs) \<and> path \<noteq> ''/auth/callback'')"

text \<open>The connection that brings the code for this login.\<close>

definition called_back :: "oauth_env \<Rightarrow> str \<Rightarrow> read_outcome list \<Rightarrow> str \<Rightarrow> bool" where
  "called_back env state reads code \<longleftrightarrow>
     (\<exists>target pairs. read_request_target reads = Inr target \<and>
        oe_url_parse env (''http://localhost'' @ target) = Some (''/auth/callback'', pairs) \<and>
        last_pair ''error'' pairs = None \<and> last_pair ''state'' pairs = Some state \<and> last_pair ''code'' pairs = Some code)"

lemma receive_Inr:
  "receive_authorization_code env state conns = (sent, Inr (code, writable)) \<Longrightarrow>
     \<exists>before reads rest. conns = before @ Incoming reads writable # rest \<and> list_all (strayed env) before \<and>
       called_back env state reads code \<and> sent = replicate (length before) (browser_response env 404 ''Not Found'')"
proof (induction env state conns arbitrary: sent rule: receive_authorization_code.induct)
  case (3 env state reads writable' rest)
  obtain target path pairs where t: "read_request_target reads = Inr target"
      "oe_url_parse env (''http://localhost'' @ target) = Some (path, pairs)"
    using 3(2) by (auto split: sum.splits option.splits)
  show ?case
  proof (cases "path = ''/auth/callback''")
    case True
    with t 3(2) have "called_back env state reads code" "writable' = writable" "sent = []"
      by (auto simp: called_back_def split: if_splits option.splits)
    then show ?thesis by (intro exI[of _ "[]"] exI[of _ reads] exI[of _ rest]) simp
  next
    case False
    with t 3(2) obtain sent' where sent: "writable'" "receive_authorization_code env state rest = (sent', Inr (code, writable))"
        "sent = browser_response env 404 ''Not Found'' # sent'"
      by (auto split: if_splits prod.splits)
    from 3(1)[OF t(1,2) refl False _ sent(2)] sent(1) obtain before reads' rest' where
      "rest = before @ Incoming reads' writable # rest'" "list_all (strayed env) before" "called_back env state reads' code"
      "sent' = replicate (length before) (browser_response env 404 ''Not Found'')"
      by auto
    moreover have "strayed env (Incoming reads writable')" using t False sent(1) by (auto simp: strayed_def)
    ultimately show ?thesis
      using sent(3) by (intro exI[of _ "Incoming reads writable' # before"] exI[of _ reads'] exI[of _ rest']) simp
  qed
qed auto

text \<open>What is read of a request is bounded, however much a client sends.\<close>

lemma read_head_bounded:
  "read_head reads bytes = Inr head \<Longrightarrow> length bytes < 17 * 1024 \<Longrightarrow>
   \<forall>chunk. ReadBytes chunk \<in> set reads \<longrightarrow> length chunk \<le> 1024 \<Longrightarrow> length head < 17 * 1024"
proof (induction reads bytes rule: read_head.induct)
  case (1 reads bytes)
  show ?case
  proof (cases "length bytes < 16 * 1024")
    case False
    with 1 show ?thesis by (simp add: read_head.simps[of reads bytes])
  next
    case True
    with 1(2) obtain chunk rest where r: "reads = ReadBytes chunk # rest"
      by (simp add: read_head.simps[of reads bytes]) (cases reads; auto split: read_outcome.splits)
    then have "length (bytes @ chunk) < 17 * 1024" using True 1(4) by auto
    then show ?thesis
      using 1(1)[OF True r refl] 1(2,4) True r
      by (auto simp: read_head.simps[of reads bytes] split: if_splits)
  qed
qed

text \<open>C35: A login succeeds only by its own callback. When the login in the browser returns credentials, some connection
  was a GET for \<open>/auth/callback\<close> whose state is the random one of this login, without an error; every connection
  before it asked for another path and got a 404, and none after it is read. The code of that very request was
  exchanged with the verifier of this login, the credentials are those of the answer, they expire, and the browser
  was told so.\<close>

theorem login_needs_own_callback:
  assumes "login_with_browser env = (sent, Inr auth)"
  shows "\<exists>before reads rest bytes code redirect_uri verifier tokens.
    oe_connections env = before @ Incoming reads True # rest \<and> list_all (strayed env) before \<and>
    oe_random env 1 32 = Some bytes \<and> called_back env (oe_b64_encode env bytes) reads code \<and>
    exchange_authorization_code env redirect_uri verifier code = Inr tokens \<and>
    (\<exists>seed. oe_random env 0 64 = Some seed \<and> verifier = oe_b64_encode env seed) \<and>
    auth_from_tokens env tokens = Inr auth \<and>
    (\<exists>access refresh account expires email f. auth = OpenAiOAuth access refresh account expires email f \<and> expires > 0) \<and>
    sent = replicate (length before) (browser_response env 404 ''Not Found'') @ [browser_response env 200 sign_in_completed]"
proof -
  obtain redirect_uri pk state sent1 code writable where
    begun: "begin_login env = Inr (redirect_uri, pk, state)"
    and received: "receive_authorization_code env state (oe_connections env) = (sent1, Inr (code, writable))"
    and answer: "sent = sent1 @ fst (complete_login env redirect_uri (pkce_verifier pk) code writable)"
      "snd (complete_login env redirect_uri (pkce_verifier pk) code writable) = Inr auth"
    using assms unfolding login_with_browser_def
    by (auto simp: Let_def split: sum.splits prod.splits)
  have state: "random_urlsafe env 1 32 = Inr state" and pk: "pkce_generate env = Inr pk"
    using begun by (auto simp: begin_login_def Let_def split: if_splits)
  obtain tokens where tokens: "exchange_authorization_code env redirect_uri (pkce_verifier pk) code = Inr tokens"
      "auth_from_tokens env tokens = Inr auth" "writable" "fst (complete_login env redirect_uri (pkce_verifier pk) code writable) =
        [browser_response env 200 sign_in_completed]"
    using answer(2) by (auto simp: complete_login_def Let_def split: sum.splits if_splits)
  from state obtain bytes where "oe_random env 1 32 = Some bytes" "state = oe_b64_encode env bytes"
    by (auto simp: random_urlsafe_def)
  moreover from pk obtain seed where "oe_random env 0 64 = Some seed" "pkce_verifier pk = oe_b64_encode env seed"
    by (auto simp: pkce_generate_def random_urlsafe_def)
  ultimately show ?thesis
    using receive_Inr[OF received] answer(1) tokens auth_from_tokens_Inr[OF tokens(2)] by fastforce
qed

text \<open>
  A refresh keeps the account unless the answer names another one, keeps the refresh token unless it is rotated,
  and never brings credentials without an expiry.
\<close>

lemma oauth_refresh_Inr:
  assumes "oauth_refresh env auth = Inr auth'"
  shows "\<exists>a r i e m f a' r' i' e' m' f'. auth = OpenAiOAuth a r i e m f \<and> auth' = OpenAiOAuth a' r' i' e' m' f' \<and> e' > 0 \<and>
    (\<exists>response :: refresh_response. rr_access_token response = Some a' \<and> r' = unwrap_or (rr_refresh_token response) r \<and>
       (rr_id_token response = None \<longrightarrow> i' = i \<and> m' = m \<and> f' = f))"
proof -
  obtain a r i e m f where auth: "auth = OpenAiOAuth a r i e m f"
    using assms by (cases auth) (auto simp: oauth_refresh_def)
  obtain response :: refresh_response and a' claims e' where response: "rr_access_token response = Some a'" "parse_expiration env a' = Inr e'"
      "(case rr_id_token response of None \<Rightarrow> Inr None | Some id_token \<Rightarrow> parse_identity_claims env id_token) = Inr claims"
      "auth' = OpenAiOAuth a' (unwrap_or (rr_refresh_token response) r) (unwrap_or (Option.bind claims ic_account_id) i) e'
         (or_else (Option.bind claims ic_email) m) (case claims of None \<Rightarrow> f | Some claims \<Rightarrow> ic_is_fedramp claims)"
    using assms unfolding oauth_refresh_def auth auth_config.case and_then_eq_Inr ok_or_eq_Inr sum.inject
    by (elim exE conjE) (erule that[OF _ _ _ sym]; assumption)
  moreover have "claims = None" if "rr_id_token response = None" using response(3) that by simp
  ultimately show ?thesis
    using parse_expiration_pos[OF response(2)] auth by (fastforce simp: or_else_def)
qed

text \<open>A browser that first asks for an icon and then comes to the callback.\<close>

definition example_target :: str where "example_target = ''/auth/callback?code=c&state=s''"

definition example_oauth :: oauth_env where
  "example_oauth = \<lparr>oe_send = (\<lambda>_. Reply \<lparr>reply_status = 200, reply_headers = [], reply_body = BodyBytes []\<rparr>),
     oe_uri_ok = (\<lambda>_. True), oe_issuer = ISSUER, oe_version = ''1'',
     oe_codec = \<lparr>parse = (\<lambda>s. Inr (JObject [(''exp'', jnat 7), (''https://api.openai.com/auth'',
        JObject [(''chatgpt_account_id'', JString ''a'')])])), to_vec = (\<lambda>_. Inl []), display = (\<lambda>_. [])\<rparr>,
     oe_parse_tokens = (\<lambda>_. Some \<lparr>tr_id_token = ''h.i.s'', tr_access_token = ''h.a.s'', tr_refresh_token = ''r''\<rparr>),
     oe_parse_refresh = (\<lambda>_. None), oe_b64_decode = Some, oe_b64_encode = (\<lambda>s. s), oe_sha256 = (\<lambda>s. s),
     oe_random = (\<lambda>n _. Some (if n = 0 then ''v'' else ''s'')), oe_form = (\<lambda>_. []), oe_url_with = (\<lambda>u _. Some u),
     oe_url_parse = (\<lambda>u. if u = ''http://localhost'' @ example_target
        then Some (''/auth/callback'', [(''code'', ''c''), (''state'', ''s'')]) else Some (''/favicon.ico'', [])),
     oe_bind = (\<lambda>_. True), oe_local_port = Some, oe_open_browser = (\<lambda>_. True),
     oe_connections = [Incoming [ReadBytes (''GET /favicon.ico HTTP/1.1'' @ [CR, LF, CR, LF])] True,
       Incoming [ReadBytes (''GET '' @ example_target @ '' HTTP/1.1'' @ [CR, LF, CR, LF])] True],
     oe_reason = (\<lambda>_. None)\<rparr>"

lemma example_reads_target:
  "read_request_target [ReadBytes (''GET /favicon.ico HTTP/1.1'' @ [CR, LF, CR, LF])] = Inr ''/favicon.ico''"
  "read_request_target [ReadBytes (''GET '' @ example_target @ '' HTTP/1.1'' @ [CR, LF, CR, LF])] = Inr example_target"
  by (simp_all add: read_request_target_def request_target_def ends_request_def from_utf8_def utf8_error.simps utf8_chunk_def
      utf8_width_def lines_def strip_cr_def next_word_def ws1_def ws2_def ws3_def starts_with_def example_target_def Let_def)

lemma example_login:
  "\<exists>sent. login_with_browser example_oauth = (sent, Inr (OpenAiOAuth ''h.a.s'' ''r'' ''a'' 7 None False))"
proof -
  have "\<exists>u. begin_login example_oauth = Inr (u, \<lparr>pkce_verifier = ''v'', pkce_challenge = ''v''\<rparr>, ''s'')"
    by (simp add: begin_login_def bind_callback_listener_def CALLBACK_PORTS_def example_oauth_def pkce_generate_def
        random_urlsafe_def authorization_url_def Let_def)
  then obtain u where begun: "begin_login example_oauth = Inr (u, \<lparr>pkce_verifier = ''v'', pkce_challenge = ''v''\<rparr>, ''s'')"
    by blast
  have "\<exists>sent. receive_authorization_code example_oauth ''s'' (oe_connections example_oauth) = (sent, Inr (''c'', True))"
    using example_reads_target
    by (simp add: example_oauth_def last_pair_def example_target_def)
  then obtain sent1 where "receive_authorization_code example_oauth ''s'' (oe_connections example_oauth) = (sent1, Inr (''c'', True))"
    by blast
  moreover have "\<exists>sent. complete_login example_oauth u ''v'' ''c'' True = (sent, Inr (OpenAiOAuth ''h.a.s'' ''r'' ''a'' 7 None False))"
    by (simp add: complete_login_def exchange_authorization_code_def post_def example_oauth_def RESPONSE_BODY_LIMIT_def
        auth_from_tokens_def parse_identity_claims_def parse_expiration_def decode_jwt_payload_def Let_def jget_def map_get_def
        str_at_def u64_at_def as_object_def as_str_def as_bool_def as_u64_def jnat_def or_else_def)
  ultimately show ?thesis using begun by (auto simp: login_with_browser_def Let_def)
qed

theorem login_needs_own_callback_witness:
  "\<exists>before reads rest. oe_connections example_oauth = before @ Incoming reads True # rest \<and>
     list_all (strayed example_oauth) before \<and> called_back example_oauth ''s'' reads ''c''"
proof -
  obtain sent where "login_with_browser example_oauth = (sent, Inr (OpenAiOAuth ''h.a.s'' ''r'' ''a'' 7 None False))"
    using example_login by blast
  from login_needs_own_callback[OF this] obtain before reads rest code where
    "oe_connections example_oauth = before @ Incoming reads True # rest" "list_all (strayed example_oauth) before"
    "called_back example_oauth ''s'' reads code"
    by (auto simp: example_oauth_def)
  moreover from this(3) have "code = ''c''"
    by (auto simp: called_back_def example_oauth_def last_pair_def split: if_splits)
  ultimately show ?thesis by blast
qed

end
