(* ===== verification/Services.thy ===== *)
theory Services
  imports CodexConfig Upgrade Ingress OAuth
begin

text \<open>
  The services of the application, \<open>runtime.rs\<close>: the start, the changes of the configuration that go to the disk and
  to the egress, the integration with Codex, and the refresh of logins and models. What other tasks do while a
  request is out is a parameter of the operations that wait for one. The mutexes are not poisoned, and an error
  is kept as it is where the code keeps its text.
\<close>

section \<open>State\<close>

datatype bind_outcome = Bound | AddressInUse | BindFailed

record ('y, 'd, 'i) services_env =
  ve_upgrade :: "'y upgrade_env"
  ve_egress :: egress_env
  ve_codex :: "('d, 'i) codex_env"
  ve_editor :: codex_editor
  ve_paths :: app_paths
  ve_oauth :: oauth_env
  ve_client :: discovery_client
  ve_bind :: "nat \<Rightarrow> bind_outcome"
  ve_connect :: bool
  ve_random :: "str option"
  ve_ip_text :: "ip_addr \<Rightarrow> str"

abbreviation ve_control :: "('y, 'd, 'i) services_env \<Rightarrow> 'y control_env" where
  "ve_control env \<equiv> ue_control (ve_upgrade env)"

abbreviation ve_stores :: "('y, 'd, 'i) services_env \<Rightarrow> 'y store_env" where
  "ve_stores env \<equiv> ce_stores (ve_control env)"

record services =
  sv_control :: control_plane
  sv_egress :: egress_state
  sv_address :: str
  sv_failure :: "str option"
  sv_world :: world

datatype service_error =
    ServiceControl control_error
  | ServiceReload egress_build_error
  | ServiceCodex codex_config_error
  | CodexManagementDisabled
  | ServiceOAuth oauth_error
  | ServiceCatalog catalog_error
  | EgressFailed str
  | EgressHealthFailed

datatype startup_error =
    StartUpgrade upgrade_error
  | StartControl control_error
  | StartCodex codex_config_error
  | StartCapability
  | StartListenerHost
  | StartEgress egress_build_error
  | StartListener
  | StartService service_error

record mutation_outcome =
  mo_provider_id :: provider_id
  mo_codex_warning :: "service_error option"

definition on_world :: "('e, 'a) io \<Rightarrow> (services, 'e, 'a) action" where
  "on_world m = (\<lambda>st. case m (sv_world st) of (r, w) \<Rightarrow> (r, st\<lparr>sv_world := w\<rparr>))"

section \<open>The integration with Codex\<close>

definition capability_from_base_url :: "str \<Rightarrow> str option" where
  "capability_from_base_url base_url =
     Option.bind (split_once_str ''://'' base_url) (\<lambda>(_, authority_and_path).
     Option.bind (split_once (CHR ''/'') authority_and_path) (\<lambda>(_, path).
     case split_on (CHR ''/'') path of
       [capability, version] \<Rightarrow>
         if version = ''v1'' then (case capability_from_hex capability of Inr c \<Rightarrow> Some c | Inl _ \<Rightarrow> None) else None
     | _ \<Rightarrow> None))"

definition desired_codex_integration :: "services \<Rightarrow> service_error + codex_integration" where
  "desired_codex_integration st =
     (if \<not> manage_user_config (doc_codex (cp_providers (sv_control st))) then Inl CodexManagementDisabled
      else Inr \<lparr>cx_openai_base_url =
             ''http://'' @ sv_address st @ ''/'' @ es_ingress_capability (sv_egress st) @ ''/v1''\<rparr>)"

definition codex_status ::
  "('y, 'd, 'i) services_env \<Rightarrow> (services, service_error, codex_config_status) action" where
  "codex_status env = on_world (act_map_err ServiceCodex (inspect_codex (ve_codex env) (ve_editor env)))"

definition apply_codex_integration ::
  "('y, 'd, 'i) services_env \<Rightarrow> str \<Rightarrow> (services, service_error, unit) action" where
  "apply_codex_integration env timestamp = (\<lambda>st.
     act (act_of (desired_codex_integration st)) (\<lambda>desired.
     act (on_world (act_map_err ServiceCodex (apply_integration (ve_codex env) (ve_editor env) desired timestamp))) (\<lambda>_.
     act_ok ())) st)"

definition reconcile_codex_if_active ::
  "('y, 'd, 'i) services_env \<Rightarrow> str \<Rightarrow> (services, service_error, unit) action" where
  "reconcile_codex_if_active env timestamp =
     act (codex_status env) (\<lambda>status.
     if (case cs_receipt_phase status of Some (PhaseActive _) \<Rightarrow> True | _ \<Rightarrow> False) \<and> cs_managed_values_match status
     then apply_codex_integration env timestamp else act_ok ())"

definition reconcile_codex_listener_if_active ::
  "('y, 'd, 'i) services_env \<Rightarrow> str \<Rightarrow> (services, service_error, unit) action" where
  "reconcile_codex_listener_if_active env timestamp =
     act (on_world (act_map_err ServiceCodex (active_integration (ve_codex env) (ve_editor env)))) (\<lambda>current.
     case current of
       None \<Rightarrow> act_ok ()
     | Some current \<Rightarrow> (\<lambda>st.
         act (act_of (desired_codex_integration st)) (\<lambda>desired.
         if current \<noteq> desired then apply_codex_integration env timestamp else act_ok ()) st))"

definition egress_ready :: "services \<Rightarrow> service_error + unit" where
  "egress_ready st = (case sv_failure st of Some e \<Rightarrow> Inl (EgressFailed e) | None \<Rightarrow> Inr ())"

definition verify_egress_ready :: "('y, 'd, 'i) services_env \<Rightarrow> services \<Rightarrow> service_error + unit" where
  "verify_egress_ready env st =
     and_then (egress_ready st) (\<lambda>_. if ve_connect env then Inr () else Inl EgressHealthFailed)"

definition set_codex_integration ::
  "('y, 'd, 'i) services_env \<Rightarrow> bool \<Rightarrow> str \<Rightarrow> (services, service_error, codex_config_status) action" where
  "set_codex_integration env enabled timestamp = (\<lambda>st.
     act (act_of (if enabled then verify_egress_ready env st else Inr ())) (\<lambda>_.
     act (if enabled then apply_codex_integration env timestamp
          else act (on_world (act_map_err ServiceCodex (restore_integration (ve_codex env) (ve_editor env) timestamp)))
            (\<lambda>_. act_ok ())) (\<lambda>_.
     codex_status env)) st)"

section \<open>Changes of the configuration\<close>

text \<open>A change is prepared, the runtime is prepared for it, it is written, and only then the runtime is replaced.\<close>

definition publish ::
  "('y, 'd, 'i) services_env \<Rightarrow> control_mutation \<Rightarrow> (services, service_error, provider_id) action" where
  "publish env mutation = (\<lambda>st.
     case and_then (map_err ServiceControl (prepare_mutation (ve_control env) (sv_control st) mutation)) (\<lambda>prepared.
          and_then (map_err ServiceReload (prepare_reload (ve_egress env) (pm_providers prepared) (pm_cache prepared))) (\<lambda>runtime.
          Inr (prepared, runtime))) of
       Inl e \<Rightarrow> (Inl e, st)
     | Inr (prepared, runtime) \<Rightarrow>
         (case commit_mutation (ve_control env) prepared (sv_control st, sv_world st) of
            (Inl e, (cp, w)) \<Rightarrow> (Inl (ServiceControl e), st\<lparr>sv_control := cp, sv_world := w\<rparr>)
          | (Inr i, (cp, w)) \<Rightarrow>
              (Inr i, st\<lparr>sv_control := cp, sv_world := w, sv_egress := commit_reload runtime (sv_egress st)\<rparr>)))"

definition apply_provider_mutation ::
  "('y, 'd, 'i) services_env \<Rightarrow> control_mutation \<Rightarrow> str \<Rightarrow> (services, service_error, mutation_outcome) action" where
  "apply_provider_mutation env mutation timestamp =
     act (publish env mutation) (\<lambda>i st.
       case reconcile_codex_if_active env timestamp st of
         (Inl e, st) \<Rightarrow> (Inr \<lparr>mo_provider_id = i, mo_codex_warning = Some e\<rparr>, st)
       | (Inr _, st) \<Rightarrow> (Inr \<lparr>mo_provider_id = i, mo_codex_warning = None\<rparr>, st))"

section \<open>Logins that expire\<close>

definition oauth_account_id :: "auth_config \<Rightarrow> str option" where
  "oauth_account_id auth = (case auth of OpenAiOAuth _ _ account_id _ _ _ \<Rightarrow> Some account_id | _ \<Rightarrow> None)"

definition is_oauth :: "auth_config \<Rightarrow> bool" where
  "is_oauth auth \<longleftrightarrow> oauth_account_id auth \<noteq> None"

definition saved_provider :: "services \<Rightarrow> provider_id \<Rightarrow> provider_config option" where
  "saved_provider st i = List.find (\<lambda>q. prov_id q = i) (doc_providers (cp_providers (sv_control st)))"

text \<open>The credentials to refresh: those saved for the same account, which may be newer.\<close>

definition latest_auth :: "provider_config option \<Rightarrow> provider_config \<Rightarrow> provider_config" where
  "latest_auth saved p =
     (case saved of
        Some q \<Rightarrow> if oauth_account_id (prov_auth q) = oauth_account_id (prov_auth p) then p\<lparr>prov_auth := prov_auth q\<rparr> else p
      | None \<Rightarrow> p)"

text \<open>The new credentials are saved, unless the provider is gone or its credentials have changed meanwhile.\<close>

definition persist_refresh ::
  "('y, 'd, 'i) services_env \<Rightarrow> provider_config \<Rightarrow> auth_config \<Rightarrow> (services, service_error, provider_config) action" where
  "persist_refresh env updated source_auth = (\<lambda>st.
     case saved_provider st (prov_id updated) of
       None \<Rightarrow> (Inr updated, st)
     | Some current \<Rightarrow>
         if prov_auth current \<noteq> source_auth then (Inr current, st)
         else act (publish env (SaveProvider updated)) (\<lambda>_. act_ok updated) st)"

definition refresh_provider_if_needed ::
  "('y, 'd, 'i) services_env \<Rightarrow> u64 \<Rightarrow> (services \<Rightarrow> services) \<Rightarrow> provider_config \<Rightarrow>
     (services, service_error, provider_config) action" where
  "refresh_provider_if_needed env now others p = (\<lambda>st.
     if \<not> is_oauth (prov_auth p) \<or> \<not> needs_refresh (prov_auth p) now then (Inr p, st)
     else
       (let saved = saved_provider st (prov_id p); p = latest_auth saved p in
        if \<not> needs_refresh (prov_auth p) now then (Inr p, st)
        else
          (case oauth_refresh (ve_oauth env) (prov_auth p) of
             Inl e \<Rightarrow> (Inl (ServiceOAuth e), others st)
           | Inr auth \<Rightarrow>
               (let updated = p\<lparr>prov_auth := auth,
                      prov_enabled := (if oauth_account_id (prov_auth p) \<noteq> oauth_account_id auth then False else prov_enabled p)\<rparr>
                in if saved = None then (Inr updated, others st)
                   else persist_refresh env updated (prov_auth p) (others st)))))"

text \<open>The errors are logged with the provider.\<close>

fun refresh_each ::
  "('y, 'd, 'i) services_env \<Rightarrow> u64 \<Rightarrow> (services \<Rightarrow> services) \<Rightarrow> provider_config list \<Rightarrow> services \<Rightarrow>
     (provider_id \<times> service_error) list \<times> services" where
  "refresh_each env now others [] st = ([], st)"
| "refresh_each env now others (p # ps) st =
     (case refresh_provider_if_needed env now others p st of
        (r, st) \<Rightarrow>
          (let (errors, st) = refresh_each env now others ps st
           in ((case r of Inl e \<Rightarrow> [(prov_id p, e)] | Inr _ \<Rightarrow> []) @ errors, st)))"

definition refresh_saved_providers ::
  "('y, 'd, 'i) services_env \<Rightarrow> u64 \<Rightarrow> (services \<Rightarrow> services) \<Rightarrow> services \<Rightarrow> (provider_id \<times> service_error) list \<times> services" where
  "refresh_saved_providers env now others st =
     refresh_each env now others
       (filter (\<lambda>p. is_oauth (prov_auth p) \<and> needs_refresh (prov_auth p) now)
         (doc_providers (cp_providers (sv_control st)))) st"

section \<open>Models\<close>

record refresh_outcome =
  ro_provider :: provider_config
  ro_preview :: refresh_preview
  ro_registry_warning :: "str option"

definition registry_store_error_text :: "'y store_env \<Rightarrow> registry_store_error \<Rightarrow> str" where
  "registry_store_error_text env e =
     (case e of
        RegistryFile e \<Rightarrow> secure_file_error_text (se_os_text env) e
      | InvalidRegistryDocument m \<Rightarrow> ''invalid model registry cache JSON: '' @ m
      | RegistrySerialization m \<Rightarrow> ''failed to serialize model registry cache JSON: '' @ m)"

text \<open>The local registry with its digest, and the warnings.\<close>

definition load_registry ::
  "('y, 'd, 'i) services_env \<Rightarrow> (service_error, model_registry_cache option \<times> str option \<times> str list) io" where
  "load_registry env =
     act_match (registry_store_load (ve_stores env) (ap_model_registry (ve_paths env)))
       (\<lambda>(document, sha256). act_ok (Some document, Some sha256, []))
       (\<lambda>e. case e of
            RegistryFile (MissingFile _) \<Rightarrow> act_ok (None, None, [])
          | _ \<Rightarrow> act_ok (None, None, [registry_store_error_text (ve_stores env) e]))"

definition save_registry ::
  "('y, 'd, 'i) services_env \<Rightarrow> model_registry_cache option \<Rightarrow> str option \<Rightarrow> (service_error, str list) io" where
  "save_registry env updated expected_sha256 =
     (case updated of
        None \<Rightarrow> act_ok []
      | Some document \<Rightarrow>
          act_match (registry_store_save (ve_stores env) (ap_model_registry (ve_paths env)) document expected_sha256)
            (\<lambda>_. act_ok [])
            (\<lambda>e. act_ok [registry_store_error_text (ve_stores env) e]))"

text \<open>The separator is U+FF1B.\<close>

definition WARNING_SEPARATOR :: str where "WARNING_SEPARATOR = [CHR 0xEF, CHR 0xBC, CHR 0x9B]"

definition refresh_provider_models ::
  "('y, 'd, 'i) services_env \<Rightarrow> u64 \<Rightarrow> (services \<Rightarrow> services) \<Rightarrow> provider_config \<Rightarrow> provider_model_cache option \<Rightarrow>
     str \<Rightarrow> bool \<Rightarrow> (services, service_error, refresh_outcome) action" where
  "refresh_provider_models env now others p existing timestamp enrich =
     act (refresh_provider_if_needed env now others p) (\<lambda>p.
     act (act_of (map_err ServiceCatalog (client_refresh_preview (ve_client env) p existing timestamp))) (\<lambda>preview.
     if \<not> enrich \<or> preview_added preview = [] \<or>
        prof_models_dev_id (resolve_provider (dc_sha256_hex (ve_client env)) p) = None
     then act_ok \<lparr>ro_provider = p, ro_preview = preview, ro_registry_warning = None\<rparr>
     else
       act (on_world (load_registry env)) (\<lambda>(cached, expected_sha256, warnings).
       let (enrichment, preview) = enrich_preview_with_registry (ve_client env) p preview cached timestamp;
           warnings = warnings @ (case enrichment_warning enrichment of Some w \<Rightarrow> [w] | None \<Rightarrow> []) in
       act (on_world (save_registry env (replacement_cache enrichment) expected_sha256)) (\<lambda>failed.
       let warnings = warnings @ failed in
       act_ok \<lparr>ro_provider = p, ro_preview = preview,
               ro_registry_warning = (if warnings = [] then None else Some (join_with WARNING_SEPARATOR warnings))\<rparr>))))"

section \<open>The start\<close>

definition LISTENER_PORT_RANGE_WIDTH :: nat where "LISTENER_PORT_RANGE_WIDTH = 10"

definition OFFICIAL_BASE_URL :: str where "OFFICIAL_BASE_URL = ''https://chatgpt.com/backend-api/codex''"

definition generate_ingress_capability :: "('y, 'd, 'i) services_env \<Rightarrow> startup_error + str" where
  "generate_ingress_capability env =
     and_then (ok_or StartCapability (ve_random env)) (\<lambda>bytes.
     map_err (\<lambda>_. StartCapability) (capability_from_hex (concat (map
       (\<lambda>b. [''0123456789abcdef'' ! (byte b div 16), ''0123456789abcdef'' ! (byte b mod 16)]) bytes))))"

text \<open>\<open>EgressServer::bind\<close> and \<open>bind_first_available\<close>: the first port that is free, on a loopback address.\<close>

fun bind_ports :: "('y, 'd, 'i) services_env \<Rightarrow> nat list \<Rightarrow> nat option" where
  "bind_ports env [] = None"
| "bind_ports env (port # ports) =
     (case ve_bind env port of
        Bound \<Rightarrow> Some port
      | AddressInUse \<Rightarrow> bind_ports env ports
      | BindFailed \<Rightarrow> None)"

definition bind_first_available :: "('y, 'd, 'i) services_env \<Rightarrow> ip_addr \<Rightarrow> nat list \<Rightarrow> nat option" where
  "bind_first_available env ip ports = (if \<not> is_loopback_listener ip then None else bind_ports env ports)"

definition listener_ports :: "nat option \<Rightarrow> listener_config \<Rightarrow> nat list" where
  "listener_ports fixed_port listener =
     (case fixed_port of
        Some port \<Rightarrow> [port]
      | None \<Rightarrow>
          (let port = unat (listener_port listener) in
           [port ..< Suc (min (port + LISTENER_PORT_RANGE_WIDTH) 65535)]))"

definition socket_text :: "('y, 'd, 'i) services_env \<Rightarrow> ip_addr \<Rightarrow> nat \<Rightarrow> str" where
  "socket_text env ip port = ve_ip_text env ip @ '':'' @ dec_string port"

definition start_capability :: "('y, 'd, 'i) services_env \<Rightarrow> codex_integration option \<Rightarrow> startup_error + str" where
  "start_capability env active =
     (case Option.bind active (\<lambda>integration. capability_from_base_url (cx_openai_base_url integration)) of
        Some capability \<Rightarrow> Inr capability
      | None \<Rightarrow> generate_ingress_capability env)"

text \<open>The egress for the loaded documents, listening.\<close>

definition start_egress ::
  "('y, 'd, 'i) services_env \<Rightarrow> nat option \<Rightarrow> control_plane \<Rightarrow> codex_integration option \<Rightarrow>
     startup_error + egress_state \<times> str" where
  "start_egress env fixed_port cp active =
     and_then (start_capability env active) (\<lambda>capability.
     and_then (ok_or StartListenerHost (parse_ip_addr (listener_host (doc_listener (cp_providers cp))))) (\<lambda>ip.
     and_then (map_err StartEgress
         (egress_state_new (ve_egress env) (cp_providers cp) (cp_cache cp) OFFICIAL_BASE_URL capability)) (\<lambda>egress.
     and_then (ok_or StartListener
         (bind_first_available env ip (listener_ports fixed_port (doc_listener (cp_providers cp))))) (\<lambda>port.
     if ve_connect env then Inr (egress, socket_text env ip port) else Inl StartListener))))"

definition services_new ::
  "('y, 'd, 'i) services_env \<Rightarrow> nat option \<Rightarrow> str \<Rightarrow> (startup_error, upgrade_notice option \<times> services) io" where
  "services_new env fixed_port timestamp =
     act (act_map_err StartUpgrade (upgrade_prepare (ve_upgrade env) (ve_paths env))) (\<lambda>notice.
     act (act_map_err StartControl (control_load (ve_control env) (ve_paths env))) (\<lambda>cp.
     act (act_map_err StartCodex (active_integration (ve_codex env) (ve_editor env))) (\<lambda>active.
     act (act_of (start_egress env fixed_port cp active)) (\<lambda>(egress, address) w.
       let st = \<lparr>sv_control = cp, sv_egress = egress, sv_address = address, sv_failure = None, sv_world = w\<rparr> in
       if fixed_port = None \<and> active \<noteq> None then
         (case act_map_err StartService (reconcile_codex_listener_if_active env timestamp) st of
            (Inl e, st) \<Rightarrow> (Inl e, sv_world st)
          | (Inr _, st) \<Rightarrow> (Inr (notice, st), sv_world st))
       else (Inr (notice, st), w)))))"

section \<open>The address that Codex is given\<close>

lemma split_on_other: "c \<notin> set s \<Longrightarrow> split_on c (s @ c # t) = s # split_on c t"
  by (induction s) auto

lemma split_on_none: "c \<notin> set s \<Longrightarrow> split_on c s = [s]"
  by (induction s) auto

lemma split_once_first: "c \<notin> set s \<Longrightarrow> split_once c (s @ c # t) = Some (s, t)"
  by (simp add: split_once_Some)

lemma capability_recovered:
  assumes "looks_like_capability capability" "CHR ''/'' \<notin> set address"
  shows "capability_from_base_url (''http://'' @ address @ ''/'' @ capability @ ''/v1'') = Some capability"
proof -
  have "split_once_str ''://'' (''http://'' @ s) = Some (''http'', s)" for s by simp
  moreover have "CHR ''/'' \<notin> set capability"
    using assms(1) by (simp add: looks_like_capability_def capability_no_slash)
  then have "split_on (CHR ''/'') (capability @ ''/v1'') = [capability, ''v1'']"
    by (simp add: split_on_other split_on_none)
  moreover have "capability_from_hex capability = Inr capability"
    using assms(1) by (simp add: capability_from_hex_Inr)
  ultimately show ?thesis
    using assms(2) by (simp add: capability_from_base_url_def split_once_first)
qed

lemma act_of_simps [simp]: "act_of (Inl e) st = (Inl e, st)" "act_of (Inr a) st = (Inr a, st)"
  by (simp_all add: act_of_def)

lemma on_world_simps [simp]:
  "sv_control (snd (on_world m st)) = sv_control st" "sv_egress (snd (on_world m st)) = sv_egress st"
  "sv_address (snd (on_world m st)) = sv_address st" "fst (on_world m st) = fst (m (sv_world st))"
  "sv_world (snd (on_world m st)) = snd (m (sv_world st))"
  by (simp_all add: on_world_def split: prod.splits)

text \<open>Only the world is changed by what concerns Codex.\<close>

definition same_services :: "services \<Rightarrow> services \<Rightarrow> bool" where
  "same_services st st' \<longleftrightarrow> sv_control st' = sv_control st \<and> sv_egress st' = sv_egress st \<and> sv_address st' = sv_address st"

lemma same_services_trans: "same_services a b \<Longrightarrow> same_services b c \<Longrightarrow> same_services a c"
  by (simp add: same_services_def)

lemma same_refl [simp]: "same_services st st"
  by (simp add: same_services_def)

lemma on_world_same [simp]: "same_services st (snd (on_world m st))"
  by (simp add: same_services_def)

lemma act_same:
  assumes "\<And>st. same_services st (snd (m st))" "\<And>a st. same_services st (snd (f a st))"
  shows "same_services st (snd (act m f st))"
  using assms(1)[of st] assms(2) same_services_trans
  by (cases "m st"; cases "fst (m st)") (fastforce simp: act_def)+

lemma apply_codex_same: "same_services st (snd (apply_codex_integration env t st))"
  unfolding apply_codex_integration_def
  by (intro act_same) (simp_all add: act_ok_def act_of_def)

lemma codex_status_same [simp]: "same_services st (snd (codex_status env st))"
  by (simp add: codex_status_def)

lemma reconcile_same: "same_services st (snd (reconcile_codex_if_active env t st))"
  unfolding reconcile_codex_if_active_def
  by (intro act_same) (simp_all add: apply_codex_same)

lemma set_codex_same: "same_services st (snd (set_codex_integration env enabled t st))"
proof -
  have "same_services u (snd (act (on_world (m :: (service_error, 'z) io)) (\<lambda>_. act_ok ()) u))" for u m
    by (rule act_same) simp_all
  then show ?thesis
    unfolding set_codex_integration_def
    by (intro act_same) (simp_all add: apply_codex_same act_of_def split: prod.splits)
qed

section \<open>The runtime and the documents\<close>

lemma prepare_reload_cache:
  assumes "prepare_reload env d c = Inr r" "prepare_reload env d' c' = Inr r'"
  shows "prepare_reload env d c' = Inr r"
proof -
  have "model_cache_validate c' = Inr ()"
    using assms(2) by (auto simp: prepare_reload_def build_runtime_snapshot_def snapshot_build_Inr)
  then show ?thesis
    using assms(1) by (auto simp: prepare_reload_def build_runtime_snapshot_def snapshot_build_Inr overlay_from_documents_Inr)
qed

definition in_step :: "('y, 'd, 'i) services_env \<Rightarrow> services \<Rightarrow> bool" where
  "in_step env st \<longleftrightarrow>
     prepare_reload (ve_egress env) (cp_providers (sv_control st)) (cp_cache (sv_control st)) = Inr (es_runtime (sv_egress st)) \<and>
     document_ids_ok (cp_providers (sv_control st))"

text \<open>The identifiers of a provider are those their constructors accept.\<close>

definition provider_ids_ok :: "provider_config \<Rightarrow> bool" where
  "provider_ids_ok p \<longleftrightarrow> provider_id_ok (prov_id p) \<and> (\<forall>m \<in> set (prov_models p). model_id_ok (upstream_model_id m))"

definition mutation_ids_ok :: "control_mutation \<Rightarrow> bool" where
  "mutation_ids_ok mutation =
     (case mutation of
        CommitRefresh p preview \<Rightarrow> provider_ids_ok (p\<lparr>prov_models := cache_models (preview_cache preview)\<rparr>)
      | SaveProvider p \<Rightarrow> provider_ids_ok p
      | _ \<Rightarrow> True)"

lemma document_ids_iff: "document_ids_ok doc \<longleftrightarrow> (\<forall>p \<in> set (doc_providers doc). provider_ids_ok p)"
  by (auto simp: document_ids_ok_def provider_ids_ok_def)

lemma update_first_set: "update_first q f xs = Some ys \<Longrightarrow> y \<in> set ys \<Longrightarrow> y \<in> set xs \<or> (\<exists>x \<in> set xs. q x \<and> y = f x)"
  by (induction xs arbitrary: ys) (auto split: if_splits)

lemma upsert_ids: "document_ids_ok doc \<Longrightarrow> provider_ids_ok p \<Longrightarrow> document_ids_ok (upsert_provider doc p)"
  by (auto simp: upsert_provider_def document_ids_iff split: option.splits dest!: update_first_set)

lemma mutate_ids:
  assumes "document_ids_ok (cp_providers cp)" "mutation_ids_ok mutation" "mutate env cp mutation = Inr prepared"
  shows "document_ids_ok (pm_providers prepared)"
proof (cases mutation)
  case (SetProviderEnabled i enabled)
  then obtain ps where ps: "update_first (\<lambda>q. prov_id q = i) (\<lambda>q. q\<lparr>prov_enabled := enabled\<rparr>) (doc_providers (cp_providers cp)) = Some ps"
      "pm_providers prepared = (cp_providers cp)\<lparr>doc_providers := ps\<rparr>"
    using assms(3) by (auto simp: mutate_def)
  then show ?thesis
    using assms(1) update_first_set[OF ps(1)] by (fastforce simp: document_ids_iff provider_ids_ok_def)
next
  case (RemoveProvider i)
  then show ?thesis using assms by (auto simp: mutate_def document_ids_iff split: if_splits)
qed (use assms in \<open>auto simp: mutate_def mutation_ids_ok_def Let_def intro!: upsert_ids split: if_splits\<close>)

text \<open>What publishing a change does to the runtime.\<close>

lemma publish_cases:
  assumes "publish env mutation st = (r, st')"
  obtains e where "r = Inl e" "st' = st"
  | e and prepared :: prepared_mutation and runtime where "r = Inl e" "prepare_reload (ve_egress env) (pm_providers prepared) (pm_cache prepared) = Inr runtime"
      "sv_egress st' = sv_egress st" "sv_address st' = sv_address st" "cp_providers (sv_control st') = cp_providers (sv_control st)"
      "cp_cache (sv_control st') \<in> {cp_cache (sv_control st), pm_cache prepared}"
  | prepared runtime where "r = Inr (pm_provider_id prepared)"
      "prepare_mutation (ve_control env) (sv_control st) mutation = Inr prepared"
      "prepare_reload (ve_egress env) (pm_providers prepared) (pm_cache prepared) = Inr runtime"
      "sv_egress st' = commit_reload runtime (sv_egress st)" "sv_address st' = sv_address st"
      "cp_providers (sv_control st') = pm_providers prepared" "cp_cache (sv_control st') = pm_cache prepared"
      "commit_mutation (ve_control env) prepared (sv_control st, sv_world st) =
        (Inr (pm_provider_id prepared), (sv_control st', sv_world st'))"
proof -
  let ?pre = "and_then (map_err ServiceControl (prepare_mutation (ve_control env) (sv_control st) mutation)) (\<lambda>prepared.
      and_then (map_err ServiceReload (prepare_reload (ve_egress env) (pm_providers prepared) (pm_cache prepared))) (\<lambda>runtime.
      Inr (prepared, runtime)))"
  show thesis
  proof (cases ?pre)
    case (Inl e)
    then have "r = Inl e" "st' = st" using assms by (simp_all add: publish_def)
    then show ?thesis by (rule that(1))
  next
    case (Inr pr)
    then obtain prepared runtime where pre: "?pre = Inr (prepared, runtime)"
        "prepare_mutation (ve_control env) (sv_control st) mutation = Inr prepared"
        "prepare_reload (ve_egress env) (pm_providers prepared) (pm_cache prepared) = Inr runtime"
      by auto
    obtain x cp w where commit: "commit_mutation (ve_control env) prepared (sv_control st, sv_world st) = (x, (cp, w))"
      by (metis prod.exhaust)
    note run = assms[unfolded publish_def pre(1) sum.case prod.case commit]
    show ?thesis
    proof (cases x)
      case (Inl e)
      then have st': "r = Inl (ServiceControl e)" "st' = st\<lparr>sv_control := cp, sv_world := w\<rparr>" using run by simp_all
      have "cp_providers cp = cp_providers (sv_control st) \<and> cp_cache cp \<in> {cp_cache (sv_control st), pm_cache prepared}"
        using commit unfolding Inl by (cases rule: commit_cases) (auto simp: adopt_cache_def split: option.splits)
      with st' show ?thesis by (intro that(2)[OF st'(1) pre(3)]) simp_all
    next
      case (Inr i)
      then have st': "r = Inr i" "st' = st\<lparr>sv_control := cp, sv_world := w, sv_egress := commit_reload runtime (sv_egress st)\<rparr>"
        using run by simp_all
      have "i = pm_provider_id prepared" "cp_providers cp = pm_providers prepared" "cp_cache cp = pm_cache prepared"
        using commit unfolding Inr by (cases rule: commit_cases, auto simp: adopt_cache_def split: option.splits)+
      with st' commit Inr pre show ?thesis by (intro that(3)[OF _ pre(2,3)]) simp_all
    qed
  qed
qed

lemma publish_in_step:
  assumes "in_step env st" "mutation_ids_ok mutation" "publish env mutation st = (r, st')"
  shows "in_step env st' \<and> (\<forall>e. r = Inl e \<longrightarrow> sv_egress st' = sv_egress st \<and> cp_providers (sv_control st') = cp_providers (sv_control st)) \<and>
    es_ingress_capability (sv_egress st') = es_ingress_capability (sv_egress st) \<and> sv_address st' = sv_address st"
  using assms(3)
proof (cases rule: publish_cases)
  case (2 e prepared runtime)
  have "prepare_reload (ve_egress env) (cp_providers (sv_control st)) (pm_cache prepared) = Inr (es_runtime (sv_egress st))"
    using assms(1) prepare_reload_cache[OF _ 2(2)] unfolding in_step_def by blast
  then show ?thesis using 2 assms(1) by (auto simp: in_step_def)
next
  case (3 prepared runtime)
  have "mutate (ve_control env) (sv_control st) mutation = Inr prepared" using 3(2) by (auto simp: prepare_mutation_def)
  from mutate_ids[OF _ assms(2) this] 3 assms(1) show ?thesis by (auto simp: in_step_def commit_reload_def)
qed (use assms in simp)

lemma apply_mutation_parts:
  assumes "apply_provider_mutation env mutation t st = (r, st')"
  obtains e where "r = Inl e" "publish env mutation st = (Inl e, st')"
  | i out st1 where "r = Inr out" "mo_provider_id out = i" "publish env mutation st = (Inr i, st1)" "same_services st1 st'"
proof (cases "publish env mutation st")
  case (Pair x st1)
  show ?thesis
  proof (cases x)
    case (Inl e)
    then show ?thesis using assms Pair that(1)[of e] by (simp add: apply_provider_mutation_def act_def)
  next
    case (Inr i)
    obtain y st2 where rec: "reconcile_codex_if_active env t st1 = (y, st2)" by fastforce
    then have "same_services st1 st2" using reconcile_same[of st1 env t] by simp
    then show ?thesis
      using assms Pair Inr rec that(2)
      by (cases y) (auto simp: apply_provider_mutation_def act_def)
  qed
qed

text \<open>
  What happens while the application runs: changes of the user, refreshed logins, the integration, the sessions of
  the egress, and everything outside.
\<close>

inductive services_reachable :: "('y, 'd, 'i) services_env \<Rightarrow> services \<Rightarrow> bool" for env where
  started: "services_new env port t w = (Inr (notice, st), w') \<Longrightarrow> document_ids_ok (cp_providers (sv_control st)) \<Longrightarrow>
    services_reachable env st"
| mutated: "services_reachable env st \<Longrightarrow> mutation_ids_ok mutation \<Longrightarrow>
    apply_provider_mutation env mutation t st = (r, st') \<Longrightarrow> services_reachable env st'"
| refreshed: "services_reachable env st \<Longrightarrow> provider_ids_ok updated \<Longrightarrow>
    persist_refresh env updated source_auth st = (r', st') \<Longrightarrow> services_reachable env st'"
| integrated: "services_reachable env st \<Longrightarrow> set_codex_integration env enabled t st = (r'', st') \<Longrightarrow>
    services_reachable env st'"
| served: "services_reachable env st \<Longrightarrow> next_websocket_session_id (sv_egress st) = (n, egress) \<Longrightarrow>
    services_reachable env (st\<lparr>sv_egress := egress\<rparr>)"
| elapsed: "services_reachable env st \<Longrightarrow> services_reachable env (st\<lparr>sv_world := w, sv_failure := failure\<rparr>)"

lemma same_in_step: "same_services st st' \<Longrightarrow> in_step env st \<Longrightarrow> in_step env st'"
  by (simp add: same_services_def in_step_def)

lemma persist_in_step:
  assumes "in_step env st" "provider_ids_ok updated" "persist_refresh env updated source_auth st = (r, st')"
  shows "in_step env st'"
proof (cases "publish env (SaveProvider updated) st")
  case (Pair x st1)
  have "in_step env st1"
    using publish_in_step[OF assms(1) _ Pair] assms(2) by (simp add: mutation_ids_ok_def)
  then show ?thesis
    using assms(1,3) Pair
    by (cases x) (auto simp: persist_refresh_def act_def split: option.splits if_splits)
qed

lemma started_parts:
  assumes "services_new env port t w = (Inr (notice, st), w')"
  obtains cp active egress address where "start_egress env port cp active = Inr (egress, address)"
    "sv_control st = cp" "sv_egress st = egress" "sv_address st = address"
proof -
  obtain n w1 cp w2 active w3 egress address where
    parts: "start_egress env port cp active = Inr (egress, address)"
    and st: "(let st = \<lparr>sv_control = cp, sv_egress = egress, sv_address = address, sv_failure = None, sv_world = w3\<rparr> in
       if port = None \<and> active \<noteq> None then
         (case act_map_err StartService (reconcile_codex_listener_if_active env t) st of
            (Inl e, st) \<Rightarrow> (Inl e, sv_world st)
          | (Inr _, st) \<Rightarrow> (Inr (n, st), sv_world st))
       else (Inr (n, st), w3)) = (Inr (notice, st), w')"
    using assms unfolding services_new_def act_Inr by (auto simp: act_of_def)
  define st0 where "st0 = \<lparr>sv_control = cp, sv_egress = egress, sv_address = address, sv_failure = None, sv_world = w3\<rparr>"
  have listener: "same_services u (snd (reconcile_codex_listener_if_active env t u))" for u
    unfolding reconcile_codex_listener_if_active_def
  proof (rule act_same, simp, goal_cases)
    case (1 current u)
    have "same_services u (snd (act (act_of (desired_codex_integration u))
        (\<lambda>desired. if c \<noteq> desired then apply_codex_integration env t else act_ok ()) u))" for c
      by (rule act_same) (simp_all add: act_of_def apply_codex_same)
    then show ?case by (cases current) simp_all
  qed
  have "same_services st0 st"
    using st listener[of st0] unfolding st0_def[symmetric] Let_def
    by (cases "reconcile_codex_listener_if_active env t st0"; cases "fst (reconcile_codex_listener_if_active env t st0)")
      (auto simp: act_map_err_def split: if_splits)
  then show thesis using that[OF parts] by (simp add: same_services_def st0_def)
qed

lemma started_egress:
  assumes "services_new env port t w = (Inr (notice, st), w')"
  shows "\<exists>capability. egress_state_new (ve_egress env) (cp_providers (sv_control st)) (cp_cache (sv_control st)) OFFICIAL_BASE_URL
     capability = Inr (sv_egress st)"
proof -
  obtain active where "start_egress env port (sv_control st) active = Inr (sv_egress st, sv_address st)"
    using started_parts[OF assms] by metis
  then show ?thesis by (auto simp: start_egress_def split: if_splits)
qed

lemma reachable_in_step: "services_reachable env st \<Longrightarrow> in_step env st"
proof (induction rule: services_reachable.induct)
  case (started port t w notice st w')
  from started_egress[OF started(1)] show ?case
    using started(2) by (auto simp: in_step_def dest: new_runtime_prepared)
next
  case (mutated st mutation t r st')
  from mutated(3) show ?case
  proof (cases rule: apply_mutation_parts)
    case (1 e)
    then show ?thesis using publish_in_step[OF mutated.IH mutated(2)] by blast
  next
    case (2 i out st1)
    then show ?thesis using publish_in_step[OF mutated.IH mutated(2)] same_in_step by blast
  qed
next
  case (refreshed st updated source_auth r' st')
  then show ?case using persist_in_step by blast
next
  case (integrated st enabled t r'' st')
  then show ?case using set_codex_same[of st env enabled t] same_in_step by (metis snd_conv)
next
  case (served st n egress)
  then show ?case by (auto simp: in_step_def next_websocket_session_id_def)
qed (simp add: in_step_def)

lemma digit_no_slash: "d < 10 \<Longrightarrow> digit_char d \<noteq> CHR ''/''"
  by (auto simp: digit_char_def char_of_eq_iff take_bit_eq_mod)

lemma dec_string_no_slash: "CHR ''/'' \<notin> set (dec_string n)"
  unfolding dec_string_def
proof (induction n rule: less_induct)
  case (less n)
  then show ?case
    using digit_no_slash[of n] digit_no_slash[of "n mod 10"] by (subst radix_string.simps) auto
qed

text \<open>
  The server listens on a loopback address, on a port that was bound for it, and its capability is well-formed;
  nothing changes either while the application runs.
\<close>

definition listening :: "('y, 'd, 'i) services_env \<Rightarrow> services \<Rightarrow> bool" where
  "listening env st \<longleftrightarrow> looks_like_capability (es_ingress_capability (sv_egress st)) \<and>
     (\<exists>ip port. is_loopback_listener ip \<and> ve_bind env port = Bound \<and> sv_address st = socket_text env ip port)"

lemma generated_looks: "generate_ingress_capability env = Inr capability \<Longrightarrow> looks_like_capability capability"
  by (auto simp: generate_ingress_capability_def capability_from_hex_Inr)

lemma base_url_looks:
  assumes "capability_from_base_url url = Some capability"
  shows "looks_like_capability capability"
proof -
  from assms obtain path where found: "(case split_on (CHR ''/'') path of
       [c, version] \<Rightarrow> if version = ''v1'' then (case capability_from_hex c of Inr c \<Rightarrow> Some c | Inl _ \<Rightarrow> None) else None
     | _ \<Rightarrow> None) = Some capability"
    unfolding capability_from_base_url_def bind_eq_Some_conv split_beta by (elim exE conjE)
  then obtain c where c: "split_on (CHR ''/'') path = [c, ''v1'']"
    by (cases "split_on (CHR ''/'') path" rule: remdups_adj.cases; cases "tl (tl (split_on (CHR ''/'') path))")
      (simp_all split: if_split_asm)
  show ?thesis
    using found unfolding c by (cases "capability_from_hex c") (simp_all add: capability_from_hex_Inr)
qed

lemma start_capability_looks: "start_capability env active = Inr capability \<Longrightarrow> looks_like_capability capability"
  by (cases "Option.bind active (\<lambda>integration. capability_from_base_url (cx_openai_base_url integration))")
    (auto simp: start_capability_def bind_eq_Some_conv dest: generated_looks base_url_looks)

lemma bind_ports_Some: "bind_ports env ports = Some port \<Longrightarrow> ve_bind env port = Bound"
  by (induction ports) (auto split: bind_outcome.splits)

lemma started_listening:
  assumes "services_new env port t w = (Inr (notice, st), w')"
  shows "listening env st"
proof -
  obtain active where start: "start_egress env port (sv_control st) active = Inr (sv_egress st, sv_address st)"
    using started_parts[OF assms] by metis
  then obtain capability ip p where parts: "start_capability env active = Inr capability"
      "egress_state_new (ve_egress env) (cp_providers (sv_control st)) (cp_cache (sv_control st)) OFFICIAL_BASE_URL capability =
         Inr (sv_egress st)"
      "bind_first_available env ip (listener_ports port (doc_listener (cp_providers (sv_control st)))) = Some p"
      "sv_address st = socket_text env ip p"
    by (auto simp: start_egress_def split: if_splits)
  have "es_ingress_capability (sv_egress st) = capability"
    using arg_cong[OF parts(2), of "case_sum (\<lambda>_. capability) es_ingress_capability"]
    by (auto simp: egress_state_new_def Let_def split: if_splits sum.splits)
  then show ?thesis
    using parts(3,4) start_capability_looks[OF parts(1)] unfolding listening_def
    by (auto simp: bind_first_available_def split: if_splits dest!: bind_ports_Some)
qed

lemma listening_kept:
  "es_ingress_capability (sv_egress st') = es_ingress_capability (sv_egress st) \<Longrightarrow> sv_address st' = sv_address st \<Longrightarrow>
   listening env st' = listening env st"
  by (simp add: listening_def)

lemma reachable_listening: "services_reachable env st \<Longrightarrow> listening env st"
proof (induction rule: services_reachable.induct)
  case (started port t w notice st w')
  then show ?case using started_listening by blast
next
  case (mutated st mutation t r st')
  note kept = publish_in_step[OF reachable_in_step[OF mutated(1)] mutated(2)]
  from mutated(3) show ?case
    by (cases rule: apply_mutation_parts) (use kept mutated.IH in \<open>auto simp: same_services_def listening_def dest!: kept\<close>)
next
  case (refreshed st updated source_auth r' st')
  have ids: "mutation_ids_ok (SaveProvider updated)" using refreshed(2) by (simp add: mutation_ids_ok_def)
  show ?case
  proof (cases "publish env (SaveProvider updated) st")
    case (Pair x st1)
    from publish_in_step[OF reachable_in_step[OF refreshed(1)] ids Pair] have "listening env st1 = listening env st"
      by (intro listening_kept) blast+
    then show ?thesis
      using refreshed(3) refreshed.IH Pair
      by (cases x) (auto simp: persist_refresh_def act_def split: option.splits if_splits)
  qed
next
  case (integrated st enabled t r'' st')
  then show ?case using set_codex_same[of st env enabled t] by (simp add: same_services_def listening_def)
next
  case (served st n egress)
  then show ?case by (auto simp: listening_def next_websocket_session_id_def)
qed (simp add: listening_def)

lemma listening_no_slash:
  assumes "listening env st" "\<forall>ip. CHR ''/'' \<notin> set (ve_ip_text env ip)"
  shows "CHR ''/'' \<notin> set (sv_address st)"
  using assms dec_string_no_slash by (auto simp: listening_def socket_text_def)

lemma reload_routes:
  assumes "prepare_reload env doc cache = Inr runtime" "document_ids_ok doc"
  shows "runtime_resolve runtime m = ThirdParty q u \<longleftrightarrow>
    m = catalog_str (for_provider q u) \<and> (\<exists>p \<in> set (doc_providers doc). prov_id p = q \<and> publishes p u)"
proof -
  from assms(1) have "er_routes runtime = \<lparr>routes = published_routes doc\<rparr>"
    by (auto simp: prepare_reload_def build_runtime_snapshot_def snapshot_build_Inr)
  then have "runtime_resolve runtime m = ThirdParty q u \<longleftrightarrow> bt_get (published_routes doc) m = Some (the_route q u)"
    by (auto simp: runtime_resolve_def resolve_def split: option.splits intro: third_party_route.equality)
  then show ?thesis by (auto simp: published_routes_get[OF assms(2)])
qed

lemma reload_distinct: "prepare_reload env doc cache = Inr runtime \<Longrightarrow> distinct (map prov_id (doc_providers doc))"
  by (auto simp: prepare_reload_def build_runtime_snapshot_def snapshot_build_Inr document_valid_def)

lemma switched_off:
  assumes "mutate env cp mutation = Inr prepared" "mutation \<in> {SetProviderEnabled i False, RemoveProvider i}"
    and "distinct (map prov_id (doc_providers (pm_providers prepared)))"
    and "p \<in> set (doc_providers (pm_providers prepared))" "prov_id p = i"
  shows "\<not> prov_enabled p"
proof (cases "mutation = RemoveProvider i")
  case True
  then show ?thesis using assms(1,4,5) by (auto simp: mutate_def split: if_splits)
next
  case False
  then obtain ps where ps: "update_first (\<lambda>q. prov_id q = i) (\<lambda>q. q\<lparr>prov_enabled := False\<rparr>) (doc_providers (cp_providers cp)) = Some ps"
      "doc_providers (pm_providers prepared) = ps"
    using assms(1,2) by (auto simp: mutate_def)
  from update_first_Some[OF ps(1)] obtain a x b where x: "prov_id x = i" "ps = a @ x\<lparr>prov_enabled := False\<rparr> # b" by blast
  have "p = x\<lparr>prov_enabled := False\<rparr>"
    using assms(3-5) ps(2) x by (auto simp: rev_image_eqI)
  then show ?thesis by simp
qed

text \<open>C36: The router follows the documents. In every state the application can reach, with any changes, refreshed logins,
  failed writes and restored or applied integrations in any order, the runtime of the egress is the one of the
  documents in memory: a model is sent to a provider exactly when the document has it published. A change that is
  refused or cannot be written leaves the routes as they were, and after a provider was switched off or removed
  no model is sent to it.\<close>

theorem runtime_follows_documents:
  assumes "services_reachable env st"
  shows "prepare_reload (ve_egress env) (cp_providers (sv_control st)) (cp_cache (sv_control st)) =
      Inr (es_runtime (sv_egress st)) \<and>
    (\<forall>m q u. runtime_resolve (es_runtime (sv_egress st)) m = ThirdParty q u \<longleftrightarrow>
       m = catalog_str (for_provider q u) \<and>
       (\<exists>p \<in> set (doc_providers (cp_providers (sv_control st))). prov_id p = q \<and> publishes p u)) \<and>
    (\<forall>mutation t r st'. mutation_ids_ok mutation \<longrightarrow> apply_provider_mutation env mutation t st = (r, st') \<longrightarrow>
       (\<forall>e. r = Inl e \<longrightarrow> es_runtime (sv_egress st') = es_runtime (sv_egress st) \<and>
          cp_providers (sv_control st') = cp_providers (sv_control st)) \<and>
       (\<forall>out i m u. r = Inr out \<and> mutation \<in> {SetProviderEnabled i False, RemoveProvider i} \<longrightarrow>
          runtime_resolve (es_runtime (sv_egress st')) m \<noteq> ThirdParty i u))"
proof -
  have now: "in_step env st" by (rule reachable_in_step[OF assms])
  have off: "runtime_resolve (es_runtime (sv_egress st')) m \<noteq> ThirdParty i u"
    if run: "mutation_ids_ok mutation" "apply_provider_mutation env mutation t st = (Inr out, st')"
      and m: "mutation \<in> {SetProviderEnabled i False, RemoveProvider i}" for mutation t out st' i m u
  proof -
    obtain j st1 where st1: "publish env mutation st = (Inr j, st1)" "same_services st1 st'"
      using run(2) by (cases rule: apply_mutation_parts) auto
    from st1(1) obtain prepared :: prepared_mutation and runtime where p: "mutate (ve_control env) (sv_control st) mutation = Inr prepared"
        "prepare_reload (ve_egress env) (pm_providers prepared) (pm_cache prepared) = Inr runtime"
        "es_runtime (sv_egress st') = runtime"
      using st1(2) by (cases rule: publish_cases) (auto simp: prepare_mutation_def same_services_def commit_reload_def)
    have "document_ids_ok (pm_providers prepared)"
      using mutate_ids[OF _ run(1) p(1)] now by (simp add: in_step_def)
    from reload_routes[OF p(2) this] show ?thesis
      using switched_off[OF p(1) m reload_distinct[OF p(2)]] p(3) by (auto simp: publishes_def)
  qed
  have kept: "es_runtime (sv_egress st') = es_runtime (sv_egress st) \<and> cp_providers (sv_control st') = cp_providers (sv_control st)"
    if "mutation_ids_ok mutation" "apply_provider_mutation env mutation t st = (Inl e, st')" for mutation t e st'
    using that(2) publish_in_step[OF now that(1)] by (cases rule: apply_mutation_parts) auto
  show ?thesis
    using now reload_routes off kept by (auto simp: in_step_def)
qed

text \<open>
  A refresh that took some time saves the provider as it was when it began: whatever else was changed meanwhile is
  undone, as long as the credentials are the same.
\<close>

lemma update_first_find:
  "update_first f (\<lambda>_. p) xs = (case find f xs of None \<Rightarrow> None | Some _ \<Rightarrow> Some (takeWhile (\<lambda>x. \<not> f x) xs @ p # tl (dropWhile (\<lambda>x. \<not> f x) xs)))"
  by (induction xs) (auto split: option.splits)

lemma find_skips: "\<forall>x \<in> set xs. \<not> f x \<Longrightarrow> f p \<Longrightarrow> find f (xs @ p # ys) = Some p"
  by (induction xs) auto

lemma saved_upsert:
  "find (\<lambda>q. prov_id q = prov_id p) (doc_providers doc) = Some q \<Longrightarrow>
   find (\<lambda>q. prov_id q = prov_id p) (doc_providers (upsert_provider doc p)) = Some p"
  by (simp add: upsert_provider_def update_first_find) (rule find_skips, blast dest: set_takeWhileD, simp)

lemma refresh_undoes_changes:
  assumes "persist_refresh env updated source_auth st = (Inr p, st')" "saved_provider st (prov_id updated) = Some current"
    and "prov_auth current = source_auth"
  shows "p = updated \<and> saved_provider st' (prov_id updated) = Some updated"
proof -
  have "act (publish env (SaveProvider updated)) (\<lambda>_. act_ok updated) st = (Inr p, st')"
    using assms(1) unfolding persist_refresh_def assms(2) option.case assms(3) by simp
  then obtain i where run: "publish env (SaveProvider updated) st = (Inr i, st')" and p: "p = updated"
    unfolding act_Inr by (elim exE conjE) (simp add: act_ok_def)
  have "cp_providers (sv_control st') = upsert_provider (cp_providers (sv_control st)) updated"
    using run
  proof (cases rule: publish_cases)
    case (3 prepared runtime)
    from 3(2) have "mutate (ve_control env) (sv_control st) (SaveProvider updated) = Inr prepared"
      by (auto simp: prepare_mutation_def)
    then have "pm_providers prepared = upsert_provider (cp_providers (sv_control st)) updated"
      unfolding mutate_def control_mutation.case by (metis Inr_inject prepared_mutation.select_convs(1))
    then show ?thesis using 3(6) by simp
  qed simp_all
  moreover have "find (\<lambda>q. prov_id q = prov_id updated) (doc_providers (upsert_provider (cp_providers (sv_control st)) updated)) = Some updated"
    by (rule saved_upsert) (use assms(2) in \<open>simp only: saved_provider_def\<close>)
  ultimately show ?thesis using p by (simp only: saved_provider_def)
qed

section \<open>A client that was integrated\<close>

lemma codex_files_triple:
  assumes "own_codex env home ed"
  shows "triple (files_at ed x y) (inspect_codex env ed)
      (\<lambda>s w. files_at ed x y w \<and> (\<exists>c l. config_view env x c \<and> receipt_view env y l \<and>
         cs_receipt_phase s = map_option (\<lambda>(r, _). ir_phase r) l \<and>
         cs_managed_values_match s = (case l of Some (r, _) \<Rightarrow> managed_state_matches env (cfg_document c) r | None \<Rightarrow> False)))
      (\<lambda>_. files_at ed x y)"
    and "triple (files_at ed x y) (active_integration env ed)
      (\<lambda>a _. \<exists>c l. config_view env x c \<and> receipt_view env y l \<and>
         (\<forall>r h planned. l = Some (r, h) \<and> ir_phase r = PhaseActive planned \<and> managed_state_matches env (cfg_document c) r \<longrightarrow>
            a = Some \<lparr>cx_openai_base_url = av_openai_base_url (ir_applied_values r)\<rparr>)) (\<lambda>_. files_at ed x y)"
proof -
  note loads = load_config_triple[OF assms] load_receipt_triple[OF assms]
  show "triple (files_at ed x y) (inspect_codex env ed)
      (\<lambda>s w. files_at ed x y w \<and> (\<exists>c l. config_view env x c \<and> receipt_view env y l \<and>
         cs_receipt_phase s = map_option (\<lambda>(r, _). ir_phase r) l \<and>
         cs_managed_values_match s = (case l of Some (r, _) \<Rightarrow> managed_state_matches env (cfg_document c) r | None \<Rightarrow> False)))
      (\<lambda>_. files_at ed x y)"
    unfolding inspect_codex_def
  proof (rule triple_act[OF loads(1)], rule triple_given, rule triple_act[OF loads(2)], rule triple_given, goal_cases)
    case (1 c l)
    show ?case
      by (rule triple_act[where M = "\<lambda>_. files_at ed x y"], rule triple_of, assumption, assumption, rule triple_ok)
        (use 1 in auto)
  qed
  show "triple (files_at ed x y) (active_integration env ed)
      (\<lambda>a _. \<exists>c l. config_view env x c \<and> receipt_view env y l \<and>
         (\<forall>r h planned. l = Some (r, h) \<and> ir_phase r = PhaseActive planned \<and> managed_state_matches env (cfg_document c) r \<longrightarrow>
            a = Some \<lparr>cx_openai_base_url = av_openai_base_url (ir_applied_values r)\<rparr>)) (\<lambda>_. files_at ed x y)"
    unfolding active_integration_def
  proof (rule triple_act[OF loads(1)], rule triple_given, rule triple_act[OF loads(2)], rule triple_given, goal_cases)
    case (1 c l)
    show ?case
    proof (cases l)
      case None
      then show ?thesis using 1 by (auto simp: triple_def)
    next
      case (Some rh)
      then show ?thesis
        using 1 by (cases rh)
          (fastforce simp: triple_def act_def split: sum.splits receipt_phase.splits if_splits intro!: exI[of _ c] exI[of _ "Some rh"])
    qed
  qed
qed



section \<open>An application that is started\<close>

definition example_installed :: world where
  "example_installed = example_codex_world\<lparr>wd_fs := (wd_fs example_codex_world)
     (ap_providers (paths_for_home []) \<mapsto> private_file example_os [])\<rparr>"

definition example_capability :: str where
  "example_capability = replicate 64 (CHR ''0'')"

definition example_url :: str where
  "example_url = ''http://'' @ ''127.0.0.1:8080'' @ ''/'' @ example_capability @ ''/v1''"

text \<open>A system on which every call succeeds, with the one document.\<close>

definition example_services_env :: "(unit, (str \<times> str) list, str) services_env" where
  "example_services_env =
     \<lparr>ve_upgrade = \<lparr>ue_control = example_control_env, ue_suffix = (\<lambda>_. ''s''), ue_receipt_parse = (\<lambda>_. None),
        ue_receipt_text = (\<lambda>_. None)\<rparr>,
      ve_egress = example_env, ve_codex = example_codex_env example_url, ve_editor = example_editor,
      ve_paths = paths_for_home [], ve_oauth = example_oauth, ve_client = offline_client, ve_bind = (\<lambda>_. Bound),
      ve_connect = True, ve_random = Some (replicate 32 (CHR 0x00)), ve_ip_text = (\<lambda>_. ''127.0.0.1'')\<rparr>"

lemma example_services_simps [simp]:
  "ue_control (ve_upgrade example_services_env) = example_control_env" "ve_egress example_services_env = example_env"
  "ve_codex example_services_env = example_codex_env example_url" "ve_editor example_services_env = example_editor"
  "ve_paths example_services_env = paths_for_home []" "ve_connect example_services_env"
  "ve_bind example_services_env port = Bound" "ve_ip_text example_services_env ip = ''127.0.0.1''"
  "ve_random example_services_env = Some (replicate 32 (CHR 0x00))"
  by (simp_all add: example_services_env_def)

lemma example_os_works: "os_works example_os"
  by (simp add: os_works_def) (simp add: example_os_def)

lemma example_stores_os [simp]: "se_os (ce_stores example_control_env) = example_os"
  by (simp add: example_control_env_def example_stores_def)

lemma capability_looks: "looks_like_capability example_capability"
  by (simp add: looks_like_capability_def example_capability_def list_all_iff is_capability_byte_def is_ascii_digit_def)

lemma concat_pairs: "concat (replicate n [c, c]) = replicate (2 * n) c"
  by (induction n) simp_all

lemma example_capability_generated: "generate_ingress_capability example_services_env = Inr example_capability"
proof -
  have "concat (map (\<lambda>b. [''0123456789abcdef'' ! (byte b div 16), ''0123456789abcdef'' ! (byte b mod 16)])
      (replicate n (CHR 0x00))) = replicate (2 * n) (CHR ''0'')" for n
    unfolding map_replicate by (simp add: concat_pairs)
  then have "concat (map (\<lambda>b. [''0123456789abcdef'' ! (byte b div 16), ''0123456789abcdef'' ! (byte b mod 16)])
      (replicate 32 (CHR 0x00))) = example_capability"
    unfolding example_capability_def by (metis mult_numeral_1 mult_2 numeral_Bit0)
  then show ?thesis
    using capability_looks capability_from_hex_Inr[of example_capability example_capability]
    unfolding generate_ingress_capability_def example_services_simps(9) by simp
qed

lemma installed_file: "wd_fs w = wd_fs example_installed \<Longrightarrow>
  fst (load_file example_os (ap_providers (paths_for_home [])) w) = Inr \<lparr>lf_bytes = [], lf_sha256 = []\<rparr> \<and>
  wd_fs (snd (load_file example_os (ap_providers (paths_for_home [])) w)) = wd_fs example_installed"
  using load_works[OF example_os_works, of w "ap_providers (paths_for_home [])" "private_file example_os []"]
  by (simp add: example_installed_def loaded_of_def private_file_def validate_regular_file_def)
    (simp add: example_os_def)

lemma saved_read: "providers_from_yaml example_url_parse (se_yaml example_stores) s = Inr example_saved"
proof -
  have "document_valid example_url_parse example_saved"
    using saved_valid validate_document_valid
    by (simp add: validate_documents_Inr example_control_env_def example_stores_def)
  then show ?thesis
    by (simp add: example_stores_def providers_from_yaml_def providers_validate_iff Let_def SCHEMA_VERSION_def)
qed


lemma missing_works:
  "wd_fs w p = None \<Longrightarrow> fst (load_optional example_os p w) = Inr None \<and> wd_fs (snd (load_optional example_os p w)) = wd_fs w"
  by (simp add: load_optional_def act_match_def load_missing_works[OF example_os_works])

lemma installed_upgrade:
  assumes "wd_fs w = wd_fs example_installed"
  shows "\<exists>w'. upgrade_prepare (ve_upgrade example_services_env) (paths_for_home []) w = (Inr None, w') \<and>
    wd_fs w' = wd_fs example_installed"
proof -
  let ?paths = "paths_for_home []" and ?env = "ve_upgrade example_services_env"
  have dir: "private_directory (wd_fs w) (ap_root ?paths)"
    by (simp add: assms example_installed_def example_codex_world_def private_directory_def example_directory_def
        paths_for_home_def Let_def)
  let ?w1 = "called (wd_fs w) w"
  have root: "ensure_private_directory example_os (ap_root ?paths) w = (Inr (), ?w1)"
    by (rule directory_works(1)[OF example_os_works dir])
  have "wd_fs ?w1 (ap_root ?paths @ [RECEIPT]) = None"
    by (simp add: assms example_installed_def example_codex_world_def paths_for_home_def Let_def RECEIPT_def)
  from missing_works[OF this] obtain w2 where w2: "load_optional example_os (ap_root ?paths @ [RECEIPT]) ?w1 = (Inr None, w2)"
      "wd_fs w2 = wd_fs example_installed"
    using assms by (cases "load_optional example_os (ap_root ?paths @ [RECEIPT]) ?w1") auto
  from installed_file[OF w2(2)] obtain w3 where w3:
      "load_file example_os (ap_providers ?paths) w2 = (Inr \<lparr>lf_bytes = [], lf_sha256 = []\<rparr>, w3)" "wd_fs w3 = wd_fs example_installed"
    by (cases "load_file example_os (ap_providers ?paths) w2") auto
  have "load_optional example_os (ap_providers ?paths) w2 = (Inr (Some \<lparr>lf_bytes = [], lf_sha256 = []\<rparr>), w3)"
    by (simp add: load_optional_def act_match_def w3)
  moreover have "outdated ?env \<lparr>lf_bytes = [], lf_sha256 = []\<rparr> = Inr False"
    using saved_read[of "[]"]
    by (simp add: outdated_def Let_def from_utf8_def utf8_error.simps example_control_env_def) (simp add: example_stores_def)
  ultimately have "upgrade_prepare ?env ?paths w = (Inr None, w3)"
    by (simp add: upgrade_prepare_def act_apply act_map_err_def root w2)
  then show ?thesis using w3(2) by blast
qed

lemma installed_documents:
  assumes "wd_fs w = wd_fs example_installed"
  shows "\<exists>cp w'. control_load example_control_env (paths_for_home []) w = (Inr cp, w') \<and>
    wd_fs w' = wd_fs example_installed \<and> cp_providers cp = example_saved \<and> cp_cache cp = empty_cache"
proof -
  let ?paths = "paths_for_home []"
  from installed_file[OF assms] obtain w1 where w1:
      "load_file example_os (ap_providers ?paths) w = (Inr \<lparr>lf_bytes = [], lf_sha256 = []\<rparr>, w1)" "wd_fs w1 = wd_fs example_installed"
    by (cases "load_file example_os (ap_providers ?paths) w") auto
  have "load_providers_or_default example_control_env (ap_providers ?paths) w = (Inr (example_saved, Some []), w1)"
    using saved_read[of "[]"] w1
    by (simp add: load_providers_or_default_def provider_store_load_def act_match_def act_apply act_map_err_def
        decode_providers_def from_utf8_def utf8_error.simps example_control_env_def) (simp add: example_stores_def)
  moreover have "wd_fs w1 (ap_model_cache ?paths) = None"
    by (simp add: w1(2) example_installed_def example_codex_world_def paths_for_home_def Let_def)
  then have "load_cache_or_default example_control_env (ap_model_cache ?paths) w1 = (Inr (empty_cache, None), called (wd_fs w1) w1)"
    by (simp add: load_cache_or_default_def cache_store_load_def act_match_def act_apply act_map_err_def
        load_missing_works[OF example_os_works])
  ultimately have "control_load example_control_env ?paths w = (Inr \<lparr>cp_provider_path = ap_providers ?paths, cp_cache_path = ap_model_cache ?paths,
             cp_providers = example_saved, cp_provider_sha256 = Some [],
             cp_cache = empty_cache, cp_cache_sha256 = None\<rparr>, called (wd_fs w1) w1)"
    using saved_valid by (simp add: control_load_def act_apply)
  then show ?thesis using w1(2) by simp
qed

lemma installed_codex:
  assumes "wd_fs w = wd_fs example_installed"
  shows "\<exists>w'. active_integration (example_codex_env url) example_editor w = (Inr None, w')"
proof -
  let ?env = "example_codex_env url"
  have os: "os_works (xe_os ?env)" by (simp add: example_os_works)
  have ready: "codex_ready ?env example_editor (wd_fs w) example_current None"
    using example_ready[of url] own_codex_paths[OF example_own]
    by (simp add: assms codex_ready_def example_installed_def paths_for_home_def Let_def room_in_def private_directory_def)
      (simp add: example_os_def)
  from ready_loads(1)[OF os ready] obtain w1 where w1: "load_config ?env example_editor w = (Inr example_current, w1)" "wd_fs w1 = wd_fs w"
    by blast
  with ready have "codex_ready ?env example_editor (wd_fs w1) example_current None" by simp
  from ready_loads(3)[OF os this] w1(1) show ?thesis by (auto simp: active_integration_def act_apply)
qed


lemma saved_ids: "document_ids_ok example_saved"
  using usable_document_ids by (simp add: document_ids_ok_def example_saved_def usable_document_def)

lemma saved_egress: "\<exists>s. egress_state_new example_env example_saved empty_cache base capability = Inr s"
proof -
  have env: "ee_url_parse example_env = example_url_parse" "ee_variables example_env = (\<lambda>_. None)"
    by (simp_all add: example_env_def)
  have valid: "document_valid example_url_parse example_saved" "validate_document example_url_parse example_saved = Inr ()"
      "model_cache_validate empty_cache = Inr ()"
    using saved_valid validate_document_valid
    by (simp_all add: validate_documents_Inr example_control_env_def example_stores_def)
  have "providers_validate example_url_parse example_saved = Inr ()"
    using valid by (simp add: providers_validate_iff)
  moreover have "\<exists>t. build_provider_map example_env example_saved (proxy_read (\<lambda>_. None)) =
      Inr [(prov_id usable_provider, provider_entry example_env t usable_provider)]"
    using example_transport [of example_saved]
    by (auto simp: build_provider_map_def example_saved_def add_provider_def provider_entry_def bt_has_def)
  moreover have "overlay_from_documents example_url_parse example_saved empty_cache = Inr (sort_key fst (overlay_of example_saved))"
    using distinct_overlay_of [OF valid(1) saved_ids] valid by (simp add: overlay_from_documents_Inr)
  moreover have "build_runtime_snapshot example_url_parse example_saved empty_cache = Inr \<lparr>routes = published_routes example_saved\<rparr>"
    using valid by (simp add: build_runtime_snapshot_def snapshot_build_eq)
  ultimately show ?thesis
    using example_transport [of example_saved] by (auto simp: egress_state_new_def env Let_def)
qed

lemma example_starts:
  "\<exists>st w'. services_new example_services_env (Some 8080) ''t'' example_installed = (Inr (None, st), w') \<and>
     cp_providers (sv_control st) = example_saved \<and> es_ingress_capability (sv_egress st) = example_capability \<and>
     sv_address st = ''127.0.0.1:8080''"
proof -
  let ?env = "example_services_env"
  obtain w1 where w1: "upgrade_prepare (ve_upgrade ?env) (paths_for_home []) example_installed = (Inr None, w1)"
      "wd_fs w1 = wd_fs example_installed"
    using installed_upgrade by blast
  obtain cp w2 where cp: "control_load example_control_env (paths_for_home []) w1 = (Inr cp, w2)" "wd_fs w2 = wd_fs example_installed"
      "cp_providers cp = example_saved" "cp_cache cp = empty_cache"
    using installed_documents[OF w1(2)] by blast
  obtain w3 where w3: "active_integration (example_codex_env example_url) example_editor w2 = (Inr None, w3)"
    using installed_codex[OF cp(2)] by blast
  obtain s where s: "egress_state_new example_env example_saved empty_cache OFFICIAL_BASE_URL example_capability = Inr s"
    using saved_egress by blast
  have "listener_host (doc_listener example_saved) = ''127.0.0.1''"
    by (simp add: example_saved_def default_providers_def)
  then have "start_egress ?env (Some 8080) cp None = Inr (s, socket_text ?env (V4 [127, 0, 0, 1]) 8080)"
    using s by (simp add: start_egress_def start_capability_def example_capability_generated parse_ip_addr_localhost cp
        bind_first_available_def listener_ports_def is_loopback_listener_def ip_is_loopback_def)
  then have "services_new ?env (Some 8080) ''t'' example_installed =
      (Inr (None, \<lparr>sv_control = cp, sv_egress = s, sv_address = socket_text ?env (V4 [127, 0, 0, 1]) 8080,
         sv_failure = None, sv_world = w3\<rparr>), w3)"
    by (simp add: services_new_def act_apply act_map_err_def w1 cp(1) w3)
  moreover have "es_ingress_capability s = example_capability" using s by (auto simp: egress_state_new_def Let_def)
  moreover have "socket_text ?env (V4 [127, 0, 0, 1]) 8080 = ''127.0.0.1:8080''"
    by (simp add: socket_text_def dec_string_def radix_string.simps digit_char_def char_of_def bit_iff_odd)
  ultimately show ?thesis using cp(3) by simp
qed

text \<open>The application is started with one provider saved, and sends its model to it.\<close>

theorem runtime_follows_documents_witness:
  "\<exists>st. services_reachable example_services_env st \<and>
     runtime_resolve (es_runtime (sv_egress st)) ''a/m'' = ThirdParty (ProviderId ''a'') (ModelId ''m'')"
proof -
  obtain st w' where st: "services_new example_services_env (Some 8080) ''t'' example_installed = (Inr (None, st), w')"
      "cp_providers (sv_control st) = example_saved"
    using example_starts by blast
  have reach: "services_reachable example_services_env st"
    by (rule services_reachable.started[OF st(1)]) (simp add: st(2) saved_ids)
  have publishes: "usable_provider \<in> set (doc_providers (cp_providers (sv_control st)))"
      "publishes usable_provider (ModelId ''m'')" "prov_id usable_provider = ProviderId ''a''"
    by (simp_all add: st(2) example_saved_def publishes_def usable_provider_def example_provider_def example_model_def)
  have "''a/m'' = catalog_str (for_provider (ProviderId ''a'') (ModelId ''m''))" by (simp add: for_provider_def)
  then have "runtime_resolve (es_runtime (sv_egress st)) ''a/m'' = ThirdParty (ProviderId ''a'') (ModelId ''m'')"
    by (rule runtime_follows_documents[OF reach, THEN conjunct2, THEN conjunct1, rule_format, THEN iffD2, OF conjI])
      (rule bexI[OF _ publishes(1)], rule conjI[OF publishes(3,2)])
  then show ?thesis using reach by (intro exI conjI)
qed


text \<open>The two readings on files that are ready.\<close>

lemma ready_readings:
  assumes "os_works (xe_os env)" "codex_ready env ed (wd_fs w) c (Some (r, h))"
    and "validate_receipt_path ed r = Inr ()"
  shows "\<exists>s w'. inspect_codex env ed w = (Inr s, w') \<and> wd_fs w' = wd_fs w"
    and "\<exists>a w'. active_integration env ed w = (Inr a, w')"
proof -
  obtain w1 where w1: "load_config env ed w = (Inr c, w1)" "wd_fs w1 = wd_fs w"
    using ready_loads(1)[OF assms(1,2)] by blast
  have "codex_ready env ed (wd_fs w1) c (Some (r, h))" using assms(2) w1(2) by simp
  from ready_loads(3)[OF assms(1) this] obtain w2 where w2: "load_receipt env ed w1 = (Inr (Some (r, h)), w2)" "wd_fs w2 = wd_fs w1"
    by blast
  show "\<exists>s w'. inspect_codex env ed w = (Inr s, w') \<and> wd_fs w' = wd_fs w"
    by (simp add: inspect_codex_def act_apply w1 w2 assms(3))
  show "\<exists>a w'. active_integration env ed w = (Inr a, w')"
    by (simp add: active_integration_def act_apply w1(1) w2(1) assms(3))
qed

lemma example_integrates:
  assumes "es_ingress_capability (sv_egress st) = example_capability" "sv_address st = ''127.0.0.1:8080''"
    and "cp_providers (sv_control st) = example_saved" "sv_world st = example_codex_world" "sv_failure st = None"
  shows "\<exists>status st' a w'. set_codex_integration example_services_env True ''t1'' st = (Inr status, st') \<and>
    active_integration (example_codex_env example_url) example_editor (sv_world st') = (Inr a, w')"
proof -
  let ?env = "example_services_env"
  have "\<forall>c \<in> set example_url. byte c < 128"
    by (simp add: example_url_def example_capability_def)
  from example_codex_run[OF this] obtain r w1 h where
    run: "apply_integration (example_codex_env example_url) example_editor (example_integration example_url) ''t1'' example_codex_world =
        (Inr r, w1)"
    and ready: "codex_ready (example_codex_env example_url) example_editor (wd_fs w1) (example_after example_url) (Some (r, h))"
    and r: "r = example_receipt example_url (PhaseActive (rev (example_applied example_url)))"
    by metis
  have path: "validate_receipt_path example_editor r = Inr ()"
    by (simp add: r validate_receipt_path_def example_receipt_def planned_receipt_def)
  have os: "os_works (xe_os (example_codex_env example_url))" by (simp add: example_os_works)
  obtain status w2 where status: "inspect_codex (example_codex_env example_url) example_editor w1 = (Inr status, w2)" "wd_fs w2 = wd_fs w1"
    using ready_readings(1)[OF os ready path] by blast
  have "codex_ready (example_codex_env example_url) example_editor (wd_fs w2) (example_after example_url) (Some (r, h))"
    using ready status(2) by simp
  from ready_readings(2)[OF os this path] obtain a w3 where
    active: "active_integration (example_codex_env example_url) example_editor w2 = (Inr a, w3)" by blast
  have "desired_codex_integration st = Inr (example_integration example_url)"
    by (simp add: desired_codex_integration_def example_saved_def default_providers_def assms
        example_integration_def example_url_def)
  then have "apply_codex_integration ?env ''t1'' st = (Inr (), st\<lparr>sv_world := w1\<rparr>)"
    by (simp add: apply_codex_integration_def act_apply on_world_def act_map_err_def act_ok_def assms run)
  then have "set_codex_integration ?env True ''t1'' st = (Inr status, st\<lparr>sv_world := w2\<rparr>)"
    by (simp add: set_codex_integration_def act_apply verify_egress_ready_def egress_ready_def codex_status_def on_world_def
        act_map_err_def assms) (simp add: status(1))
  then show ?thesis using active by simp
qed



end
