(* ===== verification/Settings.thy ===== *)
theory Settings
  imports Services
begin

text \<open>
  What the settings window does, \<open>settings_state.rs\<close> without its views: the draft of a provider and how it is
  compiled to a configuration, the session with its operations, the queue of the settings that are changed while
  the form stays usable, and the actions on the services. Mutexes are not poisoned and tasks do not panic; the
  translated texts are error constructors, and what the desktop does (dock, start at login) is a parameter.
\<close>

section \<open>Data\<close>

record model_draft =
  md_id :: str
  md_name :: str
  md_enabled :: bool
  md_context_window :: "u64 option"
  md_reasoning_levels :: "str list"
  md_parallel_tools :: "bool option"
  md_search_tool :: "bool option"
  md_metadata_sources :: "(str, metadata_source) btree"

record provider_draft =
  pd_id :: str
  pd_preset :: str
  pd_connection :: str
  pd_name :: str
  pd_endpoint :: str
  pd_model_endpoint :: str
  pd_websocket_endpoint :: str
  pd_websocket :: bool
  pd_protocol :: protocol_id
  pd_models :: "model_draft list"

text \<open>\<open>ProtocolId\<close> has \<open>OpenaiResponses\<close> as its default.\<close>

definition default_draft :: provider_draft where
  "default_draft =
     \<lparr>pd_id = [], pd_preset = [], pd_connection = [], pd_name = [], pd_endpoint = [], pd_model_endpoint = [],
      pd_websocket_endpoint = [], pd_websocket = False, pd_protocol = OpenaiResponses, pd_models = []\<rparr>"

datatype operation_kind = General | Login

datatype setting_kind =
    Theme
  | Locale
  | Dock
  | Startup
  | ProviderEnabled provider_id
  | Integration
  | IntegrationStatus

text \<open>The derived \<open>Ord\<close>: by constructor, then by the identifier.\<close>

fun setting_rank :: "setting_kind \<Rightarrow> nat" where
  "setting_rank Theme = 0"
| "setting_rank Locale = 1"
| "setting_rank Dock = 2"
| "setting_rank Startup = 3"
| "setting_rank (ProviderEnabled _) = 4"
| "setting_rank Integration = 5"
| "setting_rank IntegrationStatus = 6"

fun setting_provider :: "setting_kind \<Rightarrow> provider_id" where
  "setting_provider (ProviderEnabled i) = i"
| "setting_provider _ = ProviderId []"

lemma setting_kind_eq: "setting_rank a = setting_rank b \<Longrightarrow> setting_provider a = setting_provider b \<Longrightarrow> a = b"
  by (cases a; cases b) auto

instantiation setting_kind :: linorder
begin

definition less_eq_setting_kind :: "setting_kind \<Rightarrow> setting_kind \<Rightarrow> bool" where
  "less_eq_setting_kind a b \<longleftrightarrow>
     setting_rank a < setting_rank b \<or> setting_rank a = setting_rank b \<and> setting_provider a \<le> setting_provider b"

definition less_setting_kind :: "setting_kind \<Rightarrow> setting_kind \<Rightarrow> bool" where
  "less_setting_kind a b \<longleftrightarrow>
     setting_rank a < setting_rank b \<or> setting_rank a = setting_rank b \<and> setting_provider a < setting_provider b"

instance
  by standard (auto simp: less_eq_setting_kind_def less_setting_kind_def intro: setting_kind_eq)

end

definition setting_for_action :: "str \<Rightarrow> setting_kind option" where
  "setting_for_action action =
     (if action \<in> set [''theme-system'', ''theme-dark'', ''theme-light''] then Some Theme
      else if action \<in> set [''locale-system'', ''locale-en'', ''locale-zh-CN''] then Some Locale
      else if action \<in> set [''dock-show'', ''dock-hide''] then Some Dock
      else if action \<in> set [''startup-enable'', ''startup-disable''] then Some Startup
      else if action \<in> set [''integration-enable'', ''integration-disable''] then Some Integration
      else if action = ''integration-status'' then Some IntegrationStatus
      else None)"

datatype theme_preference = SystemTheme | DarkTheme | LightTheme

datatype ui_locale = SystemLocale | English | SimplifiedChinese

text \<open>The handle that cancels an operation is its number.\<close>

record session =
  ss_draft :: provider_draft
  ss_credential :: "auth_config option"
  ss_message :: str
  ss_operation_kind :: operation_kind
  ss_busy :: bool
  ss_failed :: bool
  ss_revision :: nat
  ss_theme :: theme_preference
  ss_locale :: ui_locale
  ss_integration :: "str option"
  ss_operation :: nat
  ss_cancel :: "nat option"
  ss_setting_error :: "setting_kind option"
  ss_settings_running :: bool
  ss_setting_queue :: "(setting_kind, str) btree"

definition default_session :: session where
  "default_session =
     \<lparr>ss_draft = default_draft, ss_credential = None, ss_message = [], ss_operation_kind = General, ss_busy = False,
      ss_failed = False, ss_revision = 0, ss_theme = SystemTheme, ss_locale = SystemLocale, ss_integration = None,
      ss_operation = 0, ss_cancel = None, ss_setting_error = None, ss_settings_running = False, ss_setting_queue = []\<rparr>"

definition revised :: "session \<Rightarrow> session" where
  "revised s = s\<lparr>ss_revision := ss_revision s + 1\<rparr>"

section \<open>The queue of settings\<close>

text \<open>Whether a task has to be started, and the session.\<close>

definition enqueue_setting :: "setting_kind \<Rightarrow> str \<Rightarrow> session \<Rightarrow> bool \<times> session" where
  "enqueue_setting kind action s =
     (\<not> ss_settings_running s,
      revised (s\<lparr>ss_setting_queue := bt_insert kind action (ss_setting_queue s), ss_settings_running := True,
        ss_message := [], ss_setting_error := None, ss_failed := False\<rparr>))"

definition next_setting :: "session \<Rightarrow> (setting_kind \<times> str) option \<times> session" where
  "next_setting s =
     (case ss_setting_queue s of
        e # queue \<Rightarrow> (Some e, s\<lparr>ss_setting_queue := queue\<rparr>)
      | [] \<Rightarrow>
          if ss_settings_running s then (None, revised (s\<lparr>ss_settings_running := False\<rparr>)) else (None, s))"

definition finish_setting :: "setting_kind \<Rightarrow> str + str \<Rightarrow> session \<Rightarrow> session" where
  "finish_setting kind result s =
     revised
      (case result of
         Inl error \<Rightarrow>
           s\<lparr>ss_message := error, ss_failed := True, ss_operation_kind := General, ss_setting_error := Some kind\<rparr>
       | Inr notice \<Rightarrow>
           if (case kind of ProviderEnabled _ \<Rightarrow> True | _ \<Rightarrow> False) \<and> notice \<noteq> []
           then s\<lparr>ss_message := notice, ss_failed := False, ss_operation_kind := General, ss_setting_error := None\<rparr>
           else if ss_setting_error s = Some kind
           then s\<lparr>ss_message := [], ss_failed := False, ss_setting_error := None\<rparr>
           else s)"

text \<open>A choice in the window: ignored during an operation.\<close>

definition choose_setting :: "setting_kind \<Rightarrow> str \<Rightarrow> session \<Rightarrow> bool \<times> session" where
  "choose_setting kind action s = (if ss_busy s then (False, s) else enqueue_setting kind action s)"

section \<open>The form\<close>

definition clear_draft :: "session \<Rightarrow> session" where
  "clear_draft s = (if ss_busy s then s else revised (s\<lparr>ss_draft := default_draft, ss_credential := None\<rparr>))"

definition dismiss_message :: "session \<Rightarrow> session" where
  "dismiss_message s = revised (s\<lparr>ss_message := [], ss_setting_error := None, ss_failed := False\<rparr>)"

definition set_message :: "str \<Rightarrow> session \<Rightarrow> session" where
  "set_message m s = revised (s\<lparr>ss_operation_kind := General, ss_setting_error := None, ss_message := m\<rparr>)"

definition model_draft_of :: "provider_model_spec \<Rightarrow> model_draft" where
  "model_draft_of m =
     \<lparr>md_id = model_str (upstream_model_id m), md_name = spec_display_name m, md_enabled = spec_enabled m,
      md_context_window = spec_context_window m, md_reasoning_levels = spec_reasoning_levels m,
      md_parallel_tools = spec_parallel_tool_calls m, md_search_tool = spec_search_tool m,
      md_metadata_sources = spec_metadata_sources m\<rparr>"

definition or_empty :: "str option \<Rightarrow> str" where
  "or_empty x = (case x of Some s \<Rightarrow> s | None \<Rightarrow> [])"

definition draft_of :: "provider_config \<Rightarrow> provider_draft" where
  "draft_of p =
     \<lparr>pd_id = provider_str (prov_id p), pd_preset = prov_preset p, pd_connection = prov_connection p,
      pd_name = prov_name p, pd_endpoint = endpoint_http (prov_endpoints p),
      pd_model_endpoint = or_empty (endpoint_models (prov_endpoints p)),
      pd_websocket_endpoint = or_empty (endpoint_websocket (prov_endpoints p)),
      pd_websocket = websocket (prov_transports p), pd_protocol = prov_protocol p,
      pd_models = map model_draft_of (prov_models p)\<rparr>"

text \<open>\<open>open\<close>: the saved provider becomes the draft, with its credentials.\<close>

definition open_provider :: "str \<Rightarrow> provider_config list \<Rightarrow> session \<Rightarrow> unit option \<times> session" where
  "open_provider i providers s =
     (if ss_busy s then (Some (), s)
      else
        (case find (\<lambda>p. provider_str (prov_id p) = i) providers of
           None \<Rightarrow> (None, s)
         | Some p \<Rightarrow>
             (Some (), revised (s\<lparr>ss_draft := draft_of p, ss_credential := Some (prov_auth p), ss_message := [],
                ss_setting_error := None, ss_operation_kind := General\<rparr>))))"

definition edit_draft :: "provider_draft \<Rightarrow> session \<Rightarrow> session" where
  "edit_draft draft s =
     (if ss_busy s then s
      else s\<lparr>ss_draft := draft, ss_message := [], ss_setting_error := None, ss_operation_kind := General\<rparr>)"

definition enter_secret :: "str \<Rightarrow> session \<Rightarrow> session" where
  "enter_secret key s = (if ss_busy s then s else s\<lparr>ss_credential := Some (Bearer key)\<rparr>)"

text \<open>Another preset empties the form; another connection of the same preset keeps the name and the models.\<close>

definition select_connection :: "str \<Rightarrow> str \<Rightarrow> session \<Rightarrow> unit option \<times> session" where
  "select_connection family_id connection_id s =
     (case find (\<lambda>f. preset_id f = family_id) presets of
        None \<Rightarrow> (None, s)
      | Some f \<Rightarrow>
          (case find (\<lambda>c. conn_id c = connection_id) (preset_connections f) of
             None \<Rightarrow> (None, s)
           | Some c \<Rightarrow>
               if ss_busy s then (Some (), s)
               else
                 (let previous = if pd_preset (ss_draft s) = preset_id f then ss_draft s else default_draft in
                  (Some (), revised (s\<lparr>
                     ss_draft :=
                       \<lparr>pd_id = pd_id previous, pd_preset = preset_id f, pd_connection = conn_id c,
                        pd_name = (if pd_name previous = [] then preset_name f else pd_name previous),
                        pd_endpoint = conn_endpoint c, pd_model_endpoint = or_empty (conn_models_endpoint c),
                        pd_websocket_endpoint = or_empty (conn_websocket_endpoint c),
                        pd_websocket = (conn_websocket_endpoint c \<noteq> None), pd_protocol = conn_protocol c,
                        pd_models = pd_models previous\<rparr>,
                     ss_credential := None, ss_message := [], ss_setting_error := None,
                     ss_operation_kind := General\<rparr>)))))"

section \<open>Operations\<close>

text \<open>
  An operation is begun when nothing else runs; its number is returned. It completes with a text, unless it was
  cancelled, after which its number is no longer the current one.
\<close>

definition begin_operation :: "str \<Rightarrow> session \<Rightarrow> nat option \<times> session" where
  "begin_operation action s =
     (if ss_busy s \<or> ss_settings_running s then (None, s)
      else
        (Some (ss_operation s + 1),
         revised (s\<lparr>ss_busy := True, ss_failed := False, ss_operation := ss_operation s + 1, ss_message := [],
           ss_setting_error := None, ss_operation_kind := (if action = ''login'' then Login else General)\<rparr>)))"

definition make_cancellable :: "str \<Rightarrow> nat \<Rightarrow> session \<Rightarrow> session" where
  "make_cancellable action operation s =
     (if action \<in> set [''login'', ''test'', ''discover''] \<and> ss_busy s \<and> ss_operation s = operation
      then s\<lparr>ss_cancel := Some operation\<rparr> else s)"

definition complete_operation :: "nat \<Rightarrow> str + str \<Rightarrow> session \<Rightarrow> session" where
  "complete_operation operation result s =
     (if ss_operation s \<noteq> operation then s
      else revised (s\<lparr>ss_cancel := None, ss_busy := False, ss_setting_error := None,
             ss_failed := (case result of Inl _ \<Rightarrow> True | Inr _ \<Rightarrow> False),
             ss_message := (case result of Inl m \<Rightarrow> m | Inr m \<Rightarrow> m)\<rparr>))"

definition cancel_operation :: "session \<Rightarrow> session" where
  "cancel_operation s =
     (case ss_cancel s of
        None \<Rightarrow> s
      | Some _ \<Rightarrow>
          revised (s\<lparr>ss_cancel := None, ss_operation := ss_operation s + 1, ss_busy := False, ss_message := [],
            ss_setting_error := None, ss_failed := False\<rparr>))"


section \<open>Compiling the draft\<close>

datatype settings_error =
    NameRequired
  | UnknownPreset
  | UnknownConnection
  | LoginRequired
  | ApiKeyRequired
  | SettingsCore core_error
  | SettingsProvider provider_error

text \<open>The first of \<open>preset\<close>, \<open>preset-2\<close>, \<open>preset-3\<close> that is not taken.\<close>

fun fresh_id :: "nat \<Rightarrow> str list \<Rightarrow> str \<Rightarrow> str \<Rightarrow> nat \<Rightarrow> str option" where
  "fresh_id 0 taken preset i suffix = None"
| "fresh_id (Suc fuel) taken preset i suffix =
     (if i \<in> set taken then fresh_id fuel taken preset (preset @ ''-'' @ dec_string suffix) (suffix + 1) else Some i)"

definition new_provider_id :: "str \<Rightarrow> provider_config list \<Rightarrow> str" where
  "new_provider_id preset providers =
     (case fresh_id (length providers + 1) (map (\<lambda>p. provider_str (prov_id p)) providers) preset preset 2 of
        Some i \<Rightarrow> i
      | None \<Rightarrow> preset)"

definition freshest_credential :: "auth_config option \<Rightarrow> provider_config option \<Rightarrow> auth_config option" where
  "freshest_credential credential saved =
     (case (credential, saved) of
        (Some (OpenAiOAuth _ _ account_id expires_at_unix _ _), Some p) \<Rightarrow>
          (case prov_auth p of
             OpenAiOAuth _ _ saved_account saved_expiry _ _ \<Rightarrow>
               if account_id = saved_account \<and> expires_at_unix < saved_expiry then Some (prov_auth p) else credential
           | _ \<Rightarrow> credential)
      | _ \<Rightarrow> credential)"

text \<open>A field that the draft changes is the choice of the user, unless the draft says where it comes from.\<close>

definition mark_changed :: "str \<times> bool \<Rightarrow> (str, metadata_source) btree \<Rightarrow> (str, metadata_source) btree" where
  "mark_changed = (\<lambda>(field, changed) sources.
     if changed \<and> \<not> bt_has sources field then bt_insert field UserConfirmed sources else sources)"

definition compile_model ::
  "provider_id \<Rightarrow> provider_config option \<Rightarrow> model_draft \<Rightarrow> settings_error + provider_model_spec" where
  "compile_model i saved m =
     and_then (map_err SettingsCore (model_id_new (md_id m))) (\<lambda>u.
     let configured =
           (case Option.bind saved (\<lambda>p. find (\<lambda>s. upstream_model_id s = u) (prov_models p)) of
              Some s \<Rightarrow> s
            | None \<Rightarrow>
                \<lparr>upstream_model_id = u, spec_catalog_id = for_provider i u, spec_display_name = md_name m,
                 spec_enabled = md_enabled m, spec_context_window = None, spec_reasoning_levels = [],
                 spec_parallel_tool_calls = None, spec_search_tool = None, spec_metadata_sources = []\<rparr>);
         sources = fold mark_changed
           [(''display_name'', spec_display_name configured \<noteq> md_name m),
            (''context_window'', spec_context_window configured \<noteq> md_context_window m),
            (''supported_reasoning_levels'', spec_reasoning_levels configured \<noteq> md_reasoning_levels m),
            (''supports_parallel_tool_calls'', spec_parallel_tool_calls configured \<noteq> md_parallel_tools m),
            (''supports_search_tool'', spec_search_tool configured \<noteq> md_search_tool m)]
           (md_metadata_sources m)
     in Inr (configured\<lparr>spec_metadata_sources := sources, spec_display_name := md_name m, spec_enabled := md_enabled m,
          spec_context_window := md_context_window m, spec_reasoning_levels := md_reasoning_levels m,
          spec_parallel_tool_calls := md_parallel_tools m, spec_search_tool := md_search_tool m\<rparr>))"

definition choose_auth :: "credential_kind \<Rightarrow> auth_config option \<Rightarrow> settings_error + auth_config" where
  "choose_auth kind credential =
     (case kind of
        ClaudeCodeLogin \<Rightarrow> Inr ClaudeCode
      | NoCredentials \<Rightarrow> Inr AuthNone
      | OpenaiOAuthLogin \<Rightarrow>
          (case credential of Some (OpenAiOAuth a r i e m f) \<Rightarrow> Inr (OpenAiOAuth a r i e m f) | _ \<Rightarrow> Inl LoginRequired)
      | ApiKey \<Rightarrow> (case credential of Some (Bearer key) \<Rightarrow> Inr (Bearer key) | _ \<Rightarrow> Inl ApiKeyRequired))"

definition compiled_id :: "provider_draft \<Rightarrow> provider_config list \<Rightarrow> settings_error + provider_id" where
  "compiled_id draft providers =
     map_err SettingsCore (provider_id_new
       (if pd_id draft = [] then new_provider_id (pd_preset draft) providers else pd_id draft))"

definition compiled_provider ::
  "provider_draft \<Rightarrow> provider_config option \<Rightarrow> preset_connection \<Rightarrow> provider_id \<Rightarrow> auth_config \<Rightarrow>
     provider_model_spec list \<Rightarrow> provider_config" where
  "compiled_provider draft saved connection i auth models =
     (let oauth = is_oauth auth; direct = (pd_protocol draft = OpenaiResponses \<and> pd_websocket draft) in
      \<lparr>prov_id = i, prov_name = trim (pd_name draft), prov_description = Option.bind saved prov_description,
       prov_enabled = (case saved of None \<Rightarrow> True | Some p \<Rightarrow> prov_enabled p),
       prov_preset = pd_preset draft, prov_connection = pd_connection draft, prov_models = models,
       prov_protocol = pd_protocol draft,
       prov_reasoning_policy =
         (case saved of None \<Rightarrow> conn_reasoning_policy connection | Some p \<Rightarrow> prov_reasoning_policy p),
       prov_anthropic_thinking = Option.bind saved prov_anthropic_thinking,
       prov_endpoints =
         \<lparr>endpoint_http = pd_endpoint draft,
          endpoint_websocket =
            (if oauth then Some OPENAI_OAUTH_WEBSOCKET_ENDPOINT
             else if direct then Some (pd_websocket_endpoint draft) else None),
          endpoint_models =
            (if oauth then Some OPENAI_OAUTH_MODELS_ENDPOINT
             else if pd_model_endpoint draft \<noteq> [] then Some (pd_model_endpoint draft) else None)\<rparr>,
       prov_auth = auth, prov_transports = \<lparr>http_sse = True, websocket = (oauth \<or> direct)\<rparr>\<rparr>)"

text \<open>\<open>collect\<close> into a \<open>Result\<close>: the first error, or all results.\<close>

fun try_map :: "('a \<Rightarrow> 'e + 'b) \<Rightarrow> 'a list \<Rightarrow> 'e + 'b list" where
  "try_map f [] = Inr []"
| "try_map f (x # xs) = and_then (f x) (\<lambda>y. and_then (try_map f xs) (\<lambda>ys. Inr (y # ys)))"

definition compile_instance ::
  "url_parser \<Rightarrow> provider_draft \<Rightarrow> auth_config option \<Rightarrow> provider_config list \<Rightarrow> settings_error + provider_config" where
  "compile_instance url_parse draft credential providers =
     (if trim (pd_name draft) = [] then Inl NameRequired
      else
        and_then (ok_or UnknownPreset (find (\<lambda>f. preset_id f = pd_preset draft) presets)) (\<lambda>f.
        and_then (ok_or UnknownConnection (find (\<lambda>c. conn_id c = pd_connection draft) (preset_connections f))) (\<lambda>connection.
        and_then (compiled_id draft providers) (\<lambda>i.
        let saved = find (\<lambda>p. prov_id p = i) providers;
            credential =
              (case credential of
                 Some c \<Rightarrow> Some c
               | None \<Rightarrow>
                   (case saved of
                      Some p \<Rightarrow> if prov_connection p = pd_connection draft then Some (prov_auth p) else None
                    | None \<Rightarrow> None))
        in
        and_then (choose_auth (conn_credentials connection) (freshest_credential credential saved)) (\<lambda>auth.
        and_then (try_map (compile_model i saved) (pd_models draft)) (\<lambda>models.
        let p = compiled_provider draft saved connection i auth models in
        and_then (map_err SettingsProvider (validate_provider url_parse p)) (\<lambda>_. Inr p)))))))"


section \<open>The queue runs the last choices\<close>

text \<open>
  The tasks that work the queue off, each between two settings (\<open>None\<close>) or with one that is running; what was chosen
  and what was started, the latest first.
\<close>

type_synonym setting_choice = "setting_kind \<times> str"

inductive form_step :: "session \<Rightarrow> session \<Rightarrow> bool" where
  "form_step s (clear_draft s)"
| "form_step s (dismiss_message s)"
| "form_step s (set_message m s)"
| "form_step s (snd (open_provider i providers s))"
| "form_step s (edit_draft draft s)"
| "form_step s (enter_secret key s)"
| "form_step s (snd (select_connection family_id connection_id s))"
| "form_step s (snd (begin_operation action s))"
| "form_step s (make_cancellable action operation s)"
| "form_step s (complete_operation operation result s)"
| "form_step s (cancel_operation s)"
| "form_step s (s\<lparr>ss_draft := draft, ss_credential := credential, ss_theme := theme, ss_locale := ui,
     ss_integration := integration\<rparr>)"

inductive settings_reach ::
  "session \<Rightarrow> setting_choice option list \<Rightarrow> setting_choice list \<Rightarrow> setting_choice list \<Rightarrow> bool" where
  registered: "settings_reach (default_session\<lparr>ss_theme := theme, ss_locale := ui\<rparr>) [] [] []"
| ignored: "settings_reach s tasks chosen begun \<Longrightarrow> ss_busy s \<Longrightarrow> choose_setting kind action s = (start, s') \<Longrightarrow>
    settings_reach s' tasks chosen begun"
| chosen: "settings_reach s tasks chosen begun \<Longrightarrow> \<not> ss_busy s \<Longrightarrow> choose_setting kind action s = (start, s') \<Longrightarrow>
    settings_reach s' (if start then None # tasks else tasks) ((kind, action) # chosen) begun"
| picked: "settings_reach s (a @ None # b) chosen begun \<Longrightarrow> next_setting s = (Some choice, s') \<Longrightarrow>
    settings_reach s' (a @ Some choice # b) chosen (choice # begun)"
| stopped: "settings_reach s (a @ None # b) chosen begun \<Longrightarrow> next_setting s = (None, s') \<Longrightarrow>
    settings_reach s' (a @ b) chosen begun"
| finished: "settings_reach s (a @ Some (kind, action) # b) chosen begun \<Longrightarrow>
    settings_reach (finish_setting kind result s) (a @ None # b) chosen begun"
| formed: "settings_reach s tasks chosen begun \<Longrightarrow> form_step s s' \<Longrightarrow> settings_reach s' tasks chosen begun"

definition queue_ok :: "session \<Rightarrow> setting_choice option list \<Rightarrow> setting_choice list \<Rightarrow> setting_choice list \<Rightarrow> bool" where
  "queue_ok s tasks chosen begun \<longleftrightarrow>
     length tasks = (if ss_settings_running s then 1 else 0) \<and> (ss_settings_running s \<longrightarrow> \<not> ss_busy s) \<and>
     (\<not> ss_settings_running s \<longrightarrow> ss_setting_queue s = []) \<and> bt_ok (ss_setting_queue s) \<and>
     (\<forall>k. bt_get (ss_setting_queue s) k = None \<longrightarrow> map_of begun k = map_of chosen k) \<and>
     (\<forall>k action. bt_get (ss_setting_queue s) k = Some action \<longrightarrow> map_of chosen k = Some action) \<and>
     set begun \<subseteq> set chosen"

lemma form_step_queue:
  assumes "form_step s s'"
  shows "ss_settings_running s' = ss_settings_running s \<and> ss_setting_queue s' = ss_setting_queue s \<and>
    (ss_busy s' \<longrightarrow> ss_busy s \<or> \<not> ss_settings_running s)"
  using assms
  by cases (auto simp: clear_draft_def dismiss_message_def set_message_def open_provider_def edit_draft_def enter_secret_def
      select_connection_def begin_operation_def make_cancellable_def complete_operation_def cancel_operation_def
      revised_def Let_def split: option.splits)

lemma queue_kept:
  assumes "queue_ok s tasks chosen begun" "ss_settings_running s' = ss_settings_running s"
    and "ss_setting_queue s' = ss_setting_queue s" "ss_busy s' \<longrightarrow> ss_busy s \<or> \<not> ss_settings_running s"
    and "length tasks' = length tasks"
  shows "queue_ok s' tasks' chosen begun"
  using assms by (auto simp: queue_ok_def)

lemma reach_queue_ok: "settings_reach s tasks chosen begun \<Longrightarrow> queue_ok s tasks chosen begun"
proof (induction rule: settings_reach.induct)
  case (registered theme ui)
  show ?case by (simp add: queue_ok_def default_session_def)
next
  case (ignored s tasks chosen begun kind action start s')
  then show ?case by (simp add: choose_setting_def)
next
  case (chosen s tasks chosen begun kind action start s')
  then have s': "start = (\<not> ss_settings_running s)" "ss_settings_running s'" "ss_busy s' = ss_busy s"
      "ss_setting_queue s' = bt_insert kind action (ss_setting_queue s)"
    by (auto simp: choose_setting_def enqueue_setting_def revised_def)
  show ?case
    using chosen.IH chosen.hyps(2) unfolding queue_ok_def s'(1,2,4)
    by (auto simp: s' split: if_splits)
next
  case (picked s a b chosen begun choice s')
  obtain queue where queue: "ss_setting_queue s = choice # queue" "s' = s\<lparr>ss_setting_queue := queue\<rparr>"
    using picked.hyps(2) by (auto simp: next_setting_def split: list.splits if_splits)
  have ok: "bt_ok (choice # queue)" using picked.IH queue by (simp add: queue_ok_def)
  then have gone: "bt_get queue (fst choice) = None" by (auto simp: bt_ok_Cons bt_get_None)
  have now: "map_of chosen (fst choice) = Some (snd choice)"
    using picked.IH queue by (auto simp: queue_ok_def bt_get_Cons split: if_splits)
  then have "choice \<in> set chosen" using map_of_SomeD by fastforce
  moreover have "map_of (choice # begun) k = map_of chosen k" if "bt_get queue k = None" for k
    using picked.IH queue now that by (cases "k = fst choice") (auto simp: queue_ok_def bt_get_Cons split: if_splits)
  moreover have "map_of chosen k = Some action" if "bt_get queue k = Some action" for k action
    using picked.IH queue gone that by (cases "k = fst choice") (auto simp: queue_ok_def bt_get_Cons split: if_splits)
  ultimately show ?case
    using picked.IH ok queue by (auto simp: queue_ok_def bt_ok_Cons)
next
  case (stopped s a b chosen begun s')
  then show ?case
    by (auto simp: next_setting_def queue_ok_def revised_def split: list.splits if_splits)
next
  case (finished s a kind action b chosen begun result)
  have "ss_settings_running (finish_setting kind result s) = ss_settings_running s \<and>
      ss_setting_queue (finish_setting kind result s) = ss_setting_queue s \<and> ss_busy (finish_setting kind result s) = ss_busy s"
    by (auto simp: finish_setting_def revised_def split: sum.splits)
  then show ?case by (intro queue_kept[OF finished.IH]) simp_all
next
  case (formed s tasks chosen begun s')
  show ?case
    by (rule queue_kept[OF formed.IH]) (use form_step_queue[OF formed.hyps(2)] in auto)
qed

text \<open>C38: The last choice wins. However the user clicks while settings are being changed, at most one task works the
  queue off and none of it during an operation; each setting waits at most once; nothing is done that was not
  chosen; and when no change is shown as pending, what was last done for every setting is what was last chosen for it.
  While settings are pending no operation can begin, and during an operation no setting can be chosen.\<close>

theorem last_choice_wins:
  assumes "settings_reach s tasks chosen begun"
  shows "length tasks \<le> 1 \<and> (ss_settings_running s \<longleftrightarrow> tasks \<noteq> []) \<and> \<not> (ss_settings_running s \<and> ss_busy s) \<and>
    distinct (map fst (ss_setting_queue s)) \<and> set begun \<subseteq> set chosen \<and>
    (\<not> ss_settings_running s \<longrightarrow> map_of begun = map_of chosen) \<and>
    (\<forall>k action. bt_get (ss_setting_queue s) k = Some action \<longrightarrow> map_of chosen k = Some action) \<and>
    (\<forall>action. ss_settings_running s \<longrightarrow> begin_operation action s = (None, s)) \<and>
    (\<forall>kind action. ss_busy s \<longrightarrow> choose_setting kind action s = (False, s))"
proof -
  have ok: "queue_ok s tasks chosen begun" by (rule reach_queue_ok[OF assms])
  have "map_of begun = map_of chosen" if "\<not> ss_settings_running s"
    using ok that by (auto simp: queue_ok_def)
  moreover have "map_of chosen k = Some action" if "bt_get (ss_setting_queue s) k = Some action" for k action
    using ok that unfolding queue_ok_def by (metis option.simps(5))
  moreover have "length tasks \<le> 1" "ss_settings_running s \<longleftrightarrow> tasks \<noteq> []" "\<not> (ss_settings_running s \<and> ss_busy s)"
      "distinct (map fst (ss_setting_queue s))" "set begun \<subseteq> set chosen"
    using ok bt_ok_distinct[of "ss_setting_queue s"] by (auto simp: queue_ok_def split: if_splits)
  moreover have "begin_operation action s = (None, s)" if "ss_settings_running s" for action
    using that by (simp add: begin_operation_def)
  moreover have "choose_setting kind action s = (False, s)" if "ss_busy s" for kind action
    using that by (simp add: choose_setting_def)
  ultimately show ?thesis by blast
qed

text \<open>Two themes are chosen before the task looks: only the second is set.\<close>

theorem last_choice_wins_witness:
  "\<exists>s. settings_reach s [] [(Theme, ''theme-light''), (Theme, ''theme-dark'')] [(Theme, ''theme-light'')] \<and>
     \<not> ss_settings_running s \<and>
     map_of [(Theme, ''theme-light'')] = map_of [(Theme, ''theme-light''), (Theme, ''theme-dark'')]"
proof -
  let ?dark = "(Theme, ''theme-dark'')" and ?light = "(Theme, ''theme-light'')"
  note defs = choose_setting_def enqueue_setting_def next_setting_def revised_def
  define s0 where "s0 = default_session\<lparr>ss_theme := SystemTheme, ss_locale := SystemLocale\<rparr>"
  have s0: "settings_reach s0 [] [] []" "\<not> ss_busy s0" "\<not> ss_settings_running s0" "ss_setting_queue s0 = []"
    unfolding s0_def by (rule settings_reach.registered) (simp_all add: default_session_def)
  obtain s1 where s1: "choose_setting Theme ''theme-dark'' s0 = (True, s1)" "\<not> ss_busy s1" "ss_settings_running s1"
      "ss_setting_queue s1 = [?dark]"
    using s0(2-4) by (simp add: defs)
  obtain s2 where s2: "choose_setting Theme ''theme-light'' s1 = (False, s2)" "ss_settings_running s2" "ss_setting_queue s2 = [?light]"
    using s1(2-4) by (simp add: defs)
  obtain s3 where s3: "next_setting s2 = (Some ?light, s3)" "ss_settings_running s3" "ss_setting_queue s3 = []"
    using s2(2,3) by (simp add: defs)
  have s4: "ss_settings_running (finish_setting Theme (Inr []) s3)" "ss_setting_queue (finish_setting Theme (Inr []) s3) = []"
    using s3(2,3) by (simp_all add: finish_setting_def revised_def)
  then obtain s5 where s5: "next_setting (finish_setting Theme (Inr []) s3) = (None, s5)" "\<not> ss_settings_running s5"
    by (simp add: defs)
  have "settings_reach s1 [None] [?dark] []"
    using settings_reach.chosen[OF s0(1,2) s1(1)] by simp
  from settings_reach.chosen[OF this s1(2) s2(1)]
  have "settings_reach s2 ([] @ None # []) [?light, ?dark] []" by simp
  from settings_reach.picked[OF this s3(1)]
  have "settings_reach (finish_setting Theme (Inr []) s3) ([] @ None # []) [?light, ?dark] [?light]"
    by (rule settings_reach.finished)
  from settings_reach.stopped[OF this s5(1)]
  have reach: "settings_reach s5 [] [?light, ?dark] [?light]" by simp
  show ?thesis using last_choice_wins[OF reach] reach s5(2) by blast
qed

section \<open>What a compiled draft is\<close>

fun leads :: "str \<Rightarrow> bool" where
  "leads [] \<longleftrightarrow> False"
| "leads [a] \<longleftrightarrow> ws1 a"
| "leads [a, b] \<longleftrightarrow> ws1 a \<or> ws2 a b"
| "leads (a # b # c # s) \<longleftrightarrow> ws1 a \<or> ws2 a b \<or> ws3 a b c"

lemma leads_trimmed [simp]: "\<not> leads (trim_start s)"
  by (induction s rule: trim_start.induct) auto

lemma trim_start_id: "\<not> leads s \<Longrightarrow> trim_start s = s"
  by (cases s rule: leads.cases) auto

lemma leads_prefix: "leads s \<Longrightarrow> leads (s @ t)"
  by (cases s rule: leads.cases; cases t rule: leads.cases) auto

lemma tail_Cons: "\<exists>t. s = t @ u \<Longrightarrow> \<exists>t. x # s = t @ u"
  by (metis append_Cons)

lemma trim_back_tail: "\<exists>t. s = t @ trim_back s"
  by (induction s rule: trim_back.induct) (auto intro: tail_Cons simp del: append_eq_Cons_conv Cons_eq_append_conv)

lemma trim_back_idem: "trim_back (trim_back s) = trim_back s"
  by (induction s rule: trim_back.induct) auto

lemma trim_idem [simp]: "trim (trim s) = trim s"
proof -
  obtain t where t: "rev (trim_start s) = t @ trim_back (rev (trim_start s))" using trim_back_tail by metis
  then have "trim_start s = trim s @ rev t"
    by (metis rev_append rev_rev_ident trim_def trim_end_def)
  then have "\<not> leads (trim s)" using leads_prefix leads_trimmed by metis
  then have "trim_start (trim s) = trim s" by (rule trim_start_id)
  then show ?thesis
    unfolding trim_def[of "trim s"] by (simp add: trim_def trim_end_def trim_back_idem)
qed


lemma radix_string_nonempty: "radix_string b n \<noteq> []"
  by (subst radix_string.simps) simp

lemma digit_char_inj: "a < 10 \<Longrightarrow> b < 10 \<Longrightarrow> digit_char a = digit_char b \<Longrightarrow> a = b"
  using arg_cong[of "digit_char a" "digit_char b" "of_char :: char \<Rightarrow> nat"] by (simp add: digit_char_def)

lemma dec_string_inj: "dec_string n = dec_string m \<Longrightarrow> n = m"
proof (induction n arbitrary: m rule: less_induct)
  case (less n)
  have eq: "radix_string 10 n = radix_string 10 m" using less.prems by (simp add: dec_string_def)
  show ?case
  proof (cases "n < 10 \<or> m < 10")
    case True
    then have "n < 10 \<and> m < 10 \<and> digit_char n = digit_char m"
      using eq radix_string_nonempty[of 10 "n div 10"] radix_string_nonempty[of 10 "m div 10"]
      by (subst (asm) (1 2) radix_string.simps) (auto split: if_splits)
    then show ?thesis using digit_char_inj by blast
  next
    case False
    then have "radix_string 10 (n div 10) = radix_string 10 (m div 10)" "digit_char (n mod 10) = digit_char (m mod 10)"
      using eq by (subst (asm) (1 2) radix_string.simps, simp)+
    then have "n div 10 = m div 10" "n mod 10 = m mod 10"
      using less.IH[of "n div 10" "m div 10"] False digit_char_inj[of "n mod 10" "m mod 10"] by (simp_all add: dec_string_def)
    then show ?thesis by (metis mult_div_mod_eq)
  qed
qed


lemma fresh_id_None:
  "fresh_id fuel taken preset (preset @ ''-'' @ dec_string s) (s + 1) = None \<Longrightarrow>
   (\<lambda>k. preset @ ''-'' @ dec_string (s + k)) ` {..<fuel} \<subseteq> set taken"
proof (induction fuel arbitrary: s)
  case (Suc fuel)
  then have first: "preset @ ''-'' @ dec_string s \<in> set taken"
      "fresh_id fuel taken preset (preset @ ''-'' @ dec_string (s + 1)) (s + 1 + 1) = None"
    by (simp_all split: if_splits)
  from Suc.IH[OF first(2)] first(1) show ?case
    by (auto simp: image_subset_iff less_Suc_eq_0_disj)
qed simp

lemma fresh_id_not_taken: "fresh_id fuel taken preset i s = Some j \<Longrightarrow> j \<notin> set taken"
  by (induction fuel taken preset i s rule: fresh_id.induct) (auto split: if_splits)

text \<open>As many tries as there are providers, and one more, are enough.\<close>

lemma fresh_id_enough: "fresh_id (length taken + 1) taken preset preset 2 \<noteq> None"
proof
  let ?ids = "\<lambda>k. preset @ ''-'' @ dec_string (2 + k)"
  assume none: "fresh_id (length taken + 1) taken preset preset 2 = None"
  then have preset: "preset \<in> set taken" and rest: "fresh_id (length taken) taken preset (?ids 0) (2 + 1) = None"
    by (auto split: if_splits)
  from fresh_id_None[OF rest[unfolded add_0_right]] preset
  have "insert preset (?ids ` {..<length taken}) \<subseteq> set taken" by simp
  then have "card (insert preset (?ids ` {..<length taken})) \<le> length taken"
    using card_mono[of "set taken"] card_length[of taken] by (meson List.finite_set le_trans)
  moreover have "inj_on ?ids {..<length taken}"
    by (rule inj_onI) (auto dest: dec_string_inj)
  then have "card (insert preset (?ids ` {..<length taken})) = Suc (length taken)"
    by (subst card_insert_disjoint) (auto simp: card_image)
  ultimately show False by simp
qed

lemma new_id_fresh: "ProviderId (new_provider_id preset providers) \<notin> prov_id ` set providers"
proof -
  let ?taken = "map (\<lambda>p. provider_str (prov_id p)) providers"
  obtain j where j: "fresh_id (length ?taken + 1) ?taken preset preset 2 = Some j"
    using fresh_id_enough[of ?taken preset] by blast
  then have "new_provider_id preset providers = j" by (simp add: new_provider_id_def)
  moreover have "provider_str (prov_id q) \<noteq> j" if "q \<in> set providers" for q
    using fresh_id_not_taken[OF j] that by auto
  ultimately show ?thesis by (metis imageE provider_id.sel)
qed

lemma try_map_Inr: "try_map f xs = Inr ys \<longleftrightarrow> list_all2 (\<lambda>x y. f x = Inr y) xs ys"
  by (induction xs arbitrary: ys) (auto simp: list_all2_Cons1)

text \<open>The parts of a provider that was compiled.\<close>

lemma compile_instance_Inr:
  assumes "compile_instance url_parse draft credential providers = Inr p"
  obtains f c auth models where "trim (pd_name draft) \<noteq> []" "find (\<lambda>f. preset_id f = pd_preset draft) presets = Some f"
    "find (\<lambda>c. conn_id c = pd_connection draft) (preset_connections f) = Some c"
    "compiled_id draft providers = Inr (prov_id p)"
    "choose_auth (conn_credentials c) (freshest_credential
       (case credential of
          Some c \<Rightarrow> Some c
        | None \<Rightarrow>
            (case find (\<lambda>q. prov_id q = prov_id p) providers of
               Some q \<Rightarrow> if prov_connection q = pd_connection draft then Some (prov_auth q) else None
             | None \<Rightarrow> None))
       (find (\<lambda>q. prov_id q = prov_id p) providers)) = Inr auth"
    "list_all2 (\<lambda>m s. compile_model (prov_id p) (find (\<lambda>q. prov_id q = prov_id p) providers) m = Inr s) (pd_models draft) models"
    "p = compiled_provider draft (find (\<lambda>q. prov_id q = prov_id p) providers) c (prov_id p) auth models"
    "validate_provider url_parse p = Inr ()"
proof -
  obtain f c i auth models where parts: "trim (pd_name draft) \<noteq> []" "find (\<lambda>f. preset_id f = pd_preset draft) presets = Some f"
    "find (\<lambda>c. conn_id c = pd_connection draft) (preset_connections f) = Some c"
    "compiled_id draft providers = Inr i"
    "choose_auth (conn_credentials c) (freshest_credential
       (case credential of
          Some c \<Rightarrow> Some c
        | None \<Rightarrow>
            (case find (\<lambda>q. prov_id q = i) providers of
               Some q \<Rightarrow> if prov_connection q = pd_connection draft then Some (prov_auth q) else None
             | None \<Rightarrow> None))
       (find (\<lambda>q. prov_id q = i) providers)) = Inr auth"
    "try_map (compile_model i (find (\<lambda>q. prov_id q = i) providers)) (pd_models draft) = Inr models"
    "p = compiled_provider draft (find (\<lambda>q. prov_id q = i) providers) c i auth models"
    "validate_provider url_parse p = Inr ()"
    using assms unfolding compile_instance_def Let_def
    by (simp split: if_splits) blast
  have i: "i = prov_id p" by (simp add: parts(7) compiled_provider_def Let_def)
  show thesis by (rule that[OF parts[unfolded try_map_Inr i]])
qed

lemma compile_model_Inr:
  assumes "compile_model i saved m = Inr s"
  shows "model_id_new (md_id m) = Inr (upstream_model_id s) \<and> md_id m = model_str (upstream_model_id s) \<and>
    spec_display_name s = md_name m \<and> spec_enabled s = md_enabled m \<and> spec_context_window s = md_context_window m \<and>
    spec_reasoning_levels s = md_reasoning_levels m \<and> spec_parallel_tool_calls s = md_parallel_tools m \<and>
    spec_search_tool s = md_search_tool m"
proof -
  obtain u where u: "model_id_new (md_id m) = Inr u" using assms by (auto simp: compile_model_def)
  then have "md_id m = model_str u" by (auto simp: model_id_new_def split: if_splits)
  with u assms show ?thesis
    by (auto simp: compile_model_def Let_def find_Some_iff split: option.splits bind_splits)
qed


lemma choose_auth_again: "choose_auth kind credential = Inr auth \<Longrightarrow> choose_auth kind (Some auth) = Inr auth"
  by (auto simp: choose_auth_def split: credential_kind.splits option.splits auth_config.splits)

lemma freshest_own: "prov_auth p = auth \<Longrightarrow> freshest_credential (Some auth) (Some p) = Some auth"
  by (auto simp: freshest_credential_def split: auth_config.splits)

lemma freshest_bearer: "freshest_credential x saved = Some (Bearer key) \<Longrightarrow> x = Some (Bearer key)"
  by (auto simp: freshest_credential_def split: option.splits auth_config.splits if_splits)

lemma validated_distinct: "validate_provider url_parse p = Inr () \<Longrightarrow> distinct (map upstream_model_id (prov_models p))"
  by (auto simp: validate_provider_def provider_validate_iff provider_valid_def models_consistent_def)

lemma find_distinct:
  "distinct (map f xs) \<Longrightarrow> x \<in> set xs \<Longrightarrow> find (\<lambda>y. f y = f x) xs = Some x"
  by (induction xs) (auto simp: rev_image_eqI)

lemma compile_again:
  assumes "s \<in> set (prov_models p)" "distinct (map upstream_model_id (prov_models p))"
    and "model_id_new (model_str (upstream_model_id s)) = Inr (upstream_model_id s)"
  shows "compile_model i (Some p) (model_draft_of s) = Inr s"
  using assms(3) find_distinct[OF assms(2,1)]
  by (simp add: compile_model_def model_draft_of_def mark_changed_def Let_def)

lemma find_Some_in: "find P xs = Some x \<Longrightarrow> x \<in> set xs \<and> P x"
  by (auto simp: find_Some_iff in_set_conv_nth)

lemma compiled_fields:
  "prov_id (compiled_provider draft saved c i auth models) = i"
  "prov_name (compiled_provider draft saved c i auth models) = trim (pd_name draft)"
  "prov_preset (compiled_provider draft saved c i auth models) = pd_preset draft"
  "prov_connection (compiled_provider draft saved c i auth models) = pd_connection draft"
  "prov_models (compiled_provider draft saved c i auth models) = models"
  "prov_auth (compiled_provider draft saved c i auth models) = auth"
  by (simp_all add: compiled_provider_def Let_def)

lemma compiled_provider_again:
  assumes "p = compiled_provider draft saved c i auth models"
  shows "compiled_provider (draft_of p) (Some p) c' i auth models = p"
  unfolding assms
  by (rule provider_config.equality) (auto simp: compiled_provider_def draft_of_def or_empty_def Let_def)

text \<open>C39: A draft is compiled to what the user sees. The result is a provider the application accepts, with valid
  identifiers. A new one gets an identifier no other provider has and is enabled; an existing one keeps its identifier,
  its switch, its description, its reasoning policy and its thinking mode. The models are those of the draft, in order,
  field by field. An API key is the one that was entered or, when none was, that of the same provider over the same
  connection: no key goes to another connection.\<close>

theorem compiled_as_shown:
  assumes run: "compile_instance url_parse draft credential providers = Inr p"
  shows "validate_provider url_parse p = Inr () \<and> provider_ids_ok p \<and>
    (pd_id draft = [] \<longrightarrow> prov_id p \<notin> prov_id ` set providers \<and> prov_enabled p) \<and>
    (pd_id draft \<noteq> [] \<longrightarrow> prov_id p = ProviderId (pd_id draft)) \<and>
    (\<forall>q. find (\<lambda>q. prov_id q = prov_id p) providers = Some q \<longrightarrow>
       prov_enabled p = prov_enabled q \<and> prov_description p = prov_description q \<and>
       prov_reasoning_policy p = prov_reasoning_policy q \<and> prov_anthropic_thinking p = prov_anthropic_thinking q) \<and>
    list_all2 (\<lambda>m s. md_id m = model_str (upstream_model_id s) \<and> spec_display_name s = md_name m \<and>
       spec_enabled s = md_enabled m \<and> spec_context_window s = md_context_window m \<and>
       spec_reasoning_levels s = md_reasoning_levels m \<and> spec_parallel_tool_calls s = md_parallel_tools m \<and>
       spec_search_tool s = md_search_tool m) (pd_models draft) (prov_models p) \<and>
    (\<forall>key. prov_auth p = Bearer key \<longrightarrow> credential = Some (Bearer key) \<or>
       credential = None \<and> (\<exists>q \<in> set providers. prov_id q = prov_id p \<and> prov_connection q = prov_connection p \<and>
         prov_auth q = Bearer key))"
  using run
proof (cases rule: compile_instance_Inr)
  case (1 f c auth models)
  let ?saved = "find (\<lambda>q. prov_id q = prov_id p) providers"
  have p: "prov_models p = models" "prov_auth p = auth" "prov_connection p = pd_connection draft"
      "prov_enabled p = (case ?saved of None \<Rightarrow> True | Some q \<Rightarrow> prov_enabled q)"
      "prov_description p = Option.bind ?saved prov_description"
      "prov_anthropic_thinking p = Option.bind ?saved prov_anthropic_thinking"
      "prov_reasoning_policy p = (case ?saved of None \<Rightarrow> conn_reasoning_policy c | Some q \<Rightarrow> prov_reasoning_policy q)"
    by (subst 1(7); simp add: compiled_provider_def Let_def)+
  have "provider_id_new (if pd_id draft = [] then new_provider_id (pd_preset draft) providers else pd_id draft) = Inr (prov_id p)"
    using 1(4) by (simp add: compiled_id_def)
  then have i: "prov_id p = ProviderId (if pd_id draft = [] then new_provider_id (pd_preset draft) providers else pd_id draft)"
      "provider_id_ok (prov_id p)"
    by (auto simp: provider_id_new_Inr provider_id_ok_def)
  have new: "prov_id p \<notin> prov_id ` set providers \<and> prov_enabled p" if "pd_id draft = []"
  proof -
    have "prov_id p \<notin> prov_id ` set providers" using new_id_fresh i(1) that by simp
    moreover have "\<forall>q \<in> set providers. prov_id q \<noteq> prov_id p" using calculation by (metis imageI)
    then have "?saved = None" by (simp add: find_None_iff)
    ultimately show ?thesis unfolding p by simp
  qed
  have fields: "list_all2 (\<lambda>m s. model_id_new (md_id m) = Inr (upstream_model_id s) \<and> md_id m = model_str (upstream_model_id s) \<and>
       spec_display_name s = md_name m \<and> spec_enabled s = md_enabled m \<and> spec_context_window s = md_context_window m \<and>
       spec_reasoning_levels s = md_reasoning_levels m \<and> spec_parallel_tool_calls s = md_parallel_tools m \<and>
       spec_search_tool s = md_search_tool m) (pd_models draft) models"
    by (rule list_all2_mono[OF 1(6)]) (rule compile_model_Inr)
  have shown: "list_all2 (\<lambda>m s. md_id m = model_str (upstream_model_id s) \<and> spec_display_name s = md_name m \<and>
       spec_enabled s = md_enabled m \<and> spec_context_window s = md_context_window m \<and>
       spec_reasoning_levels s = md_reasoning_levels m \<and> spec_parallel_tool_calls s = md_parallel_tools m \<and>
       spec_search_tool s = md_search_tool m) (pd_models draft) (prov_models p)"
    unfolding p by (rule list_all2_mono[OF fields]) (erule conjunct2)
  have "model_id_ok (upstream_model_id s)" if "s \<in> set (prov_models p)" for s
    using that fields unfolding p by (fastforce simp: list_all2_conv_all_nth in_set_conv_nth model_id_ok_def)
  then have ids: "provider_ids_ok p" using i(2) by (simp add: provider_ids_ok_def)
  have key: "credential = Some (Bearer key) \<or> credential = None \<and>
      (\<exists>q \<in> set providers. prov_id q = prov_id p \<and> prov_connection q = prov_connection p \<and> prov_auth q = Bearer key)"
    if "prov_auth p = Bearer key" for key
  proof -
    let ?chosen = "case credential of
          Some c \<Rightarrow> Some c
        | None \<Rightarrow>
            (case ?saved of
               Some q \<Rightarrow> if prov_connection q = pd_connection draft then Some (prov_auth q) else None
             | None \<Rightarrow> None)"
    have "freshest_credential ?chosen ?saved = Some (Bearer key)"
      using 1(5) that unfolding p
      by (auto simp: choose_auth_def split: credential_kind.splits option.splits auth_config.splits)
    then have "?chosen = Some (Bearer key)"
      by (rule freshest_bearer)
    then show ?thesis
    proof (cases credential)
      case None
      then obtain q where "?saved = Some q" "prov_connection q = pd_connection draft" "prov_auth q = Bearer key"
        using \<open>?chosen = Some (Bearer key)\<close> by (cases ?saved) (auto split: if_splits)
      with find_Some_in[OF this(1)] show ?thesis using None p(3) by (intro disjI2 conjI bexI[of _ q]) simp_all
    qed simp
  qed
  have kept: "prov_enabled p = prov_enabled q \<and> prov_description p = prov_description q \<and>
      prov_reasoning_policy p = prov_reasoning_policy q \<and> prov_anthropic_thinking p = prov_anthropic_thinking q"
    if "?saved = Some q" for q
    unfolding p(4-7) that by simp
  have named: "prov_id p = ProviderId (pd_id draft)" if "pd_id draft \<noteq> []" using i(1) that by simp
  show ?thesis
    using 1(8) ids by (intro conjI allI impI new named shown key) (simp_all add: kept new)
qed

text \<open>C40: Opening a provider and saving it changes nothing. When a provider that was compiled is saved, the draft that opening it
  shows is compiled to exactly the same provider, whatever other providers there are: its models with their sources,
  its endpoints, its transports, its credentials and its switch.\<close>

theorem open_save_roundtrip:
  assumes run: "compile_instance url_parse draft credential providers = Inr p"
    and saved: "find (\<lambda>q. prov_id q = prov_id p) others = Some p" and idle: "\<not> ss_busy s"
  shows "\<exists>s'. open_provider (provider_str (prov_id p)) others s = (Some (), s') \<and>
    compile_instance url_parse (ss_draft s') (ss_credential s') others = Inr p"
  using run
proof (cases rule: compile_instance_Inr)
  case (1 f c auth models)
  let ?saved = "find (\<lambda>q. prov_id q = prov_id p) providers"
  have same_id: "(\<lambda>q. provider_str (prov_id q) = provider_str (prov_id p)) = (\<lambda>q. prov_id q = prov_id p)"
    by (rule ext) (metis provider_id.expand)
  have found: "find (\<lambda>q. provider_str (prov_id q) = provider_str (prov_id p)) others = Some p"
    unfolding same_id by (rule saved)
  obtain s' where s': "open_provider (provider_str (prov_id p)) others s = (Some (), s')"
      "ss_draft s' = draft_of p" "ss_credential s' = Some (prov_auth p)"
    using idle found by (simp add: open_provider_def revised_def)
  have p: "prov_name p = trim (pd_name draft)" "prov_preset p = pd_preset draft" "prov_connection p = pd_connection draft"
      "prov_models p = models" "prov_auth p = auth"
    using 1(7) compiled_fields by metis+
  have i: "provider_id_new (provider_str (prov_id p)) = Inr (prov_id p)" "provider_str (prov_id p) \<noteq> []"
    using 1(4) by (auto simp: compiled_id_def provider_id_new_Inr split: if_splits)
  have id: "compiled_id (draft_of p) others = Inr (prov_id p)"
    by (simp add: compiled_id_def draft_of_def i)
  have again: "choose_auth (conn_credentials c) (freshest_credential (Some (prov_auth p)) (Some p)) = Inr auth"
    using choose_auth_again[OF 1(5)] by (simp add: freshest_own p)
  have "compile_model (prov_id p) (Some p) (model_draft_of m) = Inr m" if "m \<in> set (prov_models p)" for m
  proof (rule compile_again[OF that validated_distinct[OF 1(8)]])
    have "list_all2 (\<lambda>d s. model_id_new (model_str (upstream_model_id s)) = Inr (upstream_model_id s)) (pd_models draft) models"
      by (rule list_all2_mono[OF 1(6)]) (metis compile_model_Inr)
    then show "model_id_new (model_str (upstream_model_id m)) = Inr (upstream_model_id m)"
      using that unfolding p by (auto simp: list_all2_conv_all_nth in_set_conv_nth)
  qed
  then have models: "try_map (compile_model (prov_id p) (Some p)) (map model_draft_of (prov_models p)) = Inr (prov_models p)"
    by (auto simp: try_map_Inr list_all2_conv_all_nth)
  have same: "compiled_provider (draft_of p) (Some p) c (prov_id p) auth (prov_models p) = p"
    using compiled_provider_again[OF 1(7)] unfolding p(4) .
  have chosen: "find (\<lambda>f. preset_id f = pd_preset (draft_of p)) presets = Some f"
      "find (\<lambda>c. conn_id c = pd_connection (draft_of p)) (preset_connections f) = Some c"
      "trim (pd_name (draft_of p)) \<noteq> []" "pd_models (draft_of p) = map model_draft_of (prov_models p)"
    using 1(1-3) by (simp_all only: draft_of_def provider_draft.simps p(1-3) trim_idem not_False_eq_True)
  have "compile_instance url_parse (draft_of p) (Some (prov_auth p)) others = Inr p"
    by (simp only: compile_instance_def Let_def chosen if_False ok_or_simps and_then_simps id saved again models same 1(8)
        option.case map_err_simps)
  then show ?thesis using s' by (intro exI[of _ s']) simp
qed


lemma example_compiles:
  "compile_instance example_url_parse (draft_of usable_provider) (Some (Bearer ''key'')) [] = Inr usable_provider"
proof -
  let ?d = "draft_of usable_provider"
  let ?c = "preset_connection_new ''api'' ''custom'' OpenaiResponses ''''"
  have d: "pd_name ?d = ''A''" "pd_preset ?d = ''custom''" "pd_connection ?d = ''api''" "pd_id ?d = ''a''"
      "pd_models ?d = map model_draft_of (prov_models usable_provider)"
    by (simp_all add: draft_of_def usable_provider_def example_provider_def)
  have "trim ''A'' \<noteq> []" by (simp add: trim_eval)
  moreover have "find (\<lambda>f. preset_id f = ''custom'') presets = Some (family ''custom'' ''Custom'' ''custom'' [?c])"
    by (simp add: presets_def family_def)
  moreover have "find (\<lambda>c. conn_id c = ''api'') (preset_connections (family ''custom'' ''Custom'' ''custom'' [?c])) = Some ?c"
    by (simp add: family_def preset_connection_new_def)
  moreover have "compiled_id ?d [] = Inr (ProviderId ''a'')"
    using example_ids_ok by (simp add: compiled_id_def d provider_id_ok_def example_document_def example_provider_def document_ids_ok_def)
  moreover have "choose_auth (conn_credentials ?c) (freshest_credential (Some (Bearer ''key'')) None) = Inr (Bearer ''key'')"
    by (simp add: choose_auth_def freshest_credential_def preset_connection_new_def)
  moreover have "try_map (compile_model (ProviderId ''a'') None) (pd_models ?d) = Inr (prov_models usable_provider)"
    using example_ids_ok unfolding d(5)
    by (simp add: usable_provider_def example_provider_def example_model_def model_draft_of_def compile_model_def
        mark_changed_def Let_def for_provider_def document_ids_ok_def example_document_def model_id_ok_def)
  moreover have "compiled_provider ?d None ?c (ProviderId ''a'') (Bearer ''key'') (prov_models usable_provider) = usable_provider"
    by (simp add: compiled_provider_def draft_of_def usable_provider_def example_provider_def preset_connection_new_def
        is_oauth_def oauth_account_id_def or_empty_def trim_eval)
  ultimately show ?thesis
    by (simp only: compile_instance_def d Let_def if_False ok_or_simps and_then_simps find.simps option.case map_err_simps
        usable_provider_validated)
qed

text \<open>A draft with two models and a key that was entered.\<close>

theorem compiled_as_shown_witness:
  "\<exists>p. compile_instance example_url_parse (draft_of usable_provider) (Some (Bearer ''key'')) [] = Inr p \<and>
     validate_provider example_url_parse p = Inr () \<and> prov_id p = ProviderId ''a'' \<and>
     map (\<lambda>m. model_str (upstream_model_id m)) (prov_models p) = [''m'', ''n'']"
proof -
  note shown = compiled_as_shown[OF example_compiles]
  have "prov_id usable_provider = ProviderId (pd_id (draft_of usable_provider))"
    using shown by (simp add: draft_of_def usable_provider_def example_provider_def)
  moreover have "validate_provider example_url_parse usable_provider = Inr ()" using shown by blast
  ultimately show ?thesis
    using example_compiles by (simp add: usable_provider_def example_provider_def draft_of_def example_model_def)
qed

text \<open>The same provider, opened after it was saved.\<close>

theorem open_save_roundtrip_witness:
  "\<exists>s'. open_provider ''a'' [usable_provider] default_session = (Some (), s') \<and>
     compile_instance example_url_parse (ss_draft s') (ss_credential s') [usable_provider] = Inr usable_provider"
  using open_save_roundtrip[OF example_compiles, of "[usable_provider]" default_session]
  by (simp add: default_session_def usable_provider_def example_provider_def)


section \<open>Preferences\<close>

text \<open>
  \<open>ui_preferences.rs\<close> and the store of the locale, \<open>localization.rs\<close>. A value is kept in a file of its own; the
  reader and the printer of the values are parameters.
\<close>

datatype preference_error = PreferenceMetadata | PreferenceFile secure_file_error | PreferenceText str

definition preference_missing :: "os \<Rightarrow> path \<Rightarrow> (preference_error, bool) io" where
  "preference_missing os p =
     act_match (sys_metadata os p) (\<lambda>_. act_ok False)
       (\<lambda>e. if e = IoNotFound then act_ok True else act_err PreferenceMetadata)"

definition load_value :: "os \<Rightarrow> (str \<Rightarrow> str + 'v) \<Rightarrow> 'v \<Rightarrow> path \<Rightarrow> (preference_error, 'v) io" where
  "load_value os read_text otherwise p =
     act (preference_missing os p) (\<lambda>missing.
     if missing then act_ok otherwise
     else
       act (act_map_err PreferenceFile (load_file os p)) (\<lambda>loaded.
       act_of (map_err PreferenceText (read_text (lf_bytes loaded)))))"

definition save_value :: "os \<Rightarrow> ('v \<Rightarrow> str + str) \<Rightarrow> path \<Rightarrow> 'v \<Rightarrow> (preference_error, unit) io" where
  "save_value os print_text p v =
     act (preference_missing os p) (\<lambda>missing.
     act (if missing then act_ok None
          else act (act_map_err PreferenceFile (load_file os p)) (\<lambda>loaded. act_ok (Some (lf_sha256 loaded)))) (\<lambda>previous.
     act (act_of (map_err PreferenceText (print_text v))) (\<lambda>bytes.
     act (act_map_err PreferenceFile (write_file os p previous bytes)) (\<lambda>_. act_ok ()))))"

definition locale_code :: "ui_locale \<Rightarrow> str" where
  "locale_code l = (case l of SystemLocale \<Rightarrow> ''system'' | English \<Rightarrow> ''en'' | SimplifiedChinese \<Rightarrow> ''zh-CN'')"

definition locale_from_identifier :: "str \<Rightarrow> ui_locale" where
  "locale_from_identifier identifier =
     (let normalized = to_ascii_lowercase (map (\<lambda>c. if c = CHR ''_'' then CHR ''-'' else c) (trim identifier)) in
      if normalized = ''system'' then SystemLocale
      else if normalized = ''zh'' \<or> starts_with ''zh-hans'' normalized \<or> starts_with ''zh-cn'' normalized \<or>
        starts_with ''zh-sg'' normalized
      then SimplifiedChinese else English)"

definition read_locale :: "str \<Rightarrow> str + ui_locale option" where
  "read_locale bytes =
     and_then (map_err (\<lambda>_. ''not UTF-8'') (from_utf8 bytes)) (\<lambda>s.
     let code = trim s in
     if code = ''system'' then Inr (Some SystemLocale)
     else if code = ''en'' then Inr (Some English)
     else if code = ''zh-CN'' then Inr (Some SimplifiedChinese)
     else Inl code)"

definition locale_bytes :: "ui_locale \<Rightarrow> str + str" where
  "locale_bytes l = Inr (locale_code l @ [CHR 0x0A])"

definition load_locale :: "os \<Rightarrow> path \<Rightarrow> (preference_error, ui_locale option) io" where
  "load_locale os = load_value os read_locale None"

definition save_locale :: "os \<Rightarrow> path \<Rightarrow> ui_locale \<Rightarrow> (preference_error, unit) io" where
  "save_locale os = save_value os locale_bytes"

lemma locale_read_back: "and_then (locale_bytes l) read_locale = Inr (Some l)"
proof -
  have "from_utf8 (locale_code l @ [CHR 0x0A]) = Inr (locale_code l @ [CHR 0x0A])"
    by (rule utf8_ascii) (cases l; simp add: locale_code_def)
  moreover have "trim (locale_code l @ [CHR 0x0A]) = locale_code l"
    by (cases l) (simp_all add: locale_code_def trim_eval)
  ultimately show ?thesis
    by (cases l) (simp_all add: locale_bytes_def read_locale_def Let_def locale_code_def)
qed

text \<open>A preference that was saved is the one that is loaded.\<close>

lemma preference_read_back:
  assumes "own_file os p" "save_value os print_text p v w = (Inr (), w1)" "load_value os read_text otherwise p w1 = (Inr v', w2)"
  shows "\<exists>bytes. print_text v = Inr bytes \<and> read_text bytes = Inr v'"
proof -
  have exact: "exact os p" using assms(1) by (simp add: own_file_def)
  obtain previous l v0 where "act (act_of (map_err PreferenceText (print_text v)))
      (\<lambda>bytes. act_map_err PreferenceFile (write_with_policy os p previous bytes PolicyPrivate True)) v0 = (Inr l, w1)"
    using assms(2) unfolding save_value_def write_file_def act_Inr by (auto simp: act_of_def act_ok_def split: if_splits)
  from stored_save_writes[OF assms(1) this] obtain bytes where
    bytes: "print_text v = Inr bytes" "wd_fs w1 p = Some (private_file os bytes)" by auto
  obtain missing w' where missing: "preference_missing os p w1 = (Inr missing, w')"
      "(if missing then act_ok otherwise
        else act (act_map_err PreferenceFile (load_file os p)) (\<lambda>loaded.
          act_of (map_err PreferenceText (read_text (lf_bytes loaded))))) w' = (Inr v', w2)"
    using assms(3) unfolding load_value_def act_Inr by auto
  have at: "wd_fs w' p = wd_fs w1 p" "missing \<longrightarrow> wd_fs w1 p = None"
    using missing(1) exact
    by (auto simp: preference_missing_def act_match_def sys_metadata_def sys_call_def exact_def Let_def
        split: if_splits option.splits)
  then obtain loaded w'' where loaded: "load_file os p w' = (Inr loaded, w'')" "read_text (lf_bytes loaded) = Inr v'"
  proof -
    have "\<not> missing" using at bytes(2) by simp
    from missing(2)[unfolded if_not_P[OF this]] show thesis
      using that unfolding act_Inr act_map_err_Inr act_of_Inr by auto
  qed
  from triple_Inr[OF load_value[OF exact, of "wd_fs w' p"] refl loaded(1)] show ?thesis
    using bytes loaded(2) at(1) by (auto simp: loaded_of_def private_file_def)
qed


section \<open>Actions\<close>

text \<open>
  What the actions do to the session and the services. The time is a parameter, so is what happens to the
  services while a model list is requested, and so is the discovery client, with its timeouts and limits. The notice of a change of the integration is \<open>None\<close> when all went well.
\<close>

datatype action_error =
    DraftError settings_error
  | ActionService service_error
  | InvalidProvider core_error
  | DiscoveryFailed
  | TestFailed
  | FingerprintFailed provider_error
  | ClaudeMissing
  | LoginFailed oauth_error

type_synonym window = "session \<times> services"

definition compile_draft ::
  "('y, 'd, 'i) services_env \<Rightarrow> window \<Rightarrow> settings_error + provider_config" where
  "compile_draft env = (\<lambda>(s, st).
     compile_instance (ee_url_parse (ve_egress env)) (ss_draft s) (ss_credential s)
       (doc_providers (cp_providers (sv_control st))))"

definition on_services :: "(services, service_error, 'a) action \<Rightarrow> (window, action_error, 'a) action" where
  "on_services m = (\<lambda>(s, st). case m st of (r, st) \<Rightarrow> (map_err ActionService r, (s, st)))"

definition on_session :: "(session \<Rightarrow> session) \<Rightarrow> (window, action_error, unit) action" where
  "on_session f = (\<lambda>(s, st). (Inr (), (f s, st)))"

definition save_draft ::
  "('y, 'd, 'i) services_env \<Rightarrow> str \<Rightarrow> (window, action_error, service_error option) action" where
  "save_draft env timestamp = (\<lambda>x.
     act (act_of (map_err DraftError (compile_draft env x))) (\<lambda>p.
     act (on_services (apply_provider_mutation env (SaveProvider p) timestamp)) (\<lambda>out.
     act (on_session (\<lambda>s. s\<lparr>ss_draft := (ss_draft s)\<lparr>pd_id := provider_str (mo_provider_id out)\<rparr>\<rparr>)) (\<lambda>_.
     act_ok (mo_codex_warning out)))) x)"

definition switch_provider ::
  "('y, 'd, 'i) services_env \<Rightarrow> provider_id \<Rightarrow> bool \<Rightarrow> str \<Rightarrow> (window, action_error, service_error option) action" where
  "switch_provider env i enabled timestamp =
     act (on_services (apply_provider_mutation env (SetProviderEnabled i enabled) timestamp)) (\<lambda>out.
     act_ok (mo_codex_warning out))"

definition remove_existing ::
  "('y, 'd, 'i) services_env \<Rightarrow> str \<Rightarrow> (window, action_error, service_error option) action" where
  "remove_existing env timestamp = (\<lambda>x.
     act (act_of (map_err InvalidProvider (provider_id_new (pd_id (ss_draft (fst x)))))) (\<lambda>i.
     act (on_services (apply_provider_mutation env (RemoveProvider i) timestamp)) (\<lambda>out.
     act (on_session (\<lambda>s. s\<lparr>ss_draft := default_draft, ss_credential := None\<rparr>)) (\<lambda>_.
     act_ok (mo_codex_warning out)))) x)"

definition integration_label :: "codex_config_status \<Rightarrow> str" where
  "integration_label status =
     (case cs_receipt_phase status of
        Some (PhaseActive _) \<Rightarrow> if cs_managed_values_match status then ''active'' else ''changed''
      | Some (PhasePrepared _) \<Rightarrow> ''changed''
      | _ \<Rightarrow> ''inactive'')"

definition integration_action ::
  "('y, 'd, 'i) services_env \<Rightarrow> str \<Rightarrow> str \<Rightarrow> (window, action_error, unit) action" where
  "integration_action env action timestamp =
     act (on_services
       (if action = ''integration-status'' then codex_status env
        else set_codex_integration env (action = ''integration-enable'') timestamp)) (\<lambda>status.
     on_session (\<lambda>s. s\<lparr>ss_integration := Some (integration_label status)\<rparr>))"

text \<open>Where the executable of Claude Code is, is asked of the system.\<close>

definition login_action ::
  "('y, 'd, 'i) services_env \<Rightarrow> bool \<Rightarrow> (window, action_error, unit) action" where
  "login_action env claude_found = (\<lambda>x.
     (if pd_preset (ss_draft (fst x)) = ''anthropic''
      then (if claude_found then act_ok () else act_err ClaudeMissing)
      else act (act_of (map_err LoginFailed (snd (login_with_browser (ve_oauth env))))) (\<lambda>auth.
           on_session (\<lambda>s. s\<lparr>ss_credential := Some auth\<rparr>))) x)"

text \<open>The models found replace those of the draft with the same identifier; new ones are appended.\<close>

definition merge_found_model :: "provider_model_spec \<Rightarrow> model_draft list \<Rightarrow> model_draft list" where
  "merge_found_model m models =
     (let replacement = model_draft_of m in
      case update_first (\<lambda>d. md_id d = md_id replacement) (\<lambda>_. replacement) models of
        Some models \<Rightarrow> models
      | None \<Rightarrow> models @ [replacement])"

definition discovered_cache :: "discovery_client \<Rightarrow> provider_config \<Rightarrow> provider_error + provider_model_cache" where
  "discovered_cache client p =
     and_then (profile_routing_fingerprint (dc_codec client) (dc_sha256_hex client)
       (resolve_provider (dc_sha256_hex client) p)) (\<lambda>fingerprint.
     Inr \<lparr>config_fingerprint = fingerprint, last_successful_refresh_at = [],
          cache_source = model_source (resolve_provider (dc_sha256_hex client) p), cache_models = prov_models p\<rparr>)"

definition discover_action ::
  "('y, 'd, 'i) services_env \<Rightarrow> bool \<Rightarrow> u64 \<Rightarrow> (services \<Rightarrow> services) \<Rightarrow> bool \<Rightarrow> str \<Rightarrow>
     (window, action_error, str option) action" where
  "discover_action env claude_found now others wanted timestamp = (\<lambda>x.
     act (act_of (map_err DraftError (compile_draft env x))) (\<lambda>p.
     if prov_auth p = ClaudeCode
     then (if claude_found then act_ok None else act_err ClaudeMissing)
     else
       act (act_of (map_err FingerprintFailed (discovered_cache (ve_client env) p))) (\<lambda>existing.
       act (act_map_err (\<lambda>_. if wanted then DiscoveryFailed else TestFailed)
         (on_services (refresh_provider_models env now others p (Some existing) timestamp wanted))) (\<lambda>out.
       act (on_session (\<lambda>s. s\<lparr>ss_credential := Some (prov_auth (ro_provider out))\<rparr>)) (\<lambda>_.
       if \<not> wanted then act_ok None
       else act (on_session (\<lambda>s. s\<lparr>ss_draft := (ss_draft s)\<lparr>pd_models :=
              fold merge_found_model (cache_models (preview_cache (ro_preview out))) (pd_models (ss_draft s))\<rparr>\<rparr>)) (\<lambda>_.
            act_ok (ro_registry_warning out)))))) x)"

lemma on_services_Inr:
  "on_services m (s, st) = (Inr a, x) \<longleftrightarrow> (\<exists>st'. m st = (Inr a, st') \<and> x = (s, st'))"
  by (cases "m st") (auto simp: on_services_def)

lemma find_only: "p \<in> set xs \<Longrightarrow> P p \<Longrightarrow> \<forall>q \<in> set xs. P q \<longrightarrow> q = p \<Longrightarrow> find P xs = Some p"
  by (metis find_None_iff find_Some_in not_None_eq)

lemma upserted: "find (\<lambda>q. prov_id q = prov_id p) (doc_providers (upsert_provider doc p)) = Some p"
proof (cases "find (\<lambda>q. prov_id q = prov_id p) (doc_providers doc)")
  case None
  then have none: "update_first (\<lambda>q. prov_id q = prov_id p) (\<lambda>_. p) (doc_providers doc) = None"
    unfolding update_first_find by (simp only: option.case)
  have sorted: "doc_providers (upsert_provider doc p) = sort_key prov_id (doc_providers doc @ [p])"
    unfolding upsert_provider_def none by simp
  have others: "\<forall>q \<in> set (doc_providers doc). prov_id q \<noteq> prov_id p"
    using None unfolding find_None_iff by blast
  show ?thesis
    unfolding sorted
  proof (rule find_only)
    show "\<forall>q \<in> set (sort_key prov_id (doc_providers doc @ [p])). prov_id q = prov_id p \<longrightarrow> q = p"
      unfolding set_sort set_append using others by auto
  qed simp_all
next
  case (Some q)
  then show ?thesis by (rule saved_upsert)
qed

text \<open>A draft that was saved is shown under its identifier: saving it again changes that provider and adds none.\<close>

lemma save_keeps_identity:
  assumes "save_draft env t (s, st) = (Inr warning, (s', st'))"
  shows "\<exists>p. compile_draft env (s, st) = Inr p \<and> pd_id (ss_draft s') = provider_str (prov_id p) \<and>
    saved_provider st' (prov_id p) = Some p"
proof -
  obtain p out st1 where p: "compile_draft env (s, st) = Inr p"
      "apply_provider_mutation env (SaveProvider p) t st = (Inr out, st1)" "st' = st1"
      "s' = s\<lparr>ss_draft := (ss_draft s)\<lparr>pd_id := provider_str (mo_provider_id out)\<rparr>\<rparr>"
    using assms unfolding save_draft_def act_Inr act_of_Inr
    by (elim exE conjE) (auto simp: on_session_def act_ok_def on_services_Inr)
  from p(2) obtain i st2 where i: "publish env (SaveProvider p) st = (Inr i, st2)" "mo_provider_id out = i" "same_services st2 st1"
    by (cases rule: apply_mutation_parts) auto
  from i(1) show ?thesis
  proof (cases rule: publish_cases)
    case (3 prepared runtime)
    from 3(2) have "mutate (ve_control env) (sv_control st) (SaveProvider p) = Inr prepared"
      by (auto simp: prepare_mutation_def)
    then have new: "pm_providers prepared = upsert_provider (cp_providers (sv_control st)) p" "pm_provider_id prepared = prov_id p"
      unfolding mutate_def control_mutation.case by (metis Inr_inject prepared_mutation.select_convs)+
    have "find (\<lambda>q. prov_id q = prov_id p) (doc_providers (upsert_provider (cp_providers (sv_control st)) p)) = Some p"
      by (rule upserted)
    then show ?thesis using p(1,3,4) i(2,3) 3(1,6) new by (simp add: saved_provider_def same_services_def)
  qed simp_all
qed

end
