(* ===== verification/Spec2Isabelle.thy ===== *)
theory Spec2Isabelle
  imports Routing Proxy ModelList ResponsesProperties AnthropicRequests Discovery HttpProperties HttpBody WsSession Settings
begin

text \<open>
  A verification of Provider X, a local router between the Codex client and AI model providers. The client talks
  to one address on this machine; a request for a model of the account goes to the official service, a request for
  a model of a configured provider is converted to that provider's protocol and sent to it with its credentials.
  The application keeps the providers in documents, writes its address into the configuration of Codex and shows
  a settings window. Paths are below \<open>src/crates\<close>.

  \<^bold>\<open>Parts and theories.\<close> The order is that of the imports; each theory opens with what it holds.

  \<^item> The language: \<open>RustStd\<close> (\<open>Result\<close> as a sum, \<open>Option\<close>, the action monad for \<open>&mut self\<close>, triples), \<open>RustNum\<close>
    (machine integers), \<open>RustStr\<close> (UTF-8 strings as lists of bytes, trimming, splitting, numbers), \<open>BTree\<close>
    (\<open>BTreeMap\<close>), \<open>Json\<close> (\<open>serde_json::Value\<close>; its parser and printer are a parameter), \<open>IpAddr\<close>.
  \<^item> \<open>provider-x-core\<close>: \<open>CoreModel\<close> (\<open>model.rs\<close>), \<open>CoreConfig\<close> (\<open>config.rs\<close>), \<open>Routing\<close> (\<open>snapshot.rs\<close>, \<open>route.rs\<close>),
    \<open>Proxy\<close> (\<open>proxy.rs\<close>); and \<open>Network\<close> (\<open>provider-x-network\<close>).
  \<^item> \<open>provider-x-protocol\<close>: \<open>ResponsesRequest\<close> (paths, inspection and rewriting of a request), \<open>Sse\<close>, \<open>Bridge\<close> and
    \<open>QueuedStream\<close> (framing, the two traits of \<open>lib.rs\<close>), \<open>ResponsesBridge\<close>, \<open>ChatBridge\<close>, \<open>AnthropicInput\<close> and
    \<open>AnthropicBridge\<close> (the three \<open>bridge.rs\<close>), \<open>OutputEmitter\<close> and \<open>EmitterQueue\<close> (\<open>output.rs\<close>), \<open>ModelList\<close>; their
    properties are in \<open>ResponsesProperties\<close>, \<open>ChatProperties\<close>, \<open>AnthropicProperties\<close> and \<open>AnthropicRequests\<close>.
  \<^item> \<open>provider-x-providers\<close>: \<open>Providers\<close> (presets, profiles, plans) and \<open>Credentials\<close> (headers for a third party),
    \<open>OAuth\<close> (\<open>openai_oauth/auth.rs\<close>).
  \<^item> \<open>provider-x-catalog\<close>: \<open>Catalog\<close> (\<open>compiler.rs\<close>), \<open>ErrorText\<close>, \<open>Refresh\<close> (\<open>manual_refresh.rs\<close>,
    \<open>model_registry.rs\<close>), \<open>Discovery\<close> (\<open>discovery.rs\<close>).
  \<^item> \<open>provider-x-egress\<close>: \<open>Headers\<close>, \<open>EgressState\<close> (\<open>state.rs\<close>) and \<open>Ingress\<close> (who is let in, and what a runtime
    promises), \<open>HttpProxy\<close> (\<open>server.rs\<close>, \<open>request_body.rs\<close>) with \<open>HttpProperties\<close>, \<open>HttpBody\<close> (\<open>timeouts.rs\<close> and
    the two HTTP bridges), \<open>WsRelay\<close> (\<open>ws_proxy.rs\<close>), \<open>WsRunner\<close> (\<open>ws_http_runner.rs\<close>,
    \<open>ws_protocol_bridge.rs\<close>) and \<open>WsSession\<close> (a whole session).
  \<^item> \<open>provider-x-app\<close>: \<open>Files\<close> (\<open>storage/atomic_file.rs\<close> over a file system), \<open>Stores\<close> (the three stores of
    documents), \<open>ControlPlane\<close> (\<open>control_plane.rs\<close>), \<open>CodexConfig\<close> (\<open>codex_config\<close>), \<open>Upgrade\<close>
    (\<open>storage/provider_upgrade.rs\<close>), \<open>Services\<close> (\<open>runtime.rs\<close>) and \<open>Settings\<close> (\<open>settings_state.rs\<close>,
    \<open>ui_preferences.rs\<close>, the store of \<open>localization.rs\<close>).

  \<^bold>\<open>How the code is read.\<close> A struct is a record, an enum a datatype, both with the names of the source under a
  prefix. A function that can fail gives a sum, with the error on the left, and a method that changes its object
  gives the result with the new object, an error included: what a method leaves behind when it fails is part of
  the model. Sizes are \<open>nat\<close> with the checked or saturating operations of the code, integers that travel are words.
  What the outside does is a parameter or an input: the outcome of a send, the bytes of a body, the messages
  of a socket in the order they are awaited, the time, random bytes, the calls of the operating system, each of
  which may fail, stop half way or find that another process was there before it. Parsers and printers of JSON, YAML and TOML,
  URLs, Base64 and SHA-256 are parameters; where a theorem needs them to read back what they wrote, that is a
  named hypothesis, and its witness has a library for which it holds.

  \<^bold>\<open>Interfaces.\<close> \<open>route_resolver\<close> and its extension \<open>provider_runtime\<close> (what a router owes the data plane;
  interpreted by the snapshot and by the runtime), \<open>event_decoder\<close> and \<open>queued_stream\<close> (a decoder does not see how the
  network cuts a stream, and stays in its bounds; the three bridges), \<open>bridge_session\<close> and \<open>replay_merge\<close> (the history of
  a session; the three sessions), \<open>bridged_session\<close> (the runner over any adapter; three adapters), \<open>document_store\<close>
  (what is saved is loaded, a stale save is refused; providers, model cache, registry and the receipt of Codex).

  \<^bold>\<open>What is shown.\<close>
  \<^item> Routing (\<open>Routing\<close>, \<open>Catalog\<close>, \<open>Ingress\<close>, \<open>Services\<close>): a model goes to the provider that publishes it and to no other, an
    unknown one with a namespace nowhere; the catalog offers what the router routes, and is the official one followed by
    the models published; a runtime is complete and reloads keep it so; and in every state of the application the
    runtime is the one of the documents.
  \<^item> Isolation (\<open>Ingress\<close>, \<open>Credentials\<close>, \<open>HttpProperties\<close>, \<open>WsSession\<close>, \<open>OAuth\<close>): who gets in, what goes where over
    HTTP and WebSockets, which headers a third party sees, and that a login takes only its own callback.
  \<^item> Conversion: the requests of the three bridges, their streams (whatever the network cuts, with every event in order, each
    item finished once and reasoning shown from one source), their bounds, the bodies that deliver them, and the
    sessions: one request at a time, and an answer that is under way is delivered before a shutdown.
  \<^item> Models (\<open>Refresh\<close>, \<open>ModelList\<close>): lists are read as they are, a refresh is consistent, keeps what the user edited
    and fills gaps only.
  \<^item> Persistence (\<open>Files\<close>, \<open>ControlPlane\<close>, \<open>CodexConfig\<close>, \<open>Services\<close>): at every call of the operating system a file has
    its old or its new contents, the documents on disk are a pair the application starts with, and the configuration
    of Codex can be restored or applied again and finds the application after a restart.
  \<^item> Settings: the last choice is the one that is made, a draft is compiled to what is shown, and opening and saving
    changes nothing.

  \<^bold>\<open>Defects that the proofs met\<close> are lemmas beside the theorems they limit: \<open>output_index_collision\<close>,
  \<open>crlf_cut_changes_stream\<close>, \<open>anthropic_defaults_stuck\<close>, \<open>registry_overrides_confirmed\<close>,
  \<open>capability_after_empty_segment_logged\<close>, \<open>binary_request_unchecked\<close>, \<open>followup_keeps_first_model\<close>,
  \<open>refresh_undoes_changes\<close>; and the integration with Codex is recoverable only while an active one is not given another address.

  \<^bold>\<open>Recursion and fuel.\<close> Loops over data are structural or have a measure. Two have fuel: \<open>drive\<close>, which polls a body
  (the theorem on the bodies has the bound that is enough), and \<open>fresh_id\<close>, the search for a free identifier
  (one try more than there are providers, \<open>fresh_id_enough\<close>). Loops that wait for the outside read a list of
  what arrives, or are step relations with invariants over all their runs (\<open>egress_reachable\<close>, \<open>relay_reach\<close>,
  \<open>bridge_reach\<close>, \<open>emitter_reach\<close>, \<open>services_reachable\<close>, \<open>settings_reach\<close>).

  \<^bold>\<open>Not modelled.\<close> The views of the settings window (\<open>settings.rs\<close>, \<open>settings/\<close>), the desktop integration
  (\<open>desktop.rs\<close>, \<open>platform/\<close>, \<open>main.rs\<close>) and the log (\<open>runtime_log.rs\<close>) are calls of gpui, AppKit and tracing without state
  of their own; the texts of \<open>localization.rs\<close> are a library's. \<open>claude_code.rs\<close> runs a process of another program and reads its
  output; \<open>single_instance.rs\<close> holds a lock of the operating system. Of the servers, accepting connections, TLS, the
  upgrade to a WebSocket and the tasks are tokio and hyper. \<open>provider-x-contract-probe\<close> is a tool that
  records traffic for the tests. Mutexes are not poisoned and memory does not run out.
\<close>

end
